(* ===== verification/Prelude.thy ===== *)
theory Prelude imports Main "HOL-Library.Word"
begin

text \<open>
  What every component shares: C integers of a fixed width, C division, counted loops,
  byte memory with \<open>memcpy\<close>, and the error numbers of \<open>errno.h\<close>.

  A C integer is an \<open>int\<close>; where the code stores it in a narrower type the conversion is
  written out (\<open>to_u32\<close>, \<open>to_i32\<close>, ...), so wrap-around is visible.  Memory is flat: an
  address is an \<open>int\<close>, \<open>0\<close> is \<open>NULL\<close>.
\<close>

unbundle bit_operations_syntax

named_theorems cint \<open>range conditions under which a C conversion is the identity\<close>
named_theorems memory \<open>reading memory after a copy\<close>

section \<open>Error numbers\<close>

abbreviation (input) EPERM :: int where "EPERM \<equiv> 1"
abbreviation (input) EIO :: int where "EIO \<equiv> 5"
abbreviation (input) ENXIO :: int where "ENXIO \<equiv> 6"
abbreviation (input) EAGAIN :: int where "EAGAIN \<equiv> 11"
abbreviation (input) ENOMEM :: int where "ENOMEM \<equiv> 12"
abbreviation (input) EFAULT :: int where "EFAULT \<equiv> 14"
abbreviation (input) EINVAL :: int where "EINVAL \<equiv> 22"
abbreviation (input) ENOSYS :: int where "ENOSYS \<equiv> 38"
abbreviation (input) ETIME :: int where "ETIME \<equiv> 62"
abbreviation (input) ELIBACC :: int where "ELIBACC \<equiv> 79"
abbreviation (input) EILSEQ :: int where "EILSEQ \<equiv> 84"
abbreviation (input) EISCONN :: int where "EISCONN \<equiv> 106"

section \<open>C integers\<close>

definition to_u16 :: "int \<Rightarrow> int" where
  "to_u16 x = x mod 2 ^ 16"

definition to_u32 :: "int \<Rightarrow> int" where
  "to_u32 x = x mod 2 ^ 32"

definition to_u64 :: "int \<Rightarrow> int" where
  "to_u64 x = x mod 2 ^ 64"

definition to_i16 :: "int \<Rightarrow> int" where
  "to_i16 x = (x + 2 ^ 15) mod 2 ^ 16 - 2 ^ 15"

definition to_i32 :: "int \<Rightarrow> int" where
  "to_i32 x = (x + 2 ^ 31) mod 2 ^ 32 - 2 ^ 31"

lemma to_u16_id [cint]: "0 \<le> x \<Longrightarrow> x < 2 ^ 16 \<Longrightarrow> to_u16 x = x"
  by (simp add: to_u16_def)

lemma to_u32_id [cint]: "0 \<le> x \<Longrightarrow> x < 2 ^ 32 \<Longrightarrow> to_u32 x = x"
  by (simp add: to_u32_def)

lemma to_u64_id [cint]: "0 \<le> x \<Longrightarrow> x < 2 ^ 64 \<Longrightarrow> to_u64 x = x"
  by (simp add: to_u64_def)

lemma to_i16_id [cint]: "- (2 ^ 15) \<le> x \<Longrightarrow> x < 2 ^ 15 \<Longrightarrow> to_i16 x = x"
  by (simp add: to_i16_def)

lemma to_i32_id [cint]: "- (2 ^ 31) \<le> x \<Longrightarrow> x < 2 ^ 31 \<Longrightarrow> to_i32 x = x"
  by (simp add: to_i32_def)

lemma to_u32_range: "0 \<le> to_u32 x" "to_u32 x < 2 ^ 32"
  by (simp_all add: to_u32_def)

lemma to_i32_range: "- (2 ^ 31) \<le> to_i32 x" "to_i32 x < 2 ^ 31"
proof -
  have "0 \<le> (x + 2 ^ 31) mod 2 ^ 32" "(x + 2 ^ 31) mod 2 ^ 32 < (2 ^ 32 :: int)"
    by (rule pos_mod_sign pos_mod_bound; simp)+
  then show "- (2 ^ 31) \<le> to_i32 x" "to_i32 x < 2 ^ 31"
    by (simp_all add: to_i32_def)
qed

lemma nat_fits_u32: "n < 2 ^ 32 \<Longrightarrow> int n < 2 ^ 32"
  by simp

lemma le_times: "0 < n \<Longrightarrow> p \<le> n * (p :: nat)"
  by (cases n) simp_all

text \<open>C division truncates towards zero and its remainder has the sign of the dividend.\<close>

definition cdiv :: "int \<Rightarrow> int \<Rightarrow> int" where
  "cdiv a b = sgn a * sgn b * (\<bar>a\<bar> div \<bar>b\<bar>)"

definition crem :: "int \<Rightarrow> int \<Rightarrow> int" where
  "crem a b = a - b * cdiv a b"

lemma cdiv_nonneg: "0 \<le> a \<Longrightarrow> 0 < b \<Longrightarrow> cdiv a b = a div b"
  by (cases "a = 0") (simp_all add: cdiv_def)

lemma crem_nonneg: "0 \<le> a \<Longrightarrow> 0 < b \<Longrightarrow> crem a b = a mod b"
  by (simp add: crem_def cdiv_nonneg minus_mult_div_eq_mod)

lemma crem_abs:
  assumes "0 < b"
  shows "crem a b = sgn a * (\<bar>a\<bar> mod b)"
proof (cases "0 \<le> a")
  case True
  then show ?thesis
    using assms by (cases "a = 0") (simp_all add: crem_nonneg)
next
  case False
  then show ?thesis
    using assms by (simp add: crem_def cdiv_def minus_mult_div_eq_mod [symmetric] algebra_simps)
qed

lemma crem_bound:
  assumes "0 < b"
  shows "\<bar>crem a b\<bar> < b"
  using assms by (cases "a = 0") (simp_all add: crem_abs abs_mult)

section \<open>Counted loops\<close>

text \<open>\<open>for (i=0; i<n; i++) body\<close>: the body sees the index and the state.\<close>

primrec for_n :: "nat \<Rightarrow> (nat \<Rightarrow> 's \<Rightarrow> 's) \<Rightarrow> 's \<Rightarrow> 's" where
  "for_n 0 body s = s"
| "for_n (Suc n) body s = body n (for_n n body s)"

lemma for_n_cong [fundef_cong]:
  assumes "n = n'" "s = s'" and "\<And>i t. i < n' \<Longrightarrow> body i t = body' i t"
  shows "for_n n body s = for_n n' body' s'"
proof -
  have "m \<le> n' \<Longrightarrow> for_n m body s = for_n m body' s" for m
    by (induction m) (auto simp: assms(3))
  then show ?thesis using assms(1,2) by simp
qed

lemma for_n_invariant:
  assumes "P 0 s" and "\<And>i t. i < n \<Longrightarrow> P i t \<Longrightarrow> P (Suc i) (body i t)"
  shows "P n (for_n n body s)"
proof -
  have "m \<le> n \<Longrightarrow> P m (for_n m body s)" for m
    by (induction m) (auto simp: assms)
  then show ?thesis by simp
qed

lemma for_n_add: "for_n (m + n) body s = for_n n (\<lambda>i. body (m + i)) (for_n m body s)"
  by (induction n) simp_all

text \<open>A nested loop of \<open>r\<close> rows and \<open>c\<close> columns is one loop of \<open>r * c\<close> steps.\<close>

lemma for_n_nested:
  "for_n r (\<lambda>y s. for_n c (\<lambda>x. body (y * c + x)) s) s = for_n (r * c) body s"
proof (induction r)
  case 0
  show ?case by simp
next
  case (Suc r)
  have "for_n (Suc r * c) body s = for_n (r * c + c) body s"
    by (simp add: add.commute)
  then show ?case
    by (simp add: for_n_add Suc.IH)
qed

text \<open>A loop whose body may leave the model (undefined behaviour, \<open>None\<close>), and a loop with
  \<open>return\<close> inside: \<open>Inl\<close> is the state at the return, \<open>Inr\<close> the state of a loop still running.\<close>

definition for_opt :: "nat \<Rightarrow> (nat \<Rightarrow> 's \<Rightarrow> 's option) \<Rightarrow> 's \<Rightarrow> 's option" where
  "for_opt n body s = for_n n (\<lambda>i so. Option.bind so (body i)) (Some s)"

definition for_ret :: "nat \<Rightarrow> (nat \<Rightarrow> 's \<Rightarrow> 'r + 's) \<Rightarrow> 's \<Rightarrow> 'r + 's" where
  "for_ret n body s = for_n n (\<lambda>i st. case st of Inl r \<Rightarrow> Inl r | Inr t \<Rightarrow> body i t) (Inr s)"

lemma for_opt_0 [simp]: "for_opt 0 body s = Some s"
  by (simp add: for_opt_def)

lemma for_opt_Suc: "for_opt (Suc n) body s = Option.bind (for_opt n body s) (body n)"
  by (simp add: for_opt_def)

lemma for_opt_cong [fundef_cong]:
  assumes "n = n'" "s = s'" and "\<And>i t. i < n' \<Longrightarrow> body i t = body' i t"
  shows "for_opt n body s = for_opt n' body' s'"
  unfolding for_opt_def by (intro for_n_cong arg_cong [of s s' Some] Option.bind_cong) (auto simp: assms)

lemma for_opt_invariant:
  assumes "P 0 s" and "\<And>i t. i < n \<Longrightarrow> P i t \<Longrightarrow> \<exists>t'. body i t = Some t' \<and> P (Suc i) t'"
  shows "\<exists>t. for_opt n body s = Some t \<and> P n t"
proof -
  have "m \<le> n \<Longrightarrow> \<exists>t. for_opt m body s = Some t \<and> P m t" for m
  proof (induction m)
    case 0
    show ?case by (simp add: assms(1))
  next
    case (Suc m)
    then obtain t where "for_opt m body s = Some t" "P m t" by auto
    then show ?case using assms(2) [of m t] Suc.prems by (auto simp: for_opt_Suc)
  qed
  then show ?thesis by simp
qed

lemma for_ret_0 [simp]: "for_ret 0 body s = Inr s"
  by (simp add: for_ret_def)

lemma for_ret_Suc:
  "for_ret (Suc n) body s = (case for_ret n body s of Inl r \<Rightarrow> Inl r | Inr t \<Rightarrow> body n t)"
  by (simp add: for_ret_def)

lemma for_ret_invariant:
  assumes "P 0 s" and "\<And>i t. i < n \<Longrightarrow> P i t \<Longrightarrow> \<exists>t'. body i t = Inr t' \<and> P (Suc i) t'"
  shows "\<exists>t. for_ret n body s = Inr t \<and> P n t"
proof -
  have "m \<le> n \<Longrightarrow> \<exists>t. for_ret m body s = Inr t \<and> P m t" for m
  proof (induction m)
    case 0
    show ?case by (simp add: assms(1))
  next
    case (Suc m)
    then obtain t where "for_ret m body s = Inr t" "P m t" by auto
    then show ?case using assms(2) [of m t] Suc.prems by (auto simp: for_ret_Suc)
  qed
  then show ?thesis by simp
qed

section \<open>Byte memory\<close>

type_synonym byte = "8 word"
type_synonym mem = "int \<Rightarrow> byte"

definition memcpy :: "mem \<Rightarrow> int \<Rightarrow> int \<Rightarrow> int \<Rightarrow> mem" where
  "memcpy m dst src n = (\<lambda>a. if dst \<le> a \<and> a < dst + n then m (src + (a - dst)) else m a)"

definition memset :: "mem \<Rightarrow> int \<Rightarrow> byte \<Rightarrow> int \<Rightarrow> mem" where
  "memset m dst v n = (\<lambda>a. if dst \<le> a \<and> a < dst + n then v else m a)"

text \<open>The \<open>n\<close> bytes at an address.\<close>

definition rd :: "mem \<Rightarrow> int \<Rightarrow> nat \<Rightarrow> byte list" where
  "rd m p n = map (\<lambda>i. m (p + int i)) [0..<n]"

lemma length_rd [simp]: "length (rd m p n) = n"
  by (simp add: rd_def)

lemma rd_nth [simp]: "i < n \<Longrightarrow> rd m p n ! i = m (p + int i)"
  by (simp add: rd_def)

lemma rd_eqI: "(\<And>i. i < n \<Longrightarrow> m (p + int i) = m' (p' + int i)) \<Longrightarrow> rd m p n = rd m' p' n"
  by (simp add: rd_def)

lemma rd_eqD: "rd m p n = rd m' p' n \<Longrightarrow> i < n \<Longrightarrow> m (p + int i) = m' (p' + int i)"
  by (metis rd_nth)

lemma rd_memcpy_same [memory]: "rd (memcpy m d s (int n)) d n = rd m s n"
  by (rule rd_eqI) (simp add: memcpy_def)

lemma rd_memcpy_disj [memory]:
  "p + int n \<le> d \<or> d + k \<le> p \<Longrightarrow> rd (memcpy m d s k) p n = rd m p n"
  by (rule rd_eqI) (auto simp: memcpy_def)

lemma rd_memcpy_inside [memory]:
  "d \<le> p \<Longrightarrow> p + int n \<le> d + k \<Longrightarrow> rd (memcpy m d s k) p n = rd m (s + (p - d)) n"
  by (rule rd_eqI) (auto simp: memcpy_def algebra_simps)

lemma memcpy_outside [memory]: "a < d \<or> d + k \<le> a \<Longrightarrow> memcpy m d s k a = m a"
  by (auto simp: memcpy_def)

lemma memcpy_zero [simp]: "n \<le> 0 \<Longrightarrow> memcpy m d s n = m"
  by (rule ext) (auto simp: memcpy_def)

text \<open>Little-endian loads of 16-bit and 32-bit integers.\<close>

definition ld_u16 :: "mem \<Rightarrow> int \<Rightarrow> int" where
  "ld_u16 m p = uint (m p) + 256 * uint (m (p + 1))"

definition ld_u32 :: "mem \<Rightarrow> int \<Rightarrow> int" where
  "ld_u32 m p = ld_u16 m p + 65536 * ld_u16 m (p + 2)"

definition ld_i32 :: "mem \<Rightarrow> int \<Rightarrow> int" where
  "ld_i32 m p = to_i32 (ld_u32 m p)"

definition st_u32 :: "mem \<Rightarrow> int \<Rightarrow> int \<Rightarrow> mem" where
  "st_u32 m p v = m(p := word_of_int v, p + 1 := word_of_int (v div 2 ^ 8),
     p + 2 := word_of_int (v div 2 ^ 16), p + 3 := word_of_int (v div 2 ^ 24))"

lemma ld_u16_range: "0 \<le> ld_u16 m p" "ld_u16 m p < 2 ^ 16"
proof -
  have "uint (m p) < 2 ^ 8" "uint (m (p + 1)) < 2 ^ 8"
    using uint_lt2p [of "m p"] uint_lt2p [of "m (p + 1)"] by simp_all
  then show "0 \<le> ld_u16 m p" "ld_u16 m p < 2 ^ 16" by (simp_all add: ld_u16_def)
qed

lemma ld_u32_range: "0 \<le> ld_u32 m p" "ld_u32 m p < 2 ^ 32"
  using ld_u16_range [of m p] ld_u16_range [of m "p + 2"] by (simp_all add: ld_u32_def)

lemma ld_u32_st_u32:
  assumes "0 \<le> v" "v < 2 ^ 32"
  shows "ld_u32 (st_u32 m p v) p = v"
proof -
  have byte: "uint (word_of_int x :: byte) = x mod 256" for x by (simp add: uint_word_of_int)
  define a b c where "a = v div 256" and "b = a div 256" and "c = b div 256"
  have d: "v div 65536 = b" "v div 16777216 = c"
    using zdiv_zmult2_eq [of 256 v 256] zdiv_zmult2_eq [of 256 v 65536] zdiv_zmult2_eq [of 256 a 256]
    by (simp_all add: a_def b_def c_def)
  have "v = 256 * a + v mod 256" by (simp add: a_def)
  moreover have "a = 256 * b + a mod 256" by (simp add: b_def)
  moreover have "b = 256 * c + b mod 256" by (simp add: c_def)
  moreover have "c mod 256 = c" using assms by (simp flip: d)
  ultimately have e: "v mod 256 = v - 256 * a" "a mod 256 = a - 256 * b" "b mod 256 = b - 256 * c"
    "c mod 256 = c" by linarith+
  then show ?thesis
    by (simp add: ld_u32_def ld_u16_def st_u32_def byte d a_def [symmetric] e)
qed

text \<open>16-bit stores, and loads after a store elsewhere.\<close>

definition st_u16 :: "mem \<Rightarrow> int \<Rightarrow> int \<Rightarrow> mem" where
  "st_u16 m p v = m(p := word_of_int v, p + 1 := word_of_int (v div 2 ^ 8))"

lemma ld_u16_st_u16: "0 \<le> v \<Longrightarrow> v < 2 ^ 16 \<Longrightarrow> ld_u16 (st_u16 m p v) p = v"
proof -
  assume v: "0 \<le> v" "v < 2 ^ 16"
  have "v = 256 * (v div 256) + v mod 256" by simp
  moreover have "v div 256 mod 256 = v div 256" using v by simp
  ultimately show ?thesis by (simp add: ld_u16_def st_u16_def uint_word_of_int)
qed

lemma ld_u16_st_u32 [memory]: "q + 2 \<le> p \<or> p + 4 \<le> q \<Longrightarrow> ld_u16 (st_u32 m p v) q = ld_u16 m q"
  by (auto simp: ld_u16_def st_u32_def)

lemma ld_u32_st_u32_other [memory]: "q + 4 \<le> p \<or> p + 4 \<le> q \<Longrightarrow> ld_u32 (st_u32 m p v) q = ld_u32 m q"
  by (auto simp: ld_u32_def ld_u16_def st_u32_def)

lemma ld_u16_st_u16_other [memory]: "q + 2 \<le> p \<or> p + 2 \<le> q \<Longrightarrow> ld_u16 (st_u16 m p v) q = ld_u16 m q"
  by (auto simp: ld_u16_def st_u16_def)

end
