(* ===== verification/GU_State.thy ===== *)
theory GU_State imports Prelude
begin

text \<open>
  The state of the unscrambling library, \<open>PAN/Modules/GUNSC/private/c/src/GU_algors.c\<close>
  lines 1 to 531: the amplifier and detector tables, the physical map, the two work buffers,
  the loaded section algorithms, and the operations that set them up.

  The file's globals are the record \<open>gu\<close>.  The tables \<open>amp[256]\<close>, \<open>det[64]\<close> and
  \<open>PhysMap[128]\<close> are functions from the index (the code checks no bound on them).
  \<open>malloc\<close> and the dynamic loader are parameters: \<open>mal n\<close> is the address \<open>malloc(n)\<close>
  returns (\<open>0\<close> when it fails) and \<open>dlenv\<close> says which libraries and symbols exist.
\<close>

section \<open>Constants of \<open>GUnscrambling.h\<close>\<close>

abbreviation (input) OK :: int where "OK \<equiv> 0"
abbreviation (input) MAX_AMPS :: nat where "MAX_AMPS \<equiv> 128"
abbreviation (input) LL :: int where "LL \<equiv> 8"
abbreviation (input) LR :: int where "LR \<equiv> 4"
abbreviation (input) UL :: int where "UL \<equiv> 2"
abbreviation (input) UR :: int where "UR \<equiv> 1"
abbreviation (input) LOWER :: int where "LOWER \<equiv> 12"
abbreviation (input) UPPER :: int where "UPPER \<equiv> 3"
abbreviation (input) LEFT :: int where "LEFT \<equiv> 10"
abbreviation (input) RIGHT :: int where "RIGHT \<equiv> 5"
abbreviation (input) DIAGR :: int where "DIAGR \<equiv> 9"
abbreviation (input) DIAGL :: int where "DIAGL \<equiv> 6"
abbreviation (input) NOROT :: int where "NOROT \<equiv> 0"
abbreviation (input) NOFLIP :: int where "NOFLIP \<equiv> 0"
abbreviation (input) FLIPVERT :: int where "FLIPVERT \<equiv> 1"
abbreviation (input) FLIPHORI :: int where "FLIPHORI \<equiv> 2"

section \<open>The amplifier structure and the globals\<close>

record amp_t =
  dataptr :: int
  amp_xstart :: int
  amp_ystart :: int
  amp_ncols :: int
  amp_nrows :: int
  amp_xdetstart :: int
  amp_ydetstart :: int
  amp_type :: int
  amp_rotate :: int
  amp_flip :: int
  amp_detno :: int
  amp_ampno :: int
  amp_discard :: int
  amp_precols :: int
  amp_postcols :: int
  amp_prerows :: int
  amp_postrows :: int
  amp_datacols :: int
  amp_datarows :: int

definition amp_zero :: amp_t where
  "amp_zero = \<lparr>dataptr = 0, amp_xstart = 0, amp_ystart = 0, amp_ncols = 0, amp_nrows = 0,
     amp_xdetstart = 0, amp_ydetstart = 0, amp_type = 0, amp_rotate = 0, amp_flip = 0,
     amp_detno = 0, amp_ampno = 0, amp_discard = 0, amp_precols = 0, amp_postcols = 0,
     amp_prerows = 0, amp_postrows = 0, amp_datacols = 0, amp_datarows = 0\<rparr>"

text \<open>A pointer to a routine of the library is the symbol it was resolved from.\<close>

type_synonym symptr = "string option"

record gu =
  g_namps :: nat
  g_ndets :: nat
  g_amp :: "int \<Rightarrow> amp_t"
  g_det :: "int \<Rightarrow> amp_t"
  g_PhysMap :: "int \<Rightarrow> int"
  g_bytes_pp :: int
  g_detext :: int
  g_detbufsize :: int
  g_detbufptr :: int
  g_ampbufptr :: int
  g_ampbufsize :: int
  g_pix_swap :: int
  g_arrange :: bool
  g_arr_left :: bool
  g_arr_right :: bool
  g_arr_upper :: bool
  g_arr_lower :: bool
  g_LocalLib :: bool
  g_left :: "symptr \<times> symptr \<times> symptr"
  g_right :: "symptr \<times> symptr \<times> symptr"
  g_lower :: "symptr \<times> symptr \<times> symptr"
  g_upper :: "symptr \<times> symptr \<times> symptr"
  g_mem :: mem

definition gu_init :: gu where
  "gu_init = \<lparr>g_namps = 0, g_ndets = 0, g_amp = (\<lambda>_. amp_zero), g_det = (\<lambda>_. amp_zero),
     g_PhysMap = (\<lambda>_. 0), g_bytes_pp = 0, g_detext = 0, g_detbufsize = 0, g_detbufptr = 0,
     g_ampbufptr = 0, g_ampbufsize = 0, g_pix_swap = 0, g_arrange = False,
     g_arr_left = False, g_arr_right = False, g_arr_upper = False, g_arr_lower = False,
     g_LocalLib = False, g_left = (None, None, None), g_right = (None, None, None),
     g_lower = (None, None, None), g_upper = (None, None, None), g_mem = (\<lambda>_. 0)\<rparr>"

section \<open>Simple setters and the physical map\<close>

definition GU_pix_swap :: "int \<Rightarrow> gu \<Rightarrow> gu" where
  "GU_pix_swap flag s = s\<lparr>g_pix_swap := flag\<rparr>"

definition GU_set_bytes_pp :: "int \<Rightarrow> gu \<Rightarrow> int \<times> gu" where
  "GU_set_bytes_pp bytes_per_pixel s =
     (if bytes_per_pixel < 0 then (- EINVAL, s)
      else (OK, s\<lparr>g_bytes_pp := bytes_per_pixel\<rparr>))"

text \<open>One turn of the loop of \<open>GU_SetPhysMap\<close>: \<open>arrptr\<close> advances only while it is read.\<close>

definition physmap_step :: "mem \<Rightarrow> int \<Rightarrow> nat \<Rightarrow> int \<times> (int \<Rightarrow> int) \<Rightarrow> int \<times> (int \<Rightarrow> int)" where
  "physmap_step m num_elements i = (\<lambda>(arrptr, pm).
     (if int i \<le> num_elements then (arrptr + 4, pm(int i := ld_i32 m arrptr))
      else (arrptr, pm(int i := int i))))"

definition GU_SetPhysMap :: "int \<Rightarrow> int \<Rightarrow> gu \<Rightarrow> int \<times> gu" where
  "GU_SetPhysMap array num_elements s =
     (if array = 0 then (- EFAULT, s)
      else if g_namps s = 0 then (- 1, s)
      else (OK, s\<lparr>g_PhysMap :=
        snd (for_n (g_namps s) (physmap_step (g_mem s) num_elements) (array, g_PhysMap s))\<rparr>))"

section \<open>The work buffers\<close>

definition GU_releasedetbuf :: "gu \<Rightarrow> gu" where
  "GU_releasedetbuf s = s\<lparr>g_detbufsize := 0, g_detbufptr := 0\<rparr>"

definition GU_getdetbuf :: "(int \<Rightarrow> int) \<Rightarrow> gu \<Rightarrow> int \<times> gu" where
  "GU_getdetbuf mal s =
     (if amp_ncols (g_det s 0) = 0 \<or> g_bytes_pp s = 0 then (- 1, s)
      else let rsize = to_i32 (amp_ncols (g_det s 0) * amp_nrows (g_det s 0) * g_bytes_pp s
                               * int (g_ndets s)) in
        if g_detbufsize s < rsize then
          let s1 = (GU_releasedetbuf s)\<lparr>g_detbufptr := mal rsize\<rparr> in
            (if g_detbufptr s1 = 0 then (- ENOMEM, s1)
             else (OK, s1\<lparr>g_detbufsize := rsize\<rparr>))
        else (OK, s))"

definition GU_release_ampbuf :: "gu \<Rightarrow> gu" where
  "GU_release_ampbuf s = s\<lparr>g_ampbufsize := 0, g_ampbufptr := 0\<rparr>"

definition GU_get_ampbuf :: "(int \<Rightarrow> int) \<Rightarrow> gu \<Rightarrow> int \<times> gu" where
  "GU_get_ampbuf mal s =
     (if amp_ncols (g_amp s 0) = 0 \<or> g_bytes_pp s = 0 then (- 1, s)
      else let rsize = to_i32 (amp_ncols (g_amp s 0) * amp_nrows (g_amp s 0) * g_bytes_pp s) in
        if g_ampbufsize s < rsize then
          let s1 = (GU_release_ampbuf s)\<lparr>g_ampbufptr := mal rsize\<rparr> in
            (if g_ampbufptr s1 = 0 then (- ENOMEM, s1)
             else (OK, s1\<lparr>g_ampbufsize := rsize\<rparr>))
        else (OK, s))"

section \<open>Loading the section algorithms\<close>

record dlenv =
  dl_open :: "string \<Rightarrow> bool"
  dl_sym :: "bool \<Rightarrow> string \<Rightarrow> bool"

text \<open>\<open>dlerror()\<close> after a loader call that failed (\<open>True\<close>) or not.\<close>

definition GU_checkError2 :: "int \<Rightarrow> bool \<Rightarrow> int" where
  "GU_checkError2 iferr failed = (if failed then - iferr else OK)"

definition GU_dlopen :: "dlenv \<Rightarrow> string \<Rightarrow> gu \<Rightarrow> int \<times> gu" where
  "GU_dlopen env algorpath s =
     (if g_LocalLib s then
        let ok = dl_open env algorpath; s1 = s\<lparr>g_LocalLib := ok\<rparr>;
            ret = GU_checkError2 ELIBACC (\<not> ok) in
          (if ret \<noteq> 0 then (ret, s1) else (OK, s1))
      else (OK, s))"

definition GU_dlclose :: "gu \<Rightarrow> gu" where
  "GU_dlclose s = (if g_LocalLib s then s\<lparr>g_LocalLib := False\<rparr> else s)"

text \<open>\<open>dlsym\<close>: the symbol, or \<open>NULL\<close>.  The handle is \<open>LocalLib\<close> (\<open>NULL\<close> searches the
  default scope).\<close>

definition dlsym :: "dlenv \<Rightarrow> bool \<Rightarrow> string \<Rightarrow> symptr" where
  "dlsym env handle name = (if dl_sym env handle name then Some name else None)"

definition sect_name :: "string \<Rightarrow> string \<Rightarrow> string" where
  "sect_name sect side = ''GU_copy_'' @ sect @ side"

text \<open>The three \<open>dlsym\<close> calls of each setter: the first that fails returns, and the pointers
  resolved before it stay assigned.\<close>

definition load_sections ::
  "dlenv \<Rightarrow> bool \<Rightarrow> string \<Rightarrow> string \<times> string \<times> string \<Rightarrow> symptr \<times> symptr \<times> symptr
   \<Rightarrow> int \<times> (symptr \<times> symptr \<times> symptr)" where
  "load_sections env handle side names old =
     (case (names, old) of ((n1, n2, n3), (p1, p2, p3)) \<Rightarrow>
       (let q1 = dlsym env handle (sect_name n1 side); r1 = GU_checkError2 ELIBACC (q1 = None) in
        if r1 \<noteq> 0 then (r1, (q1, p2, p3)) else
        let q2 = dlsym env handle (sect_name n2 side); r2 = GU_checkError2 ELIBACC (q2 = None) in
        if r2 \<noteq> 0 then (r2, (q1, q2, p3)) else
        let q3 = dlsym env handle (sect_name n3 side); r3 = GU_checkError2 ELIBACC (q3 = None) in
        (r3, (q1, q2, q3))))"

text \<open>The common end of the setters: nothing left to arrange releases the library and the
  amplifier buffer.\<close>

definition close_if_idle :: "gu \<Rightarrow> gu" where
  "close_if_idle s = (if \<not> g_arrange s then GU_release_ampbuf (GU_dlclose s) else s)"

definition GU_set_arrange_sections_left ::
  "dlenv \<Rightarrow> string \<Rightarrow> string option \<Rightarrow> string option \<Rightarrow> string option \<Rightarrow> gu \<Rightarrow> int \<times> gu" where
  "GU_set_arrange_sections_left env algorpath left1 left2 left3 s =
     (case (left1, left2, left3) of
        (Some l1, Some l2, Some l3) \<Rightarrow>
          (let finish = (\<lambda>s'. (OK, close_if_idle (s'\<lparr>g_arrange := g_arr_left s' \<or> g_arr_right s'\<rparr>))) in
           if take 4 l1 \<noteq> ''none'' then
             (case GU_dlopen env algorpath s of (r0, s1) \<Rightarrow>
                if r0 < 0 then (r0, s1) else
                (case load_sections env (g_LocalLib s1) ''_left'' (l1, l2, l3) (g_left s1) of (r, ps) \<Rightarrow>
                   if r \<noteq> 0 then (r, s1\<lparr>g_left := ps\<rparr>)
                   else finish (s1\<lparr>g_left := ps, g_arr_left := True\<rparr>)))
           else finish (s\<lparr>g_arr_left := False\<rparr>))
      | _ \<Rightarrow> (- EINVAL, s))"

definition GU_set_arrange_sections_right ::
  "dlenv \<Rightarrow> string \<Rightarrow> string option \<Rightarrow> string option \<Rightarrow> string option \<Rightarrow> gu \<Rightarrow> int \<times> gu" where
  "GU_set_arrange_sections_right env algorpath right1 right2 right3 s =
     (case (right1, right2, right3) of
        (Some r1, Some r2, Some r3) \<Rightarrow>
          (let finish = (\<lambda>s'. (OK, close_if_idle (s'\<lparr>g_arrange := g_arr_left s' \<or> g_arr_right s'\<rparr>))) in
           if take 4 r1 \<noteq> ''none'' then
             (case GU_dlopen env algorpath s of (e0, s1) \<Rightarrow>
                if e0 < 0 then (e0, s1) else
                (case load_sections env (g_LocalLib s1) ''_right'' (r1, r2, r3) (g_right s1) of (r, ps) \<Rightarrow>
                   if r \<noteq> 0 then (r, s1\<lparr>g_right := ps\<rparr>)
                   else finish (s1\<lparr>g_right := ps, g_arr_right := True\<rparr>)))
           else finish (s\<lparr>g_arr_right := False\<rparr>))
      | _ \<Rightarrow> (- EINVAL, s))"

definition any_side :: "gu \<Rightarrow> bool" where
  "any_side s = (g_arr_left s \<or> g_arr_right s \<or> g_arr_lower s \<or> g_arr_upper s)"

definition GU_set_arrange_sections_lower ::
  "dlenv \<Rightarrow> string \<Rightarrow> string option \<Rightarrow> string option \<Rightarrow> string option \<Rightarrow> gu \<Rightarrow> int \<times> gu" where
  "GU_set_arrange_sections_lower env algorpath low1 low2 low3 s =
     (case (low1, low2, low3) of
        (Some l1, Some l2, Some l3) \<Rightarrow>
          (let finish = (\<lambda>s'. (OK, close_if_idle (s'\<lparr>g_arrange := any_side s'\<rparr>))) in
           if take 5 l1 \<noteq> ''ynone'' then
             (case GU_dlopen env algorpath s of (e0, s1) \<Rightarrow>
                if e0 < 0 then (e0, s1) else
                (case load_sections env (g_LocalLib s1) ''_low'' (l1, l2, l3) (g_lower s1) of (r, ps) \<Rightarrow>
                   if r \<noteq> 0 then (r, s1\<lparr>g_lower := ps\<rparr>)
                   else finish (s1\<lparr>g_lower := ps, g_arr_lower := True\<rparr>)))
           else finish (s\<lparr>g_arr_lower := False\<rparr>))
      | _ \<Rightarrow> (- EINVAL, s))"

definition GU_set_arrange_sections_upper ::
  "dlenv \<Rightarrow> string \<Rightarrow> string option \<Rightarrow> string option \<Rightarrow> string option \<Rightarrow> gu \<Rightarrow> int \<times> gu" where
  "GU_set_arrange_sections_upper env algorpath upp1 upp2 upp3 s =
     (case (upp1, upp2, upp3) of
        (Some u1, Some u2, Some u3) \<Rightarrow>
          (let finish = (\<lambda>s'. (OK, close_if_idle (s'\<lparr>g_arrange := any_side s'\<rparr>))) in
           if take 5 u1 \<noteq> ''ynone'' then
             (case GU_dlopen env algorpath s of (e0, s1) \<Rightarrow>
                if e0 < 0 then (e0, s1) else
                (case load_sections env (g_LocalLib s1) ''_upp'' (u1, u2, u3) (g_upper s1) of (r, ps) \<Rightarrow>
                   if r \<noteq> 0 then (r, s1\<lparr>g_upper := ps\<rparr>)
                   else finish (s1\<lparr>g_upper := ps, g_arr_upper := True\<rparr>)))
           else finish (s\<lparr>g_arr_upper := False\<rparr>))
      | _ \<Rightarrow> (- EINVAL, s))"

section \<open>Detectors and amplifiers\<close>

definition GU_getdet :: "int \<Rightarrow> gu \<Rightarrow> int" where
  "GU_getdet detno s =
     (case find (\<lambda>i. amp_detno (g_det s (int i)) = detno) [0..<g_ndets s] of
        Some i \<Rightarrow> int i | None \<Rightarrow> - 1)"

definition GU_det_ext :: "(int \<Rightarrow> int) \<Rightarrow> int \<Rightarrow> gu \<Rightarrow> int \<times> gu" where
  "GU_det_ext mal flag s =
     (let s1 = s\<lparr>g_detext := flag\<rparr> in
      (OK, if flag \<noteq> 0 then snd (GU_getdetbuf mal s1) else GU_releasedetbuf s1))"

definition GU_add_det ::
  "int \<Rightarrow> int \<Rightarrow> int \<Rightarrow> int \<Rightarrow> int \<Rightarrow> int \<Rightarrow> int \<Rightarrow> int \<Rightarrow> int \<Rightarrow> int \<Rightarrow> int \<Rightarrow> int \<Rightarrow> gu \<Rightarrow> int \<times> gu" where
  "GU_add_det xstart precols datacols postcols ystart prerows datarows postrows nxamps nyamps
     discard detno s =
     (let n = int (g_ndets s);
          d = (g_det s n)\<lparr>amp_discard := discard,
                amp_ncols := to_i32 (datacols + (precols + postcols) * nxamps),
                amp_nrows := to_i32 (datarows + (prerows + postrows) * nyamps),
                amp_xstart := xstart, amp_ystart := ystart, amp_detno := detno\<rparr> in
      (OK, s\<lparr>g_det := (g_det s)(n := d), g_ndets := Suc (g_ndets s)\<rparr>))"

text \<open>The orientation rules at the end of \<open>GU_add_amp\<close>: the rotation is reduced to a
  multiple of 90 degrees, 180 degrees and the flips are folded into the readout corner.\<close>

definition norm_rotate :: "int \<Rightarrow> int" where
  "norm_rotate rotation =
     (let r = crem rotation 360 in if crem r 90 \<noteq> 0 then 0 else r)"

definition half_turn :: "int \<Rightarrow> int" where
  "half_turn ty = (if ty AND DIAGR \<noteq> 0 then NOT ty AND DIAGR else NOT ty AND DIAGL)"

definition flip_type :: "int \<Rightarrow> int \<Rightarrow> int" where
  "flip_type flip ty =
     (if flip = FLIPVERT then
        (if ty AND LOWER \<noteq> 0 then NOT ty AND LOWER else NOT ty AND UPPER)
      else if flip = FLIPHORI then
        (if ty AND LEFT \<noteq> 0 then NOT ty AND LEFT else NOT ty AND RIGHT)
      else ty)"

definition GU_add_amp ::
  "int \<Rightarrow> int \<Rightarrow> int \<Rightarrow> int \<Rightarrow> int \<Rightarrow> int \<Rightarrow> int \<Rightarrow> int \<Rightarrow> int \<Rightarrow> int \<Rightarrow> int \<Rightarrow> int \<Rightarrow> int \<Rightarrow> int
   \<Rightarrow> int \<Rightarrow> int \<Rightarrow> int \<Rightarrow> gu \<Rightarrow> int \<times> gu" where
  "GU_add_amp xstart precols datacols postcols ystart prerows datarows postrows xdetstart
     ydetstart type rotation flip extension detno ampno discard s =
     (let n = int (g_namps s);
          a1 = (g_amp s n)\<lparr>amp_discard := discard,
                 amp_ncols := to_i32 (precols + datacols + postcols),
                 amp_nrows := to_i32 (prerows + datarows + postrows),
                 amp_xstart := xstart, amp_ystart := ystart,
                 amp_precols := precols, amp_postcols := postcols,
                 amp_prerows := prerows, amp_postrows := postrows,
                 amp_datacols := datacols, amp_datarows := datarows,
                 amp_xdetstart := xdetstart, amp_ydetstart := ydetstart, amp_detno := detno\<rparr>;
          detindex = GU_getdet detno s;
          det1 = (if detindex \<le> int (g_ndets s) \<and> 0 \<le> detindex then
                    (g_det s)(detindex := (g_det s detindex)
                       \<lparr>amp_type := (if amp_type a1 AND LOWER \<noteq> 0 then LL else UL)\<rparr>)
                  else g_det s);
          t0 = drop_bit (nat type) 8;
          rot = norm_rotate rotation;
          a2 = (if \<bar>rot\<bar> = 180 then a1\<lparr>amp_ampno := ampno, amp_type := half_turn t0, amp_rotate := NOROT\<rparr>
                else a1\<lparr>amp_ampno := ampno, amp_type := t0, amp_rotate := rot\<rparr>);
          a3 = a2\<lparr>amp_type := flip_type flip (amp_type a2), amp_flip := NOFLIP\<rparr> in
      (OK, s\<lparr>g_amp := (g_amp s)(n := a3), g_det := det1,
             g_PhysMap := (g_PhysMap s)(n := extension), g_namps := Suc (g_namps s)\<rparr>))"

datatype ampsptr = NULLp | AmpArray | DetArray | IntAsPtr int

definition GU_get_amps_ptr :: "gu \<Rightarrow> ampsptr" where
  "GU_get_amps_ptr s = (if g_detext s \<noteq> 0 then DetArray else AmpArray)"

definition GU_clear_amps :: "gu \<Rightarrow> int \<times> gu" where
  "GU_clear_amps s =
     (let (am, pm) = for_n MAX_AMPS (\<lambda>i (am, pm).
            (am(int i := (am (int i))\<lparr>amp_ncols := 0, amp_nrows := 0\<rparr>), pm(int i := int i)))
            (g_amp s, g_PhysMap s) in
      (OK, GU_releasedetbuf (s\<lparr>g_amp := am, g_PhysMap := pm, g_namps := 0, g_ndets := 0\<rparr>)))"

definition GU_get_raw_ptr :: "gu \<Rightarrow> int \<times> int" where
  "GU_get_raw_ptr s = (dataptr (g_amp s 0), to_i32 (int (g_namps s)))"

end
