(* ===== verification/Scatter.thy ===== *)
theory Scatter imports Prelude "HOL-Library.Multiset"
begin

text \<open>
  Moving pixels one at a time: the shape of every unscrambling and rotation loop.  A pixel is
  \<open>w\<close> bytes; step \<open>k\<close> copies the pixel at \<open>S k\<close> to \<open>D k\<close>.  The locale \<open>placement\<close> is the
  contract of a readout order: within an image of \<open>c\<close> columns and \<open>r\<close> rows the \<open>k\<close>-th pixel
  read has a position of its own.  Its lemmas turn the contract into the contents of memory
  after the loop; the orders of the code interpret it.
\<close>

definition scatter :: "nat \<Rightarrow> (nat \<Rightarrow> int) \<Rightarrow> (nat \<Rightarrow> int) \<Rightarrow> nat \<Rightarrow> mem \<Rightarrow> mem" where
  "scatter n D S w m = for_n n (\<lambda>k m. memcpy m (D k) (S k) (int w)) m"

text \<open>Two pixel-sized (or larger) ranges that do not meet.\<close>

definition apart :: "int \<Rightarrow> int \<Rightarrow> int \<Rightarrow> int \<Rightarrow> bool" where
  "apart p n q k \<longleftrightarrow> p + n \<le> q \<or> q + k \<le> p"

lemma apart_commute: "apart p n q k = apart q k p n"
  by (auto simp: apart_def)

lemma apart_sub: "apart p n q k \<Longrightarrow> p \<le> p' \<Longrightarrow> p' + n' \<le> p + n \<Longrightarrow> apart p' n' q k"
  by (auto simp: apart_def)

lemma scatter_Suc [simp]:
  "scatter (Suc n) D S w m = memcpy (scatter n D S w m) (D n) (S n) (int w)"
  by (simp add: scatter_def)

lemma scatter_0 [simp]: "scatter 0 D S w m = m"
  by (simp add: scatter_def)

lemma scatter_frame:
  "(\<And>i. i < n \<Longrightarrow> apart p (int l) (D i) (int w)) \<Longrightarrow> rd (scatter n D S w m) p l = rd m p l"
proof (induction n)
  case 0
  show ?case by simp
next
  case (Suc n)
  then have "apart p (int l) (D n) (int w)" by simp
  then have "rd (scatter (Suc n) D S w m) p l = rd (scatter n D S w m) p l"
    by (auto simp: apart_def memory)
  then show ?case using Suc by simp
qed

lemma scatter_read:
  assumes D: "\<And>i j. i < n \<Longrightarrow> j < n \<Longrightarrow> i \<noteq> j \<Longrightarrow> apart (D i) (int w) (D j) (int w)"
    and S: "\<And>i j. i < n \<Longrightarrow> j < n \<Longrightarrow> apart (S i) (int w) (D j) (int w)"
    and k: "k < n"
  shows "rd (scatter n D S w m) (D k) w = rd m (S k) w"
  using D S k
proof (induction n)
  case 0
  then show ?case by simp
next
  case (Suc n)
  show ?case
  proof (cases "k = n")
    case True
    have "rd (scatter n D S w m) (S n) w = rd m (S n) w"
      by (rule scatter_frame) (simp add: Suc.prems(2))
    then show ?thesis by (simp add: True memory)
  next
    case False
    then have "k < n" using Suc.prems(3) by simp
    moreover have "apart (D k) (int w) (D n) (int w)"
      using Suc.prems(1) \<open>k < n\<close> by simp
    ultimately show ?thesis
      using Suc by (auto simp: apart_def memory)
  qed
qed

text \<open>Two images of \<open>n\<close> pixels with equal pixels are equal byte for byte.\<close>

lemma rd_pixels:
  assumes "\<And>k. k < n \<Longrightarrow> rd m (p + int w * int k) w = rd m' (q + int w * int k) w"
  shows "rd m p (w * n) = rd m' q (w * n)"
proof (rule rd_eqI)
  fix i
  assume i: "i < w * n"
  then have w: "0 < w" by (cases w) simp_all
  have k: "i div w < n" using i by (simp add: less_mult_imp_div_less mult.commute)
  have "int w * int (i div w) + int (i mod w) = int i"
    by (simp flip: of_nat_mult of_nat_add)
  then show "m (p + int i) = m' (q + int i)"
    using rd_eqD [OF assms [OF k], of "i mod w"] w by (simp add: add.assoc)
qed

text \<open>Moving every pixel to a place of its own keeps the pixels, as a multiset.\<close>

lemma mset_moved:
  assumes bij: "bij_betw f {..<n} {..<n}" and moved: "\<And>k. k < n \<Longrightarrow> out (f k) = inp k"
  shows "mset (map out [0..<n]) = mset (map inp [0..<n])"
proof -
  have "mset (map out [0..<n]) = image_mset out (mset_set {..<n})"
    by (simp add: lessThan_atLeast0)
  also have "mset_set {..<n} = image_mset f (mset_set {..<n})"
    using bij by (simp add: image_mset_mset_set bij_betw_def)
  also have "image_mset out \<dots> = image_mset inp (mset_set {..<n})"
    unfolding image_mset.compositionality
    by (rule image_mset_cong) (simp add: moved)
  also have "\<dots> = mset (map inp [0..<n])"
    by (simp add: lessThan_atLeast0)
  finally show ?thesis .
qed

section \<open>Readout orders\<close>

locale placement =
  fixes pos :: "nat \<Rightarrow> nat \<Rightarrow> nat \<Rightarrow> nat"
  assumes pos_less: "k < c * r \<Longrightarrow> pos c r k < c * r"
    and pos_inj: "inj_on (pos c r) {..<c * r}"
begin

lemma pos_apart:
  assumes "i < c * r" "j < c * r" "i \<noteq> j"
  shows "apart (base + int w * int (pos c r i)) (int w) (base + int w * int (pos c r j)) (int w)"
proof -
  have "pos c r i \<noteq> pos c r j"
    using assms pos_inj [of c r] by (auto simp: inj_on_def)
  then consider "Suc (pos c r i) \<le> pos c r j" | "Suc (pos c r j) \<le> pos c r i" by linarith
  then show ?thesis
  proof cases
    case 1
    then have "int w * int (Suc (pos c r i)) \<le> int w * int (pos c r j)"
      by (intro mult_left_mono) auto
    then show ?thesis by (simp add: apart_def algebra_simps)
  next
    case 2
    then have "int w * int (Suc (pos c r j)) \<le> int w * int (pos c r i)"
      by (intro mult_left_mono) auto
    then show ?thesis by (simp add: apart_def algebra_simps)
  qed
qed

lemma pos_inside:
  assumes "k < c * r"
  shows "base \<le> base + int w * int (pos c r k)"
    "base + int w * int (pos c r k) + int w \<le> base + int w * int (c * r)"
proof -
  show "base \<le> base + int w * int (pos c r k)" by simp
  have "w * Suc (pos c r k) \<le> w * (c * r)"
    using pos_less [OF assms] by (intro mult_le_mono) simp_all
  then have "int (w * Suc (pos c r k)) \<le> int (w * (c * r))"
    by (simp only: of_nat_le_iff)
  then show "base + int w * int (pos c r k) + int w \<le> base + int w * int (c * r)"
    by (simp add: algebra_simps)
qed

lemma pos_bij: "bij_betw (pos c r) {..<c * r} {..<c * r}"
proof -
  have "pos c r ` {..<c * r} = {..<c * r}"
    by (rule card_subset_eq) (auto simp: pos_less card_image pos_inj)
  then show ?thesis using pos_inj by (simp add: bij_betw_def)
qed

lemma placed_read:
  assumes src: "\<And>i. i < c * r \<Longrightarrow> apart (S i) (int w) base (int w * int (c * r))"
    and k: "k < c * r"
  shows "rd (scatter (c * r) (\<lambda>k. base + int w * int (pos c r k)) S w m)
      (base + int w * int (pos c r k)) w = rd m (S k) w"
proof (rule scatter_read)
  fix i j
  assume i: "i < c * r" and j: "j < c * r"
  show "apart (S i) (int w) (base + int w * int (pos c r j)) (int w)"
    using src [OF i] pos_inside [OF j, of base w] unfolding apart_def by linarith
qed (simp_all add: pos_apart k)

lemma placed_frame:
  assumes "apart p (int l) base (int w * int (c * r))"
  shows "rd (scatter (c * r) (\<lambda>k. base + int w * int (pos c r k)) S w m) p l = rd m p l"
proof (rule scatter_frame)
  fix i
  assume "i < c * r"
  then show "apart p (int l) (base + int w * int (pos c r i)) (int w)"
    using assms pos_inside [of i c r base w] unfolding apart_def by linarith
qed

text \<open>Nothing is lost or duplicated: the pixels of the placed image are the pixels read.\<close>

lemma placed_mset:
  assumes src: "\<And>i. i < c * r \<Longrightarrow> apart (S i) (int w) base (int w * int (c * r))"
  shows "mset (map (\<lambda>p. rd (scatter (c * r) (\<lambda>k. base + int w * int (pos c r k)) S w m)
      (base + int w * int p) w) [0..<c * r]) = mset (map (\<lambda>k. rd m (S k) w) [0..<c * r])"
proof -
  show ?thesis
    by (rule mset_moved [OF pos_bij]) (rule placed_read [OF src])
qed

end

definition pos_LL :: "nat \<Rightarrow> nat \<Rightarrow> nat \<Rightarrow> nat" where
  "pos_LL c r k = k"

definition pos_UR :: "nat \<Rightarrow> nat \<Rightarrow> nat \<Rightarrow> nat" where
  "pos_UR c r k = c * r - 1 - k"

definition pos_LR :: "nat \<Rightarrow> nat \<Rightarrow> nat \<Rightarrow> nat" where
  "pos_LR c r k = (k div c) * c + (c - 1 - k mod c)"

definition pos_UL :: "nat \<Rightarrow> nat \<Rightarrow> nat \<Rightarrow> nat" where
  "pos_UL c r k = (r - 1 - k div c) * c + k mod c"

definition pos_90 :: "nat \<Rightarrow> nat \<Rightarrow> nat \<Rightarrow> nat" where
  "pos_90 c r k = (k mod c) * r + (r - 1 - k div c)"

definition pos_270 :: "nat \<Rightarrow> nat \<Rightarrow> nat \<Rightarrow> nat" where
  "pos_270 c r k = (c - 1 - k mod c) * r + k div c"

text \<open>Row and column of a pixel index.\<close>

lemma row_less: "k < c * r \<Longrightarrow> k div c < (r :: nat)"
  by (simp add: less_mult_imp_div_less mult.commute)

lemma col_less: "k < c * r \<Longrightarrow> k mod c < (c :: nat)"
  by (cases "c = 0") simp_all

lemma cell_less: "x < c \<Longrightarrow> y < r \<Longrightarrow> y * c + x < c * (r :: nat)"
proof -
  assume "x < c" "y < r"
  then have "y * c + x < Suc y * c" by simp
  also have "\<dots> \<le> r * c" using \<open>y < r\<close> by (intro mult_right_mono) auto
  finally show ?thesis by (simp add: mult.commute)
qed

lemma cell_eq: "x < c \<Longrightarrow> (y * c + x) div c = y \<and> (y * c + x) mod c = (x :: nat)"
  by simp

lemma placement_by_inverse:
  assumes "\<And>c r k. k < c * r \<Longrightarrow> pos c r k < c * r"
    and "\<And>c r k. k < c * r \<Longrightarrow> inv' c r (pos c r k) = k"
  shows "placement pos"
proof
  show "inj_on (pos c r) {..<c * r}" for c r
    by (rule inj_on_inverseI [of _ "inv' c r"]) (simp add: assms(2))
qed (rule assms(1))

lemma pos_270_90: "k < c * r \<Longrightarrow> pos_270 r c (pos_90 c r k) = k"
proof -
  assume k: "k < c * r"
  note rc = row_less [OF k] col_less [OF k]
  have "(pos_90 c r k) mod r = r - 1 - k div c" "(pos_90 c r k) div r = k mod c"
    using cell_eq [of "r - 1 - k div c" r "k mod c"] rc by (simp_all add: pos_90_def)
  then show ?thesis using rc by (simp add: pos_270_def)
qed

lemma pos_90_270: "k < c * r \<Longrightarrow> pos_90 r c (pos_270 c r k) = k"
proof -
  assume k: "k < c * r"
  note rc = row_less [OF k] col_less [OF k]
  have "(pos_270 c r k) mod r = k div c" "(pos_270 c r k) div r = c - 1 - k mod c"
    using cell_eq [of "k div c" r "c - 1 - k mod c"] rc by (simp_all add: pos_270_def)
  then show ?thesis using rc by (simp add: pos_90_def)
qed

interpretation ll: placement pos_LL
  by (rule placement_by_inverse [where inv' = "\<lambda>c r k. k"]) (simp_all add: pos_LL_def)

interpretation ur: placement pos_UR
  by (rule placement_by_inverse [where inv' = pos_UR]) (auto simp: pos_UR_def)

interpretation lr: placement pos_LR
proof (rule placement_by_inverse [where inv' = pos_LR])
  fix c r k :: nat
  assume k: "k < c * r"
  note rc = row_less [OF k] col_less [OF k]
  show "pos_LR c r k < c * r"
    unfolding pos_LR_def by (rule cell_less) (use rc in auto)
  show "pos_LR c r (pos_LR c r k) = k"
    using rc cell_eq [of "c - 1 - k mod c" c "k div c"] by (simp add: pos_LR_def)
qed

interpretation ul: placement pos_UL
proof (rule placement_by_inverse [where inv' = pos_UL])
  fix c r k :: nat
  assume k: "k < c * r"
  note rc = row_less [OF k] col_less [OF k]
  show "pos_UL c r k < c * r"
    unfolding pos_UL_def by (rule cell_less) (use rc in auto)
  show "pos_UL c r (pos_UL c r k) = k"
    using rc cell_eq [of "k mod c" c "r - 1 - k div c"] by (simp add: pos_UL_def)
qed

interpretation quarter: placement pos_90
proof (rule placement_by_inverse [where inv' = "\<lambda>c r. pos_270 r c"])
  fix c r k :: nat
  assume k: "k < c * r"
  show "pos_90 c r k < c * r"
    using row_less [OF k] col_less [OF k] cell_less [of "r - 1 - k div c" r "k mod c" c]
    by (simp add: pos_90_def mult.commute)
  show "pos_270 r c (pos_90 c r k) = k" by (rule pos_270_90 [OF k])
qed

interpretation three_quarters: placement pos_270
proof (rule placement_by_inverse [where inv' = "\<lambda>c r. pos_90 r c"])
  fix c r k :: nat
  assume k: "k < c * r"
  show "pos_270 c r k < c * r"
    using row_less [OF k] col_less [OF k] cell_less [of "k div c" r "c - 1 - k mod c" c]
    by (simp add: pos_270_def mult.commute)
  show "pos_90 r c (pos_270 c r k) = k" by (rule pos_90_270 [OF k])
qed

end
