(* ===== verification/GU_Sections.thy ===== *)
theory GU_Sections imports GU_State Scatter
begin

text \<open>
  Rearranging the sections of an amplifier and blending amplifiers into detectors:
  \<open>GU_algors.c\<close> lines 917 to 975 and 983 to 1269.

  A section routine is called through a pointer that holds a symbol (\<open>symptr\<close>); the tables
  \<open>row_routine\<close> and \<open>block_routine\<close> are the routines of this library under the names the
  setters look up.  A call through \<open>NULL\<close> or through a symbol of another library is \<open>None\<close>.
\<close>

section \<open>Copying one section\<close>

definition cp :: "int \<Rightarrow> int \<Rightarrow> int \<Rightarrow> gu \<Rightarrow> int \<times> gu" where
  "cp ptr src nbytes s = (nbytes, s\<lparr>g_mem := memcpy (g_mem s) ptr src nbytes\<rparr>)"

definition GU_copy_pre_left :: "int \<Rightarrow> int \<Rightarrow> int \<Rightarrow> gu \<Rightarrow> int \<times> gu" where
  "GU_copy_pre_left ptr a row s = (let A = g_amp s a; b = g_bytes_pp s in
     cp ptr (dataptr A + to_i32 (row * amp_ncols A * b)) (to_i32 (amp_precols A * b)) s)"

definition GU_copy_pre_right :: "int \<Rightarrow> int \<Rightarrow> int \<Rightarrow> gu \<Rightarrow> int \<times> gu" where
  "GU_copy_pre_right ptr a row s = (let A = g_amp s a; b = g_bytes_pp s in
     cp ptr (dataptr A + to_i32 ((row * amp_ncols A + amp_postcols A + amp_datacols A) * b))
       (to_i32 (amp_precols A * b)) s)"

definition GU_copy_pos_left :: "int \<Rightarrow> int \<Rightarrow> int \<Rightarrow> gu \<Rightarrow> int \<times> gu" where
  "GU_copy_pos_left ptr a row s = (let A = g_amp s a; b = g_bytes_pp s in
     cp ptr (dataptr A + to_i32 ((row * amp_ncols A + amp_precols A + amp_datacols A) * b))
       (to_i32 (amp_postcols A * b)) s)"

definition GU_copy_pos_right :: "int \<Rightarrow> int \<Rightarrow> int \<Rightarrow> gu \<Rightarrow> int \<times> gu" where
  "GU_copy_pos_right ptr a row s = (let A = g_amp s a; b = g_bytes_pp s in
     cp ptr (dataptr A + to_i32 (row * amp_ncols A * b)) (to_i32 (amp_postcols A * b)) s)"

definition GU_copy_dat_left :: "int \<Rightarrow> int \<Rightarrow> int \<Rightarrow> gu \<Rightarrow> int \<times> gu" where
  "GU_copy_dat_left ptr a row s = (let A = g_amp s a; b = g_bytes_pp s in
     cp ptr (dataptr A + to_i32 ((row * amp_ncols A + amp_precols A) * b))
       (to_i32 (amp_datacols A * b)) s)"

definition GU_copy_dat_right :: "int \<Rightarrow> int \<Rightarrow> int \<Rightarrow> gu \<Rightarrow> int \<times> gu" where
  "GU_copy_dat_right ptr a row s = (let A = g_amp s a; b = g_bytes_pp s in
     cp ptr (dataptr A + to_i32 ((row * amp_ncols A + amp_postcols A) * b))
       (to_i32 (amp_datacols A * b)) s)"

definition GU_copy_ypre_low :: "int \<Rightarrow> int \<Rightarrow> gu \<Rightarrow> int \<times> gu" where
  "GU_copy_ypre_low ptr a s = (let A = g_amp s a; b = g_bytes_pp s in
     cp ptr (dataptr A) (to_i32 (amp_prerows A * amp_ncols A * b)) s)"

definition GU_copy_ypre_upp :: "int \<Rightarrow> int \<Rightarrow> gu \<Rightarrow> int \<times> gu" where
  "GU_copy_ypre_upp ptr a s = (let A = g_amp s a; b = g_bytes_pp s in
     cp ptr (dataptr A + to_i32 (b * (amp_postrows A + amp_datarows A) * amp_ncols A))
       (to_i32 (amp_prerows A * amp_ncols A * b)) s)"

definition GU_copy_ypos_low :: "int \<Rightarrow> int \<Rightarrow> gu \<Rightarrow> int \<times> gu" where
  "GU_copy_ypos_low ptr a s = (let A = g_amp s a; b = g_bytes_pp s in
     cp ptr (dataptr A + to_i32 (b * (amp_prerows A + amp_datarows A) * amp_ncols A))
       (to_i32 (amp_postrows A * amp_ncols A * b)) s)"

definition GU_copy_ypos_upp :: "int \<Rightarrow> int \<Rightarrow> gu \<Rightarrow> int \<times> gu" where
  "GU_copy_ypos_upp ptr a s = (let A = g_amp s a; b = g_bytes_pp s in
     cp ptr (dataptr A) (to_i32 (amp_postrows A * amp_ncols A * b)) s)"

definition GU_copy_ydat_low :: "int \<Rightarrow> int \<Rightarrow> gu \<Rightarrow> int \<times> gu" where
  "GU_copy_ydat_low ptr a s = (let A = g_amp s a; b = g_bytes_pp s in
     cp ptr (dataptr A + to_i32 (b * amp_prerows A * amp_ncols A))
       (to_i32 (amp_datarows A * amp_ncols A * b)) s)"

definition GU_copy_ydat_upp :: "int \<Rightarrow> int \<Rightarrow> gu \<Rightarrow> int \<times> gu" where
  "GU_copy_ydat_upp ptr a s = (let A = g_amp s a; b = g_bytes_pp s in
     cp ptr (dataptr A + to_i32 (b * amp_postrows A * amp_ncols A))
       (to_i32 (amp_datarows A * amp_ncols A * b)) s)"

section \<open>\<open>GU_rearrange_sections\<close>\<close>

definition row_routine :: "symptr \<Rightarrow> (int \<Rightarrow> int \<Rightarrow> int \<Rightarrow> gu \<Rightarrow> int \<times> gu) option" where
  "row_routine f =
     (if f = Some ''GU_copy_pre_left'' then Some GU_copy_pre_left
      else if f = Some ''GU_copy_dat_left'' then Some GU_copy_dat_left
      else if f = Some ''GU_copy_pos_left'' then Some GU_copy_pos_left
      else if f = Some ''GU_copy_pre_right'' then Some GU_copy_pre_right
      else if f = Some ''GU_copy_dat_right'' then Some GU_copy_dat_right
      else if f = Some ''GU_copy_pos_right'' then Some GU_copy_pos_right
      else None)"

definition block_routine :: "symptr \<Rightarrow> (int \<Rightarrow> int \<Rightarrow> gu \<Rightarrow> int \<times> gu) option" where
  "block_routine f =
     (if f = Some ''GU_copy_ypre_low'' then Some GU_copy_ypre_low
      else if f = Some ''GU_copy_ydat_low'' then Some GU_copy_ydat_low
      else if f = Some ''GU_copy_ypos_low'' then Some GU_copy_ypos_low
      else if f = Some ''GU_copy_ypre_upp'' then Some GU_copy_ypre_upp
      else if f = Some ''GU_copy_ydat_upp'' then Some GU_copy_ydat_upp
      else if f = Some ''GU_copy_ypos_upp'' then Some GU_copy_ypos_upp
      else None)"

text \<open>\<open>(*GUget_left1) (currptr, i, y, &nbytes); currptr += nbytes;\<close>\<close>

definition call_row :: "symptr \<Rightarrow> int \<Rightarrow> int \<Rightarrow> int \<times> gu \<Rightarrow> (int \<times> gu) option" where
  "call_row f i y = (\<lambda>(currptr, s).
     case row_routine f of None \<Rightarrow> None
     | Some g \<Rightarrow> (case g currptr i y s of (nbytes, s') \<Rightarrow> Some (currptr + nbytes, s')))"

definition call_block :: "symptr \<Rightarrow> int \<Rightarrow> int \<times> gu \<Rightarrow> (int \<times> gu) option" where
  "call_block f i = (\<lambda>(currptr, s).
     case block_routine f of None \<Rightarrow> None
     | Some g \<Rightarrow> (case g currptr i s of (nbytes, s') \<Rightarrow> Some (currptr + nbytes, s')))"

definition arrange_rows ::
  "symptr \<times> symptr \<times> symptr \<Rightarrow> int \<Rightarrow> int \<Rightarrow> int \<Rightarrow> gu \<Rightarrow> gu option" where
  "arrange_rows fs chunkrows totbytes i s =
     (case fs of (f1, f2, f3) \<Rightarrow>
      case for_opt (nat chunkrows)
             (\<lambda>y st. Option.bind (call_row f1 i (int y) st) (\<lambda>st.
                     Option.bind (call_row f2 i (int y) st) (call_row f3 i (int y))))
             (g_ampbufptr s, s) of
        None \<Rightarrow> None
      | Some (currptr, s') \<Rightarrow>
          Some (s'\<lparr>g_mem := memcpy (g_mem s') (dataptr (g_amp s' i)) (g_ampbufptr s') totbytes\<rparr>))"

definition arrange_blocks :: "symptr \<times> symptr \<times> symptr \<Rightarrow> int \<Rightarrow> int \<Rightarrow> gu \<Rightarrow> gu option" where
  "arrange_blocks fs totbytes i s =
     (case fs of (f1, f2, f3) \<Rightarrow>
      case Option.bind (call_block f1 i (g_ampbufptr s, s)) (\<lambda>st.
             Option.bind (call_block f2 i st) (call_block f3 i)) of
        None \<Rightarrow> None
      | Some (currptr, s') \<Rightarrow>
          Some (s'\<lparr>g_mem := memcpy (g_mem s') (dataptr (g_amp s' i)) (g_ampbufptr s') totbytes\<rparr>))"

definition arrange_amp :: "int \<Rightarrow> int \<Rightarrow> int \<Rightarrow> gu \<Rightarrow> gu option" where
  "arrange_amp chunkrows totbytes i s =
     Option.bind
       (if amp_type (g_amp s i) AND LEFT \<noteq> 0 \<and> g_arr_left s
          then arrange_rows (g_left s) chunkrows totbytes i s
        else if g_arr_right s then arrange_rows (g_right s) chunkrows totbytes i s
        else Some s)
       (\<lambda>s. if amp_type (g_amp s i) AND LOWER \<noteq> 0 \<and> g_arr_lower s
          then arrange_blocks (g_lower s) totbytes i s
        else if g_arr_upper s then arrange_blocks (g_upper s) totbytes i s
        else Some s)"

definition GU_rearrange_sections :: "(int \<Rightarrow> int) \<Rightarrow> int \<Rightarrow> gu \<Rightarrow> (int \<times> gu) option" where
  "GU_rearrange_sections mal chunkrows s0 =
     (case GU_get_ampbuf mal s0 of (ret, s) \<Rightarrow>
        if ret < 0 then Some (ret, s)
        else if g_ampbufptr s = 0 then Some (- ENOMEM, s)
        else (let totbytes = to_i32 (amp_ncols (g_amp s 0) * chunkrows * g_bytes_pp s) in
          map_option (Pair OK)
            (for_opt (g_namps s) (\<lambda>i s. arrange_amp chunkrows totbytes (int i) s) s)))"

section \<open>Subimages\<close>

definition GU_add_subimage ::
  "int \<Rightarrow> int \<Rightarrow> int \<Rightarrow> int \<Rightarrow> int \<Rightarrow> int \<Rightarrow> int \<Rightarrow> gu \<Rightarrow> int \<times> gu" where
  "GU_add_subimage genptr subimptr subxstart subystart subcols subrows totalcols s =
     (if genptr = 0 \<or> subimptr = 0 then (- EFAULT, s)
      else (let b = g_bytes_pp s;
                subyend = to_i32 (subystart + subrows - 1);
                y0 = to_i32 (subystart - 1) in
        (OK, s\<lparr>g_mem := fst (for_n (nat (subyend - y0)) (\<lambda>k (m, subptr).
           (memcpy m (genptr + to_i32 (((y0 + int k) * totalcols + (subxstart - 1)) * b))
              subptr (to_i32 (subcols * b)),
            subptr + to_i32 (subcols * b))) (g_mem s, subimptr))\<rparr>)))"

definition GU_copy_image :: "int \<Rightarrow> int \<Rightarrow> int \<Rightarrow> gu \<Rightarrow> int \<times> gu" where
  "GU_copy_image outbuff inbuff totcols s0 =
     (if g_namps s0 = 0 then (- EFAULT, s0)
      else if g_bytes_pp s0 \<le> 0 then (- EFAULT, s0)
      else case for_ret (g_namps s0) (\<lambda>i s.
             (let A = g_amp s (int i);
                  sxstart = (if amp_rotate A = 90 then to_i32 (amp_xstart A + amp_nrows A)
                             else amp_xstart A) in
              case GU_add_subimage outbuff (dataptr A) sxstart (amp_ystart A) (amp_ncols A)
                     (amp_nrows A) totcols s of
                (ret, s') \<Rightarrow> if ret < 0 then Inl (ret, s') else Inr s')) s0 of
             Inl r \<Rightarrow> r
           | Inr s \<Rightarrow> (OK, s))"

section \<open>Detector extensions\<close>

text \<open>One turn of the loop of \<open>GU_do_detextensions\<close>; \<open>Inl\<close> is a return.\<close>

definition det_turn :: "int \<Rightarrow> int \<Rightarrow> int \<Rightarrow> nat \<Rightarrow> gu \<Rightarrow> (int \<times> gu) + gu" where
  "det_turn outbuff detdata chunkrows i s =
     (let A = g_amp s (int i); d = GU_getdet (amp_detno A) s in
      if d < 0 then Inl (- ENXIO, s)
      else
        (let D = (g_det s d)\<lparr>dataptr := outbuff + to_i32 (d * (detdata * g_bytes_pp s))\<rparr>;
             s' = s\<lparr>g_det := (g_det s)(d := D)\<rparr>;
             subxstart = to_i32 (amp_xstart A - amp_xstart D + 1);
             subystart = to_i32 (amp_ystart A - amp_ystart D + 1) in
         case GU_add_subimage (dataptr D) (dataptr A) subxstart subystart (amp_ncols A)
                chunkrows (amp_ncols D) s' of
           (ret, s'') \<Rightarrow> if ret < 0 then Inl (ret, s'') else Inr s''))"

text \<open>\<open>None\<close>: no detector was added, and the code divides by \<open>ndets\<close>.\<close>

definition GU_do_detextensions ::
  "(int \<Rightarrow> int) \<Rightarrow> int \<Rightarrow> int \<Rightarrow> int \<Rightarrow> gu \<Rightarrow> (int \<times> gu) option" where
  "GU_do_detextensions mal outbuff0 nelems chunkrows s0 =
     (let (outbuff, s1) = (if outbuff0 = 0 then
            (case GU_getdetbuf mal s0 of (_, s) \<Rightarrow> (g_detbufptr s, s)) else (outbuff0, s0)) in
      if g_ndets s1 = 0 then None
      else (let detdata = to_i32 (to_u32 nelems div int (g_ndets s1)) in
        if outbuff = 0 then Some (- ENOMEM, s1)
        else Some (case for_ret (g_namps s1) (det_turn outbuff detdata chunkrows) s1 of
             Inl r \<Rightarrow> r
           | Inr s \<Rightarrow> (OK, s))))"

end
