(* ===== verification/CFloat.thy ===== *)
theory CFloat imports Prelude
begin

text \<open>
  The single-precision arithmetic the unscrambling code uses on integers and half-integers:
  rounding to 24 significant bits (ties to even), the truncated quotient of two floats, and
  the bits of a float stored through an \<open>i32\<close>.  The target evaluates \<open>float\<close> expressions in
  \<open>float\<close> (\<open>FLT_EVAL_METHOD\<close> 0).
\<close>

fun nbits :: "nat \<Rightarrow> nat" where
  "nbits n = (if n = 0 then 0 else Suc (nbits (n div 2)))"

declare nbits.simps [simp del]

text \<open>\<open>p / q\<close> rounded to the nearest integer, ties to even.\<close>

definition rne :: "nat \<Rightarrow> nat \<Rightarrow> nat" where
  "rne p q =
     (let d = p div q; r = p mod q in
      if 2 * r < q \<or> (2 * r = q \<and> even d) then d else Suc d)"

text \<open>An integer converted to \<open>f32\<close>.\<close>

definition f32_nat :: "nat \<Rightarrow> nat" where
  "f32_nat n = (let e = nbits n - 24 in rne n (2 ^ e) * 2 ^ e)"

definition f32_int :: "int \<Rightarrow> int" where
  "f32_int x = sgn x * int (f32_nat (nat \<bar>x\<bar>))"

text \<open>
  The integer part of the \<open>f32\<close> quotient \<open>a / b\<close> of two floats that are whole numbers.  The
  quotient has \<open>n\<close> bits before the point, so \<open>24 - n\<close> after it.  (For \<open>a < b\<close> the quotient is
  at most \<open>1 - 2^-24\<close>, itself a float, so its integer part is 0.)
\<close>

definition f32_quot_trunc :: "nat \<Rightarrow> nat \<Rightarrow> nat" where
  "f32_quot_trunc a b =
     (if a < b then 0
      else let n = nbits (a div b) in
        if n \<le> 24 then rne (a * 2 ^ (24 - n)) b div 2 ^ (24 - n)
        else rne a (b * 2 ^ (n - 24)) * 2 ^ (n - 24))"

text \<open>\<open>(i32)((f32)a/b)\<close>: undefined when \<open>b\<close> is 0 or the result does not fit.\<close>

definition in_i32 :: "int \<Rightarrow> int option" where
  "in_i32 v = (if - (2 ^ 31) \<le> v \<and> v < 2 ^ 31 then Some v else None)"

definition f32_quot :: "int \<Rightarrow> int \<Rightarrow> int option" where
  "f32_quot a b =
     (if b = 0 then None
      else in_i32 (sgn a * sgn b * int (f32_quot_trunc (f32_nat (nat \<bar>a\<bar>)) (f32_nat (nat \<bar>b\<bar>)))))"

text \<open>
  \<open>(int)((double)a/b)\<close>: a double has 53 bits, and two integers below \<open>2^32\<close> whose quotient is
  not whole are at least \<open>2^-32\<close> (relatively) away from the next integer, so the truncated
  quotient is the integer quotient.
\<close>

definition f64_quot :: "int \<Rightarrow> int \<Rightarrow> int option" where
  "f64_quot a b = (if b = 0 then None else in_i32 (cdiv a b))"

text \<open>
  The bits of an \<open>f32\<close> assigned to an \<open>i32\<close> variable and read back: the fraction is cut off;
  a value out of range becomes \<open>INT_MIN\<close> (what the conversion instruction of the target
  stores).
\<close>

definition float_via_i32 :: "int \<Rightarrow> int" where
  "float_via_i32 b =
     (let e = (b div 2 ^ 23) mod 256 - 127 in
      if e < 0 then 0
      else if e < 23 then (b div 2 ^ nat (23 - e)) * 2 ^ nat (23 - e)
      else if e < 31 then b
      else 0xCF000000)"

section \<open>Exactness below \<open>2^24\<close>\<close>

lemma nbits_bounds: "0 < n \<Longrightarrow> 2 ^ (nbits n - 1) \<le> n \<and> n < 2 ^ nbits n \<and> 0 < nbits n"
proof (induction n rule: nbits.induct)
  case (1 n)
  then show ?case
  proof (cases "n div 2 = 0")
    case True
    then have "n = 1" using 1 by simp
    then show ?thesis by (simp add: nbits.simps)
  next
    case False
    define k where "k = nbits (n div 2)"
    have k: "2 ^ (k - 1) \<le> n div 2" "n div 2 < 2 ^ k" "0 < k"
      using 1 False by (simp_all add: k_def)
    have n: "nbits n = Suc k" using 1 by (simp add: nbits.simps [of n] k_def)
    have "(2::nat) ^ k = 2 * 2 ^ (k - 1)" using k by (cases k) simp_all
    then have "2 ^ k \<le> n" using k by linarith
    moreover have "n < 2 ^ Suc k" using k by simp
    ultimately show ?thesis by (simp add: n)
  qed
qed

lemma nbits_le: "n < 2 ^ k \<Longrightarrow> nbits n \<le> k"
proof (rule ccontr)
  assume a: "n < 2 ^ k" "\<not> nbits n \<le> k"
  then have "0 < n" by (cases "n = 0") (simp_all add: nbits.simps)
  then have "(2::nat) ^ (nbits n - 1) \<le> n" using nbits_bounds by simp
  moreover have "(2::nat) ^ k \<le> 2 ^ (nbits n - 1)" using a by (intro power_increasing) auto
  ultimately show False using a by linarith
qed

lemma rne_1 [simp]: "rne p (Suc 0) = p"
  by (simp add: rne_def)

lemma f32_nat_id [cint]: "n \<le> 2 ^ 24 \<Longrightarrow> f32_nat n = n"
proof (cases "n = 2 ^ 24")
  case True
  have "nbits (2 ^ 24) = 25" by (simp add: nbits.simps)
  then show ?thesis by (simp add: True f32_nat_def rne_def)
next
  case False
  assume "n \<le> 2 ^ 24"
  then have "nbits n - 24 = 0" using False nbits_le [of n 24] by simp
  then show ?thesis by (simp add: f32_nat_def)
qed

lemma f32_int_id [cint]: "\<bar>x\<bar> \<le> 2 ^ 24 \<Longrightarrow> f32_int x = x"
  by (simp add: f32_int_def f32_nat_id nat_le_iff sgn_mult_abs)

text \<open>Rounding does not reach the next integer when the divisor is small against the scale.\<close>

lemma rne_scaled:
  assumes "0 < b" "b < 2 * s"
  shows "rne (a * s) b div s = a div b"
proof -
  define q where "q = a div b"
  define d where "d = a * s div b"
  have s: "0 < s" using assms by simp
  have lo: "q * s \<le> d"
  proof -
    have "q * s * b \<le> a * s" by (simp add: q_def mult.commute mult.left_commute)
    then show ?thesis using assms(1) by (simp add: d_def less_eq_div_iff_mult_less_eq)
  qed
  have hi: "rne (a * s) b < (q + 1) * s"
  proof -
    have "a + 1 \<le> (q + 1) * b"
      using assms(1) dividend_less_div_times [of b a] by (simp add: q_def)
    then have "(a + 1) * s \<le> (q + 1) * b * s" by (rule mult_right_mono) simp
    then have a: "a * s + s \<le> (q + 1) * s * b" by (simp add: algebra_simps)
    have split: "a * s = d * b + (a * s) mod b" by (simp add: d_def)
    have d: "d < (q + 1) * s"
    proof -
      have "d * b < (q + 1) * s * b" using a split s by linarith
      then show ?thesis by simp
    qed
    show ?thesis
    proof (cases "Suc d < (q + 1) * s")
      case True
      then show ?thesis by (simp add: rne_def d_def Let_def)
    next
      case False
      then have "(q + 1) * s = Suc d" using d by linarith
      then have "(a * s) mod b + s \<le> b" using a split by (simp add: algebra_simps)
      then have "2 * ((a * s) mod b) < b" using assms(2) by linarith
      then show ?thesis using d by (simp add: rne_def d_def Let_def)
    qed
  qed
  have "q * s \<le> rne (a * s) b" using lo by (simp add: rne_def d_def Let_def)
  then have "rne (a * s) b div s = q"
    using hi by (intro div_nat_eqI) (simp_all add: algebra_simps)
  then show ?thesis by (simp add: q_def)
qed

lemma f32_quot_trunc_exact:
  assumes "a < 2 ^ 24" "0 < b"
  shows "f32_quot_trunc a b = a div b"
proof (cases "a < b")
  case True
  then show ?thesis by (simp add: f32_quot_trunc_def)
next
  case False
  define n where "n = nbits (a div b)"
  have "0 < a div b" using False assms(2) by (simp add: div_greater_zero_iff)
  then have n: "2 ^ (n - 1) \<le> a div b" "a div b < 2 ^ n" "0 < n"
    using nbits_bounds by (simp_all add: n_def)
  have "a div b < 2 ^ 24" using assms(1) div_le_dividend le_less_trans by blast
  then have n24: "n \<le> 24" unfolding n_def by (rule nbits_le)
  have "b < 2 * 2 ^ (24 - n)"
  proof (rule ccontr)
    assume "\<not> ?thesis"
    then have "2 ^ (n - 1) * (2 * 2 ^ (24 - n)) \<le> a div b * b"
      using n(1) by (intro mult_le_mono) auto
    also have "\<dots> \<le> a" by simp
    finally have "2 ^ (n - 1 + Suc (24 - n)) \<le> a" by (simp only: power_add power_Suc)
    moreover have "n - 1 + Suc (24 - n) = 24" using n n24 by simp
    ultimately show False using assms(1) by simp
  qed
  then show ?thesis
    using False n24 rne_scaled [OF assms(2), of "2 ^ (24 - n)" a]
    by (simp add: f32_quot_trunc_def n_def [symmetric])
qed

lemma int_div_le: "0 \<le> a \<Longrightarrow> 0 < b \<Longrightarrow> a div b \<le> (a :: int)"
  using zdiv_mono2 [of a 1 b] by simp

lemma f32_quot_exact:
  assumes "0 \<le> a" "a < 2 ^ 24" "0 < b" "b \<le> 2 ^ 24"
  shows "f32_quot a b = Some (a div b)"
proof -
  have "f32_quot_trunc (f32_nat (nat \<bar>a\<bar>)) (f32_nat (nat \<bar>b\<bar>)) = nat a div nat b"
    using assms by (simp add: f32_nat_id nat_le_iff f32_quot_trunc_exact nat_less_iff)
  moreover have "a div b \<le> a" using assms by (simp add: int_div_le)
  moreover have "0 \<le> a div b" using assms by (simp add: pos_imp_zdiv_nonneg_iff)
  ultimately show ?thesis
    using assms by (cases "a = 0") (simp_all add: f32_quot_def in_i32_def zdiv_int)
qed

lemma f64_quot_exact:
  assumes "0 \<le> a" "a < 2 ^ 31" "0 < b"
  shows "f64_quot a b = Some (a div b)"
proof -
  have "a div b \<le> a" "0 \<le> a div b"
    using assms by (simp_all add: int_div_le pos_imp_zdiv_nonneg_iff)
  then show ?thesis using assms by (simp add: f64_quot_def in_i32_def cdiv_nonneg)
qed

end
