(* ===== verification/GU_Rotate.thy ===== *)
theory GU_Rotate imports CFloat Scatter
begin

text \<open>
  Image rotation, \<open>PAN/Modules/GUNSC/private/c/src/GU_transformations.c\<close>.

  The angle table is \<open>RI_angle_vals\<close> at the multiples of 90 degrees within a full turn, where
  its \<open>1e-4\<close> threshold makes sine and cosine exactly -1, 0 or 1; other angles are \<open>None\<close>.
  A value of the form \<open>x - ncols/2\<close> is kept doubled, so that it is a whole number; halving is
  exact in \<open>f32\<close>, so rounding the doubled value (\<open>f32_int\<close>) rounds the value.

  The three routines differ in the pixel width only.  \<open>mal\<close> is \<open>malloc\<close>; the scratch buffer
  starts with whatever memory holds there.
\<close>

definition RI_angle_vals :: "int \<Rightarrow> (int \<times> int) option" where
  "RI_angle_vals degrees =
     (if degrees \<in> {0, 360, -360} then Some (0, 1)
      else if degrees \<in> {90, -270} then Some (1, 0)
      else if degrees \<in> {180, -180} then Some (0, -1)
      else if degrees \<in> {270, -90} then Some (-1, 0)
      else None)"

text \<open>\<open>(f32)(x-(f32)n/2)\<close>, doubled.\<close>

definition centred :: "int \<Rightarrow> int \<Rightarrow> int" where
  "centred x n = f32_int (2 * f32_int x - f32_int n)"

text \<open>The pair \<open>(i, j)\<close> of the inner loop.\<close>

definition rot_coords :: "int \<times> int \<Rightarrow> int \<Rightarrow> int \<Rightarrow> int \<Rightarrow> int \<Rightarrow> int \<Rightarrow> int \<Rightarrow> int \<times> int" where
  "rot_coords sc ncols nrows icorr jcorr x y =
     (case sc of (sine, cosine) \<Rightarrow>
       (let X = centred x ncols; Y = centred y nrows in
        (cdiv (f32_int (f32_int (f32_int (X * cosine - Y * sine) + 2 * f32_int (nrows div 2)) - 2 * icorr)) 2,
         cdiv (f32_int (f32_int (f32_int (X * sine + Y * cosine) + 2 * f32_int (ncols div 2)) - 2 * jcorr)) 2)))"

text \<open>The common body of \<open>RI_SHORT\<close>, \<open>RI_LONG\<close> and \<open>RI_FLOAT\<close>, for \<open>w\<close> bytes per pixel.\<close>

definition rot_dst :: "nat \<Rightarrow> int \<Rightarrow> int \<times> int \<Rightarrow> int \<Rightarrow> int \<Rightarrow> int \<Rightarrow> int \<Rightarrow> int \<Rightarrow> int" where
  "rot_dst w rotptr sc ncols nrows rotation x y =
     (let (jcorr, icorr) = (if rotation = 90 then (0, 1) else (1, 0));
          (i, j) = rot_coords sc ncols nrows icorr jcorr x y in
      rotptr + int w * to_u32 (j * nrows) + int w * i)"

definition rot_src :: "nat \<Rightarrow> int \<Rightarrow> int \<Rightarrow> int \<Rightarrow> int \<Rightarrow> int" where
  "rot_src w imptr ncols x y = imptr + int w * to_u32 (y * ncols + x)"

definition RI_body :: "nat \<Rightarrow> (int \<Rightarrow> int) \<Rightarrow> mem \<Rightarrow> int \<Rightarrow> int \<Rightarrow> int \<Rightarrow> int \<Rightarrow> (int \<times> mem) option" where
  "RI_body w mal m imptr ncols nrows rotation =
     (let bytes = to_u32 (ncols * nrows * int w); rotptr = mal bytes in
      case RI_angle_vals rotation of
        None \<Rightarrow> None
      | Some sc \<Rightarrow>
          if imptr = 0 \<or> rotptr = 0 then Some (- EFAULT, m)
          else
            (let m1 = for_n (nat nrows) (\<lambda>y m. for_n (nat ncols) (\<lambda>x m.
                   memcpy m (rot_dst w rotptr sc ncols nrows rotation (int x) (int y))
                     (rot_src w imptr ncols (int x) (int y)) (int w)) m) m in
             Some (0, memcpy m1 imptr rotptr bytes)))"

definition RI_SHORT :: "(int \<Rightarrow> int) \<Rightarrow> mem \<Rightarrow> int \<Rightarrow> int \<Rightarrow> int \<Rightarrow> int \<Rightarrow> (int \<times> mem) option" where
  "RI_SHORT = RI_body 2"

definition RI_LONG :: "(int \<Rightarrow> int) \<Rightarrow> mem \<Rightarrow> int \<Rightarrow> int \<Rightarrow> int \<Rightarrow> int \<Rightarrow> (int \<times> mem) option" where
  "RI_LONG = RI_body 4"

definition RI_FLOAT :: "(int \<Rightarrow> int) \<Rightarrow> mem \<Rightarrow> int \<Rightarrow> int \<Rightarrow> int \<Rightarrow> int \<Rightarrow> (int \<times> mem) option" where
  "RI_FLOAT = RI_body 4"

definition Rotate_Image ::
  "(int \<Rightarrow> int) \<Rightarrow> mem \<Rightarrow> int \<Rightarrow> int \<Rightarrow> int \<Rightarrow> int \<Rightarrow> int \<Rightarrow> (int \<times> mem) option" where
  "Rotate_Image mal m imageptr ncols nrows bpp rotation =
     (if bpp = 16 then RI_SHORT mal m imageptr ncols nrows rotation
      else if bpp = 32 then RI_LONG mal m imageptr ncols nrows rotation
      else if bpp = -32 then RI_FLOAT mal m imageptr ncols nrows rotation
      else Some (- EINVAL, m))"

section \<open>The loop as a scatter\<close>

lemma RI_loop_scatter:
  fixes c r :: nat
  assumes cr: "c * r < 2 ^ 32"
    and dst: "\<And>k. k < r * c \<Longrightarrow>
      rot_dst w rotptr sc (int c) (int r) rotation (int (k mod c)) (int (k div c)) = D k"
  shows "for_n r (\<lambda>y m. for_n c (\<lambda>x m.
      memcpy m (rot_dst w rotptr sc (int c) (int r) rotation (int x) (int y))
        (rot_src w imptr (int c) (int x) (int y)) (int w)) m) m
    = scatter (c * r) D (\<lambda>k. imptr + int w * int k) w m"
proof -
  let ?B = "\<lambda>k m. memcpy m (D k) (imptr + int w * int k) (int w)"
  have body: "memcpy t (rot_dst w rotptr sc (int c) (int r) rotation (int x) (int y))
        (rot_src w imptr (int c) (int x) (int y)) (int w) = ?B (y * c + x) t"
    if "y < r" "x < c" for x y t
  proof -
    have k: "y * c + x < c * r" using cell_less [OF that(2,1)] .
    then have "int (y * c + x) < 2 ^ 32" using cr by (intro nat_fits_u32) linarith
    then have "int y * int c + int x < 2 ^ 32" by simp
    then have "rot_src w imptr (int c) (int x) (int y) = imptr + int w * int (y * c + x)"
      by (simp add: rot_src_def to_u32_id)
    moreover have "rot_dst w rotptr sc (int c) (int r) rotation (int x) (int y) = D (y * c + x)"
      using dst [of "y * c + x"] k cell_eq [OF that(2), of y] by (simp add: mult.commute)
    ultimately show ?thesis by simp
  qed
  have "for_n r (\<lambda>y m. for_n c (\<lambda>x m.
      memcpy m (rot_dst w rotptr sc (int c) (int r) rotation (int x) (int y))
        (rot_src w imptr (int c) (int x) (int y)) (int w)) m) m
    = for_n r (\<lambda>y m. for_n c (\<lambda>x. ?B (y * c + x)) m) m"
    by (intro for_n_cong refl) (simp add: body)
  also have "\<dots> = for_n (r * c) ?B m" by (rule for_n_nested)
  finally show ?thesis by (simp add: scatter_def mult.commute)
qed

lemma centred_exact:
  "0 \<le> x \<Longrightarrow> x \<le> n \<Longrightarrow> n \<le> 2 ^ 16 \<Longrightarrow> centred x n = 2 * x - n"
  by (simp add: centred_def f32_int_id)

lemma rot_coords_exact:
  assumes sc: "sc \<in> {(1, 0), (-1, 0), (0, 1), (0, -1)}"
    and "0 \<le> x" "x \<le> c" "c \<le> 2 ^ 16" "0 \<le> y" "y \<le> r" "r \<le> 2 ^ 16"
    and "icorr \<in> {0, 1}" "jcorr \<in> {0, 1}"
  shows "rot_coords sc c r icorr jcorr x y =
     (cdiv ((2 * x - c) * snd sc - (2 * y - r) * fst sc + 2 * (r div 2) - 2 * icorr) 2,
      cdiv ((2 * x - c) * fst sc + (2 * y - r) * snd sc + 2 * (c div 2) - 2 * jcorr) 2)"
  using assms by (auto simp: rot_coords_def centred_exact f32_int_id)

lemma cdiv_even [simp]: "cdiv (2 * a) 2 = a"
  by (simp add: cdiv_def abs_mult sgn_mult sgn_mult_abs)

text \<open>What a placed copy leaves when it is copied back over its source.\<close>

context placement
begin

lemma placed_back:
  assumes "apart imptr (int (w * c * r)) base (int (w * c * r))" and k: "k < c * r"
  shows "rd (memcpy (scatter (c * r) (\<lambda>k. base + int w * int (pos c r k))
            (\<lambda>k. imptr + int w * int k) w m) imptr base (int (w * c * r)))
          (imptr + int w * int (pos c r k)) w = rd m (imptr + int w * int k) w"
proof -
  let ?s = "scatter (c * r) (\<lambda>k. base + int w * int (pos c r k)) (\<lambda>k. imptr + int w * int k) w m"
  have "rd (memcpy ?s imptr base (int (w * c * r))) (imptr + int w * int (pos c r k)) w
      = rd ?s (base + (imptr + int w * int (pos c r k) - imptr)) w"
    using pos_inside [OF k, of imptr w]
    by (intro rd_memcpy_inside) (simp_all add: mult.assoc)
  also have "\<dots> = rd ?s (base + int w * int (pos c r k)) w" by simp
  also have "\<dots> = rd m (imptr + int w * int k) w"
  proof (rule placed_read [OF _ k])
    fix i
    assume "i < c * r"
    note inside = ll.pos_inside [OF this, unfolded pos_LL_def, of imptr w]
    have "int (w * c * r) = int w * int (c * r)" by (simp only: mult.assoc of_nat_mult)
    then show "apart (imptr + int w * int i) (int w) base (int w * int (c * r))"
      using apart_sub [OF assms(1), of "imptr + int w * int i" "int w"] inside by presburger
  qed
  finally show ?thesis .
qed

lemma placed_back_frame:
  assumes "apart p (int l) base (int (w * c * r))" "apart p (int l) imptr (int (w * c * r))"
  shows "rd (memcpy (scatter (c * r) (\<lambda>k. base + int w * int (pos c r k)) S w m)
            imptr base (int (w * c * r))) p l = rd m p l"
proof -
  have "rd (memcpy (scatter (c * r) (\<lambda>k. base + int w * int (pos c r k)) S w m)
            imptr base (int (w * c * r))) p l
      = rd (scatter (c * r) (\<lambda>k. base + int w * int (pos c r k)) S w m) p l"
    using assms(2) by (intro rd_memcpy_disj) (simp add: apart_def)
  also have "\<dots> = rd m p l"
    using assms(1) by (intro placed_frame) (simp add: mult.assoc)
  finally show ?thesis .
qed

end

section \<open>Quarter turns of an image with even sides\<close>

definition turned :: "int \<Rightarrow> nat \<Rightarrow> nat \<Rightarrow> nat \<Rightarrow> nat" where
  "turned rotation = (if rotation = 90 then pos_90 else pos_270)"

definition rotatable :: "nat \<Rightarrow> nat \<Rightarrow> nat \<Rightarrow> bool" where
  "rotatable w c r \<longleftrightarrow> 0 < w \<and> even c \<and> even r \<and> c \<le> 2 ^ 16 \<and> r \<le> 2 ^ 16 \<and> w * c * r < 2 ^ 32"

lemma turned_placement: "placement (turned rotation)"
  by (simp add: turned_def quarter.placement_axioms three_quarters.placement_axioms)

lemma rotatable_pixels: "rotatable w c r \<Longrightarrow> c * r < 2 ^ 32"
proof -
  assume "rotatable w c r"
  then have "1 * (c * r) \<le> w * (c * r)" "w * c * r < 2 ^ 32"
    unfolding rotatable_def by (auto intro: mult_le_mono)
  then have "c * r \<le> w * c * r" "w * c * r < 2 ^ 32" by (simp_all only: mult.assoc mult_1)
  then show ?thesis by linarith
qed

lemma cdiv_evenI: "n = 2 * a \<Longrightarrow> cdiv n 2 = a"
  by simp

lemma rot_coords_90:
  assumes "even c" "even r" "c \<le> 2 ^ 16" "r \<le> 2 ^ 16" "x < c" "y < r"
  shows "rot_coords (1, 0) (int c) (int r) 1 0 (int x) (int y) = (int (r - 1 - y), int x)"
  using assms by (subst rot_coords_exact) (auto elim!: evenE intro!: cdiv_evenI simp: of_nat_diff)

lemma rot_coords_270:
  assumes "even c" "even r" "c \<le> 2 ^ 16" "r \<le> 2 ^ 16" "x < c" "y < r"
  shows "rot_coords (-1, 0) (int c) (int r) 0 1 (int x) (int y) = (int y, int (c - 1 - x))"
  using assms by (subst rot_coords_exact) (auto elim!: evenE intro!: cdiv_evenI simp: of_nat_diff)

lemma rot_dst_turned:
  assumes rot: "rotation \<in> {90, 270, -90}" and fits: "rotatable w c r" and k: "k < r * c"
    and sc: "RI_angle_vals rotation = Some sc"
  shows "rot_dst w rotptr sc (int c) (int r) rotation (int (k mod c)) (int (k div c))
    = rotptr + int w * int (turned rotation c r k)"
proof -
  define x y where "x = k mod c" and "y = k div c"
  have xy: "x < c" "y < r"
    using row_less [of k c r] col_less [of k c r] k by (simp_all add: x_def y_def mult.commute)
  have even: "even c" "even r" and small: "c \<le> 2 ^ 16" "r \<le> 2 ^ 16"
    using fits by (simp_all add: rotatable_def)
  note coords = rot_coords_90 [OF even small xy] rot_coords_270 [OF even small xy]
  have inner: "0 \<le> int j * int r" "int j * int r < 2 ^ 32" if "j < c" for j
  proof -
    have "j * r \<le> c * r" using that by (intro mult_le_mono) auto
    then have "int (j * r) < 2 ^ 32"
      using rotatable_pixels [OF fits] by (intro nat_fits_u32) linarith
    then show "0 \<le> int j * int r" "int j * int r < 2 ^ 32" by simp_all
  qed
  show ?thesis
  proof (cases "rotation = 90")
    case True
    then have "sc = (1, 0)" using sc by (simp add: RI_angle_vals_def)
    then show ?thesis
      using inner [OF xy(1)] True coords(1)
      by (simp add: rot_dst_def turned_def pos_90_def x_def [symmetric] y_def [symmetric]
          to_u32_id algebra_simps)
  next
    case False
    then have "sc = (-1, 0)" using sc rot by (auto simp: RI_angle_vals_def)
    define j where "j = c - 1 - x"
    have "rot_coords (-1, 0) (int c) (int r) 0 1 (int x) (int y) = (int y, int j)"
      using coords(2) by (simp add: j_def)
    moreover have "pos_270 c r k = j * r + y" by (simp add: pos_270_def j_def x_def y_def)
    moreover have "j < c" using xy(1) by (simp add: j_def)
    ultimately show ?thesis
      using inner [of j] False \<open>sc = (-1, 0)\<close>
      by (simp add: rot_dst_def turned_def x_def [symmetric] y_def [symmetric]
          to_u32_id algebra_simps)
  qed
qed

lemma RI_body_turned:
  assumes rot: "rotation \<in> {90, 270, -90}" and fits: "rotatable w c r"
    and ptrs: "imptr \<noteq> 0" "mal (int (w * c * r)) = base" "base \<noteq> 0"
  shows "RI_body w mal m imptr (int c) (int r) rotation = Some (0,
     memcpy (scatter (c * r) (\<lambda>k. base + int w * int (turned rotation c r k))
       (\<lambda>k. imptr + int w * int k) w m) imptr base (int (w * c * r)))"
proof -
  have "int (w * c * r) < 2 ^ 32"
    using fits by (intro nat_fits_u32) (simp add: rotatable_def)
  then have bytes: "to_u32 (int c * int r * int w) = int (w * c * r)"
    by (subst to_u32_id) (simp_all add: algebra_simps)
  obtain sc where sc: "RI_angle_vals rotation = Some sc"
    using rot by (auto simp: RI_angle_vals_def)
  note loop = RI_loop_scatter [OF rotatable_pixels [OF fits] rot_dst_turned [OF rot fits _ sc],
      of base imptr m]
  show ?thesis
    unfolding RI_body_def Let_def bytes ptrs(2) sc using ptrs(1,3) loop by simp
qed

text \<open>The image of \<open>c\<close> columns and \<open>r\<close> rows at \<open>imptr\<close> in \<open>m\<close> is turned in \<open>m'\<close>; nothing else
  changes, the scratch buffer at \<open>base\<close> apart.\<close>

definition turned_image :: "nat \<Rightarrow> nat \<Rightarrow> nat \<Rightarrow> int \<Rightarrow> int \<Rightarrow> int \<Rightarrow> mem \<Rightarrow> mem \<Rightarrow> bool" where
  "turned_image w c r rotation imptr base m m' \<longleftrightarrow>
     (\<forall>k < c * r. rd m' (imptr + int w * int (turned rotation c r k)) w
                = rd m (imptr + int w * int k) w)
   \<and> (\<forall>p l. apart p (int l) imptr (int (w * c * r)) \<and> apart p (int l) base (int (w * c * r))
        \<longrightarrow> rd m' p l = rd m p l)"

lemma RI_body_result:
  assumes rot: "rotation \<in> {90, 270, -90}" and fits: "rotatable w c r" and n: "n = w * c * r"
    and ptrs: "imptr \<noteq> 0" "mal (int n) \<noteq> 0" "apart imptr (int n) (mal (int n)) (int n)"
  shows "\<exists>m'. RI_body w mal m imptr (int c) (int r) rotation = Some (0, m')
    \<and> turned_image w c r rotation imptr (mal (int n)) m m'"
proof -
  define base where "base = mal (int n)"
  have "mal (int (w * c * r)) = base" "base \<noteq> 0" using ptrs(2) by (simp_all only: base_def n not_False_eq_True)
  note body = RI_body_turned [where mal = mal and m = m, OF rot fits ptrs(1) this]
  show ?thesis
    unfolding body base_def [symmetric] turned_image_def
    using placement.placed_back [OF turned_placement ptrs(3) [unfolded base_def [symmetric] n]]
      placement.placed_back_frame [OF turned_placement]
    by (simp add: base_def n)
qed

definition pix_width :: "int \<Rightarrow> nat" where
  "pix_width bpp = (if bpp = 16 then 2 else 4)"

lemma Rotate_Image_body:
  "bpp \<in> {16, 32, -32} \<Longrightarrow>
     Rotate_Image mal m p c r bpp rotation = RI_body (pix_width bpp) mal m p c r rotation"
  by (auto simp: Rotate_Image_def pix_width_def RI_SHORT_def RI_LONG_def RI_FLOAT_def)

text \<open>C20: a quarter turn of an image with even sides moves every pixel to its place in the
  turned image (\<open>pos_90\<close> for 90 degrees, \<open>pos_270\<close> for 270 and -90), for each of the three
  pixel types, and leaves the rest of memory (the scratch buffer apart) alone.\<close>

theorem Rotate_Image_quarter:
  assumes bpp: "bpp \<in> {16, 32, -32}" and rot: "rotation \<in> {90, 270, -90}"
    and fits: "rotatable (pix_width bpp) c r" and n: "n = pix_width bpp * c * r"
    and ptrs: "imptr \<noteq> 0" "mal (int n) \<noteq> 0" "apart imptr (int n) (mal (int n)) (int n)"
  shows "\<exists>m'. Rotate_Image mal m imptr (int c) (int r) bpp rotation = Some (0, m')
    \<and> turned_image (pix_width bpp) c r rotation imptr (mal (int n)) m m'"
  unfolding Rotate_Image_body [OF bpp]
  by (rule RI_body_result [where mal = mal, OF rot fits n ptrs])

text \<open>A 2 by 2 image of 16-bit pixels at 100, turned by 90 degrees.\<close>

theorem Rotate_Image_quarter_witness:
  "\<exists>m'. Rotate_Image (\<lambda>_. 1000) (\<lambda>a. of_int a) 100 2 2 16 90 = Some (0, m')
     \<and> rd m' 102 2 = [100, 101] \<and> rd m' 106 2 = [102, 103] \<and> rd m' 100 2 = [104, 105]
     \<and> rd m' 104 2 = [106, 107]"
proof -
  obtain m' where m': "Rotate_Image (\<lambda>_. 1000) (\<lambda>a. of_int a) 100 2 2 16 90 = Some (0, m')"
    and px: "turned_image 2 2 2 90 100 1000 (\<lambda>a. of_int a) m'"
  proof -
    have "\<exists>m'. Rotate_Image (\<lambda>_. 1000) (\<lambda>a. of_int a) 100 (int 2) (int 2) 16 90 = Some (0, m')
        \<and> turned_image (pix_width 16) 2 2 90 100 1000 (\<lambda>a. of_int a) m'"
      by (rule Rotate_Image_quarter [where mal = "\<lambda>_. 1000" and n = 8])
        (simp_all add: rotatable_def pix_width_def apart_def)
    then show ?thesis using that by (auto simp: pix_width_def)
  qed
  have "rd m' (100 + 2 * int (turned 90 2 2 k)) 2 = rd (\<lambda>a. of_int a) (100 + 2 * int k) 2"
    if "k < 4" for k
    using px that by (simp add: turned_image_def)
  from this [of 0] this [of 1] this [of 2] this [of 3] have
    "rd m' 102 2 = [100, 101]" "rd m' 106 2 = [102, 103]"
    "rd m' 100 2 = [104, 105]" "rd m' 104 2 = [106, 107]"
    by (simp_all add: turned_def pos_90_def rd_def upt_rec)
  with m' show ?thesis by blast
qed



section \<open>Where the rotation goes wrong\<close>

text \<open>For 180 and -270 degrees the correction terms are wrong and the first pixel is
  written outside the scratch buffer of \<open>ncols * nrows\<close> pixels: one pixel past its end for a
  square image and 180, \<open>2^32\<close> pixels away for -270 (an angle \<open>GU_add_amp\<close> accepts and keeps).\<close>

theorem RI_first_pixel_outside:
  assumes "even c" "even r" "0 < c" "0 < r" "c \<le> 2 ^ 16" "r \<le> 2 ^ 16"
  shows "rot_dst w rotptr (the (RI_angle_vals 180)) (int c) (int c) 180 0 0 = rotptr + int (w * c * c)
    \<and> rot_dst w rotptr (the (RI_angle_vals (-270))) (int c) (int r) (-270) 0 0 = rotptr + int w * 2 ^ 32"
proof -
  obtain d where d: "c = Suc d" using assms(3) by (cases c) auto
  have "d * c \<le> 2 ^ 16 * 2 ^ 16 - 1"
  proof -
    have "d * c + c \<le> 2 ^ 16 * 2 ^ 16"
      using assms mult_le_mono [of c "2 ^ 16" c "2 ^ 16"] by (simp add: d)
    then show ?thesis using assms by simp
  qed
  then have "int (d * c) < 2 ^ 32" by (intro nat_fits_u32) simp
  then have jr: "to_u32 (int d * int c) = int d * int c"
    by (intro to_u32_id) simp_all
  have "rot_coords (0, -1) (int c) (int c) 0 1 0 0 = (int c, int c - 1)"
    using assms by (subst rot_coords_exact) (auto elim!: evenE intro!: cdiv_evenI)
  then have "rot_coords (0, -1) (int c) (int c) 0 1 0 0 = (int c, int d)" by (simp add: d)
  then have a: "rot_dst w rotptr (0, -1) (int c) (int c) 180 0 0 = rotptr + int (w * c * c)"
    by (simp add: rot_dst_def jr) (simp add: d algebra_simps)
  have "rot_coords (1, 0) (int c) (int r) 0 1 0 0 = (int r, - 1)"
    using assms by (subst rot_coords_exact) (auto elim!: evenE intro!: cdiv_evenI)
  moreover have "to_u32 (- int r) = 2 ^ 32 - int r"
    using assms by (simp add: to_u32_def zmod_zminus1_eq_if)
  ultimately have "rot_dst w rotptr (1, 0) (int c) (int r) (-270) 0 0 = rotptr + int w * 2 ^ 32"
    by (simp add: rot_dst_def right_diff_distrib)
  with a show ?thesis by (simp add: RI_angle_vals_def)
qed

theorem RI_first_pixel_outside_witness:
  "rot_dst 2 1000 (the (RI_angle_vals 180)) 4 4 180 0 0 = 1032
   \<and> rot_dst 2 1000 (the (RI_angle_vals (-270))) 4 2 (-270) 0 0 = 1000 + 2 * 2 ^ 32"
  using RI_first_pixel_outside [of 4 2 2 1000] by simp

text \<open>With an odd number of columns a 90-degree turn writes columns 0 and 1 to the same
  place (the half-integer coordinate is truncated towards zero), so a column is lost.\<close>

theorem RI_odd_columns_collide:
  assumes "odd c" "c \<le> 2 ^ 16" "r \<le> 2 ^ 16" "y < r"
  shows "rot_dst w rotptr (the (RI_angle_vals 90)) (int c) (int r) 90 0 (int y)
    = rot_dst w rotptr (the (RI_angle_vals 90)) (int c) (int r) 90 1 (int y)"
proof -
  obtain h where h: "c = 2 * h + 1" using assms(1) by (elim oddE)
  have "rot_coords (1, 0) (int c) (int r) 1 0 0 (int y) = rot_coords (1, 0) (int c) (int r) 1 0 1 (int y)"
    using assms by (subst (1 2) rot_coords_exact) (auto simp: h cdiv_def)
  then show ?thesis by (simp add: RI_angle_vals_def rot_dst_def)
qed

theorem RI_odd_columns_collide_witness:
  "rot_dst 2 1000 (the (RI_angle_vals 90)) 3 2 90 0 1 = rot_dst 2 1000 (the (RI_angle_vals 90)) 3 2 90 1 1"
  using RI_odd_columns_collide [of 3 2 1] by simp

end
