(* ===== verification/GU_Unscramble.thy ===== *)
theory GU_Unscramble imports GU_Sections GU_Rotate
begin

text \<open>
  The unscrambling routines \<open>GU_SHORT\<close>, \<open>GU_LONG\<close>, \<open>GU_FLOAT\<close> and \<open>GU_NONE\<close>
  (\<open>GU_algors.c\<close> lines 564 to 914).  The raw buffer holds the pixels of the amplifiers
  interleaved; amplifier \<open>i\<close> of the readout order goes to slot \<open>PhysMap[i]\<close> of the output
  buffer, in the order its readout corner asks for.

  A pixel is \<open>w\<close> bytes and moving it is a \<open>memcpy\<close>.  The loop variables \<open>ptr\<close>, \<open>procpix\<close> and
  \<open>endline\<close> are 32-bit unsigned and wrap.  \<open>None\<close> is a division by zero (no amplifier, or an
  amplifier without columns), a section call that cannot be resolved or a rotation the model
  of \<open>RI_angle_vals\<close> does not cover.  A routine returns the pointer it returns, the value it
  stores to \<open>*err\<close> (if it does) and the state.
\<close>

section \<open>Reading out one amplifier\<close>

text \<open>The state of the inner loops: memory, \<open>ptr\<close> and \<open>procpix\<close>.\<close>

type_synonym scan = "mem \<times> int \<times> int"

definition put_pixel :: "nat \<Rightarrow> (int \<Rightarrow> int) \<Rightarrow> int \<Rightarrow> int \<Rightarrow> scan \<Rightarrow> scan" where
  "put_pixel w dst rawptr namps = (\<lambda>(m, ptr, procpix).
     (memcpy m (dst procpix) (rawptr + int w * ptr) (int w), to_u32 (ptr + namps),
      to_u32 (procpix + 1)))"

definition scan_LL :: "nat \<Rightarrow> int \<Rightarrow> int \<Rightarrow> int \<Rightarrow> int \<Rightarrow> scan \<Rightarrow> scan" where
  "scan_LL w dp rawptr namps ampdata =
     for_n (nat ampdata) (\<lambda>_. put_pixel w (\<lambda>procpix. dp + int w * procpix) rawptr namps)"

definition scan_UR :: "nat \<Rightarrow> int \<Rightarrow> int \<Rightarrow> int \<Rightarrow> int \<Rightarrow> scan \<Rightarrow> scan" where
  "scan_UR w dp rawptr namps ampdata =
     for_n (nat ampdata)
       (\<lambda>_. put_pixel w (\<lambda>procpix. dp + int w * (ampdata - procpix - 1)) rawptr namps)"

text \<open>One row of the \<open>LR\<close> and \<open>UL\<close> cases: \<open>endline\<close> is computed from \<open>procpix\<close> at its start.\<close>

definition end_line :: "int \<Rightarrow> nat \<Rightarrow> int \<Rightarrow> int" where
  "end_line ncols y procpix = to_u32 ((int y + 1) * ncols - 1 + procpix)"

definition scan_LR :: "nat \<Rightarrow> int \<Rightarrow> int \<Rightarrow> int \<Rightarrow> int \<Rightarrow> int \<Rightarrow> scan \<Rightarrow> scan" where
  "scan_LR w dp rawptr namps ncols chunkrows =
     for_n (nat (to_u32 chunkrows)) (\<lambda>y (m, ptr, procpix).
       (let endline = end_line ncols y procpix in
        for_n (nat (to_u32 ncols))
          (\<lambda>_. put_pixel w (\<lambda>procpix. dp + int w * (endline - procpix)) rawptr namps)
          (m, ptr, procpix)))"

definition scan_UL :: "nat \<Rightarrow> int \<Rightarrow> int \<Rightarrow> int \<Rightarrow> int \<Rightarrow> int \<Rightarrow> int \<Rightarrow> scan \<Rightarrow> scan" where
  "scan_UL w dp rawptr namps ampdata ncols chunkrows =
     for_n (nat (to_u32 chunkrows)) (\<lambda>y (m, ptr, procpix).
       (let endline = end_line ncols y procpix in
        for_n (nat (to_u32 ncols))
          (\<lambda>_. put_pixel w (\<lambda>procpix. dp + int w * (ampdata - endline + procpix - 1)) rawptr namps)
          (m, ptr, procpix)))"

text \<open>\<open>switch (amp[a].type)\<close>\<close>

definition scan_amp ::
  "nat \<Rightarrow> amp_t \<Rightarrow> int \<Rightarrow> int \<Rightarrow> int \<Rightarrow> int \<Rightarrow> int \<Rightarrow> int \<Rightarrow> mem \<Rightarrow> mem" where
  "scan_amp w A dp rawptr namps ampdata chunkrows i m =
     fst (if amp_type A = LL then scan_LL w dp rawptr namps ampdata (m, i, 0)
          else if amp_type A = UR then scan_UR w dp rawptr namps ampdata (m, i, 0)
          else if amp_type A = LR then
            scan_LR w dp rawptr namps (amp_ncols A) chunkrows (m, i, 0)
          else if amp_type A AND UL \<noteq> 0 then
            scan_UL w dp rawptr namps ampdata (amp_ncols A) chunkrows (m, i, 0)
          else (m, i, 0))"

section \<open>The loop over the amplifiers\<close>

type_synonym rotator = "(int \<Rightarrow> int) \<Rightarrow> mem \<Rightarrow> int \<Rightarrow> int \<Rightarrow> int \<Rightarrow> int \<Rightarrow> (int \<times> mem) option"

definition amp_turn ::
  "nat \<Rightarrow> (int \<Rightarrow> int \<Rightarrow> int option) \<Rightarrow> rotator \<Rightarrow> (int \<Rightarrow> int) \<Rightarrow> int \<Rightarrow> int \<Rightarrow> int \<Rightarrow> nat
   \<Rightarrow> int \<times> gu \<Rightarrow> (int \<times> gu) option" where
  "amp_turn w quot RI mal rawptr imptr ampdata i = (\<lambda>(_, s).
     (let a = g_PhysMap s (int i);
          p = imptr + int w * to_u32 (a * ampdata);
          A = (g_amp s a)\<lparr>dataptr := p\<rparr> in
      case quot ampdata (amp_ncols A) of None \<Rightarrow> None
      | Some chunkrows \<Rightarrow>
          (let m = scan_amp w A p rawptr (int (g_namps s)) ampdata chunkrows (int i) (g_mem s);
               s1 = s\<lparr>g_amp := (g_amp s)(a := A), g_mem := m\<rparr> in
           if amp_rotate A \<noteq> 0 then
             (case RI mal m p (to_u32 (amp_ncols A)) (to_u32 chunkrows) (amp_rotate A) of
                None \<Rightarrow> None | Some (_, m') \<Rightarrow> Some (chunkrows, s1\<lparr>g_mem := m'\<rparr>))
           else Some (chunkrows, s1))))"

text \<open>Swapping neighbouring pixels of the raw buffer (\<open>pix_swap\<close>, one amplifier).  For
  \<open>GU_FLOAT\<close> the temporary is an \<open>i32\<close>, so the first pixel of a pair is converted.\<close>

definition swap_pair :: "nat \<Rightarrow> int \<Rightarrow> mem \<Rightarrow> mem" where
  "swap_pair w p m = (\<lambda>a. if p \<le> a \<and> a < p + int w then m (a + int w)
     else if p + int w \<le> a \<and> a < p + 2 * int w then m (a - int w) else m a)"

definition swap_pair_float :: "int \<Rightarrow> mem \<Rightarrow> mem" where
  "swap_pair_float p m = (let tmp = float_via_i32 (ld_u32 m p) in
     st_u32 (memcpy m p (p + 4) 4) (p + 4) tmp)"

definition swap_raw :: "nat \<Rightarrow> (int \<Rightarrow> mem \<Rightarrow> mem) \<Rightarrow> int \<Rightarrow> int \<Rightarrow> gu \<Rightarrow> gu" where
  "swap_raw w swap rawptr ampdata s =
     (if g_namps s = 1 \<and> g_pix_swap s \<noteq> 0 then
        s\<lparr>g_mem := for_n (nat ((ampdata + 1) div 2)) (\<lambda>k. swap (rawptr + int w * (2 * int k))) (g_mem s)\<rparr>
      else s)"

text \<open>The common end: sections, then detector extensions.\<close>

definition finish_unscr ::
  "(int \<Rightarrow> int) \<Rightarrow> int \<Rightarrow> int \<Rightarrow> int \<Rightarrow> gu \<Rightarrow> (ampsptr \<times> int option \<times> gu) option" where
  "finish_unscr mal bpp nelems chunkrows s0 =
     Option.bind
       (let s = s0\<lparr>g_bytes_pp := bpp\<rparr> in
        if g_arrange s then map_option snd (GU_rearrange_sections mal chunkrows s) else Some s)
       (\<lambda>s. if g_detext s \<noteq> 0 then
          map_option (\<lambda>r. (DetArray, None, snd r)) (GU_do_detextensions mal (g_detbufptr s) nelems chunkrows s)
        else Some (AmpArray, None, s))"

definition unscramble ::
  "nat \<Rightarrow> (int \<Rightarrow> int \<Rightarrow> int option) \<Rightarrow> (int \<Rightarrow> mem \<Rightarrow> mem) \<Rightarrow> rotator \<Rightarrow> int option \<Rightarrow> (int \<Rightarrow> int)
   \<Rightarrow> int \<Rightarrow> int \<Rightarrow> int \<Rightarrow> gu \<Rightarrow> (ampsptr \<times> int option \<times> gu) option" where
  "unscramble w quot swap RI nullerr mal rptr imageptr nelems s =
     (if imageptr = 0 \<or> rptr = 0 then Some (NULLp, nullerr, s)
      else if g_namps s = 0 then None
      else (let ampdata = to_u32 nelems div int (g_namps s) in
        Option.bind
          (for_opt (g_namps s) (amp_turn w quot RI mal rptr imageptr ampdata)
            (amp_nrows (g_amp s 0), swap_raw w swap rptr ampdata s))
          (\<lambda>(chunkrows, s). finish_unscr mal (int w) nelems chunkrows s)))"

definition GU_SHORT ::
  "(int \<Rightarrow> int) \<Rightarrow> int \<Rightarrow> int \<Rightarrow> int \<Rightarrow> gu \<Rightarrow> (ampsptr \<times> int option \<times> gu) option" where
  "GU_SHORT = unscramble 2 f32_quot (swap_pair 2) RI_SHORT None"

definition GU_LONG ::
  "(int \<Rightarrow> int) \<Rightarrow> int \<Rightarrow> int \<Rightarrow> int \<Rightarrow> gu \<Rightarrow> (ampsptr \<times> int option \<times> gu) option" where
  "GU_LONG = unscramble 4 f64_quot (swap_pair 4) RI_LONG (Some (- EFAULT))"

definition GU_FLOAT ::
  "(int \<Rightarrow> int) \<Rightarrow> int \<Rightarrow> int \<Rightarrow> int \<Rightarrow> gu \<Rightarrow> (ampsptr \<times> int option \<times> gu) option" where
  "GU_FLOAT = unscramble 4 f32_quot swap_pair_float RI_FLOAT (Some (- EFAULT))"

text \<open>Unscrambling disabled: one copy, then each amplifier (or detector) gets its share.\<close>

definition GU_NONE :: "int \<Rightarrow> int \<Rightarrow> int \<Rightarrow> gu \<Rightarrow> (ampsptr \<times> int option \<times> gu) option" where
  "GU_NONE rptr imageptr nelems s0 =
     (if rptr = 0 \<or> imageptr = 0 then Some (NULLp, Some (- EFAULT), s0)
      else (let b = g_bytes_pp s0;
                s = s0\<lparr>g_mem := memcpy (g_mem s0) imageptr rptr (to_i32 (nelems * b))\<rparr> in
        if g_detext s = 0 then
          (if g_namps s = 0 then None
           else (let ampdata = to_i32 (to_u32 nelems div int (g_namps s)) in
             Some (AmpArray, None, for_n (g_namps s) (\<lambda>i s. s\<lparr>g_amp := (g_amp s)(int i :=
                 (g_amp s (int i))\<lparr>dataptr := imageptr + to_i32 (int i * b * ampdata)\<rparr>)\<rparr>) s)))
        else if g_ndets s = 0 then None
        else (let detdata = to_i32 (to_u32 nelems div int (g_ndets s)) in
          Some (case for_ret (g_namps s) (\<lambda>i (dused, s).
                 (let d = GU_getdet (amp_detno (g_amp s (int i))) s in
                  if d < 0 then Inl (IntAsPtr (- ENXIO), None, s)
                  else if dused d then Inr (dused, s)
                  else Inr (dused(d := True), s\<lparr>g_det := (g_det s)(d :=
                         (g_det s d)\<lparr>dataptr := imageptr + to_i32 (d * to_i32 (detdata * b))\<rparr>)\<rparr>)))
                 ((\<lambda>_. False), s) of
               Inl r \<Rightarrow> r
             | Inr (_, s') \<Rightarrow> (DetArray, None, s')))))"

end
