(* ===== verification/GU_Front.thy ===== *)
theory GU_Front imports GU_Unscramble
begin

text \<open>
  The front end of the unscrambling library, \<open>PAN/Modules/GUNSC/private/c/src/GUnscrambling.c\<close>:
  it loads the algorithm library, selects the routine for a pixel type and passes every call
  on through the loaded pointers.  The pointers are a table from the variable's name to the
  symbol; a call through a pointer that is \<open>NULL\<close> is \<open>None\<close>.
\<close>

record front =
  f_FunctionLib :: bool
  f_ptrs :: "string \<Rightarrow> symptr"
  f_GUnsc :: symptr
  f_dtype :: int
  f_enabled :: int
  f_algorpath :: string

definition front_init :: front where
  "front_init = \<lparr>f_FunctionLib = False, f_ptrs = (\<lambda>_. None), f_GUnsc = None, f_dtype = 16,
     f_enabled = 1, f_algorpath = []\<rparr>"

text \<open>The \<open>dlsym\<close> calls of \<open>GU_open\<close>, in order: variable and symbol.\<close>

definition open_table :: "(string \<times> string) list" where
  "open_table =
     [(''GUadd'', ''GU_add_amp''), (''GUadddet'', ''GU_add_det''), (''GUdetext'', ''GU_det_ext''),
      (''GUclear'', ''GU_clear_amps''), (''GUgetptr'', ''GU_get_amps_ptr''),
      (''GUsetmap'', ''GU_SetPhysMap''), (''GUcopy'', ''GU_copy_image''),
      (''GUgetPtr'', ''GU_get_raw_ptr''), (''GUsetbytespp'', ''GU_set_bytes_pp''),
      (''GUpixswap'', ''GU_pix_swap''), (''GUorder_left'', ''GU_set_arrange_sections_left''),
      (''GUorder_right'', ''GU_set_arrange_sections_right''),
      (''GUorder_lower'', ''GU_set_arrange_sections_lower''),
      (''GUorder_upper'', ''GU_set_arrange_sections_upper'')]"

text \<open>\<open>dlerror()\<close> after a loader call that failed or not.\<close>

definition GU_checkError :: "int \<Rightarrow> bool \<Rightarrow> int" where
  "GU_checkError iferr failed = (if failed then - iferr else OK)"

fun load_table :: "dlenv \<Rightarrow> bool \<Rightarrow> (string \<times> string) list \<Rightarrow> (string \<Rightarrow> symptr) \<Rightarrow> int \<times> (string \<Rightarrow> symptr)" where
  "load_table env handle [] ptrs = (OK, ptrs)"
| "load_table env handle ((v, name) # rest) ptrs =
     (let q = dlsym env handle name; ptrs' = ptrs(v := q); ret = GU_checkError ELIBACC (q = None) in
      if ret \<noteq> 0 then (ret, ptrs') else load_table env handle rest ptrs')"

definition GU_open :: "dlenv \<Rightarrow> string \<Rightarrow> front \<Rightarrow> int \<times> front" where
  "GU_open env filepath f =
     (let ok = dl_open env filepath; f1 = f\<lparr>f_algorpath := filepath, f_FunctionLib := ok\<rparr>;
          ret = GU_checkError ELIBACC (\<not> ok) in
      if ret \<noteq> 0 then (ret, f1)
      else (case load_table env ok open_table (f_ptrs f1) of
              (ret, ptrs) \<Rightarrow> (ret, f1\<lparr>f_ptrs := ptrs\<rparr>)))"

definition GU_close :: "bool \<Rightarrow> front \<Rightarrow> int \<times> front" where
  "GU_close failed f = (GU_checkError ELIBACC failed, f)"

definition GU_GetMaxAmps :: int where
  "GU_GetMaxAmps = int MAX_AMPS"

text \<open>A call through a loaded pointer: the symbol is the routine of the algorithm library.\<close>

definition via :: "front \<Rightarrow> string \<Rightarrow> 'a \<Rightarrow> 'a option" where
  "via f v r = (case f_ptrs f v of None \<Rightarrow> None | Some _ \<Rightarrow> Some r)"

definition unsc_name :: "int \<Rightarrow> string option" where
  "unsc_name datatype =
     (if datatype = 32 then Some ''GU_LONG''
      else if datatype = -32 then Some ''GU_FLOAT''
      else if datatype = 16 then Some ''GU_SHORT''
      else None)"

text \<open>The second half of \<open>GU_compute\<close>: bytes per pixel and the data type are set.\<close>

definition set_dtype :: "int \<Rightarrow> front \<Rightarrow> gu \<Rightarrow> (int \<times> front \<times> gu) option" where
  "set_dtype datatype f s =
     (case f32_quot \<bar>datatype\<bar> 8 of None \<Rightarrow> None
      | Some bytes \<Rightarrow>
          map_option (\<lambda>r. (OK, f\<lparr>f_dtype := datatype\<rparr>, snd r))
            (via f ''GUsetbytespp'' (GU_set_bytes_pp bytes s)))"

definition GU_compute :: "dlenv \<Rightarrow> int \<Rightarrow> front \<Rightarrow> gu \<Rightarrow> (int \<times> front \<times> gu) option" where
  "GU_compute env datatype f s =
     (if f_enabled f \<noteq> 0 then
        (case unsc_name datatype of
           None \<Rightarrow> Some (- EINVAL, f, s)
         | Some funcname \<Rightarrow>
             (let q = dlsym env (f_FunctionLib f) funcname; f1 = f\<lparr>f_GUnsc := q\<rparr>;
                  ret = GU_checkError ENOSYS (q = None) in
              if ret \<noteq> 0 then Some (ret, f1, s) else set_dtype datatype f1 s))
      else set_dtype datatype f s)"

definition GU_enable :: "dlenv \<Rightarrow> int \<Rightarrow> front \<Rightarrow> gu \<Rightarrow> (int \<times> front \<times> gu) option" where
  "GU_enable env flag f s =
     (if flag \<le> 0 then
        (let q = dlsym env (f_FunctionLib f) ''GU_NONE''; f1 = f\<lparr>f_GUnsc := q\<rparr>;
             ret = GU_checkError ENOSYS (q = None) in
         if ret \<noteq> 0 then Some (ret, f1, s) else Some (ret, f1\<lparr>f_enabled := 0\<rparr>, s))
      else GU_compute env (f_dtype f) (f\<lparr>f_enabled := 1\<rparr>) s)"

definition GU_is_enabled :: "front \<Rightarrow> int" where
  "GU_is_enabled f = f_enabled f"

section \<open>Calls passed on to the algorithm library\<close>

definition GU_call_pix_swap :: "int \<Rightarrow> front \<Rightarrow> gu \<Rightarrow> (int \<times> gu) option" where
  "GU_call_pix_swap flag f s = via f ''GUpixswap'' (OK, GU_pix_swap flag s)"

definition GU_call_clear_amps :: "front \<Rightarrow> gu \<Rightarrow> (int \<times> gu) option" where
  "GU_call_clear_amps f s = via f ''GUclear'' (GU_clear_amps s)"

definition GU_call_det_ext :: "(int \<Rightarrow> int) \<Rightarrow> int \<Rightarrow> front \<Rightarrow> gu \<Rightarrow> (int \<times> gu) option" where
  "GU_call_det_ext mal flag f s = via f ''GUdetext'' (GU_det_ext mal flag s)"

definition GU_call_set_order_left ::
  "dlenv \<Rightarrow> string option \<Rightarrow> string option \<Rightarrow> string option \<Rightarrow> front \<Rightarrow> gu \<Rightarrow> (int \<times> gu) option" where
  "GU_call_set_order_left env a b c f s =
     via f ''GUorder_left'' (GU_set_arrange_sections_left env (f_algorpath f) a b c s)"

definition GU_call_set_order_right ::
  "dlenv \<Rightarrow> string option \<Rightarrow> string option \<Rightarrow> string option \<Rightarrow> front \<Rightarrow> gu \<Rightarrow> (int \<times> gu) option" where
  "GU_call_set_order_right env a b c f s =
     via f ''GUorder_right'' (GU_set_arrange_sections_right env (f_algorpath f) a b c s)"

definition GU_call_set_order_lower ::
  "dlenv \<Rightarrow> string option \<Rightarrow> string option \<Rightarrow> string option \<Rightarrow> front \<Rightarrow> gu \<Rightarrow> (int \<times> gu) option" where
  "GU_call_set_order_lower env a b c f s =
     via f ''GUorder_lower'' (GU_set_arrange_sections_lower env (f_algorpath f) a b c s)"

definition GU_call_set_order_upper ::
  "dlenv \<Rightarrow> string option \<Rightarrow> string option \<Rightarrow> string option \<Rightarrow> front \<Rightarrow> gu \<Rightarrow> (int \<times> gu) option" where
  "GU_call_set_order_upper env a b c f s =
     via f ''GUorder_upper'' (GU_set_arrange_sections_upper env (f_algorpath f) a b c s)"

definition GU_call_add_det ::
  "int \<Rightarrow> int \<Rightarrow> int \<Rightarrow> int \<Rightarrow> int \<Rightarrow> int \<Rightarrow> int \<Rightarrow> int \<Rightarrow> int \<Rightarrow> int \<Rightarrow> int \<Rightarrow> int
   \<Rightarrow> front \<Rightarrow> gu \<Rightarrow> (int \<times> gu) option" where
  "GU_call_add_det xstart precols datacols postcols ystart prerows datarows postrows nxamps nyamps
     discard detno f s =
     via f ''GUadddet'' (GU_add_det xstart precols datacols postcols ystart prerows datarows postrows
       nxamps nyamps discard detno s)"

text \<open>\<open>type\<close> and \<open>flip\<close> are \<open>i16\<close> parameters.\<close>

definition GU_call_add_amp ::
  "int \<Rightarrow> int \<Rightarrow> int \<Rightarrow> int \<Rightarrow> int \<Rightarrow> int \<Rightarrow> int \<Rightarrow> int \<Rightarrow> int \<Rightarrow> int \<Rightarrow> int \<Rightarrow> int \<Rightarrow> int \<Rightarrow> int
   \<Rightarrow> int \<Rightarrow> int \<Rightarrow> int \<Rightarrow> front \<Rightarrow> gu \<Rightarrow> (int \<times> gu) option" where
  "GU_call_add_amp xstart precols datacols postcols ystart prerows datarows postrows xdetstart
     ydetstart type rotation flip extension detno ampno discard f s =
     via f ''GUadd'' (GU_add_amp xstart precols datacols postcols ystart prerows datarows postrows
       xdetstart ydetstart (to_i16 type) rotation (to_i16 flip) extension detno ampno discard s)"

definition GU_call_get_amps_ptr :: "front \<Rightarrow> gu \<Rightarrow> ampsptr option" where
  "GU_call_get_amps_ptr f s = via f ''GUgetptr'' (GU_get_amps_ptr s)"

definition GU_call_SetPhysMap :: "int \<Rightarrow> int \<Rightarrow> front \<Rightarrow> gu \<Rightarrow> (int \<times> gu) option" where
  "GU_call_SetPhysMap array num_elements f s = via f ''GUsetmap'' (GU_SetPhysMap array num_elements s)"

definition GU_call_unscrambling ::
  "(int \<Rightarrow> int) \<Rightarrow> int \<Rightarrow> int \<Rightarrow> int \<Rightarrow> front \<Rightarrow> gu \<Rightarrow> (ampsptr \<times> int option \<times> gu) option" where
  "GU_call_unscrambling mal rptr imageptr nelems f s =
     (if f_GUnsc f = Some ''GU_SHORT'' then GU_SHORT mal rptr imageptr nelems s
      else if f_GUnsc f = Some ''GU_LONG'' then GU_LONG mal rptr imageptr nelems s
      else if f_GUnsc f = Some ''GU_FLOAT'' then GU_FLOAT mal rptr imageptr nelems s
      else if f_GUnsc f = Some ''GU_NONE'' then GU_NONE rptr imageptr nelems s
      else None)"

text \<open>The buffer address is an \<open>i32\<close> parameter here.\<close>

definition GU_call_copy_image :: "int \<Rightarrow> int \<Rightarrow> int \<Rightarrow> front \<Rightarrow> gu \<Rightarrow> (int \<times> gu) option" where
  "GU_call_copy_image buff amplifiers totcols f s =
     via f ''GUcopy'' (GU_copy_image (to_i32 buff) (to_i32 amplifiers) totcols s)"

definition GU_call_get_raw_ptr :: "front \<Rightarrow> gu \<Rightarrow> (int \<times> int) option" where
  "GU_call_get_raw_ptr f s = via f ''GUgetPtr'' (GU_get_raw_ptr s)"

end
