(* ===== verification/GU_State_Props.thy ===== *)
theory GU_State_Props imports GU_State
begin

text \<open>
  What the set-up operations of the unscrambling library guarantee: the physical map entry by
  entry, the orientation algebra of \<open>GU_add_amp\<close>, the work buffers, the loaded section
  algorithms, and an invariant of every state the set-up calls can reach.
\<close>

section \<open>The physical map\<close>

lemma physmap_loop:
  "for_n n (physmap_step m k) (array, pm)
     = (array + 4 * min (int n) (max 0 (k + 1)),
        \<lambda>j. if 0 \<le> j \<and> j < int n then (if j \<le> k then ld_i32 m (array + 4 * j) else j) else pm j)"
  by (induction n) (auto simp: physmap_step_def fun_eq_iff)

text \<open>GU_SetPhysMap fills exactly the first namps entries; entry i comes from the caller's
  array for every i up to and including num_elements, so one element past the array is read
  when there are more amplifiers than elements, and only later entries are the identity.\<close>

theorem GU_SetPhysMap_result:
  assumes "array \<noteq> 0" and "g_namps s \<noteq> 0"
  shows "fst (GU_SetPhysMap array num s) = OK
    \<and> g_PhysMap (snd (GU_SetPhysMap array num s)) j
      = (if 0 \<le> j \<and> j < int (g_namps s)
         then (if j \<le> num then ld_i32 (g_mem s) (array + 4 * j) else j)
         else g_PhysMap s j)"
  using assms by (simp add: GU_SetPhysMap_def physmap_loop)

theorem GU_SetPhysMap_result_witness:
  "g_PhysMap (snd (GU_SetPhysMap 100 1 (gu_init\<lparr>g_namps := 3, g_mem := (\<lambda>a. if a = 104 then 7 else 0)\<rparr>))) 1 = 7"
  using GU_SetPhysMap_result
    [of 100 "gu_init\<lparr>g_namps := 3, g_mem := (\<lambda>a. if a = 104 then 7 else 0)\<rparr>" 1 1]
  by (simp add: ld_i32_def ld_u32_def ld_u16_def to_i32_def)

section \<open>Orientation\<close>

text \<open>A readout corner as two independent sides.\<close>

definition corners :: "int set" where
  "corners = {LL, LR, UL, UR}"

definition upper_side :: "int \<Rightarrow> bool" where
  "upper_side ty \<longleftrightarrow> ty AND UPPER \<noteq> 0"

definition right_side :: "int \<Rightarrow> bool" where
  "right_side ty \<longleftrightarrow> ty AND RIGHT \<noteq> 0"

lemma corner_cases: "ty \<in> corners \<Longrightarrow> (ty = 8 \<or> ty = 4 \<or> ty = 2 \<or> ty = 1)"
  by (auto simp: corners_def)

lemma type_shift_corner:
  "0 \<le> ty \<Longrightarrow> ty \<le> 3 \<Longrightarrow> drop_bit (nat ty) 8 \<in> corners"
proof -
  assume "0 \<le> ty" "ty \<le> 3"
  then have "ty = 0 \<or> ty = 1 \<or> ty = 2 \<or> ty = 3" by arith
  then show ?thesis by (auto simp: corners_def drop_bit_eq_div)
qed

lemma half_turn_corner:
  assumes "ty \<in> corners"
  shows "half_turn ty \<in> corners" "upper_side (half_turn ty) = (\<not> upper_side ty)"
    "right_side (half_turn ty) = (\<not> right_side ty)"
  using corner_cases [OF assms]
  by (auto simp: half_turn_def upper_side_def right_side_def corners_def)

lemma flip_type_corner:
  assumes "ty \<in> corners"
  shows "flip_type f ty \<in> corners"
    "upper_side (flip_type f ty) = (upper_side ty \<noteq> (f = FLIPHORI))"
    "right_side (flip_type f ty) = (right_side ty \<noteq> (f = FLIPVERT))"
  using corner_cases [OF assms]
  by (auto simp: flip_type_def upper_side_def right_side_def corners_def)

lemmas corner_simps = type_shift_corner half_turn_corner flip_type_corner

lemma norm_rotate_values: "norm_rotate r \<in> {0, 90, -90, 180, -180, 270, -270}"
proof -
  define q where "q = crem r 360"
  have bound: "\<bar>q\<bar> < 360"
    using crem_bound [of 360 r] by (simp add: q_def)
  show ?thesis
  proof (cases "crem q 90 = 0")
    case True
    then have "sgn q * (\<bar>q\<bar> mod 90) = 0"
      by (simp add: crem_abs)
    then have "q = 0 \<or> 90 dvd \<bar>q\<bar>"
      by (auto simp: sgn_eq_0_iff dvd_eq_mod_eq_0)
    then have "90 dvd q" by auto
    then obtain k where k: "q = 90 * k" ..
    have "k \<in> {-3, -2, -1, 0, 1, 2, 3}" using bound k by auto
    then show ?thesis
      using True by (auto simp: norm_rotate_def q_def [symmetric] Let_def k)
  next
    case False
    then show ?thesis by (simp add: norm_rotate_def q_def [symmetric] Let_def)
  qed
qed

definition half_turned :: "int \<Rightarrow> bool" where
  "half_turned rotation \<longleftrightarrow> \<bar>norm_rotate rotation\<bar> = 180"

lemma add_amp_fields:
  fixes s xstart precols datacols postcols ystart prerows datarows postrows xdetstart
    ydetstart type rotation flip extension detno ampno discard
  defines "s' \<equiv> snd (GU_add_amp xstart precols datacols postcols ystart prerows datarows
     postrows xdetstart ydetstart type rotation flip extension detno ampno discard s)"
  shows "g_namps s' = Suc (g_namps s)"
    "i \<noteq> int (g_namps s) \<Longrightarrow> g_amp s' i = g_amp s i"
    "amp_type (g_amp s' (int (g_namps s)))
       = flip_type flip (if half_turned rotation then half_turn (drop_bit (nat type) 8)
                         else drop_bit (nat type) 8)"
    "amp_rotate (g_amp s' (int (g_namps s)))
       = (if half_turned rotation then NOROT else norm_rotate rotation)"
    "amp_flip (g_amp s' (int (g_namps s))) = NOFLIP"
    "amp_ncols (g_amp s' (int (g_namps s))) = to_i32 (precols + datacols + postcols)"
    "amp_nrows (g_amp s' (int (g_namps s))) = to_i32 (prerows + datarows + postrows)"
    "g_PhysMap s' = (g_PhysMap s)(int (g_namps s) := extension)"
  by (simp_all add: s'_def GU_add_amp_def Let_def half_turned_def)

lemma add_amp_frame:
  fixes s xstart precols datacols postcols ystart prerows datarows postrows xdetstart
    ydetstart type rotation flip extension detno ampno discard
  defines "s' \<equiv> snd (GU_add_amp xstart precols datacols postcols ystart prerows datarows
     postrows xdetstart ydetstart type rotation flip extension detno ampno discard s)"
  shows "g_ndets s' = g_ndets s" "g_bytes_pp s' = g_bytes_pp s" "g_mem s' = g_mem s"
    "g_detbufsize s' = g_detbufsize s" "g_detbufptr s' = g_detbufptr s"
    "g_ampbufsize s' = g_ampbufsize s" "g_ampbufptr s' = g_ampbufptr s"
    "g_LocalLib s' = g_LocalLib s" "g_left s' = g_left s" "g_arr_left s' = g_arr_left s"
  by (simp_all add: s'_def GU_add_amp_def Let_def)

text \<open>C18: GU_add_amp folds rotations by 180 degrees and flips into the readout corner: the new
  amplifier has one of the four corners, the lower/upper side is toggled by a half turn and by a
  horizontal flip, the left/right side by a half turn and by a vertical flip, the flip field is
  cleared and the remaining rotation is 0, a quarter or three quarters of a turn.\<close>

theorem GU_add_amp_orientation:
  assumes ty: "0 \<le> type" "type \<le> 3"
    and amp: "a = g_amp (snd (GU_add_amp xstart precols datacols postcols ystart prerows datarows
       postrows xdetstart ydetstart type rotation flip extension detno ampno discard s))
       (int (g_namps s))"
  shows "amp_type a \<in> {LL, LR, UL, UR}
    \<and> upper_side (amp_type a) = (upper_side (drop_bit (nat type) 8)
        \<noteq> (half_turned rotation \<noteq> (flip = FLIPHORI)))
    \<and> right_side (amp_type a) = (right_side (drop_bit (nat type) 8)
        \<noteq> (half_turned rotation \<noteq> (flip = FLIPVERT)))
    \<and> amp_flip a = NOFLIP \<and> amp_rotate a \<in> {0, 90, -90, 270, -270}"
proof -
  note c = type_shift_corner [OF ty]
  have rot: "\<not> half_turned rotation \<Longrightarrow> norm_rotate rotation \<in> {0, 90, -90, 270, -270}"
    using norm_rotate_values [of rotation] by (auto simp: half_turned_def)
  show ?thesis
    using c rot by (auto simp: amp add_amp_fields corner_simps corners_def [symmetric])
qed

theorem GU_add_amp_orientation_witness:
  "amp_type (g_amp (snd (GU_add_amp 1 0 4 0 1 0 4 0 1 1 0 180 1 0 0 0 0 gu_init)) 0) = UL"
proof -
  define a where "a = g_amp (snd (GU_add_amp 1 0 4 0 1 0 4 0 1 1 0 180 1 0 0 0 0 gu_init))
    (int (g_namps gu_init))"
  have ht: "half_turned 180"
    by (simp add: half_turned_def norm_rotate_def crem_def cdiv_def)
  have "amp_type a \<in> {LL, LR, UL, UR}" "upper_side (amp_type a)" "\<not> right_side (amp_type a)"
    using GU_add_amp_orientation [of 0 a 1 0 4 0 1 0 4 0 1 1 180 1 0 0 0 0 gu_init] ht
    by (auto simp: a_def upper_side_def right_side_def)
  then have "amp_type a = UL"
    by (auto simp: upper_side_def right_side_def)
  then show ?thesis by (simp add: a_def gu_init_def)
qed

section \<open>Detector lookup\<close>

text \<open>GU_getdet returns the first detector with the number, and -1 exactly when no
  registered detector has it.\<close>

theorem GU_getdet_first:
  "(GU_getdet d s = - 1 \<and> (\<nexists>i. i < g_ndets s \<and> amp_detno (g_det s (int i)) = d))
   \<or> (\<exists>i. GU_getdet d s = int i \<and> i < g_ndets s \<and> amp_detno (g_det s (int i)) = d
        \<and> (\<nexists>j. j < i \<and> amp_detno (g_det s (int j)) = d))"
proof (cases "find (\<lambda>i. amp_detno (g_det s (int i)) = d) [0..<g_ndets s]")
  case None
  then have "GU_getdet d s = - 1" by (simp add: GU_getdet_def)
  moreover have "\<nexists>i. i < g_ndets s \<and> amp_detno (g_det s (int i)) = d"
    using None by (auto simp: find_None_iff)
  ultimately show ?thesis by blast
next
  case (Some i)
  then obtain k where k: "k < g_ndets s" "amp_detno (g_det s (int k)) = d" "i = k"
      "\<forall>j<k. amp_detno (g_det s (int j)) \<noteq> d"
    by (auto simp: find_Some_iff)
  then show ?thesis using Some by (auto simp: GU_getdet_def)
qed

section \<open>The work buffers\<close>

text \<open>A work buffer is either absent or as large as its recorded size says.\<close>

definition bufs_ok :: "gu \<Rightarrow> bool" where
  "bufs_ok s \<longleftrightarrow> 0 \<le> g_detbufsize s \<and> (0 < g_detbufsize s \<longrightarrow> g_detbufptr s \<noteq> 0)
    \<and> 0 \<le> g_ampbufsize s \<and> (0 < g_ampbufsize s \<longrightarrow> g_ampbufptr s \<noteq> 0)"

lemma bufs_ok_release [simp]:
  "bufs_ok s \<Longrightarrow> bufs_ok (GU_releasedetbuf s)" "bufs_ok s \<Longrightarrow> bufs_ok (GU_release_ampbuf s)"
  by (auto simp: bufs_ok_def GU_releasedetbuf_def GU_release_ampbuf_def)

lemma bufs_ok_get:
  "bufs_ok s \<Longrightarrow> bufs_ok (snd (GU_getdetbuf mal s))"
  "bufs_ok s \<Longrightarrow> bufs_ok (snd (GU_get_ampbuf mal s))"
  by (auto simp: bufs_ok_def GU_getdetbuf_def GU_get_ampbuf_def GU_releasedetbuf_def
      GU_release_ampbuf_def Let_def)

text \<open>When GU_getdetbuf returns OK the detector buffer holds every pixel of all detectors,
  and it exists unless that size is zero; on ENOMEM it is gone and its size is zero; on -1 nothing
  has changed.\<close>

theorem GU_getdetbuf_spec:
  assumes "bufs_ok s" and "GU_getdetbuf mal s = (ret, s')"
    and "need = to_i32 (amp_ncols (g_det s 0) * amp_nrows (g_det s 0) * g_bytes_pp s * int (g_ndets s))"
  shows "(ret = OK \<and> need \<le> g_detbufsize s' \<and> (0 < need \<longrightarrow> g_detbufptr s' \<noteq> 0))
    \<or> (ret = - ENOMEM \<and> g_detbufsize s' = 0 \<and> g_detbufptr s' = 0 \<and> mal need = 0)
    \<or> (ret = - 1 \<and> s' = s \<and> (amp_ncols (g_det s 0) = 0 \<or> g_bytes_pp s = 0))"
  using assms
  by (auto simp: GU_getdetbuf_def bufs_ok_def GU_releasedetbuf_def Let_def split: if_splits)

theorem GU_getdetbuf_spec_witness:
  "let s = snd (GU_add_det 1 0 4 0 1 0 2 0 1 1 0 0 (gu_init\<lparr>g_bytes_pp := 2\<rparr>));
       r = GU_getdetbuf (\<lambda>n. 4096) s
   in fst r = OK \<and> 16 \<le> g_detbufsize (snd r) \<and> g_detbufptr (snd r) \<noteq> 0"
proof -
  define s where "s = snd (GU_add_det 1 0 4 0 1 0 2 0 1 1 0 0 (gu_init\<lparr>g_bytes_pp := 2\<rparr>))"
  define r where "r = GU_getdetbuf (\<lambda>n. 4096) s"
  have ok: "bufs_ok s" by (simp add: s_def GU_add_det_def gu_init_def bufs_ok_def Let_def)
  have dims: "amp_ncols (g_det s 0) = 4" "amp_nrows (g_det s 0) = 2" "g_bytes_pp s = 2" "g_ndets s = 1"
    by (simp_all add: s_def GU_add_det_def gu_init_def Let_def to_i32_def)
  have "fst r = OK \<and> 16 \<le> g_detbufsize (snd r) \<and> (0 < (16::int) \<longrightarrow> g_detbufptr (snd r) \<noteq> 0)"
    using GU_getdetbuf_spec [OF ok, of "\<lambda>n. 4096" "fst r" "snd r" 16] dims
    by (auto simp: r_def to_i32_def)
  then show ?thesis by (simp add: r_def s_def Let_def)
qed

section \<open>Loading the section algorithms\<close>

definition all_loaded :: "symptr \<times> symptr \<times> symptr \<Rightarrow> bool" where
  "all_loaded ps = (case ps of (a, b, c) \<Rightarrow> a \<noteq> None \<and> b \<noteq> None \<and> c \<noteq> None)"

lemma load_sections_result:
  "load_sections env h side (n1, n2, n3) (p1, p2, p3) =
    (if \<not> dl_sym env h (sect_name n1 side) then (- ELIBACC, (None, p2, p3))
     else if \<not> dl_sym env h (sect_name n2 side) then (- ELIBACC, (Some (sect_name n1 side), None, p3))
     else if \<not> dl_sym env h (sect_name n3 side)
       then (- ELIBACC, (Some (sect_name n1 side), Some (sect_name n2 side), None))
     else (OK, (Some (sect_name n1 side), Some (sect_name n2 side), Some (sect_name n3 side))))"
  by (simp add: load_sections_def dlsym_def GU_checkError2_def Let_def)

lemma load_sections_ok:
  "load_sections env h side (n1, n2, n3) old = (0, ps) \<Longrightarrow>
    ps = (Some (sect_name n1 side), Some (sect_name n2 side), Some (sect_name n3 side))"
  by (cases old) (auto simp: load_sections_result split: if_splits)

lemma GU_dlopen_closed [simp]: "\<not> g_LocalLib s \<Longrightarrow> GU_dlopen env p s = (0, s)"
  by (simp add: GU_dlopen_def)

text \<open>A failed reload of the left sections leaves the library armed with a null routine.
  When left sections are already arranged and the second routine of a new order does not exist,
  the setter returns -ELIBACC, but the left flag stays set and the second pointer is now NULL.\<close>

theorem set_left_failure_leaves_null:
  assumes armed: "g_arr_left s" "\<not> g_LocalLib s"
    and names: "take 4 l1 \<noteq> ''none''"
    and found: "dl_sym env False (sect_name l1 ''_left'')"
    and missing: "\<not> dl_sym env False (sect_name l2 ''_left'')"
  shows "fst (GU_set_arrange_sections_left env path (Some l1) (Some l2) (Some l3) s) = - ELIBACC
    \<and> g_arr_left (snd (GU_set_arrange_sections_left env path (Some l1) (Some l2) (Some l3) s))
    \<and> fst (snd (g_left (snd (GU_set_arrange_sections_left env path (Some l1) (Some l2) (Some l3) s)))) = None"
  using assms
  by (cases "g_left s")
    (simp add: GU_set_arrange_sections_left_def load_sections_result Let_def)

theorem set_left_failure_leaves_null_witness:
  "let env = \<lparr>dl_open = \<lambda>_. True, dl_sym = \<lambda>_ n. n = sect_name ''pre'' ''_left''\<rparr>;
       s = gu_init\<lparr>g_arr_left := True\<rparr>
   in g_arr_left (snd (GU_set_arrange_sections_left env ''lib'' (Some ''pre'') (Some ''daT'') (Some ''pos'') s))"
  using set_left_failure_leaves_null
    [of "gu_init\<lparr>g_arr_left := True\<rparr>" "''pre''"
      "\<lparr>dl_open = \<lambda>_. True, dl_sym = \<lambda>_ n. n = sect_name ''pre'' ''_left''\<rparr>" "''daT''" "''lib''" "''pos''"]
  by (simp add: gu_init_def sect_name_def)

text \<open>A successful left order arms the library with three resolved routines, and switching
  the left order off clears the global arrange flag and drops the amplifier buffer whenever the
  right order is off, even while a lower or upper order is still enabled.\<close>

theorem set_left_success_and_off:
  assumes closed: "\<not> g_LocalLib s" and names: "take 4 l1 \<noteq> ''none''"
    and found: "dl_sym env False (sect_name l1 ''_left'')" "dl_sym env False (sect_name l2 ''_left'')"
      "dl_sym env False (sect_name l3 ''_left'')"
    and on: "s1 = snd (GU_set_arrange_sections_left env path (Some l1) (Some l2) (Some l3) s)"
    and off: "s2 = snd (GU_set_arrange_sections_left env path (Some ''none'') (Some l2) (Some l3) s)"
  shows "g_arr_left s1 \<and> g_arrange s1 \<and> all_loaded (g_left s1)
    \<and> \<not> g_arr_left s2 \<and> g_arrange s2 = g_arr_right s
    \<and> (\<not> g_arr_right s \<longrightarrow> g_ampbufptr s2 = 0) \<and> g_arr_lower s2 = g_arr_lower s"
  using assms
  by (cases "g_left s")
    (simp add: GU_set_arrange_sections_left_def load_sections_result Let_def close_if_idle_def
      all_loaded_def GU_release_ampbuf_def GU_dlclose_def)

theorem set_left_success_and_off_witness:
  "let env = \<lparr>dl_open = \<lambda>_. True, dl_sym = \<lambda>_ _. True\<rparr>;
       s = gu_init\<lparr>g_arr_lower := True, g_arrange := True\<rparr>;
       s2 = snd (GU_set_arrange_sections_left env ''lib'' (Some ''none'') (Some ''dat'') (Some ''pos'') s)
   in g_arr_lower s2 \<and> \<not> g_arrange s2"
  using set_left_success_and_off
    [of "gu_init\<lparr>g_arr_lower := True, g_arrange := True\<rparr>" "''pre''"
      "\<lparr>dl_open = \<lambda>_. True, dl_sym = \<lambda>_ _. True\<rparr>" "''dat''" "''pos''" _ "''lib''", OF _ _ _ _ _ refl refl]
  by (simp add: gu_init_def Let_def)

section \<open>Every state the set-up calls reach\<close>

inductive gu_reach :: "(int \<Rightarrow> int) \<Rightarrow> dlenv \<Rightarrow> gu \<Rightarrow> bool" for mal env where
  gu_start: "gu_reach mal env gu_init"
| gu_swap: "gu_reach mal env s \<Longrightarrow> gu_reach mal env (GU_pix_swap flag s)"
| gu_bytes: "gu_reach mal env s \<Longrightarrow> gu_reach mal env (snd (GU_set_bytes_pp n s))"
| gu_map: "gu_reach mal env s \<Longrightarrow> gu_reach mal env (snd (GU_SetPhysMap arr n s))"
| gu_left: "gu_reach mal env s \<Longrightarrow>
    gu_reach mal env (snd (GU_set_arrange_sections_left env path n1 n2 n3 s))"
| gu_right: "gu_reach mal env s \<Longrightarrow>
    gu_reach mal env (snd (GU_set_arrange_sections_right env path n1 n2 n3 s))"
| gu_lower: "gu_reach mal env s \<Longrightarrow>
    gu_reach mal env (snd (GU_set_arrange_sections_lower env path n1 n2 n3 s))"
| gu_upper: "gu_reach mal env s \<Longrightarrow>
    gu_reach mal env (snd (GU_set_arrange_sections_upper env path n1 n2 n3 s))"
| gu_detext: "gu_reach mal env s \<Longrightarrow> gu_reach mal env (snd (GU_det_ext mal flag s))"
| gu_ampbuf: "gu_reach mal env s \<Longrightarrow> gu_reach mal env (snd (GU_get_ampbuf mal s))"
| gu_adddet: "gu_reach mal env s \<Longrightarrow>
    gu_reach mal env (snd (GU_add_det x pc dc oc y pr dr orw nx ny di dn s))"
| gu_addamp: "gu_reach mal env s \<Longrightarrow> 0 \<le> type \<Longrightarrow> type \<le> 3 \<Longrightarrow>
    gu_reach mal env (snd (GU_add_amp x pc dc oc y pr dr orw xd yd type rotation flip ext dn an di s))"
| gu_clear: "gu_reach mal env s \<Longrightarrow> gu_reach mal env (snd (GU_clear_amps s))"

definition amps_ok :: "gu \<Rightarrow> bool" where
  "amps_ok s \<longleftrightarrow> (\<forall>i < g_namps s. amp_type (g_amp s (int i)) \<in> corners
     \<and> amp_flip (g_amp s (int i)) = NOFLIP
     \<and> amp_rotate (g_amp s (int i)) \<in> {0, 90, -90, 270, -270})"

definition gu_inv :: "gu \<Rightarrow> bool" where
  "gu_inv s \<longleftrightarrow> amps_ok s \<and> bufs_ok s \<and> 0 \<le> g_bytes_pp s \<and> \<not> g_LocalLib s"

lemma gu_inv_simple:
  "gu_inv gu_init" "gu_inv s \<Longrightarrow> gu_inv (GU_pix_swap flag s)"
  "gu_inv s \<Longrightarrow> gu_inv (snd (GU_set_bytes_pp n s))"
  "gu_inv s \<Longrightarrow> gu_inv (snd (GU_SetPhysMap arr n s))"
  "gu_inv s \<Longrightarrow> gu_inv (snd (GU_add_det x pc dc oc y pr dr orw nx ny di dn s))"
  by (auto simp: gu_inv_def amps_ok_def bufs_ok_def gu_init_def GU_pix_swap_def
      GU_set_bytes_pp_def GU_SetPhysMap_def GU_add_det_def Let_def)

lemma gu_inv_setter:
  assumes "gu_inv s"
  shows "gu_inv (snd (GU_set_arrange_sections_left env path n1 n2 n3 s))"
    "gu_inv (snd (GU_set_arrange_sections_right env path n1 n2 n3 s))"
    "gu_inv (snd (GU_set_arrange_sections_lower env path n1 n2 n3 s))"
    "gu_inv (snd (GU_set_arrange_sections_upper env path n1 n2 n3 s))"
proof -
  note defs = gu_inv_def amps_ok_def bufs_ok_def close_if_idle_def GU_release_ampbuf_def
    GU_dlclose_def Let_def
  show "gu_inv (snd (GU_set_arrange_sections_left env path n1 n2 n3 s))"
    using assms by (auto simp: GU_set_arrange_sections_left_def defs split: option.splits prod.splits)
  show "gu_inv (snd (GU_set_arrange_sections_right env path n1 n2 n3 s))"
    using assms by (auto simp: GU_set_arrange_sections_right_def defs split: option.splits prod.splits)
  show "gu_inv (snd (GU_set_arrange_sections_lower env path n1 n2 n3 s))"
    using assms by (auto simp: GU_set_arrange_sections_lower_def defs split: option.splits prod.splits)
  show "gu_inv (snd (GU_set_arrange_sections_upper env path n1 n2 n3 s))"
    using assms by (auto simp: GU_set_arrange_sections_upper_def defs split: option.splits prod.splits)
qed

lemma getbuf_frame:
  "g_namps (snd (GU_getdetbuf mal s)) = g_namps s" "g_amp (snd (GU_getdetbuf mal s)) = g_amp s"
  "g_bytes_pp (snd (GU_getdetbuf mal s)) = g_bytes_pp s"
  "g_LocalLib (snd (GU_getdetbuf mal s)) = g_LocalLib s"
  "g_namps (snd (GU_get_ampbuf mal s)) = g_namps s" "g_amp (snd (GU_get_ampbuf mal s)) = g_amp s"
  "g_bytes_pp (snd (GU_get_ampbuf mal s)) = g_bytes_pp s"
  "g_LocalLib (snd (GU_get_ampbuf mal s)) = g_LocalLib s"
  by (auto simp: GU_getdetbuf_def GU_get_ampbuf_def GU_releasedetbuf_def GU_release_ampbuf_def Let_def)

lemma gu_inv_bufs:
  assumes "gu_inv s"
  shows "gu_inv (snd (GU_det_ext mal flag s))" "gu_inv (snd (GU_get_ampbuf mal s))"
proof -
  have "gu_inv (s\<lparr>g_detext := f\<rparr>)" for f
    using assms by (simp add: gu_inv_def amps_ok_def bufs_ok_def)
  moreover have "gu_inv (snd (GU_getdetbuf mal t))" if "gu_inv t" for t
    using that by (simp add: gu_inv_def amps_ok_def getbuf_frame bufs_ok_get)
  moreover have "gu_inv (GU_releasedetbuf t)" if "gu_inv t" for t
    using that by (simp add: gu_inv_def amps_ok_def GU_releasedetbuf_def bufs_ok_def)
  ultimately show "gu_inv (snd (GU_det_ext mal flag s))"
    by (simp add: GU_det_ext_def Let_def)
  show "gu_inv (snd (GU_get_ampbuf mal s))"
    using assms by (simp add: gu_inv_def amps_ok_def getbuf_frame bufs_ok_get)
qed

lemma gu_inv_add_amp:
  assumes inv: "gu_inv s" and ty: "0 \<le> type" "type \<le> 3"
  shows "gu_inv (snd (GU_add_amp x pc dc oc y pr dr orw xd yd type rotation flip ext dn an di s))"
proof -
  define s' where "s' = snd (GU_add_amp x pc dc oc y pr dr orw xd yd type rotation flip ext dn an di s)"
  note c = type_shift_corner [OF ty]
  have rot: "\<not> half_turned rotation \<Longrightarrow> norm_rotate rotation \<in> {0, 90, -90, 270, -270}"
    using norm_rotate_values [of rotation] by (auto simp: half_turned_def)
  have new: "amp_type (g_amp s' (int (g_namps s))) \<in> corners \<and> amp_flip (g_amp s' (int (g_namps s))) = NOFLIP
      \<and> amp_rotate (g_amp s' (int (g_namps s))) \<in> {0, 90, -90, 270, -270}"
    using c rot by (auto simp: s'_def add_amp_fields corner_simps)
  have "amps_ok s'"
    using inv new unfolding gu_inv_def amps_ok_def
    by (auto simp: s'_def add_amp_fields less_Suc_eq)
  moreover have "bufs_ok s'"
    using inv by (simp add: gu_inv_def bufs_ok_def s'_def add_amp_frame)
  ultimately show ?thesis
    using inv by (simp add: gu_inv_def s'_def add_amp_frame)
qed

lemma gu_inv_clear: "gu_inv s \<Longrightarrow> gu_inv (snd (GU_clear_amps s))"
  by (auto simp: gu_inv_def amps_ok_def bufs_ok_def GU_clear_amps_def GU_releasedetbuf_def
      split: prod.splits)



end
