(* ===== verification/GU_Unscramble_Props.thy ===== *)
theory GU_Unscramble_Props imports GU_State_Props GU_Unscramble
begin

text \<open>
  What unscrambling does to the image: for every readout corner the loop of the code is a
  placement (\<open>Scatter\<close>), so each raw pixel arrives at one place of its amplifier's slot.
\<close>

section \<open>The scan of one amplifier is a scatter\<close>

definition corner_pos :: "int \<Rightarrow> nat \<Rightarrow> nat \<Rightarrow> nat \<Rightarrow> nat" where
  "corner_pos ty = (if ty = LL then pos_LL else if ty = UR then pos_UR
     else if ty = LR then pos_LR else pos_UL)"

lemma corner_placement: "placement (corner_pos ty)"
  by (simp add: corner_pos_def ll.placement_axioms ur.placement_axioms lr.placement_axioms
      ul.placement_axioms)

definition raw_pix :: "nat \<Rightarrow> int \<Rightarrow> nat \<Rightarrow> nat \<Rightarrow> nat \<Rightarrow> int" where
  "raw_pix w rawptr N i k = rawptr + int w * int (i + N * k)"

lemma scan_run:
  assumes dst: "\<And>x. x < n \<Longrightarrow> dst (int (p + x)) = D (p + x)"
    and N: "0 < N" and fits: "i + N * (p + n) < 2 ^ 32"
  shows "for_n n (\<lambda>_. put_pixel w dst rawptr (int N))
      (scatter p D (raw_pix w rawptr N i) w m, int (i + N * p), int p)
    = (scatter (p + n) D (raw_pix w rawptr N i) w m, int (i + N * (p + n)), int (p + n))"
  using dst fits
proof (induction n)
  case 0
  show ?case by simp
next
  case (Suc n)
  have IH: "for_n n (\<lambda>_. put_pixel w dst rawptr (int N))
      (scatter p D (raw_pix w rawptr N i) w m, int (i + N * p), int p)
    = (scatter (p + n) D (raw_pix w rawptr N i) w m, int (i + N * (p + n)), int (p + n))"
    using Suc by simp
  have "p + Suc n \<le> N * (p + Suc n)" using N by (rule le_times)
  also have "\<dots> \<le> i + N * (p + Suc n)" by simp
  finally have pn: "p + Suc n < 2 ^ 32" using Suc.prems(2) by (rule le_less_trans)
  have "int (i + N * (p + Suc n)) < 2 ^ 32" using Suc.prems(2) by (rule nat_fits_u32)
  then have "to_u32 (int (i + N * (p + n)) + int N) = int (i + N * (p + Suc n))"
    by (subst to_u32_id) (simp_all add: algebra_simps)
  moreover have "to_u32 (int (p + n) + 1) = int (p + Suc n)"
    using nat_fits_u32 [OF pn] by (subst to_u32_id) simp_all
  moreover have "dst (int (p + n)) = D (p + n)" using Suc.prems(1) [of n] by simp
  ultimately show ?case
    unfolding for_n.simps IH
    by (simp add: put_pixel_def raw_pix_def [of w rawptr N i "p + n"] del: of_nat_add of_nat_mult)
qed

lemma scan_rows:
  assumes row: "\<And>y x. y < r \<Longrightarrow> x < c \<Longrightarrow> dst y (int (y * c)) (int (y * c + x)) = D (y * c + x)"
    and N: "0 < N" and fits: "i + N * (c * r) < 2 ^ 32"
  shows "for_n r (\<lambda>y (m, ptr, procpix).
       for_n c (\<lambda>_. put_pixel w (dst y procpix) rawptr (int N)) (m, ptr, procpix)) (m, int i, 0)
    = (scatter (c * r) D (raw_pix w rawptr N i) w m, int (i + N * (c * r)), int (c * r))"
proof -
  have "j \<le> r \<Longrightarrow> for_n j (\<lambda>y (m, ptr, procpix).
       for_n c (\<lambda>_. put_pixel w (dst y procpix) rawptr (int N)) (m, ptr, procpix)) (m, int i, 0)
    = (scatter (j * c) D (raw_pix w rawptr N i) w m, int (i + N * (j * c)), int (j * c))" for j
  proof (induction j)
    case 0
    show ?case by simp
  next
    case (Suc j)
    have "Suc j * c \<le> r * c" using Suc.prems by (intro mult_le_mono) auto
    then have "N * (j * c + c) \<le> N * (c * r)" by (intro mult_le_mono) (auto simp: mult.commute)
    then have "i + N * (j * c + c) < 2 ^ 32" using fits by linarith
    then have "for_n c (\<lambda>_. put_pixel w (dst j (int (j * c))) rawptr (int N))
        (scatter (j * c) D (raw_pix w rawptr N i) w m, int (i + N * (j * c)), int (j * c))
      = (scatter (j * c + c) D (raw_pix w rawptr N i) w m, int (i + N * (j * c + c)), int (j * c + c))"
      using row [of j] Suc.prems by (intro scan_run N) auto
    then show ?case using Suc by (simp add: add.commute)
  qed
  from this [of r] show ?thesis by (simp add: mult.commute)
qed

lemma end_line_val:
  assumes "y < r" "0 < c" "2 * (c * r) < 2 ^ 32"
  shows "end_line (int c) y (int (y * c)) = int (Suc y * c + y * c) - 1"
proof -
  have "Suc y * c \<le> r * c" using assms(1) by (intro mult_le_mono) auto
  then have "Suc y * c + y * c < 2 ^ 32" using assms(3) by (simp add: mult.commute)
  then have "int (Suc y * c + y * c) < 2 ^ 32" by (rule nat_fits_u32)
  moreover have "0 < Suc y * c + y * c" using assms(2) by simp
  then have "0 \<le> int (Suc y * c + y * c) - 1" by linarith
  moreover have "(int y + 1) * int c - 1 + int (y * c) = int (Suc y * c + y * c) - 1"
    by (simp add: algebra_simps)
  ultimately show ?thesis by (simp only: end_line_def to_u32_id)
qed

lemma scan_amp_scatter:
  assumes ty: "amp_type A \<in> corners" and cols: "amp_ncols A = int c" "0 < c" and n: "n = c * r"
    and N: "0 < N" and fits: "i + N * n < 2 ^ 32" "2 * n < 2 ^ 32"
  shows "scan_amp w A dp rawptr (int N) (int n) (int r) (int i) m
    = scatter n (\<lambda>k. dp + int w * int (corner_pos (amp_type A) c r k)) (raw_pix w rawptr N i) w m"
proof -
  have r1: "r < 2 ^ 32"
  proof -
    have "r \<le> c * r" using cols(2) by simp
    then show ?thesis using fits(2) unfolding n by linarith
  qed
  have c1: "c < 2 ^ 32" if "0 < r"
  proof -
    have "c \<le> c * r" using that by simp
    then show ?thesis using fits(2) unfolding n by linarith
  qed
  have r32: "nat (to_u32 (int r)) = r"
    using nat_fits_u32 [OF r1] by (subst to_u32_id) auto
  have c32: "nat (to_u32 (int c)) = c" if "0 < r"
    using nat_fits_u32 [OF c1 [OF that]] by (subst to_u32_id) auto
  have fits': "i + N * (0 + n) < 2 ^ 32" using fits by simp
  consider "amp_type A = 8" | "amp_type A = 1" | "amp_type A = 4" | "amp_type A = 2"
    using corner_cases [OF ty] by auto
  then show ?thesis
  proof cases
    case 1
    have "scan_LL w dp rawptr (int N) (int n) (m, int i, 0)
      = (scatter n (\<lambda>k. dp + int w * int k) (raw_pix w rawptr N i) w m, int (i + N * n), int n)"
      using scan_run [of n "\<lambda>procpix. dp + int w * procpix" 0 "\<lambda>k. dp + int w * int k", OF _ N fits']
      by (simp add: scan_LL_def)
    then show ?thesis by (simp add: scan_amp_def 1 corner_pos_def pos_LL_def)
  next
    case 2
    have "scan_UR w dp rawptr (int N) (int n) (m, int i, 0)
      = (scatter n (\<lambda>k. dp + int w * int (pos_UR c r k)) (raw_pix w rawptr N i) w m,
         int (i + N * n), int n)"
      using scan_run [of n "\<lambda>procpix. dp + int w * (int n - procpix - 1)" 0
          "\<lambda>k. dp + int w * int (pos_UR c r k)", OF _ N fits']
      by (simp add: scan_UR_def pos_UR_def n [symmetric] of_nat_diff algebra_simps)
    then show ?thesis by (simp add: scan_amp_def 2 corner_pos_def)
  next
    case 3
    have dst: "dp + int w * (end_line (int c) y (int (y * c)) - int (y * c + x))
        = dp + int w * int (pos_LR c r (y * c + x))" if "y < r" "x < c" for y x
    proof -
      have "end_line (int c) y (int (y * c)) - int (y * c + x) = int (pos_LR c r (y * c + x))"
        using that cell_eq [OF that(2), of y] end_line_val [OF that(1) cols(2)] fits(2)
        by (simp add: n pos_LR_def of_nat_diff algebra_simps)
      then show ?thesis by (rule arg_cong [where f = "\<lambda>z. dp + int w * z"])
    qed
    have "scan_LR w dp rawptr (int N) (int c) (int r) (m, int i, 0)
      = (scatter (c * r) (\<lambda>k. dp + int w * int (pos_LR c r k)) (raw_pix w rawptr N i) w m,
         int (i + N * (c * r)), int (c * r))"
      using scan_rows [of r c "\<lambda>y p q. dp + int w * (end_line (int c) y p - q)"
          "\<lambda>k. dp + int w * int (pos_LR c r k)" N i w rawptr m, OF dst N] fits(1)
      by (cases "0 < r") (simp_all add: scan_LR_def Let_def r32 c32 n to_u32_id)
    then show ?thesis by (simp add: scan_amp_def 3 corner_pos_def cols(1) n)
  next
    case 4
    have dst: "dp + int w * (int n - end_line (int c) y (int (y * c)) + int (y * c + x) - 1)
        = dp + int w * int (pos_UL c r (y * c + x))" if "y < r" "x < c" for y x
    proof -
      have "int n - end_line (int c) y (int (y * c)) + int (y * c + x) - 1 = int (pos_UL c r (y * c + x))"
      proof -
        have "r = Suc y + (r - Suc y)" using that(1) by simp
        then obtain j where j: "r = Suc y + j" by blast
        have "pos_UL c r (y * c + x) = j * c + x"
          using cell_eq [OF that(2), of y] by (simp add: pos_UL_def j)
        moreover have "int n = int (Suc y * c) + int (j * c)" by (simp add: n j algebra_simps)
        moreover have "end_line (int c) y (int (y * c)) = int (Suc y * c) + int (y * c) - 1"
          using end_line_val [OF that(1) cols(2)] fits(2) unfolding n by (simp only: of_nat_add)
        ultimately show ?thesis by linarith
      qed
      then show ?thesis by (rule arg_cong [where f = "\<lambda>z. dp + int w * z"])
    qed
    have "scan_UL w dp rawptr (int N) (int n) (int c) (int r) (m, int i, 0)
      = (scatter (c * r) (\<lambda>k. dp + int w * int (pos_UL c r k)) (raw_pix w rawptr N i) w m,
         int (i + N * (c * r)), int (c * r))"
      using scan_rows [of r c "\<lambda>y p q. dp + int w * (int n - end_line (int c) y p + q - 1)"
          "\<lambda>k. dp + int w * int (pos_UL c r k)" N i w rawptr m, OF dst N] fits(1)
      by (cases "0 < r") (simp_all add: scan_UL_def Let_def r32 c32 n to_u32_id)
    then show ?thesis by (simp add: scan_amp_def 4 corner_pos_def cols(1) n)
  qed
qed

section \<open>One turn of the amplifier loop\<close>

text \<open>Where the \<open>k\<close>-th pixel read out of an amplifier of \<open>n\<close> pixels ends up in its slot: the
  readout corner, then the rotation.\<close>

definition amp_pos :: "amp_t \<Rightarrow> nat \<Rightarrow> nat \<Rightarrow> nat" where
  "amp_pos A n k =
     (let c = nat (amp_ncols A); r = n div c; p = corner_pos (amp_type A) c r k in
      if amp_rotate A = 0 then p else turned (amp_rotate A) c r p)"

text \<open>An amplifier the theorems cover: whole rows, a readout corner and, if it is rotated, even
  sides.\<close>

definition scannable :: "nat \<Rightarrow> nat \<Rightarrow> amp_t \<Rightarrow> bool" where
  "scannable w n A \<longleftrightarrow> 0 < amp_ncols A \<and> nat (amp_ncols A) dvd n \<and> amp_type A \<in> corners
     \<and> (amp_rotate A = 0 \<or> amp_rotate A \<in> {90, 270, -90}
          \<and> rotatable w (nat (amp_ncols A)) (n div nat (amp_ncols A)))"

lemma amp_turn_result:
  assumes ok: "scannable w n A" and A: "A = g_amp s a" and a: "a = g_PhysMap s (int i)" "a = int slot"
    and N: "0 < N" "g_namps s = N" and fits: "i + N * n < 2 ^ 32" "2 * n < 2 ^ 32" "slot * n < 2 ^ 32"
    and quot: "quot (int n) (amp_ncols A) = Some (int (n div nat (amp_ncols A)))"
    and p: "p = imptr + int w * int (slot * n)" "p \<noteq> 0"
    and RI: "RI = RI_body w" and mal: "mal (int (w * n)) = base" "base \<noteq> 0"
    and raw: "apart rawptr (int (w * N * n)) p (int (w * n))"
    and scr: "apart p (int (w * n)) base (int (w * n))" and i: "i < N"
  shows "\<exists>m'. amp_turn w quot RI mal rawptr imptr (int n) i (x, s)
      = Some (int (n div nat (amp_ncols A)),
          s\<lparr>g_amp := (g_amp s)(a := A\<lparr>dataptr := p\<rparr>), g_mem := m'\<rparr>)
    \<and> (\<forall>k < n. rd m' (p + int w * int (amp_pos A n k)) w = rd (g_mem s) (raw_pix w rawptr N i k) w)
    \<and> (\<forall>q l. apart q (int l) p (int (w * n)) \<and> apart q (int l) base (int (w * n))
          \<longrightarrow> rd m' q l = rd (g_mem s) q l)"
proof -
  define c r where "c = nat (amp_ncols A)" and "r = n div c"
  have c: "amp_ncols A = int c" "0 < c" and n: "n = c * r"
    using ok by (simp_all add: scannable_def c_def r_def)
  define m1 where "m1 = scatter n (\<lambda>k. p + int w * int (corner_pos (amp_type A) c r k))
      (raw_pix w rawptr N i) w (g_mem s)"
  have scan: "scan_amp w (A\<lparr>dataptr := p\<rparr>) p rawptr (int N) (int n) (int r) (int i) (g_mem s) = m1"
    unfolding m1_def using ok scan_amp_scatter [of "A\<lparr>dataptr := p\<rparr>" c n r N i w p rawptr "g_mem s"]
      c n N(1) fits by (simp add: scannable_def)
  have src: "apart (raw_pix w rawptr N i k) (int w) p (int (w * n))" if "k < n" for k
  proof (rule apart_sub [OF raw])
    show "rawptr \<le> raw_pix w rawptr N i k" by (simp add: raw_pix_def)
    have "w * Suc (i + N * k) \<le> w * (n * N)"
    proof (rule mult_le_mono2)
      have "Suc (i + N * k) \<le> N * Suc k" using i by simp
      also have "\<dots> \<le> n * N" using that by (simp add: mult.commute mult_le_mono2 del: mult_Suc mult_Suc_right)
      finally show "Suc (i + N * k) \<le> n * N" .
    qed
    then have "int (w * Suc (i + N * k)) \<le> int (w * (n * N))" by (simp only: of_nat_le_iff)
    then show "raw_pix w rawptr N i k + int w \<le> rawptr + int (w * N * n)"
      by (simp add: raw_pix_def algebra_simps)
  qed
  have px1: "rd m1 (p + int w * int (corner_pos (amp_type A) c r k)) w
      = rd (g_mem s) (raw_pix w rawptr N i k) w" if "k < n" for k
    unfolding m1_def n
    by (rule placement.placed_read [OF corner_placement]) (use src that in \<open>simp_all add: n mult.assoc\<close>)
  have fr1: "rd m1 q l = rd (g_mem s) q l" if "apart q (int l) p (int (w * n))" for q l
    unfolding m1_def n
    by (rule placement.placed_frame [OF corner_placement]) (use that in \<open>simp add: n mult.assoc\<close>)
  have dst: "imptr + int w * to_u32 (a * int n) = p"
  proof -
    have "int (slot * n) < 2 ^ 32" using fits(3) by (rule nat_fits_u32)
    then show ?thesis by (simp add: p(1) a(2) to_u32_id)
  qed
  show ?thesis
  proof (cases "amp_rotate A = 0")
    case True
    then show ?thesis
      using px1 fr1 quot
      by (intro exI [of _ m1])
        (simp add: amp_turn_def Let_def a(1) [symmetric] dst A [symmetric] N(2) scan
          amp_pos_def c_def [symmetric] r_def [symmetric])
  next
    case False
    then have rot: "amp_rotate A \<in> {90, 270, -90}" "rotatable w c r"
      using ok by (auto simp: scannable_def c_def r_def)
    have wn: "w * n = w * c * r" by (simp add: n)
    obtain m2 where m2: "RI_body w mal m1 p (int c) (int r) (amp_rotate A) = Some (0, m2)"
      and px2: "turned_image w c r (amp_rotate A) p base m1 m2"
      using RI_body_result [where mal = mal and m = m1, OF rot wn p(2)] mal scr by auto
    have c32: "to_u32 (int c) = int c" "to_u32 (int r) = int r"
      using rot(2) by (auto simp: rotatable_def to_u32_id)
    have "rd m2 (p + int w * int (amp_pos A n k)) w = rd (g_mem s) (raw_pix w rawptr N i k) w"
      if k: "k < n" for k
    proof -
      have "corner_pos (amp_type A) c r k < c * r"
        using k placement.pos_less [OF corner_placement] by (simp add: n)
      then show ?thesis
        using px2 px1 [OF k] False
        by (simp add: turned_image_def amp_pos_def c_def [symmetric] r_def [symmetric])
    qed
    moreover have "rd m2 q l = rd (g_mem s) q l"
      if "apart q (int l) p (int (w * n))" "apart q (int l) base (int (w * n))" for q l
      using px2 that fr1 by (simp add: turned_image_def wn)
    moreover have "amp_turn w quot RI mal rawptr imptr (int n) i (x, s)
        = Some (int r, s\<lparr>g_amp := (g_amp s)(a := A\<lparr>dataptr := p\<rparr>), g_mem := m2\<rparr>)"
      using quot False
      by (simp add: amp_turn_def Let_def a(1) [symmetric] dst A [symmetric] N(2) scan RI c(1) c32 m2
          c_def [symmetric] r_def [symmetric])
    ultimately show ?thesis by (auto simp: r_def c_def)
  qed
qed

lemma amp_pos_less: "scannable w n A \<Longrightarrow> k < n \<Longrightarrow> amp_pos A n k < n"
proof -
  assume ok: "scannable w n A" and k: "k < n"
  define c r where "c = nat (amp_ncols A)" and "r = n div c"
  have n: "n = c * r" "0 < c" using ok by (simp_all add: scannable_def c_def r_def)
  have "corner_pos (amp_type A) c r k < c * r"
    using placement.pos_less [OF corner_placement] k n by simp
  then show ?thesis
    using placement.pos_less [OF turned_placement]
    by (simp add: amp_pos_def Let_def c_def [symmetric] r_def [symmetric] n)
qed

text \<open>The slots of the output buffer.\<close>

definition slot_ptr :: "nat \<Rightarrow> int \<Rightarrow> nat \<Rightarrow> nat \<Rightarrow> int" where
  "slot_ptr w imageptr n a = imageptr + int w * int (a * n)"

lemma slot_ptr_scaled: "slot_ptr w imageptr n a = imageptr + int (w * n) * int (pos_LL N 1 a)"
  by (simp add: slot_ptr_def pos_LL_def)

lemma slots_apart:
  assumes "a < N" "b < N" "a \<noteq> b"
  shows "apart (slot_ptr w imageptr n a) (int (w * n)) (slot_ptr w imageptr n b) (int (w * n))"
  unfolding slot_ptr_scaled [where N = N] by (rule ll.pos_apart) (use assms in simp_all)

lemma slot_inside:
  assumes "a < N"
  shows "imageptr \<le> slot_ptr w imageptr n a"
    "slot_ptr w imageptr n a + int (w * n) \<le> imageptr + int (w * N * n)"
proof -
  have e: "imageptr + int (w * N * n) = imageptr + int (w * n) * int (N * 1)"
    by (simp add: algebra_simps)
  show "imageptr \<le> slot_ptr w imageptr n a"
    "slot_ptr w imageptr n a + int (w * n) \<le> imageptr + int (w * N * n)"
    unfolding slot_ptr_scaled [where N = N] e
    using ll.pos_inside [of a N 1 imageptr "w * n"] assms by simp_all
qed

lemma pixel_inside:
  assumes "k < n"
  shows "p \<le> p + int w * int k" "p + int w * int k + int w \<le> p + int (w * n)"
  using ll.pos_inside [of k n 1 p w] assms by (simp_all add: pos_LL_def)

section \<open>The whole image\<close>

text \<open>What unscrambling needs: an amplifier in every slot of the physical map \<open>sigma\<close>, raw,
  image and scratch buffers that do not overlap, and no further processing selected.\<close>

definition unscr_ready :: "nat \<Rightarrow> (int \<Rightarrow> int) \<Rightarrow> int \<Rightarrow> int \<Rightarrow> nat \<Rightarrow> (nat \<Rightarrow> nat) \<Rightarrow> gu \<Rightarrow> bool" where
  "unscr_ready w mal rptr imageptr n sigma s \<longleftrightarrow>
     (let N = g_namps s; scratch = mal (int (w * n)) in
      0 < N \<and> 0 < n \<and> N * n < 2 ^ 31
    \<and> inj_on sigma {..<N}
    \<and> (\<forall>i < N. sigma i < N \<and> g_PhysMap s (int i) = int (sigma i)
                \<and> scannable w n (g_amp s (int (sigma i))))
    \<and> 0 < rptr \<and> 0 < imageptr \<and> scratch \<noteq> 0
    \<and> apart rptr (int (w * N * n)) imageptr (int (w * N * n))
    \<and> apart rptr (int (w * N * n)) scratch (int (w * n))
    \<and> apart imageptr (int (w * N * n)) scratch (int (w * n))
    \<and> \<not> (N = 1 \<and> g_pix_swap s \<noteq> 0) \<and> \<not> g_arrange s \<and> g_detext s = 0)"

text \<open>The result: amplifier \<open>sigma i\<close> owns its slot, the \<open>k\<close>-th pixel it read is at \<open>amp_pos\<close>,
  and memory outside the image and the scratch buffer is as before.\<close>

definition unscrambled :: "nat \<Rightarrow> int \<Rightarrow> int \<Rightarrow> int \<Rightarrow> nat \<Rightarrow> (nat \<Rightarrow> nat) \<Rightarrow> gu \<Rightarrow> gu \<Rightarrow> bool" where
  "unscrambled w scratch rptr imageptr n sigma s s' \<longleftrightarrow>
     (let N = g_namps s in
      (\<forall>i < N. dataptr (g_amp s' (int (sigma i))) = slot_ptr w imageptr n (sigma i))
    \<and> (\<forall>i < N. \<forall>k < n.
         rd (g_mem s') (slot_ptr w imageptr n (sigma i) + int w * int (amp_pos (g_amp s (int (sigma i))) n k)) w
         = rd (g_mem s) (raw_pix w rptr N i k) w)
    \<and> (\<forall>q l. apart q (int l) imageptr (int (w * N * n)) \<and> apart q (int l) scratch (int (w * n))
          \<longrightarrow> rd (g_mem s') q l = rd (g_mem s) q l))"

text \<open>The state after \<open>j\<close> turns of the loop.\<close>

definition after_turns :: "nat \<Rightarrow> int \<Rightarrow> int \<Rightarrow> int \<Rightarrow> nat \<Rightarrow> (nat \<Rightarrow> nat) \<Rightarrow> gu \<Rightarrow> nat \<Rightarrow> gu \<Rightarrow> bool" where
  "after_turns w scratch rptr imageptr n sigma s j t \<longleftrightarrow>
     (\<exists>am m. t = s\<lparr>g_amp := am, g_mem := m\<rparr>
    \<and> (\<forall>b. am (int b) = (if b \<in> sigma ` {..<j} then (g_amp s (int b))\<lparr>dataptr := slot_ptr w imageptr n b\<rparr>
                         else g_amp s (int b)))
    \<and> (\<forall>i < j. \<forall>k < n.
         rd m (slot_ptr w imageptr n (sigma i) + int w * int (amp_pos (g_amp s (int (sigma i))) n k)) w
         = rd (g_mem s) (raw_pix w rptr (g_namps s) i k) w)
    \<and> (\<forall>q l. apart q (int l) imageptr (int (w * g_namps s * n)) \<and> apart q (int l) scratch (int (w * n))
          \<longrightarrow> rd m q l = rd (g_mem s) q l))"

lemma raw_pix_inside:
  assumes "i < N" "k < n"
  shows "rptr \<le> raw_pix w rptr N i k" "raw_pix w rptr N i k + int w \<le> rptr + int (w * N * n)"
proof -
  have "Suc (i + N * k) \<le> N * Suc k" using assms(1) by simp
  also have "\<dots> \<le> N * n" using assms(2) by (intro mult_le_mono2) simp
  finally have "i + N * k < N * n" by simp
  then show "rptr \<le> raw_pix w rptr N i k" "raw_pix w rptr N i k + int w \<le> rptr + int (w * N * n)"
    using pixel_inside [of "i + N * k" "N * n" rptr w] by (simp_all add: raw_pix_def mult.assoc)
qed

lemma after_turns_step:
  assumes ready: "unscr_ready w mal rptr imageptr n sigma s" and scratch: "scratch = mal (int (w * n))"
    and j: "j < g_namps s" and inv: "after_turns w scratch rptr imageptr n sigma s j t"
    and quot: "quot (int n) (amp_ncols (g_amp s (int (sigma j))))
      = Some (int (n div nat (amp_ncols (g_amp s (int (sigma j))))))"
  shows "\<exists>x' t'. amp_turn w quot (RI_body w) mal rptr imageptr (int n) j (x, t) = Some (x', t')
    \<and> after_turns w scratch rptr imageptr n sigma s (Suc j) t'"
proof -
  define N where "N = g_namps s"
  define A where "A = g_amp s (int (sigma j))"
  define p where "p = slot_ptr w imageptr n (sigma j)"
  obtain am m where t: "t = s\<lparr>g_amp := am, g_mem := m\<rparr>"
    and am: "\<And>b. am (int b) = (if b \<in> sigma ` {..<j} then (g_amp s (int b))\<lparr>dataptr := slot_ptr w imageptr n b\<rparr>
                         else g_amp s (int b))"
    and px: "\<And>i k. i < j \<Longrightarrow> k < n \<Longrightarrow>
         rd m (slot_ptr w imageptr n (sigma i) + int w * int (amp_pos (g_amp s (int (sigma i))) n k)) w
         = rd (g_mem s) (raw_pix w rptr N i k) w"
    and fr: "\<And>q l. apart q (int l) imageptr (int (w * N * n)) \<Longrightarrow> apart q (int l) scratch (int (w * n))
          \<Longrightarrow> rd m q l = rd (g_mem s) q l"
    using inv unfolding after_turns_def N_def by blast
  have r: "0 < N" "0 < n" "N * n < 2 ^ 31" "inj_on sigma {..<N}" "0 < rptr" "0 < imageptr" "scratch \<noteq> 0"
    "apart rptr (int (w * N * n)) imageptr (int (w * N * n))"
    "apart rptr (int (w * N * n)) scratch (int (w * n))"
    "apart imageptr (int (w * N * n)) scratch (int (w * n))"
    and slots: "\<And>i. i < N \<Longrightarrow> sigma i < N \<and> g_PhysMap s (int i) = int (sigma i)
                \<and> scannable w n (g_amp s (int (sigma i)))"
    using ready unfolding unscr_ready_def N_def scratch by (simp_all only: Let_def) blast+
  have jN: "j < N" using j by (simp add: N_def)
  have fresh: "sigma j \<notin> sigma ` {..<j}"
    using inj_on_image_mem_iff [OF r(4), of j "{..<j}"] jN by auto
  have Aam: "A = am (int (sigma j))" using am [of "sigma j"] fresh by (simp add: A_def)
  have n31: "n < 2 ^ 31"
  proof -
    have "n \<le> N * n" using r(1) by (rule le_times)
    then show ?thesis using r(3) by linarith
  qed
  have fits: "j + N * n < 2 ^ 32" "2 * n < 2 ^ 32" "sigma j * n < 2 ^ 32"
  proof -
    have "N \<le> n * N" using r(2) by (rule le_times)
    with jN have "j < n * N" by (rule less_le_trans)
    then have "j < N * n" by (simp only: mult.commute)
    then show "j + N * n < 2 ^ 32" using r(3) by simp
    show "2 * n < 2 ^ 32" using n31 by simp
    have "sigma j * n \<le> N * n" using slots [OF jN] by (intro mult_le_mono1) simp
    also have "\<dots> < 2 ^ 32" using r(3) by simp
    finally show "sigma j * n < 2 ^ 32" .
  qed
  note ins = slot_inside [where imageptr = imageptr and w = w and n = n,
      OF conjunct1 [OF slots [OF jN]], folded p_def]
  have rawp: "apart rptr (int (w * N * n)) p (int (w * n))"
    using apart_sub [of imageptr "int (w * N * n)" rptr "int (w * N * n)" p "int (w * n)"] r(8) ins
    by (simp add: apart_commute)
  have scrp: "apart p (int (w * n)) scratch (int (w * n))"
    using apart_sub [OF r(10) ins] .
  have p0: "p \<noteq> 0" using ins(1) r(6) by linarith
  have "\<exists>m'. amp_turn w quot (RI_body w) mal rptr imageptr (int n) j (x, t)
      = Some (int (n div nat (amp_ncols A)),
          t\<lparr>g_amp := (g_amp t)(int (sigma j) := A\<lparr>dataptr := p\<rparr>), g_mem := m'\<rparr>)
    \<and> (\<forall>k < n. rd m' (p + int w * int (amp_pos A n k)) w = rd (g_mem t) (raw_pix w rptr N j k) w)
    \<and> (\<forall>q l. apart q (int l) p (int (w * n)) \<and> apart q (int l) scratch (int (w * n))
          \<longrightarrow> rd m' q l = rd (g_mem t) q l)"
  proof (rule amp_turn_result [OF _ _ _ refl r(1) _ fits _ _ p0 refl _ r(7) rawp scrp jN])
    show "scannable w n A" "int (sigma j) = g_PhysMap t (int j)"
      using slots [OF jN] by (simp_all add: A_def t)
    show "A = g_amp t (int (sigma j))" "g_namps t = N" by (simp_all add: t Aam N_def)
    show "quot (int n) (amp_ncols A) = Some (int (n div nat (amp_ncols A)))"
      using quot by (simp only: A_def)
    show "p = imageptr + int w * int (sigma j * n)" by (simp only: p_def slot_ptr_def)
    show "mal (int (w * n)) = scratch" by (simp only: scratch)
  qed
  then obtain m' where turn: "amp_turn w quot (RI_body w) mal rptr imageptr (int n) j (x, t)
      = Some (int (n div nat (amp_ncols A)),
          t\<lparr>g_amp := (g_amp t)(int (sigma j) := A\<lparr>dataptr := p\<rparr>), g_mem := m'\<rparr>)"
    and px': "\<And>k. k < n \<Longrightarrow> rd m' (p + int w * int (amp_pos A n k)) w = rd m (raw_pix w rptr N j k) w"
    and fr': "\<And>q l. apart q (int l) p (int (w * n)) \<Longrightarrow> apart q (int l) scratch (int (w * n))
          \<Longrightarrow> rd m' q l = rd m q l"
    unfolding t by auto
  have "after_turns w scratch rptr imageptr n sigma s (Suc j)
    (t\<lparr>g_amp := (g_amp t)(int (sigma j) := A\<lparr>dataptr := p\<rparr>), g_mem := m'\<rparr>)"
    unfolding after_turns_def N_def [symmetric]
  proof (intro exI conjI allI impI)
    show "t\<lparr>g_amp := (g_amp t)(int (sigma j) := A\<lparr>dataptr := p\<rparr>), g_mem := m'\<rparr>
      = s\<lparr>g_amp := am(int (sigma j) := A\<lparr>dataptr := p\<rparr>), g_mem := m'\<rparr>"
      by (simp add: t)
    show "(am(int (sigma j) := A\<lparr>dataptr := p\<rparr>)) (int b) = (if b \<in> sigma ` {..<Suc j}
        then (g_amp s (int b))\<lparr>dataptr := slot_ptr w imageptr n b\<rparr> else g_amp s (int b))" for b
      by (auto simp: am A_def p_def lessThan_Suc)
  next
    fix q l
    assume ap: "apart q (int l) imageptr (int (w * N * n)) \<and> apart q (int l) scratch (int (w * n))"
    then have "apart q (int l) p (int (w * n))"
      using apart_sub [of imageptr "int (w * N * n)" q "int l" p "int (w * n)"] ins
      by (simp add: apart_commute)
    then show "rd m' q l = rd (g_mem s) q l" using ap fr fr' by simp
  next
    fix i k
    assume i: "i < Suc j" and k: "k < n"
    define B where "B = g_amp s (int (sigma i))"
    have iN: "i < N" using i jN by simp
    have rawk: "rd m (raw_pix w rptr N i k) w = rd (g_mem s) (raw_pix w rptr N i k) w"
      by (rule fr) (rule apart_sub [OF r(8) raw_pix_inside [OF iN k]] apart_sub [OF r(9) raw_pix_inside [OF iN k]])+
    have "rd m' (slot_ptr w imageptr n (sigma i) + int w * int (amp_pos B n k)) w
      = rd (g_mem s) (raw_pix w rptr N i k) w"
    proof (cases "i = j")
      case True
      then show ?thesis using px' [OF k] rawk by (simp add: p_def A_def B_def)
    next
      case False
      then have "i < j" using i by simp
      have "sigma i \<noteq> sigma j" using r(4) iN jN False by (auto simp: inj_on_def)
      moreover have "sigma i < N" "sigma j < N" using slots [OF iN] slots [OF jN] by blast+
      ultimately have ap: "apart (slot_ptr w imageptr n (sigma i)) (int (w * n)) p (int (w * n))"
        unfolding p_def by (intro slots_apart [where N = N])
      have "sigma i < N" using slots [OF iN] by blast
      note sc = apart_sub [OF r(10) slot_inside [where imageptr = imageptr and w = w and n = n, OF this]]
      have "amp_pos B n k < n" using slots [OF iN] k amp_pos_less [of w n B k] by (simp add: B_def)
      note pin = pixel_inside [OF this, of "slot_ptr w imageptr n (sigma i)" w]
      show ?thesis
        using fr' [OF apart_sub [OF ap pin] apart_sub [OF sc pin]] px [OF \<open>i < j\<close> k]
        unfolding B_def [symmetric] N_def [symmetric] by (rule trans)
    qed
    then show "rd m' (slot_ptr w imageptr n (sigma i) + int w * int (amp_pos (g_amp s (int (sigma i))) n k)) w
      = rd (g_mem s) (raw_pix w rptr N i k) w"
      by (simp add: B_def)
  qed
  then show ?thesis using turn by blast
qed

lemma unscramble_result:
  assumes ready: "unscr_ready w mal rptr imageptr n sigma s"
    and quot: "\<And>i. i < g_namps s \<Longrightarrow> quot (int n) (amp_ncols (g_amp s (int (sigma i))))
      = Some (int (n div nat (amp_ncols (g_amp s (int (sigma i))))))"
  shows "\<exists>s'. unscramble w quot swap (RI_body w) e mal rptr imageptr (int (g_namps s * n)) s
      = Some (AmpArray, None, s')
    \<and> unscrambled w (mal (int (w * n))) rptr imageptr n sigma s s'"
proof -
  define N where "N = g_namps s"
  have r: "0 < N" "N * n < 2 ^ 31" "0 < rptr" "0 < imageptr"
    "\<not> (N = 1 \<and> g_pix_swap s \<noteq> 0)" "\<not> g_arrange s" "g_detext s = 0"
    using ready unfolding unscr_ready_def N_def by (simp_all only: Let_def) blast+
  have "int (N * n) < 2 ^ 32" by (rule nat_fits_u32) (use r(2) in simp)
  then have "to_u32 (int (N * n)) = int (N * n)" by (simp add: to_u32_id)
  then have ampdata: "to_u32 (int (N * n)) div int N = int n" using r(1) by simp
  have "\<exists>t. for_opt N (amp_turn w quot (RI_body w) mal rptr imageptr (int n)) (amp_nrows (g_amp s 0), s) = Some t
    \<and> after_turns w (mal (int (w * n))) rptr imageptr n sigma s N (snd t)"
  proof (rule for_opt_invariant [where P = "\<lambda>j t. after_turns w (mal (int (w * n))) rptr imageptr n sigma s j (snd t)"])
    show "after_turns w (mal (int (w * n))) rptr imageptr n sigma s 0 (snd (amp_nrows (g_amp s 0), s))"
      unfolding after_turns_def by (intro exI [of _ "g_amp s"] exI [of _ "g_mem s"]) simp
    fix j and xt :: "int \<times> gu"
    assume j: "j < N" and "after_turns w (mal (int (w * n))) rptr imageptr n sigma s j (snd xt)"
    then show "\<exists>t'. amp_turn w quot (RI_body w) mal rptr imageptr (int n) j xt = Some t'
        \<and> after_turns w (mal (int (w * n))) rptr imageptr n sigma s (Suc j) (snd t')"
      using after_turns_step [where mal = mal and quot = quot and j = j and t = "snd xt"
          and x = "fst xt", OF ready refl] quot [of j]
      by (auto simp: N_def)
  qed
  then obtain x t where loop: "for_opt N (amp_turn w quot (RI_body w) mal rptr imageptr (int n))
      (amp_nrows (g_amp s 0), s) = Some (x, t)"
    and inv: "after_turns w (mal (int (w * n))) rptr imageptr n sigma s N t"
    by auto
  have t: "g_arrange t = g_arrange s" "g_detext t = g_detext s"
    using inv by (auto simp: after_turns_def)
  have "swap_raw w swap rptr (int n) s = s" using r(5) by (auto simp: swap_raw_def N_def)
  then have "unscramble w quot swap (RI_body w) e mal rptr imageptr (int (g_namps s * n)) s
      = Some (AmpArray, None, t\<lparr>g_bytes_pp := int w\<rparr>)"
    using r t loop ampdata
    by (simp add: unscramble_def N_def finish_unscr_def del: of_nat_mult)
  moreover have "unscrambled w (mal (int (w * n))) rptr imageptr n sigma s (t\<lparr>g_bytes_pp := int w\<rparr>)"
    using inv by (auto simp: unscrambled_def after_turns_def N_def)
  ultimately show ?thesis by blast
qed

end
