(* ===== verification/GU_Front_Props.thy ===== *)
theory GU_Front_Props imports GU_Front GU_Unscramble_Props
begin

text \<open>
  The properties of unscrambling as a client of the library sees it: select a pixel type, call
  the routine, find every pixel in its place.
\<close>

lemma unscr_ready_cols:
  assumes "unscr_ready w mal rptr imageptr n sigma s" "i < g_namps s"
  shows "0 < amp_ncols (g_amp s (int (sigma i)))" "amp_ncols (g_amp s (int (sigma i))) \<le> int n"
    "n < 2 ^ 31"
proof -
  have r: "0 < n" "0 < g_namps s" "g_namps s * n < 2 ^ 31" "scannable w n (g_amp s (int (sigma i)))"
    using assms unfolding unscr_ready_def by (simp_all only: Let_def)
  then show "0 < amp_ncols (g_amp s (int (sigma i)))" by (simp add: scannable_def)
  have "nat (amp_ncols (g_amp s (int (sigma i)))) \<le> n"
    using r by (intro dvd_imp_le) (simp_all add: scannable_def)
  then show "amp_ncols (g_amp s (int (sigma i))) \<le> int n" by simp
  have "n \<le> g_namps s * n" using r(2) by (rule le_times)
  then show "n < 2 ^ 31" using r(3) by (rule le_less_trans)
qed

lemma quot_rows:
  assumes ready: "unscr_ready w mal rptr imageptr n sigma s" and i: "i < g_namps s"
  shows "f64_quot (int n) (amp_ncols (g_amp s (int (sigma i))))
      = Some (int (n div nat (amp_ncols (g_amp s (int (sigma i))))))"
    and "n < 2 ^ 24 \<Longrightarrow> f32_quot (int n) (amp_ncols (g_amp s (int (sigma i))))
      = Some (int (n div nat (amp_ncols (g_amp s (int (sigma i))))))"
proof -
  note c = unscr_ready_cols [OF ready i]
  have "int n < 2 ^ 31" using c(3) by simp
  then show "f64_quot (int n) (amp_ncols (g_amp s (int (sigma i))))
      = Some (int (n div nat (amp_ncols (g_amp s (int (sigma i))))))"
    using c by (simp add: f64_quot_exact zdiv_int)
  assume "n < 2 ^ 24"
  then have "int n < 2 ^ 24" by simp
  then show "f32_quot (int n) (amp_ncols (g_amp s (int (sigma i))))
      = Some (int (n div nat (amp_ncols (g_amp s (int (sigma i))))))"
    using c by (simp add: f32_quot_exact zdiv_int)
qed

text \<open>The routine selected for each pixel type is the generic one at that pixel's width.\<close>

lemma GU_compute_selects:
  assumes "GU_compute env bpp f s0 = Some (0, f', s)" "f_enabled f \<noteq> 0"
  shows "bpp \<in> {16, 32, -32}" "f_GUnsc f' = unsc_name bpp"
proof -
  show "bpp \<in> {16, 32, -32}"
    using assms by (auto simp: GU_compute_def unsc_name_def split: if_splits)
  show "f_GUnsc f' = unsc_name bpp"
    using assms
    by (auto simp: GU_compute_def set_dtype_def via_def Let_def dlsym_def GU_checkError_def
        split: if_splits option.splits)
qed

lemma selected_result:
  assumes bpp: "bpp \<in> {16, 32, -32}" and sel: "f_GUnsc f = unsc_name bpp"
    and ready: "unscr_ready (pix_width bpp) mal rptr imageptr n sigma s"
    and small: "bpp \<noteq> 32 \<Longrightarrow> n < 2 ^ 24"
  shows "\<exists>s'. GU_call_unscrambling mal rptr imageptr (int (g_namps s * n)) f s = Some (AmpArray, None, s')
    \<and> unscrambled (pix_width bpp) (mal (int (pix_width bpp * n))) rptr imageptr n sigma s s'"
proof -
  consider "bpp = 16" | "bpp = 32" | "bpp = -32" using bpp by blast
  then show ?thesis
  proof cases
    case 1
    have "pix_width bpp = 2" by (simp add: 1 pix_width_def)
    moreover have "GU_call_unscrambling mal rptr imageptr (int (g_namps s * n)) f s
        = unscramble 2 f32_quot (swap_pair 2) (RI_body 2) None mal rptr imageptr (int (g_namps s * n)) s"
      by (simp add: GU_call_unscrambling_def sel 1 unsc_name_def GU_SHORT_def RI_SHORT_def)
    ultimately show ?thesis
      using unscramble_result [OF ready, of f32_quot "swap_pair 2" None] quot_rows [OF ready] small 1
      by (simp only:)
  next
    case 2
    have "pix_width bpp = 4" by (simp add: 2 pix_width_def)
    moreover have "GU_call_unscrambling mal rptr imageptr (int (g_namps s * n)) f s
        = unscramble 4 f64_quot (swap_pair 4) (RI_body 4) (Some (- EFAULT)) mal rptr imageptr (int (g_namps s * n)) s"
      by (simp add: GU_call_unscrambling_def sel 2 unsc_name_def GU_LONG_def RI_LONG_def)
    ultimately show ?thesis
      using unscramble_result [OF ready, of f64_quot "swap_pair 4" "Some (- EFAULT)"] quot_rows [OF ready]
      by (simp only:)
  next
    case 3
    have "pix_width bpp = 4" by (simp add: 3 pix_width_def)
    moreover have "GU_call_unscrambling mal rptr imageptr (int (g_namps s * n)) f s
        = unscramble 4 f32_quot swap_pair_float (RI_body 4) (Some (- EFAULT)) mal rptr imageptr (int (g_namps s * n)) s"
      by (simp add: GU_call_unscrambling_def sel 3 unsc_name_def GU_FLOAT_def RI_FLOAT_def)
    ultimately show ?thesis
      using unscramble_result [OF ready, of f32_quot swap_pair_float "Some (- EFAULT)"] quot_rows [OF ready] small 3
      by (simp only:)
  qed
qed

text \<open>C1: unscrambling end to end.  After \<open>GU_compute\<close> selected the routine for 16-bit, 32-bit
  or float pixels, a call returns the amplifier table; every amplifier's data pointer is its
  slot of the image, and the \<open>k\<close>-th pixel that amplifier \<open>i\<close> of the readout order delivered
  (raw pixel \<open>i + namps*k\<close>) is where its readout corner and rotation put it.  Nothing but the
  image and the rotation's scratch buffer changes.  The float quotient of \<open>GU_SHORT\<close> and
  \<open>GU_FLOAT\<close> limits an amplifier to \<open>2^24\<close> pixels.\<close>

theorem unscrambling_end_to_end:
  assumes sel: "GU_compute env bpp f0 s0 = Some (0, f, s)" "f_enabled f0 \<noteq> 0"
    and ready: "unscr_ready (pix_width bpp) mal rptr imageptr n sigma s"
    and small: "bpp = 32 \<or> n < 2 ^ 24"
  shows "\<exists>s'. GU_call_unscrambling mal rptr imageptr (int (g_namps s * n)) f s = Some (AmpArray, None, s')
    \<and> unscrambled (pix_width bpp) (mal (int (pix_width bpp * n))) rptr imageptr n sigma s s'"
  by (rule selected_result [OF GU_compute_selects [OF sel] ready]) (use small in blast)

text \<open>Two amplifiers of 2 by 2 pixels (16 bits), read out from the lower left and the lower
  right corner, in swapped slots.\<close>

definition demo_env :: dlenv where
  "demo_env = \<lparr>dl_open = (\<lambda>_. True), dl_sym = (\<lambda>_ _. True)\<rparr>"

definition demo_front :: front where
  "demo_front = front_init\<lparr>f_FunctionLib := True, f_ptrs := (\<lambda>_. Some ''x'')\<rparr>"

definition demo_amp :: "int \<Rightarrow> amp_t" where
  "demo_amp ty = amp_zero\<lparr>amp_ncols := 2, amp_nrows := 2, amp_type := ty\<rparr>"

definition demo_gu :: gu where
  "demo_gu = gu_init\<lparr>g_namps := 2, g_amp := (\<lambda>a. demo_amp (if a = 1 then 8 else 4)),
     g_PhysMap := (\<lambda>i. 1 - i), g_bytes_pp := 2, g_mem := (\<lambda>a. of_int a)\<rparr>"

lemma demo_ready: "unscr_ready 2 (\<lambda>_. 5000) 1000 2000 4 (\<lambda>i. 1 - i) demo_gu"
proof -
  have "scannable 2 4 (demo_amp ty)" if "ty \<in> corners" for ty
    using that by (simp add: scannable_def demo_amp_def amp_zero_def)
  then have "scannable 2 4 (demo_amp 8)" "scannable 2 4 (demo_amp 4)"
    by (simp_all add: corners_def)
  then show ?thesis
    by (auto simp: unscr_ready_def Let_def demo_gu_def gu_init_def inj_on_def apart_def less_2_cases_iff)
qed

theorem unscrambling_end_to_end_witness:
  "\<exists>f s'. GU_compute demo_env 16 demo_front demo_gu = Some (0, f, demo_gu)
    \<and> GU_call_unscrambling (\<lambda>_. 5000) 1000 2000 8 f demo_gu = Some (AmpArray, None, s')
    \<and> rd (g_mem s') 2000 8 = rd (g_mem demo_gu) 1006 2 @ rd (g_mem demo_gu) 1002 2
        @ rd (g_mem demo_gu) 1014 2 @ rd (g_mem demo_gu) 1010 2"
proof -
  obtain f where f: "GU_compute demo_env 16 demo_front demo_gu = Some (0, f, demo_gu)"
    by (simp add: GU_compute_def set_dtype_def via_def dlsym_def unsc_name_def GU_checkError_def
        demo_env_def demo_front_def front_init_def f32_quot_exact GU_set_bytes_pp_def
        demo_gu_def gu_init_def)
  have "\<exists>s'. GU_call_unscrambling (\<lambda>_. 5000) 1000 2000 (int (g_namps demo_gu * 4)) f demo_gu
        = Some (AmpArray, None, s')
      \<and> unscrambled (pix_width 16) 5000 1000 2000 4 (\<lambda>i. 1 - i) demo_gu s'"
    by (rule unscrambling_end_to_end [OF f])
      (simp_all add: pix_width_def demo_ready [unfolded One_nat_def] demo_front_def front_init_def)
  moreover have N: "g_namps demo_gu = 2" by (simp add: demo_gu_def)
  ultimately obtain s' where s':
      "GU_call_unscrambling (\<lambda>_. 5000) 1000 2000 8 f demo_gu = Some (AmpArray, None, s')"
    and u: "unscrambled 2 5000 1000 2000 4 (\<lambda>i. 1 - i) demo_gu s'"
    by (auto simp: pix_width_def)
  have all: "\<forall>i < 2. \<forall>k < 4. rd (g_mem s') (slot_ptr 2 2000 4 (1 - i)
        + int 2 * int (amp_pos (g_amp demo_gu (int (1 - i))) 4 k)) 2
      = rd (g_mem demo_gu) (raw_pix 2 1000 2 i k) 2"
    using u unfolding unscrambled_def N Let_def by blast
  have px: "rd (g_mem s') (slot_ptr 2 2000 4 0 + 2 * int (amp_pos (g_amp demo_gu 0) 4 k)) 2
      = rd (g_mem demo_gu) (raw_pix 2 1000 2 1 k) 2" if "k < 4" for k
    using all [rule_format, of 1 k] that by simp
  have pos: "amp_pos (g_amp demo_gu 0) 4 k = pos_LR 2 2 k" for k
    by (simp add: amp_pos_def corner_pos_def demo_gu_def demo_amp_def amp_zero_def)
  have "rd (g_mem s') 2002 2 = rd (g_mem demo_gu) 1002 2" "rd (g_mem s') 2000 2 = rd (g_mem demo_gu) 1006 2"
    "rd (g_mem s') 2006 2 = rd (g_mem demo_gu) 1010 2" "rd (g_mem s') 2004 2 = rd (g_mem demo_gu) 1014 2"
    using px [of 0] px [of 1] px [of 2] px [of 3]
    by (simp_all add: pos pos_LR_def slot_ptr_def raw_pix_def)
  then have "rd (g_mem s') 2000 8 = rd (g_mem demo_gu) 1006 2 @ rd (g_mem demo_gu) 1002 2
        @ rd (g_mem demo_gu) 1014 2 @ rd (g_mem demo_gu) 1010 2"
    by (simp add: rd_def upt_rec)
  with f s' show ?thesis by blast
qed

section \<open>No pixel is lost\<close>

lemma amp_pos_inj:
  assumes "scannable w n A"
  shows "inj_on (amp_pos A n) {..<n}"
proof -
  define c r where "c = nat (amp_ncols A)" and "r = n div c"
  have n: "n = c * r" using assms by (simp add: scannable_def c_def r_def)
  have corner: "inj_on (corner_pos (amp_type A) c r) {..<c * r}"
    "corner_pos (amp_type A) c r ` {..<c * r} \<subseteq> {..<c * r}"
    using placement.pos_inj [OF corner_placement] placement.pos_less [OF corner_placement] by auto
  have "inj_on (turned (amp_rotate A) c r) {..<c * r}"
    using placement.pos_inj [OF turned_placement] .
  then have "inj_on (turned (amp_rotate A) c r \<circ> corner_pos (amp_type A) c r) {..<c * r}"
    using corner by (auto intro: comp_inj_on inj_on_subset)
  moreover have "amp_pos A n = (if amp_rotate A = 0 then corner_pos (amp_type A) c r
      else turned (amp_rotate A) c r \<circ> corner_pos (amp_type A) c r)"
    by (rule ext) (simp add: amp_pos_def Let_def c_def r_def)
  ultimately show ?thesis using corner(1) by (simp add: n)
qed

text \<open>The raw pixel \<open>q\<close> belongs to amplifier \<open>q mod N\<close> of the readout order and is its
  \<open>q div N\<close>-th; this is the place of the image it goes to.\<close>

definition image_pos :: "nat \<Rightarrow> (nat \<Rightarrow> nat) \<Rightarrow> gu \<Rightarrow> nat \<Rightarrow> nat" where
  "image_pos n sigma s q =
     (let a = sigma (q mod g_namps s) in a * n + amp_pos (g_amp s (int a)) n (q div g_namps s))"

lemma image_pos_bij:
  assumes ready: "unscr_ready w mal rptr imageptr n sigma s"
  shows "bij_betw (image_pos n sigma s) {..<g_namps s * n} {..<g_namps s * n}"
proof -
  define N where "N = g_namps s"
  have r: "0 < N" "inj_on sigma {..<N}"
    and slots: "\<And>i. i < N \<Longrightarrow> sigma i < N \<and> scannable w n (g_amp s (int (sigma i)))"
    using ready unfolding unscr_ready_def N_def by (simp_all only: Let_def)
  have i: "q mod N < N" and k: "q div N < n" if "q < N * n" for q
    using that r(1) by (simp_all add: less_mult_imp_div_less mult.commute)
  have pos: "amp_pos (g_amp s (int (sigma (q mod N)))) n (q div N) < n" if "q < N * n" for q
    using amp_pos_less [OF conjunct2 [OF slots [OF i [OF that]]] k [OF that]] .
  have into: "image_pos n sigma s q < N * n" if "q < N * n" for q
    using cell_less [OF pos [OF that] conjunct1 [OF slots [OF i [OF that]]]]
    by (simp add: image_pos_def Let_def N_def mult.commute)
  have "inj_on (image_pos n sigma s) {..<N * n}"
  proof (rule inj_onI)
    fix q q'
    assume q: "q \<in> {..<N * n}" "q' \<in> {..<N * n}" and eq: "image_pos n sigma s q = image_pos n sigma s q'"
    define A where "A = g_amp s (int (sigma (q mod N)))"
    have lt: "q < N * n" "q' < N * n" using q by simp_all
    have "sigma (q mod N) = sigma (q' mod N)"
      using cell_eq [OF pos [OF lt(1)], of "sigma (q mod N)"] cell_eq [OF pos [OF lt(2)], of "sigma (q' mod N)"] eq
      by (simp add: image_pos_def Let_def N_def [symmetric])
    then have m: "q mod N = q' mod N"
      using r(2) i [OF lt(1)] i [OF lt(2)] by (auto simp: inj_on_def)
    have "amp_pos A n (q div N) = amp_pos A n (q' div N)"
      using eq by (simp add: image_pos_def Let_def N_def [symmetric] m A_def)
    then have "q div N = q' div N"
      using amp_pos_inj [OF conjunct2 [OF slots [OF i [OF lt(1)]]]] k [OF lt(1)] k [OF lt(2)]
      by (auto simp: inj_on_def A_def)
    with m show "q = q'" by (metis mult_div_mod_eq)
  qed
  moreover from this into have "image_pos n sigma s ` {..<N * n} = {..<N * n}"
    by (intro card_subset_eq) (auto simp: card_image)
  ultimately show ?thesis by (simp add: bij_betw_def N_def)
qed

lemma unscrambled_mset:
  assumes ready: "unscr_ready w mal rptr imageptr n sigma s"
    and u: "unscrambled w scratch rptr imageptr n sigma s s'"
  shows "mset (map (\<lambda>q. rd (g_mem s') (imageptr + int w * int q) w) [0..<g_namps s * n])
    = mset (map (\<lambda>q. rd (g_mem s) (rptr + int w * int q) w) [0..<g_namps s * n])"
proof (rule mset_moved [OF image_pos_bij [OF ready]])
  fix q
  assume q: "q < g_namps s * n"
  define N where "N = g_namps s"
  have "0 < N" using q by (cases N) (simp_all add: N_def)
  then have i: "q mod N < N" and k: "q div N < n"
    using q by (simp_all add: less_mult_imp_div_less mult.commute N_def)
  have "rd (g_mem s') (slot_ptr w imageptr n (sigma (q mod N))
      + int w * int (amp_pos (g_amp s (int (sigma (q mod N)))) n (q div N))) w
    = rd (g_mem s) (raw_pix w rptr N (q mod N) (q div N)) w"
    using u i k unfolding unscrambled_def Let_def N_def by blast
  moreover have "raw_pix w rptr N (q mod N) (q div N) = rptr + int w * int q"
    by (simp add: raw_pix_def flip: of_nat_mult of_nat_add)
  moreover have "slot_ptr w imageptr n (sigma (q mod N))
      + int w * int (amp_pos (g_amp s (int (sigma (q mod N)))) n (q div N))
    = imageptr + int w * int (image_pos n sigma s q)"
    by (simp add: slot_ptr_def image_pos_def Let_def N_def algebra_simps)
  ultimately show "rd (g_mem s') (imageptr + int w * int (image_pos n sigma s q)) w
    = rd (g_mem s) (rptr + int w * int q) w"
    by simp
qed



section \<open>Pixel swap\<close>

lemma rd_swap_pair:
  shows "rd (swap_pair w p m) p w = rd m (p + int w) w"
    and "rd (swap_pair w p m) (p + int w) w = rd m p w"
    and "apart q (int l) p (2 * int w) \<Longrightarrow> rd (swap_pair w p m) q l = rd m q l"
  by (auto intro!: rd_eqI simp: swap_pair_def apart_def algebra_simps)

text \<open>The state of the raw buffer after the first \<open>j\<close> pairs.\<close>

lemma swap_loop:
  assumes "k < 2 * h"
  shows "rd (for_n h (\<lambda>j. swap_pair w (p + int w * (2 * int j))) m) (p + int w * int k) w
    = rd m (p + int w * int (if even k then k + 1 else k - 1)) w"
  using assms
proof (induction h)
  case 0
  then show ?case by simp
next
  case (Suc h)
  define m1 where "m1 = for_n h (\<lambda>j. swap_pair w (p + int w * (2 * int j))) m"
  have late: "rd m1 (p + int w * int j) w = rd m (p + int w * int j) w" if "2 * h \<le> j" for j
    unfolding m1_def using that
  proof (induction h)
    case 0
    show ?case by simp
  next
    case (Suc h)
    have "w * (2 * Suc h) \<le> w * j" using Suc.prems by (intro mult_le_mono2) simp
    then have "int (w * (2 * Suc h)) \<le> int (w * j)" by (simp only: of_nat_le_iff)
    then have "apart (p + int w * int j) (int w) (p + int w * (2 * int h)) (2 * int w)"
      by (simp add: apart_def algebra_simps)
    then show ?case using Suc by (simp add: rd_swap_pair(3))
  qed
  have new: "for_n (Suc h) (\<lambda>j. swap_pair w (p + int w * (2 * int j))) m
      = swap_pair w (p + int w * int (2 * h)) m1"
    by (simp add: m1_def)
  have "k < 2 * h \<or> k = 2 * h \<or> k = 2 * h + 1" using Suc.prems by presburger
  then consider "k < 2 * h" | "k = 2 * h" | "k = 2 * h + 1" by blast
  then show ?case
  proof cases
    case 1
    have "w * Suc k \<le> w * (2 * h)" using 1 by (intro mult_le_mono2) simp
    then have "int (w * Suc k) \<le> int (w * (2 * h))" by (simp only: of_nat_le_iff)
    then have "apart (p + int w * int k) (int w) (p + int w * int (2 * h)) (2 * int w)"
      by (simp add: apart_def algebra_simps)
    then show ?thesis using 1 Suc.IH unfolding new by (simp add: rd_swap_pair(3) m1_def)
  next
    case 2
    have "rd (swap_pair w (p + int w * int (2 * h)) m1) (p + int w * int (2 * h)) w
        = rd m1 (p + int w * int (2 * h + 1)) w"
      by (simp add: rd_swap_pair(1) algebra_simps)
    then show ?thesis unfolding new using late [of "2 * h + 1"] 2 by simp
  next
    case 3
    have "rd (swap_pair w (p + int w * int (2 * h)) m1) (p + int w * int (2 * h) + int w) w
        = rd m1 (p + int w * int (2 * h)) w"
      by (rule rd_swap_pair(2))
    then show ?thesis unfolding new using late [of "2 * h"] 3 by (simp add: algebra_simps)
  qed
qed

text \<open>With one amplifier and \<open>pix_swap\<close> set, \<open>GU_SHORT\<close> and \<open>GU_LONG\<close> first exchange the
  pixels of each pair of the raw buffer (an even number of pixels).\<close>

theorem swap_raw_exchanges:
  assumes "g_namps s = 1" "g_pix_swap s \<noteq> 0" "k < 2 * h"
  shows "rd (g_mem (swap_raw w (swap_pair w) rptr (int (2 * h)) s)) (rptr + int w * int k) w
    = rd (g_mem s) (rptr + int w * int (if even k then k + 1 else k - 1)) w"
proof -
  have "nat ((int (2 * h) + 1) div 2) = h" by simp
  then show ?thesis
    using assms swap_loop [OF assms(3), of w rptr "g_mem s"] by (simp add: swap_raw_def)
qed

theorem swap_raw_exchanges_witness:
  "rd (g_mem (swap_raw 2 (swap_pair 2) 100 4 (gu_init\<lparr>g_namps := 1, g_pix_swap := 1, g_mem := (\<lambda>a. of_int a)\<rparr>))) 104 2
    = [106, 107]"
  using swap_raw_exchanges [of "gu_init\<lparr>g_namps := 1, g_pix_swap := 1, g_mem := (\<lambda>a. of_int a)\<rparr>" 2 2 2 100]
  by (simp add: rd_def upt_rec)

text \<open>\<open>GU_FLOAT\<close> exchanges a pair through an \<open>i32\<close> temporary: a float pixel of
  magnitude below 1 (biased exponent below 127) that moves up in its pair becomes 0.\<close>

theorem float_swap_truncates:
  assumes "(ld_u32 m p div 2 ^ 23) mod 256 < 127"
  shows "ld_u32 (swap_pair_float p m) (p + 4) = 0 \<and> ld_u32 (swap_pair_float p m) p = ld_u32 m (p + 4)"
proof -
  have zero: "float_via_i32 (ld_u32 m p) = 0" using assms by (simp add: float_via_i32_def)
  have "ld_u32 (swap_pair_float p m) (p + 4) = 0"
    unfolding swap_pair_float_def Let_def zero by (rule ld_u32_st_u32) simp_all
  moreover have "ld_u32 (swap_pair_float p m) p = ld_u32 m (p + 4)"
    by (simp add: swap_pair_float_def Let_def ld_u32_def ld_u16_def st_u32_def memcpy_def algebra_simps)
  ultimately show ?thesis by simp
qed

text \<open>The pair 0.75, 2.0 becomes 2.0, 0.0.\<close>

theorem float_swap_truncates_witness:
  "ld_u32 (swap_pair_float 8 (st_u32 (st_u32 (\<lambda>_. 0) 8 0x3F400000) 12 0x40000000)) 12 = 0"
  using float_swap_truncates [of "st_u32 (st_u32 (\<lambda>_. 0) 8 0x3F400000) 12 0x40000000" 8]
  by (simp add: st_u32_def ld_u32_def ld_u16_def)

section \<open>Null buffers\<close>

text \<open>A null buffer makes every routine return \<open>NULL\<close> without touching the state, but only
  \<open>GU_LONG\<close>, \<open>GU_FLOAT\<close> and \<open>GU_NONE\<close> report it: \<open>GU_SHORT\<close> leaves \<open>*err\<close> as it was (the
  assignment is commented out).\<close>

theorem null_buffers:
  "GU_LONG mal 0 imageptr nelems s = Some (NULLp, Some (- EFAULT), s)
   \<and> GU_FLOAT mal rptr 0 nelems s = Some (NULLp, Some (- EFAULT), s)
   \<and> GU_NONE 0 imageptr nelems s = Some (NULLp, Some (- EFAULT), s)
   \<and> GU_SHORT mal 0 imageptr nelems s = Some (NULLp, None, s)
   \<and> GU_SHORT mal rptr 0 nelems s = Some (NULLp, None, s)"
  by (simp add: GU_LONG_def GU_FLOAT_def GU_NONE_def GU_SHORT_def unscramble_def)

section \<open>Unscrambling disabled\<close>

lemma none_loop:
  "for_n n (\<lambda>i s. s\<lparr>g_amp := (g_amp s)(int i := (g_amp s (int i))\<lparr>dataptr := p i\<rparr>)\<rparr>) s
   = s\<lparr>g_amp := (\<lambda>a. if 0 \<le> a \<and> a < int n then (g_amp s a)\<lparr>dataptr := p (nat a)\<rparr> else g_amp s a)\<rparr>"
  by (induction n) (auto simp: fun_eq_iff)

text \<open>With unscrambling disabled the raw buffer is copied to the image unchanged and the
  amplifiers share it in equal parts.\<close>

theorem GU_NONE_copies:
  assumes "rptr \<noteq> 0" "imageptr \<noteq> 0" "g_detext s = 0" "0 < N" "g_namps s = N"
    and size: "0 < b" "g_bytes_pp s = int b" "N * n * b < 2 ^ 31"
    and i: "i < N"
  shows "\<exists>s'. GU_NONE rptr imageptr (int (N * n)) s = Some (AmpArray, None, s')
    \<and> rd (g_mem s') imageptr (N * n * b) = rd (g_mem s) rptr (N * n * b)
    \<and> dataptr (g_amp s' (int i)) = imageptr + int (i * b * n)"
proof -
  have a: "N * n \<le> b * (N * n)" "n \<le> N * n" using size(1) assms(4) by (simp_all add: le_times)
  have "b * (N * n) < 2 ^ 31" using size(3) by (simp add: mult.commute)
  with a(1) have "N * n < 2 ^ 31" by (rule le_less_trans)
  moreover from a(2) this have small1: "n < 2 ^ 31" by (rule le_less_trans)
  ultimately have small: "n < 2 ^ 31" "int (N * n) < 2 ^ 32"
    using nat_fits_u32 [of "N * n"] by simp_all
  have "i * b * n \<le> N * b * n" using i by (intro mult_le_mono) simp_all
  also have "\<dots> < 2 ^ 31" using size(3) by (simp only: ac_simps)
  finally have ib: "i * b * n < 2 ^ 31" .
  have "to_u32 (int (N * n)) = int (N * n)" using small(2) by (simp add: to_u32_id)
  then have ampdata: "to_i32 (to_u32 (int (N * n)) div int N) = int n"
    using assms(4) small(1) by (simp add: to_i32_id)
  have nb: "to_i32 (int (N * n) * int b) = int (N * n * b)"
    using size(3) by (subst to_i32_id) (simp_all flip: of_nat_mult)
  have pi: "to_i32 (int i * int b * int n) = int (i * b * n)"
    using ib by (subst to_i32_id) (simp_all flip: of_nat_mult)
  show ?thesis
    unfolding GU_NONE_def Let_def none_loop assms(5) size(2) nb ampdata using assms pi
    by (simp add: rd_memcpy_same ampdata del: of_nat_mult)
qed

theorem GU_NONE_copies_witness:
  "\<exists>s'. GU_NONE 100 200 4 (gu_init\<lparr>g_namps := 2, g_bytes_pp := 2, g_mem := (\<lambda>a. of_int a)\<rparr>)
      = Some (AmpArray, None, s')
    \<and> rd (g_mem s') 200 8 = [100, 101, 102, 103, 104, 105, 106, 107]
    \<and> dataptr (g_amp s' 1) = 204"
  using GU_NONE_copies [of 100 200 "gu_init\<lparr>g_namps := 2, g_bytes_pp := 2, g_mem := (\<lambda>a. of_int a)\<rparr>" 2 2 2 1]
  by (simp add: gu_init_def rd_def upt_rec)

section \<open>Opening the library\<close>

lemma load_table_ok:
  "list_all (\<lambda>(v, n). dl_sym env h n) tab
   \<Longrightarrow> load_table env h tab ptrs = (0, fold (\<lambda>(v, n) q. q(v := Some n)) tab ptrs)"
  by (induction env h tab ptrs rule: load_table.induct) (auto simp: dlsym_def GU_checkError_def)

lemma load_table_missing:
  assumes "(v, n) \<in> set tab" "\<not> dl_sym env h n"
  shows "fst (load_table env h tab ptrs) = - ELIBACC"
  using assms
  by (induction tab arbitrary: ptrs) (auto simp: dlsym_def GU_checkError_def Let_def)

text \<open>\<open>GU_open\<close> succeeds exactly when the library opens and exports all fourteen routines;
  then no call of the front end goes through a null pointer.  Otherwise it returns
  \<open>-ELIBACC\<close>.\<close>

theorem GU_open_result:
  "(if dl_open env path \<and> list_all (\<lambda>(v, n). dl_sym env True n) open_table
    then fst (GU_open env path f) = 0
      \<and> list_all (\<lambda>(v, n). via (snd (GU_open env path f)) v r = Some r) open_table
    else fst (GU_open env path f) = - ELIBACC)"
proof (cases "dl_open env path \<and> list_all (\<lambda>(v, n). dl_sym env True n) open_table")
  case True
  then have syms: "list_all (\<lambda>(v, n). dl_sym env True n) open_table" by simp
  have "GU_open env path f = (0, f\<lparr>f_algorpath := path, f_FunctionLib := True,
      f_ptrs := fold (\<lambda>(v, n) q. q(v := Some n)) open_table (f_ptrs f)\<rparr>)"
    using True by (simp add: GU_open_def GU_checkError_def load_table_ok [OF syms])
  then show ?thesis using True by (simp add: via_def open_table_def)
next
  case False
  have "fst (load_table env True open_table (f_ptrs f)) = - ELIBACC"
    if "\<not> list_all (\<lambda>(v, n). dl_sym env True n) open_table"
    using that load_table_missing by (fastforce simp: list_all_iff)
  then show ?thesis
    using False by (auto simp: GU_open_def GU_checkError_def Let_def split: prod.split)
qed

text \<open>Disabling and enabling.  \<open>GU_enable(0)\<close> makes the next call a plain copy whatever
  the pixel type, and a later \<open>GU_enable(1)\<close> selects the routine of the current type again.\<close>

theorem GU_enable_switches:
  assumes "dl_sym env (f_FunctionLib f) ''GU_NONE''" "unsc_name (f_dtype f) = Some name"
    and "dl_sym env (f_FunctionLib f) name" "f_ptrs f ''GUsetbytespp'' = Some p"
  shows "\<exists>f1 f2 s2. GU_enable env 0 f s = Some (0, f1, s) \<and> GU_is_enabled f1 = 0
    \<and> GU_call_unscrambling mal rptr imageptr nelems f1 s = GU_NONE rptr imageptr nelems s
    \<and> GU_enable env 1 f1 s = Some (0, f2, s2) \<and> GU_is_enabled f2 = 1 \<and> f_GUnsc f2 = Some name
    \<and> g_bytes_pp s2 = \<bar>f_dtype f\<bar> div 8"
proof -
  have dt: "f_dtype f \<in> {16, 32, -32}"
    using assms(2) by (auto simp: unsc_name_def split: if_splits)
  then have "f32_quot \<bar>f_dtype f\<bar> 8 = Some (\<bar>f_dtype f\<bar> div 8)"
    by (intro f32_quot_exact) auto
  moreover have "0 \<le> \<bar>f_dtype f\<bar> div 8" by simp
  ultimately show ?thesis
    using assms
    by (simp add: GU_enable_def GU_compute_def GU_checkError_def dlsym_def Let_def GU_is_enabled_def
        GU_call_unscrambling_def set_dtype_def via_def GU_set_bytes_pp_def not_less [symmetric])
qed

theorem GU_enable_switches_witness:
  "\<exists>f1 f2 s2. GU_enable demo_env 0 demo_front gu_init = Some (0, f1, gu_init) \<and> GU_is_enabled f1 = 0
    \<and> GU_enable demo_env 1 f1 gu_init = Some (0, f2, s2) \<and> GU_is_enabled f2 = 1
    \<and> f_GUnsc f2 = Some ''GU_SHORT'' \<and> g_bytes_pp s2 = 2"
  using GU_enable_switches [of demo_env demo_front "''GU_SHORT''" "''x''" gu_init]
  by (simp add: demo_env_def demo_front_def front_init_def unsc_name_def) blast

end
