(* ===== verification/GU_Sections_Props.thy ===== *)
theory GU_Sections_Props imports GU_Sections GU_State_Props
begin

text \<open>
  What blending and rearranging do to memory: a subimage is copied row by row (a scatter whose
  ``pixel'' is a row), a detector extension assembles the subimages of its amplifiers, and the
  section order permutes the sections of each row.
\<close>

section \<open>Subimages\<close>

text \<open>Row \<open>k\<close> of a subimage at column \<open>x0\<close>, row \<open>y0\<close> of an image of \<open>T\<close> columns.\<close>

definition sub_row :: "nat \<Rightarrow> int \<Rightarrow> nat \<Rightarrow> nat \<Rightarrow> nat \<Rightarrow> nat \<Rightarrow> int" where
  "sub_row b gen T x0 y0 k = gen + int (b * ((y0 + k) * T + x0))"

lemma line_step:
  assumes "Y < Y'" "x0 + c \<le> T"
  shows "Y * T + x0 + c \<le> Y' * (T :: nat)"
proof -
  have "Y * T + x0 + c \<le> Suc Y * T" using assms(2) by simp
  also have "\<dots> \<le> Y' * T" using assms(1) by (intro mult_le_mono1) simp
  finally show ?thesis .
qed

text \<open>Ranges of pixels that do not meet are ranges of bytes that do not meet.\<close>

lemma apart_scaled:
  assumes "u + c \<le> v \<or> v + d \<le> u"
  shows "apart (gen + int (b * u)) (int (c * b)) (gen + int (b * v)) (int (d * b))"
  using assms
proof
  assume "u + c \<le> v"
  then have "b * (u + c) \<le> b * v" by (rule mult_le_mono2)
  then have "int (b * (u + c)) \<le> int (b * v)" by (simp only: of_nat_le_iff)
  then show ?thesis by (simp add: apart_def algebra_simps)
next
  assume "v + d \<le> u"
  then have "b * (v + d) \<le> b * u" by (rule mult_le_mono2)
  then have "int (b * (v + d)) \<le> int (b * u)" by (simp only: of_nat_le_iff)
  then show ?thesis by (simp add: apart_def algebra_simps)
qed

lemma sub_rows_apart:
  assumes "x0 + c \<le> T" "x1 + d \<le> T"
    and "y0 + k \<noteq> y1 + l \<or> x0 + c \<le> x1 \<or> x1 + d \<le> x0"
  shows "apart (sub_row b gen T x0 y0 k) (int (c * b)) (sub_row b gen T x1 y1 l) (int (d * b))"
  unfolding sub_row_def
proof (rule apart_scaled)
  show "(y0 + k) * T + x0 + c \<le> (y1 + l) * T + x1 \<or> (y1 + l) * T + x1 + d \<le> (y0 + k) * T + x0"
    using assms line_step [of "y0 + k" "y1 + l" x0 c T] line_step [of "y1 + l" "y0 + k" x1 d T]
    by (cases "y0 + k" "y1 + l" rule: linorder_cases) auto
qed

lemma sub_row_inside:
  assumes "x0 + c \<le> T" "k < r"
  shows "gen \<le> sub_row b gen T x0 y0 k"
    "sub_row b gen T x0 y0 k + int (c * b) \<le> gen + int (b * ((y0 + r) * T))"
proof -
  show "gen \<le> sub_row b gen T x0 y0 k" by (simp add: sub_row_def)
  have "(y0 + k) * T + x0 + c \<le> (y0 + r) * T" using assms by (intro line_step) simp_all
  then have "b * ((y0 + k) * T + x0 + c) \<le> b * ((y0 + r) * T)" by (rule mult_le_mono2)
  then have "int (b * ((y0 + k) * T + x0 + c)) \<le> int (b * ((y0 + r) * T))" by (simp only: of_nat_le_iff)
  then show "sub_row b gen T x0 y0 k + int (c * b) \<le> gen + int (b * ((y0 + r) * T))"
    by (simp add: sub_row_def algebra_simps)
qed

lemma subimage_loop:
  assumes "\<And>k. k < r \<Longrightarrow> dst k = D k"
  shows "for_n r (\<lambda>k (m, p). (memcpy m (dst k) p (int w), p + int w)) (m, sub)
    = (scatter r D (\<lambda>k. sub + int w * int k) w m, sub + int w * int r)"
  using assms by (induction r) (simp_all add: algebra_simps)

lemma to_i32_nat: "n < 2 ^ 31 \<Longrightarrow> to_i32 (int n) = int n"
  by (rule to_i32_id) simp_all

lemma GU_add_subimage_scatter:
  assumes ptrs: "gen \<noteq> 0" "sub \<noteq> 0" and b: "g_bytes_pp s = int b" "0 < b"
    and cols: "x0 + c \<le> T" "0 < T" and size: "b * ((y0 + r) * T) < 2 ^ 31" and r: "0 < r"
  shows "GU_add_subimage gen sub (int x0 + 1) (int y0 + 1) (int c) (int r) (int T) s
    = (0, s\<lparr>g_mem := scatter r (sub_row b gen T x0 y0) (\<lambda>k. sub + int (c * b) * int k) (c * b) (g_mem s)\<rparr>)"
proof -
  have small: "(y0 + r) * T < 2 ^ 31" "y0 + r < 2 ^ 31" "c * b < 2 ^ 31"
  proof -
    have 1: "(y0 + r) * T \<le> b * ((y0 + r) * T)" using b(2) by (rule le_times)
    then show 2: "(y0 + r) * T < 2 ^ 31" using size by (rule le_less_trans)
    have "y0 + r \<le> T * (y0 + r)" using cols(2) by (rule le_times)
    also have "\<dots> < 2 ^ 31" using 2 by (simp only: mult.commute)
    finally show "y0 + r < 2 ^ 31" .
    have "c \<le> T" using cols by simp
    moreover have "T \<le> (y0 + r) * T" using r by (intro le_times) simp
    ultimately have "b * c \<le> b * ((y0 + r) * T)"
      by (intro mult_le_mono2) (rule order_trans)
    then have "b * c < 2 ^ 31" using size by (rule le_less_trans)
    then show "c * b < 2 ^ 31" by (simp only: mult.commute)
  qed
  have e: "to_i32 (int y0 + 1 + int r - 1) = int (y0 + r)" "to_i32 (int y0 + 1 - 1) = int y0"
    "to_i32 (int c * int b) = int (c * b)"
    using small to_i32_nat [of "y0 + r"] to_i32_nat [of y0] to_i32_nat [of "c * b"] by simp_all
  have dst: "gen + to_i32 (((int y0 + int k) * int T + (int x0 + 1 - 1)) * int b) = sub_row b gen T x0 y0 k"
    if "k < r" for k
  proof -
    have "(y0 + k) * T + x0 + c \<le> (y0 + r) * T" using that cols by (intro line_step) simp_all
    then have "b * ((y0 + k) * T + x0) \<le> b * ((y0 + r) * T)" by (intro mult_le_mono2) simp
    then have "b * ((y0 + k) * T + x0) < 2 ^ 31" using size by (rule le_less_trans)
    then have "to_i32 (int (b * ((y0 + k) * T + x0))) = int (b * ((y0 + k) * T + x0))"
      by (rule to_i32_nat)
    moreover have "((int y0 + int k) * int T + (int x0 + 1 - 1)) * int b = int (b * ((y0 + k) * T + x0))"
      by (simp add: algebra_simps)
    ultimately show ?thesis by (simp only: sub_row_def)
  qed
  have loop: "for_n r (\<lambda>k (m, p).
      (memcpy m (gen + to_i32 (((int y0 + int k) * int T + (int x0 + 1 - 1)) * int b)) p (int (c * b)),
       p + int (c * b))) (g_mem s, sub)
    = (scatter r (sub_row b gen T x0 y0) (\<lambda>k. sub + int (c * b) * int k) (c * b) (g_mem s),
       sub + int (c * b) * int r)"
    by (rule subimage_loop) (rule dst)
  have n: "nat (int (y0 + r) - int y0) = r" by simp
  have p: "\<not> (gen = 0 \<or> sub = 0)" using ptrs by simp
  show ?thesis
    unfolding GU_add_subimage_def b(1) Let_def e n loop if_not_P [OF p] by simp
qed

lemma sub_rows_read:
  assumes cols: "x0 + c \<le> T" and k: "k < r"
    and src: "apart sub (int (c * b * r)) gen (int (b * ((y0 + r) * T)))"
  shows "rd (scatter r (sub_row b gen T x0 y0) (\<lambda>k. sub + int (c * b) * int k) (c * b) m)
      (sub_row b gen T x0 y0 k) (c * b) = rd m (sub + int (c * b) * int k) (c * b)"
proof (rule scatter_read [OF _ _ k])
  fix i j
  assume ij: "i < r" "j < r"
  show "i \<noteq> j \<Longrightarrow> apart (sub_row b gen T x0 y0 i) (int (c * b)) (sub_row b gen T x0 y0 j) (int (c * b))"
    using cols by (intro sub_rows_apart) auto
  have s: "apart (sub + int (c * b) * int i) (int (c * b)) gen (int (b * ((y0 + r) * T)))"
    by (rule apart_sub [OF src])
      (use ll.pos_inside [of i r 1 sub "c * b"] ij in \<open>simp_all add: pos_LL_def mult.assoc\<close>)
  show "apart (sub + int (c * b) * int i) (int (c * b)) (sub_row b gen T x0 y0 j) (int (c * b))"
    using apart_sub [OF s [unfolded apart_commute [of "sub + int (c * b) * int i"]] sub_row_inside [OF cols ij(2)]]
    by (simp only: apart_commute)
qed

text \<open>\<open>GU_add_subimage\<close> puts row \<open>k\<close> of the subimage at row \<open>subystart - 1 + k\<close>, column
  \<open>subxstart - 1\<close> of the image, and changes nothing else.\<close>

theorem GU_add_subimage_places:
  assumes ptrs: "gen \<noteq> 0" "sub \<noteq> 0" and b: "g_bytes_pp s = int b" "0 < b"
    and cols: "x0 + c \<le> T" "0 < T" and size: "b * ((y0 + r) * T) < 2 ^ 31"
    and src: "apart sub (int (c * b * r)) gen (int (b * ((y0 + r) * T)))" and k: "k < r"
  shows "\<exists>m'. GU_add_subimage gen sub (int x0 + 1) (int y0 + 1) (int c) (int r) (int T) s = (0, s\<lparr>g_mem := m'\<rparr>)
    \<and> rd m' (sub_row b gen T x0 y0 k) (c * b) = rd (g_mem s) (sub + int (c * b) * int k) (c * b)
    \<and> (\<forall>q l. (\<forall>j < r. apart q (int l) (sub_row b gen T x0 y0 j) (int (c * b))) \<longrightarrow> rd m' q l = rd (g_mem s) q l)"
proof -
  have "0 < r" using k by simp
  note eq = GU_add_subimage_scatter [OF ptrs b cols size this]
  define m' where "m' = scatter r (sub_row b gen T x0 y0) (\<lambda>k. sub + int (c * b) * int k) (c * b) (g_mem s)"
  have "rd m' (sub_row b gen T x0 y0 k) (c * b) = rd (g_mem s) (sub + int (c * b) * int k) (c * b)"
    unfolding m'_def by (rule sub_rows_read [OF cols(1) k src])
  moreover have "rd m' q l = rd (g_mem s) q l"
    if "\<forall>j < r. apart q (int l) (sub_row b gen T x0 y0 j) (int (c * b))" for q l
    unfolding m'_def by (rule scatter_frame) (use that in blast)
  ultimately show ?thesis unfolding eq m'_def [symmetric] by blast
qed

text \<open>The second row of a 2 by 2 subimage of 16-bit pixels placed at the top right of a 3 by 3
  image.\<close>

theorem GU_add_subimage_places_witness:
  "\<exists>m'. GU_add_subimage 200 100 2 2 2 2 3 (gu_init\<lparr>g_bytes_pp := 2, g_mem := (\<lambda>a. of_int a)\<rparr>)
      = (0, gu_init\<lparr>g_bytes_pp := 2, g_mem := m'\<rparr>)
    \<and> rd m' 214 4 = [104, 105, 106, 107]"
proof -
  define S where "S = gu_init\<lparr>g_bytes_pp := 2, g_mem := (\<lambda>a. of_int a)\<rparr>"
  have "g_bytes_pp S = int 2" by (simp add: S_def)
  then obtain m' where m': "GU_add_subimage 200 100 (int 1 + 1) (int 1 + 1) (int 2) (int 2) (int 3) S
        = (0, S\<lparr>g_mem := m'\<rparr>)"
    and row: "rd m' (sub_row 2 200 3 1 1 1) (2 * 2) = rd (g_mem S) (100 + int (2 * 2) * int 1) (2 * 2)"
    using GU_add_subimage_places [of 200 100 S 2 1 2 3 1 2 1] by (simp add: apart_def) blast
  have "rd m' 214 4 = [104, 105, 106, 107]"
    using row by (simp add: sub_row_def rd_def upt_rec S_def)
  then show ?thesis using m' by (auto simp: S_def)
qed

section \<open>Detector extensions\<close>

text \<open>Where amplifier \<open>i\<close> lies in its detector.\<close>

definition amp_det :: "gu \<Rightarrow> nat \<Rightarrow> int" where
  "amp_det s i = GU_getdet (amp_detno (g_amp s (int i))) s"

definition amp_x :: "gu \<Rightarrow> nat \<Rightarrow> nat" where
  "amp_x s i = nat (amp_xstart (g_amp s (int i)) - amp_xstart (g_det s (amp_det s i)))"

definition amp_y :: "gu \<Rightarrow> nat \<Rightarrow> nat" where
  "amp_y s i = nat (amp_ystart (g_amp s (int i)) - amp_ystart (g_det s (amp_det s i)))"

definition amp_c :: "gu \<Rightarrow> nat \<Rightarrow> nat" where
  "amp_c s i = nat (amp_ncols (g_amp s (int i)))"

definition det_c :: "gu \<Rightarrow> nat \<Rightarrow> nat" where
  "det_c s i = nat (amp_ncols (g_det s (amp_det s i)))"

text \<open>The buffer of detector \<open>d\<close> (of \<open>n\<close> pixels), and row \<open>k\<close> of amplifier \<open>i\<close> in it.\<close>

definition det_ptr :: "nat \<Rightarrow> int \<Rightarrow> nat \<Rightarrow> int \<Rightarrow> int" where
  "det_ptr b out n d = out + int (b * (nat d * n))"

definition det_row :: "nat \<Rightarrow> int \<Rightarrow> nat \<Rightarrow> gu \<Rightarrow> nat \<Rightarrow> nat \<Rightarrow> int" where
  "det_row b out n s i k = sub_row b (det_ptr b out n (amp_det s i)) (det_c s i) (amp_x s i) (amp_y s i) k"

text \<open>Every amplifier belongs to a detector and lies inside it, no two overlap, and the
  amplifiers' buffers lie outside the detector buffer.\<close>

definition fits_det :: "nat \<Rightarrow> int \<Rightarrow> nat \<Rightarrow> nat \<Rightarrow> gu \<Rightarrow> nat \<Rightarrow> bool" where
  "fits_det b out n r s i \<longleftrightarrow>
     (let A = g_amp s (int i); D = g_det s (amp_det s i) in
      0 \<le> amp_det s i \<and> amp_det s i < int (g_ndets s)
    \<and> amp_xstart D \<le> amp_xstart A \<and> amp_ystart D \<le> amp_ystart A \<and> 0 < amp_ncols A
    \<and> amp_x s i + amp_c s i \<le> det_c s i \<and> (amp_y s i + r) * det_c s i \<le> n
    \<and> dataptr A \<noteq> 0 \<and> apart (dataptr A) (int (amp_c s i * b * r)) out (int (b * (g_ndets s * n))))"

definition no_overlap :: "nat \<Rightarrow> gu \<Rightarrow> nat \<Rightarrow> nat \<Rightarrow> bool" where
  "no_overlap r s i j \<longleftrightarrow> amp_det s i \<noteq> amp_det s j
     \<or> amp_x s i + amp_c s i \<le> amp_x s j \<or> amp_x s j + amp_c s j \<le> amp_x s i
     \<or> amp_y s i + r \<le> amp_y s j \<or> amp_y s j + r \<le> amp_y s i"

definition blendable :: "nat \<Rightarrow> int \<Rightarrow> nat \<Rightarrow> nat \<Rightarrow> gu \<Rightarrow> bool" where
  "blendable b out n r s \<longleftrightarrow>
     0 < b \<and> g_bytes_pp s = int b \<and> 0 < r \<and> 0 < g_ndets s \<and> b * (g_ndets s * n) < 2 ^ 31 \<and> 0 < out
   \<and> (\<forall>i < g_namps s. fits_det b out n r s i)
   \<and> (\<forall>i < g_namps s. \<forall>j < i. no_overlap r s i j)"

text \<open>The loop changes memory and the data pointers of the detectors only.\<close>

definition with_dets :: "(int \<Rightarrow> int) \<Rightarrow> mem \<Rightarrow> gu \<Rightarrow> gu" where
  "with_dets f m s = s\<lparr>g_det := (\<lambda>a. (g_det s a)\<lparr>dataptr := f a\<rparr>), g_mem := m\<rparr>"

lemma with_dets_simps [simp]:
  "g_amp (with_dets f m s) = g_amp s" "g_det (with_dets f m s) a = (g_det s a)\<lparr>dataptr := f a\<rparr>"
  "g_mem (with_dets f m s) = m" "g_bytes_pp (with_dets f m s) = g_bytes_pp s"
  "GU_getdet no (with_dets f m s) = GU_getdet no s"
  by (simp_all add: with_dets_def GU_getdet_def)

lemma with_dets_same: "with_dets (\<lambda>a. dataptr (g_det s a)) (g_mem s) s = s"
proof -
  have "(g_det s a)\<lparr>dataptr := dataptr (g_det s a)\<rparr> = g_det s a" for a by simp
  then show ?thesis by (simp add: with_dets_def)
qed

lemma fits_det_bounds:
  assumes "blendable b out n r s" "i < g_namps s"
  shows "b * ((amp_y s i + r) * det_c s i) < 2 ^ 31" "0 < det_c s i" "amp_x s i + 1 < 2 ^ 31"
    "amp_y s i + 1 < 2 ^ 31" "b * (nat (amp_det s i) * n) < 2 ^ 31"
    "b * (nat (amp_det s i) * n) + b * ((amp_y s i + r) * det_c s i) \<le> b * (g_ndets s * n)"
proof -
  have f: "fits_det b out n r s i" and b: "0 < b" "b * (g_ndets s * n) < 2 ^ 31" "0 < r"
    using assms by (simp_all add: blendable_def)
  have c: "0 < amp_c s i" "amp_x s i + amp_c s i \<le> det_c s i" "(amp_y s i + r) * det_c s i \<le> n"
    and d: "nat (amp_det s i) < g_ndets s"
    using f by (auto simp: fits_det_def Let_def amp_c_def)
  have "nat (amp_det s i) * n + (amp_y s i + r) * det_c s i \<le> Suc (nat (amp_det s i)) * n"
    using c(3) by simp
  also have "\<dots> \<le> g_ndets s * n" using d by (intro mult_le_mono1) simp
  finally have "b * (nat (amp_det s i) * n + (amp_y s i + r) * det_c s i) \<le> b * (g_ndets s * n)"
    by (rule mult_le_mono2)
  then show sum: "b * (nat (amp_det s i) * n) + b * ((amp_y s i + r) * det_c s i) \<le> b * (g_ndets s * n)"
    by (simp only: add_mult_distrib2)
  show big: "b * ((amp_y s i + r) * det_c s i) < 2 ^ 31" "b * (nat (amp_det s i) * n) < 2 ^ 31"
    using sum b(2) by linarith+
  show dc: "0 < det_c s i" using c by linarith
  have 1: "(amp_y s i + r) * det_c s i < 2 ^ 31"
    using le_times [OF b(1), of "(amp_y s i + r) * det_c s i"] big(1) by (rule le_less_trans)
  have "amp_y s i + r \<le> det_c s i * (amp_y s i + r)" using dc by (rule le_times)
  also have "\<dots> < 2 ^ 31" using 1 by (simp only: mult.commute)
  finally show "amp_y s i + 1 < 2 ^ 31" using b(3) by linarith
  have "det_c s i \<le> (amp_y s i + r) * det_c s i" using b(3) by (intro le_times) simp
  then have "det_c s i < 2 ^ 31" using 1 by (rule le_less_trans)
  then show "amp_x s i + 1 < 2 ^ 31" using c by linarith
qed

lemma det_turn_result:
  assumes ok: "blendable b out n r s" and i: "i < g_namps s"
  shows "det_turn out (int n) (int r) i (with_dets f m s)
    = Inr (with_dets (f(amp_det s i := det_ptr b out n (amp_det s i)))
        (scatter r (det_row b out n s i) (\<lambda>k. dataptr (g_amp s (int i)) + int (amp_c s i * b) * int k)
          (amp_c s i * b) m) s)"
proof -
  define A where "A = g_amp s (int i)"
  define d where "d = amp_det s i"
  define p where "p = det_ptr b out n d"
  have fit: "fits_det b out n r s i" and b: "0 < b" "g_bytes_pp s = int b" "0 < r" "0 < out"
    using assms by (simp_all add: blendable_def)
  note bd = fits_det_bounds [OF ok i]
  have d: "GU_getdet (amp_detno A) s = d" "0 \<le> d" "nat d < g_ndets s"
    using fit by (auto simp: fits_det_def Let_def amp_det_def A_def d_def)
  have cols: "amp_ncols A = int (amp_c s i)" "amp_ncols (g_det s d) = int (det_c s i)"
    "amp_x s i + amp_c s i \<le> det_c s i" "dataptr A \<noteq> 0"
    and x: "amp_xstart A - amp_xstart (g_det s d) = int (amp_x s i)"
    and y: "amp_ystart A - amp_ystart (g_det s d) = int (amp_y s i)"
    using fit bd(2) by (auto simp: fits_det_def Let_def A_def d_def amp_c_def det_c_def amp_x_def amp_y_def)
  have xy: "to_i32 (amp_xstart A - amp_xstart (g_det s d) + 1) = int (amp_x s i) + 1"
    "to_i32 (amp_ystart A - amp_ystart (g_det s d) + 1) = int (amp_y s i) + 1"
    using to_i32_nat [OF bd(3)] to_i32_nat [OF bd(4)]
    unfolding x y by (simp_all only: of_nat_add of_nat_1)
  have ptr: "out + to_i32 (d * (int n * int b)) = p"
  proof -
    have "to_i32 (int (b * (nat d * n))) = int (b * (nat d * n))"
      using bd(5) unfolding d_def by (rule to_i32_nat)
    moreover have "d * (int n * int b) = int (b * (nat d * n))" using d(2) by (simp add: algebra_simps)
    ultimately show ?thesis by (simp only: p_def det_ptr_def)
  qed
  have p0: "p \<noteq> 0" using b(4) unfolding p_def det_ptr_def by linarith
  define s1 where "s1 = with_dets (f(d := p)) m s"
  have s1: "(with_dets f m s)\<lparr>g_det := (g_det (with_dets f m s))(d := (g_det (with_dets f m s) d)\<lparr>dataptr := p\<rparr>)\<rparr> = s1"
    by (auto simp: s1_def with_dets_def fun_eq_iff)
  have "GU_add_subimage p (dataptr A) (int (amp_x s i) + 1) (int (amp_y s i) + 1) (int (amp_c s i))
      (int r) (int (det_c s i)) s1
    = (0, s1\<lparr>g_mem := scatter r (sub_row b p (det_c s i) (amp_x s i) (amp_y s i))
        (\<lambda>k. dataptr A + int (amp_c s i * b) * int k) (amp_c s i * b) (g_mem s1)\<rparr>)"
    using p0 cols(3,4) b bd(1,2) by (intro GU_add_subimage_scatter) (simp_all add: s1_def)
  moreover have "det_row b out n s i = sub_row b p (det_c s i) (amp_x s i) (amp_y s i)"
    by (rule ext) (simp add: det_row_def p_def d_def)
  ultimately show ?thesis
    using d(2)
    by (simp add: det_turn_def Let_def A_def [symmetric] d(1) b(2) ptr s1 [simplified] cols xy)
      (simp add: s1_def with_dets_def A_def d_def p_def)
qed

lemma det_row_inside:
  assumes ok: "blendable b out n r s" and i: "i < g_namps s" and k: "k < r"
  shows "det_ptr b out n (amp_det s i) \<le> det_row b out n s i k"
    "det_row b out n s i k + int (amp_c s i * b) \<le> det_ptr b out n (amp_det s i) + int (b * n)"
proof -
  have fit: "fits_det b out n r s i" using ok i by (simp add: blendable_def)
  then have c: "amp_x s i + amp_c s i \<le> det_c s i" "(amp_y s i + r) * det_c s i \<le> n"
    by (simp_all add: fits_det_def Let_def)
  note ins = sub_row_inside [where gen = "det_ptr b out n (amp_det s i)" and b = b and ?y0.0 = "amp_y s i",
      OF c(1) k, folded det_row_def]
  show "det_ptr b out n (amp_det s i) \<le> det_row b out n s i k" by (rule ins(1))
  have "b * ((amp_y s i + r) * det_c s i) \<le> b * n" using c(2) by (rule mult_le_mono2)
  then have "int (b * ((amp_y s i + r) * det_c s i)) \<le> int (b * n)" by (simp only: of_nat_le_iff)
  then show "det_row b out n s i k + int (amp_c s i * b) \<le> det_ptr b out n (amp_det s i) + int (b * n)"
    using ins(2) by linarith
qed

lemma det_rows_apart:
  assumes ok: "blendable b out n r s" and ij: "i < g_namps s" "j < g_namps s" "i \<noteq> j"
    and kl: "k < r" "l < r"
  shows "apart (det_row b out n s i k) (int (amp_c s i * b)) (det_row b out n s j l) (int (amp_c s j * b))"
proof (cases "amp_det s i = amp_det s j")
  case True
  have no: "no_overlap r s i j \<or> no_overlap r s j i"
    using ok ij by (cases i j rule: linorder_cases) (auto simp: blendable_def)
  have "fits_det b out n r s i" "fits_det b out n r s j" using ok ij by (simp_all add: blendable_def)
  then have c: "amp_x s i + amp_c s i \<le> det_c s i" "amp_x s j + amp_c s j \<le> det_c s i"
    using True by (simp_all add: fits_det_def Let_def det_c_def)
  have dc: "det_c s j = det_c s i" using True by (simp add: det_c_def)
  show ?thesis
    unfolding det_row_def True [symmetric] dc
    by (rule sub_rows_apart [OF c]) (use no True kl in \<open>auto simp: no_overlap_def\<close>)
next
  case False
  have "fits_det b out n r s i" "fits_det b out n r s j" using ok ij by (simp_all add: blendable_def)
  then have d: "0 \<le> amp_det s i" "0 \<le> amp_det s j" by (simp_all add: fits_det_def Let_def)
  then have ne: "nat (amp_det s i) \<noteq> nat (amp_det s j)" using False by simp
  have "nat (amp_det s i) * n + n \<le> nat (amp_det s j) * n \<or> nat (amp_det s j) * n + n \<le> nat (amp_det s i) * n"
    using ne line_step [of "nat (amp_det s i)" "nat (amp_det s j)" 0 n n]
      line_step [of "nat (amp_det s j)" "nat (amp_det s i)" 0 n n]
    by (cases "nat (amp_det s i)" "nat (amp_det s j)" rule: linorder_cases) auto
  then have "apart (det_ptr b out n (amp_det s i)) (int (n * b)) (det_ptr b out n (amp_det s j)) (int (n * b))"
    unfolding det_ptr_def by (rule apart_scaled)
  then have "apart (det_ptr b out n (amp_det s i)) (int (b * n)) (det_ptr b out n (amp_det s j)) (int (b * n))"
    by (simp only: mult.commute [of n b])
  from apart_sub [OF this det_row_inside [OF ok ij(1) kl(1)]]
  have "apart (det_ptr b out n (amp_det s j)) (int (b * n)) (det_row b out n s i k) (int (amp_c s i * b))"
    by (simp only: apart_commute)
  from apart_sub [OF this det_row_inside [OF ok ij(2) kl(2)]]
  show ?thesis by (simp only: apart_commute)
qed

lemma amp_data_apart:
  assumes ok: "blendable b out n r s" and ij: "i < g_namps s" "j < g_namps s" and kl: "k < r" "l < r"
  shows "apart (dataptr (g_amp s (int i)) + int (amp_c s i * b) * int k) (int (amp_c s i * b))
    (det_row b out n s j l) (int (amp_c s j * b))"
proof -
  have fit: "fits_det b out n r s i" "fits_det b out n r s j" using ok ij by (simp_all add: blendable_def)
  have src: "apart (dataptr (g_amp s (int i))) (int (amp_c s i * b * r)) out (int (b * (g_ndets s * n)))"
    and d: "nat (amp_det s j) < g_ndets s"
    using fit by (auto simp: fits_det_def Let_def)
  have "nat (amp_det s j) * n + n \<le> g_ndets s * n" using line_step [OF d, of 0 n n] by simp
  then have "b * (nat (amp_det s j) * n + n) \<le> b * (g_ndets s * n)" by (rule mult_le_mono2)
  then have "int (b * (nat (amp_det s j) * n + n)) \<le> int (b * (g_ndets s * n))" by (simp only: of_nat_le_iff)
  then have "det_ptr b out n (amp_det s j) + int (b * n) \<le> out + int (b * (g_ndets s * n))"
    by (simp add: det_ptr_def algebra_simps)
  moreover have "out \<le> det_ptr b out n (amp_det s j)" by (simp add: det_ptr_def)
  ultimately have ins: "out \<le> det_row b out n s j l"
    "det_row b out n s j l + int (amp_c s j * b) \<le> out + int (b * (g_ndets s * n))"
    using det_row_inside [OF ok ij(2) kl(2)] by linarith+
  have 1: "apart (dataptr (g_amp s (int i)) + int (amp_c s i * b) * int k) (int (amp_c s i * b))
      out (int (b * (g_ndets s * n)))"
    by (rule apart_sub [OF src])
      (use ll.pos_inside [of k r 1 "dataptr (g_amp s (int i))" "amp_c s i * b"] kl in
        \<open>simp_all add: pos_LL_def mult.assoc\<close>)
  show ?thesis
    using apart_sub [OF 1 [unfolded apart_commute [of "dataptr (g_amp s (int i)) + int (amp_c s i * b) * int k"]] ins]
    by (simp only: apart_commute)
qed

text \<open>C16: detector extensions.  With every amplifier inside its detector and no two
  overlapping, \<open>GU_do_detextensions\<close> returns \<open>OK\<close>, gives every detector in use its part of the
  output buffer, and the buffer shows every row of every amplifier at the amplifier's place in
  its detector.\<close>

theorem GU_do_detextensions_blends:
  assumes ok: "blendable b out n r s"
  shows "\<exists>s'. GU_do_detextensions mal out (int (g_ndets s * n)) (int r) s = Some (0, s')
    \<and> (\<forall>i < g_namps s. dataptr (g_det s' (amp_det s i)) = det_ptr b out n (amp_det s i)
        \<and> (\<forall>k < r. rd (g_mem s') (det_row b out n s i k) (amp_c s i * b)
             = rd (g_mem s) (dataptr (g_amp s (int i)) + int (amp_c s i * b) * int k) (amp_c s i * b)))"
proof -
  define N where "N = g_namps s"
  define src where "src = (\<lambda>i k. dataptr (g_amp s (int i)) + int (amp_c s i * b) * int k)"
  have b: "0 < b" "0 < g_ndets s" "b * (g_ndets s * n) < 2 ^ 31" "0 < out"
    using ok by (simp_all add: blendable_def)
  define P where "P = (\<lambda>j t. \<exists>f m. t = with_dets f m s
    \<and> (\<forall>i < j. f (amp_det s i) = det_ptr b out n (amp_det s i)
        \<and> (\<forall>k < r. rd m (det_row b out n s i k) (amp_c s i * b) = rd (g_mem s) (src i k) (amp_c s i * b)))
    \<and> (\<forall>i < N. \<forall>k < r. rd m (src i k) (amp_c s i * b) = rd (g_mem s) (src i k) (amp_c s i * b)))"
  have "\<exists>t. for_ret N (det_turn out (int n) (int r)) s = Inr t \<and> P N t"
  proof (rule for_ret_invariant)
    show "P 0 s" unfolding P_def
      by (intro exI [of _ "\<lambda>a. dataptr (g_det s a)"] exI [of _ "g_mem s"]) (simp add: with_dets_same)
  next
    fix j t
    assume j: "j < N" and "P j t"
    then obtain f m where t: "t = with_dets f m s"
      and prev: "\<forall>i < j. f (amp_det s i) = det_ptr b out n (amp_det s i)
        \<and> (\<forall>k < r. rd m (det_row b out n s i k) (amp_c s i * b) = rd (g_mem s) (src i k) (amp_c s i * b))"
      and intact: "\<forall>i < N. \<forall>k < r. rd m (src i k) (amp_c s i * b) = rd (g_mem s) (src i k) (amp_c s i * b)"
      unfolding P_def by blast
    have jN: "j < g_namps s" using j by (simp add: N_def)
    define m' where "m' = scatter r (det_row b out n s j) (src j) (amp_c s j * b) m"
    define f' where "f' = f(amp_det s j := det_ptr b out n (amp_det s j))"
    have turn: "det_turn out (int n) (int r) j t = Inr (with_dets f' m' s)"
      unfolding t det_turn_result [OF ok jN] by (simp add: m'_def f'_def src_def)
    have new: "rd m' (det_row b out n s j k) (amp_c s j * b) = rd m (src j k) (amp_c s j * b)" if "k < r" for k
      unfolding m'_def
    proof (rule scatter_read [OF _ _ that])
      fix k l
      assume kl: "k < r" "l < r"
      have "fits_det b out n r s j" using ok jN by (simp add: blendable_def)
      then have c: "amp_x s j + amp_c s j \<le> det_c s j" by (simp add: fits_det_def Let_def)
      show "k \<noteq> l \<Longrightarrow> apart (det_row b out n s j k) (int (amp_c s j * b)) (det_row b out n s j l) (int (amp_c s j * b))"
        unfolding det_row_def by (rule sub_rows_apart [OF c c]) simp
      show "apart (src j k) (int (amp_c s j * b)) (det_row b out n s j l) (int (amp_c s j * b))"
        unfolding src_def by (rule amp_data_apart [OF ok jN jN kl])
    qed
    have old: "rd m' (det_row b out n s i k) (amp_c s i * b) = rd m (det_row b out n s i k) (amp_c s i * b)"
      if "i < j" "k < r" for i k
      unfolding m'_def
      by (rule scatter_frame) (rule det_rows_apart [OF ok], use that jN in auto)
    have keep: "rd m' (src i k) (amp_c s i * b) = rd m (src i k) (amp_c s i * b)"
      if "i < N" "k < r" for i k
      unfolding m'_def src_def
      by (rule scatter_frame) (rule amp_data_apart [OF ok], use that jN in \<open>auto simp: N_def\<close>)
    have "P (Suc j) (with_dets f' m' s)"
      unfolding P_def
    proof (intro exI conjI allI impI)
      fix i
      assume i: "i < Suc j"
      show "f' (amp_det s i) = det_ptr b out n (amp_det s i)"
        using prev i by (auto simp: f'_def less_Suc_eq)
      fix k
      assume k: "k < r"
      show "rd m' (det_row b out n s i k) (amp_c s i * b) = rd (g_mem s) (src i k) (amp_c s i * b)"
        using prev i k new old intact j by (auto simp: less_Suc_eq)
    next
      fix i k
      assume "i < N" "k < r"
      then show "rd m' (src i k) (amp_c s i * b) = rd (g_mem s) (src i k) (amp_c s i * b)"
        using keep intact by simp
    qed (rule refl)
    then show "\<exists>t'. det_turn out (int n) (int r) j t = Inr t' \<and> P (Suc j) t'" using turn by blast
  qed
  then obtain t where loop: "for_ret N (det_turn out (int n) (int r)) s = Inr t" and "P N t" by blast
  have n31: "g_ndets s * n < 2 ^ 31" "n < 2 ^ 31"
    using le_times [OF b(1), of "g_ndets s * n"] le_times [OF b(2), of n] b(3) by linarith+
  have "int (g_ndets s * n) < 2 ^ 32" by (rule nat_fits_u32) (use n31(1) in simp)
  then have "to_u32 (int (g_ndets s * n)) = int (g_ndets s * n)" by (intro to_u32_id) simp_all
  then have detdata: "to_i32 (to_u32 (int (g_ndets s * n)) div int (g_ndets s)) = int n"
    using to_i32_nat [OF n31(2)] b(2) by simp
  have "GU_do_detextensions mal out (int (g_ndets s * n)) (int r) s = Some (0, t)"
    using b loop by (simp add: GU_do_detextensions_def detdata N_def del: of_nat_mult)
  then show ?thesis using \<open>P N t\<close> unfolding P_def N_def src_def by auto
qed

text \<open>Two amplifiers of one row of two 16-bit pixels, side by side in a detector.\<close>

definition demo_blend :: gu where
  "demo_blend = gu_init\<lparr>g_namps := 2, g_ndets := 1, g_bytes_pp := 2, g_mem := (\<lambda>a. of_int a),
     g_det := (\<lambda>_. amp_zero\<lparr>amp_detno := 7, amp_xstart := 1, amp_ystart := 1, amp_ncols := 4\<rparr>),
     g_amp := (\<lambda>a. amp_zero\<lparr>amp_detno := 7, amp_xstart := (if a = 0 then 1 else 3), amp_ystart := 1,
        amp_ncols := 2, dataptr := (if a = 0 then 100 else 200)\<rparr>)\<rparr>"

lemma demo_blend_place:
  "amp_det demo_blend i = 0" "amp_x demo_blend i = (if i = 0 then 0 else 2)" "amp_y demo_blend i = 0"
  "amp_c demo_blend i = 2" "det_c demo_blend i = 4" "g_namps demo_blend = 2" "g_ndets demo_blend = 1"
  "g_bytes_pp demo_blend = 2" "g_mem demo_blend = (\<lambda>a. of_int a)"
  "dataptr (g_amp demo_blend (int i)) = (if i = 0 then 100 else 200)"
  "dataptr (g_amp demo_blend 0) = 100" "dataptr (g_amp demo_blend 1) = 200"
proof -
  show "amp_det demo_blend i = 0" by (simp add: amp_det_def GU_getdet_def demo_blend_def upt_rec)
  then show "amp_x demo_blend i = (if i = 0 then 0 else 2)" "amp_y demo_blend i = 0"
    by (simp_all add: amp_x_def amp_y_def demo_blend_def)
qed (simp_all add: amp_c_def det_c_def demo_blend_def)

lemma demo_blendable: "blendable 2 300 4 1 demo_blend"
  by (auto simp: blendable_def fits_det_def no_overlap_def Let_def demo_blend_place less_2_cases_iff apart_def)
    (simp_all add: demo_blend_def)

theorem GU_do_detextensions_blends_witness:
  "\<exists>s'. GU_do_detextensions (\<lambda>_. 0) 300 4 1 demo_blend = Some (0, s')
    \<and> dataptr (g_det s' 0) = 300
    \<and> rd (g_mem s') 300 4 = [100, 101, 102, 103] \<and> rd (g_mem s') 304 4 = [200, 201, 202, 203]"
proof -
  obtain s' where s': "GU_do_detextensions (\<lambda>_. 0) 300 (int (g_ndets demo_blend * 4)) (int 1) demo_blend = Some (0, s')"
    and px: "\<forall>i < g_namps demo_blend. dataptr (g_det s' (amp_det demo_blend i)) = det_ptr 2 300 4 (amp_det demo_blend i)
        \<and> (\<forall>k < 1. rd (g_mem s') (det_row 2 300 4 demo_blend i k) (amp_c demo_blend i * 2)
             = rd (g_mem demo_blend) (dataptr (g_amp demo_blend (int i)) + int (amp_c demo_blend i * 2) * int k)
                 (amp_c demo_blend i * 2))"
    using GU_do_detextensions_blends [OF demo_blendable, of "\<lambda>_. 0"] by blast
  have "rd (g_mem s') 300 4 = [100, 101, 102, 103]" "rd (g_mem s') 304 4 = [200, 201, 202, 203]"
    "dataptr (g_det s' 0) = 300"
    using px [rule_format, of 0] px [rule_format, of 1]
    by (simp_all add: demo_blend_place det_row_def det_ptr_def sub_row_def rd_def upt_rec)
  then show ?thesis using s' by (auto simp: demo_blend_place)
qed

section \<open>The order of the sections in a row\<close>

text \<open>The columns a row routine copies: offset and number, in pixels.\<close>

definition row_part :: "symptr \<Rightarrow> amp_t \<Rightarrow> int \<times> int" where
  "row_part f A =
     (if f = Some ''GU_copy_pre_left'' then (0, amp_precols A)
      else if f = Some ''GU_copy_dat_left'' then (amp_precols A, amp_datacols A)
      else if f = Some ''GU_copy_pos_left'' then (amp_precols A + amp_datacols A, amp_postcols A)
      else if f = Some ''GU_copy_pos_right'' then (0, amp_postcols A)
      else if f = Some ''GU_copy_dat_right'' then (amp_postcols A, amp_datacols A)
      else (amp_postcols A + amp_datacols A, amp_precols A))"

definition row_syms :: "symptr set" where
  "row_syms = {Some ''GU_copy_pre_left'', Some ''GU_copy_dat_left'', Some ''GU_copy_pos_left'',
     Some ''GU_copy_pre_right'', Some ''GU_copy_dat_right'', Some ''GU_copy_pos_right''}"

text \<open>The bytes of a section of row \<open>y\<close>.\<close>

definition part_bytes :: "nat \<Rightarrow> symptr \<Rightarrow> amp_t \<Rightarrow> mem \<Rightarrow> nat \<Rightarrow> byte list" where
  "part_bytes b f A m y = (case row_part f A of (off, len) \<Rightarrow>
     rd m (dataptr A + (int y * amp_ncols A + off) * int b) (nat len * b))"

text \<open>The three sections of an amplifier fill its rows.\<close>

definition sectioned :: "amp_t \<Rightarrow> bool" where
  "sectioned A \<longleftrightarrow> 0 \<le> amp_precols A \<and> 0 \<le> amp_datacols A \<and> 0 \<le> amp_postcols A
     \<and> amp_ncols A = amp_precols A + amp_datacols A + amp_postcols A"

lemma row_part_range:
  assumes "sectioned A"
  shows "0 \<le> fst (row_part f A)" "0 \<le> snd (row_part f A)" "fst (row_part f A) + snd (row_part f A) \<le> amp_ncols A"
  using assms by (auto simp: row_part_def sectioned_def)

lemma row_routine_part:
  assumes "f \<in> row_syms"
  shows "\<exists>g. row_routine f = Some g \<and> (\<forall>ptr a row s. g ptr a row s
    = cp ptr (dataptr (g_amp s a)
          + to_i32 ((row * amp_ncols (g_amp s a) + fst (row_part f (g_amp s a))) * g_bytes_pp s))
        (to_i32 (snd (row_part f (g_amp s a)) * g_bytes_pp s)) s)"
  using assms unfolding row_syms_def
  by (elim insertE emptyE)
    (simp_all add: row_routine_def row_part_def Let_def add.assoc
      GU_copy_pre_left_def GU_copy_dat_left_def GU_copy_pos_left_def
      GU_copy_pre_right_def GU_copy_dat_right_def GU_copy_pos_right_def)

lemma call_row_result:
  assumes f: "f \<in> row_syms" and A: "A = g_amp s i" "sectioned A" and b: "g_bytes_pp s = int b"
    and y: "y < r" and size: "int r * amp_ncols A * int b < 2 ^ 31"
  shows "call_row f i (int y) (cur, s) = (case row_part f A of (off, len) \<Rightarrow>
     Some (cur + len * int b, s\<lparr>g_mem :=
       memcpy (g_mem s) cur (dataptr A + (int y * amp_ncols A + off) * int b) (len * int b)\<rparr>))"
proof -
  obtain off len where p: "row_part f A = (off, len)" by (cases "row_part f A")
  have off: "0 \<le> off" "0 \<le> len" "off + len \<le> amp_ncols A"
    using row_part_range [OF A(2), of f] by (simp_all add: p)
  have nc: "0 \<le> amp_ncols A" using off by linarith
  have "int y * amp_ncols A + (off + len) \<le> int r * amp_ncols A"
  proof -
    have "(int y + 1) * amp_ncols A \<le> int r * amp_ncols A" using y nc by (intro mult_right_mono) simp_all
    then show ?thesis using off by (simp add: distrib_right)
  qed
  then have "(int y * amp_ncols A + (off + len)) * int b \<le> int r * amp_ncols A * int b"
    by (rule mult_right_mono) simp
  then have lim: "(int y * amp_ncols A + off) * int b + len * int b < 2 ^ 31"
    using size by (simp add: distrib_right)
  have pos: "0 \<le> (int y * amp_ncols A + off) * int b" "0 \<le> len * int b" using off nc by simp_all
  have e: "to_i32 ((int y * amp_ncols A + off) * int b) = (int y * amp_ncols A + off) * int b"
    "to_i32 (len * int b) = len * int b"
    using pos lim by (auto intro!: to_i32_id)
  obtain g where "row_routine f = Some g" and "\<And>ptr. g ptr i (int y) s
    = cp ptr (dataptr A + to_i32 ((int y * amp_ncols A + off) * int b)) (to_i32 (len * int b)) s"
    using row_routine_part [OF f] by (auto simp: A(1) [symmetric] b p)
  then show ?thesis by (simp add: p call_row_def cp_def e)
qed

text \<open>Three copies one after the other into a buffer.\<close>

lemma rd_append: "rd m p (n + k) = rd m p n @ rd m (p + int n) k"
  by (rule nth_equalityI) (auto simp: nth_append)

lemma three_copies:
  fixes n1 n2 n3 :: nat
  assumes n_def: "n = n1 + n2 + n3"
    and m3_def: "m3 = memcpy (memcpy (memcpy m D s1 (int n1)) (D + int n1) s2 (int n2))
      (D + int n1 + int n2) s3 (int n3)"
    and "apart s1 (int n1) D (int n)" "apart s2 (int n2) D (int n)" "apart s3 (int n3) D (int n)"
  shows "rd m3 D n = rd m s1 n1 @ rd m s2 n2 @ rd m s3 n3"
    and "apart q (int l) D (int n) \<Longrightarrow> rd m3 q l = rd m q l"
proof -
  define m1 where "m1 = memcpy m D s1 (int n1)"
  define m2 where "m2 = memcpy m1 (D + int n1) s2 (int n2)"
  have m3: "m3 = memcpy m2 (D + int n1 + int n2) s3 (int n3)" by (simp add: m3_def m2_def m1_def)
  have fr1: "rd m1 q l = rd m q l" if "apart q (int l) D (int n)" for q l
    unfolding m1_def by (rule rd_memcpy_disj) (use that in \<open>auto simp: apart_def n_def\<close>)
  have fr2: "rd m2 q l = rd m q l" if "apart q (int l) D (int n)" for q l
    unfolding m2_def fr1 [OF that, symmetric]
    by (rule rd_memcpy_disj) (use that in \<open>auto simp: apart_def n_def\<close>)
  show fr3: "rd m3 q l = rd m q l" if "apart q (int l) D (int n)" for q l
    unfolding m3 fr2 [OF that, symmetric]
    by (rule rd_memcpy_disj) (use that in \<open>auto simp: apart_def n_def\<close>)
  have "rd m3 D n1 = rd m1 D n1"
    unfolding m3 m2_def by (subst rd_memcpy_disj, simp)+ simp
  then have a: "rd m3 D n1 = rd m s1 n1" by (simp add: m1_def rd_memcpy_same)
  have "rd m3 (D + int n1) n2 = rd m2 (D + int n1) n2"
    unfolding m3 by (rule rd_memcpy_disj) simp
  then have b: "rd m3 (D + int n1) n2 = rd m s2 n2"
    using fr1 [OF assms(4)] by (simp add: m2_def rd_memcpy_same)
  have c: "rd m3 (D + int n1 + int n2) n3 = rd m s3 n3"
    using fr2 [OF assms(5)] by (simp add: m3 rd_memcpy_same)
  show "rd m3 D n = rd m s1 n1 @ rd m s2 n2 @ rd m s3 n3"
    by (simp add: n_def add.assoc rd_append a b) (use c in \<open>simp add: add.assoc\<close>)
qed

definition row_bytes :: "nat \<Rightarrow> symptr \<times> symptr \<times> symptr \<Rightarrow> amp_t \<Rightarrow> mem \<Rightarrow> nat \<Rightarrow> byte list" where
  "row_bytes b fs A m y = (case fs of (f1, f2, f3) \<Rightarrow>
     part_bytes b f1 A m y @ part_bytes b f2 A m y @ part_bytes b f3 A m y)"

text \<open>A section order: its routines are row routines and their columns add up to a row.\<close>

definition full_order :: "symptr \<times> symptr \<times> symptr \<Rightarrow> amp_t \<Rightarrow> bool" where
  "full_order fs A \<longleftrightarrow> (case fs of (f1, f2, f3) \<Rightarrow> f1 \<in> row_syms \<and> f2 \<in> row_syms \<and> f3 \<in> row_syms
     \<and> snd (row_part f1 A) + snd (row_part f2 A) + snd (row_part f3 A) = amp_ncols A)"

lemma row_source_inside:
  assumes A: "sectioned A" and y: "y < r"
  shows "dataptr A \<le> dataptr A + (int y * amp_ncols A + fst (row_part f A)) * int b"
    "dataptr A + (int y * amp_ncols A + fst (row_part f A)) * int b + int (nat (snd (row_part f A)) * b)
      \<le> dataptr A + int (r * (nat (amp_ncols A) * b))"
proof -
  obtain off len where p: "row_part f A = (off, len)" by (cases "row_part f A")
  have off: "0 \<le> off" "0 \<le> len" "off + len \<le> amp_ncols A"
    using row_part_range [OF A, of f] by (simp_all add: p)
  have nc: "0 \<le> amp_ncols A" using off by linarith
  show "dataptr A \<le> dataptr A + (int y * amp_ncols A + fst (row_part f A)) * int b"
    using off nc by (simp add: p)
  have "(int y + 1) * amp_ncols A \<le> int r * amp_ncols A" using y nc by (intro mult_right_mono) simp_all
  then have "int y * amp_ncols A + off + len \<le> int r * amp_ncols A" using off by (simp add: distrib_right)
  then have "(int y * amp_ncols A + off + len) * int b \<le> int r * amp_ncols A * int b"
    by (rule mult_right_mono) simp
  then show "dataptr A + (int y * amp_ncols A + fst (row_part f A)) * int b + int (nat (snd (row_part f A)) * b)
      \<le> dataptr A + int (r * (nat (amp_ncols A) * b))"
    using off nc by (simp add: p algebra_simps)
qed

lemma row_turn:
  fixes b r y :: nat
  assumes W_def: "W = nat (amp_ncols A) * b" and A: "A = g_amp s i" "sectioned A" and fo: "full_order (f1, f2, f3) A"
    and b: "g_bytes_pp s = int b" and y: "y < r" and size: "r * W < 2 ^ 31"
    and buf: "apart (dataptr A) (int (r * W)) cur (int W)"
  shows "\<exists>m'. Option.bind (call_row f1 i (int y) (cur, s)) (\<lambda>st.
        Option.bind (call_row f2 i (int y) st) (call_row f3 i (int y))) = Some (cur + int W, s\<lparr>g_mem := m'\<rparr>)
    \<and> rd m' cur W = row_bytes b (f1, f2, f3) A (g_mem s) y
    \<and> (\<forall>q l. apart q (int l) cur (int W) \<longrightarrow> rd m' q l = rd (g_mem s) q l)"
proof -
  obtain o1 l1 o2 l2 o3 l3 where p: "row_part f1 A = (o1, l1)" "row_part f2 A = (o2, l2)" "row_part f3 A = (o3, l3)"
    by (cases "row_part f1 A", cases "row_part f2 A", cases "row_part f3 A") auto
  have f: "f1 \<in> row_syms" "f2 \<in> row_syms" "f3 \<in> row_syms" and sum: "l1 + l2 + l3 = amp_ncols A"
    using fo by (simp_all add: full_order_def p)
  have l0: "0 \<le> l1" "0 \<le> l2" "0 \<le> l3"
    using row_part_range(2) [OF A(2), of f1] row_part_range(2) [OF A(2), of f2] row_part_range(2) [OF A(2), of f3]
    by (simp_all add: p)
  define n1 n2 n3 where "n1 = nat l1 * b" and "n2 = nat l2 * b" and "n3 = nat l3 * b"
  have nn: "l1 * int b = int n1" "l2 * int b = int n2" "l3 * int b = int n3"
    using l0 by (simp_all add: n1_def n2_def n3_def)
  have W: "W = n1 + n2 + n3"
    using l0 by (simp add: W_def n1_def n2_def n3_def sum [symmetric] nat_add_distrib distrib_right)
  define src where "src = (\<lambda>o'. dataptr A + (int y * amp_ncols A + o') * int b)"
  have "0 \<le> amp_ncols A" using l0 sum by linarith
  then have sz: "int r * amp_ncols A * int b < 2 ^ 31"
  proof -
    have "int r * amp_ncols A * int b = int (r * W)"
      using \<open>0 \<le> amp_ncols A\<close> by (simp add: W_def mult.assoc)
    moreover have "int (r * W) < 2 ^ 31" using size by (simp del: of_nat_mult)
    ultimately show ?thesis by (simp only:)
  qed
  have call: "call_row f i (int y) (cur', s\<lparr>g_mem := m\<rparr>)
      = Some (cur' + len * int b, s\<lparr>g_mem := memcpy m cur' (src off) (len * int b)\<rparr>)"
    if "f \<in> row_syms" "row_part f A = (off, len)" for f off len cur' m
    using call_row_result [OF that(1), of A "s\<lparr>g_mem := m\<rparr>" i b y r cur'] A b y sz that(2)
    by (simp add: src_def)
  have ap: "apart (src (fst (row_part f A))) (int (nat (snd (row_part f A)) * b)) cur (int W)" for f
    unfolding src_def
    by (rule apart_sub [OF buf]) (use row_source_inside [OF A(2) y, of f b] in \<open>simp_all add: W_def\<close>)
  have aps: "apart (src o1) (int n1) cur (int W)" "apart (src o2) (int n2) cur (int W)"
    "apart (src o3) (int n3) cur (int W)"
    using ap [of f1] ap [of f2] ap [of f3] by (simp_all only: p fst_conv snd_conv n1_def n2_def n3_def)
  define m' where "m' = memcpy (memcpy (memcpy (g_mem s) cur (src o1) (int n1)) (cur + int n1) (src o2) (int n2))
      (cur + int n1 + int n2) (src o3) (int n3)"
  note tc = three_copies [OF W m'_def aps]
  have "Option.bind (call_row f1 i (int y) (cur, s)) (\<lambda>st.
        Option.bind (call_row f2 i (int y) st) (call_row f3 i (int y))) = Some (cur + int W, s\<lparr>g_mem := m'\<rparr>)"
    using call [OF f(1) p(1), of cur "g_mem s"]
    by (simp add: call [OF f(2) p(2)] call [OF f(3) p(3)] nn m'_def W add.assoc)
  moreover have "rd m' cur W = row_bytes b (f1, f2, f3) A (g_mem s) y"
    using tc(1) by (simp add: row_bytes_def part_bytes_def p src_def n1_def n2_def n3_def)
  moreover have "rd m' q l = rd (g_mem s) q l" if "apart q (int l) cur (int W)" for q l
    using tc(2) [OF that] .
  ultimately show ?thesis by blast
qed

lemma arrange_rows_result:
  assumes W_def: "W = nat (amp_ncols A) * b" and A: "A = g_amp s i" "sectioned A" and fo: "full_order fs A"
    and b: "g_bytes_pp s = int b" and size: "r * W < 2 ^ 31" and base: "g_ampbufptr s = base"
    and buf: "apart (dataptr A) (int (r * W)) base (int (r * W))"
  shows "\<exists>m'. arrange_rows fs (int r) (int (r * W)) i s = Some (s\<lparr>g_mem := m'\<rparr>)
    \<and> (\<forall>y < r. rd m' (dataptr A + int W * int y) W = row_bytes b fs A (g_mem s) y)
    \<and> (\<forall>q l. apart q (int l) base (int (r * W)) \<and> apart q (int l) (dataptr A) (int (r * W))
        \<longrightarrow> rd m' q l = rd (g_mem s) q l)"
proof -
  obtain f1 f2 f3 where fs: "fs = (f1, f2, f3)" by (cases fs)
  define body where "body = (\<lambda>y st. Option.bind (call_row f1 i (int y) st) (\<lambda>st.
        Option.bind (call_row f2 i (int y) st) (call_row f3 i (int y))))"
  define P where "P = (\<lambda>y (cur, t). \<exists>m. t = s\<lparr>g_mem := m\<rparr> \<and> cur = base + int W * int y
    \<and> (\<forall>z < y. rd m (base + int W * int z) W = row_bytes b fs A (g_mem s) z)
    \<and> (\<forall>q l. apart q (int l) base (int (r * W)) \<longrightarrow> rd m q l = rd (g_mem s) q l))"
  have slot: "base \<le> base + int W * int y" "base + int W * int y + int W \<le> base + int (r * W)" if "y < r" for y
    using ll.pos_inside [of y r 1 base W] that by (simp_all add: pos_LL_def mult.commute)
  have "\<exists>st. for_opt r body (base, s) = Some st \<and> P r st"
  proof (rule for_opt_invariant)
    show "P 0 (base, s)" by (auto simp: P_def intro: exI [of _ "g_mem s"])
  next
    fix y and st :: "int \<times> gu"
    assume y: "y < r" and "P y st"
    then obtain m where st: "st = (base + int W * int y, s\<lparr>g_mem := m\<rparr>)"
      and rows: "\<forall>z < y. rd m (base + int W * int z) W = row_bytes b fs A (g_mem s) z"
      and fr: "\<forall>q l. apart q (int l) base (int (r * W)) \<longrightarrow> rd m q l = rd (g_mem s) q l"
      unfolding P_def by (cases st) auto
    have cur: "apart (dataptr A) (int (r * W)) (base + int W * int y) (int W)"
      using apart_sub [OF buf [unfolded apart_commute [of "dataptr A"]] slot [OF y]] by (simp only: apart_commute)
    obtain m' where turn: "body y st = Some (base + int W * int y + int W, s\<lparr>g_mem := m'\<rparr>)"
      and new: "rd m' (base + int W * int y) W = row_bytes b fs A m y"
      and fr': "\<forall>q l. apart q (int l) (base + int W * int y) (int W) \<longrightarrow> rd m' q l = rd m q l"
      using row_turn [OF W_def, of "s\<lparr>g_mem := m\<rparr>" i f1 f2 f3 y r "base + int W * int y"]
        A fo [unfolded fs] b y size cur by (auto simp: body_def st fs)
    have same: "row_bytes b fs A m y = row_bytes b fs A (g_mem s) y"
    proof -
      have "part_bytes b f A m y = part_bytes b f A (g_mem s) y" for f
      proof -
        have "apart (dataptr A + (int y * amp_ncols A + fst (row_part f A)) * int b)
            (int (nat (snd (row_part f A)) * b)) base (int (r * W))"
          by (rule apart_sub [OF buf]) (use row_source_inside [OF A(2) y, of f b] in \<open>simp_all add: W_def\<close>)
        then show ?thesis using fr by (simp only: part_bytes_def prod.case_eq_if)
      qed
      then show ?thesis by (simp add: row_bytes_def fs)
    qed
    have "P (Suc y) (base + int W * int y + int W, s\<lparr>g_mem := m'\<rparr>)"
      unfolding P_def prod.case
    proof (intro exI conjI allI impI)
      show "base + int W * int y + int W = base + int W * int (Suc y)" by (simp add: algebra_simps)
    next
      fix z
      assume z: "z < Suc y"
      show "rd m' (base + int W * int z) W = row_bytes b fs A (g_mem s) z"
      proof (cases "z = y")
        case True
        then show ?thesis using new same by simp
      next
        case False
        have "apart (base + int W * int (pos_LL r 1 z)) (int W) (base + int W * int (pos_LL r 1 y)) (int W)"
          by (rule ll.pos_apart) (use z y False in simp_all)
        then show ?thesis using rows fr' z False by (simp add: pos_LL_def)
      qed
    next
      fix q l
      assume q: "apart q (int l) base (int (r * W))"
      have "apart q (int l) (base + int W * int y) (int W)"
        using apart_sub [OF q [unfolded apart_commute [of q]] slot [OF y]] by (simp only: apart_commute)
      then show "rd m' q l = rd (g_mem s) q l" using fr fr' q by simp
    qed (rule refl)
    then show "\<exists>st'. body y st = Some st' \<and> P (Suc y) st'" using turn by blast
  qed
  then obtain cur m where loop: "for_opt r body (base, s) = Some (cur, s\<lparr>g_mem := m\<rparr>)"
    and rows: "\<forall>z < r. rd m (base + int W * int z) W = row_bytes b fs A (g_mem s) z"
    and fr: "\<forall>q l. apart q (int l) base (int (r * W)) \<longrightarrow> rd m q l = rd (g_mem s) q l"
    unfolding P_def by auto
  define m' where "m' = memcpy m (dataptr A) base (int (r * W))"
  have "arrange_rows fs (int r) (int (r * W)) i s = Some (s\<lparr>g_mem := m'\<rparr>)"
    using loop base A(1) by (simp add: arrange_rows_def fs body_def m'_def)
  moreover have "rd m' (dataptr A + int W * int y) W = row_bytes b fs A (g_mem s) y" if "y < r" for y
  proof -
    have "rd m' (dataptr A + int W * int y) W = rd m (base + (dataptr A + int W * int y - dataptr A)) W"
      unfolding m'_def
      by (rule rd_memcpy_inside) (use ll.pos_inside [of y r 1 "dataptr A" W] that in \<open>simp_all add: pos_LL_def mult.commute\<close>)
    then show ?thesis using rows that by simp
  qed
  moreover have "rd m' q l = rd (g_mem s) q l"
    if "apart q (int l) base (int (r * W))" "apart q (int l) (dataptr A) (int (r * W))" for q l
    using fr [rule_format, OF that(1)] that(2) rd_memcpy_disj [of q l "dataptr A" "int (r * W)" m base]
    by (simp add: m'_def apart_def)
  ultimately show ?thesis by blast
qed

lemma side_order:
  assumes "{n1, n2, n3} \<subseteq> {''pre'', ''dat'', ''pos''}" "distinct [n1, n2, n3]"
    and "side \<in> {''_left'', ''_right''}" "sectioned A"
  shows "full_order (Some (sect_name n1 side), Some (sect_name n2 side), Some (sect_name n3 side)) A"
proof -
  have "n1 \<in> {''pre'', ''dat'', ''pos''}" "n2 \<in> {''pre'', ''dat'', ''pos''}" "n3 \<in> {''pre'', ''dat'', ''pos''}"
    using assms(1) by simp_all
  then show ?thesis
    using assms(2-4)
    by (elim insertE emptyE)
      (simp_all add: full_order_def row_syms_def row_part_def sect_name_def sectioned_def)
qed


text \<open>Rows of one prescan, two data and one overscan pixel, read as data, overscan, prescan.\<close>

definition demo_arrange :: gu where
  "demo_arrange = gu_init\<lparr>g_bytes_pp := 1, g_ampbufptr := 300, g_mem := (\<lambda>a. of_int a),
     g_amp := (\<lambda>_. amp_zero\<lparr>amp_ncols := 4, amp_precols := 1, amp_datacols := 2, amp_postcols := 1,
        dataptr := 100\<rparr>)\<rparr>"

lemma demo_arrange_simps:
  "g_bytes_pp demo_arrange = 1" "g_ampbufptr demo_arrange = 300" "g_mem demo_arrange = (\<lambda>a. of_int a)"
    "dataptr (g_amp demo_arrange 0) = 100" "amp_ncols (g_amp demo_arrange 0) = 4"
    "amp_precols (g_amp demo_arrange 0) = 1" "amp_datacols (g_amp demo_arrange 0) = 2"
    "amp_postcols (g_amp demo_arrange 0) = 1"
  by (simp_all add: demo_arrange_def)


text \<open>The natural order (prescan, data, overscan on the left; overscan, data, prescan on
  the right) leaves the amplifier's data as it was.\<close>

theorem arrange_rows_natural_order:
  assumes A: "A = g_amp s i" "sectioned A"
    and fs: "fs \<in> {(Some ''GU_copy_pre_left'', Some ''GU_copy_dat_left'', Some ''GU_copy_pos_left''),
                   (Some ''GU_copy_pos_right'', Some ''GU_copy_dat_right'', Some ''GU_copy_pre_right'')}"
    and b: "g_bytes_pp s = int b" and W: "W = nat (amp_ncols A) * b" and size: "r * W < 2 ^ 31"
    and buf: "apart (dataptr A) (int (r * W)) (g_ampbufptr s) (int (r * W))"
  shows "\<exists>m'. arrange_rows fs (int r) (int (r * W)) i s = Some (s\<lparr>g_mem := m'\<rparr>)
    \<and> rd m' (dataptr A) (r * W) = rd (g_mem s) (dataptr A) (r * W)"
proof -
  have "full_order fs A"
    using fs A(2)
    by (elim insertE emptyE) (simp_all add: full_order_def row_syms_def row_part_def sectioned_def)
  then obtain m' where m': "arrange_rows fs (int r) (int (r * W)) i s = Some (s\<lparr>g_mem := m'\<rparr>)"
    and rows: "\<And>y. y < r \<Longrightarrow> rd m' (dataptr A + int W * int y) W = row_bytes b fs A (g_mem s) y"
    using arrange_rows_result [OF W A _ b size refl buf] by blast
  have whole: "row_bytes b fs A (g_mem s) y = rd (g_mem s) (dataptr A + int W * int y) W" for y
  proof -
    have sec: "0 \<le> amp_precols A" "0 \<le> amp_datacols A" "0 \<le> amp_postcols A"
      "amp_ncols A = amp_precols A + amp_datacols A + amp_postcols A"
      using A(2) by (simp_all add: sectioned_def)
    define D where "D = dataptr A + int W * int y"
    have iw: "int W = amp_ncols A * int b" using sec by (simp add: W)
    have wy: "int W * int y = int y * amp_ncols A * int b" unfolding iw by (simp only: ac_simps)
    have e: "dataptr A + (int y * amp_ncols A + off) * int b = D + off * int b" for off
      unfolding D_def wy distrib_right by simp
    have "0 \<le> u \<Longrightarrow> int (nat u * b) = u * int b" for u by simp
    note len = this [OF sec(1)] this [OF sec(2)] this [OF sec(3)]
    consider "fs = (Some ''GU_copy_pre_left'', Some ''GU_copy_dat_left'', Some ''GU_copy_pos_left'')"
      | "fs = (Some ''GU_copy_pos_right'', Some ''GU_copy_dat_right'', Some ''GU_copy_pre_right'')"
      using fs by blast
    then show ?thesis
    proof cases
      case 1
      have "W = nat (amp_precols A) * b + (nat (amp_datacols A) * b + nat (amp_postcols A) * b)"
        using sec by (simp add: W nat_add_distrib distrib_right)
      then show ?thesis
        unfolding D_def [symmetric]
        by (simp add: 1 row_bytes_def part_bytes_def row_part_def e e [of 0, simplified] rd_append len
            del: of_nat_mult) (simp add: distrib_right add.assoc)
    next
      case 2
      have "W = nat (amp_postcols A) * b + (nat (amp_datacols A) * b + nat (amp_precols A) * b)"
        using sec by (simp add: W nat_add_distrib distrib_right)
      then show ?thesis
        unfolding D_def [symmetric]
        by (simp add: 2 row_bytes_def part_bytes_def row_part_def e e [of 0, simplified] rd_append len
            del: of_nat_mult) (simp add: distrib_right add.assoc)
    qed
  qed
  have "rd m' (dataptr A) (W * r) = rd (g_mem s) (dataptr A) (W * r)"
    by (rule rd_pixels) (simp add: rows whole)
  then show ?thesis using m' by (simp only: mult.commute [of r W]) blast
qed

theorem arrange_rows_natural_order_witness:
  "\<exists>m'. arrange_rows (Some ''GU_copy_pre_left'', Some ''GU_copy_dat_left'', Some ''GU_copy_pos_left'')
      2 8 0 demo_arrange = Some (demo_arrange\<lparr>g_mem := m'\<rparr>)
    \<and> rd m' 100 8 = [100, 101, 102, 103, 104, 105, 106, 107]"
proof -
  have "\<exists>m'. arrange_rows (Some ''GU_copy_pre_left'', Some ''GU_copy_dat_left'', Some ''GU_copy_pos_left'')
      (int 2) (int (2 * 4)) 0 demo_arrange = Some (demo_arrange\<lparr>g_mem := m'\<rparr>)
    \<and> rd m' (dataptr (g_amp demo_arrange 0)) (2 * 4) = rd (g_mem demo_arrange) (dataptr (g_amp demo_arrange 0)) (2 * 4)"
    by (rule arrange_rows_natural_order [of _ demo_arrange 0 _ 1]) (simp_all add: demo_arrange_simps sectioned_def apart_def)
  then show ?thesis by (simp add: demo_arrange_simps rd_def upt_rec)
qed

end
