(* ===== verification/Allocator.thy ===== *)
theory Allocator imports Prelude
begin

text \<open>
  The high-memory allocator of the buffer manager, \<open>PAN/Modules/Common/Clib/src/allocator.c\<close>.
  The list of regions, kept sorted by address between a head and a tail cell, is a HOL list of
  pairs (address, size); \<open>unsigned long\<close> is an \<open>int\<close> reduced modulo \<open>2^64\<close>.  \<open>None\<close> is a null
  pointer dereference.

  Parameters: \<open>kmalloc\<close> (does it deliver), \<open>remap\<close> (does \<open>ioremap\<close> map that many bytes),
  \<open>works\<close> (does memory at that offset hold what is written) and \<open>high\<close>, the physical
  address of \<open>high_memory\<close>.
\<close>

text \<open>\<open>PAGE_ALIGN\<close> with pages of 4096 bytes.\<close>

definition page_align :: "int \<Rightarrow> int" where
  "page_align b = to_u64 (to_u64 (b + 4095) div 4096 * 4096)"

type_synonym region = "int \<times> int"

record alloc =
  al_himem :: int
  al_buffer :: int
  al_size :: int
  al_list :: "region list"

definition alloc_start :: "int \<Rightarrow> alloc" where
  "alloc_start himem = \<lparr>al_himem = himem, al_buffer = 0, al_size = 0, al_list = []\<rparr>"

text \<open>The search loop and the insertion after the cell it stops at.\<close>

fun find_gap :: "int \<Rightarrow> region list \<Rightarrow> (int \<times> region list) option" where
  "find_gap bytes (p # q # rest) =
     (if to_u64 (fst q - to_u64 (fst p + snd p)) \<ge> bytes
      then (let a = to_u64 (fst p + snd p) in Some (a, p # (a, bytes) # q # rest))
      else map_option (\<lambda>(a, l). (a, p # l)) (find_gap bytes (q # rest)))"
| "find_gap bytes _ = None"

definition allocator_allocate_dma :: "bool \<Rightarrow> int \<Rightarrow> alloc \<Rightarrow> (int \<times> alloc) option" where
  "allocator_allocate_dma kmalloc kilobytes s =
     (if al_buffer s = 0 then Some (0, s)
      else if al_list s = [] then None
      else (case find_gap (page_align (to_u64 (kilobytes * 1024))) (al_list s) of
              None \<Rightarrow> Some (0, s)
            | Some (a, l) \<Rightarrow> if \<not> kmalloc then Some (0, s) else Some (a, s\<lparr>al_list := l\<rparr>)))"

fun free_next :: "int \<Rightarrow> region list \<Rightarrow> region list option" where
  "free_next address (p # q # rest) =
     (if fst q = address then Some (p # rest)
      else map_option ((#) p) (free_next address (q # rest)))"
| "free_next address _ = None"

text \<open>When no cell matches, the error message itself reads \<open>ptr->address\<close> with \<open>ptr\<close> null.\<close>

definition allocator_free_dma :: "int \<Rightarrow> alloc \<Rightarrow> (int \<times> alloc) option" where
  "allocator_free_dma address s =
     map_option (\<lambda>l. (0, s\<lparr>al_list := l\<rparr>)) (free_next address (al_list s))"

text \<open>The memory test: from offset \<open>i\<close>, at most \<open>n\<close> steps of 16 bytes.\<close>

fun probe :: "(int \<Rightarrow> bool) \<Rightarrow> int \<Rightarrow> nat \<Rightarrow> int" where
  "probe works i 0 = i"
| "probe works i (Suc n) = (if works i then probe works (i + 16) n else i)"

text \<open>The loop of \<open>allocator_init\<close> with fuel: \<open>i\<close> after it.  64 turns are enough, \<open>trial_size\<close>
  being 0 after 44 doublings.\<close>

primrec trial :: "nat \<Rightarrow> (int \<Rightarrow> bool) \<Rightarrow> (int \<Rightarrow> bool) \<Rightarrow> bool \<Rightarrow> int \<Rightarrow> int \<Rightarrow> int \<Rightarrow> int option" where
  "trial 0 remap works step last_trial trial_size i = None"
| "trial (Suc fuel) remap works step last_trial trial_size i =
     (if \<not> remap trial_size then Some i
      else (let i' = probe works last_trial (nat ((trial_size - last_trial + 15) div 16)) in
        if i' = trial_size \<and> step
        then trial fuel remap works step trial_size (to_u64 (trial_size * 2)) i'
        else Some i'))"

text \<open>The end of \<open>allocator_init\<close>, with \<open>i\<close> bytes found.\<close>

definition alloc_install :: "int \<Rightarrow> bool \<Rightarrow> bool \<Rightarrow> alloc \<Rightarrow> int \<Rightarrow> int \<times> alloc" where
  "alloc_install high kmalloc1 kmalloc2 s i =
     (let s1 = s\<lparr>al_size := i div 1024, al_buffer := high\<rparr> in
      if al_size s1 = 0 then (- ENOMEM, s1)
      else if \<not> kmalloc1 then (- ENOMEM, s1)
      else if \<not> kmalloc2 then (- ENOMEM, s1)
      else (0, s1\<lparr>al_list := [(high, 0), (to_u64 (high + to_u64 (al_size s1 * 1024)), 0)]\<rparr>))"

definition allocator_init ::
  "(int \<Rightarrow> bool) \<Rightarrow> (int \<Rightarrow> bool) \<Rightarrow> int \<Rightarrow> bool \<Rightarrow> bool \<Rightarrow> alloc \<Rightarrow> (int \<times> alloc) option" where
  "allocator_init remap works high kmalloc1 kmalloc2 s =
     (if al_himem s < 0 then Some (- EINVAL, s)
      else (let t0 = to_u64 (to_i32 (al_himem s * 2 ^ 20));
                trial_size = (if t0 = 0 then 2 ^ 20 else t0) in
        map_option (alloc_install high kmalloc1 kmalloc2 s)
          (trial 64 remap works (al_himem s = 0) 0 trial_size 0)))"

definition allocator_cleanup :: "alloc \<Rightarrow> alloc" where
  "allocator_cleanup s = s\<lparr>al_buffer := 0, al_size := 0, al_list := []\<rparr>"

definition getas_alloc :: "alloc \<Rightarrow> int \<times> int" where
  "getas_alloc s = (al_buffer s, al_size s)"

section \<open>The invariant\<close>

text \<open>Consecutive cells do not overlap and stay below \<open>2^64\<close>.\<close>

fun chain :: "region list \<Rightarrow> bool" where
  "chain (p # q # rest) \<longleftrightarrow> 0 \<le> fst p \<and> 0 \<le> snd p \<and> fst p + snd p \<le> fst q \<and> chain (q # rest)"
| "chain [p] \<longleftrightarrow> 0 \<le> fst p \<and> 0 \<le> snd p \<and> fst p + snd p < 2 ^ 64"
| "chain [] \<longleftrightarrow> True"

lemma chain_Cons:
  "l \<noteq> [] \<Longrightarrow> chain (p # l) \<longleftrightarrow> 0 \<le> fst p \<and> 0 \<le> snd p \<and> fst p + snd p \<le> fst (hd l) \<and> chain l"
  by (cases l) simp_all

lemma chain_bounds:
  "chain (p # l) \<Longrightarrow> q \<in> set l \<Longrightarrow> fst p + snd p \<le> fst q"
  "chain l \<Longrightarrow> q \<in> set l \<Longrightarrow> 0 \<le> fst q \<and> 0 \<le> snd q \<and> fst q + snd q < 2 ^ 64"
proof -
  have low: "chain (p # l) \<Longrightarrow> \<forall>q \<in> set l. fst p + snd p \<le> fst q \<and> 0 \<le> snd q" for p l
  proof (induction l arbitrary: p)
    case Nil
    show ?case by simp
  next
    case (Cons q l)
    then have "\<forall>r \<in> set l. fst q + snd q \<le> fst r \<and> 0 \<le> snd r" using Cons.IH [of q] by auto
    moreover have "fst p + snd p \<le> fst q" "0 \<le> snd q" using Cons.prems by (cases l; simp)+
    ultimately show ?case by auto
  qed
  show "chain (p # l) \<Longrightarrow> q \<in> set l \<Longrightarrow> fst p + snd p \<le> fst q" using low by blast
  have "chain l \<Longrightarrow> \<forall>q \<in> set l. 0 \<le> fst q \<and> 0 \<le> snd q \<and> fst q + snd q < 2 ^ 64"
    by (induction l rule: chain.induct) auto
  then show "chain l \<Longrightarrow> q \<in> set l \<Longrightarrow> 0 \<le> fst q \<and> 0 \<le> snd q \<and> fst q + snd q < 2 ^ 64" by blast
qed

lemma find_gap_Some:
  assumes "chain l" "0 \<le> bytes" "find_gap bytes l = Some (a, l')"
  shows "chain l' \<and> (\<exists>l1 p q l2. l = l1 @ p # q # l2 \<and> l' = l1 @ p # (a, bytes) # q # l2
    \<and> a = fst p + snd p \<and> a + bytes \<le> fst q)"
  using assms
proof (induction bytes l arbitrary: a l' rule: find_gap.induct)
  case (1 bytes p q rest)
  have lim: "0 \<le> fst p + snd p" "fst p + snd p \<le> fst q" "fst q < 2 ^ 64"
    using 1(2) chain_bounds(2) [OF 1(2), of q] by auto
  then have w: "to_u64 (fst p + snd p) = fst p + snd p"
    "to_u64 (fst q - (fst p + snd p)) = fst q - (fst p + snd p)"
    by (auto intro!: to_u64_id)
  show ?case
  proof (cases "fst q - (fst p + snd p) \<ge> bytes")
    case True
    then have l': "a = fst p + snd p" "l' = p # (a, bytes) # q # rest"
      using 1(4) by (auto simp: w Let_def)
    have "chain l'" using 1(2,3) True lim by (simp add: l')
    moreover have "p # q # rest = [] @ p # q # rest" "l' = [] @ p # (a, bytes) # q # rest" "a + bytes \<le> fst q"
      using True by (simp_all add: l')
    ultimately show ?thesis using l'(1) by blast
  next
    case False
    then obtain l'' where f: "find_gap bytes (q # rest) = Some (a, l'')" and l': "l' = p # l''"
      using 1(4) by (auto simp: w)
    have "chain (q # rest)" using 1(2) by simp
    then have IH: "chain l''" "\<exists>l1 p' q' l2. q # rest = l1 @ p' # q' # l2 \<and> l'' = l1 @ p' # (a, bytes) # q' # l2
        \<and> a = fst p' + snd p' \<and> a + bytes \<le> fst q'"
      using 1(1) [OF _ _ 1(3) f] False w by auto
    then obtain l1 p' q' l2 where d: "q # rest = l1 @ p' # q' # l2" "l'' = l1 @ p' # (a, bytes) # q' # l2"
      "a = fst p' + snd p'" "a + bytes \<le> fst q'" by blast
    have "hd l'' = q" "l'' \<noteq> []" using d(1,2) by (cases l1; simp)+
    then have "chain l'" using IH(1) 1(2) by (simp add: l' chain_Cons)
    moreover have "p # q # rest = (p # l1) @ p' # q' # l2" "l' = (p # l1) @ p' # (a, bytes) # q' # l2"
      using d l' by simp_all
    ultimately show ?thesis using d(3,4) by blast
  qed
qed simp_all

lemma free_next_Some:
  assumes "chain l" "free_next address l = Some l'"
  shows "chain l' \<and> (\<exists>l1 q l2. l = l1 @ q # l2 \<and> l1 \<noteq> [] \<and> l' = l1 @ l2 \<and> fst q = address)"
  using assms
proof (induction address l arbitrary: l' rule: free_next.induct)
  case (1 address p q rest)
  show ?case
  proof (cases "fst q = address")
    case True
    have "chain (p # rest)"
      using 1(2) by (cases rest) (auto dest: chain_bounds(1) [of p "q # rest"])
    moreover have "l' = p # rest" using 1(3) True by simp
    moreover from this have "p # q # rest = [p] @ q # rest \<and> [p] \<noteq> [] \<and> l' = [p] @ rest \<and> fst q = address"
      using True by simp
    ultimately show ?thesis by blast
  next
    case False
    then obtain l'' where f: "free_next address (q # rest) = Some l''" "l' = p # l''"
      using 1(3) by auto
    then have IH: "chain l''" "\<exists>l1 q' l2. q # rest = l1 @ q' # l2 \<and> l1 \<noteq> [] \<and> l'' = l1 @ l2 \<and> fst q' = address"
      using 1(1) [OF False _ f(1)] 1(2) by auto
    then obtain l1 q' l2 where d: "q # rest = l1 @ q' # l2" "l1 \<noteq> []" "l'' = l1 @ l2" "fst q' = address" by blast
    then have "hd l'' = q" "l'' \<noteq> []" by (cases l1; auto)+
    then have "chain l'" using IH(1) 1(2) by (simp add: f(2) chain_Cons)
    moreover have "p # q # rest = (p # l1) @ q' # l2" "p # l1 \<noteq> []" "l' = (p # l1) @ l2"
      using d f by simp_all
    ultimately show ?thesis using d(4) by blast
  qed
qed simp_all

text \<open>What every reachable state satisfies: once the list exists it is a chain inside the high
  memory buffer.\<close>

definition alloc_inv :: "alloc \<Rightarrow> bool" where
  "alloc_inv s \<longleftrightarrow> al_list s = [] \<or>
     (chain (al_list s) \<and> fst (hd (al_list s)) = al_buffer s
      \<and> (\<forall>q \<in> set (al_list s). fst q + snd q \<le> al_buffer s + al_size s * 1024))"

lemma page_align_bounds:
  assumes "0 \<le> b" "b < 2 ^ 63"
  shows "b \<le> page_align b" "page_align b < b + 4096" "page_align b mod 4096 = 0"
proof -
  have "to_u64 (b + 4095) = b + 4095" using assms by (simp add: to_u64_id)
  moreover have "(b + 4095) div 4096 * 4096 \<le> b + 4095" by simp
  moreover have "0 \<le> (b + 4095) div 4096 * 4096" using assms by (simp add: pos_imp_zdiv_nonneg_iff)
  ultimately have e: "page_align b = (b + 4095) div 4096 * 4096"
    using assms unfolding page_align_def by (simp only:) (rule to_u64_id, simp_all)
  also have "\<dots> = b + 4095 - (b + 4095) mod 4096" by (simp add: minus_mod_eq_div_mult)
  finally have e2: "page_align b = b + 4095 - (b + 4095) mod 4096" .
  have "0 \<le> (b + 4095) mod 4096" "(b + 4095) mod 4096 < 4096" by simp_all
  then show "b \<le> page_align b" "page_align b < b + 4096" using e2 by linarith+
  show "page_align b mod 4096 = 0" by (simp add: e)
qed

lemma page_align_nonneg: "0 \<le> page_align b"
  by (simp add: page_align_def to_u64_def)

text \<open>C26: a successful allocation returns the address of a region of the high-memory buffer
  that holds the requested bytes and overlaps no region allocated before; the list stays
  sorted and within the buffer.\<close>

theorem allocator_allocates_disjoint:
  assumes inv: "alloc_inv s" and got: "allocator_allocate_dma km kb s = Some (a, s')" "a \<noteq> 0"
    and kb: "0 \<le> kb" "kb < 2 ^ 53"
  shows "\<exists>n. kb * 1024 \<le> n \<and> al_buffer s \<le> a \<and> a + n \<le> al_buffer s + al_size s * 1024
    \<and> set (al_list s') = insert (a, n) (set (al_list s)) \<and> alloc_inv s'
    \<and> list_all (\<lambda>q. fst q + snd q \<le> a \<or> a + n \<le> fst q) (al_list s)"
proof -
  define n where "n = page_align (kb * 1024)"
  have kb': "to_u64 (kb * 1024) = kb * 1024" using kb by (simp add: to_u64_id)
  have n: "kb * 1024 \<le> n" "0 \<le> n"
    using page_align_bounds(1) [of "kb * 1024"] kb by (simp_all add: n_def)
  obtain l' where f: "find_gap n (al_list s) = Some (a, l')" and s': "s' = s\<lparr>al_list := l'\<rparr>"
    and ne: "al_list s \<noteq> []"
    using got by (auto simp: allocator_allocate_dma_def kb' n_def split: if_splits option.splits)
  have c: "chain (al_list s)" "fst (hd (al_list s)) = al_buffer s"
    "\<forall>q \<in> set (al_list s). fst q + snd q \<le> al_buffer s + al_size s * 1024"
    using inv ne by (auto simp: alloc_inv_def)
  obtain l1 p q l2 where d: "al_list s = l1 @ p # q # l2" "l' = l1 @ p # (a, n) # q # l2"
    "a = fst p + snd p" "a + n \<le> fst q" and c': "chain l'"
    using find_gap_Some [OF c(1) n(2) f] by blast
  have q: "fst q \<le> al_buffer s + al_size s * 1024"
    using c(3) chain_bounds(2) [OF c(1), of q] by (force simp: d(1))
  have sub: "chain (q # l2)" and pre: "\<forall>r \<in> set (l1 @ [p]). fst r + snd r \<le> a"
  proof -
    have tail: "chain (u @ v) \<Longrightarrow> v \<noteq> [] \<Longrightarrow> chain v" for u v
      by (induction u) (auto simp: chain_Cons)
    show "chain (q # l2)" using tail [of "l1 @ [p]" "q # l2"] c(1) by (simp add: d(1))
    have "chain (u @ v # w) \<Longrightarrow> r \<in> set u \<Longrightarrow> fst r + snd r \<le> fst v" for u v w r
    proof (induction u)
      case (Cons x u)
      then show ?case using chain_bounds(1) [of x "u @ v # w" v] by (auto simp: chain_Cons)
    qed simp
    from this [of "l1 @ [p]" "(a, n)" "q # l2"] show "\<forall>r \<in> set (l1 @ [p]). fst r + snd r \<le> a"
      using c' by (simp add: d(2))
  qed
  have post: "\<forall>r \<in> set (q # l2). a + n \<le> fst r"
    using d(4) chain_bounds(1) [OF sub] chain_bounds(2) [OF sub, of q] by fastforce
  have buf: "al_buffer s \<le> a"
  proof -
    have "hd (al_list s) = p \<or> fst (hd (al_list s)) + snd (hd (al_list s)) \<le> fst p"
      using c(1) chain_bounds(1) by (cases l1) (auto simp: d(1))
    moreover have "0 \<le> snd p" "0 \<le> snd (hd (al_list s))"
      using chain_bounds(2) [OF c(1) hd_in_set [OF ne]] chain_bounds(2) [OF c(1), of p] by (simp_all add: d(1))
    ultimately show ?thesis using c(2) d(3) by auto
  qed
  have "alloc_inv s'"
    using c c' q d ne by (cases l1) (auto simp: alloc_inv_def s')
  then show ?thesis
    using n(1) q d buf pre post
    by (intro exI [of _ n]) (auto simp: s' list_all_iff)
qed

theorem allocator_allocates_disjoint_witness:
  "allocator_allocate_dma True 5 \<lparr>al_himem = 0, al_buffer = 4096, al_size = 64,
      al_list = [(4096, 0), (4096, 4096), (69632, 0)]\<rparr>
    = Some (8192, \<lparr>al_himem = 0, al_buffer = 4096, al_size = 64,
        al_list = [(4096, 0), (4096, 4096), (8192, 8192), (69632, 0)]\<rparr>)
   \<and> alloc_inv \<lparr>al_himem = 0, al_buffer = 4096, al_size = 64,
        al_list = [(4096, 0), (4096, 4096), (8192, 8192), (69632, 0)]\<rparr>"
proof -
  let ?s = "\<lparr>al_himem = 0, al_buffer = 4096, al_size = 64, al_list = [(4096, 0), (4096, 4096), (69632, 0)]\<rparr>"
  let ?t = "\<lparr>al_himem = 0, al_buffer = 4096, al_size = 64,
        al_list = [(4096, 0), (4096, 4096), (8192, 8192), (69632, 0)]\<rparr>"
  have inv: "alloc_inv ?s" by (simp add: alloc_inv_def)
  have run: "allocator_allocate_dma True 5 ?s = Some (8192, ?t)"
    by (simp add: allocator_allocate_dma_def page_align_def to_u64_def)
  have "alloc_inv ?t"
    using allocator_allocates_disjoint [OF inv run] by auto
  with run show ?thesis by simp
qed

lemma free_next_inserted:
  assumes "chain (l1 @ p # (a, n) # l2)" "\<forall>q \<in> set (tl (l1 @ [p])). 0 < snd q"
    and "a = fst p + snd p"
  shows "free_next a (l1 @ p # (a, n) # l2) = Some (l1 @ p # l2)"
  using assms
proof (induction l1)
  case Nil
  show ?case by simp
next
  case (Cons x l1)
  have ne: "l1 @ p # (a, n) # l2 \<noteq> []" by simp
  obtain y r where y: "l1 @ p # (a, n) # l2 = y # r" by (cases "l1 @ p # (a, n) # l2") auto
  have y1: "y \<in> set (l1 @ [p])" using y by (cases l1) auto
  have ch: "chain (y # r)" using Cons.prems(1) by (simp add: chain_Cons y)
  have "0 < snd y" using Cons.prems(2) y1 by auto
  have "fst y \<noteq> a"
  proof (cases l1)
    case Nil
    then show ?thesis using y \<open>0 < snd y\<close> Cons.prems(3) by auto
  next
    case (Cons z zs)
    then have "(a, n) \<in> set r" using y by auto
    then show ?thesis using chain_bounds(1) [OF ch] \<open>0 < snd y\<close> by force
  qed
  moreover have "free_next a (y # r) = Some (l1 @ p # l2)"
    using Cons.IH Cons.prems ch y by (cases l1) (auto simp: y)
  ultimately show ?case using y by simp
qed

lemma find_gap_grows:
  assumes "find_gap n l = Some (a, l')"
  shows "\<exists>l1 p q l2. l = l1 @ p # q # l2 \<and> l' = l1 @ p # (a, n) # q # l2"
  using assms
proof (induction n l arbitrary: a l' rule: find_gap.induct)
  case (1 n p q rest)
  show ?case
  proof (cases "to_u64 (fst q - to_u64 (fst p + snd p)) \<ge> n")
    case True
    then show ?thesis using 1(2) by (auto simp: Let_def intro: exI [of _ "[]"])
  next
    case False
    then obtain l'' where f: "find_gap n (q # rest) = Some (a, l'')" "l' = p # l''" using 1(2) by auto
    then obtain l1 p' q' l2 where "q # rest = l1 @ p' # q' # l2" "l'' = l1 @ p' # (a, n) # q' # l2"
      using 1(1) [OF False f(1)] by blast
    then have "p # q # rest = (p # l1) @ p' # q' # l2" "l' = (p # l1) @ p' # (a, n) # q' # l2"
      using f(2) by simp_all
    then show ?thesis by blast
  qed
qed simp_all

text \<open>C27: freeing what was just allocated restores the state, when the other regions all have
  a positive size (no zero-byte allocation is alive).\<close>

theorem allocator_free_undoes_allocate:
  assumes inv: "alloc_inv s" and got: "allocator_allocate_dma km kb s = Some (a, s')" "a \<noteq> 0"
    and pos: "list_all (\<lambda>q. 0 < snd q) (butlast (tl (al_list s)))"
  shows "allocator_free_dma a s' = Some (0, s)"
proof -
  define n where "n = page_align (to_u64 (kb * 1024))"
  obtain l' where f: "find_gap n (al_list s) = Some (a, l')" and s': "s' = s\<lparr>al_list := l'\<rparr>"
    and ne: "al_list s \<noteq> []"
    using got by (auto simp: allocator_allocate_dma_def n_def split: if_splits option.splits)
  have "chain (al_list s)" using inv ne by (simp add: alloc_inv_def)
  then obtain l1 p q l2 where d: "al_list s = l1 @ p # q # l2" "l' = l1 @ p # (a, n) # q # l2"
    "a = fst p + snd p" and c': "chain l'"
    using find_gap_Some [OF _ _ f] page_align_nonneg by (auto simp: n_def)
  have "tl (al_list s) = tl (l1 @ [p]) @ q # l2" by (cases l1) (simp_all add: d(1))
  then have "\<forall>x \<in> set (tl (l1 @ [p])). 0 < snd x"
    using pos by (auto simp: list_all_iff butlast_append)
  then have "free_next a l' = Some (al_list s)"
    using free_next_inserted [of l1 p a n "q # l2"] c' d by simp
  then show ?thesis by (simp add: allocator_free_dma_def s')
qed

theorem allocator_free_undoes_allocate_witness:
  "allocator_free_dma 8192 \<lparr>al_himem = 0, al_buffer = 4096, al_size = 64,
      al_list = [(4096, 0), (4096, 4096), (8192, 8192), (69632, 0)]\<rparr>
    = Some (0, \<lparr>al_himem = 0, al_buffer = 4096, al_size = 64, al_list = [(4096, 0), (4096, 4096), (69632, 0)]\<rparr>)"
proof -
  let ?s = "\<lparr>al_himem = 0, al_buffer = 4096, al_size = 64, al_list = [(4096, 0), (4096, 4096), (69632, 0)]\<rparr>"
  have inv: "alloc_inv ?s" by (simp add: alloc_inv_def)
  have run: "allocator_allocate_dma True 5 ?s = Some (8192, \<lparr>al_himem = 0, al_buffer = 4096, al_size = 64,
        al_list = [(4096, 0), (4096, 4096), (8192, 8192), (69632, 0)]\<rparr>)"
    by (simp add: allocator_allocate_dma_def page_align_def to_u64_def)
  show ?thesis using allocator_free_undoes_allocate [OF inv run] by simp
qed

section \<open>The calls a client can make\<close>

text \<open>The module is initialised once: \<open>init\<close> starts from an empty list.\<close>

inductive alloc_reach :: "(int \<Rightarrow> bool) \<Rightarrow> (int \<Rightarrow> bool) \<Rightarrow> int \<Rightarrow> alloc \<Rightarrow> bool"
  for remap :: "int \<Rightarrow> bool" and works :: "int \<Rightarrow> bool" and high :: int where
  start: "alloc_reach remap works high (alloc_start himem)"
| init: "alloc_reach remap works high s \<Longrightarrow> al_list s = []
    \<Longrightarrow> allocator_init remap works high k1 k2 s = Some (r, s') \<Longrightarrow> alloc_reach remap works high s'"
| allocate: "alloc_reach remap works high s \<Longrightarrow> allocator_allocate_dma k kb s = Some (a, s')
    \<Longrightarrow> alloc_reach remap works high s'"
| free: "alloc_reach remap works high s \<Longrightarrow> allocator_free_dma a s = Some (r, s')
    \<Longrightarrow> alloc_reach remap works high s'"
| cleanup: "alloc_reach remap works high s \<Longrightarrow> alloc_reach remap works high (allocator_cleanup s)"

lemma probe_bound: "i \<le> probe works i n \<and> probe works i n \<le> i + 16 * int n"
proof (induction n arbitrary: i)
  case 0
  show ?case by simp
next
  case (Suc n)
  have "i + 16 \<le> probe works (i + 16) n \<and> probe works (i + 16) n \<le> i + 16 + 16 * int n" by (rule Suc)
  then show ?case by auto
qed

lemma trial_bound:
  assumes "trial fuel remap works step last_trial t i = Some j"
    and "16 dvd last_trial" "16 dvd t" "last_trial = 0 \<or> remap last_trial" "i = last_trial" "0 \<le> i" "0 \<le> t"
  shows "0 \<le> j \<and> (j = 0 \<or> (\<exists>u. remap u \<and> j \<le> u))"
  using assms
proof (induction fuel arbitrary: last_trial t i)
  case 0
  then show ?case by simp
next
  case (Suc fuel)
  define i' where "i' = probe works last_trial (nat ((t - last_trial + 15) div 16))"
  show ?case
  proof (cases "remap t")
    case False
    then show ?thesis using Suc.prems by auto
  next
    case True
    obtain x y where xy: "last_trial = 16 * x" "t = 16 * y" using Suc.prems(2,3) by (elim dvdE)
    have "(t - last_trial + 15) div 16 = y - x"
      using div_mult_self4 [of 16 15 "y - x"] by (simp add: xy algebra_simps)
    then have b: "last_trial \<le> i'" "i' \<le> max last_trial t"
      using probe_bound [of last_trial works "nat (y - x)"] by (auto simp: i'_def xy max_def split: if_splits)
    have ok: "0 \<le> i' \<and> (i' = 0 \<or> (\<exists>u. remap u \<and> i' \<le> u))"
      using b True Suc.prems(4-7) by (auto simp: max_def split: if_splits)
    show ?thesis
    proof (cases "i' = t \<and> step")
      case True
      have "16 dvd to_u64 (t * 2)"
      proof -
        have "t * 2 = 16 * (y * 2)" by (simp add: xy)
        then show ?thesis unfolding to_u64_def by (simp add: dvd_mod)
      qed
      moreover have "0 \<le> to_u64 (t * 2)" by (simp add: to_u64_def)
      moreover have "trial fuel remap works step t (to_u64 (t * 2)) t = Some j"
        using Suc.prems(1) True \<open>remap t\<close> by (simp add: i'_def [symmetric] Let_def)
      ultimately show ?thesis
        using Suc.IH [of t "to_u64 (t * 2)" t] Suc.prems(3,7) \<open>remap t\<close> by blast
    next
      case False
      then have "j = i'" using Suc.prems(1) True by (auto simp: i'_def [symmetric] Let_def)
      then show ?thesis using ok by simp
    qed
  qed
qed

lemma alloc_inv_init:
  assumes e: "al_list s = []" and run: "allocator_init remap works high k1 k2 s = Some (r, s')"
    and hw: "\<And>n. remap n \<Longrightarrow> high + n < 2 ^ 64" and high: "0 \<le> high" "high < 2 ^ 64"
  shows "alloc_inv s'"
proof (cases "al_himem s < 0")
  case True
  then show ?thesis using run e by (simp add: allocator_init_def alloc_inv_def)
next
  case False
  define t0 where "t0 = to_u64 (to_i32 (al_himem s * 2 ^ 20))"
  define t where "t = (if t0 = 0 then 2 ^ 20 else t0)"
  have "16 dvd to_i32 (al_himem s * 2 ^ 20)"
    unfolding to_i32_def by (intro dvd_diff dvd_mod dvd_add) (simp_all add: dvd_mult)
  then have "16 dvd t0"
    unfolding t0_def to_u64_def by (intro dvd_mod) simp_all
  then have t: "16 dvd t" "0 \<le> t" by (simp_all add: t_def t0_def to_u64_def)
  obtain j where j: "trial 64 remap works (al_himem s = 0) 0 t 0 = Some j"
    and res: "alloc_install high k1 k2 s j = (r, s')"
    using run False unfolding allocator_init_def Let_def t_def t0_def by (auto simp del: trial.simps)
  have jb: "0 \<le> j" "j = 0 \<or> (\<exists>u. remap u \<and> j \<le> u)"
    using trial_bound [OF j] t by auto
  have "j div 1024 * 1024 \<le> j" "0 \<le> j div 1024" using jb(1) by (simp_all add: pos_imp_zdiv_nonneg_iff)
  moreover have "high + j < 2 ^ 64" using jb(2) hw high by fastforce
  ultimately have tail: "to_u64 (high + to_u64 (j div 1024 * 1024)) = high + j div 1024 * 1024"
    using high by (subst to_u64_id; simp add: to_u64_id)
  have "al_list s' = [] \<or> s' = s\<lparr>al_size := j div 1024, al_buffer := high,
      al_list := [(high, 0), (high + j div 1024 * 1024, 0)]\<rparr>"
    using res e tail by (auto simp: alloc_install_def Let_def split: if_splits)
  then show ?thesis
    using high \<open>0 \<le> j div 1024\<close> \<open>j div 1024 * 1024 \<le> j\<close> \<open>high + j < 2 ^ 64\<close> by (auto simp: alloc_inv_def)
qed

lemma alloc_inv_allocate:
  assumes inv: "alloc_inv s" and run: "allocator_allocate_dma k kb s = Some (a, s')"
  shows "alloc_inv s'"
proof (cases "s' = s")
  case True
  then show ?thesis using inv by simp
next
  case False
  define n where "n = page_align (to_u64 (kb * 1024))"
  obtain l' where f: "find_gap n (al_list s) = Some (a, l')" and s': "s' = s\<lparr>al_list := l'\<rparr>"
    and ne: "al_list s \<noteq> []"
    using run False by (auto simp: allocator_allocate_dma_def n_def split: if_splits option.splits)
  have c: "chain (al_list s)" "fst (hd (al_list s)) = al_buffer s"
    "\<forall>q \<in> set (al_list s). fst q + snd q \<le> al_buffer s + al_size s * 1024"
    using inv ne by (auto simp: alloc_inv_def)
  obtain l1 p q l2 where d: "al_list s = l1 @ p # q # l2" "l' = l1 @ p # (a, n) # q # l2"
    "a + n \<le> fst q" and c': "chain l'"
    using find_gap_Some [OF c(1) _ f] page_align_nonneg by (auto simp: n_def)
  have "fst q \<le> al_buffer s + al_size s * 1024"
    using c(3) chain_bounds(2) [OF c(1), of q] by (force simp: d(1))
  then show ?thesis
    using c c' d by (cases l1) (auto simp: alloc_inv_def s')
qed

lemma alloc_inv_free:
  assumes inv: "alloc_inv s" and run: "allocator_free_dma a s = Some (r, s')"
  shows "alloc_inv s'"
proof -
  obtain l' where f: "free_next a (al_list s) = Some l'" and s': "s' = s\<lparr>al_list := l'\<rparr>"
    using run by (auto simp: allocator_free_dma_def)
  then have ne: "al_list s \<noteq> []" by (cases "al_list s") auto
  have c: "chain (al_list s)" "fst (hd (al_list s)) = al_buffer s"
    "\<forall>q \<in> set (al_list s). fst q + snd q \<le> al_buffer s + al_size s * 1024"
    using inv ne by (auto simp: alloc_inv_def)
  obtain l1 q l2 where "al_list s = l1 @ q # l2" "l1 \<noteq> []" "l' = l1 @ l2" "chain l'"
    using free_next_Some [OF c(1) f] by blast
  then show ?thesis using c by (auto simp: alloc_inv_def s')
qed

text \<open>C25: in every state the calls can reach, the regions are sorted, disjoint and inside the
  buffer, whatever the hardware probe found, however \<open>kmalloc\<close> behaves and whatever addresses
  are freed (as long as the machine survives the call).\<close>

theorem alloc_reach_invariant:
  assumes "alloc_reach remap works high s"
    and "\<And>n. remap n \<Longrightarrow> high + n < 2 ^ 64" and "0 \<le> high" "high < 2 ^ 64"
  shows "alloc_inv s"
  using assms(1)
proof induction
  case (start himem)
  show ?case by (simp add: alloc_inv_def alloc_start_def)
next
  case (init s k1 k2 r s')
  show ?case by (rule alloc_inv_init [OF init(2,3)]) (use assms in auto)
next
  case (allocate s k kb a s')
  then show ?case using alloc_inv_allocate by blast
next
  case (free s a r s')
  then show ?case using alloc_inv_free by blast
next
  case (cleanup s)
  show ?case by (simp add: alloc_inv_def allocator_cleanup_def)
qed

lemma probe_stops:
  "k \<le> n \<Longrightarrow> (\<And>j. j < k \<Longrightarrow> works (i + 16 * int j)) \<Longrightarrow> k = n \<or> \<not> works (i + 16 * int k)
   \<Longrightarrow> probe works i n = i + 16 * int k"
proof (induction n arbitrary: i k)
  case 0
  then show ?case by simp
next
  case (Suc n)
  show ?case
  proof (cases k)
    case 0
    then show ?thesis using Suc.prems by simp
  next
    case (Suc k')
    have "probe works (i + 16) n = i + 16 + 16 * int k'"
      using Suc.prems Suc.prems(2) [of "Suc _"] Suc
      by (intro Suc.IH) (auto simp: algebra_simps)
    moreover have "works i" using Suc.prems(2) [of 0] Suc by simp
    ultimately show ?thesis using Suc by simp
  qed
qed

text \<open>High memory at 4096, of which 8 kilobytes work; 5 kilobytes are allocated.\<close>

definition demo_alloc :: alloc where
  "demo_alloc = \<lparr>al_himem = 0, al_buffer = 4096, al_size = 8, al_list = [(4096, 0), (4096, 8192), (12288, 0)]\<rparr>"

lemma demo_init:
  "allocator_init (\<lambda>n. n \<le> 2 ^ 30) (\<lambda>i. i < 8192) 4096 True True (alloc_start 0)
    = Some (0, demo_alloc\<lparr>al_list := [(4096, 0), (12288, 0)]\<rparr>)"
proof -
  have "probe (\<lambda>i. i < 8192) 0 65536 = 0 + 16 * int 512" by (rule probe_stops) simp_all
  moreover have "(64 :: nat) = Suc 63" by simp
  ultimately have "trial 64 (\<lambda>n. n \<le> 2 ^ 30) (\<lambda>i. i < 8192) True 0 (2 ^ 20) 0 = Some 8192"
    by (simp only: trial.simps) simp
  then show ?thesis
    by (simp add: allocator_init_def alloc_start_def to_u64_def to_i32_def alloc_install_def demo_alloc_def)
qed

theorem alloc_reach_invariant_witness:
  "alloc_reach (\<lambda>n. n \<le> 2 ^ 30) (\<lambda>i. i < 8192) 4096 demo_alloc \<and> alloc_inv demo_alloc"
proof -
  have "al_list (alloc_start 0) = []" by (simp add: alloc_start_def)
  note r1 = alloc_reach.init [OF alloc_reach.start this demo_init]
  have "allocator_allocate_dma True 5 (demo_alloc\<lparr>al_list := [(4096, 0), (12288, 0)]\<rparr>) = Some (4096, demo_alloc)"
    by (simp add: allocator_allocate_dma_def page_align_def to_u64_def demo_alloc_def)
  note r2 = alloc_reach.allocate [OF r1 this]
  have "alloc_inv demo_alloc" by (rule alloc_reach_invariant [OF r2]) auto
  with r2 show ?thesis by simp
qed

lemma free_next_unknown: "list_all (\<lambda>q. fst q \<noteq> a) (tl l) \<Longrightarrow> free_next a l = None"
  by (induction a l rule: free_next.induct) auto

text \<open>Freeing an address that is not allocated is not reported: the message that should
  report it reads through a null pointer.\<close>

theorem free_unknown_crashes:
  assumes "list_all (\<lambda>q. fst q \<noteq> a) (tl (al_list s))"
  shows "allocator_free_dma a s = None"
  using free_next_unknown [OF assms] by (simp add: allocator_free_dma_def)

theorem free_unknown_crashes_witness:
  "allocator_free_dma 5000 \<lparr>al_himem = 0, al_buffer = 4096, al_size = 64, al_list = [(4096, 0), (69632, 0)]\<rparr> = None"
  by (rule free_unknown_crashes) simp

text \<open>A failed initialisation (no memory for the list cells) leaves the allocator believing
  it has a buffer, and the next allocation dereferences the null list.\<close>

theorem failed_init_then_allocate_crashes:
  assumes "al_list s = []" "0 < high"
    and run: "allocator_init remap works high k1 k2 s = Some (- ENOMEM, s')"
  shows "allocator_allocate_dma k kb s' = None"
proof -
  have "al_buffer s' = high \<and> al_list s' = []"
  proof -
    obtain i where "alloc_install high k1 k2 s i = (- ENOMEM, s')"
      using run unfolding allocator_init_def Let_def by (auto simp del: trial.simps split: if_splits)
    then show ?thesis using assms(1) by (auto simp: alloc_install_def Let_def split: if_splits)
  qed
  then show ?thesis using assms(2) by (simp add: allocator_allocate_dma_def)
qed

theorem failed_init_then_allocate_crashes_witness:
  "\<exists>s'. allocator_init (\<lambda>n. n \<le> 2 ^ 30) (\<lambda>i. False) 4096 True True (alloc_start 0) = Some (- ENOMEM, s')
    \<and> allocator_allocate_dma True 4 s' = None"
proof -
  have "probe (\<lambda>i. False) 0 65536 = 0 + 16 * int 0" by (rule probe_stops) simp_all
  moreover have "(64 :: nat) = Suc 63" by simp
  ultimately have "trial 64 (\<lambda>n. n \<le> 2 ^ 30) (\<lambda>i. False) True 0 (2 ^ 20) 0 = Some 0"
    by (simp only: trial.simps) simp
  then have run: "allocator_init (\<lambda>n. n \<le> 2 ^ 30) (\<lambda>i. False) 4096 True True (alloc_start 0)
      = Some (- ENOMEM, (alloc_start 0)\<lparr>al_size := 0, al_buffer := 4096\<rparr>)"
    by (simp add: allocator_init_def alloc_start_def to_u64_def to_i32_def alloc_install_def)
  show ?thesis
    using failed_init_then_allocate_crashes [OF _ _ run] run by (auto simp: alloc_start_def)
qed

end
