(* ===== verification/Logic.thy ===== *)
theory Logic imports CFloat
begin

text \<open>
  Coadding, Fowler sampling and image arithmetic: \<open>PAN/Modules/Logical/private/c/src/LogicLib.c\<close>.
  The file's counters are the record \<open>logic\<close>; buffers are addresses in byte memory, a pixel
  being two or four bytes.  All pixel and index arithmetic is unsigned 32-bit and wraps.
  \<open>None\<close> is an integer division by zero or a float conversion without a defined result.

  The image statistics (\<open>get_imstats\<close>, \<open>coadd2\<close>, \<open>coadd3\<close>) and the float means
  (\<open>operate_coadd\<close>, \<open>operate_coadd_float\<close>) accumulate in floating point and are not modelled;
  \<open>operate_images_auto\<close> reads the statistics and is left out with them.
\<close>

record logic =
  l_fowler_ptr :: int
  l_oldpos :: int
  l_gbl_pix :: int
  l_sample_cntr :: int
  l_ch_cntr :: int
  l_mem :: mem

definition logic_init :: logic where
  "logic_init = \<lparr>l_fowler_ptr = 0, l_oldpos = 0, l_gbl_pix = 0, l_sample_cntr = 0, l_ch_cntr = 0,
     l_mem = (\<lambda>_. 0)\<rparr>"

definition Logic_mem_clear :: "int \<Rightarrow> int \<Rightarrow> logic \<Rightarrow> int \<times> logic" where
  "Logic_mem_clear buf nelems s =
     (if buf = 0 then (- EFAULT, s) else (0, s\<lparr>l_mem := memset (l_mem s) buf 0 nelems\<rparr>))"

text \<open>The result is a \<open>u16\<close>, the error number included.\<close>

definition mem_examine :: "int \<Rightarrow> int \<Rightarrow> logic \<Rightarrow> int" where
  "mem_examine location off s =
     (if location = 0 then to_u16 (- EFAULT) else ld_u16 (l_mem s) (location + 2 * off))"

definition reset_counters :: "logic \<Rightarrow> int \<times> logic" where
  "reset_counters s = (0, s\<lparr>l_sample_cntr := 0, l_gbl_pix := 0, l_ch_cntr := 0\<rparr>)"

section \<open>Coadding samples\<close>

text \<open>\<open>*(p + i) += v\<close> on an array of \<open>u32\<close>.\<close>

definition add_u32 :: "mem \<Rightarrow> int \<Rightarrow> int \<Rightarrow> int \<Rightarrow> mem" where
  "add_u32 m p i v = st_u32 m (p + 4 * i) (to_u32 (ld_u32 m (p + 4 * i) + v))"

text \<open>One turn of the loop: add, then advance the channel, sample and pixel counters.\<close>

definition coadd_step :: "int \<Rightarrow> int \<Rightarrow> int \<Rightarrow> int \<Rightarrow> logic \<Rightarrow> logic" where
  "coadd_step coad nsamples nchann v s =
     (let s1 = s\<lparr>l_mem := add_u32 (l_mem s) coad (l_gbl_pix s + l_ch_cntr s) v,
                 l_ch_cntr := to_u32 (l_ch_cntr s + 1)\<rparr>;
          s2 = (if l_ch_cntr s1 = to_u32 nchann
                then s1\<lparr>l_ch_cntr := 0, l_sample_cntr := to_u32 (l_sample_cntr s1 + 1)\<rparr> else s1) in
      if l_sample_cntr s2 = to_u32 nsamples
      then s2\<lparr>l_gbl_pix := to_u32 (l_gbl_pix s2 + nchann), l_sample_cntr := 0, l_ch_cntr := 0\<rparr>
      else s2)"

text \<open>The 16-bit routine computes \<open>inipix\<close> and does not use it.\<close>

definition samplesCoadd16To32 :: "int \<Rightarrow> int \<Rightarrow> int \<Rightarrow> int \<Rightarrow> int \<Rightarrow> int \<Rightarrow> logic \<Rightarrow> int \<times> logic" where
  "samplesCoadd16To32 image_buf coadd_buff nelems nsamples nchann nskip s =
     (if image_buf = 0 \<or> coadd_buff = 0 then (- EFAULT, s)
      else (0, for_n (nat nelems) (\<lambda>pix s.
        coadd_step coadd_buff nsamples nchann (ld_u16 (l_mem s) (image_buf + 2 * int pix)) s) s))"

definition samplesCoadd32To32 :: "int \<Rightarrow> int \<Rightarrow> int \<Rightarrow> int \<Rightarrow> int \<Rightarrow> int \<Rightarrow> logic \<Rightarrow> int \<times> logic" where
  "samplesCoadd32To32 image_buf coadd_buff nelems nsamples nchann nskip s =
     (if image_buf = 0 \<or> coadd_buff = 0 then (- EFAULT, s)
      else (let inipix = (if l_gbl_pix s = 0 then to_u32 (nskip * nchann) else 0) in
        (0, for_n (nat (nelems - inipix)) (\<lambda>k s.
          coadd_step coadd_buff nsamples nchann (ld_u32 (l_mem s) (image_buf + 4 * (inipix + int k))) s) s)))"

definition samplesCoadd :: "int \<Rightarrow> int \<Rightarrow> int \<Rightarrow> int \<Rightarrow> int \<Rightarrow> int \<Rightarrow> int \<Rightarrow> logic \<Rightarrow> int \<times> logic" where
  "samplesCoadd image_buf coadd_buff nelems nsamples0 bpp nchann0 nskip0 s =
     (if nelems = 0 then (- EINVAL, s)
      else (let nsamples = (if nsamples0 \<le> 0 then 1 else nsamples0);
                nchann = (if nchann0 \<le> 0 then 1 else nchann0);
                nskip = (if nskip0 < 0 then 0 else nskip0) in
        if bpp = 16 then samplesCoadd16To32 image_buf coadd_buff nelems nsamples nchann nskip s
        else samplesCoadd32To32 image_buf coadd_buff nelems nsamples nchann nskip s))"

section \<open>Coadding images\<close>

definition coadd32To32 :: "int \<Rightarrow> int \<Rightarrow> int \<Rightarrow> logic \<Rightarrow> int \<times> logic" where
  "coadd32To32 image_buf coadd_buff nelems s =
     (if image_buf = 0 \<or> coadd_buff = 0 then (- EFAULT, s)
      else (0, s\<lparr>l_mem := for_n (nat nelems) (\<lambda>i m.
        add_u32 m coadd_buff (int i) (ld_u32 m (image_buf + 4 * int i))) (l_mem s)\<rparr>))"

definition coadd16To32 :: "int \<Rightarrow> int \<Rightarrow> int \<Rightarrow> logic \<Rightarrow> int \<times> logic" where
  "coadd16To32 image_buf coadd_buff nelems s =
     (if image_buf = 0 \<or> coadd_buff = 0 then (- EFAULT, s)
      else (0, s\<lparr>l_mem := for_n (nat nelems) (\<lambda>i m.
        add_u32 m coadd_buff (int i) (ld_u16 m (image_buf + 2 * int i))) (l_mem s)\<rparr>))"

definition coadd :: "int \<Rightarrow> int \<Rightarrow> int \<Rightarrow> int \<Rightarrow> logic \<Rightarrow> int \<times> logic" where
  "coadd image_buf coadd_buff nelems in_bpp s =
     (if in_bpp = 16 then coadd16To32 image_buf coadd_buff nelems s
      else coadd32To32 image_buf coadd_buff nelems s)"

definition fowler :: "int \<Rightarrow> int \<Rightarrow> int \<Rightarrow> logic \<Rightarrow> int \<times> logic" where
  "fowler image_buf faw_buff nelems s =
     (if image_buf = 0 \<or> faw_buff = 0 then (- EFAULT, s)
      else (0, s\<lparr>l_mem := for_n (nat nelems) (\<lambda>i m.
        add_u32 m faw_buff (int i) (ld_u16 m (image_buf + 2 * int i))) (l_mem s)\<rparr>))"

section \<open>Fowler sampling within a frame\<close>

definition LOGIC_Set_fowler_ptr :: "int \<Rightarrow> logic \<Rightarrow> int \<times> logic" where
  "LOGIC_Set_fowler_ptr fow_buf s =
     (if fow_buf = 0 then (- EFAULT, s) else (0, s\<lparr>l_fowler_ptr := fow_buf\<rparr>))"

text \<open>The three nested loops of \<open>LOGIC_fowler_L2L\<close> and \<open>LOGIC_fowler_P2P\<close>; the two differ in the
  names of the loop variables only.  The state is memory and \<open>pix\<close>.\<close>

definition fowler_loops :: "int \<Rightarrow> int \<Rightarrow> nat \<Rightarrow> nat \<Rightarrow> nat \<Rightarrow> mem \<Rightarrow> mem \<times> int" where
  "fowler_loops fow img nrows nsamples totcols m =
     for_n nrows (\<lambda>row st. for_n nsamples (\<lambda>samp st. for_n totcols (\<lambda>col (m, pix).
       (add_u32 m fow (to_u32 (int row * int totcols) + int col) (ld_u16 m (img + 2 * pix)),
        to_u32 (pix + 1))) st) st) (m, 0)"

definition LOGIC_fowler_L2L :: "int \<Rightarrow> int \<Rightarrow> int \<Rightarrow> int \<Rightarrow> logic \<Rightarrow> (int \<times> logic) option" where
  "LOGIC_fowler_L2L image_buf nelems nsamples totcols s =
     (if image_buf = 0 \<or> l_fowler_ptr s = 0 then Some (- EFAULT, s)
      else if totcols = 0 \<or> nsamples = 0 then None
      else (let nrows = (nelems div totcols) div nsamples in
        Some (0, s\<lparr>l_mem := fst (fowler_loops (l_fowler_ptr s) image_buf (nat nrows) (nat nsamples)
                              (nat totcols) (l_mem s)),
                   l_fowler_ptr := l_fowler_ptr s + 4 * to_u32 (nrows * totcols)\<rparr>)))"

definition LOGIC_fowler_P2P :: "int \<Rightarrow> int \<Rightarrow> int \<Rightarrow> int \<Rightarrow> logic \<Rightarrow> (int \<times> logic) option" where
  "LOGIC_fowler_P2P image_buf nelems nsamples totamps s =
     (if image_buf = 0 \<or> l_fowler_ptr s = 0 then Some (- EFAULT, s)
      else if totamps = 0 \<or> nsamples = 0 then None
      else (let pixperamp = (nelems div totamps) div nsamples in
        Some (0, s\<lparr>l_mem := fst (fowler_loops (l_fowler_ptr s) image_buf (nat pixperamp) (nat nsamples)
                              (nat totamps) (l_mem s)),
                   l_fowler_ptr := l_fowler_ptr s + 4 * to_u32 (pixperamp * totamps)\<rparr>)))"

section \<open>Operations on two images\<close>

definition operate_images16To32 :: "int \<Rightarrow> int \<Rightarrow> int \<Rightarrow> int \<Rightarrow> string \<Rightarrow> logic \<Rightarrow> int \<times> logic" where
  "operate_images16To32 image1 image2 result nelems operation s =
     (if operation = ''copy'' then
        (if image1 = 0 \<or> result = 0 then (- EFAULT, s)
         else (0, s\<lparr>l_mem := for_n (nat nelems) (\<lambda>i m.
           st_u32 m (result + 4 * int i) (to_u32 (ld_u16 m (image1 + 2 * int i)))) (l_mem s)\<rparr>))
      else if operation = ''substract'' then
        (if image1 = 0 \<or> image2 = 0 \<or> result = 0 then (- EFAULT, s)
         else (0, s\<lparr>l_mem := for_n (nat nelems) (\<lambda>i m.
           st_u32 m (result + 4 * int i)
             (to_u32 (ld_u16 m (image1 + 2 * int i) - ld_u16 m (image2 + 2 * int i)))) (l_mem s)\<rparr>))
      else (- EINVAL, s))"

definition operate_images16To16 ::
  "int \<Rightarrow> int \<Rightarrow> int \<Rightarrow> int \<Rightarrow> string \<Rightarrow> int \<Rightarrow> logic \<Rightarrow> int \<times> logic" where
  "operate_images16To16 image1 image2 result nelems operation offset s =
     (if operation = ''copy'' then
        (if image1 = 0 \<or> result = 0 then (- EFAULT, s)
         else (0, s\<lparr>l_mem := for_n (nat nelems) (\<lambda>i m.
           st_u16 m (result + 2 * int i) (to_u16 (ld_u16 m (image1 + 2 * int i)))) (l_mem s)\<rparr>))
      else if operation = ''substract'' then
        (if image1 = 0 \<or> image2 = 0 \<or> result = 0 then (- EFAULT, s)
         else (0, s\<lparr>l_mem := for_n (nat nelems) (\<lambda>i m.
           st_u16 m (result + 2 * int i)
             (to_u16 (ld_u16 m (image1 + 2 * int i) - ld_u16 m (image2 + 2 * int i) + offset))) (l_mem s)\<rparr>))
      else (- EINVAL, s))"

definition operate_images32To32 :: "int \<Rightarrow> int \<Rightarrow> int \<Rightarrow> int \<Rightarrow> string \<Rightarrow> logic \<Rightarrow> int \<times> logic" where
  "operate_images32To32 image1 image2 result nelems operation s =
     (if operation = ''copy'' then
        (if image1 = 0 \<or> result = 0 then (- EFAULT, s)
         else (0, s\<lparr>l_mem := for_n (nat nelems) (\<lambda>i m.
           st_u32 m (result + 4 * int i) (ld_u32 m (image1 + 4 * int i))) (l_mem s)\<rparr>))
      else if operation = ''substract'' then
        (if image1 = 0 \<or> image2 = 0 \<or> result = 0 then (- EFAULT, s)
         else (0, s\<lparr>l_mem := for_n (nat nelems) (\<lambda>i m.
           st_u32 m (result + 4 * int i)
             (to_u32 (ld_u32 m (image1 + 4 * int i) - ld_u32 m (image2 + 4 * int i)))) (l_mem s)\<rparr>))
      else (- EINVAL, s))"

definition operate_images :: "int \<Rightarrow> int \<Rightarrow> int \<Rightarrow> int \<Rightarrow> string \<Rightarrow> int \<Rightarrow> logic \<Rightarrow> int \<times> logic" where
  "operate_images ptr1 ptr2 ptr3 nelems operation in_bpp s =
     (if in_bpp = 16 then operate_images16To32 ptr1 ptr2 ptr3 nelems operation s
      else operate_images32To32 ptr1 ptr2 ptr3 nelems operation s)"

section \<open>Where the last chunk of an image is\<close>

text \<open>\<open>(u32) bytes / ((f32)raw_bpp/8)\<close>, stored to a \<open>u32\<close>: the conversion is undefined when the
  quotient is not a number, is \<open>-1\<close> or less, or does not fit.\<close>

definition elems_of :: "int \<Rightarrow> int \<Rightarrow> int option" where
  "elems_of bytes raw_bpp =
     (if raw_bpp = 0 then None
      else (let q = int (f32_quot_trunc (8 * f32_nat (nat (to_u32 bytes))) (nat \<bar>raw_bpp\<bar>)) in
        if q < 2 ^ 32 \<and> (0 < raw_bpp \<or> q = 0) then Some q else None))"

definition pixel_ptr :: "int \<Rightarrow> int \<Rightarrow> int \<Rightarrow> int" where
  "pixel_ptr mbuff current_pos raw_bpp =
     (if raw_bpp = 16 then to_u64 (mbuff + 2 * (to_u64 current_pos div 2))
      else to_u64 (mbuff + 4 * (to_u64 current_pos div 4)))"

text \<open>The result is the pointer and what is stored to \<open>*elems_to_write\<close>, if anything is.\<close>

definition return_data_pointer ::
  "int \<Rightarrow> int \<Rightarrow> int \<Rightarrow> int \<Rightarrow> int \<Rightarrow> (int \<times> int option) option" where
  "return_data_pointer mbuff buf_read cbuff_size dbuf_size raw_bpp =
     (if buf_read \<le> 0 then Some (0, None)
      else if mbuff = 0 then Some (to_u64 (- ENOMEM), None)
      else (let current_pos = to_i32 ((buf_read - 1) * dbuf_size);
                bytes_remain = to_i32 (cbuff_size - current_pos) in
        if bytes_remain < 0 then Some (0, None)
        else (let bytes_to_write = (if to_u32 bytes_remain \<ge> dbuf_size then to_i32 dbuf_size else bytes_remain) in
          map_option (\<lambda>e. (pixel_ptr mbuff current_pos raw_bpp, Some e)) (elems_of bytes_to_write raw_bpp))))"

definition clear_oldpos :: "logic \<Rightarrow> logic" where
  "clear_oldpos s = s\<lparr>l_oldpos := 0\<rparr>"

text \<open>\<open>oldpos\<close> is a 64-bit unsigned global; the positions are \<open>i32\<close>.\<close>

definition return_data_pointer2 ::
  "int \<Rightarrow> int \<Rightarrow> int \<Rightarrow> int \<Rightarrow> int \<Rightarrow> int \<Rightarrow> logic \<Rightarrow> (int \<times> int option \<times> logic) option" where
  "return_data_pointer2 mbuff buf_read cbuff_size dbuf_size raw_bpp totbufs s =
     (if buf_read \<le> 0 then Some (0, None, s)
      else if mbuff = 0 then Some (to_u64 (- ENOMEM), None, s)
      else (let newpos = to_i32 (buf_read * dbuf_size);
                bytes_remain = to_i32 (cbuff_size - l_oldpos s) in
        if bytes_remain < 0 then Some (0, None, s)
        else (let bytes_to_write = (if to_u32 bytes_remain < dbuf_size \<or> buf_read = totbufs then bytes_remain
                                    else to_i32 (newpos - l_oldpos s)) in
          map_option (\<lambda>e. (pixel_ptr mbuff (to_i32 (l_oldpos s)) raw_bpp, Some e, s\<lparr>l_oldpos := to_u64 newpos\<rparr>))
            (elems_of bytes_to_write raw_bpp))))"

end
