(* ===== verification/Logic_Props.thy ===== *)
theory Logic_Props imports Logic
begin

text \<open>
  Every accumulating loop of the file adds pixel \<open>k\<close> of the image to element \<open>t k\<close> of an array of
  32-bit sums.  \<open>accumulates\<close> is that contract, \<open>accum_sums\<close> its consequence: element \<open>p\<close> ends with
  the sum of the pixels sent to it, modulo \<open>2^32\<close>.
\<close>

section \<open>Accumulating into an array\<close>

lemma add_u32_hit: "ld_u32 (add_u32 m p i v) (p + 4 * i) = to_u32 (ld_u32 m (p + 4 * i) + v)"
  unfolding add_u32_def by (rule ld_u32_st_u32) (rule to_u32_range)+

lemma add_u32_other: "i \<noteq> j \<Longrightarrow> ld_u32 (add_u32 m p i v) (p + 4 * j) = ld_u32 m (p + 4 * j)"
  unfolding add_u32_def by (rule ld_u32_st_u32_other) linarith

lemma add_u32_outside: "a < p + 4 * i \<or> p + 4 * i + 4 \<le> a \<Longrightarrow> add_u32 m p i v a = m a"
  by (auto simp: add_u32_def st_u32_def)

definition accumulates :: "int \<Rightarrow> nat \<Rightarrow> nat \<Rightarrow> (nat \<Rightarrow> nat) \<Rightarrow> (nat \<Rightarrow> int) \<Rightarrow> mem \<Rightarrow> mem \<Rightarrow> bool" where
  "accumulates c len n t v m m' \<longleftrightarrow>
     (\<forall>p. ld_u32 m' (c + 4 * int p) =
        (if p < len then to_u32 (ld_u32 m (c + 4 * int p) + (\<Sum>k \<in> {k. k < n \<and> t k = p}. v k))
         else ld_u32 m (c + 4 * int p))) \<and>
     (\<forall>a. a < c \<or> c + 4 * int len \<le> a \<longrightarrow> m' a = m a)"

lemma to_u32_add: "to_u32 (to_u32 a + b) = to_u32 (a + b)"
  by (simp add: to_u32_def mod_simps)

lemma accum_sums:
  fixes t :: "nat \<Rightarrow> nat"
  assumes "\<And>k. k < n \<Longrightarrow> t k < len"
  assumes "\<And>k m'. k < n \<Longrightarrow> (\<And>a. a < c \<or> c + 4 * int len \<le> a \<Longrightarrow> m' a = m a) \<Longrightarrow> f k m' = v k"
  shows "accumulates c len n t v m (for_n n (\<lambda>k m. add_u32 m c (int (t k)) (f k m)) m)"
proof (rule for_n_invariant [where P = "\<lambda>k. accumulates c len k t v m"])
  show "accumulates c len 0 t v m m"
    using ld_u32_range by (simp add: accumulates_def to_u32_id)
next
  fix k m' assume k: "k < n" and acc: "accumulates c len k t v m m'"
  have f: "f k m' = v k"
    using acc by (intro assms(2) [OF k]) (auto simp: accumulates_def)
  have t: "t k < len" by (rule assms(1) [OF k])
  have set: "{j. j < Suc k \<and> t j = p} = (if t k = p then insert k {j. j < k \<and> t j = p} else {j. j < k \<and> t j = p})"
    for p by (auto simp: less_Suc_eq)
  have "ld_u32 (add_u32 m' c (int (t k)) (v k)) (c + 4 * int p) =
        (if p < len then to_u32 (ld_u32 m (c + 4 * int p) + (\<Sum>j \<in> {j. j < Suc k \<and> t j = p}. v j))
         else ld_u32 m (c + 4 * int p))" for p
  proof (cases "t k = p")
    case True
    with t acc have "ld_u32 m' (c + 4 * int p) =
      to_u32 (ld_u32 m (c + 4 * int p) + (\<Sum>j \<in> {j. j < k \<and> t j = p}. v j))"
      by (simp add: accumulates_def)
    with True t show ?thesis
      by (simp add: add_u32_hit set to_u32_add add.assoc) (simp add: ac_simps)
  next
    case False
    then have "ld_u32 (add_u32 m' c (int (t k)) (v k)) (c + 4 * int p) = ld_u32 m' (c + 4 * int p)"
      by (intro add_u32_other) simp
    with False acc show ?thesis by (simp add: accumulates_def set)
  qed
  moreover have "add_u32 m' c (int (t k)) (v k) a = m a" if "a < c \<or> c + 4 * int len \<le> a" for a
  proof -
    have "add_u32 m' c (int (t k)) (v k) a = m' a"
      using that t by (intro add_u32_outside) auto
    with that acc show ?thesis by (auto simp: accumulates_def)
  qed
  ultimately show "accumulates c len (Suc k) t v m (add_u32 m' c (int (t k)) (f k m'))"
    unfolding accumulates_def f by blast
qed

text \<open>A source of 16-bit or 32-bit pixels apart from the sums reads the same all along.\<close>

definition away :: "int \<Rightarrow> nat \<Rightarrow> int \<Rightarrow> int \<Rightarrow> bool" where
  "away c len img bytes \<longleftrightarrow> img + bytes \<le> c \<or> c + 4 * int len \<le> img"

lemma away_u16:
  assumes "away c len img (2 * int n)" "k < n" "\<And>a. a < c \<or> c + 4 * int len \<le> a \<Longrightarrow> m' a = m a"
  shows "ld_u16 m' (img + 2 * int k) = ld_u16 m (img + 2 * int k)"
proof -
  have "m' (img + 2 * int k + j) = m (img + 2 * int k + j)" if "0 \<le> j" "j < 2" for j
    using assms(1,2) that by (intro assms(3)) (auto simp: away_def)
  from this [of 0] this [of 1] show ?thesis by (simp add: ld_u16_def)
qed

lemma away_u32:
  assumes "away c len img (4 * int n)" "k < n" "\<And>a. a < c \<or> c + 4 * int len \<le> a \<Longrightarrow> m' a = m a"
  shows "ld_u32 m' (img + 4 * int k) = ld_u32 m (img + 4 * int k)"
proof -
  have "m' (img + 4 * int k + j) = m (img + 4 * int k + j)" if "0 \<le> j" "j < 4" for j
    using assms(1,2) that by (intro assms(3)) (auto simp: away_def)
  from this [of 0] this [of 1] this [of 2] this [of 3] show ?thesis
    by (simp add: ld_u32_def ld_u16_def) (simp add: ac_simps)
qed

lemma accum_u16:
  assumes "\<And>k. k < n \<Longrightarrow> t k < len" "away c len img (2 * int n)"
  shows "accumulates c len n t (\<lambda>k. ld_u16 m (img + 2 * int k)) m
    (for_n n (\<lambda>k m. add_u32 m c (int (t k)) (ld_u16 m (img + 2 * int k))) m)"
  by (rule accum_sums) (use assms in \<open>blast intro: away_u16\<close>)+

lemma accum_u32:
  assumes "\<And>k. k < n \<Longrightarrow> t k < len" "away c len img (4 * int n)"
  shows "accumulates c len n t (\<lambda>k. ld_u32 m (img + 4 * int k)) m
    (for_n n (\<lambda>k m. add_u32 m c (int (t k)) (ld_u32 m (img + 4 * int k))) m)"
  by (rule accum_sums) (use assms in \<open>blast intro: away_u32\<close>)+

section \<open>Coadding images\<close>

lemma elementwise:
  assumes "accumulates c n n (\<lambda>k. k) v m m'"
  shows "k < n \<Longrightarrow> ld_u32 m' (c + 4 * int k) = to_u32 (ld_u32 m (c + 4 * int k) + v k)"
    and "a < c \<or> c + 4 * int n \<le> a \<Longrightarrow> m' a = m a"
proof -
  have "{j. j < n \<and> j = k} = {k}" if "k < n" for k using that by auto
  with assms show "k < n \<Longrightarrow> ld_u32 m' (c + 4 * int k) = to_u32 (ld_u32 m (c + 4 * int k) + v k)"
    by (simp add: accumulates_def)
  from assms show "a < c \<or> c + 4 * int n \<le> a \<Longrightarrow> m' a = m a"
    unfolding accumulates_def by blast
qed

definition pixel :: "int \<Rightarrow> mem \<Rightarrow> int \<Rightarrow> nat \<Rightarrow> int" where
  "pixel bpp m img k = (if bpp = 16 then ld_u16 m (img + 2 * int k) else ld_u32 m (img + 4 * int k))"

definition pixel_bytes :: "int \<Rightarrow> int" where
  "pixel_bytes bpp = (if bpp = 16 then 2 else 4)"

text \<open>\<open>coadd\<close> adds an image to the sums pixel by pixel, modulo \<open>2^32\<close>, for 16-bit and 32-bit
  images, and writes nothing but the sums.\<close>

theorem coadd_adds_pixels:
  assumes "image_buf \<noteq> 0" "coadd_buff \<noteq> 0"
    and "away coadd_buff n image_buf (pixel_bytes bpp * int n)"
  shows "\<exists>m'. coadd image_buf coadd_buff (int n) bpp s = (0, s\<lparr>l_mem := m'\<rparr>) \<and>
    (\<forall>k. k < n \<longrightarrow> ld_u32 m' (coadd_buff + 4 * int k) =
      to_u32 (ld_u32 (l_mem s) (coadd_buff + 4 * int k) + pixel bpp (l_mem s) image_buf k)) \<and>
    (\<forall>a. a < coadd_buff \<or> coadd_buff + 4 * int n \<le> a \<longrightarrow> m' a = l_mem s a)"
proof (cases "bpp = 16")
  case True
  let ?m = "for_n n (\<lambda>i m. add_u32 m coadd_buff (int i) (ld_u16 m (image_buf + 2 * int i))) (l_mem s)"
  have "accumulates coadd_buff n n (\<lambda>k. k) (\<lambda>k. ld_u16 (l_mem s) (image_buf + 2 * int k)) (l_mem s) ?m"
    by (rule accum_u16) (use assms True in \<open>simp_all add: pixel_bytes_def\<close>)
  note e = elementwise [OF this]
  show ?thesis using assms(1,2) True e(1) e(2)
    by (intro exI [of _ ?m]) (simp add: coadd_def coadd16To32_def pixel_def)
next
  case False
  let ?m = "for_n n (\<lambda>i m. add_u32 m coadd_buff (int i) (ld_u32 m (image_buf + 4 * int i))) (l_mem s)"
  have "accumulates coadd_buff n n (\<lambda>k. k) (\<lambda>k. ld_u32 (l_mem s) (image_buf + 4 * int k)) (l_mem s) ?m"
    by (rule accum_u32) (use assms False in \<open>simp_all add: pixel_bytes_def\<close>)
  note e = elementwise [OF this]
  show ?thesis using assms(1,2) False e(1) e(2)
    by (intro exI [of _ ?m]) (simp add: coadd_def coadd32To32_def pixel_def)
qed

theorem coadd_adds_pixels_witness:
  "let s = logic_init\<lparr>l_mem := (\<lambda>a. if a = 1003 then 255 else if a = 2001 then 9 else 0)\<rparr> in
   \<exists>m'. coadd 2000 1000 2 16 s = (0, s\<lparr>l_mem := m'\<rparr>) \<and> ld_u32 m' 1000 = 255 * 2 ^ 24 + 9 * 2 ^ 8"
  using coadd_adds_pixels [of 2000 1000 2 16 "logic_init\<lparr>l_mem := (\<lambda>a. if a = 1003 then 255 else if a = 2001 then 9 else 0)\<rparr>"]
  by (simp add: away_def pixel_bytes_def pixel_def Let_def)
    (elim exE conjE, erule allE [where x = 0], simp add: ld_u32_def ld_u16_def to_u32_def, blast)


section \<open>Coadding samples\<close>

text \<open>The pixels arrive channel by channel, sample by sample: pixel \<open>k\<close> of the stream belongs to
  channel \<open>k mod nc\<close> of the block \<open>k div (nc * ns)\<close>, and each block of \<open>nc * ns\<close> pixels is added
  into \<open>nc\<close> sums.  The three counters hold the position in the stream.\<close>

definition target :: "nat \<Rightarrow> nat \<Rightarrow> nat \<Rightarrow> nat" where
  "target nc ns k = k div (nc * ns) * nc + k mod nc"

definition counters_at :: "nat \<Rightarrow> nat \<Rightarrow> nat \<Rightarrow> logic \<Rightarrow> bool" where
  "counters_at nc ns k s \<longleftrightarrow> l_gbl_pix s = int (k div (nc * ns) * nc) \<and>
     l_sample_cntr s = int (k mod (nc * ns) div nc) \<and> l_ch_cntr s = int (k mod nc)"

lemma mod_div_next:
  fixes k :: nat
  assumes "0 < nc" "0 < ns"
  shows "Suc k mod nc = (if k mod nc + 1 = nc then 0 else k mod nc + 1)"
    and "Suc k mod (nc * ns) div nc =
      (if k mod nc + 1 = nc then (if k mod (nc * ns) div nc + 1 = ns then 0 else k mod (nc * ns) div nc + 1)
       else k mod (nc * ns) div nc)"
    and "Suc k div (nc * ns) =
      (if k mod nc + 1 = nc \<and> k mod (nc * ns) div nc + 1 = ns then Suc (k div (nc * ns)) else k div (nc * ns))"
proof -
  define q r where "q = k div nc" and "r = k mod nc"
  have dm: "x mod (nc * ns) div nc = x div nc mod ns" "x div (nc * ns) = x div nc div ns" for x
    by (simp_all add: mod_mult2_eq div_mult2_eq assms)
  have Sq: "Suc k div nc = (if r + 1 = nc then Suc q else q)" "Suc k mod nc = (if r + 1 = nc then 0 else r + 1)"
    by (simp_all add: div_Suc mod_Suc q_def r_def)
  show "Suc k mod nc = (if k mod nc + 1 = nc then 0 else k mod nc + 1)"
    using Sq by (simp add: r_def)
  show "Suc k mod (nc * ns) div nc =
      (if k mod nc + 1 = nc then (if k mod (nc * ns) div nc + 1 = ns then 0 else k mod (nc * ns) div nc + 1)
       else k mod (nc * ns) div nc)"
    unfolding dm Sq r_def [symmetric] q_def [symmetric] by (simp add: mod_Suc)
  show "Suc k div (nc * ns) =
      (if k mod nc + 1 = nc \<and> k mod (nc * ns) div nc + 1 = ns then Suc (k div (nc * ns)) else k div (nc * ns))"
    unfolding dm Sq r_def [symmetric] q_def [symmetric] by (auto simp: div_Suc mod_Suc)
qed

lemma coadd_step_counters:
  assumes nc: "0 < nc" "int nc < 2 ^ 31" and ns: "0 < ns" "int ns < 2 ^ 31"
    and at: "counters_at nc ns k s" and fits: "int (Suc k div (nc * ns) * nc) < 2 ^ 32"
  shows "counters_at nc ns (Suc k) (coadd_step c (int ns) (int nc) v s)"
    and "l_mem (coadd_step c (int ns) (int nc) v s) = add_u32 (l_mem s) c (int (target nc ns k)) v"
    and "\<exists>g sc ch m. coadd_step c (int ns) (int nc) v s =
      s\<lparr>l_mem := m, l_gbl_pix := g, l_sample_cntr := sc, l_ch_cntr := ch\<rparr>"
proof -
  define b j r where "b = k div (nc * ns)" and "j = k mod (nc * ns) div nc" and "r = k mod nc"
  have r: "r < nc" using nc by (simp add: r_def)
  have j: "j < ns" using nc ns by (simp add: j_def mod_mult2_eq)
  have g: "l_gbl_pix s = int (b * nc)" "l_sample_cntr s = int j" "l_ch_cntr s = int r"
    using at by (simp_all add: counters_at_def b_def j_def r_def)
  have u: "to_u32 (int r + 1) = int r + 1" "to_u32 (int j + 1) = int j + 1"
    "to_u32 (int nc) = int nc" "to_u32 (int ns) = int ns"
    using r j nc ns by (simp_all add: to_u32_id)
  note nxt = mod_div_next [OF nc(1) ns(1), of k, folded b_def j_def r_def]
  have ug: "to_u32 (int (b * nc) + int nc) = int (Suc b * nc)" if "r + 1 = nc" "j + 1 = ns"
    using fits that unfolding nxt by (simp add: to_u32_id)
  have eq: "int r + 1 = int nc \<longleftrightarrow> r + 1 = nc" "int j + 1 = int ns \<longleftrightarrow> j + 1 = ns" by auto
  show "counters_at nc ns (Suc k) (coadd_step c (int ns) (int nc) v s)"
    using j ns ug unfolding counters_at_def nxt coadd_step_def Let_def
    by (simp add: g u eq del: of_nat_mult)
  show "l_mem (coadd_step c (int ns) (int nc) v s) = add_u32 (l_mem s) c (int (target nc ns k)) v"
    unfolding coadd_step_def Let_def by (simp add: g u target_def b_def r_def)
  show "\<exists>g sc ch m. coadd_step c (int ns) (int nc) v s =
      s\<lparr>l_mem := m, l_gbl_pix := g, l_sample_cntr := sc, l_ch_cntr := ch\<rparr>"
    unfolding coadd_step_def Let_def by (cases s) simp
qed

lemma target_less:
  assumes "0 < nc" "k < R * (nc * ns)"
  shows "target nc ns k < R * nc"
proof -
  have "k div (nc * ns) < R"
    using assms by (simp add: less_mult_imp_div_less)
  then have "k div (nc * ns) * nc + nc \<le> R * nc"
    by (metis Suc_leI mult_Suc mult_le_mono1 add.commute)
  moreover have "k mod nc < nc" using assms by simp
  ultimately show ?thesis by (simp add: target_def)
qed

lemma coadd_loop:
  assumes nc: "0 < nc" "int nc < 2 ^ 31" and ns: "0 < ns" "int ns < 2 ^ 31"
    and at: "counters_at nc ns k s" and fits: "k + n \<le> R * (nc * ns)" "int (R * nc) < 2 ^ 32"
  shows "counters_at nc ns (k + n) (for_n n (\<lambda>i s. coadd_step c (int ns) (int nc) (f i (l_mem s)) s) s) \<and>
    l_mem (for_n n (\<lambda>i s. coadd_step c (int ns) (int nc) (f i (l_mem s)) s) s) =
      for_n n (\<lambda>i m. add_u32 m c (int (target nc ns (k + i))) (f i m)) (l_mem s)"
  using fits(1)
proof (induction n)
  case 0
  show ?case using at by simp
next
  case (Suc n)
  let ?s = "for_n n (\<lambda>i s. coadd_step c (int ns) (int nc) (f i (l_mem s)) s) s"
  from Suc have IH: "counters_at nc ns (k + n) ?s"
    "l_mem ?s = for_n n (\<lambda>i m. add_u32 m c (int (target nc ns (k + i))) (f i m)) (l_mem s)"
    by auto
  have "Suc (k + n) div (nc * ns) \<le> R"
    using Suc.prems nc ns by (metis add_Suc_right div_le_mono nonzero_mult_div_cancel_right mult_is_0 neq0_conv)
  then have "Suc (k + n) div (nc * ns) * nc \<le> R * nc" by simp
  then have "int (Suc (k + n) div (nc * ns) * nc) < 2 ^ 32"
    using fits(2) by (meson le_less_trans of_nat_le_iff)
  from coadd_step_counters(1,2) [OF nc ns IH(1) this] IH(2) show ?case by simp
qed

text \<open>C15: coadding \<open>n\<close> 16-bit pixels from position \<open>k\<close> of the stream adds pixel \<open>i\<close> to the sum of its
  block and channel, modulo \<open>2^32\<close>, leaves the counters at position \<open>k + n\<close>, and writes nothing
  outside the \<open>R * nc\<close> sums.\<close>

theorem samplesCoadd_sums:
  assumes "image_buf \<noteq> 0" "coadd_buff \<noteq> 0" "0 < n" "0 < nc" "int nc < 2 ^ 31" "0 < ns" "int ns < 2 ^ 31"
    and "counters_at nc ns k s" "k + n \<le> R * (nc * ns)" "int (R * nc) < 2 ^ 32"
    and "away coadd_buff (R * nc) image_buf (2 * int n)"
  shows "\<exists>s'. samplesCoadd image_buf coadd_buff (int n) (int ns) 16 (int nc) nskip s = (0, s') \<and>
    counters_at nc ns (k + n) s' \<and>
    accumulates coadd_buff (R * nc) n (\<lambda>i. target nc ns (k + i))
      (\<lambda>i. ld_u16 (l_mem s) (image_buf + 2 * int i)) (l_mem s) (l_mem s')"
proof -
  let ?s = "for_n n (\<lambda>i s. coadd_step coadd_buff (int ns) (int nc) (ld_u16 (l_mem s) (image_buf + 2 * int i)) s) s"
  note loop = coadd_loop [OF assms(4-10), where c = coadd_buff and f = "\<lambda>i m. ld_u16 m (image_buf + 2 * int i)"]
  have "target nc ns (k + i) < R * nc" if "i < n" for i
    using that assms(4,9) by (intro target_less) auto
  from accum_u16 [OF this assms(11)] loop show ?thesis
    using assms(1-4,6) by (intro exI [of _ ?s]) (simp add: samplesCoadd_def samplesCoadd16To32_def)
qed

theorem samplesCoadd_sums_witness:
  "let s = logic_init\<lparr>l_mem := (\<lambda>a. if a = 2000 then 7 else if a = 2008 then 5 else 0)\<rparr> in
   \<exists>s'. samplesCoadd 2000 1000 8 2 16 2 0 s = (0, s') \<and> l_gbl_pix s' = 4 \<and>
     ld_u32 (l_mem s') 1000 = 7 \<and> ld_u32 (l_mem s') 1008 = 5"
proof -
  define s where "s = logic_init\<lparr>l_mem := (\<lambda>a. if a = 2000 then 7 else if a = 2008 then 5 else 0)\<rparr>"
  have "counters_at 2 2 0 s" by (simp add: counters_at_def s_def logic_init_def)
  then have "\<exists>s'. samplesCoadd 2000 1000 (int 8) (int 2) 16 (int 2) 0 s = (0, s') \<and>
    counters_at 2 2 (0 + 8) s' \<and>
    accumulates 1000 (2 * 2) 8 (\<lambda>i. target 2 2 (0 + i))
      (\<lambda>i. ld_u16 (l_mem s) (2000 + 2 * int i)) (l_mem s) (l_mem s')"
    by (intro samplesCoadd_sums) (simp_all add: away_def)
  then obtain s' where s': "samplesCoadd 2000 1000 8 2 16 2 0 s = (0, s')" "counters_at 2 2 8 s'"
    and acc: "accumulates 1000 4 8 (target 2 2) (\<lambda>i. ld_u16 (l_mem s) (2000 + 2 * int i)) (l_mem s) (l_mem s')"
    by auto
  have sets: "{k. k < 8 \<and> target 2 2 k = 0} = {0, 2}" "{k. k < 8 \<and> target 2 2 k = 2} = {4, 6}"
  proof -
    have u: "[0..<8] = [0, 1, 2, 3, 4, 5, 6, 7::nat]" by (simp add: upt_rec)
    have "{k. k < 8 \<and> target 2 2 k = p} = set (filter (\<lambda>k. target 2 2 k = p) [0..<8])" for p by auto
    note this [unfolded u, simp]
    show "{k. k < 8 \<and> target 2 2 k = 0} = {0, 2}" "{k. k < 8 \<and> target 2 2 k = 2} = {4, 6}"
      by (simp_all, simp_all add: target_def)
  qed
  from acc have "ld_u32 (l_mem s') (1000 + 4 * int 0) = 7" "ld_u32 (l_mem s') (1000 + 4 * int 2) = 5"
    unfolding accumulates_def by (simp_all only: sets, simp_all add: s_def ld_u32_def ld_u16_def to_u32_def)
  with s' show ?thesis
    unfolding Let_def s_def [symmetric] by (intro exI [of _ s']) (simp add: counters_at_def)
qed


text \<open>The sums do not depend on how the stream is cut: with 16-bit pixels, coadding \<open>n1 + n2\<close>
  pixels in one call or in two consecutive calls gives the same memory and the same counters.\<close>

theorem samplesCoadd_chunks:
  assumes "image_buf \<noteq> 0" "image_buf + 2 * int n1 \<noteq> 0" "coadd_buff \<noteq> 0" "0 < n1" "0 < n2"
  shows "samplesCoadd image_buf coadd_buff (int (n1 + n2)) nsamples 16 nchann nskip s =
    samplesCoadd (image_buf + 2 * int n1) coadd_buff (int n2) nsamples 16 nchann nskip
      (snd (samplesCoadd image_buf coadd_buff (int n1) nsamples 16 nchann nskip s))"
proof -
  have addr: "image_buf + 2 * int (n1 + i) = image_buf + 2 * int n1 + 2 * int i" for i by simp
  have "samplesCoadd16To32 image_buf coadd_buff (int (n1 + n2)) ns nc nskip s =
    samplesCoadd16To32 (image_buf + 2 * int n1) coadd_buff (int n2) ns nc nskip
      (snd (samplesCoadd16To32 image_buf coadd_buff (int n1) ns nc nskip s))" for ns nc nskip
    unfolding samplesCoadd16To32_def nat_int for_n_add addr using assms by simp
  with assms show ?thesis by (simp add: samplesCoadd_def Let_def)
qed

theorem samplesCoadd_chunks_witness:
  "samplesCoadd 2000 1000 5 2 16 1 0 logic_init =
    samplesCoadd 2006 1000 2 2 16 1 0 (snd (samplesCoadd 2000 1000 3 2 16 1 0 logic_init))"
  using samplesCoadd_chunks [of 2000 3 1000 2 2 1 0 logic_init] by simp

section \<open>Fowler sampling\<close>

lemma fowler_loops_flat:
  assumes "0 < nc" "0 < ns" "int (R * nc * ns) < 2 ^ 32"
  shows "fst (fowler_loops c img R ns nc m) =
    for_n (R * (nc * ns)) (\<lambda>k m. add_u32 m c (int (target nc ns k)) (ld_u16 m (img + 2 * int k))) m"
proof -
  define body where "body = (\<lambda>k (m, pix). (add_u32 m c (int (target nc ns k)) (ld_u16 m (img + 2 * pix)),
    to_u32 (pix + 1)))"
  have tgt: "target nc ns (row * (nc * ns) + (samp * nc + col)) = row * nc + col"
    if "samp < ns" "col < nc" for row samp col
  proof -
    have "samp * nc + col < nc * ns"
    proof -
      have "samp * nc + nc \<le> ns * nc" using that(1) by (metis Suc_leI mult_Suc mult_le_mono1 add.commute)
      then show ?thesis using that(2) by (simp add: mult.commute)
    qed
    then have "(row * (nc * ns) + (samp * nc + col)) div (nc * ns) = row"
      using assms(1,2) by simp
    moreover have "(row * (nc * ns) + (samp * nc + col)) mod nc = col"
      using that(2) by (simp add: mod_mult_self3 mult.left_commute [of row] mult.assoc)
    ultimately show ?thesis by (simp add: target_def)
  qed
  have fits: "to_u32 (int row * int nc) = int (row * nc)" if "row < R" for row
  proof -
    have "row * nc \<le> R * nc * ns"
      using that assms(2) by (metis le_times less_imp_le mult.commute mult_le_mono1 order_trans)
    then have "int (row * nc) < 2 ^ 32" using assms(3) by (meson le_less_trans of_nat_le_iff)
    then show ?thesis by (simp add: to_u32_id)
  qed
  have "fowler_loops c img R ns nc m = for_n R (\<lambda>row. for_n ns (\<lambda>samp. for_n nc (\<lambda>col.
    body (row * (nc * ns) + (samp * nc + col))))) (m, 0)"
    unfolding fowler_loops_def
    by (intro for_n_cong refl) (auto simp: body_def tgt fits split: prod.splits)
  also have "\<dots> = for_n (R * (nc * ns)) body (m, 0)"
  proof -
    have "for_n ns (\<lambda>samp. for_n nc (\<lambda>col. body (row * (nc * ns) + (samp * nc + col)))) st =
      for_n (nc * ns) (\<lambda>x. body (row * (nc * ns) + x)) st" for row st
      using for_n_nested [of ns nc "\<lambda>i. body (row * (nc * ns) + i)" st] by (simp add: mult.commute)
    then have "(\<lambda>row. for_n ns (\<lambda>samp. for_n nc (\<lambda>col. body (row * (nc * ns) + (samp * nc + col))))) =
      (\<lambda>row. for_n (nc * ns) (\<lambda>x. body (row * (nc * ns) + x)))" by (intro ext)
    then show ?thesis using for_n_nested [of R "nc * ns" body "(m, 0)"] by simp
  qed
  finally have flat: "fowler_loops c img R ns nc m = for_n (R * (nc * ns)) body (m, 0)" .
  have "for_n j body (m, 0) =
    (for_n j (\<lambda>k m. add_u32 m c (int (target nc ns k)) (ld_u16 m (img + 2 * int k))) m, int j)"
    if "j \<le> R * (nc * ns)" for j
    using that
  proof (induction j)
    case (Suc j)
    from Suc.prems have "Suc j \<le> R * nc * ns" by (simp add: mult.assoc)
    with assms(3) have "int (Suc j) < 2 ^ 32" by (meson le_less_trans of_nat_le_iff)
    then have "to_u32 (int j + 1) = int j + 1" by (simp add: to_u32_id)
    with Suc show ?case by (simp add: body_def)
  qed simp
  then show ?thesis by (simp add: flat)
qed

text \<open>C28: pixel-by-pixel Fowler sampling of a frame of \<open>R\<close> pixels per amplifier and \<open>ns\<close> samples adds
  pixel \<open>k\<close> to the sum of its block and amplifier, advances the Fowler pointer by the \<open>R * nc\<close> sums, and
  computes the memory that \<open>samplesCoadd\<close> computes from reset counters; line by line is the same.\<close>

theorem fowler_P2P_is_samplesCoadd:
  assumes "image_buf \<noteq> 0" "l_fowler_ptr s \<noteq> 0" "0 < nc" "int nc < 2 ^ 31" "0 < ns" "int ns < 2 ^ 31" "0 < R"
    and "int (R * nc * ns) < 2 ^ 32" "away (l_fowler_ptr s) (R * nc) image_buf (2 * int (R * nc * ns))"
  shows "\<exists>s'. LOGIC_fowler_P2P image_buf (int (R * nc * ns)) (int ns) (int nc) s = Some (0, s') \<and>
    LOGIC_fowler_L2L image_buf (int (R * nc * ns)) (int ns) (int nc) s = Some (0, s') \<and>
    l_fowler_ptr s' = l_fowler_ptr s + 4 * int (R * nc) \<and>
    accumulates (l_fowler_ptr s) (R * nc) (R * nc * ns) (target nc ns)
      (\<lambda>k. ld_u16 (l_mem s) (image_buf + 2 * int k)) (l_mem s) (l_mem s') \<and>
    l_mem s' = l_mem (snd (samplesCoadd image_buf (l_fowler_ptr s) (int (R * nc * ns)) (int ns) 16 (int nc) nskip
      (snd (reset_counters s))))"
proof -
  let ?c = "l_fowler_ptr s"
  let ?m = "for_n (R * nc * ns) (\<lambda>k m. add_u32 m ?c (int (target nc ns k)) (ld_u16 m (image_buf + 2 * int k))) (l_mem s)"
  let ?s = "s\<lparr>l_mem := ?m, l_fowler_ptr := ?c + 4 * int (R * nc)\<rparr>"
  have le: "R * nc \<le> R * nc * ns" using assms(5) by (simp add: le_times mult.commute)
  then have c32: "int (R * nc) < 2 ^ 32" using assms(8) by (meson le_less_trans of_nat_le_iff)
  then have u: "to_u32 (int R * int nc) = int (R * nc)" by (simp add: to_u32_id)
  have d: "int (R * nc * ns) div int nc div int ns = int R"
    using assms(3,5) by (simp flip: zdiv_int add: mult.assoc mult.left_commute [of _ nc])
  have flat: "fst (fowler_loops ?c image_buf R ns nc (l_mem s)) = ?m"
    using fowler_loops_flat [OF assms(3,5,8)] by (simp add: mult.assoc)
  have ls: "LOGIC_fowler_P2P image_buf (int (R * nc * ns)) (int ns) (int nc) s = Some (0, ?s)"
    "LOGIC_fowler_L2L image_buf (int (R * nc * ns)) (int ns) (int nc) s = Some (0, ?s)"
    using assms(1,2,3,5) unfolding LOGIC_fowler_P2P_def LOGIC_fowler_L2L_def Let_def d
    by (simp_all add: flat u)
  have tl: "target nc ns k < R * nc" if "k < R * nc * ns" for k
    using that assms(3) by (intro target_less) (simp_all add: mult.assoc)
  have acc: "accumulates ?c (R * nc) (R * nc * ns) (target nc ns)
      (\<lambda>k. ld_u16 (l_mem s) (image_buf + 2 * int k)) (l_mem s) ?m"
    by (rule accum_u16 [OF tl assms(9)])
  have "counters_at nc ns 0 (snd (reset_counters s))"
    by (simp add: counters_at_def reset_counters_def)
  from coadd_loop [OF assms(3-6) this, where n = "R * nc * ns" and R = R and c = ?c
      and f = "\<lambda>i m. ld_u16 m (image_buf + 2 * int i)"] c32
  have "l_mem (for_n (R * nc * ns) (\<lambda>i s. coadd_step ?c (int ns) (int nc) (ld_u16 (l_mem s) (image_buf + 2 * int i)) s)
      (snd (reset_counters s))) = ?m"
    by (simp add: reset_counters_def mult.assoc)
  then have "l_mem (snd (samplesCoadd image_buf ?c (int (R * nc * ns)) (int ns) 16 (int nc) nskip
      (snd (reset_counters s)))) = ?m"
    using assms(1-3,5,7) by (simp add: samplesCoadd_def samplesCoadd16To32_def del: of_nat_mult)
  with ls acc show ?thesis by (intro exI [of _ ?s]) simp
qed

theorem fowler_P2P_is_samplesCoadd_witness:
  "let s = logic_init\<lparr>l_fowler_ptr := 1000, l_mem := (\<lambda>a. if a = 2000 then 7 else 0)\<rparr> in
   \<exists>s'. LOGIC_fowler_P2P 2000 12 3 2 s = Some (0, s') \<and> l_fowler_ptr s' = 1016 \<and>
     l_mem s' = l_mem (snd (samplesCoadd 2000 1000 12 3 16 2 0 (snd (reset_counters s))))"
proof -
  define s where "s = logic_init\<lparr>l_fowler_ptr := 1000, l_mem := (\<lambda>a. if a = 2000 then 7 else 0)\<rparr>"
  have p: "l_fowler_ptr s = 1000" by (simp add: s_def)
  show ?thesis
    using fowler_P2P_is_samplesCoadd [of 2000 s 2 3 2 0] unfolding p Let_def s_def [symmetric]
    by (simp add: away_def) blast
qed

section \<open>The last chunk\<close>

lemma f32_quot_trunc_mult:
  assumes "0 < b" "q < 2 ^ 24"
  shows "f32_quot_trunc (q * b) b = q"
proof (cases "q = 0")
  case False
  have "nbits q \<le> 24" by (rule nbits_le [OF assms(2)])
  moreover have "rne (q * b * s) b = q * s" for s
  proof -
    have "q * b * s = b * (q * s)" by simp
    then show ?thesis using assms(1) unfolding rne_def by (simp only: nonzero_mult_div_cancel_left mod_mult_self1_is_0) simp
  qed
  ultimately show ?thesis using assms(1) False by (simp add: f32_quot_trunc_def)
qed (simp add: f32_quot_trunc_def assms(1))

lemma elems_of_exact:
  assumes "bpp = 16 \<or> bpp = 32" "0 \<le> q" "bpp div 8 * q \<le> 2 ^ 24"
  shows "elems_of (bpp div 8 * q) bpp = Some q"
proof -
  have "q < 2 ^ 24" using assms by (cases "q = 0") auto
  then have fit: "nat q < 2 ^ 24" "q < 2 ^ 32" by (simp_all add: nat_less_iff)
  have b: "to_u32 (bpp div 8 * q) = bpp div 8 * q" using assms by (auto simp: to_u32_id)
  have "f32_nat (nat (bpp div 8 * q)) = nat (bpp div 8 * q)" using assms(3) by (intro f32_nat_id) (simp add: nat_le_iff)
  moreover have "8 * nat (bpp div 8 * q) = nat q * nat bpp" using assms(1,2) by (auto simp: nat_mult_distrib)
  ultimately have "f32_quot_trunc (8 * f32_nat (nat (bpp div 8 * q))) (nat bpp) = nat q"
    using assms(1) f32_quot_trunc_mult [OF _ fit(1), of "nat bpp"] by auto
  then show ?thesis using assms(1,2) fit(2) by (auto simp: elems_of_def b Let_def)
qed

text \<open>The chunks a reader walks through tile the image: with chunks of \<open>d\<close> pixels in an image of
  \<open>c\<close> pixels, chunk \<open>k + 1\<close> starts \<open>k * d\<close> pixels into the buffer and has \<open>d\<close> pixels, or those that
  remain if they are fewer.\<close>

theorem data_pointer_tiles:
  assumes "bpp = 16 \<or> bpp = 32" "0 < mbuff" "0 < d" "0 \<le> k" "k * d \<le> c"
    and "bpp div 8 * d \<le> 2 ^ 24" "bpp div 8 * c < 2 ^ 31" "mbuff + bpp div 8 * c < 2 ^ 64"
  shows "return_data_pointer mbuff (k + 1) (bpp div 8 * c) (bpp div 8 * d) bpp =
    Some (mbuff + bpp div 8 * (k * d), Some (min d (c - k * d)))"
proof -
  define w where "w = bpp div 8"
  have w: "w = 2 \<and> bpp = 16 \<or> w = 4 \<and> bpp = 32" using assms(1) by (auto simp: w_def)
  have kd: "0 \<le> k * d" using assms by simp
  have wkd: "w * (k * d) \<le> w * c" "0 \<le> w * (k * d)" using w assms(5) kd by auto
  have pos: "to_i32 (k * (w * d)) = w * (k * d)"
    using wkd assms(7) unfolding w_def [symmetric] by (subst to_i32_id) (simp_all add: mult.left_commute)
  have rem: "to_i32 (w * c - w * (k * d)) = w * (c - k * d)"
    using wkd assms(7) unfolding w_def [symmetric] by (subst to_i32_id) (simp_all add: right_diff_distrib)
  have rem0: "0 \<le> w * (c - k * d)" "w * (c - k * d) < 2 ^ 31"
    using wkd assms(7) unfolding w_def [symmetric] by (simp_all add: right_diff_distrib)
  have dd: "to_i32 (w * d) = w * d"
    using assms(3,6) w unfolding w_def [symmetric] by (auto intro!: to_i32_id)
  have sel: "(if to_u32 (w * (c - k * d)) \<ge> w * d then to_i32 (w * d) else w * (c - k * d)) = w * min d (c - k * d)"
    using w rem0 unfolding dd by (auto simp: to_u32_id min_def)
  have el: "elems_of (w * min d (c - k * d)) bpp = Some (min d (c - k * d))"
    unfolding w_def
  proof (rule elems_of_exact [OF assms(1)])
    show "0 \<le> min d (c - k * d)" using assms by simp
    show "bpp div 8 * min d (c - k * d) \<le> 2 ^ 24" using assms(1,6) by auto
  qed
  have ptr: "pixel_ptr mbuff (w * (k * d)) bpp = mbuff + w * (k * d)"
  proof -
    have "to_u64 (w * (k * d)) = w * (k * d)" "to_u64 (mbuff + w * (k * d)) = mbuff + w * (k * d)"
      using wkd assms(2,7,8) unfolding w_def [symmetric] by (simp_all add: to_u64_id)
    then show ?thesis using w by (auto simp: pixel_ptr_def)
  qed
  show ?thesis
    unfolding return_data_pointer_def w_def [symmetric] Let_def add_diff_cancel_right' pos rem sel ptr el
    using assms(2,4) rem0(1) by simp
qed

theorem data_pointer_tiles_witness:
  "return_data_pointer 4096 3 20 8 16 = Some (4096 + 16, Some 2)"
  using data_pointer_tiles [of 16 4096 4 2 10] by simp

text \<open>The pixel count goes through a 24-bit float: a last chunk of \<open>2^25 + 2\<close> bytes, \<open>2^24 + 1\<close>
  pixels of 16 bits, is reported one pixel short.\<close>

theorem last_chunk_count_rounds:
  "return_data_pointer 4096 1 (2 ^ 25 + 2) (2 ^ 25 + 2) 16 = Some (4096, Some (2 ^ 24))"
proof -
  have "nbits 33554434 = 26" by (simp add: nbits.simps)
  then have "f32_nat 33554434 = 33554432" by (simp add: f32_nat_def rne_def)
  moreover have "nbits 16777216 = 25" by (simp add: nbits.simps)
  ultimately have "elems_of 33554434 16 = Some 16777216"
    by (simp add: elems_of_def to_u32_def f32_quot_trunc_def rne_def)
  then show ?thesis
    by (simp add: return_data_pointer_def Let_def to_i32_def to_u32_def pixel_ptr_def to_u64_def)
qed

end
