(* ===== verification/CText.thy ===== *)
theory CText imports Prelude
begin

text \<open>
  C strings: a \<open>string\<close> is the characters before the terminating NUL.  \<open>sprintf\<close> with \<open>%d\<close>,
  \<open>strtol\<close> and \<open>sscanf\<close> with \<open>%d\<close> as the C library documents them, and the round trip between the
  first two.
\<close>

definition dig :: "nat \<Rightarrow> char" where
  "dig n = char_of (48 + n)"

fun dec_nat :: "nat \<Rightarrow> string" where
  "dec_nat n = (if n < 10 then [dig n] else dec_nat (n div 10) @ [dig (n mod 10)])"

declare dec_nat.simps [simp del]

text \<open>\<open>%d\<close>\<close>

definition dec :: "int \<Rightarrow> string" where
  "dec v = (if v < 0 then CHR ''-'' # dec_nat (nat (- v)) else dec_nat (nat v))"

text \<open>\<open>sprintf (buf, "%d", v)\<close> into an array of \<open>cap\<close> characters: undefined if it does not fit.\<close>

definition sprintf_d :: "nat \<Rightarrow> int \<Rightarrow> string option" where
  "sprintf_d cap v = (if length (dec v) < cap then Some (dec v) else None)"

text \<open>\<open>strcpy\<close> into an array of \<open>cap\<close> characters.\<close>

definition strcpy :: "nat \<Rightarrow> string \<Rightarrow> string option" where
  "strcpy cap s = (if length s < cap then Some s else None)"

section \<open>Reading numbers\<close>

definition is_space :: "char \<Rightarrow> bool" where
  "is_space c = (let n = (of_char c :: nat) in n = 32 \<or> (9 \<le> n \<and> n \<le> 13))"

definition digit_of :: "nat \<Rightarrow> char \<Rightarrow> nat option" where
  "digit_of b c =
     (let n = (of_char c :: nat);
          d = (if 48 \<le> n \<and> n \<le> 57 then n - 48
               else if 65 \<le> n \<and> n \<le> 90 then n - 55
               else if 97 \<le> n \<and> n \<le> 122 then n - 87 else 36) in
      if d < b then Some d else None)"

fun digits :: "nat \<Rightarrow> nat \<Rightarrow> string \<Rightarrow> nat \<times> string" where
  "digits b acc [] = (acc, [])"
| "digits b acc (c # cs) =
     (case digit_of b c of None \<Rightarrow> (acc, c # cs) | Some d \<Rightarrow> digits b (acc * b + d) cs)"

fun starts_number :: "nat \<Rightarrow> string \<Rightarrow> bool" where
  "starts_number b [] = False"
| "starts_number b (c # cs) = (digit_of b c \<noteq> None)"

definition skip_0x :: "nat \<Rightarrow> string \<Rightarrow> string" where
  "skip_0x b s =
     (if b = 16 \<and> 2 < length s \<and> hd s = CHR ''0'' \<and> (s ! 1 = CHR ''x'' \<or> s ! 1 = CHR ''X'')
         \<and> starts_number b (drop 2 s)
      then drop 2 s else s)"

definition read_sign :: "string \<Rightarrow> bool \<times> string" where
  "read_sign s = (case s of [] \<Rightarrow> (False, [])
     | c # cs \<Rightarrow> if c = CHR ''-'' then (True, cs) else if c = CHR ''+'' then (False, cs) else (False, c # cs))"

definition clamp64 :: "int \<Rightarrow> int" where
  "clamp64 v = max (- (2 ^ 63)) (min (2 ^ 63 - 1) v)"

text \<open>The value and what \<open>*endptr\<close> points to: the whole string when there is no number.\<close>

definition strtol :: "nat \<Rightarrow> string \<Rightarrow> int \<times> string" where
  "strtol b s =
     (let (neg, t) = read_sign (dropWhile is_space s); u = skip_0x b t in
      if starts_number b u
      then (case digits b 0 u of (n, r) \<Rightarrow> (clamp64 (if neg then - int n else int n), r))
      else (0, s))"

text \<open>One \<open>%d\<close> of \<open>sscanf\<close>, stored to an \<open>int\<close>; \<open>None\<close> is a matching failure.\<close>

definition scan_d :: "string \<Rightarrow> (int \<times> string) option" where
  "scan_d s =
     (let (neg, t) = read_sign (dropWhile is_space s) in
      if starts_number 10 t then (case strtol 10 s of (v, r) \<Rightarrow> Some (to_i32 v, r)) else None)"

section \<open>Round trip\<close>

lemma of_char_dig: "d < 10 \<Longrightarrow> (of_char (dig d) :: nat) = 48 + d"
  by (simp add: dig_def of_char_of)

lemma digit_of_dig: "d < 10 \<Longrightarrow> digit_of 10 (dig d) = Some d"
  by (simp add: digit_of_def of_char_dig Let_def)

lemma digits_dec_nat: "\<exists>k. digits 10 acc (dec_nat n @ r) = digits 10 (acc * 10 ^ k + n) r"
proof (induction n arbitrary: r rule: dec_nat.induct)
  case (1 n)
  show ?case
  proof (cases "n < 10")
    case True
    then have "digits 10 acc (dec_nat n @ r) = digits 10 (acc * 10 ^ 1 + n) r"
      by (simp add: dec_nat.simps [of n] digit_of_dig)
    then show ?thesis by blast
  next
    case False
    obtain k where "digits 10 acc (dec_nat (n div 10) @ [dig (n mod 10)] @ r)
        = digits 10 (acc * 10 ^ k + n div 10) ([dig (n mod 10)] @ r)"
      using 1 [OF False] by blast
    moreover have "(acc * 10 ^ k + n div 10) * 10 + n mod 10 = acc * 10 ^ Suc k + n"
      by (simp add: algebra_simps)
    ultimately have "digits 10 acc (dec_nat n @ r) = digits 10 (acc * 10 ^ Suc k + n) r"
      using False by (simp add: dec_nat.simps [of n] digit_of_dig) (simp add: ac_simps)
    then show ?thesis by blast
  qed
qed

lemma dec_nat_starts: "\<exists>d cs. d < 10 \<and> dec_nat n = dig d # cs"
proof (induction n rule: dec_nat.induct)
  case (1 n)
  show ?case
  proof (cases "n < 10")
    case False
    then show ?thesis using 1 [OF False] by (auto simp: dec_nat.simps [of n])
  qed (auto simp: dec_nat.simps [of n])
qed

lemma dig_plain: "d < 10 \<Longrightarrow> \<not> is_space (dig d) \<and> dig d \<noteq> CHR ''-'' \<and> dig d \<noteq> CHR ''+''"
proof -
  assume "d < 10"
  from of_char_dig [OF this] have n: "(of_char (dig d) :: nat) = 48 + d" .
  have "dig d \<noteq> CHR ''-''" "dig d \<noteq> CHR ''+''" using n by auto
  then show ?thesis by (simp add: is_space_def n)
qed

lemma strtol_dec_nat:
  "read_sign (dropWhile is_space (dec_nat n)) = (False, dec_nat n)"
  "starts_number 10 (dec_nat n)" "digits 10 0 (dec_nat n) = (n, [])"
proof -
  obtain d cs where d: "d < 10" "dec_nat n = dig d # cs" using dec_nat_starts by blast
  then show "read_sign (dropWhile is_space (dec_nat n)) = (False, dec_nat n)" "starts_number 10 (dec_nat n)"
    using dig_plain [OF d(1)] by (simp_all add: read_sign_def digit_of_dig)
  show "digits 10 0 (dec_nat n) = (n, [])"
    using digits_dec_nat [of 0 n "[]"] by auto
qed

lemma strtol_dec:
  assumes "- (2 ^ 63) \<le> v" "v < 2 ^ 63"
  shows "strtol 10 (dec v) = (v, [])"
proof (cases "v < 0")
  case True
  have "read_sign (dropWhile is_space (dec v)) = (True, dec_nat (nat (- v)))"
    using True by (simp add: dec_def read_sign_def is_space_def)
  then show ?thesis
    using True assms strtol_dec_nat [of "nat (- v)"] by (simp add: strtol_def skip_0x_def clamp64_def)
next
  case False
  then show ?thesis
    using assms strtol_dec_nat [of "nat v"] by (simp add: strtol_def skip_0x_def clamp64_def dec_def)
qed

lemma dec_nat_length: "n < 10 ^ Suc k \<Longrightarrow> length (dec_nat n) \<le> Suc k"
proof (induction k arbitrary: n)
  case 0
  then show ?case by (simp add: dec_nat.simps)
next
  case (Suc k)
  show ?case
  proof (cases "n < 10")
    case False
    have "n div 10 < 10 ^ Suc k" using Suc.prems by (simp add: less_mult_imp_div_less)
    from Suc.IH [OF this] False show ?thesis by (simp add: dec_nat.simps [of n])
  qed (simp add: dec_nat.simps)
qed

lemma sprintf_d_fits: "0 \<le> v \<Longrightarrow> v < 10 ^ Suc k \<Longrightarrow> sprintf_d (k + 2) v = Some (dec v)"
proof -
  assume v: "0 \<le> v" "v < 10 ^ Suc k"
  then have "nat v < 10 ^ Suc k" by (simp add: nat_less_iff)
  from dec_nat_length [OF this] v(1) show ?thesis by (simp add: sprintf_d_def dec_def)
qed

lemma dec_nonempty: "dec v \<noteq> []"
  using dec_nat_starts [of "nat v"] by (auto simp: dec_def)

text \<open>Numbers with \<open>%d\<close> never look hexadecimal.\<close>

lemma dec_not_0x: "2 \<le> length (dec v) \<Longrightarrow> \<not> (dec v ! 0 = CHR ''0'' \<and> dec v ! 1 = CHR ''x'')"
proof -
  have n: "dec_nat n ! 1 \<noteq> CHR ''x''" if "2 \<le> length (dec_nat n)" for n
    using that
  proof (induction n rule: dec_nat.induct)
    case (1 n)
    then have ge: "\<not> n < 10" by (auto simp: dec_nat.simps [of n])
    have x: "dig d \<noteq> CHR ''x''" if "d < 10" for d
      using of_char_dig [OF that] that by auto
    show ?case
    proof (cases "2 \<le> length (dec_nat (n div 10))")
      case True
      with 1(1) [OF ge] ge show ?thesis by (simp add: dec_nat.simps [of n] nth_append)
    next
      case False
      then have "length (dec_nat (n div 10)) = 1"
        using dec_nat_starts [of "n div 10"] by (cases "dec_nat (n div 10)") (auto simp: not_less_eq_eq)
      with ge x [of "n mod 10"] show ?thesis by (simp add: dec_nat.simps [of n] nth_append)
    qed
  qed
  assume "2 \<le> length (dec v)"
  then show ?thesis using n [of "nat v"] by (auto simp: dec_def)
qed

end
