(* ===== verification/SimDriver.thy ===== *)
theory SimDriver imports CText
begin

text \<open>
  The constants of \<open>sdsu_defs.h\<close> and the simulated detector controller,
  \<open>PAN/Modules/SDSU/private/c/src/driver_api/sim/simLib.c\<close> (with \<open>simLib.h\<close>): its memory cells, its
  commands and the state machine of an exposure.  The globals are the record \<open>sim\<close>.

  Parameters (\<open>simenv\<close>): the random pixel values, the disk image library, the difference of two
  clock readings in milliseconds.  A pixel written through a null pointer is \<open>None\<close>.
\<close>

section \<open>Commands, boards and memory spaces\<close>

abbreviation (input) NOT_IN_TABLE :: int where "NOT_IN_TABLE \<equiv> -1"
abbreviation (input) NONE :: int where "NONE \<equiv> -1"
abbreviation (input) DEF_TIMEOUT :: int where "DEF_TIMEOUT \<equiv> -1"
abbreviation (input) DONE :: int where "DONE \<equiv> 0"
abbreviation (input) PCI_ID :: int where "PCI_ID \<equiv> 1"
abbreviation (input) TIM_ID :: int where "TIM_ID \<equiv> 2"
abbreviation (input) UTIL_ID :: int where "UTIL_ID \<equiv> 3"
abbreviation (input) P_MEM :: int where "P_MEM \<equiv> 0x100000"
abbreviation (input) X_MEM :: int where "X_MEM \<equiv> 0x200000"
abbreviation (input) Y_MEM :: int where "Y_MEM \<equiv> 0x400000"
abbreviation (input) R_MEM :: int where "R_MEM \<equiv> 0x800000"

abbreviation (input) TOUT :: int where "TOUT \<equiv> 0x544F5554"
abbreviation (input) DON :: int where "DON \<equiv> 0x444F4E"
abbreviation (input) ERR :: int where "ERR \<equiv> 0x455252"
abbreviation (input) TDL :: int where "TDL \<equiv> 0x54444C"
abbreviation (input) RDM :: int where "RDM \<equiv> 0x52444D"
abbreviation (input) WRM :: int where "WRM \<equiv> 0x57524D"
abbreviation (input) SEX :: int where "SEX \<equiv> 0x534558"
abbreviation (input) SET :: int where "SET \<equiv> 0x534554"
abbreviation (input) PEX :: int where "PEX \<equiv> 0x504558"
abbreviation (input) REX :: int where "REX \<equiv> 0x524558"
abbreviation (input) RET :: int where "RET \<equiv> 0x524554"
abbreviation (input) AEX :: int where "AEX \<equiv> 0x414558"
abbreviation (input) PON :: int where "PON \<equiv> 0x504F4E"
abbreviation (input) POF :: int where "POF \<equiv> 0x504F46"
abbreviation (input) MPP :: int where "MPP \<equiv> 0x4D5050"
abbreviation (input) SNC :: int where "SNC \<equiv> 0x534E43"
abbreviation (input) SNR :: int where "SNR \<equiv> 0x534E52"
abbreviation (input) FPB :: int where "FPB \<equiv> 0x465042"
abbreviation (input) SSS :: int where "SSS \<equiv> 0x535353"
abbreviation (input) SSP :: int where "SSP \<equiv> 0x535350"
abbreviation (input) CDS :: int where "CDS \<equiv> 0x434453"
abbreviation (input) SFS :: int where "SFS \<equiv> 0x534653"
abbreviation (input) LDA :: int where "LDA \<equiv> 0x4C4441"
abbreviation (input) RCC :: int where "RCC \<equiv> 0x524343"
abbreviation (input) CLR :: int where "CLR \<equiv> 0x434C52"
abbreviation (input) IDL :: int where "IDL \<equiv> 0x49444C"
abbreviation (input) STP :: int where "STP \<equiv> 0x535450"
abbreviation (input) CSH :: int where "CSH \<equiv> 0x435348"
abbreviation (input) OSH :: int where "OSH \<equiv> 0x4F5348"
abbreviation (input) ABORT_READOUT :: int where "ABORT_READOUT \<equiv> 0x8079"
abbreviation (input) HTF_BITS :: int where "HTF_BITS \<equiv> 0x38"

abbreviation (input) OPTICAL :: int where "OPTICAL \<equiv> 0"
abbreviation (input) NIR :: int where "NIR \<equiv> 1"
abbreviation (input) ARTIFDET :: int where "ARTIFDET \<equiv> 0"
abbreviation (input) COLRAMP :: int where "COLRAMP \<equiv> 1"
abbreviation (input) FILEIMG :: int where "FILEIMG \<equiv> 3"
abbreviation (input) DEFBIASLEVEL :: int where "DEFBIASLEVEL \<equiv> 4000"
abbreviation (input) DEFSIGLEVEL :: int where "DEFSIGLEVEL \<equiv> 2000"
abbreviation (input) DEFRON :: int where "DEFRON \<equiv> 10"
abbreviation (input) MAXADDS :: nat where "MAXADDS \<equiv> 4096"

section \<open>State\<close>

record add_t =
  a_board :: int
  a_type :: int
  a_address :: int
  a_value :: int

record sim =
  v_alldone :: bool
  v_fpb :: int
  v_framescntr :: int
  v_dettype :: int
  v_cds :: int
  v_nsamp :: int
  v_sampcntr :: int
  v_ncoadd :: int
  v_totexptime :: int
  v_resetting :: bool
  v_reading :: bool
  v_clearing :: bool
  v_beg :: int
  v_highmem :: int
  v_currptr :: int
  v_mapcnt :: int
  v_opened_mapsize :: int
  v_maxmappix :: int
  v_totpix :: int
  v_adds :: "add_t list"
  v_chunk :: int
  v_xstart :: int
  v_ystart :: int
  v_xlen :: int
  v_ylen :: int
  v_xoverscan :: int
  v_xprescan :: int
  v_namps :: int
  v_artifdata :: int
  v_biaslevel :: int
  v_ron :: int
  v_siglevel :: int
  v_mem :: mem

definition sim_start :: sim where
  "sim_start = \<lparr>v_alldone = False, v_fpb = 1, v_framescntr = 0, v_dettype = OPTICAL, v_cds = 1, v_nsamp = 1,
     v_sampcntr = 0, v_ncoadd = 1, v_totexptime = 0, v_resetting = False, v_reading = False, v_clearing = False,
     v_beg = 0, v_highmem = 0, v_currptr = 0, v_mapcnt = 0, v_opened_mapsize = 0, v_maxmappix = 0,
     v_totpix = 0, v_adds = [], v_chunk = 65535, v_xstart = 0, v_ystart = 0, v_xlen = 0, v_ylen = 0,
     v_xoverscan = 0, v_xprescan = 0, v_namps = 1, v_artifdata = ARTIFDET, v_biaslevel = DEFBIASLEVEL,
     v_ron = DEFRON, v_siglevel = DEFSIGLEVEL, v_mem = (\<lambda>_. 0)\<rparr>"

text \<open>\<open>e_noise s totsignal i\<close> is what a random pixel stores, \<open>e_image s\<close> memory after
  \<open>DSKIMG_GetPixels\<close>, \<open>e_params\<close> the result of \<open>DSKIMG_SetParams\<close>, \<open>e_ms beg end\<close> the
  conversion \<open>(int)(end-beg)\<close>, \<open>e_made device\<close> the outcome of creating and mapping the file of a device
  (an error number, or the descriptor and the address), \<open>e_errno\<close> is \<open>errno\<close> after \<open>mmap\<close>.\<close>

record simenv =
  e_noise :: "sim \<Rightarrow> int \<Rightarrow> nat \<Rightarrow> int"
  e_image :: "sim \<Rightarrow> mem"
  e_params :: "string \<Rightarrow> int"
  e_ms :: "int \<Rightarrow> int \<Rightarrow> int"
  e_made :: "int \<Rightarrow> int + int \<times> int"
  e_errno :: int

section \<open>Memory cells of the boards\<close>

text \<open>The search loop: the index of the cell, if there is one.\<close>

fun find_cell :: "int \<Rightarrow> int \<Rightarrow> int \<Rightarrow> add_t list \<Rightarrow> nat option" where
  "find_cell board ty add [] = None"
| "find_cell board ty add (c # cs) =
     (if a_board c = board \<and> a_type c = ty \<and> a_address c = add then Some 0
      else map_option Suc (find_cell board ty add cs))"

text \<open>When the table is full its last cell is reused.\<close>

definition find_sim_add :: "int \<Rightarrow> int \<Rightarrow> int \<Rightarrow> sim \<Rightarrow> nat \<times> sim" where
  "find_sim_add board ty add s =
     (case find_cell board ty add (v_adds s) of
        Some i \<Rightarrow> (i, s)
      | None \<Rightarrow>
          (let n = length (v_adds s);
               c = \<lparr>a_board = board, a_type = ty, a_address = add, a_value = 0\<rparr> in
           if n = MAXADDS then (MAXADDS - 1, s\<lparr>v_adds := (v_adds s)[MAXADDS - 1 := c]\<rparr>)
           else (n, s\<lparr>v_adds := v_adds s @ [c]\<rparr>)))"

definition set_sim_add :: "int \<Rightarrow> int \<Rightarrow> int \<Rightarrow> int \<Rightarrow> sim \<Rightarrow> sim" where
  "set_sim_add board ty add v s =
     (case find_sim_add board ty add s of
        (i, s1) \<Rightarrow> s1\<lparr>v_adds := (v_adds s1)[i := (v_adds s1 ! i)\<lparr>a_value := v\<rparr>]\<rparr>)"

definition get_sim_add :: "int \<Rightarrow> int \<Rightarrow> int \<Rightarrow> sim \<Rightarrow> int \<times> sim" where
  "get_sim_add board ty add s =
     (case find_sim_add board ty add s of (i, s1) \<Rightarrow> (a_value (v_adds s1 ! i), s1))"

section \<open>Commands\<close>

text \<open>\<open>cmd_data\<close> is never written: it holds zeros.\<close>

definition sim_read_reply :: "int \<Rightarrow> int" where
  "sim_read_reply expected =
     (let v = 0 in
      if v \<noteq> expected then
        (if v = ERR then - EIO else if v = TOUT then - ETIME else if expected \<noteq> 0 then - EIO else v)
      else DONE)"

definition reset_buffer :: "sim \<Rightarrow> sim" where
  "reset_buffer s = s\<lparr>v_currptr := v_highmem s, v_mapcnt := 0\<rparr>"

text \<open>\<open>now\<close> is the clock.\<close>

definition sim_do_command ::
  "simenv \<Rightarrow> int \<Rightarrow> int \<Rightarrow> int \<Rightarrow> int \<Rightarrow> int \<Rightarrow> int \<Rightarrow> int \<Rightarrow> int \<Rightarrow> int \<Rightarrow> int \<Rightarrow> sim \<Rightarrow> int \<times> sim" where
  "sim_do_command env now fd board command arg1 arg2 arg3 arg4 expected timeout s =
     (if command = SEX then
        (let s1 = (reset_buffer s)\<lparr>v_beg := now, v_framescntr := 0\<rparr>;
             s2 = (if v_fpb s1 \<le> 0 then s1\<lparr>v_fpb := 1\<rparr> else s1);
             s3 = (if v_ron s2 < 0 then s2\<lparr>v_ron := DEFRON\<rparr> else s2);
             s4 = (if v_biaslevel s3 < 0 then s3\<lparr>v_biaslevel := DEFBIASLEVEL\<rparr> else s3) in
         (DONE, s4\<lparr>v_clearing := True, v_resetting := False, v_reading := False, v_alldone := False, v_totexptime := 0\<rparr>))
      else if command = FPB then (DONE, s\<lparr>v_fpb := arg1\<rparr>)
      else if command = SSS then
        (DONE, s\<lparr>v_xoverscan := arg1, v_xlen := arg2, v_ylen := arg3, v_xprescan := arg4\<rparr>)
      else if command = SSP then (DONE, s\<lparr>v_xstart := arg1, v_ystart := arg2\<rparr>)
      else if command = SET then (DONE, s)
      else if command = RET then
        (let t = max 0 (e_ms env (v_beg s) now) in (t, s\<lparr>v_totexptime := t\<rparr>))
      else if command = WRM then
        (DONE, set_sim_add (to_u32 board) (to_u32 arg1 AND 0xF00000) (to_u32 arg1 AND 0x0FFFFF) arg2 s)
      else if command = RDM then
        get_sim_add (to_u32 board) (to_u32 arg1 AND 0xF00000) (to_u32 arg1 AND 0x0FFFFF) s
      else if command = RCC then
        (if v_dettype s = NIR then (0x10 + 0x20 + 0x5, s) else (0x10 + 0x20 + 0x1, s))
      else if command = SNR \<or> command = SFS then
        (if v_dettype s = NIR then (DONE, s\<lparr>v_nsamp := arg1\<rparr>) else (- EIO, s))
      else if command = SNC then
        (if v_dettype s = NIR then (DONE, s\<lparr>v_ncoadd := arg1\<rparr>) else (- EIO, s))
      else if command = CDS then
        (if v_dettype s = NIR then (DONE, s\<lparr>v_cds := arg1\<rparr>) else (- EIO, s))
      else (DONE, s))"

definition sim_set_size :: "int \<Rightarrow> int \<Rightarrow> sim \<Rightarrow> int \<times> sim" where
  "sim_set_size ncols nrows s = (DONE, s\<lparr>v_totpix := to_i32 (ncols * nrows)\<rparr>)"

section \<open>The readout\<close>

definition put_sim :: "int \<Rightarrow> sim \<Rightarrow> sim" where
  "put_sim v s =
     (let s1 = s\<lparr>v_mem := st_u16 (v_mem s) (v_currptr s) (to_u16 v), v_currptr := v_currptr s + 2,
                v_mapcnt := to_i32 (v_mapcnt s + 1)\<rparr> in
      if v_mapcnt s1 \<ge> v_maxmappix s1 then reset_buffer s1 else s1)"

definition get_chunk :: "simenv \<Rightarrow> bool \<Rightarrow> sim \<Rightarrow> (int \<times> sim) option" where
  "get_chunk env expo s =
     (let totsignal = (if expo then to_i32 (v_siglevel s * v_totexptime s) else 0);
          s1 =
            (if v_artifdata s = FILEIMG then
               (let s' = s\<lparr>v_mem := e_image env s, v_mapcnt := v_chunk s\<rparr> in
                Some (if v_chunk s > v_maxmappix s then reset_buffer s' else s'))
             else if v_artifdata s = ARTIFDET then
               (if 0 < v_chunk s \<and> v_currptr s = 0 then None
                else Some (for_n (nat (v_chunk s)) (\<lambda>i t. put_sim (e_noise env s totsignal i) t) s))
             else if v_artifdata s = COLRAMP then
               (if v_namps s = 0 then None
                else (let turns = nat (cdiv (v_chunk s) (v_namps s)) in
                  if 0 < turns \<and> 0 < v_namps s \<and> v_currptr s = 0 then None
                  else Some (for_n turns (\<lambda>i. for_n (nat (v_namps s)) (\<lambda>_. put_sim (int i))) s)))
             else Some s) in
      map_option (\<lambda>s. (v_mapcnt s, s)) s1)"

text \<open>The end of a frame: \<open>framescntr\<close> and the buffer.\<close>

definition frame_done :: "sim \<Rightarrow> sim" where
  "frame_done s =
     (let s1 = s\<lparr>v_sampcntr := to_i32 (v_sampcntr s + 1), v_framescntr := to_i32 (v_framescntr s + 1)\<rparr> in
      if v_framescntr s1 \<ge> v_fpb s1 then (reset_buffer s1)\<lparr>v_framescntr := 0\<rparr> else s1)"

definition get_data_progress :: "simenv \<Rightarrow> int \<Rightarrow> sim \<Rightarrow> (int \<times> sim) option" where
  "get_data_progress env now s =
     (if v_alldone s then Some (v_mapcnt s, s)
      else if v_clearing s then
        (let s1 = s\<lparr>v_clearing := False\<rparr> in
         Some (-1, if v_dettype s = NIR
                   then (let s2 = (if v_cds s1 = 1 then s1\<lparr>v_resetting := True\<rparr> else s1\<lparr>v_reading := True\<rparr>) in
                         if v_nsamp s2 = 0 then s2\<lparr>v_nsamp := 1\<rparr> else s2)
                   else s1\<lparr>v_reading := True, v_nsamp := 1\<rparr>))
      else if v_resetting s then
        map_option (\<lambda>(pix, s1).
          if pix \<ge> v_totpix s1
          then (let s2 = frame_done s1 in
                (v_totpix s1,
                 if v_sampcntr s2 \<ge> v_nsamp s2
                 then s2\<lparr>v_sampcntr := 0, v_resetting := False, v_reading := True, v_beg := now\<rparr> else s2))
          else (pix, s1)) (get_chunk env False s)
      else if v_reading s then
        map_option (\<lambda>(pix, s1).
          if pix \<ge> v_totpix s1
          then (let s2 = frame_done s1 in
                (v_totpix s1,
                 if v_sampcntr s2 \<ge> v_nsamp s2
                 then (reset_buffer s2)\<lparr>v_sampcntr := 0, v_clearing := False, v_resetting := False,
                        v_reading := False, v_alldone := True\<rparr> else s2))
          else (pix, s1)) (get_chunk env True s)
      else Some (0, s))"

definition sim_get_frames_progress :: "simenv \<Rightarrow> int \<Rightarrow> sim \<Rightarrow> (int \<times> sim) option" where
  "sim_get_frames_progress env now s = get_data_progress env now (s\<lparr>v_chunk := v_totpix s\<rparr>)"

definition sim_get_read_progress :: "simenv \<Rightarrow> int \<Rightarrow> sim \<Rightarrow> (int \<times> sim) option" where
  "sim_get_read_progress env now s = get_data_progress env now (s\<lparr>v_chunk := 65535\<rparr>)"

section \<open>Synthetic data\<close>

text \<open>\<open>sscanf\<close> with up to three \<open>%d\<close>: the numbers that match.\<close>

fun scan_ints :: "nat \<Rightarrow> string \<Rightarrow> int list" where
  "scan_ints 0 s = []"
| "scan_ints (Suc n) s = (case scan_d s of None \<Rightarrow> [] | Some (v, r) \<Rightarrow> v # scan_ints n r)"

definition scanned :: "int list \<Rightarrow> nat \<Rightarrow> int \<Rightarrow> int" where
  "scanned vs i old = (if i < length vs then vs ! i else old)"

text \<open>A signal level of 0 or less sets \<open>biaslevel\<close>, as in the code.\<close>

definition sim_artif_pattern :: "simenv \<Rightarrow> int \<Rightarrow> string \<Rightarrow> sim \<Rightarrow> int \<times> sim" where
  "sim_artif_pattern env ty args s =
     (if ty = COLRAMP then
        (let n = scanned (scan_ints 1 args) 0 (v_namps s) in
         (DONE, s\<lparr>v_artifdata := COLRAMP, v_namps := (if n \<le> 0 then 1 else n)\<rparr>))
      else if ty = ARTIFDET then
        (let vs = scan_ints 3 args;
             s1 = s\<lparr>v_artifdata := ARTIFDET, v_biaslevel := scanned vs 0 (v_biaslevel s),
                    v_siglevel := scanned vs 1 (v_siglevel s), v_ron := scanned vs 2 (v_ron s)\<rparr>;
             s2 = (if v_biaslevel s1 \<le> 0 then s1\<lparr>v_biaslevel := DEFBIASLEVEL\<rparr> else s1);
             s3 = (if v_siglevel s2 \<le> 0 then s2\<lparr>v_biaslevel := DEFSIGLEVEL\<rparr> else s2);
             s4 = (if v_ron s3 < 0 then s3\<lparr>v_ron := DEFRON\<rparr> else s3) in
         (DONE, s4))
      else if ty = FILEIMG then
        (let s1 = s\<lparr>v_artifdata := FILEIMG\<rparr> in
         if e_params env args < 0 then (e_params env args, s1) else (DONE, s1))
      else (DONE, s))"

definition sim_get_link_info :: string where
  "sim_get_link_info = ''simulated''"

definition sim_get_cont_info :: string where
  "sim_get_cont_info = ''SDSU GenIII (simulated)''"

section \<open>Opening and closing\<close>

text \<open>The result is the return value and what is stored to \<open>*highmemPtr\<close>.  Only a null address from
  \<open>mmap\<close> is taken for a failure.\<close>

definition sim_open_drv :: "simenv \<Rightarrow> int \<Rightarrow> int \<Rightarrow> string \<Rightarrow> sim \<Rightarrow> (int \<times> int option) \<times> sim" where
  "sim_open_drv env device mapsize params s =
     (case e_made env device of
        Inl e \<Rightarrow> ((- e, None), s)
      | Inr (fd, p) \<Rightarrow>
          (let s1 = s\<lparr>v_highmem := p\<rparr> in
           if p = 0 then ((- e_errno env, Some p), s1)
           else ((fd, Some p),
                 s1\<lparr>v_opened_mapsize := mapsize, v_maxmappix := cdiv mapsize 2,
                    v_dettype := (if params = ''NIR'' then NIR else OPTICAL)\<rparr>)))"

definition sim_close_drv :: "sim \<Rightarrow> int \<times> sim" where
  "sim_close_drv s = (DONE, s)"

text \<open>The calls with nothing behind them.\<close>

definition sim_no_op :: "sim \<Rightarrow> int \<times> sim" where
  "sim_no_op s = (DONE, s)"

definition sim_get_hstr :: int where
  "sim_get_hstr = 0"

end
