(* ===== verification/Sdsu.thy ===== *)
theory Sdsu imports SimDriver CFloat "HOL-Library.Monad_Syntax"
begin

text \<open>
  The detector controller library, \<open>PAN/Modules/SDSU/private/c/src/driver_api/sdsuLib.c\<close>: the table of
  command names, the function pointers into the driver library, and the commands built on the driver's
  \<open>do_command\<close>.  The globals are the record \<open>'d sdsu\<close>; \<open>'d\<close> is the state of the driver behind the
  pointers, a parameter of the library that \<open>SimDriver\<close> provides.

  Operations return \<open>None\<close> where C is undefined: a call through a null function pointer, a string
  copied or printed into an array that is too short, a command table with more than 60 entries.
\<close>

section \<open>State\<close>

record cmd_t =
  c_command :: string
  c_dsp :: string
  c_type :: int
  c_memtype :: int
  c_address :: int
  c_bit :: int

abbreviation (input) DSPCMD :: int where "DSPCMD \<equiv> 0"
abbreviation (input) ADDRESS :: int where "ADDRESS \<equiv> 1"
abbreviation (input) BIT :: int where "BIT \<equiv> 2"
abbreviation (input) MAX_CMDS :: nat where "MAX_CMDS \<equiv> 60"

type_synonym 'd call = "'d \<Rightarrow> (int \<times> 'd) option"

text \<open>The function pointers; \<open>None\<close> is a null pointer.\<close>

record 'd dhe =
  h_open :: "(int \<Rightarrow> int \<Rightarrow> string \<Rightarrow> 'd \<Rightarrow> (int \<times> int option) \<times> 'd) option"
  h_close :: "(int \<Rightarrow> 'd call) option"
  h_read_reply :: "(int \<Rightarrow> int \<Rightarrow> int \<Rightarrow> 'd call) option"
  h_get_progress :: "(int \<Rightarrow> 'd call) option"
  h_get_frame_progress :: "(int \<Rightarrow> 'd call) option"
  h_get_hctr :: "(int \<Rightarrow> 'd call) option"
  h_get_hstr :: "(int \<Rightarrow> 'd call) option"
  h_set_cmd_data :: "(int \<Rightarrow> int \<Rightarrow> 'd call) option"
  h_do_command :: "(int \<Rightarrow> int \<Rightarrow> int \<Rightarrow> int \<Rightarrow> int \<Rightarrow> int \<Rightarrow> int \<Rightarrow> int \<Rightarrow> int \<Rightarrow> 'd call) option"
  h_set_hctr :: "(int \<Rightarrow> 'd call) option"
  h_set_hcvr :: "(int \<Rightarrow> int \<Rightarrow> int \<Rightarrow> int \<Rightarrow> 'd call) option"
  h_reset_controller :: "(int \<Rightarrow> 'd call) option"
  h_reset_pci :: "(int \<Rightarrow> 'd call) option"
  h_load_pci :: "(int \<Rightarrow> string \<Rightarrow> 'd call) option"
  h_set_size :: "(int \<Rightarrow> int \<Rightarrow> int \<Rightarrow> 'd call) option"
  h_get_link_info :: "(int \<Rightarrow> 'd \<Rightarrow> string) option"
  h_get_cont_info :: "(int \<Rightarrow> 'd \<Rightarrow> string) option"
  h_set_pixtime :: bool
  h_get_pixtime :: bool
  h_artif_data :: "(int \<Rightarrow> int \<Rightarrow> string \<Rightarrow> 'd call) option"

record 'd sdsu =
  sd_dhe :: "'d dhe"
  sd_dev :: 'd
  sd_cmds :: "cmd_t list"
  sd_master :: int
  sd_dest :: int
  sd_bufsize :: int
  sd_opened :: bool
  sd_opars :: string
  sd_overscan :: int
  sd_prescan :: int
  sd_xdata :: int
  sd_ydata :: int
  sd_ncols :: int
  sd_nrows :: int
  sd_speed :: int
  sd_gain :: int

definition no_dhe :: "'d dhe" where
  "no_dhe = \<lparr>h_open = None, h_close = None, h_read_reply = None, h_get_progress = None,
     h_get_frame_progress = None, h_get_hctr = None, h_get_hstr = None, h_set_cmd_data = None,
     h_do_command = None, h_set_hctr = None, h_set_hcvr = None, h_reset_controller = None,
     h_reset_pci = None, h_load_pci = None, h_set_size = None, h_get_link_info = None,
     h_get_cont_info = None, h_set_pixtime = False, h_get_pixtime = False, h_artif_data = None\<rparr>"

definition sdsu_start :: "'d \<Rightarrow> 'd sdsu" where
  "sdsu_start d = \<lparr>sd_dhe = no_dhe, sd_dev = d, sd_cmds = [], sd_master = TIM_ID, sd_dest = TIM_ID,
     sd_bufsize = 512 * 1024 * 1024, sd_opened = False, sd_opars = [], sd_overscan = 0, sd_prescan = 0,
     sd_xdata = 0, sd_ydata = 0, sd_ncols = 0, sd_nrows = 0, sd_speed = -1, sd_gain = -1\<rparr>"

section \<open>Loading the driver library\<close>

text \<open>One \<open>dlsym\<close> each: the pointer is stored, then \<open>dlerror\<close> is checked.  A missing symbol is
  \<open>None\<close> in \<open>lib\<close>.\<close>

definition lib_steps :: "'d dhe \<Rightarrow> (('d dhe \<Rightarrow> 'd dhe) \<times> bool) list" where
  "lib_steps lib =
     [(h_open_update (\<lambda>_. h_open lib), h_open lib \<noteq> None),
      (h_close_update (\<lambda>_. h_close lib), h_close lib \<noteq> None),
      (h_read_reply_update (\<lambda>_. h_read_reply lib), h_read_reply lib \<noteq> None),
      (h_get_progress_update (\<lambda>_. h_get_progress lib), h_get_progress lib \<noteq> None),
      (h_get_frame_progress_update (\<lambda>_. h_get_frame_progress lib), h_get_frame_progress lib \<noteq> None),
      (h_get_hctr_update (\<lambda>_. h_get_hctr lib), h_get_hctr lib \<noteq> None),
      (h_get_hstr_update (\<lambda>_. h_get_hstr lib), h_get_hstr lib \<noteq> None),
      (h_set_cmd_data_update (\<lambda>_. h_set_cmd_data lib), h_set_cmd_data lib \<noteq> None),
      (h_do_command_update (\<lambda>_. h_do_command lib), h_do_command lib \<noteq> None),
      (h_set_hcvr_update (\<lambda>_. h_set_hcvr lib), h_set_hcvr lib \<noteq> None),
      (h_reset_controller_update (\<lambda>_. h_reset_controller lib), h_reset_controller lib \<noteq> None),
      (h_reset_pci_update (\<lambda>_. h_reset_pci lib), h_reset_pci lib \<noteq> None),
      (h_load_pci_update (\<lambda>_. h_load_pci lib), h_load_pci lib \<noteq> None),
      (h_set_size_update (\<lambda>_. h_set_size lib), h_set_size lib \<noteq> None),
      (h_get_link_info_update (\<lambda>_. h_get_link_info lib), h_get_link_info lib \<noteq> None),
      (h_get_cont_info_update (\<lambda>_. h_get_cont_info lib), h_get_cont_info lib \<noteq> None),
      (h_set_pixtime_update (\<lambda>_. h_set_pixtime lib), h_set_pixtime lib),
      (h_get_pixtime_update (\<lambda>_. h_get_pixtime lib), h_get_pixtime lib),
      (h_artif_data_update (\<lambda>_. h_artif_data lib), h_artif_data lib \<noteq> None)]"

fun load_lib :: "(('d dhe \<Rightarrow> 'd dhe) \<times> bool) list \<Rightarrow> 'd dhe \<Rightarrow> int \<times> 'd dhe" where
  "load_lib [] h = (DONE, h)"
| "load_lib ((f, found) # rest) h = (if found then load_lib rest (f h) else (- ELIBACC, f h))"

definition SDSU_InitLib :: "bool \<Rightarrow> 'd dhe \<Rightarrow> 'd sdsu \<Rightarrow> int \<times> 'd sdsu" where
  "SDSU_InitLib opens lib s =
     (if \<not> opens then (- ELIBACC, s)
      else (case load_lib (lib_steps lib) (sd_dhe s) of (ret, h) \<Rightarrow> (ret, s\<lparr>sd_dhe := h\<rparr>)))"

section \<open>The command table\<close>

definition SDSU_clean_table :: "'d sdsu \<Rightarrow> 'd sdsu" where
  "SDSU_clean_table s = s\<lparr>sd_cmds := []\<rparr>"

definition mem_code :: "string option \<Rightarrow> int" where
  "mem_code memtype =
     (case memtype of Some (c # _) \<Rightarrow>
        (if c = CHR ''Y'' then Y_MEM else if c = CHR ''X'' then X_MEM
         else if c = CHR ''P'' then P_MEM else if c = CHR ''R'' then R_MEM else NONE)
      | _ \<Rightarrow> NONE)"

definition SDSU_add_tab_entry ::
  "string option \<Rightarrow> string option \<Rightarrow> string option \<Rightarrow> string option \<Rightarrow> int \<Rightarrow> int \<Rightarrow> 'd sdsu
   \<Rightarrow> (int \<times> 'd sdsu) option" where
  "SDSU_add_tab_entry command ty dsp memtype address bitno s =
     (if command = None \<or> dsp = None then Some (- EINVAL, s)
      else if MAX_CMDS \<le> length (sd_cmds s) then None
      else do {
        cmd \<leftarrow> strcpy 20 (the command);
        t \<leftarrow> ty;
        d \<leftarrow> strcpy 10 (the dsp);
        let etype = (if t = ''_add_'' then ADDRESS else if t = ''_bit_'' then BIT else DSPCMD);
        Some (DONE, s\<lparr>sd_cmds := sd_cmds s @
          [\<lparr>c_command = cmd, c_dsp = d, c_type = etype, c_memtype = mem_code memtype,
            c_address = address, c_bit = bitno\<rparr>]\<rparr>)
      })"

definition SDSU_get_board_from_tab :: "string \<Rightarrow> int" where
  "SDSU_get_board_from_tab board =
     (if board = ''util'' then UTIL_ID else if board = ''pci'' then PCI_ID else TIM_ID)"

text \<open>A \<open>char\<close> is signed.\<close>

definition schar :: "char \<Rightarrow> int" where
  "schar c = (let n = (of_char c :: int) in if n < 128 then n else n - 256)"

definition SDSU_get_intcmd :: "string \<Rightarrow> int" where
  "SDSU_get_intcmd cmd =
     (if length cmd \<noteq> 3 then NOT_IN_TABLE
      else foldl (\<lambda>v c. to_i32 (schar c OR v * 256)) 0 cmd)"

text \<open>The first entry with that name and type.\<close>

fun find_cmd :: "int \<Rightarrow> string \<Rightarrow> cmd_t list \<Rightarrow> cmd_t option" where
  "find_cmd ty command [] = None"
| "find_cmd ty command (c # cs) =
     (if c_command c = command \<and> c_type c = ty then Some c else find_cmd ty command cs)"

text \<open>The value and what is copied to \<open>dspcmd\<close>.\<close>

definition SDSU_get_tab_dspcmd :: "string \<Rightarrow> 'd sdsu \<Rightarrow> int \<times> string option" where
  "SDSU_get_tab_dspcmd command s =
     (case find_cmd DSPCMD command (sd_cmds s) of
        None \<Rightarrow> (NOT_IN_TABLE, None)
      | Some c \<Rightarrow> (SDSU_get_intcmd (c_dsp c), Some (c_dsp c)))"

text \<open>The value and what is stored to \<open>*board\<close> and \<open>*memtype\<close>.\<close>

definition SDSU_get_tab_address :: "string \<Rightarrow> 'd sdsu \<Rightarrow> int \<times> (int \<times> int) option" where
  "SDSU_get_tab_address command s =
     (case find_cmd ADDRESS command (sd_cmds s) of
        None \<Rightarrow> (NOT_IN_TABLE, None)
      | Some c \<Rightarrow> (c_address c, Some (SDSU_get_board_from_tab (c_dsp c), c_memtype c)))"

definition SDSU_get_tab_bit :: "string \<Rightarrow> 'd sdsu \<Rightarrow> int \<times> (int \<times> int \<times> int) option" where
  "SDSU_get_tab_bit command s =
     (case find_cmd BIT command (sd_cmds s) of
        None \<Rightarrow> (NOT_IN_TABLE, None)
      | Some c \<Rightarrow> (c_bit c, Some (SDSU_get_board_from_tab (c_dsp c), c_memtype c, c_address c)))"

text \<open>How callers use the table: a command in an array of \<open>cap\<close> characters or its default, an
  address or its default.\<close>

definition tab_cmd :: "nat \<Rightarrow> string \<Rightarrow> string \<Rightarrow> 'd sdsu \<Rightarrow> string option" where
  "tab_cmd cap command deflt s =
     (case SDSU_get_tab_dspcmd command s of
        (v, None) \<Rightarrow> strcpy cap deflt
      | (v, Some d) \<Rightarrow> do { buf \<leftarrow> strcpy cap d; if v = NOT_IN_TABLE then strcpy cap deflt else Some buf })"

definition tab_addr :: "string \<Rightarrow> int \<times> int \<times> int \<Rightarrow> 'd sdsu \<Rightarrow> int \<times> int \<times> int" where
  "tab_addr command deflt s =
     (case SDSU_get_tab_address command s of
        (add, None) \<Rightarrow> deflt
      | (add, Some (board, memtype)) \<Rightarrow> if add = NOT_IN_TABLE then deflt else (add, board, memtype))"

section \<open>Calls into the driver\<close>

definition drv :: "'d call option \<Rightarrow> 'd sdsu \<Rightarrow> (int \<times> 'd sdsu) option" where
  "drv p s = do { f \<leftarrow> p; (ret, d) \<leftarrow> f (sd_dev s); Some (ret, s\<lparr>sd_dev := d\<rparr>) }"

definition do_command ::
  "int \<Rightarrow> int \<Rightarrow> int \<Rightarrow> int \<Rightarrow> int \<Rightarrow> int \<Rightarrow> int \<Rightarrow> int \<Rightarrow> int \<Rightarrow> 'd sdsu \<Rightarrow> (int \<times> 'd sdsu) option" where
  "do_command fd board command arg1 arg2 arg3 arg4 expected timeout s =
     drv (map_option (\<lambda>f. f fd board command arg1 arg2 arg3 arg4 expected timeout) (h_do_command (sd_dhe s))) s"

definition read_reply :: "int \<Rightarrow> int \<Rightarrow> int \<Rightarrow> 'd sdsu \<Rightarrow> (int \<times> 'd sdsu) option" where
  "read_reply fd expected timeout s = drv (map_option (\<lambda>f. f fd expected timeout) (h_read_reply (sd_dhe s))) s"

definition set_cmd_data :: "int \<Rightarrow> int \<Rightarrow> 'd sdsu \<Rightarrow> (int \<times> 'd sdsu) option" where
  "set_cmd_data fd data s = drv (map_option (\<lambda>f. f fd data) (h_set_cmd_data (sd_dhe s))) s"

definition get_hctr :: "int \<Rightarrow> 'd sdsu \<Rightarrow> (int \<times> 'd sdsu) option" where
  "get_hctr fd s = drv (map_option (\<lambda>f. f fd) (h_get_hctr (sd_dhe s))) s"

definition get_hstr :: "int \<Rightarrow> 'd sdsu \<Rightarrow> (int \<times> 'd sdsu) option" where
  "get_hstr fd s = drv (map_option (\<lambda>f. f fd) (h_get_hstr (sd_dhe s))) s"

definition get_frames_progress :: "int \<Rightarrow> 'd sdsu \<Rightarrow> (int \<times> 'd sdsu) option" where
  "get_frames_progress fd s = drv (map_option (\<lambda>f. f fd) (h_get_frame_progress (sd_dhe s))) s"

definition get_read_progress :: "int \<Rightarrow> 'd sdsu \<Rightarrow> (int \<times> 'd sdsu) option" where
  "get_read_progress fd s = drv (map_option (\<lambda>f. f fd) (h_get_progress (sd_dhe s))) s"

definition reset_ctrler :: "int \<Rightarrow> 'd sdsu \<Rightarrow> (int \<times> 'd sdsu) option" where
  "reset_ctrler fd s = drv (map_option (\<lambda>f. f fd) (h_reset_controller (sd_dhe s))) s"

definition reset_pci :: "int \<Rightarrow> 'd sdsu \<Rightarrow> (int \<times> 'd sdsu) option" where
  "reset_pci fd s = drv (map_option (\<lambda>f. f fd) (h_reset_pci (sd_dhe s))) s"

text \<open>\<open>set_hctr\<close> drops \<open>value\<close>.\<close>

definition set_hctr :: "int \<Rightarrow> int \<Rightarrow> 'd sdsu \<Rightarrow> 'd sdsu option" where
  "set_hctr fd val s = map_option snd (drv (map_option (\<lambda>f. f fd) (h_set_hctr (sd_dhe s))) s)"

definition set_hcvr :: "int \<Rightarrow> int \<Rightarrow> int \<Rightarrow> int \<Rightarrow> 'd sdsu \<Rightarrow> (int \<times> 'd sdsu) option" where
  "set_hcvr fd command expected timeout s =
     drv (map_option (\<lambda>f. f fd command expected timeout) (h_set_hcvr (sd_dhe s))) s"

definition load_pci :: "int \<Rightarrow> string \<Rightarrow> 'd sdsu \<Rightarrow> (int \<times> 'd sdsu) option" where
  "load_pci fd filename s = drv (map_option (\<lambda>f. f fd filename) (h_load_pci (sd_dhe s))) s"

definition artif_pattern :: "int \<Rightarrow> int \<Rightarrow> string \<Rightarrow> 'd sdsu \<Rightarrow> (int \<times> 'd sdsu) option" where
  "artif_pattern fd ty args s = drv (map_option (\<lambda>f. f fd ty args) (h_artif_data (sd_dhe s))) s"

definition get_link_info :: "int \<Rightarrow> 'd sdsu \<Rightarrow> string option" where
  "get_link_info fd s = map_option (\<lambda>f. f fd (sd_dev s)) (h_get_link_info (sd_dhe s))"

definition get_cont_type :: "int \<Rightarrow> 'd sdsu \<Rightarrow> string option" where
  "get_cont_type fd s = map_option (\<lambda>f. f fd (sd_dev s)) (h_get_cont_info (sd_dhe s))"

section \<open>Opening, closing, sizes\<close>

definition set_mapsize :: "int \<Rightarrow> 'd sdsu \<Rightarrow> int \<times> 'd sdsu" where
  "set_mapsize sz s =
     (if sz \<le> 0 then (- EINVAL, s) else (DONE, s\<lparr>sd_bufsize := to_i32 (sz * 1024 * 1024)\<rparr>))"

text \<open>\<open>(int)((float)tot_buf_size / (1024*1024))\<close>: dividing by a power of two is exact.\<close>

definition get_mapsize :: "'d sdsu \<Rightarrow> int" where
  "get_mapsize s = cdiv (f32_int (sd_bufsize s)) (1024 * 1024)"

definition close_drv :: "int \<Rightarrow> 'd sdsu \<Rightarrow> (int \<times> 'd sdsu) option" where
  "close_drv fd s =
     (case h_close (sd_dhe s) of
        None \<Rightarrow> Some (- ELIBACC, s)
      | Some f \<Rightarrow> do {
          (ret, s1) \<leftarrow> drv (Some (f fd)) s;
          if ret < 0 then Some (ret, s1) else Some (DONE, s1\<lparr>sd_opened := False\<rparr>)
        })"

definition set_openparams :: "string \<Rightarrow> 'd sdsu \<Rightarrow> 'd sdsu option" where
  "set_openparams params s = do { p \<leftarrow> strcpy 60 params; Some (s\<lparr>sd_opars := p\<rparr>) }"

text \<open>The result is the return value and what is stored to \<open>*highmemPtr\<close>.\<close>

definition open_drv :: "int \<Rightarrow> 'd sdsu \<Rightarrow> (int \<times> int option) \<times> 'd sdsu" where
  "open_drv device s =
     (case h_open (sd_dhe s) of
        None \<Rightarrow> ((- ELIBACC, None), s)
      | Some f \<Rightarrow>
          if sd_opened s then ((- EISCONN, None), s)
          else (case f device (sd_bufsize s) (sd_opars s) (sd_dev s) of
                  ((fd, p), d) \<Rightarrow>
                    if fd < 0 then ((fd, p), s\<lparr>sd_dev := d\<rparr>)
                    else ((fd, p), s\<lparr>sd_dev := d, sd_opened := True\<rparr>)))"

definition get_masterID :: "'d sdsu \<Rightarrow> int" where
  "get_masterID s = sd_master s"

definition set_masterID :: "int \<Rightarrow> 'd sdsu \<Rightarrow> 'd sdsu" where
  "set_masterID i s = s\<lparr>sd_master := i\<rparr>"

definition set_destination :: "int \<Rightarrow> int \<Rightarrow> int \<Rightarrow> 'd sdsu \<Rightarrow> int \<times> 'd sdsu" where
  "set_destination fd num_of_args bd s = (DONE, s\<lparr>sd_dest := bd\<rparr>)"

definition set_size :: "int \<Rightarrow> int \<Rightarrow> int \<Rightarrow> 'd sdsu \<Rightarrow> (int \<times> 'd sdsu) option" where
  "set_size fd ncols nrows s =
     (if to_u32 (ncols * nrows * 2) \<ge> to_u32 (sd_bufsize s) then Some (- ENOMEM, s)
      else do {
        let (add, board, memtype) = tab_addr ''cols'' (0x01, TIM_ID, Y_MEM) s;
        (ret, s1) \<leftarrow> do_command fd board WRM (memtype OR add) (to_i32 ncols) NONE NONE DON DEF_TIMEOUT s;
        if ret < 0 then Some (ret, s1)
        else do {
          let (add, board, memtype) = tab_addr ''rows'' (0x02, TIM_ID, Y_MEM) s1;
          (ret, s2) \<leftarrow> do_command fd board WRM (memtype OR add) (to_i32 nrows) NONE NONE DON DEF_TIMEOUT s1;
          (_, s3) \<leftarrow> drv (map_option (\<lambda>f. f fd (to_i32 ncols) (to_i32 nrows)) (h_set_size (sd_dhe s2)))
                      (s2\<lparr>sd_ncols := to_i32 ncols, sd_nrows := to_i32 nrows\<rparr>);
          Some (ret, s3)
        }
      })"

section \<open>Single commands\<close>

definition get_controller_info :: "int \<Rightarrow> 'd sdsu \<Rightarrow> (int \<times> 'd sdsu) option" where
  "get_controller_info fd s = do_command fd TIM_ID RCC NONE NONE NONE NONE 0 DEF_TIMEOUT s"

definition get_info :: "int \<Rightarrow> 'd sdsu \<Rightarrow> (int \<times> 'd sdsu) option" where
  "get_info fd s = get_controller_info fd s"

definition get_cont_status :: "int \<Rightarrow> 'd sdsu \<Rightarrow> (int \<times> 'd sdsu) option" where
  "get_cont_status fd s = do { (v, s1) \<leftarrow> get_hstr fd s; Some ((v AND HTF_BITS) div 8, s1) }"

definition sdsu_power :: "int \<Rightarrow> int \<Rightarrow> 'd sdsu \<Rightarrow> (int \<times> 'd sdsu) option" where
  "sdsu_power fd flag s =
     do_command fd (get_masterID s) (if flag \<noteq> 0 then PON else POF) NONE NONE NONE NONE DON DEF_TIMEOUT s"

definition move_shutter :: "int \<Rightarrow> int \<Rightarrow> 'd sdsu \<Rightarrow> (int \<times> 'd sdsu) option" where
  "move_shutter fd flag s =
     do_command fd (get_masterID s) (if flag \<noteq> 0 then OSH else CSH) NONE NONE NONE NONE DON DEF_TIMEOUT s"

definition abort_exposure :: "int \<Rightarrow> 'd sdsu \<Rightarrow> (int \<times> 'd sdsu) option" where
  "abort_exposure fd s = do_command fd (get_masterID s) AEX NONE NONE NONE NONE DON DEF_TIMEOUT s"

definition pause_exp :: "int \<Rightarrow> 'd sdsu \<Rightarrow> (int \<times> 'd sdsu) option" where
  "pause_exp fd s = do_command fd (get_masterID s) PEX NONE NONE NONE NONE DON DEF_TIMEOUT s"

definition resume_exp :: "int \<Rightarrow> 'd sdsu \<Rightarrow> (int \<times> 'd sdsu) option" where
  "resume_exp fd s = do_command fd (get_masterID s) REX NONE NONE NONE NONE DON DEF_TIMEOUT s"

definition abort_readout :: "int \<Rightarrow> 'd sdsu \<Rightarrow> (int \<times> 'd sdsu) option" where
  "abort_readout fd s = set_hcvr fd ABORT_READOUT DON DEF_TIMEOUT s"

definition abort_current_image :: "int \<Rightarrow> 'd sdsu \<Rightarrow> (int \<times> 'd sdsu) option" where
  "abort_current_image fd s = abort_readout fd s"

definition set_exposure_time :: "int \<Rightarrow> int \<Rightarrow> 'd sdsu \<Rightarrow> (int \<times> 'd sdsu) option" where
  "set_exposure_time fd val s =
     (if get_masterID s = TIM_ID
      then do_command fd (get_masterID s) SET (to_i32 val) NONE NONE NONE DON DEF_TIMEOUT s
      else do_command fd (get_masterID s) WRM (Y_MEM OR 0x18) (to_i32 val) NONE NONE DON DEF_TIMEOUT s)"

definition start_exposure :: "int \<Rightarrow> 'd sdsu \<Rightarrow> (int \<times> 'd sdsu) option" where
  "start_exposure fd s = do_command fd (get_masterID s) SEX NONE NONE NONE NONE DON DEF_TIMEOUT s"

definition read_exposure_time :: "int \<Rightarrow> 'd sdsu \<Rightarrow> (int \<times> 'd sdsu) option" where
  "read_exposure_time fd s =
     (if get_masterID s = TIM_ID
      then do {
        (ret, s1) \<leftarrow> do_command fd (get_masterID s) RET NONE NONE NONE NONE 0 DEF_TIMEOUT s;
        Some (if ret = DON then 0 else ret, s1)
      }
      else do_command fd (get_masterID s) RDM (Y_MEM OR 0x17) NONE NONE NONE 0 DEF_TIMEOUT s)"

definition test_data_link :: "int \<Rightarrow> int \<Rightarrow> int \<Rightarrow> 'd sdsu \<Rightarrow> (int \<times> 'd sdsu) option" where
  "test_data_link fd dest data s =
     (if data > 0xFFFFFF then Some (- EINVAL, s)
      else do_command fd dest TDL data data NONE NONE 0 DEF_TIMEOUT s)"

definition mem_type :: "string \<Rightarrow> int option" where
  "mem_type ty =
     (if ty = ''Y'' then Some Y_MEM else if ty = ''X'' then Some X_MEM
      else if ty = ''P'' then Some P_MEM else if ty = ''R'' then Some R_MEM else None)"

definition read_memory :: "int \<Rightarrow> string \<Rightarrow> int \<Rightarrow> 'd sdsu \<Rightarrow> (int \<times> 'd sdsu) option" where
  "read_memory fd ty address s =
     (case mem_type ty of
        None \<Rightarrow> Some (- EINVAL, s)
      | Some t \<Rightarrow> do_command fd (sd_dest s) RDM (t OR address) NONE NONE NONE 0 DEF_TIMEOUT s)"

definition write_memory :: "int \<Rightarrow> string \<Rightarrow> int \<Rightarrow> int \<Rightarrow> 'd sdsu \<Rightarrow> (int \<times> 'd sdsu) option" where
  "write_memory fd ty address val s =
     (case mem_type ty of
        None \<Rightarrow> Some (- EINVAL, s)
      | Some t \<Rightarrow> do_command fd (sd_dest s) WRM (t OR address) val NONE NONE DON DEF_TIMEOUT s)"

section \<open>Mode bits\<close>

text \<open>The three mode switches read a status word, change a bit and write it back to \<open>X:0\<close>.  The
  status is unsigned, so its test for an error never holds: \<open>status < 0\<close> is \<open>False\<close>.\<close>

definition autoshutter :: "int \<Rightarrow> int \<Rightarrow> 'd sdsu \<Rightarrow> (int \<times> 'd sdsu) option" where
  "autoshutter fd flag s = do {
     let m_id = get_masterID s;
     let add = (if m_id = TIM_ID then 0 else 1);
     let (_, s0) = set_destination fd 0 m_id s;
     (r, s1) \<leftarrow> read_memory fd ''X'' add s0;
     let status = to_u32 r;
     if status < 0 then Some (to_i32 status, s1)
     else do {
       let val = (if m_id = TIM_ID then (if flag \<noteq> 0 then status OR 0x800 else status AND to_u32 (NOT 0x800))
                  else (if flag \<noteq> 0 then status OR 1 else status AND 0xFFFFFFFE));
       (ret, s2) \<leftarrow> write_memory fd ''X'' 0 (to_i32 val) s1;
       if ret < 0 then Some (ret, s2) else Some (DONE, s2)
     }
   }"

definition autoclear :: "int \<Rightarrow> int \<Rightarrow> 'd sdsu \<Rightarrow> (int \<times> 'd sdsu) option" where
  "autoclear fd flag s = do {
     let m_id = get_masterID s;
     let add = (if m_id = TIM_ID then 0 else 1);
     let (_, s0) = set_destination fd 0 m_id s;
     (r, s1) \<leftarrow> read_memory fd ''X'' add s0;
     let status = to_u32 r;
     if status < 0 then Some (to_i32 status, s1)
     else do {
       let val = (if m_id = TIM_ID then (if flag \<noteq> 0 then status AND to_u32 (NOT 0x100) else status OR 0x100)
                  else (if flag \<noteq> 0 then status OR 1 else status AND 0xFFFFFFFE));
       (ret, s2) \<leftarrow> write_memory fd ''X'' 0 (to_i32 val) s1;
       if ret < 0 then Some (ret, s2) else Some (DONE, s2)
     }
   }"

definition artif_data :: "int \<Rightarrow> int \<Rightarrow> 'd sdsu \<Rightarrow> (int \<times> 'd sdsu) option" where
  "artif_data fd flag s = do {
     let m_id = get_masterID s;
     if m_id \<noteq> TIM_ID then Some (- EPERM, s)
     else do {
       let (_, s0) = set_destination fd 0 m_id s;
       (r, s1) \<leftarrow> read_memory fd ''X'' 0 s0;
       let status = to_u32 r;
       if status < 0 then Some (to_i32 status, s1)
       else do {
         let val = (if flag \<noteq> 0 then status OR 0x400 else status AND to_u32 (NOT 0x400));
         (ret, s2) \<leftarrow> write_memory fd ''X'' 0 (to_i32 val) s1;
         if ret < 0 then Some (ret, s2) else Some (DONE, s2)
       }
     }
   }"

definition load_application :: "int \<Rightarrow> int \<Rightarrow> int \<Rightarrow> 'd sdsu \<Rightarrow> (int \<times> 'd sdsu) option" where
  "load_application fd app dest s = do_command fd dest LDA app NONE NONE NONE DON DEF_TIMEOUT s"

section \<open>Manual commands\<close>

text \<open>An argument: a number (base 16 after \<open>0x\<close>), or the codes of its characters when it is not a
  number; \<open>-1\<close> when empty.\<close>

definition parse_arg :: "string \<Rightarrow> int" where
  "parse_arg a =
     (if a = [] then -1
      else (let base = (if 1 < length a \<and> a ! 0 = CHR ''0'' \<and> a ! 1 = CHR ''x'' then 16 else 10);
                (v, invalid) = strtol base a; num = to_i32 v in
        if num = 0 \<and> invalid \<noteq> [] then foldl (\<lambda>n c. to_i32 (n * 256) OR to_u16 (schar c)) num a
        else num))"

text \<open>The three letters of a command, or \<open>None\<close> if one is not a capital.\<close>

definition cmd_code :: "string \<Rightarrow> int option" where
  "cmd_code command =
     (let c = map (\<lambda>x. to_u16 (schar x)) (take 3 command) in
      if length c = 3 \<and> list_all (\<lambda>x. 0x41 \<le> x \<and> x \<le> 0x5A) c
      then Some (foldl (\<lambda>n x. n * 256 OR x) 0 c) else None)"

definition manual_command ::
  "int \<Rightarrow> string \<Rightarrow> string \<Rightarrow> string \<Rightarrow> string \<Rightarrow> string \<Rightarrow> string \<Rightarrow> int \<Rightarrow> 'd sdsu
   \<Rightarrow> (int \<times> 'd sdsu) option" where
  "manual_command fd arg1 arg2 arg3 arg4 arg5 command board s =
     (case cmd_code command of
        None \<Rightarrow> Some (- EINVAL, s)
      | Some code \<Rightarrow>
          do_command fd board code (parse_arg arg1) (parse_arg arg2) (parse_arg arg3) (parse_arg arg4) 0
            DEF_TIMEOUT s)"

definition set_guider_nimages :: "int \<Rightarrow> int \<Rightarrow> 'd sdsu \<Rightarrow> (int \<times> 'd sdsu) option" where
  "set_guider_nimages fd val s = do {
     gec \<leftarrow> tab_cmd 5 ''gnimages'' ''GNI'' s;
     arg1 \<leftarrow> sprintf_d 6 val;
     manual_command fd arg1 [] [] [] [] gec TIM_ID s
   }"

definition set_window_mode :: "int \<Rightarrow> int \<Rightarrow> int \<Rightarrow> int \<Rightarrow> 'd sdsu \<Rightarrow> (int \<times> 'd sdsu) option" where
  "set_window_mode fd mode cols rows s = do {
     wm \<leftarrow> tab_cmd 5 ''gmode'' ''GMO'' s;
     arg1 \<leftarrow> sprintf_d 5 (if mode \<le> 0 then 0 else 1);
     (ret, s1) \<leftarrow> manual_command fd arg1 [] [] [] [] wm TIM_ID s;
     if ret < 0 then Some (ret, s1)
     else do {
       wm \<leftarrow> tab_cmd 5 ''glen'' ''GLE'' s1;
       arg1 \<leftarrow> sprintf_d 5 cols;
       arg2 \<leftarrow> sprintf_d 5 rows;
       manual_command fd arg1 arg2 [] [] [] wm TIM_ID s1
     }
   }"

definition set_guider_exptime :: "int \<Rightarrow> int \<Rightarrow> 'd sdsu \<Rightarrow> (int \<times> 'd sdsu) option" where
  "set_guider_exptime fd val s = do {
     gec \<leftarrow> tab_cmd 5 ''gexptime'' ''GEX'' s;
     arg1 \<leftarrow> sprintf_d 6 val;
     manual_command fd arg1 [] [] [] [] gec TIM_ID s
   }"

definition read_frame_time :: "int \<Rightarrow> 'd sdsu \<Rightarrow> (int \<times> 'd sdsu) option" where
  "read_frame_time fd s = do {
     rft \<leftarrow> tab_cmd 5 ''frametime'' ''RFT'' s;
     manual_command fd [] [] [] [] [] rft TIM_ID s
   }"

definition read_actual_inttime :: "int \<Rightarrow> 'd sdsu \<Rightarrow> (int \<times> 'd sdsu) option" where
  "read_actual_inttime fd s = do {
     itt \<leftarrow> tab_cmd 5 ''acinttime'' ''RIT'' s;
     manual_command fd [] [] [] [] [] itt TIM_ID s
   }"

definition set_num_coadds :: "int \<Rightarrow> int \<Rightarrow> 'd sdsu \<Rightarrow> (int \<times> 'd sdsu) option" where
  "set_num_coadds fd coadds s = do {
     cmd \<leftarrow> tab_cmd 4 ''coadds'' ''SNF'' s;
     arg1 \<leftarrow> sprintf_d 4 coadds;
     manual_command fd arg1 [] [] [] [] cmd TIM_ID s
   }"

definition set_num_reads :: "int \<Rightarrow> int \<Rightarrow> 'd sdsu \<Rightarrow> (int \<times> 'd sdsu) option" where
  "set_num_reads fd reads s = do {
     cmd \<leftarrow> tab_cmd 4 ''nsamples'' ''SNR'' s;
     arg1 \<leftarrow> sprintf_d 4 reads;
     manual_command fd arg1 [] [] [] [] cmd TIM_ID s
   }"

definition abort_sur :: "int \<Rightarrow> 'd sdsu \<Rightarrow> (int \<times> 'd sdsu) option" where
  "abort_sur fd s = do {
     cmd \<leftarrow> tab_cmd 4 ''stopsur'' ''ABS'' s;
     manual_command fd [] [] [] [] [] cmd TIM_ID s
   }"

definition set_num_sur :: "int \<Rightarrow> int \<Rightarrow> 'd sdsu \<Rightarrow> (int \<times> 'd sdsu) option" where
  "set_num_sur fd sur s =
     (if sur \<le> 0 then abort_sur fd s
      else do {
        cmd \<leftarrow> tab_cmd 4 ''sur'' ''SUR'' s;
        arg1 \<leftarrow> sprintf_d 4 sur;
        manual_command fd arg1 [] [] [] [] cmd TIM_ID s
      })"

definition set_fpb :: "int \<Rightarrow> int \<Rightarrow> 'd sdsu \<Rightarrow> (int \<times> 'd sdsu) option" where
  "set_fpb fd fpb s = do {
     cmd \<leftarrow> tab_cmd 4 ''framesperbuffer'' ''FPB'' s;
     arg1 \<leftarrow> sprintf_d 4 fpb;
     (ret, s1) \<leftarrow> manual_command fd arg1 [] [] [] [] cmd TIM_ID s;
     Some (if ret < 0 then ret else DONE, s1)
   }"

definition set_gain_and_speed :: "int \<Rightarrow> int \<Rightarrow> int \<Rightarrow> 'd sdsu \<Rightarrow> (int \<times> 'd sdsu) option" where
  "set_gain_and_speed fd gain speed s = do {
     cmd \<leftarrow> tab_cmd 4 ''gainspeed'' ''SGN'' s;
     arg1 \<leftarrow> sprintf_d 4 0;
     arg2 \<leftarrow> sprintf_d 3 gain;
     arg3 \<leftarrow> sprintf_d 3 speed;
     (_, s1) \<leftarrow> manual_command fd arg1 arg2 ''8'' [] [] cmd TIM_ID s;
     (ret, s2) \<leftarrow> manual_command fd arg1 arg2 arg3 [] [] cmd TIM_ID s1;
     Some (ret, if ret = DON then s2\<lparr>sd_gain := gain, sd_speed := speed\<rparr> else s2)
   }"

definition get_gain_and_speed :: "'d sdsu \<Rightarrow> int \<times> int" where
  "get_gain_and_speed s = (sd_gain s, sd_speed s)"

definition res_idl :: "int \<Rightarrow> 'd sdsu \<Rightarrow> (int \<times> 'd sdsu) option" where
  "res_idl fd s = do_command fd TIM_ID IDL NONE NONE NONE NONE DON DEF_TIMEOUT s"

definition stp_idl :: "int \<Rightarrow> 'd sdsu \<Rightarrow> (int \<times> 'd sdsu) option" where
  "stp_idl fd s = do_command fd TIM_ID STP NONE NONE NONE NONE DON DEF_TIMEOUT s"

definition clear_array :: "int \<Rightarrow> 'd sdsu \<Rightarrow> (int \<times> 'd sdsu) option" where
  "clear_array fd s = do_command fd TIM_ID CLR NONE NONE NONE NONE DON DEF_TIMEOUT s"

definition set_temperature :: "int \<Rightarrow> int \<Rightarrow> 'd sdsu \<Rightarrow> (int \<times> 'd sdsu) option" where
  "set_temperature fd val s = do_command fd UTIL_ID WRM (Y_MEM OR 0x1C) val NONE NONE 0 DEF_TIMEOUT s"

definition read_temperature :: "int \<Rightarrow> 'd sdsu \<Rightarrow> (int \<times> 'd sdsu) option" where
  "read_temperature fd s = do_command fd UTIL_ID RDM (Y_MEM OR 0x0C) NONE NONE NONE 0 DEF_TIMEOUT s"

definition set_mpp :: "int \<Rightarrow> int \<Rightarrow> 'd sdsu \<Rightarrow> (int \<times> 'd sdsu) option" where
  "set_mpp fd flag s = do_command fd TIM_ID MPP flag NONE NONE NONE DON DEF_TIMEOUT s"

definition set_sync :: "int \<Rightarrow> int \<Rightarrow> 'd sdsu \<Rightarrow> (int \<times> 'd sdsu) option" where
  "set_sync fd flag s = do {
     cmd \<leftarrow> tab_cmd 4 ''sync'' ''SSM'' s;
     if get_masterID s \<noteq> TIM_ID then Some (- EPERM, s)
     else manual_command fd (if flag \<noteq> 0 then ''1'' else ''0'') [] [] [] [] cmd TIM_ID s
   }"

section \<open>Binning, region of interest, geometry\<close>

text \<open>Both addresses are looked up under \<open>XBINLOC\<close>.\<close>

definition set_binning :: "int \<Rightarrow> int \<Rightarrow> int \<Rightarrow> 'd sdsu \<Rightarrow> (int \<times> 'd sdsu) option" where
  "set_binning fd xbin ybin s = do {
     xbinning \<leftarrow> sprintf_d 3 xbin;
     ybinning \<leftarrow> sprintf_d 3 ybin;
     let (add, board, memtype) = tab_addr ''xbin'' (0x05, TIM_ID, Y_MEM) s;
     (_, s1) \<leftarrow> do_command fd board WRM (memtype OR add) xbin NONE NONE 0 DEF_TIMEOUT s;
     let (add, board, memtype) = tab_addr ''xbin'' (0x06, TIM_ID, Y_MEM) s1;
     do_command fd board WRM (memtype OR add) ybin NONE NONE 0 DEF_TIMEOUT s1
   }"

definition set_roi :: "int \<Rightarrow> int \<Rightarrow> int \<Rightarrow> int \<Rightarrow> int \<Rightarrow> 'd sdsu \<Rightarrow> (int \<times> 'd sdsu) option" where
  "set_roi fd xstart0 ystart0 xlen0 ylen0 s = do {
     roiloc \<leftarrow> tab_cmd 4 ''roiloc'' ''SSP'' s;
     roilen \<leftarrow> tab_cmd 4 ''roilen'' ''SSS'' s;
     let xstart = (if xstart0 \<le> 0 then 1 else xstart0);
     let ystart = (if ystart0 \<le> 0 then 1 else ystart0);
     let xlen = (if xlen0 \<le> 0 then 1 else xlen0);
     let ylen = (if ylen0 \<le> 0 then 1 else ylen0);
     xs \<leftarrow> sprintf_d 8 (xstart - 1);
     ys \<leftarrow> sprintf_d 8 (ystart - 1);
     xl \<leftarrow> sprintf_d 8 (to_i32 (xlen + sd_prescan s));
     yl \<leftarrow> sprintf_d 8 ylen;
     rem \<leftarrow> sprintf_d 8 (to_i32 (sd_xdata s - (xstart + xlen - 1)));
     ov \<leftarrow> sprintf_d 8 (sd_overscan s);
     pr \<leftarrow> sprintf_d 8 (sd_prescan s);
     if xlen < sd_xdata s \<or> ylen < sd_ydata s
     then do {
       (_, s1) \<leftarrow> manual_command fd ov xl yl pr [] roilen TIM_ID s;
       manual_command fd ys xs rem [] [] roiloc TIM_ID s1
     }
     else do {
       (_, s1) \<leftarrow> manual_command fd ov xl yl [] [] roilen TIM_ID s;
       Some (DONE, s1)
     }
   }"

text \<open>\<open>ydata\<close> is cleared when \<open>xdata\<close>, already clamped, is negative; the first write assigns the
  result of the comparison to \<open>ret\<close>.\<close>

definition set_geom ::
  "int \<Rightarrow> int \<Rightarrow> int \<Rightarrow> int \<Rightarrow> int \<Rightarrow> int \<Rightarrow> int \<Rightarrow> 'd sdsu \<Rightarrow> (int \<times> 'd sdsu) option" where
  "set_geom fd xprescan0 xdata0 xoverscan0 yprescan0 ydata0 yoverscan0 s = do {
     let xprescan = (if xprescan0 < 0 then 0 else xprescan0);
     let xdata = (if xdata0 < 0 then 0 else xdata0);
     let xoverscan = (if xoverscan0 < 0 then 0 else xoverscan0);
     let yprescan = (if yprescan0 < 0 then 0 else yprescan0);
     let ydata = (if xdata < 0 then 0 else ydata0);
     let yoverscan = (if yoverscan0 < 0 then 0 else yoverscan0);
     xp \<leftarrow> sprintf_d 4 xprescan;
     xo \<leftarrow> sprintf_d 4 xoverscan;
     yp \<leftarrow> sprintf_d 4 yprescan;
     yo \<leftarrow> sprintf_d 4 yoverscan;
     xd \<leftarrow> sprintf_d 4 xdata;
     yd \<leftarrow> sprintf_d 4 ydata;
     let s1 = s\<lparr>sd_overscan := xoverscan, sd_prescan := xprescan, sd_xdata := xdata, sd_ydata := ydata\<rparr>;
     let nowhere = (NOT_IN_TABLE, 0, 0);
     (ret, s2) \<leftarrow> (case tab_addr ''acols'' nowhere s1 of (add, board, memtype) \<Rightarrow>
        if add = NOT_IN_TABLE then Some (0, s1)
        else do {
          (r, t) \<leftarrow> do_command fd board WRM (memtype OR add) (to_i32 (xprescan + xdata + xoverscan))
                     NONE NONE DON DEF_TIMEOUT s1;
          Some (if r < 0 then 1 else 0, t)
        });
     if ret \<noteq> 0 then Some (ret, s2)
     else (case tab_addr ''arows'' nowhere s2 of (add, board, memtype) \<Rightarrow>
        if add = NOT_IN_TABLE then Some (DONE, s2)
        else do {
          (ret, s3) \<leftarrow> do_command fd board WRM (memtype OR add) (to_i32 (yprescan + ydata + yoverscan))
                     NONE NONE DON DEF_TIMEOUT s2;
          Some (if ret < 0 then ret else DONE, s3)
        })
   }"

end
