(* ===== verification/SimDriver_Props.thy ===== *)
theory SimDriver_Props imports SimDriver
begin

text \<open>
  The simulated controller as a memory and as a state machine: its cell table implements a map from
  cells to values as long as the client keeps to at most 4096 cells, and an exposure ends after the
  expected number of progress calls.
\<close>

section \<open>The cell table is a map\<close>

definition cell_key :: "add_t \<Rightarrow> int \<times> int \<times> int" where
  "cell_key c = (a_board c, a_type c, a_address c)"

lemma find_cell_cong: "map cell_key cs = map cell_key cs' \<Longrightarrow> find_cell b t a cs = find_cell b t a cs'"
proof (induction cs arbitrary: cs')
  case (Cons c cs)
  then obtain c' l where "cs' = c' # l" "cell_key c' = cell_key c" "map cell_key cs = map cell_key l"
    by (cases cs') auto
  moreover from this have "find_cell b t a cs = find_cell b t a l" by (intro Cons.IH)
  ultimately show ?case by (simp add: cell_key_def)
qed simp

lemma find_cell_Some:
  "find_cell b t a cs = Some i \<Longrightarrow> i < length cs \<and> cell_key (cs ! i) = (b, t, a)"
  by (induction cs arbitrary: i) (auto simp: cell_key_def split: if_splits)

lemma find_cell_None: "find_cell b t a cs = None \<longleftrightarrow> (b, t, a) \<notin> cell_key ` set cs"
  by (induction cs) (auto simp: cell_key_def)

lemma find_cell_append:
  "find_cell b t a (cs @ [c]) =
    (case find_cell b t a cs of Some i \<Rightarrow> Some i
     | None \<Rightarrow> if cell_key c = (b, t, a) then Some (length cs) else None)"
  by (induction cs) (auto simp: cell_key_def split: option.split)

text \<open>A cell that is not in the table reads as 0.\<close>

definition cell_value :: "add_t list \<Rightarrow> int \<times> int \<times> int \<Rightarrow> int" where
  "cell_value cs k =
     (case k of (b, t, a) \<Rightarrow> (case find_cell b t a cs of None \<Rightarrow> 0 | Some i \<Rightarrow> a_value (cs ! i)))"

definition cells_ok :: "(int \<times> int \<times> int) set \<Rightarrow> sim \<Rightarrow> bool" where
  "cells_ok K s \<longleftrightarrow> distinct (map cell_key (v_adds s)) \<and> cell_key ` set (v_adds s) \<subseteq> K"

lemma cells_room:
  assumes "cells_ok K s" "finite K" "card K \<le> MAXADDS" "k \<in> K" "k \<notin> cell_key ` set (v_adds s)"
  shows "length (v_adds s) < MAXADDS"
proof -
  have "length (v_adds s) = card (cell_key ` set (v_adds s))"
    using assms(1) distinct_card [of "map cell_key (v_adds s)"] by (simp add: cells_ok_def)
  also have "\<dots> < card K"
    using assms by (intro psubset_card_mono) (auto simp: cells_ok_def)
  finally show ?thesis using assms(3) by simp
qed

text \<open>Looking a cell up makes sure it is in the table and changes no value.\<close>

lemma find_sim_add_spec:
  assumes ok: "cells_ok K s" "finite K" "card K \<le> MAXADDS" and k: "(b, t, a) \<in> K"
    and run: "find_sim_add b t a s = (i, s1)"
  shows "cells_ok K s1" "i < length (v_adds s1)" "cell_key (v_adds s1 ! i) = (b, t, a)"
    and "find_cell b t a (v_adds s1) = Some i"
    and "cell_value (v_adds s1) = cell_value (v_adds s)"
    and "\<exists>l. s1 = s\<lparr>v_adds := l\<rparr>"
proof -
  have *: "cells_ok K s1 \<and> i < length (v_adds s1) \<and> cell_key (v_adds s1 ! i) = (b, t, a)
    \<and> find_cell b t a (v_adds s1) = Some i \<and> cell_value (v_adds s1) = cell_value (v_adds s)
    \<and> (\<exists>l. s1 = s\<lparr>v_adds := l\<rparr>)"
  proof (cases "find_cell b t a (v_adds s)")
    case (Some j)
    then have "i = j" "s1 = s" using run by (simp_all add: find_sim_add_def)
    moreover have "s = s\<lparr>v_adds := v_adds s\<rparr>" by simp
    ultimately show ?thesis using Some ok find_cell_Some [OF Some] by blast
  next
    case None
    define c where "c = \<lparr>a_board = b, a_type = t, a_address = a, a_value = 0\<rparr>"
    have new: "(b, t, a) \<notin> cell_key ` set (v_adds s)" using None find_cell_None by blast
    have key: "cell_key c = (b, t, a)" "a_value c = 0" by (simp_all add: c_def cell_key_def)
    have "length (v_adds s) \<noteq> MAXADDS" using cells_room [OF ok k new] by simp
    then have res: "i = length (v_adds s)" "s1 = s\<lparr>v_adds := v_adds s @ [c]\<rparr>"
      using run None by (simp_all add: find_sim_add_def Let_def c_def [symmetric])
    have "cell_value (v_adds s @ [c]) k' = cell_value (v_adds s) k'" for k'
    proof -
      obtain b' t' a' where k': "k' = (b', t', a')" by (cases k')
      show ?thesis
        unfolding cell_value_def k' find_cell_append
        by (auto simp: key nth_append dest: find_cell_Some split: option.split)
    qed
    then have "cell_value (v_adds s @ [c]) = cell_value (v_adds s)" by (rule ext)
    then show ?thesis
      using res ok(1) k new None by (auto simp: cells_ok_def key find_cell_append)
  qed
  then show "cells_ok K s1" "i < length (v_adds s1)" "cell_key (v_adds s1 ! i) = (b, t, a)"
    "find_cell b t a (v_adds s1) = Some i" "cell_value (v_adds s1) = cell_value (v_adds s)"
    "\<exists>l. s1 = s\<lparr>v_adds := l\<rparr>" by blast+
qed

lemma get_sim_add_spec:
  assumes "cells_ok K s" "finite K" "card K \<le> MAXADDS" "(b, t, a) \<in> K"
  shows "\<exists>l. get_sim_add b t a s = (cell_value (v_adds s) (b, t, a), s\<lparr>v_adds := l\<rparr>)
    \<and> cells_ok K (s\<lparr>v_adds := l\<rparr>) \<and> cell_value l = cell_value (v_adds s)"
proof -
  obtain i s1 where run: "find_sim_add b t a s = (i, s1)" by (cases "find_sim_add b t a s")
  note f = find_sim_add_spec [OF assms run]
  from f(4) f(5) have "a_value (v_adds s1 ! i) = cell_value (v_adds s) (b, t, a)"
    by (simp add: cell_value_def [of "v_adds s1"] flip: f(5))
  with f run show ?thesis by (auto simp: get_sim_add_def)
qed

lemma set_sim_add_spec:
  assumes "cells_ok K s" "finite K" "card K \<le> MAXADDS" "(b, t, a) \<in> K"
  shows "\<exists>l. set_sim_add b t a v s = s\<lparr>v_adds := l\<rparr>
    \<and> cells_ok K (s\<lparr>v_adds := l\<rparr>) \<and> cell_value l = (cell_value (v_adds s))((b, t, a) := v)"
proof -
  obtain i s1 where run: "find_sim_add b t a s = (i, s1)" by (cases "find_sim_add b t a s")
  note f = find_sim_add_spec [OF assms run]
  let ?l = "(v_adds s1)[i := (v_adds s1 ! i)\<lparr>a_value := v\<rparr>]"
  have "map cell_key ?l = map cell_key (v_adds s1)"
  proof -
    have "cell_key ((v_adds s1 ! i)\<lparr>a_value := v\<rparr>) = map cell_key (v_adds s1) ! i"
      using f(2) by (simp add: cell_key_def)
    then show ?thesis by (simp only: map_update list_update_id)
  qed
  note cong = find_cell_cong [OF this] and keys = arg_cong [OF this, of set]
  have val: "cell_value ?l k = ((cell_value (v_adds s))((b, t, a) := v)) k" for k
  proof -
    obtain b' t' a' where k: "k = (b', t', a')" by (cases k)
    have old: "cell_value (v_adds s) k = cell_value (v_adds s1) k" by (simp add: f(5))
    show ?thesis
    proof (cases "k = (b, t, a)")
      case True
      then show ?thesis using f(2,4) by (simp add: cell_value_def cong k)
    next
      case False
      have "j \<noteq> i" if "find_cell b' t' a' (v_adds s1) = Some j" for j
        using find_cell_Some [OF that] f(3) False k by auto
      then show ?thesis
        using False by (auto simp: old) (auto simp: cell_value_def cong k split: option.split)
    qed
  qed
  have "distinct (map cell_key ?l)" "cell_key ` set ?l \<subseteq> K"
    using f(1) \<open>map cell_key ?l = _\<close> keys unfolding cells_ok_def by (simp_all flip: set_map)
  moreover have "cell_value ?l = (cell_value (v_adds s))((b, t, a) := v)" using val by (rule ext)
  ultimately show ?thesis
    using run f(6) by (intro exI [of _ ?l]) (auto simp: set_sim_add_def cells_ok_def)
qed

section \<open>The cells a client uses\<close>

text \<open>512 addresses in each of the four memory spaces of the two boards: exactly the 4096 cells the
  table has room for.\<close>

definition sim_keys :: "(int \<times> int \<times> int) set" where
  "sim_keys = {TIM_ID, UTIL_ID} \<times> {P_MEM, X_MEM, Y_MEM, R_MEM} \<times> {0..<512}"

definition key_of :: "int \<Rightarrow> int \<Rightarrow> int \<times> int \<times> int" where
  "key_of board ta = (board, ta AND 0xF00000, ta AND 0x0FFFFF)"

definition sim_cells :: "(int \<times> int) set" where
  "sim_cells = {(board, ta). 0 \<le> ta \<and> ta < 2 ^ 24 \<and> key_of board ta \<in> sim_keys}"

definition sim_ok :: "sim \<Rightarrow> bool" where
  "sim_ok s = cells_ok sim_keys s"

definition sim_peek :: "sim \<Rightarrow> int \<Rightarrow> int \<Rightarrow> int" where
  "sim_peek s board ta = cell_value (v_adds s) (key_of board ta)"

lemma sim_keys_size: "finite sim_keys" "card sim_keys \<le> MAXADDS"
  by (simp_all add: sim_keys_def card_cartesian_product)

lemma key_of_inj:
  assumes "(b, ta) \<in> sim_cells" "(b', ta') \<in> sim_cells" "key_of b ta = key_of b' ta'"
  shows "b = b' \<and> ta = ta'"
proof -
  have split: "x = (x AND 0xF00000) OR (x AND 0x0FFFFF)" if "0 \<le> x" "x < 2 ^ 24" for x :: int
  proof -
    have "(x AND 0xF00000) OR (x AND 0x0FFFFF) = x AND (0xF00000 OR 0x0FFFFF)"
      by (simp only: bit.conj_disj_distrib)
    also have "\<dots> = x AND mask 24" by (simp add: mask_eq_exp_minus_1)
    also have "\<dots> = x" using that by (simp add: take_bit_eq_mask [symmetric] take_bit_int_eq_self)
    finally show ?thesis by simp
  qed
  from assms split [of ta] split [of ta'] show ?thesis
    by (auto simp: sim_cells_def key_of_def)
qed

lemma sim_cells_u32: "(b, ta) \<in> sim_cells \<Longrightarrow> to_u32 b = b \<and> to_u32 ta = ta"
  by (auto simp: sim_cells_def key_of_def sim_keys_def to_u32_def)

lemma simulated_memory:
  assumes "sim_ok s" "(b, ta) \<in> sim_cells"
  shows "\<exists>s1 s2 v. sim_do_command env now fd b WRM ta x a3 a4 e t s = (DONE, s1) \<and> sim_ok s1
      \<and> (\<forall>(b', ta') \<in> sim_cells. sim_peek s1 b' ta' = (if b' = b \<and> ta' = ta then x else sim_peek s b' ta'))
      \<and> sim_do_command env now fd b RDM ta a2 a3 a4 e t s = (v, s2) \<and> sim_ok s2 \<and> v = sim_peek s b ta
      \<and> (\<forall>(b', ta') \<in> sim_cells. sim_peek s2 b' ta' = sim_peek s b' ta')"
proof -
  have u: "to_u32 b = b" "to_u32 ta = ta" using sim_cells_u32 [OF assms(2)] by simp_all
  have k: "(b, ta AND 0xF00000, ta AND 0x0FFFFF) \<in> sim_keys"
    using assms(2) by (simp add: sim_cells_def key_of_def)
  have ok: "cells_ok sim_keys s" using assms(1) by (simp add: sim_ok_def)
  obtain l where w: "set_sim_add b (ta AND 0xF00000) (ta AND 0x0FFFFF) x s = s\<lparr>v_adds := l\<rparr>"
      "cells_ok sim_keys (s\<lparr>v_adds := l\<rparr>)"
      "cell_value l = (cell_value (v_adds s))((b, ta AND 0xF00000, ta AND 0x0FFFFF) := x)"
    using set_sim_add_spec [OF ok sim_keys_size k] by blast
  obtain r where g: "get_sim_add b (ta AND 0xF00000) (ta AND 0x0FFFFF) s
        = (cell_value (v_adds s) (b, ta AND 0xF00000, ta AND 0x0FFFFF), s\<lparr>v_adds := r\<rparr>)"
      "cells_ok sim_keys (s\<lparr>v_adds := r\<rparr>)" "cell_value r = cell_value (v_adds s)"
    using get_sim_add_spec [OF ok sim_keys_size k] by blast
  have "sim_peek (s\<lparr>v_adds := l\<rparr>) b' ta' = (if b' = b \<and> ta' = ta then x else sim_peek s b' ta')"
    if "(b', ta') \<in> sim_cells" for b' ta'
    using key_of_inj [OF that assms(2)] w(3) by (auto simp: sim_peek_def key_of_def)
  moreover have "sim_peek (s\<lparr>v_adds := r\<rparr>) b' ta' = sim_peek s b' ta'" for b' ta'
    using g(3) by (simp add: sim_peek_def)
  ultimately show ?thesis
    using w(1,2) g(1,2) by (auto simp: sim_do_command_def u sim_ok_def sim_peek_def key_of_def)
qed

text \<open>C22: the write and read commands of the simulated controller implement a memory: a write is a
  function update of the contents at that cell, a read returns the contents and changes nothing, and
  the table never runs out of room for the 4096 cells.\<close>

theorem sim_memory_refines:
  assumes "sim_ok s" "(b, ta) \<in> sim_cells"
  shows "\<exists>s1 s2 v. sim_do_command env now fd b WRM ta x a3 a4 e t s = (DONE, s1) \<and> sim_ok s1
      \<and> (\<forall>(b', ta') \<in> sim_cells. sim_peek s1 b' ta' = (if b' = b \<and> ta' = ta then x else sim_peek s b' ta'))
      \<and> sim_do_command env now fd b RDM ta a2 a3 a4 e t s = (v, s2) \<and> sim_ok s2 \<and> v = sim_peek s b ta
      \<and> (\<forall>(b', ta') \<in> sim_cells. sim_peek s2 b' ta' = sim_peek s b' ta')"
  by (rule simulated_memory [OF assms])

definition demo_simenv :: simenv where
  "demo_simenv = \<lparr>e_noise = (\<lambda>_ _ _. 0), e_image = v_mem, e_params = (\<lambda>_. 0), e_ms = (\<lambda>b e. (e - b) div 1000),
     e_made = (\<lambda>_. Inr (3, 4096)), e_errno = 12\<rparr>"

theorem sim_memory_refines_witness:
  "\<exists>s1. sim_do_command demo_simenv 0 3 TIM_ID WRM (Y_MEM OR 0x18) 77 NONE NONE DON DEF_TIMEOUT sim_start = (DONE, s1)
    \<and> sim_ok s1 \<and> sim_peek s1 TIM_ID (Y_MEM OR 0x18) = 77 \<and> sim_peek s1 TIM_ID (Y_MEM OR 1) = 0"
proof -
  have "sim_ok sim_start" by (simp add: sim_ok_def cells_ok_def sim_start_def)
  moreover have c: "(TIM_ID, Y_MEM OR 0x18) \<in> sim_cells" "(TIM_ID, Y_MEM OR 1) \<in> sim_cells"
    by (simp_all add: sim_cells_def key_of_def sim_keys_def)
  moreover have "sim_peek sim_start TIM_ID (Y_MEM OR 1) = 0"
    by (simp add: sim_peek_def cell_value_def key_of_def sim_start_def)
  ultimately show ?thesis
    using sim_memory_refines [of sim_start TIM_ID "Y_MEM OR 0x18" demo_simenv 0 3 77] by (fastforce dest: bspec)
qed


section \<open>An exposure\<close>

text \<open>\<open>n\<close> calls of \<open>get_read_progress\<close> and what they return.\<close>

primrec readout :: "simenv \<Rightarrow> int \<Rightarrow> nat \<Rightarrow> sim \<Rightarrow> (int list \<times> sim) option" where
  "readout env now 0 s = Some ([], s)"
| "readout env now (Suc n) s =
     Option.bind (readout env now n s) (\<lambda>(rs, s1).
       map_option (\<lambda>(r, s2). (rs @ [r], s2)) (sim_get_read_progress env now s1))"

lemma put_loop:
  assumes "0 \<le> v_mapcnt s" "v_mapcnt s < v_maxmappix s" "v_maxmappix s < 2 ^ 31"
    and "v_currptr s = v_highmem s + 2 * v_mapcnt s"
  shows "\<exists>m. for_n n (\<lambda>i t. put_sim (f i) t) s = s\<lparr>v_mem := m,
    v_currptr := v_highmem s + 2 * ((v_mapcnt s + int n) mod v_maxmappix s),
    v_mapcnt := (v_mapcnt s + int n) mod v_maxmappix s\<rparr>"
proof (induction n)
  case 0
  show ?case using assms by (intro exI [of _ "v_mem s"]) simp
next
  case (Suc n)
  define k where "k = (v_mapcnt s + int n) mod v_maxmappix s"
  have k: "0 \<le> k" "k < v_maxmappix s" using assms by (simp_all add: k_def)
  then have u: "to_i32 (k + 1) = k + 1" using assms(3) by (simp add: to_i32_id)
  have "(v_mapcnt s + int (Suc n)) mod v_maxmappix s = (k + 1) mod v_maxmappix s"
    by (simp add: k_def mod_simps ac_simps)
  also have "\<dots> = (if k + 1 \<ge> v_maxmappix s then 0 else k + 1)"
  proof -
    have "k + 1 = v_maxmappix s \<or> k + 1 < v_maxmappix s" using k by linarith
    then show ?thesis using k by auto
  qed
  finally have nxt: "(v_mapcnt s + int (Suc n)) mod v_maxmappix s = (if k + 1 \<ge> v_maxmappix s then 0 else k + 1)" .
  obtain m where "for_n n (\<lambda>i t. put_sim (f i) t) s
      = s\<lparr>v_mem := m, v_currptr := v_highmem s + 2 * k, v_mapcnt := k\<rparr>" (is "_ = ?t")
    using Suc unfolding k_def by blast
  then have "for_n (Suc n) (\<lambda>i t. put_sim (f i) t) s = put_sim (f n) ?t" by simp
  also have "\<dots> = s\<lparr>v_mem := st_u16 m (v_highmem s + 2 * k) (to_u16 (f n)),
    v_currptr := v_highmem s + 2 * (if k + 1 \<ge> v_maxmappix s then 0 else k + 1),
    v_mapcnt := (if k + 1 \<ge> v_maxmappix s then 0 else k + 1)\<rparr>"
    by (simp add: put_sim_def reset_buffer_def u)
  finally show ?case unfolding nxt by blast
qed

text \<open>The state while a frame of an optical detector is read out: \<open>k\<close> pixels of the map are full.\<close>

definition reading_at :: "sim \<Rightarrow> int \<Rightarrow> sim \<Rightarrow> bool" where
  "reading_at s0 k s \<longleftrightarrow> (\<exists>m. s = s0\<lparr>v_clearing := False, v_reading := True, v_nsamp := 1, v_chunk := 65535,
     v_mem := m, v_currptr := v_highmem s0 + 2 * k, v_mapcnt := k\<rparr>)"

definition exposing :: "sim \<Rightarrow> bool" where
  "exposing s \<longleftrightarrow> \<not> v_alldone s \<and> v_clearing s \<and> \<not> v_resetting s \<and> \<not> v_reading s \<and> v_mapcnt s = 0
     \<and> v_currptr s = v_highmem s \<and> v_framescntr s = 0 \<and> v_fpb s = 1 \<and> v_sampcntr s = 0
     \<and> v_dettype s \<noteq> NIR \<and> v_artifdata s = ARTIFDET \<and> 0 < v_highmem s \<and> v_maxmappix s < 2 ^ 31
     \<and> 0 < v_totpix s \<and> v_totpix s < v_maxmappix s"

lemma exposure_starts:
  assumes "v_fpb t \<le> 1" "v_sampcntr t = 0" "v_dettype t = OPTICAL" "v_artifdata t = ARTIFDET"
    "0 < v_highmem t" "v_maxmappix t < 2 ^ 31" "0 < v_totpix t" "v_totpix t < v_maxmappix t"
  shows "exposing (snd (sim_do_command env now fd b SEX a1 a2 a3 a4 e tm t))"
    "v_totpix (snd (sim_do_command env now fd b SEX a1 a2 a3 a4 e tm t)) = v_totpix t"
    "v_maxmappix (snd (sim_do_command env now fd b SEX a1 a2 a3 a4 e tm t)) = v_maxmappix t"
  using assms by (auto simp: sim_do_command_def Let_def exposing_def reset_buffer_def)

lemma clearing_step:
  "exposing s0 \<Longrightarrow> \<exists>s. sim_get_read_progress env now s0 = Some (-1, s) \<and> reading_at s0 0 s"
  by (auto simp: exposing_def sim_get_read_progress_def get_data_progress_def Let_def reading_at_def
      intro: exI [of _ "v_mem s0"])

lemma reading_chunk:
  assumes "exposing s0" "reading_at s0 k s" "0 \<le> k" "k < v_maxmappix s0"
  shows "\<exists>s1. get_chunk env True (s\<lparr>v_chunk := 65535\<rparr>) = Some ((k + 65535) mod v_maxmappix s0, s1)
    \<and> reading_at s0 ((k + 65535) mod v_maxmappix s0) s1"
proof -
  obtain m where s: "s = s0\<lparr>v_clearing := False, v_reading := True, v_nsamp := 1, v_chunk := 65535,
     v_mem := m, v_currptr := v_highmem s0 + 2 * k, v_mapcnt := k\<rparr>" (is "s = ?s")
    using assms(2) by (auto simp: reading_at_def)
  obtain m' where "for_n 65535 (\<lambda>i t. put_sim (e_noise env ?s (to_i32 (v_siglevel s0 * v_totexptime s0)) i) t) ?s
      = ?s\<lparr>v_mem := m', v_currptr := v_highmem s0 + 2 * ((k + 65535) mod v_maxmappix s0),
           v_mapcnt := (k + 65535) mod v_maxmappix s0\<rparr>"
    using put_loop [where s = ?s and n = 65535 and f = "e_noise env ?s (to_i32 (v_siglevel s0 * v_totexptime s0))"] assms
    by (auto simp: exposing_def)
  moreover have "s\<lparr>v_chunk := 65535\<rparr> = ?s" by (simp add: s)
  ultimately show ?thesis
    using assms(1,3) by (simp add: get_chunk_def exposing_def Let_def) (auto simp: reading_at_def)
qed

lemma reading_step:
  assumes "exposing s0" "reading_at s0 k s" "0 \<le> k" "k < v_maxmappix s0"
    and "(k + 65535) mod v_maxmappix s0 < v_totpix s0"
  shows "\<exists>s1. sim_get_read_progress env now s = Some ((k + 65535) mod v_maxmappix s0, s1)
    \<and> reading_at s0 ((k + 65535) mod v_maxmappix s0) s1"
proof -
  from reading_chunk [OF assms(1-4)] obtain s1 where
    c: "get_chunk env True (s\<lparr>v_chunk := 65535\<rparr>) = Some ((k + 65535) mod v_maxmappix s0, s1)"
    and r: "reading_at s0 ((k + 65535) mod v_maxmappix s0) s1" by blast
  from r have "v_totpix s1 = v_totpix s0" by (auto simp: reading_at_def)
  with c r assms show ?thesis
    by (auto simp: sim_get_read_progress_def get_data_progress_def reading_at_def [of s0 k s] exposing_def)
qed

lemma reading_last:
  assumes "exposing s0" "reading_at s0 k s" "0 \<le> k" "k < v_maxmappix s0"
    and "v_totpix s0 \<le> (k + 65535) mod v_maxmappix s0"
  shows "\<exists>s1. sim_get_read_progress env now s = Some (v_totpix s0, s1) \<and> v_alldone s1 \<and> \<not> v_reading s1
    \<and> v_mapcnt s1 = 0 \<and> v_currptr s1 = v_highmem s0"
proof -
  from reading_chunk [OF assms(1-4)] obtain s1 where
    c: "get_chunk env True (s\<lparr>v_chunk := 65535\<rparr>) = Some ((k + 65535) mod v_maxmappix s0, s1)"
    and r: "reading_at s0 ((k + 65535) mod v_maxmappix s0) s1" by blast
  from r obtain m where s1: "s1 = s0\<lparr>v_clearing := False, v_reading := True, v_nsamp := 1, v_chunk := 65535,
     v_mem := m, v_currptr := v_highmem s0 + 2 * ((k + 65535) mod v_maxmappix s0),
     v_mapcnt := (k + 65535) mod v_maxmappix s0\<rparr>" by (auto simp: reading_at_def)
  have "to_i32 1 = 1" by (simp add: to_i32_def)
  with c assms show ?thesis
    by (auto simp: sim_get_read_progress_def get_data_progress_def reading_at_def [of s0 k s] exposing_def
        s1 frame_done_def Let_def reset_buffer_def)
qed

lemma readout_runs:
  assumes s0: "exposing s0" and fit: "v_totpix s0 + 65535 \<le> v_maxmappix s0"
    and j: "65535 * int j < v_totpix s0"
  shows "\<exists>s. readout env now (Suc j) s0 = Some (-1 # map (\<lambda>k. 65535 * int (Suc k)) [0..<j], s)
    \<and> reading_at s0 (65535 * int j) s"
  using j
proof (induction j)
  case 0
  from clearing_step [OF s0] show ?case by fastforce
next
  case (Suc j)
  from Suc obtain s where
    s: "readout env now (Suc j) s0 = Some (-1 # map (\<lambda>k. 65535 * int (Suc k)) [0..<j], s)"
      "reading_at s0 (65535 * int j) s" by auto
  have m: "(65535 * int j + 65535) mod v_maxmappix s0 = 65535 * int (Suc j)"
    using Suc.prems fit by simp
  have "65535 * int j < v_maxmappix s0" using Suc.prems fit by simp
  from reading_step [OF s0 s(2) _ this, of env now] obtain s1 where
    "sim_get_read_progress env now s = Some (65535 * int (Suc j), s1)" "reading_at s0 (65535 * int (Suc j)) s1"
    unfolding m using Suc.prems by auto
  with s(1) show ?case by simp
qed


definition demo_sim :: "int \<Rightarrow> int \<Rightarrow> sim" where
  "demo_sim pixels room = sim_start\<lparr>v_highmem := 4096, v_maxmappix := room, v_totpix := pixels\<rparr>"


text \<open>An image that almost fills the map may never end: when the map is a multiple of \<open>d\<close> pixels, \<open>d\<close>
  a divisor of the chunk, and the image is one pixel smaller, the write position wraps without ever
  reaching the last pixel, and no number of progress calls finishes the exposure.\<close>

theorem sim_readout_never_ends:
  assumes "v_fpb t \<le> 1" "v_sampcntr t = 0" "v_dettype t = OPTICAL" "v_artifdata t = ARTIFDET"
    "0 < v_highmem t" "v_maxmappix t < 2 ^ 31" "0 < v_totpix t" "v_totpix t + 1 = v_maxmappix t"
    and d: "1 < d" "d dvd 65535" "d dvd v_maxmappix t"
    and run: "sim_do_command env now fd b SEX a1 a2 a3 a4 e tm t = (DONE, s0)"
  shows "\<exists>rs s. readout env now n s0 = Some (rs, s) \<and> \<not> v_alldone s \<and> list_all (\<lambda>r. r < v_totpix t) rs"
proof -
  have s0: "exposing s0" "v_totpix s0 = v_totpix t" "v_maxmappix s0 = v_maxmappix t"
    using exposure_starts [of t env now fd b a1 a2 a3 a4 e tm] assms by simp_all
  have "\<exists>rs s. readout env now n s0 = Some (rs, s) \<and> list_all (\<lambda>r. r < v_totpix t) rs
    \<and> (n = 0 \<and> s = s0 \<or> (\<exists>k. reading_at s0 k s \<and> 0 \<le> k \<and> k < v_maxmappix t \<and> d dvd k))"
  proof (induction n)
    case 0
    show ?case by simp
  next
    case (Suc n)
    then obtain rs s where IH: "readout env now n s0 = Some (rs, s)" "list_all (\<lambda>r. r < v_totpix t) rs"
      "n = 0 \<and> s = s0 \<or> (\<exists>k. reading_at s0 k s \<and> 0 \<le> k \<and> k < v_maxmappix t \<and> d dvd k)" by blast
    from IH(3) show ?case
    proof
      assume "n = 0 \<and> s = s0"
      moreover obtain s1 where "sim_get_read_progress env now s0 = Some (-1, s1)" "reading_at s0 0 s1"
        using clearing_step [OF s0(1)] by blast
      ultimately show ?thesis using IH(1,2) assms(7,8) by auto
    next
      assume "\<exists>k. reading_at s0 k s \<and> 0 \<le> k \<and> k < v_maxmappix t \<and> d dvd k"
      then obtain k where k: "reading_at s0 k s" "0 \<le> k" "k < v_maxmappix t" "d dvd k" by blast
      define k' where "k' = (k + 65535) mod v_maxmappix t"
      have dk: "d dvd k'" unfolding k'_def using k(4) d by (simp add: dvd_mod)
      have b: "0 \<le> k'" "k' < v_maxmappix t" using assms(7,8) by (simp_all add: k'_def)
      have "k' \<noteq> v_totpix t"
      proof
        assume "k' = v_totpix t"
        then have "k' + 1 = v_maxmappix t" using assms(8) by simp
        then have "d dvd k' + 1" using d(3) by simp
        with dk have "d dvd 1" using dvd_add_right_iff by blast
        with d(1) show False by (auto dest: zdvd_imp_le)
      qed
      with b assms(8) have less: "k' < v_totpix t" by simp
      from reading_step [OF s0(1) k(1,2), of env now, unfolded s0, OF k(3)] less obtain s1 where
        "sim_get_read_progress env now s = Some (k', s1)" "reading_at s0 k' s1"
        unfolding k'_def by blast
      with IH(1,2) less b dk show ?thesis by (auto intro: exI [of _ k'])
    qed
  qed
  then show ?thesis
    using s0(1) by (fastforce simp: reading_at_def exposing_def)
qed

theorem sim_readout_never_ends_witness:
  "\<exists>s0. sim_do_command demo_simenv 0 3 TIM_ID SEX NONE NONE NONE NONE DON DEF_TIMEOUT (demo_sim 99999 100000) = (DONE, s0)
    \<and> (\<exists>rs s. readout demo_simenv 0 1000 s0 = Some (rs, s) \<and> \<not> v_alldone s)"
proof -
  obtain s0 where run: "sim_do_command demo_simenv 0 3 TIM_ID SEX NONE NONE NONE NONE DON DEF_TIMEOUT
      (demo_sim 99999 100000) = (DONE, s0)"
    by (simp add: sim_do_command_def Let_def)
  have "\<exists>rs s. readout demo_simenv 0 1000 s0 = Some (rs, s) \<and> \<not> v_alldone s
      \<and> list_all (\<lambda>r. r < v_totpix (demo_sim 99999 100000)) rs"
    by (rule sim_readout_never_ends [OF _ _ _ _ _ _ _ _ _ _ _ run, where d = 5])
      (simp_all add: demo_sim_def sim_start_def)
  with run show ?thesis by blast
qed

section \<open>Synthetic data\<close>

text \<open>Asking the simulator for a signal level of 0 changes the bias level to 2000 and leaves the
  signal at 0.\<close>

theorem sim_zero_signal_sets_bias:
  assumes "0 < bias" "bias < 2 ^ 31" "scan_ints 3 args = [bias, 0, ron]" "0 \<le> ron"
  shows "\<exists>s'. sim_artif_pattern env ARTIFDET args s = (DONE, s') \<and> v_biaslevel s' = DEFSIGLEVEL \<and> v_siglevel s' = 0"
  using assms by (simp add: sim_artif_pattern_def Let_def scanned_def)

theorem sim_zero_signal_sets_bias_witness:
  "\<exists>s'. sim_artif_pattern demo_simenv ARTIFDET ''1500 0 4'' sim_start = (DONE, s')
    \<and> v_biaslevel s' = 2000 \<and> v_siglevel s' = 0"
proof -
  have "scan_ints 3 ''1500 0 4'' = [1500, 0, 4]" by code_simp
  from sim_zero_signal_sets_bias [OF _ _ this] show ?thesis by simp
qed

end
