(* ===== verification/Sdsu_Props.thy ===== *)
theory Sdsu_Props imports Sdsu SimDriver_Props
begin

text \<open>
  The controller library against its driver.  \<open>dsp_driver\<close> is what the library relies on: within a set of
  memory cells, the write command is acknowledged and updates one cell, the read command returns a
  cell.  The clients' lemmas are proved in the locale, which \<open>SimDriver\<close> interprets.
\<close>

section \<open>The driver's contract\<close>

locale dsp_driver =
  fixes cmd :: "int \<Rightarrow> int \<Rightarrow> int \<Rightarrow> int \<Rightarrow> int \<Rightarrow> int \<Rightarrow> int \<Rightarrow> int \<Rightarrow> int \<Rightarrow> 'd call"
    and ok :: "int \<Rightarrow> 'd \<Rightarrow> bool"
    and peek :: "'d \<Rightarrow> int \<Rightarrow> int \<Rightarrow> int"
    and cells :: "(int \<times> int) set"
    and word :: "int \<Rightarrow> bool"
  assumes writes: "\<lbrakk>ok fd d; (b, ta) \<in> cells; word v\<rbrakk> \<Longrightarrow>
    \<exists>r d'. cmd fd b WRM ta v NONE NONE e DEF_TIMEOUT d = Some (r, d') \<and> (e = DON \<longrightarrow> r = DONE) \<and> ok fd d'
      \<and> (\<forall>(b', ta') \<in> cells. peek d' b' ta' = (if b' = b \<and> ta' = ta then v else peek d b' ta'))"
  assumes reads: "\<lbrakk>ok fd d; (b, ta) \<in> cells\<rbrakk> \<Longrightarrow>
    \<exists>d'. cmd fd b RDM ta NONE NONE NONE 0 DEF_TIMEOUT d = Some (peek d b ta, d') \<and> ok fd d'
      \<and> (\<forall>(b', ta') \<in> cells. peek d' b' ta' = peek d b' ta')"
begin

definition attached :: "int \<Rightarrow> 'd sdsu \<Rightarrow> bool" where
  "attached fd s \<longleftrightarrow> h_do_command (sd_dhe s) = Some cmd \<and> ok fd (sd_dev s)"

text \<open>\<open>holds d d' ws\<close>: the cells of \<open>d'\<close> are those of \<open>d\<close> after the writes \<open>ws\<close>, the last write first.\<close>

definition holds :: "'d \<Rightarrow> 'd \<Rightarrow> ((int \<times> int) \<times> int) list \<Rightarrow> bool" where
  "holds d d' ws \<longleftrightarrow> (\<forall>(b, ta) \<in> cells.
     peek d' b ta = (case map_of ws (b, ta) of None \<Rightarrow> peek d b ta | Some v \<Rightarrow> v))"

lemma holds_nil: "holds d d []"
  by (simp add: holds_def)

lemma holds_hit: "\<lbrakk>holds d d' ws; (b, ta) \<in> cells; map_of ws (b, ta) = Some v\<rbrakk> \<Longrightarrow> peek d' b ta = v"
  by (auto simp: holds_def)

lemma holds_miss: "\<lbrakk>holds d d' ws; (b, ta) \<in> cells; map_of ws (b, ta) = None\<rbrakk> \<Longrightarrow> peek d' b ta = peek d b ta"
  by (auto simp: holds_def split: option.splits)

lemma holds_rest: "holds d d' ws \<Longrightarrow> set (map fst ws) \<subseteq> X \<Longrightarrow> \<forall>(b, ta) \<in> cells - X. peek d' b ta = peek d b ta"
  by (auto intro!: holds_miss simp: map_of_eq_None_iff)

lemma do_write:
  assumes "attached fd s" "(b, ta) \<in> cells" "holds d0 (sd_dev s) ws" "word v"
  shows "\<exists>r d. do_command fd b WRM ta v NONE NONE e DEF_TIMEOUT s = Some (r, s\<lparr>sd_dev := d\<rparr>)
    \<and> (e = DON \<longrightarrow> r = DONE) \<and> ok fd d \<and> holds d0 d (((b, ta), v) # ws)"
proof -
  obtain r d where "cmd fd b WRM ta v NONE NONE e DEF_TIMEOUT (sd_dev s) = Some (r, d)" "e = DON \<longrightarrow> r = DONE" "ok fd d"
    and p: "\<forall>(b', ta') \<in> cells. peek d b' ta' = (if b' = b \<and> ta' = ta then v else peek (sd_dev s) b' ta')"
    using writes [of fd "sd_dev s" b ta v e] assms by (auto simp: attached_def)
  moreover have "holds d0 d (((b, ta), v) # ws)"
    using p assms(3) unfolding holds_def by fastforce
  ultimately show ?thesis using assms(1) by (auto simp: do_command_def drv_def attached_def)
qed

lemma do_read:
  assumes "attached fd s" "(b, ta) \<in> cells"
  shows "\<exists>d. do_command fd b RDM ta NONE NONE NONE 0 DEF_TIMEOUT s = Some (peek (sd_dev s) b ta, s\<lparr>sd_dev := d\<rparr>)
    \<and> ok fd d \<and> holds (sd_dev s) d []"
proof -
  obtain d where "cmd fd b RDM ta NONE NONE NONE 0 DEF_TIMEOUT (sd_dev s) = Some (peek (sd_dev s) b ta, d)" "ok fd d"
    and "\<forall>(b', ta') \<in> cells. peek d b' ta' = peek (sd_dev s) b' ta'"
    using reads [of fd "sd_dev s" b ta] assms by (auto simp: attached_def)
  then show ?thesis using assms(1) by (auto simp: do_command_def drv_def attached_def holds_def)
qed

lemma attached_dev: "attached fd s \<Longrightarrow> ok fd d \<Longrightarrow> attached fd (s\<lparr>sd_dev := d\<rparr>)"
  by (simp add: attached_def)

lemma set_size_writes:
  assumes s: "attached fd s" and size: "to_u32 (ncols * nrows * 2) < to_u32 (sd_bufsize s)"
    and at: "tab_addr ''cols'' (0x01, TIM_ID, Y_MEM) s = (ca, cb, cm)"
      "tab_addr ''rows'' (0x02, TIM_ID, Y_MEM) s = (ra, rb, rm)"
    and cells: "(cb, cm OR ca) \<in> cells" "(rb, rm OR ra) \<in> cells"
    and fits: "word (to_i32 ncols)" "word (to_i32 nrows)"
  shows "\<exists>d. ok fd d
    \<and> holds (sd_dev s) d [((rb, rm OR ra), to_i32 nrows), ((cb, cm OR ca), to_i32 ncols)]
    \<and> set_size fd ncols nrows s =
       map_option (\<lambda>(_, s3). (DONE, s3))
         (drv (map_option (\<lambda>f. f fd (to_i32 ncols) (to_i32 nrows)) (h_set_size (sd_dhe s)))
           (s\<lparr>sd_dev := d, sd_ncols := to_i32 ncols, sd_nrows := to_i32 nrows\<rparr>))"
proof -
  from do_write [OF s cells(1) holds_nil fits(1), of DON] obtain d1 where
    w1: "do_command fd cb WRM (cm OR ca) (to_i32 ncols) NONE NONE DON DEF_TIMEOUT s = Some (DONE, s\<lparr>sd_dev := d1\<rparr>)"
      "ok fd d1" "holds (sd_dev s) d1 [((cb, cm OR ca), to_i32 ncols)]" by auto
  have at2: "tab_addr ''rows'' (0x02, TIM_ID, Y_MEM) (s\<lparr>sd_dev := d1\<rparr>) = (ra, rb, rm)"
    using at(2) by (simp add: tab_addr_def SDSU_get_tab_address_def)
  from do_write [OF attached_dev [OF s w1(2)] cells(2) _ fits(2), of "sd_dev s" "[((cb, cm OR ca), to_i32 ncols)]" DON] w1(3)
  obtain d2 where
    "do_command fd rb WRM (rm OR ra) (to_i32 nrows) NONE NONE DON DEF_TIMEOUT (s\<lparr>sd_dev := d1\<rparr>) = Some (DONE, s\<lparr>sd_dev := d2\<rparr>)"
    "ok fd d2" "holds (sd_dev s) d2 [((rb, rm OR ra), to_i32 nrows), ((cb, cm OR ca), to_i32 ncols)]" by auto
  with w1(1) at(1) at2 size show ?thesis
    by (intro exI [of _ d2]) (auto simp: set_size_def bind_def map_option_case split: option.splits)
qed

text \<open>The three mode switches are one read-modify-write of \<open>X:0\<close> of the timing board.\<close>

lemma rmw:
  assumes "attached fd s" "(m, X_MEM OR a) \<in> cells" "(m, X_MEM) \<in> cells" "sd_dest s = m" "word v"
  shows "\<exists>d1 d2. read_memory fd ''X'' a s = Some (peek (sd_dev s) m (X_MEM OR a), s\<lparr>sd_dev := d1\<rparr>)
    \<and> write_memory fd ''X'' 0 v (s\<lparr>sd_dev := d1\<rparr>) = Some (DONE, s\<lparr>sd_dev := d2\<rparr>)
    \<and> ok fd d2 \<and> holds (sd_dev s) d2 [((m, X_MEM), v)]"
proof -
  from do_read [OF assms(1,2)] obtain d1 where
    r: "do_command fd m RDM (X_MEM OR a) NONE NONE NONE 0 DEF_TIMEOUT s = Some (peek (sd_dev s) m (X_MEM OR a), s\<lparr>sd_dev := d1\<rparr>)"
      "ok fd d1" "holds (sd_dev s) d1 []" by blast
  from do_write [OF attached_dev [OF assms(1) r(2)] assms(3) _ assms(5), of "sd_dev s" "[]" DON] r(3) obtain d2 where
    "do_command fd m WRM X_MEM v NONE NONE DON DEF_TIMEOUT (s\<lparr>sd_dev := d1\<rparr>) = Some (DONE, s\<lparr>sd_dev := d2\<rparr>)"
    "ok fd d2" "holds (sd_dev s) d2 [((m, X_MEM), v)]" by auto
  with r(1) assms(4) show ?thesis
    by (auto simp: read_memory_def write_memory_def mem_type_def)
qed

text \<open>On the utility board the word is read from \<open>X:1\<close> and still written to \<open>X:0\<close>.\<close>

lemma utility_switch:
  assumes s: "attached fd s" "(m, X_MEM OR 1) \<in> cells" "(m, X_MEM) \<in> cells" and m: "sd_master s = m" "m \<noteq> TIM_ID"
  defines "old \<equiv> to_u32 (peek (sd_dev s) m (X_MEM OR 1))"
  assumes w: "word (to_i32 (if flag \<noteq> 0 then old OR 1 else old AND 0xFFFFFFFE))"
  shows "\<exists>s'. autoshutter fd flag s = Some (DONE, s') \<and> attached fd s'
      \<and> holds (sd_dev s) (sd_dev s') [((m, X_MEM), to_i32 (if flag \<noteq> 0 then old OR 1 else old AND 0xFFFFFFFE))]"
proof -
  let ?s = "s\<lparr>sd_dest := m\<rparr>"
  have a: "attached fd ?s" using s(1) by (simp add: attached_def)
  have old: "\<not> old < 0" using to_u32_range by (simp add: old_def not_less)
  from rmw [OF a s(2,3) _ w] m old s(1)
  show ?thesis
    by (auto simp: autoshutter_def Let_def get_masterID_def set_destination_def old_def attached_def)
qed

lemma mode_switches:
  assumes s: "attached fd s" "(TIM_ID, X_MEM) \<in> cells" and m: "sd_master s = TIM_ID"
  defines "old \<equiv> to_u32 (peek (sd_dev s) TIM_ID X_MEM)"
  shows "word (to_i32 (if flag \<noteq> 0 then old OR 0x800 else old AND to_u32 (NOT 0x800))) \<Longrightarrow> \<exists>s'. autoshutter fd flag s = Some (DONE, s') \<and> attached fd s'
      \<and> holds (sd_dev s) (sd_dev s') [((TIM_ID, X_MEM), to_i32 (if flag \<noteq> 0 then old OR 0x800 else old AND to_u32 (NOT 0x800)))]"
    and "word (to_i32 (if flag \<noteq> 0 then old AND to_u32 (NOT 0x100) else old OR 0x100)) \<Longrightarrow> \<exists>s'. autoclear fd flag s = Some (DONE, s') \<and> attached fd s'
      \<and> holds (sd_dev s) (sd_dev s') [((TIM_ID, X_MEM), to_i32 (if flag \<noteq> 0 then old AND to_u32 (NOT 0x100) else old OR 0x100))]"
    and "word (to_i32 (if flag \<noteq> 0 then old OR 0x400 else old AND to_u32 (NOT 0x400))) \<Longrightarrow> \<exists>s'. artif_data fd flag s = Some (DONE, s') \<and> attached fd s'
      \<and> holds (sd_dev s) (sd_dev s') [((TIM_ID, X_MEM), to_i32 (if flag \<noteq> 0 then old OR 0x400 else old AND to_u32 (NOT 0x400)))]"
proof -
  let ?s = "s\<lparr>sd_dest := TIM_ID\<rparr>"
  have a: "attached fd ?s" using s(1) by (simp add: attached_def)
  have old: "\<not> old < 0" using to_u32_range by (simp add: old_def not_less)
  note step = rmw [where s = ?s and m = TIM_ID and a = 0 and fd = fd, OF a _ s(2), simplified, OF s(2)]
  show "\<exists>s'. autoshutter fd flag s = Some (DONE, s') \<and> attached fd s'
      \<and> holds (sd_dev s) (sd_dev s') [((TIM_ID, X_MEM), to_i32 (if flag \<noteq> 0 then old OR 0x800 else old AND to_u32 (NOT 0x800)))]"
    if "word (to_i32 (if flag \<noteq> 0 then old OR 0x800 else old AND to_u32 (NOT 0x800)))"
    using step [OF that] m old s(1) by (auto simp: autoshutter_def Let_def get_masterID_def set_destination_def old_def attached_def)
  show "\<exists>s'. autoclear fd flag s = Some (DONE, s') \<and> attached fd s'
      \<and> holds (sd_dev s) (sd_dev s') [((TIM_ID, X_MEM), to_i32 (if flag \<noteq> 0 then old AND to_u32 (NOT 0x100) else old OR 0x100))]"
    if "word (to_i32 (if flag \<noteq> 0 then old AND to_u32 (NOT 0x100) else old OR 0x100))"
    using step [OF that] m old s(1) by (auto simp: autoclear_def Let_def get_masterID_def set_destination_def old_def attached_def)
  show "\<exists>s'. artif_data fd flag s = Some (DONE, s') \<and> attached fd s'
      \<and> holds (sd_dev s) (sd_dev s') [((TIM_ID, X_MEM), to_i32 (if flag \<noteq> 0 then old OR 0x400 else old AND to_u32 (NOT 0x400)))]"
    if "word (to_i32 (if flag \<noteq> 0 then old OR 0x400 else old AND to_u32 (NOT 0x400)))"
    using step [OF that] m old s(1) by (auto simp: artif_data_def Let_def get_masterID_def set_destination_def old_def attached_def)
qed

lemma set_binning_writes:
  assumes s: "attached fd s" and fits: "sprintf_d 3 xbin \<noteq> None" "sprintf_d 3 ybin \<noteq> None"
    and at: "tab_addr ''xbin'' (0x05, TIM_ID, Y_MEM) s = (xa, xb, xm)"
      "tab_addr ''xbin'' (0x06, TIM_ID, Y_MEM) s = (ya, yb, ym)"
    and cells: "(xb, xm OR xa) \<in> cells" "(yb, ym OR ya) \<in> cells" and words: "word xbin" "word ybin"
  shows "\<exists>r s'. set_binning fd xbin ybin s = Some (r, s') \<and> attached fd s'
    \<and> holds (sd_dev s) (sd_dev s') [((yb, ym OR ya), ybin), ((xb, xm OR xa), xbin)]"
proof -
  from do_write [OF s cells(1) holds_nil words(1), of 0] obtain r1 d1 where
    w1: "do_command fd xb WRM (xm OR xa) xbin NONE NONE 0 DEF_TIMEOUT s = Some (r1, s\<lparr>sd_dev := d1\<rparr>)"
      "ok fd d1" "holds (sd_dev s) d1 [((xb, xm OR xa), xbin)]" by auto
  have at2: "tab_addr ''xbin'' (0x06, TIM_ID, Y_MEM) (s\<lparr>sd_dev := d1\<rparr>) = (ya, yb, ym)"
    using at(2) by (simp add: tab_addr_def SDSU_get_tab_address_def)
  from do_write [OF attached_dev [OF s w1(2)] cells(2) _ words(2), of "sd_dev s" "[((xb, xm OR xa), xbin)]" 0] w1(3)
  obtain r2 d2 where
    "do_command fd yb WRM (ym OR ya) ybin NONE NONE 0 DEF_TIMEOUT (s\<lparr>sd_dev := d1\<rparr>) = Some (r2, s\<lparr>sd_dev := d2\<rparr>)"
    "ok fd d2" "holds (sd_dev s) d2 [((yb, ym OR ya), ybin), ((xb, xm OR xa), xbin)]" by auto
  with w1(1) at(1) at2 fits s show ?thesis
    by (intro exI [of _ r2] exI [of _ "s\<lparr>sd_dev := d2\<rparr>"]) (auto simp: set_binning_def attached_def)
qed

end

section \<open>The simulated controller as a driver\<close>

definition sim_cmd ::
  "simenv \<Rightarrow> int \<Rightarrow> int \<Rightarrow> int \<Rightarrow> int \<Rightarrow> int \<Rightarrow> int \<Rightarrow> int \<Rightarrow> int \<Rightarrow> int \<Rightarrow> int \<Rightarrow> sim call" where
  "sim_cmd env now fd b c a1 a2 a3 a4 e t d = Some (sim_do_command env now fd b c a1 a2 a3 a4 e t d)"

interpretation simdrv: dsp_driver "sim_cmd env now" "\<lambda>_. sim_ok" sim_peek sim_cells "\<lambda>_. True"
  for env now
proof
  fix fd d b ta v e assume a: "sim_ok d" "(b, ta) \<in> sim_cells"
  from simulated_memory [OF a, of env now fd v NONE NONE e DEF_TIMEOUT NONE]
  show "\<exists>r d'. sim_cmd env now fd b WRM ta v NONE NONE e DEF_TIMEOUT d = Some (r, d') \<and> (e = DON \<longrightarrow> r = DONE) \<and> sim_ok d'
      \<and> (\<forall>(b', ta') \<in> sim_cells. sim_peek d' b' ta' = (if b' = b \<and> ta' = ta then v else sim_peek d b' ta'))"
    unfolding sim_cmd_def by blast
next
  fix fd d b ta assume a: "sim_ok d" "(b, ta) \<in> sim_cells"
  from simulated_memory [OF a, of env now fd 0 NONE NONE 0 DEF_TIMEOUT NONE]
  show "\<exists>d'. sim_cmd env now fd b RDM ta NONE NONE NONE 0 DEF_TIMEOUT d = Some (sim_peek d b ta, d') \<and> sim_ok d'
      \<and> (\<forall>(b', ta') \<in> sim_cells. sim_peek d' b' ta' = sim_peek d b' ta')"
    unfolding sim_cmd_def by blast
qed


text \<open>The library attached to the simulator.\<close>

definition sim_lib :: "simenv \<Rightarrow> int \<Rightarrow> sim dhe" where
  "sim_lib env now = no_dhe\<lparr>h_open := Some (sim_open_drv env), h_close := Some (\<lambda>_ d. Some (sim_close_drv d)),
     h_read_reply := Some (\<lambda>_ e _ d. Some (sim_read_reply e, d)),
     h_get_progress := Some (\<lambda>_. sim_get_read_progress env now),
     h_get_frame_progress := Some (\<lambda>_. sim_get_frames_progress env now),
     h_get_hctr := Some (\<lambda>_ d. Some (sim_no_op d)), h_get_hstr := Some (\<lambda>_ d. Some (sim_get_hstr, d)),
     h_set_cmd_data := Some (\<lambda>_ _ d. Some (sim_no_op d)), h_do_command := Some (sim_cmd env now),
     h_set_hcvr := Some (\<lambda>_ _ _ _ d. Some (sim_no_op d)),
     h_reset_controller := Some (\<lambda>_ d. Some (sim_no_op d)), h_reset_pci := Some (\<lambda>_ d. Some (sim_no_op d)),
     h_load_pci := Some (\<lambda>_ _ d. Some (sim_no_op d)),
     h_set_size := Some (\<lambda>_ nc nr d. Some (sim_set_size nc nr d)),
     h_get_link_info := Some (\<lambda>_ _. sim_get_link_info), h_get_cont_info := Some (\<lambda>_ _. sim_get_cont_info),
     h_set_pixtime := True, h_get_pixtime := True,
     h_artif_data := Some (\<lambda>_ ty args d. Some (sim_artif_pattern env ty args d))\<rparr>"

lemma sim_lib_simps [simp]:
  "h_do_command (sim_lib env now) = Some (sim_cmd env now)"
  "h_set_size (sim_lib env now) = Some (\<lambda>_ nc nr d. Some (sim_set_size nc nr d))"
  by (simp_all add: sim_lib_def)

definition demo_sdsu :: "sim sdsu" where
  "demo_sdsu = (sdsu_start sim_start)\<lparr>sd_dhe := sim_lib demo_simenv 0\<rparr>"

lemma demo_attached: "sd_dhe demo_sdsu = sim_lib demo_simenv 0" "sim_ok (sd_dev demo_sdsu)"
  by (simp_all add: demo_sdsu_def sdsu_start_def sim_ok_def cells_ok_def sim_start_def)

lemma cell_intro: "\<lbrakk>0 \<le> ta; ta < 2 ^ 24; b \<in> {TIM_ID, UTIL_ID}; ta AND 0xF00000 \<in> {P_MEM, X_MEM, Y_MEM, R_MEM};
    ta AND 0x0FFFFF < 512; 0 \<le> ta AND 0x0FFFFF\<rbrakk> \<Longrightarrow> (b, ta) \<in> sim_cells"
  by (auto simp: sim_cells_def key_of_def sim_keys_def)

lemma x_cells: "(TIM_ID, X_MEM) \<in> sim_cells" "(UTIL_ID, X_MEM) \<in> sim_cells" "(UTIL_ID, X_MEM OR 1) \<in> sim_cells"
  by (auto intro!: cell_intro)

lemma y_cells: "k \<in> {1, 2, 5, 6} \<Longrightarrow> (TIM_ID, Y_MEM OR k) \<in> sim_cells"
  by (auto intro!: cell_intro)

section \<open>Image size\<close>

text \<open>C24: \<open>set_size\<close> programs the controller: with an image smaller than the mapped buffer it stores the
  number of columns and of rows in the cells the command table names (or the defaults), changes no
  other cell, and leaves the simulator expecting \<open>ncols * nrows\<close> pixels.\<close>

theorem set_size_programs:
  assumes lib: "sd_dhe s = sim_lib env now" "sim_ok (sd_dev s)"
    and size: "0 \<le> ncols" "0 \<le> nrows" "ncols < 2 ^ 31" "nrows < 2 ^ 31" "ncols * nrows * 2 < sd_bufsize s" "sd_bufsize s < 2 ^ 31"
    and at: "tab_addr ''cols'' (0x01, TIM_ID, Y_MEM) s = (ca, cb, cm)"
      "tab_addr ''rows'' (0x02, TIM_ID, Y_MEM) s = (ra, rb, rm)"
    and cells: "(cb, cm OR ca) \<in> sim_cells" "(rb, rm OR ra) \<in> sim_cells" "(cb, cm OR ca) \<noteq> (rb, rm OR ra)"
  shows "\<exists>s'. set_size fd ncols nrows s = Some (DONE, s')
    \<and> sim_peek (sd_dev s') cb (cm OR ca) = ncols \<and> sim_peek (sd_dev s') rb (rm OR ra) = nrows
    \<and> (\<forall>(b, ta) \<in> sim_cells - {(cb, cm OR ca), (rb, rm OR ra)}. sim_peek (sd_dev s') b ta = sim_peek (sd_dev s) b ta)
    \<and> sd_ncols s' = ncols \<and> sd_nrows s' = nrows \<and> v_totpix (sd_dev s') = ncols * nrows \<and> sim_ok (sd_dev s')"
proof -
  have nn: "0 \<le> ncols * nrows" using size(1,2) by simp
  then have "0 \<le> sd_bufsize s" using size(5) by linarith
  then have u: "to_u32 (ncols * nrows * 2) < to_u32 (sd_bufsize s)"
    using nn size(5,6) by (simp add: to_u32_id)
  have "to_i32 (ncols * nrows) = ncols * nrows"
    by (rule to_i32_id) (use nn size(5,6) in linarith)+
  then have i: "to_i32 ncols = ncols" "to_i32 nrows = nrows" "to_i32 (ncols * nrows) = ncols * nrows"
    using size(1-4) by (simp_all add: to_i32_id)
  have "simdrv.attached env now fd s" using lib by (simp add: simdrv.attached_def)
  from simdrv.set_size_writes [OF this u at cells(1,2) TrueI TrueI, unfolded i] obtain d where d: "sim_ok d"
    "simdrv.holds (sd_dev s) d [((rb, rm OR ra), nrows), ((cb, cm OR ca), ncols)]"
    "set_size fd ncols nrows s = Some (DONE, s\<lparr>sd_ncols := ncols, sd_nrows := nrows,
       sd_dev := d\<lparr>v_totpix := ncols * nrows\<rparr>\<rparr>)"
    using lib(1) by (auto simp: drv_def sim_set_size_def i)
  have peek: "sim_peek (d\<lparr>v_totpix := ncols * nrows\<rparr>) b ta = sim_peek d b ta" for b ta
    by (simp add: sim_peek_def)
  have "sim_ok (d\<lparr>v_totpix := ncols * nrows\<rparr>)" using d(1) by (simp add: sim_ok_def cells_ok_def)
  moreover have "sim_peek d cb (cm OR ca) = ncols"
    by (rule simdrv.holds_hit [OF d(2) cells(1)]) (use cells(3) in auto)
  moreover have "sim_peek d rb (rm OR ra) = nrows"
    by (rule simdrv.holds_hit [OF d(2) cells(2)]) simp
  moreover have "\<forall>(b, ta) \<in> sim_cells - {(cb, cm OR ca), (rb, rm OR ra)}. sim_peek d b ta = sim_peek (sd_dev s) b ta"
    by (rule simdrv.holds_rest [OF d(2)]) simp
  ultimately show ?thesis using d(3) by (simp add: peek)
qed

theorem set_size_programs_witness:
  "\<exists>s'. set_size 3 2048 1024 demo_sdsu = Some (DONE, s')
    \<and> sim_peek (sd_dev s') TIM_ID (Y_MEM OR 1) = 2048 \<and> sim_peek (sd_dev s') TIM_ID (Y_MEM OR 2) = 1024
    \<and> v_totpix (sd_dev s') = 2048 * 1024"
proof -
  have "sd_bufsize demo_sdsu = 512 * 1024 * 1024" "sd_cmds demo_sdsu = []"
    by (simp_all add: demo_sdsu_def sdsu_start_def)
  then show ?thesis
    using set_size_programs [OF demo_attached, of 2048 1024 1 TIM_ID Y_MEM 2 TIM_ID Y_MEM 3] y_cells [of 1] y_cells [of 2]
    by (simp add: tab_addr_def SDSU_get_tab_address_def) blast
qed

section \<open>Mode bits\<close>

lemma bit_to_i32: "k < 32 \<Longrightarrow> bit (to_i32 x) k = bit x k"
proof -
  assume k: "k < 32"
  have "take_bit 32 (to_i32 x) = take_bit 32 x"
    unfolding to_i32_def take_bit_eq_mod by (simp only: mod_diff_left_eq) simp
  from arg_cong [OF this, of "\<lambda>y. bit y k"] k show ?thesis by (simp add: bit_take_bit_iff)
qed

lemma bit_to_u32: "k < 32 \<Longrightarrow> bit (to_u32 x) k = bit x k"
  unfolding to_u32_def take_bit_eq_mod [symmetric] by (simp add: bit_take_bit_iff)

lemma bit_set_clear:
  assumes "k < 32"
  shows "bit (to_i32 (to_u32 v OR 2 ^ n)) k = (k = n \<or> bit v k)"
    and "bit (to_i32 (to_u32 v AND to_u32 (NOT (2 ^ n)))) k = (k \<noteq> n \<and> bit v k)"
  using assms by (auto simp: bit_to_i32 bit_or_iff bit_and_iff bit_to_u32 bit_exp_iff bit_not_iff possible_bit_def)

text \<open>With the timing board as master, \<open>autoshutter\<close>, \<open>autoclear\<close> and \<open>artif_data\<close> set or clear bit
  11, 8 (with the opposite sense) and 10 of \<open>X:0\<close>, keep its other bits and change no other cell.\<close>

theorem mode_switches_set_one_bit:
  assumes lib: "sd_dhe s = sim_lib env now" "sim_ok (sd_dev s)" and m: "sd_master s = TIM_ID"
    and op: "(op, n, on) \<in> {(autoshutter fd flag s, 11, flag \<noteq> 0), (autoclear fd flag s, 8, flag = 0),
      (artif_data fd flag s, 10, flag \<noteq> 0)}"
  shows "\<exists>s'. op = Some (DONE, s')
    \<and> (\<forall>k < 32. bit (sim_peek (sd_dev s') TIM_ID X_MEM) k = (if k = n then on else bit (sim_peek (sd_dev s) TIM_ID X_MEM) k))
    \<and> (\<forall>(b, ta) \<in> sim_cells - {(TIM_ID, X_MEM)}. sim_peek (sd_dev s') b ta = sim_peek (sd_dev s) b ta)"
proof -
  have att: "simdrv.attached env now fd s" using lib by (simp add: simdrv.attached_def)
  note sw = simdrv.mode_switches [OF att x_cells(1) m TrueI, of flag]
  note bits = bit_set_clear [where n = 11] bit_set_clear [where n = 8] bit_set_clear [where n = 10]
  note b = bits [simplified]
  have fin: ?thesis
    if "\<exists>s'. op = Some (DONE, s') \<and> simdrv.attached env now fd s' \<and> simdrv.holds (sd_dev s) (sd_dev s') [((TIM_ID, X_MEM), w)]"
      and "\<And>k. k < 32 \<Longrightarrow> bit w k = (if k = n then on else bit (sim_peek (sd_dev s) TIM_ID X_MEM) k)" for w
  proof -
    from that(1) obtain s' where s': "op = Some (DONE, s')" "simdrv.holds (sd_dev s) (sd_dev s') [((TIM_ID, X_MEM), w)]"
      by blast
    have "sim_peek (sd_dev s') TIM_ID X_MEM = w" by (rule simdrv.holds_hit [OF s'(2) x_cells(1)]) simp
    moreover have "\<forall>(b, ta) \<in> sim_cells - {(TIM_ID, X_MEM)}. sim_peek (sd_dev s') b ta = sim_peek (sd_dev s) b ta"
      by (rule simdrv.holds_rest [OF s'(2)]) simp
    ultimately show ?thesis using s'(1) that(2) by auto
  qed
  from op consider (shutter) "op = autoshutter fd flag s" "n = 11" "on = (flag \<noteq> 0)"
    | (clear) "op = autoclear fd flag s" "n = 8" "on = (flag = 0)"
    | (artif) "op = artif_data fd flag s" "n = 10" "on = (flag \<noteq> 0)" by auto
  then show ?thesis
  proof cases
    case shutter
    show ?thesis
      by (rule fin [OF sw(1) [folded shutter(1)]]) (simp_all add: shutter b)
  next
    case clear
    show ?thesis
      by (rule fin [OF sw(2) [folded clear(1)]]) (simp_all add: clear b)
  next
    case artif
    show ?thesis
      by (rule fin [OF sw(3) [folded artif(1)]]) (simp_all add: artif b)
  qed
qed

theorem mode_switches_set_one_bit_witness:
  "\<exists>s'. autoshutter 3 1 demo_sdsu = Some (DONE, s') \<and> bit (sim_peek (sd_dev s') TIM_ID X_MEM) 11"
proof -
  have m: "sd_master demo_sdsu = TIM_ID" by (simp add: demo_sdsu_def sdsu_start_def)
  have "\<exists>s'. autoshutter 3 1 demo_sdsu = Some (DONE, s')
    \<and> (\<forall>k < 32. bit (sim_peek (sd_dev s') TIM_ID X_MEM) k
         = (if k = 11 then (1 :: int) \<noteq> 0 else bit (sim_peek (sd_dev demo_sdsu) TIM_ID X_MEM) k))
    \<and> (\<forall>(b, ta) \<in> sim_cells - {(TIM_ID, X_MEM)}. sim_peek (sd_dev s') b ta = sim_peek (sd_dev demo_sdsu) b ta)"
    by (rule mode_switches_set_one_bit [OF demo_attached m, where fd = 3 and flag = 1]) simp
  then show ?thesis by auto
qed

text \<open>With the utility board as master, \<open>autoshutter\<close> reads the mode word at \<open>X:1\<close> and writes it to
  \<open>X:0\<close>: the mode word keeps its value and an unrelated word is overwritten.\<close>

theorem utility_switch_writes_other_cell:
  assumes lib: "sd_dhe s = sim_lib env now" "sim_ok (sd_dev s)" and m: "sd_master s = UTIL_ID"
    and old: "0 \<le> sim_peek (sd_dev s) UTIL_ID (X_MEM OR 1)" "sim_peek (sd_dev s) UTIL_ID (X_MEM OR 1) < 2 ^ 31"
  shows "\<exists>s'. autoshutter fd 1 s = Some (DONE, s')
    \<and> sim_peek (sd_dev s') UTIL_ID (X_MEM OR 1) = sim_peek (sd_dev s) UTIL_ID (X_MEM OR 1)
    \<and> sim_peek (sd_dev s') UTIL_ID X_MEM = to_i32 (sim_peek (sd_dev s) UTIL_ID (X_MEM OR 1) OR 1)"
proof -
  have att: "simdrv.attached env now fd s" using lib by (simp add: simdrv.attached_def)
  have u: "to_u32 (sim_peek (sd_dev s) UTIL_ID (X_MEM OR 1)) = sim_peek (sd_dev s) UTIL_ID (X_MEM OR 1)"
    using old by (simp add: to_u32_id)
  from simdrv.utility_switch [OF att x_cells(3,2) m _ TrueI, of 1, unfolded u] obtain s' where
    s': "autoshutter fd 1 s = Some (DONE, s')"
      "simdrv.holds (sd_dev s) (sd_dev s') [((UTIL_ID, X_MEM), to_i32 (sim_peek (sd_dev s) UTIL_ID (X_MEM OR 1) OR 1))]"
    by auto
  have "sim_peek (sd_dev s') UTIL_ID X_MEM = to_i32 (sim_peek (sd_dev s) UTIL_ID (X_MEM OR 1) OR 1)"
    by (rule simdrv.holds_hit [OF s'(2) x_cells(2)]) simp
  moreover have "sim_peek (sd_dev s') UTIL_ID (X_MEM OR 1) = sim_peek (sd_dev s) UTIL_ID (X_MEM OR 1)"
    by (rule simdrv.holds_miss [OF s'(2) x_cells(3)]) simp
  ultimately show ?thesis using s'(1) by blast
qed

theorem utility_switch_writes_other_cell_witness:
  "\<exists>s'. autoshutter 3 1 (demo_sdsu\<lparr>sd_master := UTIL_ID\<rparr>) = Some (DONE, s')
    \<and> sim_peek (sd_dev s') UTIL_ID (X_MEM OR 1) = 0 \<and> sim_peek (sd_dev s') UTIL_ID X_MEM = 1"
proof -
  have z: "sim_peek (sd_dev demo_sdsu) b ta = 0" for b ta
    by (simp add: demo_sdsu_def sdsu_start_def sim_start_def sim_peek_def cell_value_def split: prod.split)
  show ?thesis
    using utility_switch_writes_other_cell [of "demo_sdsu\<lparr>sd_master := UTIL_ID\<rparr>" demo_simenv 0 3] demo_attached
    by (fastforce simp: z to_i32_def)
qed


text \<open>A failed read is not noticed: the status is unsigned, so its test for an error never holds.
  When the controller answers the read with \<open>-EIO\<close> the switch writes the error number itself, with
  its bit set, to the mode word and reports success if that write is acknowledged.\<close>

theorem autoshutter_ignores_read_error:
  assumes drv: "h_do_command (sd_dhe s) = Some cmd" "sd_master s = TIM_ID"
    and rd: "cmd fd TIM_ID RDM X_MEM NONE NONE NONE 0 DEF_TIMEOUT (sd_dev s) = Some (- EIO, d1)"
    and wr: "cmd fd TIM_ID WRM X_MEM (- EIO) NONE NONE DON DEF_TIMEOUT d1 = Some (DONE, d2)"
  shows "\<exists>s'. autoshutter fd 1 s = Some (DONE, s') \<and> sd_dev s' = d2"
proof -
  have "to_i32 (to_u32 (- EIO) OR 0x800) = - EIO" by (simp add: to_u32_def to_i32_def)
  moreover have "\<not> to_u32 (- EIO) < 0" by (simp add: to_u32_def)
  ultimately show ?thesis
    using drv rd wr
    by (simp add: autoshutter_def Let_def get_masterID_def set_destination_def read_memory_def write_memory_def
        mem_type_def do_command_def drv_def)
qed

text \<open>A controller that fails every read and logs every write.\<close>

definition broken_cmd :: "int \<Rightarrow> int \<Rightarrow> int \<Rightarrow> int \<Rightarrow> int \<Rightarrow> int \<Rightarrow> int \<Rightarrow> int \<Rightarrow> int \<Rightarrow> (int \<times> int) list call" where
  "broken_cmd fd b c a1 a2 a3 a4 e t d = (if c = WRM then Some (DONE, (a1, a2) # d) else Some (- EIO, d))"

theorem autoshutter_ignores_read_error_witness:
  "\<exists>s'. autoshutter 3 1 ((sdsu_start [])\<lparr>sd_dhe := no_dhe\<lparr>h_do_command := Some broken_cmd\<rparr>\<rparr>) = Some (DONE, s')
    \<and> sd_dev s' = [(X_MEM, -5)]"
  using autoshutter_ignores_read_error [of "(sdsu_start [])\<lparr>sd_dhe := no_dhe\<lparr>h_do_command := Some broken_cmd\<rparr>\<rparr>"
      broken_cmd 3 "[]" "[(X_MEM, -5)]"]
  by (simp add: broken_cmd_def sdsu_start_def)

section \<open>Numbers in manual commands\<close>

lemma parse_dec:
  assumes "- (2 ^ 31) \<le> v" "v < 2 ^ 31"
  shows "parse_arg (dec v) = v"
proof -
  have "strtol 10 (dec v) = (v, [])" using assms by (intro strtol_dec) simp_all
  moreover have "\<not> (1 < length (dec v) \<and> dec v ! 0 = CHR ''0'' \<and> dec v ! 1 = CHR ''x'')"
    using dec_not_0x [of v] by auto
  ultimately show ?thesis
    using assms dec_nonempty [of v] by (auto simp: parse_arg_def to_i32_id)
qed

lemma dec_nat_long: "10 ^ k \<le> n \<Longrightarrow> k < length (dec_nat n)"
proof (induction k arbitrary: n)
  case 0
  show ?case using dec_nat_starts [of n] by auto
next
  case (Suc k)
  have "10 * 1 \<le> 10 * (10 :: nat) ^ k" by (intro mult_le_mono2) simp
  with Suc.prems have "10 \<le> n" unfolding power_Suc by linarith
  with Suc.prems have "\<not> n < 10" "10 ^ k \<le> n div 10" by (simp_all add: less_eq_div_iff_mult_less_eq mult.commute)
  with Suc.IH [of "n div 10"] show ?case by (simp add: dec_nat.simps [of n])
qed

lemma fits_4: "sprintf_d 4 v = (if -99 \<le> v \<and> v \<le> 999 then Some (dec v) else None)"
proof -
  have small: "sprintf_d 4 v = Some (dec v)" if "0 \<le> v" "v \<le> 999"
    using sprintf_d_fits [of v 2] that by simp
  have neg: "sprintf_d 4 v = Some (dec v)" if "-99 \<le> v" "v < 0"
  proof -
    have "nat (- v) < 10 ^ Suc 1" using that by simp
    from dec_nat_length [OF this] that show ?thesis by (simp add: sprintf_d_def dec_def)
  qed
  have "sprintf_d 4 v = None" if "999 < v"
    using dec_nat_long [of 3 "nat v"] that le_nat_iff [of v 1000] by (simp add: sprintf_d_def dec_def)
  moreover have "sprintf_d 4 v = None" if "v < -99"
    using dec_nat_long [of 2 "nat (- v)"] that le_nat_iff [of "- v" 100] by (simp add: sprintf_d_def dec_def)
  ultimately show ?thesis using small neg by (cases "v < 0") auto
qed

text \<open>The commands that carry a count send exactly that number to the timing board under the
  command of the table (or its default), and are undefined, for want of room in their four-byte
  buffer, from 1000 on.\<close>

theorem counts_are_sent:
  assumes cmd: "tab_cmd 4 name deflt s = Some c" "cmd_code c = Some code"
    and op: "(op, name, deflt) \<in> {(set_num_coadds fd v s, ''coadds'', ''SNF''), (set_num_reads fd v s, ''nsamples'', ''SNR'')}
      \<or> 0 < v \<and> (op, name, deflt) = (set_num_sur fd v s, ''sur'', ''SUR'')"
  shows "op = (if -99 \<le> v \<and> v \<le> 999 then do_command fd TIM_ID code v NONE NONE NONE 0 DEF_TIMEOUT s else None)"
proof -
  have "parse_arg [] = NONE" by (simp add: parse_arg_def)
  then have send: "do { arg \<leftarrow> sprintf_d 4 v; manual_command fd arg [] [] [] [] c TIM_ID s }
    = (if -99 \<le> v \<and> v \<le> 999 then do_command fd TIM_ID code v NONE NONE NONE 0 DEF_TIMEOUT s else None)"
    using cmd(2) by (simp add: fits_4 manual_command_def parse_dec)
  from op consider "op = set_num_coadds fd v s" "name = ''coadds''" "deflt = ''SNF''"
    | "op = set_num_reads fd v s" "name = ''nsamples''" "deflt = ''SNR''"
    | "0 < v" "op = set_num_sur fd v s" "name = ''sur''" "deflt = ''SUR''" by auto
  then show ?thesis
    by cases (use cmd(1) send in \<open>simp_all add: set_num_coadds_def set_num_reads_def set_num_sur_def\<close>)
qed

theorem counts_are_sent_witness:
  "set_num_coadds 3 12 demo_sdsu = do_command 3 TIM_ID 0x534E46 12 NONE NONE NONE 0 DEF_TIMEOUT demo_sdsu
   \<and> set_num_coadds 3 1000 demo_sdsu = None"
proof -
  have "tab_cmd 4 ''coadds'' ''SNF'' demo_sdsu = Some ''SNF''"
    by (simp add: tab_cmd_def SDSU_get_tab_dspcmd_def demo_sdsu_def sdsu_start_def strcpy_def)
  moreover have "cmd_code ''SNF'' = Some 0x534E46" by code_simp
  ultimately show ?thesis
    using counts_are_sent [of "''coadds''" "''SNF''" demo_sdsu "''SNF''" "0x534E46" "set_num_coadds 3 12 demo_sdsu" 3 12]
      counts_are_sent [of "''coadds''" "''SNF''" demo_sdsu "''SNF''" "0x534E46" "set_num_coadds 3 1000 demo_sdsu" 3 1000]
    by simp
qed

section \<open>The command table\<close>

lemma find_cmd_append:
  "find_cmd ty n (cs @ ds) = (case find_cmd ty n cs of None \<Rightarrow> find_cmd ty n ds | Some c \<Rightarrow> Some c)"
  by (induction cs) auto

text \<open>An entry put into the table is found again: under its name and type, with its board, memory
  space, address and bit, unless an earlier entry has the same name and type; all other look-ups stay
  as they were.\<close>

theorem table_entry_found:
  assumes room: "length (sd_cmds s) < MAX_CMDS" "length name < 20" "length board < 10"
    and new: "find_cmd ADDRESS name (sd_cmds s) = None"
  shows "\<exists>s'. SDSU_add_tab_entry (Some name) (Some ''_add_'') (Some board) mt address bitno s = Some (DONE, s')
    \<and> SDSU_get_tab_address name s' = (address, Some (SDSU_get_board_from_tab board, mem_code mt))
    \<and> (\<forall>n. n \<noteq> name \<longrightarrow> SDSU_get_tab_address n s' = SDSU_get_tab_address n s)
    \<and> (\<forall>n. SDSU_get_tab_dspcmd n s' = SDSU_get_tab_dspcmd n s \<and> SDSU_get_tab_bit n s' = SDSU_get_tab_bit n s)"
  using assms
  by (auto simp: SDSU_add_tab_entry_def strcpy_def SDSU_get_tab_address_def SDSU_get_tab_dspcmd_def
      SDSU_get_tab_bit_def find_cmd_append split: option.split)

theorem table_entry_found_witness:
  "\<exists>s'. SDSU_add_tab_entry (Some ''cols'') (Some ''_add_'') (Some ''tim'') (Some ''Y'') 17 0 demo_sdsu = Some (DONE, s')
    \<and> SDSU_get_tab_address ''cols'' s' = (17, Some (TIM_ID, Y_MEM))"
  using table_entry_found [of demo_sdsu "''cols''" "''tim''" "Some ''Y''" 17 0]
  by (auto simp: demo_sdsu_def sdsu_start_def SDSU_get_board_from_tab_def mem_code_def)

section \<open>Binning and geometry\<close>

lemma set_binning_default:
  assumes lib: "sd_dhe s = sim_lib env now" "sim_ok (sd_dev s)"
    and fits: "0 \<le> xbin" "xbin < 100" "0 \<le> ybin" "ybin < 100"
    and at: "SDSU_get_tab_address ''xbin'' s = (NOT_IN_TABLE, None)"
  shows "\<exists>r s'. set_binning fd xbin ybin s = Some (r, s')
    \<and> sim_peek (sd_dev s') TIM_ID (Y_MEM OR 5) = xbin \<and> sim_peek (sd_dev s') TIM_ID (Y_MEM OR 6) = ybin"
proof -
  have att: "simdrv.attached env now fd s" using lib by (simp add: simdrv.attached_def)
  have f: "sprintf_d 3 xbin \<noteq> None" "sprintf_d 3 ybin \<noteq> None"
    using sprintf_d_fits [of xbin 1] sprintf_d_fits [of ybin 1] fits by (simp_all add: numeral_3_eq_3)
  have t: "tab_addr ''xbin'' d s = d" for d using at by (simp add: tab_addr_def)
  have c: "(TIM_ID, Y_MEM OR 5) \<in> sim_cells" "(TIM_ID, Y_MEM OR 6) \<in> sim_cells"
    using y_cells [of 5] y_cells [of 6] by simp_all
  from simdrv.set_binning_writes [OF att f t t c TrueI TrueI] obtain r s' where
    s': "set_binning fd xbin ybin s = Some (r, s')"
      "simdrv.holds (sd_dev s) (sd_dev s') [((TIM_ID, Y_MEM OR 6), ybin), ((TIM_ID, Y_MEM OR 5), xbin)]" by blast
  have "sim_peek (sd_dev s') TIM_ID (Y_MEM OR 6) = ybin" by (rule simdrv.holds_hit [OF s'(2) c(2)]) simp_all
  moreover have "sim_peek (sd_dev s') TIM_ID (Y_MEM OR 5) = xbin" by (rule simdrv.holds_hit [OF s'(2) c(1)]) simp_all
  ultimately show ?thesis using s'(1) by blast
qed

text \<open>As soon as the table names a cell for the x binning factor, \<open>set_binning\<close> writes both
  factors to that cell: the x factor is lost and no other cell changes, whatever the table says about
  the y factor.\<close>

theorem set_binning_loses_xbin:
  assumes lib: "sd_dhe s = sim_lib env now" "sim_ok (sd_dev s)"
    and fits: "0 \<le> xbin" "xbin < 100" "0 \<le> ybin" "ybin < 100"
    and at: "SDSU_get_tab_address ''xbin'' s = (a, Some (b, m))" "a \<noteq> NOT_IN_TABLE" "(b, m OR a) \<in> sim_cells"
  shows "\<exists>r s'. set_binning fd xbin ybin s = Some (r, s') \<and> sim_peek (sd_dev s') b (m OR a) = ybin
    \<and> (\<forall>(b', ta) \<in> sim_cells - {(b, m OR a)}. sim_peek (sd_dev s') b' ta = sim_peek (sd_dev s) b' ta)"
proof -
  have att: "simdrv.attached env now fd s" using lib by (simp add: simdrv.attached_def)
  have f: "sprintf_d 3 xbin \<noteq> None" "sprintf_d 3 ybin \<noteq> None"
    using sprintf_d_fits [of xbin 1] sprintf_d_fits [of ybin 1] fits by (simp_all add: numeral_3_eq_3)
  have t: "tab_addr ''xbin'' d s = (a, b, m)" for d using at(1,2) by (simp add: tab_addr_def)
  from simdrv.set_binning_writes [OF att f t t at(3) at(3) TrueI TrueI] obtain r s' where
    s': "set_binning fd xbin ybin s = Some (r, s')"
      "simdrv.holds (sd_dev s) (sd_dev s') [((b, m OR a), ybin), ((b, m OR a), xbin)]" by blast
  have "sim_peek (sd_dev s') b (m OR a) = ybin" by (rule simdrv.holds_hit [OF s'(2) at(3)]) simp
  moreover have "\<forall>(b', ta) \<in> sim_cells - {(b, m OR a)}. sim_peek (sd_dev s') b' ta = sim_peek (sd_dev s) b' ta"
    by (rule simdrv.holds_rest [OF s'(2)]) simp
  ultimately show ?thesis using s'(1) by blast
qed

theorem set_binning_loses_xbin_witness:
  "\<exists>r s'. set_binning 3 2 4 (demo_sdsu\<lparr>sd_cmds := [\<lparr>c_command = ''xbin'', c_dsp = ''tim'', c_type = ADDRESS,
      c_memtype = Y_MEM, c_address = 5, c_bit = 0\<rparr>]\<rparr>) = Some (r, s')
    \<and> sim_peek (sd_dev s') TIM_ID (Y_MEM OR 5) = 4"
proof -
  let ?s = "demo_sdsu\<lparr>sd_cmds := [\<lparr>c_command = ''xbin'', c_dsp = ''tim'', c_type = ADDRESS,
      c_memtype = Y_MEM, c_address = 5, c_bit = 0\<rparr>]\<rparr>"
  have a: "SDSU_get_tab_address ''xbin'' ?s = (5, Some (TIM_ID, Y_MEM))"
    by (simp add: SDSU_get_tab_address_def SDSU_get_board_from_tab_def)
  have d: "sd_dhe ?s = sim_lib demo_simenv 0" "sim_ok (sd_dev ?s)" using demo_attached by simp_all
  have "\<exists>r s'. set_binning 3 2 4 ?s = Some (r, s') \<and> sim_peek (sd_dev s') TIM_ID (Y_MEM OR 5) = 4
    \<and> (\<forall>(b', ta) \<in> sim_cells - {(TIM_ID, Y_MEM OR 5)}. sim_peek (sd_dev s') b' ta = sim_peek (sd_dev ?s) b' ta)"
    by (rule set_binning_loses_xbin [OF d _ _ _ _ a]) (use y_cells [of 5] in simp_all)
  then show ?thesis by blast
qed

text \<open>\<open>set_geom\<close> prints its sizes into four-byte buffers: from 1000 columns or rows on it is
  undefined; below, it records the sizes, clamping every negative one but \<open>ydata\<close>.\<close>

theorem set_geom_sizes:
  assumes cmds: "sd_cmds s = []"
  shows "set_geom fd xp xd xo yp yd yo s =
    (if xp \<le> 999 \<and> xd \<le> 999 \<and> xo \<le> 999 \<and> yp \<le> 999 \<and> yo \<le> 999 \<and> -99 \<le> yd \<and> yd \<le> 999
     then Some (DONE, s\<lparr>sd_overscan := max 0 xo, sd_prescan := max 0 xp, sd_xdata := max 0 xd, sd_ydata := yd\<rparr>)
     else None)"
proof -
  have none: "tab_addr n (NOT_IN_TABLE, 0, 0) (t\<lparr>sd_overscan := a, sd_prescan := b, sd_xdata := c, sd_ydata := d\<rparr>)
      = (NOT_IN_TABLE, 0, 0)" if "sd_cmds t = []" for n a b c d t
    using that by (simp add: tab_addr_def SDSU_get_tab_address_def)
  show ?thesis
    by (simp add: set_geom_def Let_def fits_4 none [OF cmds] max_def)
qed

theorem set_geom_sizes_witness:
  "set_geom 3 0 2048 0 0 512 0 demo_sdsu = None
   \<and> (\<exists>s'. set_geom 3 0 512 0 0 (-7) 0 demo_sdsu = Some (DONE, s') \<and> sd_ydata s' = -7)"
  using set_geom_sizes [of demo_sdsu 3 0 2048 0 0 512 0] set_geom_sizes [of demo_sdsu 3 0 512 0 0 "-7" 0]
  by (simp add: demo_sdsu_def sdsu_start_def)

section \<open>The mapped buffer\<close>

lemma f32_nat_multiple:
  assumes "n < 2 ^ 31" "2 ^ 7 dvd n"
  shows "f32_nat n = n"
proof -
  define e where "e = nbits n - 24"
  have "nbits n \<le> 31" by (rule nbits_le [OF assms(1)])
  then have "(2 :: nat) ^ e dvd 2 ^ 7" unfolding e_def by (intro le_imp_power_dvd) simp
  then have "2 ^ e dvd n" using assms(2) dvd_trans by blast
  then obtain q where "n = 2 ^ e * q" by (elim dvdE)
  then have "rne n (2 ^ e) * 2 ^ e = n" by (simp add: rne_def)
  then show ?thesis unfolding f32_nat_def Let_def e_def [symmetric] .
qed

text \<open>The size of the mapped buffer is read back in megabytes as it was set, below 2048; 2048
  overflows to a negative size.\<close>

theorem mapsize_roundtrip:
  assumes "0 < sz" "sz < 2048"
  shows "fst (set_mapsize sz s) = DONE \<and> get_mapsize (snd (set_mapsize sz s)) = sz
    \<and> sd_bufsize (snd (set_mapsize 2048 s)) < 0"
proof -
  have "to_i32 (sz * 1024 * 1024) = sz * 1048576"
    using assms by (subst to_i32_id) simp_all
  moreover have "f32_nat (nat (sz * 1048576)) = nat (sz * 1048576)"
  proof (rule f32_nat_multiple)
    have "nat (sz * 1048576) = 2 ^ 7 * (nat sz * 8192)" using assms by (simp add: nat_mult_distrib)
    then show "2 ^ 7 dvd nat (sz * 1048576)" by (metis dvd_triv_left)
  qed (use assms in simp)
  ultimately have "get_mapsize (snd (set_mapsize sz s)) = sz"
    using assms by (simp add: get_mapsize_def set_mapsize_def f32_int_def cdiv_nonneg sgn_mult)
  then show ?thesis using assms by (simp add: set_mapsize_def to_i32_def)
qed

theorem mapsize_roundtrip_witness:
  "get_mapsize (snd (set_mapsize 120 demo_sdsu)) = 120"
  using mapsize_roundtrip [of 120 demo_sdsu] by simp

section \<open>The driver library\<close>

lemma load_lib_result:
  "fst (load_lib l h) = (if list_all snd l then DONE else - ELIBACC)"
  "list_all snd l \<Longrightarrow> snd (load_lib l h) = fold fst l h"
  by (induction l h rule: load_lib.induct) auto

lemma no_hctr [simp]: "h_set_hctr no_dhe = None"
  by (simp add: no_dhe_def)

lemma load_lib_keeps:
  assumes "\<And>f b h. (f, b) \<in> set l \<Longrightarrow> h_set_hctr (f h) = h_set_hctr h"
  shows "h_set_hctr (snd (load_lib l h)) = h_set_hctr h"
  using assms
proof (induction l h rule: load_lib.induct)
  case (2 f found rest h)
  have "h_set_hctr (f h) = h_set_hctr h" for h by (rule 2(2) [of f found]) simp
  moreover have "h_set_hctr (snd (load_lib rest (f h))) = h_set_hctr (f h)" if found
    by (rule 2(1) [OF that]) (blast intro: 2(2) list.set_intros(2))
  ultimately show ?case by simp
qed simp

text \<open>\<open>SDSU_InitLib\<close> succeeds exactly when the library opens and has all nineteen symbols, and
  then every pointer but one is the library's; the pointer of \<open>set_hctr\<close> is never loaded, so that call
  goes through a null pointer whatever the library.\<close>

theorem InitLib_result:
  "let r = SDSU_InitLib opens lib (sdsu_start d) in
   fst r = (if opens \<and> list_all snd (lib_steps lib) then DONE else - ELIBACC)
   \<and> (fst r = DONE \<longrightarrow> sd_dhe (snd r) = lib\<lparr>h_set_hctr := None\<rparr>)
   \<and> set_hctr fd v (snd r) = None"
proof -
  have keep: "h_set_hctr (snd (load_lib (lib_steps lib) h)) = h_set_hctr h" for h
    by (rule load_lib_keeps) (auto simp: lib_steps_def)
  have "fold fst (lib_steps lib) no_dhe = lib\<lparr>h_set_hctr := None\<rparr>"
    by (cases lib) (simp add: lib_steps_def no_dhe_def)
  then have "list_all snd (lib_steps lib) \<Longrightarrow> snd (load_lib (lib_steps lib) no_dhe) = lib\<lparr>h_set_hctr := None\<rparr>"
    by (simp add: load_lib_result)
  then show ?thesis
    using keep [of no_dhe] load_lib_result(1) [of "lib_steps lib" no_dhe]
    by (auto simp: Let_def SDSU_InitLib_def sdsu_start_def set_hctr_def drv_def split: prod.splits)
qed

theorem InitLib_result_witness:
  "fst (SDSU_InitLib True (sim_lib demo_simenv 0) (sdsu_start sim_start)) = DONE
   \<and> h_do_command (sd_dhe (snd (SDSU_InitLib True (sim_lib demo_simenv 0) (sdsu_start sim_start)))) = Some (sim_cmd demo_simenv 0)"
proof -
  have "list_all snd (lib_steps (sim_lib demo_simenv 0))" by (simp add: lib_steps_def sim_lib_def)
  then show ?thesis
    using InitLib_result [where opens = True and lib = "sim_lib demo_simenv 0" and d = sim_start and fd = 0 and v = 0]
    by (simp add: Let_def)
qed

end
