(* ===== verification/GetLib.thy ===== *)
theory GetLib imports CText "HOL-Library.Monad_Syntax"
begin

text \<open>
  \<open>DRV_COMS/private/c/src/c_univ/getLib.c\<close>: the tokenizer of the command lines.  A routine that
  fills an array of the caller gets the array's size; what does not fit is undefined (\<open>None\<close>).  The
  routines on \<open>double\<close> (\<open>getDouble\<close>, \<open>simple_strtod\<close>, \<open>ftoa\<close>) are left out.
\<close>

section \<open>Tokens\<close>

definition NUL :: char where
  "NUL = CHR 0x00"

definition is_blank :: "char \<Rightarrow> bool" where
  "is_blank c \<longleftrightarrow> c = CHR '' '' \<or> c = CHR 0x09"

text \<open>\<open>c < ' '\<close> on a signed \<open>char\<close>, \<open>','\<close> and \<open>';'\<close>.\<close>

definition is_break :: "char \<Rightarrow> bool" where
  "is_break c = (let n = (of_char c :: nat) in n < 32 \<or> 128 \<le> n \<or> c = CHR '','' \<or> c = CHR '';'')"

text \<open>The loop of \<open>gtkbrk\<close>: \<open>i\<close> characters are in the token.  The result is the rest of the token,
  the break character and the updated input pointer.\<close>

fun gtk_loop :: "nat \<Rightarrow> string \<Rightarrow> string \<times> char \<times> string" where
  "gtk_loop i [] = ([], NUL, [])"
| "gtk_loop i (c # cs) =
     (if is_blank c then (if i = 0 then gtk_loop i cs else ([], c, cs))
      else if is_break c then ([], c, cs)
      else (case gtk_loop (i + 1) cs of (t, b, r) \<Rightarrow> (c # t, b, r)))"

definition gtkbrk :: "nat \<Rightarrow> string \<Rightarrow> (string \<times> string \<times> char) option" where
  "gtkbrk cap s = (case gtk_loop 0 s of (t, b, r) \<Rightarrow> if length t < cap then Some (r, t, b) else None)"

definition getToken :: "nat \<Rightarrow> string \<Rightarrow> (string \<times> string) option" where
  "getToken cap line = do { (r, t, _) \<leftarrow> gtkbrk cap line; Some (r, t) }"

definition checkIfEos :: "string \<Rightarrow> bool option" where
  "checkIfEos line = do { (_, t) \<leftarrow> getToken 80 line; Some (t = []) }"

text \<open>\<open>strtol\<close> with base \<open>0\<close> reads the base from the prefix.  Out of range it sets \<open>errno\<close>.\<close>

abbreviation (input) ERANGE :: int where "ERANGE \<equiv> 34"

definition base_of :: "string \<Rightarrow> nat" where
  "base_of s =
     (let t = snd (read_sign (dropWhile is_space s)) in
      if skip_0x 16 t \<noteq> t then 16 else if t \<noteq> [] \<and> hd t = CHR ''0'' then 8 else 10)"

definition out_of_range :: "nat \<Rightarrow> string \<Rightarrow> bool" where
  "out_of_range b s =
     (let (neg, t) = read_sign (dropWhile is_space s); n = int (fst (digits b 0 (skip_0x b t)));
          v = (if neg then - n else n) in clamp64 v \<noteq> v)"

definition getInteger :: "string \<Rightarrow> int \<Rightarrow> (string \<times> int \<times> int) option" where
  "getInteger line errno = do {
     (r, t, _) \<leftarrow> gtkbrk 80 line;
     let b = base_of t;
     Some (r, to_i32 (fst (strtol b t)), if out_of_range b t then ERANGE else errno) }"

section \<open>Error texts\<close>

definition errorResponse :: "int \<Rightarrow> string" where
  "errorResponse n =
     (if n = 4 then ''ok'' else if n = 1 then ''command echo not received''
      else if n = 2 then ''error: illegal parameter'' else [])"

section \<open>Facts\<close>

definition plain :: "char \<Rightarrow> bool" where
  "plain c \<longleftrightarrow> \<not> is_blank c \<and> \<not> is_break c"

lemma gtk_loop_rest: "gtk_loop i s = (t, b, r) \<Longrightarrow> length t + length r \<le> length s"
  by (induction i s arbitrary: t b r rule: gtk_loop.induct)
    (auto split: if_splits prod.splits simp: le_SucI)

lemma gtk_loop_word:
  "list_all plain w \<Longrightarrow> 0 < i + length w \<Longrightarrow>
   gtk_loop i (w @ CHR '' '' # r) = (w, CHR '' '', r)"
proof (induction w arbitrary: i)
  case Nil
  then show ?case by (simp add: is_blank_def)
next
  case (Cons c w)
  then show ?case by (simp add: plain_def)
qed

lemma gtk_loop_last: "list_all plain w \<Longrightarrow> gtk_loop i w = (w, NUL, [])"
  by (induction w arbitrary: i) (auto simp: plain_def)

text \<open>A word followed by a blank is the next token.\<close>

lemma getToken_word:
  "list_all plain w \<Longrightarrow> w \<noteq> [] \<Longrightarrow> length w < cap \<Longrightarrow> getToken cap (w @ CHR '' '' # r) = Some (r, w)"
  by (simp add: getToken_def gtkbrk_def gtk_loop_word)

lemma checkIfEos_word:
  "list_all plain w \<Longrightarrow> w \<noteq> [] \<Longrightarrow> length w < 80 \<Longrightarrow> checkIfEos (w @ CHR '' '' # r) = Some False"
  by (simp add: checkIfEos_def getToken_word)

lemma checkIfEos_nil: "checkIfEos [] = Some True"
  by (simp add: checkIfEos_def getToken_def gtkbrk_def)

lemma getToken_rest: "getToken cap s = Some (r, t) \<Longrightarrow> length t + length r \<le> length s"
  using gtk_loop_rest [of 0 s] by (auto simp: getToken_def gtkbrk_def split: prod.splits if_splits bind_splits)

lemma getInteger_rest: "getInteger s e = Some (r, v, e') \<Longrightarrow> length r \<le> length s"
  using gtk_loop_rest [of 0 s]
  by (fastforce simp: getInteger_def gtkbrk_def Let_def split: prod.splits if_splits bind_splits)

text \<open>A token that starts a command shortens the line, so a parser's loop ends.\<close>

lemma token_progress:
  assumes "checkIfEos s = Some False" "getToken cap s = Some (r, t)"
  shows "length r < length s"
proof -
  obtain t' b r' where g: "gtk_loop 0 s = (t', b, r')" by (cases "gtk_loop 0 s")
  with assms have "t' \<noteq> []" "r = r'"
    by (auto simp: checkIfEos_def getToken_def gtkbrk_def split: if_splits)
  with gtk_loop_rest [OF g] show ?thesis by (cases t') auto
qed

text \<open>Numbers in decimal.\<close>

lemma plain_dig: "d < 10 \<Longrightarrow> plain (dig d)"
proof -
  assume d: "d < 10"
  from of_char_dig [OF d] have n: "(of_char (dig d) :: nat) = 48 + d" .
  then have "dig d \<noteq> CHR '' ''" "dig d \<noteq> CHR 0x09" "dig d \<noteq> CHR '',''" "dig d \<noteq> CHR '';''" using d by auto
  with n d show ?thesis by (simp add: plain_def is_blank_def is_break_def)
qed

lemma plain_dec_nat: "list_all plain (dec_nat n)"
proof (induction n rule: dec_nat.induct)
  case (1 n)
  then show ?case by (cases "n < 10") (simp_all add: dec_nat.simps [of n] plain_dig)
qed

lemma plain_dec: "list_all plain (dec v)"
  by (simp add: dec_def plain_dec_nat) (simp add: plain_def is_blank_def is_break_def)

lemma dec_nat_head: "0 < n \<Longrightarrow> \<exists>d cs. 0 < d \<and> d < 10 \<and> dec_nat n = dig d # cs"
proof (induction n rule: dec_nat.induct)
  case (1 n)
  show ?case
  proof (cases "n < 10")
    case False
    then have "0 < n div 10" by (simp add: div_greater_zero_iff)
    then show ?thesis using 1(1) [OF False] False by (auto simp: dec_nat.simps [of n])
  qed (use 1 in \<open>auto simp: dec_nat.simps [of n]\<close>)
qed

lemma base_of_dec: "v \<noteq> 0 \<Longrightarrow> base_of (dec v) = 10"
proof -
  assume v: "v \<noteq> 0"
  have "\<exists>d cs. 0 < d \<and> d < 10 \<and> snd (read_sign (dropWhile is_space (dec v))) = dig d # cs"
  proof (cases "v < 0")
    case True
    then show ?thesis using dec_nat_head [of "nat (- v)"] by (simp add: dec_def read_sign_def is_space_def)
  next
    case False
    then show ?thesis using v dec_nat_head [of "nat v"] strtol_dec_nat(1) [of "nat v"] by (simp add: dec_def)
  qed
  then obtain d cs where d: "0 < d" "d < 10" "snd (read_sign (dropWhile is_space (dec v))) = dig d # cs" by blast
  from of_char_dig [OF d(2)] have "dig d \<noteq> CHR ''0''" using d(1) by auto
  with d show ?thesis by (simp add: base_of_def skip_0x_def)
qed

text \<open>What \<open>%d\<close> prints, \<open>getInteger\<close> reads back: base \<open>0\<close> takes it for decimal.\<close>

lemma getInteger_dec:
  assumes "v \<noteq> 0" "- (2 ^ 31) \<le> v" "v < 2 ^ 31"
  shows "getInteger (dec v @ CHR '' '' # r) e = Some (r, v, e)"
proof -
  have n: "nat \<bar>v\<bar> < 10 ^ Suc 9" using assms by simp
  from dec_nat_length [OF this] have "length (dec v) < 80" using assms by (auto simp: dec_def abs_if)
  moreover have "\<not> out_of_range 10 (dec v)"
  proof (cases "v < 0")
    case True
    then show ?thesis using assms strtol_dec_nat [of "nat (- v)"]
      by (simp add: out_of_range_def dec_def read_sign_def is_space_def skip_0x_def clamp64_def)
  next
    case False
    then show ?thesis using assms strtol_dec_nat [of "nat v"]
      by (simp add: out_of_range_def dec_def skip_0x_def clamp64_def)
  qed
  ultimately show ?thesis
    using assms strtol_dec [of v] dec_nonempty [of v]
    by (simp add: getInteger_def gtkbrk_def gtk_loop_word plain_dec base_of_dec to_i32_id)
qed

end
