(* ===== verification/Univ.thy ===== *)
theory Univ imports GetLib
begin

text \<open>
  \<open>DRV_COMS/private/c/src/c_univ/univLib.c\<close> and the same routines of \<open>univ_server.c\<close>: the settings of a
  connection, the local commands that change them, and the line protocol towards the hardware.  The
  kernel's \<open>read\<close>, \<open>write\<close> and \<open>gettimeofday\<close> answer from lists of results, in the order of the calls.
\<close>

section \<open>Settings\<close>

abbreviation LF :: char where "LF \<equiv> CHR 0x0A"
abbreviation CR :: char where "CR \<equiv> CHR 0x0D"

record univ =
  u_timeout :: int
  u_maxrate :: int
  u_retries :: int
  u_shutdown :: int
  u_cmdterm :: char
  u_respterm :: char
  u_increspterm :: int

definition univ_start :: univ where
  "univ_start = \<lparr>u_timeout = 2, u_maxrate = 100, u_retries = 2, u_shutdown = 0,
     u_cmdterm = LF, u_respterm = LF, u_increspterm = 0\<rparr>"

section \<open>Local commands\<close>

definition strncmp_eq :: "nat \<Rightarrow> string \<Rightarrow> string \<Rightarrow> bool" where
  "strncmp_eq n a b \<longleftrightarrow> take n a = take n b"

definition hexdig :: "nat \<Rightarrow> char" where
  "hexdig n = char_of (if n < 10 then 48 + n else 87 + n)"

text \<open>\<open>%x\<close> of a \<open>char\<close> below 128\<close>

definition hex_char :: "char \<Rightarrow> string" where
  "hex_char c = (let n = (of_char c :: nat) in if n < 16 then [hexdig n] else [hexdig (n div 16), hexdig (n mod 16)])"

text \<open>A parse in progress: the settings, the unread line, \<open>errno\<close>, and what has been printed to
  \<open>outbuffer\<close>; \<open>None\<close> while nothing has.\<close>

record parse =
  p_cfg :: univ
  p_local :: string
  p_errno :: int
  p_out :: "string option"

definition opt_timeout :: "string \<Rightarrow> parse \<Rightarrow> parse option" where
  "opt_timeout tok p =
     (if strncmp_eq 7 tok ''timeout'' then do {
        (l, tmt, e) \<leftarrow> getInteger (p_local p) (p_errno p);
        let t = (if tmt < 0 then -1 else if tmt > 0 then tmt else u_timeout (p_cfg p));
        Some (p\<lparr>p_local := l, p_errno := e, p_cfg := (p_cfg p)\<lparr>u_timeout := t\<rparr>,
           p_out := Some (''timeout now is '' @ dec t @ '' [s]'' @ [LF])\<rparr>) }
      else Some p)"

definition invalid_argument :: string where
  "invalid_argument = ''ERROR invalid argument'' @ [LF]"

definition opt_maxrate :: "string \<Rightarrow> parse \<Rightarrow> parse option" where
  "opt_maxrate tok p =
     (if strncmp_eq 7 tok ''maxrate'' then do {
        (l, mr, e) \<leftarrow> getInteger (p_local p) (p_errno p);
        let q = p\<lparr>p_local := l, p_errno := e\<rparr>;
        Some (if mr > 0
              then q\<lparr>p_cfg := (p_cfg p)\<lparr>u_maxrate := mr\<rparr>,
                     p_out := Some (''maxreqtime now is '' @ dec mr @ '' [ms]'' @ [LF])\<rparr>
              else q\<lparr>p_out := Some invalid_argument\<rparr>) }
      else Some p)"

definition opt_retries :: "string \<Rightarrow> parse \<Rightarrow> parse option" where
  "opt_retries tok p =
     (if strncmp_eq 7 tok ''retries'' then do {
        (l, n, e) \<leftarrow> getInteger (p_local p) (p_errno p);
        let q = p\<lparr>p_local := l, p_errno := e\<rparr>;
        Some (if n > 0
              then q\<lparr>p_cfg := (p_cfg p)\<lparr>u_retries := n\<rparr>,
                     p_out := Some (''retries now is '' @ dec n @ '' times'' @ [LF])\<rparr>
              else q\<lparr>p_out := Some invalid_argument\<rparr>) }
      else Some p)"

text \<open>\<open>char term[5]\<close>, \<open>char incterm[5]\<close>\<close>

definition opt_cmdterm :: "string \<Rightarrow> parse \<Rightarrow> parse option" where
  "opt_cmdterm tok p =
     (if strncmp_eq 7 tok ''cmdterm'' then do {
        (l, trm) \<leftarrow> getToken 5 (p_local p);
        let cr = strncmp_eq 2 trm ''CR'';
        Some (p\<lparr>p_local := l, p_cfg := (p_cfg p)\<lparr>u_cmdterm := (if cr then CR else LF)\<rparr>,
           p_out := Some (''cmdterm now is '' @ (if cr then trm else ''LF'') @ [LF])\<rparr>) }
      else Some p)"

definition opt_respterm :: "string \<Rightarrow> parse \<Rightarrow> parse option" where
  "opt_respterm tok p =
     (if strncmp_eq 8 tok ''respterm'' then do {
        (l, trm) \<leftarrow> getToken 5 (p_local p);
        let cr = strncmp_eq 2 trm ''CR'';
        Some (p\<lparr>p_local := l, p_cfg := (p_cfg p)\<lparr>u_respterm := (if cr then CR else LF)\<rparr>,
           p_out := Some (''respterm now is '' @ (if cr then trm else ''LF'') @ [LF])\<rparr>) }
      else Some p)"

definition opt_increspterm :: "string \<Rightarrow> parse \<Rightarrow> parse option" where
  "opt_increspterm tok p =
     (if strncmp_eq 11 tok ''increspterm'' then do {
        (l, trm) \<leftarrow> getToken 5 (p_local p);
        let yes = strncmp_eq 3 trm ''yes'';
        Some (p\<lparr>p_local := l, p_cfg := (p_cfg p)\<lparr>u_increspterm := (if yes then 1 else 0)\<rparr>,
           p_out := Some ((if yes then ''increspterm now is '' @ trm else ''respterm now is NO'') @ [LF])\<rparr>) }
      else Some p)"

definition show_settings :: "univ \<Rightarrow> string" where
  "show_settings c =
     ''maxrate '' @ dec (u_maxrate c) @ '' [ms], timeout '' @ dec (u_timeout c) @ '' [s], retries '' @ dec (u_retries c)
     @ '', cmdterm 0x'' @ hex_char (u_cmdterm c) @ '', respterm 0x'' @ hex_char (u_respterm c)
     @ '', increspterm '' @ dec (u_increspterm c)"

text \<open>One token; \<open>True\<close> is \<open>break\<close>.  Only the server knows \<open>SHUTDOWN\<close> and \<open>CLOSE\<close>.\<close>

definition parse_token :: "bool \<Rightarrow> string \<Rightarrow> parse \<Rightarrow> (bool \<times> parse) option" where
  "parse_token server tok p0 = do {
     p \<leftarrow> opt_timeout tok p0;
     p \<leftarrow> opt_maxrate tok p;
     p \<leftarrow> opt_retries tok p;
     p \<leftarrow> opt_cmdterm tok p;
     p \<leftarrow> opt_respterm tok p;
     p \<leftarrow> opt_increspterm tok p;
     Some (if server \<and> (strncmp_eq 11 tok ''SHUTDOWN'' \<or> strncmp_eq 5 tok ''CLOSE'')
           then (True, p\<lparr>p_cfg := (p_cfg p)\<lparr>u_shutdown := 1\<rparr>, p_out := Some ''shutting down''\<rparr>)
           else if strncmp_eq 3 tok ''get'' then (True, p\<lparr>p_out := Some (show_settings (p_cfg p))\<rparr>)
           else (False, p)) }"

text \<open>No option handler gives characters back.\<close>

lemma opt_rest:
  "opt_timeout tok p = Some q \<Longrightarrow> length (p_local q) \<le> length (p_local p)"
  "opt_maxrate tok p = Some q \<Longrightarrow> length (p_local q) \<le> length (p_local p)"
  "opt_retries tok p = Some q \<Longrightarrow> length (p_local q) \<le> length (p_local p)"
  "opt_cmdterm tok p = Some q \<Longrightarrow> length (p_local q) \<le> length (p_local p)"
  "opt_respterm tok p = Some q \<Longrightarrow> length (p_local q) \<le> length (p_local p)"
  "opt_increspterm tok p = Some q \<Longrightarrow> length (p_local q) \<le> length (p_local p)"
  by (auto simp: opt_timeout_def opt_maxrate_def opt_retries_def opt_cmdterm_def opt_respterm_def
      opt_increspterm_def Let_def split: if_splits bind_splits prod.splits
      dest: getInteger_rest getToken_rest)

lemma parse_token_rest: "parse_token sv tok p = Some (b, q) \<Longrightarrow> length (p_local q) \<le> length (p_local p)"
  by (auto simp: parse_token_def split: bind_splits if_splits dest!: opt_rest)

function UNIV_ParseLocalCmd :: "bool \<Rightarrow> parse \<Rightarrow> parse option" where
  "UNIV_ParseLocalCmd server p =
     (case checkIfEos (p_local p) of
        None \<Rightarrow> None
      | Some True \<Rightarrow> Some p
      | Some False \<Rightarrow>
          (case getToken 256 (p_local p) of
             None \<Rightarrow> None
           | Some (l, tok) \<Rightarrow>
               (case parse_token server tok (p\<lparr>p_local := l\<rparr>) of
                  None \<Rightarrow> None
                | Some (True, q) \<Rightarrow> Some q
                | Some (False, q) \<Rightarrow> UNIV_ParseLocalCmd server q)))"
  by pat_completeness auto
termination
  by (relation "measure (\<lambda>(_, p). length (p_local p))")
    (auto dest!: parse_token_rest dest: token_progress)

declare UNIV_ParseLocalCmd.simps [simp del]

text \<open>\<open>sscanf (inbuffer, "%s", cmd)\<close> into \<open>char cmd[20]\<close>: with no word, \<open>cmd\<close> stays unset.\<close>

definition first_word :: "string \<Rightarrow> string" where
  "first_word s = takeWhile (\<lambda>c. \<not> is_space c) (dropWhile is_space s)"

definition UNIV_IsLocalCmd :: "bool \<Rightarrow> string \<Rightarrow> univ \<Rightarrow> int \<Rightarrow> (bool \<times> parse) option" where
  "UNIV_IsLocalCmd server s c errno =
     (let cmd = first_word s; p = \<lparr>p_cfg = c, p_local = s, p_errno = errno, p_out = None\<rparr> in
      if cmd = [] \<or> 20 \<le> length cmd then None
      else if cmd \<noteq> ''UNIV'' then Some (False, p)
      else map_option (Pair True) (UNIV_ParseLocalCmd server p))"

section \<open>The command line of the server\<close>

record ini =
  i_valid :: bool
  i_type :: "string option"
  i_server :: int
  i_local :: string
  i_errno :: int

text \<open>One token; \<open>Inl\<close> is a \<open>return\<close>.  \<open>char tp[20]\<close>.\<close>

definition ini_type :: "string \<Rightarrow> ini \<Rightarrow> (int + ini) option" where
  "ini_type tok n =
     (if strncmp_eq 4 tok ''type'' then do {
        (l, tp) \<leftarrow> getToken 20 (i_local n);
        Some (if i_errno n = EINVAL then Inl (- i_errno n)
              else Inr (n\<lparr>i_local := l, i_type := Some tp, i_valid := True\<rparr>)) }
      else Some (Inr n))"

definition ini_port :: "string \<Rightarrow> ini \<Rightarrow> (int + ini) option" where
  "ini_port tok n =
     (if strncmp_eq 12 tok ''server_port'' then do {
        (l, v, e) \<leftarrow> getInteger (i_local n) (i_errno n);
        Some (if e = EINVAL then Inl (- e)
              else Inr (n\<lparr>i_local := l, i_server := v, i_errno := e, i_valid := True\<rparr>)) }
      else Some (Inr n))"

definition ini_token :: "string \<Rightarrow> ini \<Rightarrow> (int + ini) option" where
  "ini_token tok n = do {
     r \<leftarrow> ini_type tok n;
     (case r of Inl e \<Rightarrow> Some (Inl e) | Inr m \<Rightarrow> ini_port tok m) }"

lemma ini_token_rest: "ini_token tok n = Some (Inr m) \<Longrightarrow> length (i_local m) \<le> length (i_local n)"
  by (fastforce simp: ini_token_def ini_type_def ini_port_def
      split: bind_splits if_splits sum.splits prod.splits dest: getInteger_rest getToken_rest)

function ini_loop :: "ini \<Rightarrow> (int + ini) option" where
  "ini_loop n =
     (case checkIfEos (i_local n) of
        None \<Rightarrow> None
      | Some True \<Rightarrow> Some (Inr n)
      | Some False \<Rightarrow>
          (case getToken 256 (i_local n) of
             None \<Rightarrow> None
           | Some (l, tok) \<Rightarrow>
               (case ini_token tok (n\<lparr>i_local := l\<rparr>) of
                  None \<Rightarrow> None
                | Some (Inl e) \<Rightarrow> Some (Inl e)
                | Some (Inr m) \<Rightarrow> ini_loop m)))"
  by pat_completeness auto
termination
  by (relation "measure (\<lambda>n. length (i_local n))")
    (auto dest!: ini_token_rest dest: token_progress)

declare ini_loop.simps [simp del]

text \<open>The result is the return value, the settings, and with \<open>OK\<close> the type and the port.\<close>

definition UNIV_ParseIniArgs :: "bool \<Rightarrow> string \<Rightarrow> univ \<Rightarrow> int \<Rightarrow> (int \<times> univ \<times> (string \<times> int) option) option" where
  "UNIV_ParseIniArgs server info c errno =
     (let c1 = c\<lparr>u_timeout := 2, u_retries := 2, u_maxrate := 100, u_cmdterm := LF, u_respterm := LF\<rparr> in do {
      r \<leftarrow> ini_loop \<lparr>i_valid = False, i_type = None, i_server = 5100, i_local = info, i_errno = errno\<rparr>;
      (case r of
         Inl e \<Rightarrow> Some (e, c1, None)
       | Inr n \<Rightarrow>
           if \<not> i_valid n then Some (- EINVAL, c1, None)
           else do {
             p \<leftarrow> UNIV_ParseLocalCmd server \<lparr>p_cfg = c1, p_local = info, p_errno = i_errno n, p_out = None\<rparr>;
             tp \<leftarrow> i_type n;
             Some (0, p_cfg p, Some (tp, i_server n)) }) })"

section \<open>Lines to and from the hardware\<close>

datatype rd = Rd char | Rd_eof | Rd_err int

text \<open>A run of a loop over the kernel's answers: it may still be waiting when the answers end, and it
  may write past an array.\<close>

datatype 'a run = Waiting | Overrun | Ret 'a

record hw =
  reads :: "rd list"
  clock :: "int list"

text \<open>\<open>while ((nread = read (fd, buf, 1)) < 0)\<close>: the character is unchanged at the end of file.\<close>

fun read_wait :: "int \<Rightarrow> int \<Rightarrow> char \<Rightarrow> rd list \<Rightarrow> int list \<Rightarrow> (int \<times> char \<times> hw) run" where
  "read_wait timeout start prev [] ck = Waiting"
| "read_wait timeout start prev (Rd c # rs) ck = Ret (1, c, \<lparr>reads = rs, clock = ck\<rparr>)"
| "read_wait timeout start prev (Rd_eof # rs) ck = Ret (1, prev, \<lparr>reads = rs, clock = ck\<rparr>)"
| "read_wait timeout start prev (Rd_err e # rs) ck =
     (if e \<noteq> EAGAIN then Ret (- e, prev, \<lparr>reads = rs, clock = ck\<rparr>)
      else case ck of
        [] \<Rightarrow> Waiting
      | now # ck' \<Rightarrow>
          if now - start \<ge> timeout then Ret (- ETIME, prev, \<lparr>reads = rs, clock = ck'\<rparr>)
          else read_wait timeout start prev rs ck')"

definition UNIV_read_timeout :: "int \<Rightarrow> char \<Rightarrow> hw \<Rightarrow> (int \<times> char \<times> hw) run" where
  "UNIV_read_timeout timeout prev h =
     (case clock h of [] \<Rightarrow> Waiting | start # ck \<Rightarrow> read_wait timeout start prev (reads h) ck)"

lemma read_wait_rest:
  "read_wait t st prev rs ck = Ret (r, c, h) \<Longrightarrow> length (reads h) < length rs"
  by (induction t st prev rs ck rule: read_wait.induct) (auto split: if_splits list.splits)

text \<open>The loop of \<open>UNIV_Read\<close>: \<open>buf\<close> is the line so far, of \<open>total_count\<close> characters.\<close>

function read_line :: "univ \<Rightarrow> int \<Rightarrow> char \<Rightarrow> string \<Rightarrow> hw \<Rightarrow> (int \<times> string \<times> hw) run" where
  "read_line c timeout prev buf h =
     (if prev = u_respterm c then Ret (1, buf, h)
      else case UNIV_read_timeout timeout prev h of
        Waiting \<Rightarrow> Waiting
      | Overrun \<Rightarrow> Overrun
      | Ret (r, prev', h') \<Rightarrow>
          if r < 0 then Ret (r, buf, h')
          else read_line c timeout prev'
                 (if length buf < 1024 \<and> prev' \<noteq> u_respterm c then buf @ [prev'] else buf) h')"
  by pat_completeness auto
termination
  by (relation "measure (\<lambda>(_, _, _, _, h). length (reads h))")
    (auto simp: UNIV_read_timeout_def split: list.splits dest: read_wait_rest)

declare read_line.simps [simp del]

text \<open>\<open>UNIV_Read\<close> into an array of \<open>cap\<close> characters.\<close>

definition UNIV_Read :: "nat \<Rightarrow> univ \<Rightarrow> int \<Rightarrow> hw \<Rightarrow> (int \<times> string \<times> hw) run" where
  "UNIV_Read cap c timeout h =
     (case read_line c timeout NUL [] h of
        Waiting \<Rightarrow> Waiting
      | Overrun \<Rightarrow> Overrun
      | Ret (r, buf, h') \<Rightarrow>
          if r < 0 then (if length buf \<le> cap then Ret (r, buf, h') else Overrun)
          else (let line = (if u_increspterm c \<noteq> 0 then buf @ [u_respterm c] else buf) in
                if length line < cap then Ret (int (length line), line, h') else Overrun))"

text \<open>\<open>if ((error == -9) || (error = -111))\<close>: the second operand assigns.  The result is the return
  value, \<open>hFd\<close>, and whether the device is closed.\<close>

definition UNIV_Error :: "int \<Rightarrow> int \<Rightarrow> int \<times> int \<times> bool" where
  "UNIV_Error hFd error =
     (if error = - 9 then (error, - 1, False)
      else let error = - 111 in if error \<noteq> 0 then (error, - 1, False) else (error, hFd, True))"

datatype wr = Wr nat | Wr_err int

text \<open>The loop of \<open>univLib.c\<close>'s \<open>UNIV_Write\<close>.  The result is the return value, \<open>hFd\<close> and the
  characters the device took.\<close>

fun write_wait :: "int \<Rightarrow> int \<Rightarrow> string \<Rightarrow> int \<Rightarrow> wr list \<Rightarrow> int list \<Rightarrow> (int \<times> int \<times> string) run" where
  "write_wait timeout start msg hFd [] ck = Waiting"
| "write_wait timeout start msg hFd (Wr n # ws) ck = Ret (0, hFd, take n msg)"
| "write_wait timeout start msg hFd (Wr_err e # ws) ck =
     (if e \<noteq> EAGAIN then Ret (- e, fst (snd (UNIV_Error hFd (- e))), [])
      else case ck of
        [] \<Rightarrow> Waiting
      | now # ck' \<Rightarrow>
          if now - start \<ge> timeout then Ret (- ETIME, fst (snd (UNIV_Error hFd (- e))), [])
          else write_wait timeout start msg hFd ws ck')"

definition UNIV_Write :: "string \<Rightarrow> int \<Rightarrow> int \<Rightarrow> wr list \<Rightarrow> int list \<Rightarrow> (int \<times> int \<times> string) run" where
  "UNIV_Write value timeout hFd ws ck =
     (case ck of [] \<Rightarrow> Waiting
      | start # ck' \<Rightarrow> write_wait timeout start (value @ [LF, CR]) hFd ws ck')"

end
