(* ===== verification/Univ_Server.thy ===== *)
theory Univ_Server imports Univ
begin

text \<open>
  \<open>c_univ/sockhelp.c\<close> and the server of \<open>c_univ/univ_server.c\<close>: the socket loops, the table of five
  connections, and the main loop as one step per \<open>select\<close>.  An iteration takes what the
  kernel and the driver answer in it from an \<open>event\<close>.
\<close>

section \<open>Socket loops\<close>

text \<open>\<open>sock_write\<close>: the kernel's answers, the bytes not yet sent, the bytes sent.  \<open>EINTR\<close> is retried.
  The result is the return value and everything sent.\<close>

abbreviation (input) EINTR :: int where "EINTR \<equiv> 4"

fun sock_write_loop :: "nat \<Rightarrow> wr list \<Rightarrow> string \<Rightarrow> string \<Rightarrow> (int \<times> string) run" where
  "sock_write_loop count ws [] sent = Ret (int count, sent)"
| "sock_write_loop count [] buf sent = Waiting"
| "sock_write_loop count (Wr n # ws) buf sent =
     (if n = 0 then Ret (0, sent)
      else sock_write_loop count ws (drop n buf) (sent @ take n buf))"
| "sock_write_loop count (Wr_err e # ws) buf sent =
     (if e = EINTR then sock_write_loop count ws buf sent else Ret (-1, sent))"

definition sock_write :: "wr list \<Rightarrow> string \<Rightarrow> (int \<times> string) run" where
  "sock_write ws buf = sock_write_loop (length buf) ws buf []"

definition sock_puts :: "wr list \<Rightarrow> string \<Rightarrow> (int \<times> string) run" where
  "sock_puts ws s = sock_write ws s"

text \<open>\<open>sock_read\<close>: an answer of \<open>read\<close> is a chunk, at most what is asked for; the empty chunk is
  the end of file.\<close>

datatype rdn = Chunk string | Chunk_err int

fun sock_read_loop :: "nat \<Rightarrow> rdn list \<Rightarrow> string \<Rightarrow> (int \<times> string) run" where
  "sock_read_loop count rs got =
     (if count \<le> length got then Ret (int count, got)
      else case rs of
        [] \<Rightarrow> Waiting
      | Chunk s # rs' \<Rightarrow>
          (let s' = take (count - length got) s in
           if s' = [] then Ret (int (length got), got) else sock_read_loop count rs' (got @ s'))
      | Chunk_err e # rs' \<Rightarrow> if e = EINTR then sock_read_loop count rs' got else Ret (-1, got))"

declare sock_read_loop.simps [simp del]

definition sock_read :: "nat \<Rightarrow> rdn list \<Rightarrow> (int \<times> string) run" where
  "sock_read count rs = sock_read_loop count rs []"

text \<open>\<open>sock_gets\<close> on a socket that does not block: an empty list of answers is \<open>EAGAIN\<close>.  The
  terminating NUL of a line of \<open>count\<close> characters is written past the array.\<close>

fun gets_loop :: "char \<Rightarrow> nat \<Rightarrow> string \<Rightarrow> rd list \<Rightarrow> (string option \<times> rd list) run" where
  "gets_loop trm count str [] = Ret (None, [])"
| "gets_loop trm count str (Rd_eof # rs) = Ret (None, rs)"
| "gets_loop trm count str (Rd_err e # rs) = Ret (None, rs)"
| "gets_loop trm count str (Rd c # rs) =
     (let str' = (if length str < count \<and> c \<noteq> LF \<and> c \<noteq> CR then str @ [c] else str) in
      if c \<noteq> trm then gets_loop trm count str' rs
      else if 0 < count \<and> length str' = count then Overrun
      else Ret (Some str', rs))"

definition sock_gets :: "char \<Rightarrow> nat \<Rightarrow> rd list \<Rightarrow> (string option \<times> rd list) run" where
  "sock_gets trm count rs = (if trm = NUL then Ret (Some [], rs) else gets_loop trm count [] rs)"

text \<open>The decimal branch of \<open>atoport\<close>: no service of that name is known.\<close>

definition htons :: "int \<Rightarrow> int" where
  "htons p = (p mod 256) * 256 + p div 256 mod 256"

definition atoport :: "string \<Rightarrow> int" where
  "atoport service =
     (case strtol (base_of service) service of (lport, errpos) \<Rightarrow>
        if errpos \<noteq> [] \<or> lport < 1 \<or> lport > 65535 then -1 else htons lport)"

section \<open>The server\<close>

record server =
  s_cfg :: univ
  s_hFd :: int
  s_sock :: int
  s_tab :: "int list"          \<comment> \<open>\<open>connectlist\<close>\<close>
  s_socks :: "int set"
  s_high :: int                \<comment> \<open>\<open>highsock\<close>\<close>
  s_hCt :: int
  s_errno :: int
  s_out :: "(int \<times> string) list"   \<comment> \<open>what was put to which socket, the oldest first\<close>
  s_closed :: "int list"
  s_exit :: "int option"

record event =
  e_open :: int                \<comment> \<open>what \<open>UNIV_Open\<close> returns\<close>
  e_ready :: "int set"         \<comment> \<open>the readable descriptors\<close>
  e_select :: bool             \<comment> \<open>\<open>select\<close> succeeds\<close>
  e_accept :: int
  e_fcntl :: bool              \<comment> \<open>the new socket can be made non-blocking\<close>
  e_data :: "int \<Rightarrow> rd list"

definition server_start :: "univ \<Rightarrow> int \<Rightarrow> server" where
  "server_start c sock =
     \<lparr>s_cfg = c, s_hFd = -1, s_sock = sock, s_tab = replicate 5 0, s_socks = {}, s_high = sock, s_hCt = 21,
      s_errno = 0, s_out = [], s_closed = [], s_exit = None\<rparr>"

definition put :: "int \<Rightarrow> string \<Rightarrow> server \<Rightarrow> server" where
  "put fd s sv = sv\<lparr>s_out := s_out sv @ [(fd, s)]\<rparr>"

definition build_select_list :: "server \<Rightarrow> server" where
  "build_select_list sv =
     for_n 5 (\<lambda>i sv. if s_tab sv ! i \<noteq> 0
                     then sv\<lparr>s_socks := insert (s_tab sv ! i) (s_socks sv), s_high := max (s_high sv) (s_tab sv ! i)\<rparr>
                     else sv)
       (sv\<lparr>s_socks := {s_sock sv}\<rparr>)"

text \<open>The search for a free slot: \<open>connection\<close> is \<open>-1\<close> once it has one.\<close>

definition find_slot :: "int \<Rightarrow> server \<Rightarrow> int \<times> server" where
  "find_slot connection sv =
     for_n 5 (\<lambda>i (cn, sv). if cn \<noteq> -1 \<and> s_tab sv ! i = 0 then (-1, sv\<lparr>s_tab := (s_tab sv)[i := cn]\<rparr>) else (cn, sv))
       (connection, sv)"

definition too_busy :: string where
  "too_busy = ''Sorry, this server is too busy.   Try again later!'' @ [CR, LF]"

definition handle_new_connection :: "event \<Rightarrow> server \<Rightarrow> server" where
  "handle_new_connection ev sv =
     (if e_accept ev < 0 \<or> \<not> e_fcntl ev then sv\<lparr>s_exit := Some 1\<rparr>
      else case find_slot (e_accept ev) sv of (cn, sv') \<Rightarrow>
        if cn \<noteq> -1 then (put cn too_busy sv')\<lparr>s_closed := s_closed sv' @ [cn]\<rparr> else sv')"

definition not_connected :: string where
  "not_connected = ''ERROR not connected to hardware'' @ [LF]"

text \<open>With a device open the server's \<open>UNIV_Write\<close> copies the command through a pointer that is never
  set, \<open>char *value\<close>: undefined.  So is a reply that no command has written.\<close>

definition deal_with_data :: "event \<Rightarrow> nat \<Rightarrow> server \<Rightarrow> server option" where
  "deal_with_data ev i sv =
     (let fd = s_tab sv ! i in
      case sock_gets (u_cmdterm (s_cfg sv)) 80 (e_data ev fd) of
        Ret (None, _) \<Rightarrow> Some (sv\<lparr>s_closed := s_closed sv @ [fd], s_tab := (s_tab sv)[i := 0]\<rparr>)
      | Ret (Some w, _) \<Rightarrow> do {
          (is_local, p) \<leftarrow> UNIV_IsLocalCmd True w (s_cfg sv) (s_errno sv);
          let sv' = sv\<lparr>s_cfg := p_cfg p, s_errno := p_errno p\<rparr>;
          reply \<leftarrow> (if is_local then p_out p else if s_hFd sv > 0 then None else Some not_connected);
          Some (put fd [LF] (put fd reply sv')) }
      | _ \<Rightarrow> None)"

definition read_socks :: "event \<Rightarrow> server \<Rightarrow> server option" where
  "read_socks ev sv =
     (let ready = s_socks sv \<inter> e_ready ev;
          sv' = (if s_sock sv \<in> ready then handle_new_connection ev sv else sv) in
      if s_exit sv' \<noteq> None then Some sv'
      else for_opt 5 (\<lambda>i sv. if s_tab sv ! i \<in> ready then deal_with_data ev i sv else Some sv) sv')"

text \<open>\<open>if (hFd == ERROR)\<close>: an attempt to open the device, then 21 iterations without one.\<close>

definition reopen :: "event \<Rightarrow> server \<Rightarrow> server" where
  "reopen ev sv =
     (if s_hFd sv = -1
      then (if s_hCt sv > 20 then sv\<lparr>s_hFd := e_open ev, s_hCt := 0\<rparr> else sv\<lparr>s_hCt := s_hCt sv + 1\<rparr>)
      else sv)"

text \<open>One turn of the main loop, and of the end of it.\<close>

definition main_step :: "event \<Rightarrow> server \<Rightarrow> server option" where
  "main_step ev sv =
     (if s_exit sv \<noteq> None then Some sv
      else if u_shutdown (s_cfg sv) \<noteq> 0 then Some (sv\<lparr>s_exit := Some 0, s_closed := s_closed sv @ [s_hFd sv]\<rparr>)
      else let sv1 = reopen ev (build_select_list sv) in
        if \<not> e_select ev then Some (sv1\<lparr>s_exit := Some 1\<rparr>)
        else if s_socks sv1 \<inter> e_ready ev = {} then Some sv1
        else read_socks ev sv1)"

fun main_run :: "event list \<Rightarrow> server \<Rightarrow> server option" where
  "main_run [] sv = Some sv"
| "main_run (ev # evs) sv = do { sv' \<leftarrow> main_step ev sv; main_run evs sv' }"

end
