(* ===== verification/Univ_Props.thy ===== *)
theory Univ_Props imports Univ_Server
begin

text \<open>
  The command language of \<open>univ_server\<close>: what a line of settings does, that its replies fit, where
  the fixed arrays of the parser are too small, and the lines read from the hardware.
\<close>

section \<open>Values of the settings\<close>

definition is_i32 :: "int \<Rightarrow> bool" where
  "is_i32 v \<longleftrightarrow> - (2 ^ 31) \<le> v \<and> v < 2 ^ 31"

definition univ_ok :: "univ \<Rightarrow> bool" where
  "univ_ok c \<longleftrightarrow> is_i32 (u_timeout c) \<and> is_i32 (u_maxrate c) \<and> is_i32 (u_retries c)
     \<and> u_cmdterm c \<in> {LF, CR} \<and> u_respterm c \<in> {LF, CR} \<and> u_increspterm c \<in> {0, 1}"

definition parse_ok :: "parse \<Rightarrow> bool" where
  "parse_ok p \<longleftrightarrow> univ_ok (p_cfg p) \<and> (\<forall>r. p_out p = Some r \<longrightarrow> length r < 256)"

lemma dec_short: "is_i32 v \<Longrightarrow> length (dec v) \<le> 11"
proof -
  assume v: "is_i32 v"
  then have "\<bar>v\<bar> < 10 ^ 10" by (auto simp: is_i32_def abs_if)
  then have "nat \<bar>v\<bar> < 10 ^ Suc 9" by (simp add: nat_less_iff)
  from dec_nat_length [OF this] show ?thesis by (auto simp: dec_def abs_if)
qed

lemma getInteger_i32: "getInteger s e = Some (r, v, e') \<Longrightarrow> is_i32 v"
  using to_i32_range by (auto simp: getInteger_def Let_def is_i32_def split: bind_splits prod.splits)

lemma getToken_short: "getToken n s = Some (r, t) \<Longrightarrow> length t < n"
  by (auto simp: getToken_def gtkbrk_def split: bind_splits prod.splits if_splits)

lemma univ_ok_update:
  "univ_ok c \<Longrightarrow> is_i32 v \<Longrightarrow> univ_ok (c\<lparr>u_timeout := v\<rparr>)"
  "univ_ok c \<Longrightarrow> is_i32 v \<Longrightarrow> univ_ok (c\<lparr>u_maxrate := v\<rparr>)"
  "univ_ok c \<Longrightarrow> is_i32 v \<Longrightarrow> univ_ok (c\<lparr>u_retries := v\<rparr>)"
  "univ_ok c \<Longrightarrow> x \<in> {LF, CR} \<Longrightarrow> univ_ok (c\<lparr>u_cmdterm := x\<rparr>)"
  "univ_ok c \<Longrightarrow> x \<in> {LF, CR} \<Longrightarrow> univ_ok (c\<lparr>u_respterm := x\<rparr>)"
  "univ_ok c \<Longrightarrow> w \<in> {0, 1} \<Longrightarrow> univ_ok (c\<lparr>u_increspterm := w\<rparr>)"
  "univ_ok c \<Longrightarrow> univ_ok (c\<lparr>u_shutdown := w\<rparr>)"
  by (simp_all add: univ_ok_def)

lemma show_settings_short: "univ_ok c \<Longrightarrow> length (show_settings c) < 256"
proof -
  assume c: "univ_ok c"
  have "length (dec (u_maxrate c)) \<le> 11" "length (dec (u_timeout c)) \<le> 11" "length (dec (u_retries c)) \<le> 11"
    "length (dec (u_increspterm c)) \<le> 11"
    using c by (auto intro!: dec_short simp: univ_ok_def is_i32_def)
  moreover have "length (hex_char x) \<le> 2" for x by (simp add: hex_char_def Let_def)
  from this [of "u_cmdterm c"] this [of "u_respterm c"]
  have "length (hex_char (u_cmdterm c)) \<le> 2" "length (hex_char (u_respterm c)) \<le> 2" by auto
  ultimately show ?thesis by (simp add: show_settings_def)
qed

lemma parse_ok_set: "univ_ok c \<Longrightarrow> length r < 256 \<Longrightarrow> parse_ok (p\<lparr>p_local := l, p_cfg := c, p_out := Some r\<rparr>)"
  by (simp add: parse_ok_def)

lemma opt_keeps:
  assumes "parse_ok p"
  shows "opt_timeout tok p = Some q \<Longrightarrow> parse_ok q"
    "opt_maxrate tok p = Some q \<Longrightarrow> parse_ok q"
    "opt_retries tok p = Some q \<Longrightarrow> parse_ok q"
    "opt_cmdterm tok p = Some q \<Longrightarrow> parse_ok q"
    "opt_respterm tok p = Some q \<Longrightarrow> parse_ok q"
    "opt_increspterm tok p = Some q \<Longrightarrow> parse_ok q"
proof -
  from assms have c: "univ_ok (p_cfg p)" and t: "is_i32 (u_timeout (p_cfg p))" by (simp_all add: parse_ok_def univ_ok_def)
  have m: "is_i32 (-1)" by (simp add: is_i32_def)
  show "parse_ok q" if "opt_timeout tok p = Some q"
  proof (cases "strncmp_eq 7 tok ''timeout''")
    case True
    with that obtain l v e where g: "getInteger (p_local p) (p_errno p) = Some (l, v, e)"
      by (auto simp: opt_timeout_def split: bind_splits)
    define w where "w = (if v < 0 then -1 else if v > 0 then v else u_timeout (p_cfg p))"
    have w: "is_i32 w" using getInteger_i32 [OF g] m t by (simp add: w_def)
    have "q = p\<lparr>p_local := l, p_errno := e, p_cfg := (p_cfg p)\<lparr>u_timeout := w\<rparr>,
        p_out := Some (''timeout now is '' @ dec w @ '' [s]'' @ [LF])\<rparr>"
      using that True unfolding opt_timeout_def g w_def Let_def by simp
    then show ?thesis using dec_short [OF w] univ_ok_update(1) [OF c w] by (simp add: parse_ok_def)
  qed (use that assms in \<open>simp add: opt_timeout_def\<close>)
  show "parse_ok q" if "opt_maxrate tok p = Some q"
  proof (cases "strncmp_eq 7 tok ''maxrate''")
    case True
    with that obtain l v e where g: "getInteger (p_local p) (p_errno p) = Some (l, v, e)"
      by (auto simp: opt_maxrate_def split: bind_splits)
    from that True show ?thesis
      using dec_short [OF getInteger_i32 [OF g]] univ_ok_update(2) [OF c getInteger_i32 [OF g]] c
      unfolding opt_maxrate_def g Let_def by (auto simp: parse_ok_def invalid_argument_def split: if_splits)
  qed (use that assms in \<open>simp add: opt_maxrate_def\<close>)
  show "parse_ok q" if "opt_retries tok p = Some q"
  proof (cases "strncmp_eq 7 tok ''retries''")
    case True
    with that obtain l v e where g: "getInteger (p_local p) (p_errno p) = Some (l, v, e)"
      by (auto simp: opt_retries_def split: bind_splits)
    from that True show ?thesis
      using dec_short [OF getInteger_i32 [OF g]] univ_ok_update(3) [OF c getInteger_i32 [OF g]] c
      unfolding opt_retries_def g Let_def by (auto simp: parse_ok_def invalid_argument_def split: if_splits)
  qed (use that assms in \<open>simp add: opt_retries_def\<close>)
  show "parse_ok q" if "opt_cmdterm tok p = Some q"
  proof (cases "strncmp_eq 7 tok ''cmdterm''")
    case True
    with that obtain l w where g: "getToken 5 (p_local p) = Some (l, w)"
      by (auto simp: opt_cmdterm_def split: bind_splits)
    define y where "y = strncmp_eq 2 w ''CR''"
    have "q = p\<lparr>p_local := l, p_cfg := (p_cfg p)\<lparr>u_cmdterm := (if y then CR else LF)\<rparr>, p_out := Some (''cmdterm now is '' @ (if y then w else ''LF'') @ [LF])\<rparr>"
      using that True g by (simp add: opt_cmdterm_def y_def Let_def)
    then show ?thesis using getToken_short [OF g] by (simp add: parse_ok_set univ_ok_update c)
  qed (use that assms in \<open>simp add: opt_cmdterm_def\<close>)
  show "parse_ok q" if "opt_respterm tok p = Some q"
  proof (cases "strncmp_eq 8 tok ''respterm''")
    case True
    with that obtain l w where g: "getToken 5 (p_local p) = Some (l, w)"
      by (auto simp: opt_respterm_def split: bind_splits)
    define y where "y = strncmp_eq 2 w ''CR''"
    have "q = p\<lparr>p_local := l, p_cfg := (p_cfg p)\<lparr>u_respterm := (if y then CR else LF)\<rparr>, p_out := Some (''respterm now is '' @ (if y then w else ''LF'') @ [LF])\<rparr>"
      using that True g by (simp add: opt_respterm_def y_def Let_def)
    then show ?thesis using getToken_short [OF g] by (simp add: parse_ok_set univ_ok_update c)
  qed (use that assms in \<open>simp add: opt_respterm_def\<close>)
  show "parse_ok q" if "opt_increspterm tok p = Some q"
  proof (cases "strncmp_eq 11 tok ''increspterm''")
    case True
    with that obtain l w where g: "getToken 5 (p_local p) = Some (l, w)"
      by (auto simp: opt_increspterm_def split: bind_splits)
    define y where "y = strncmp_eq 3 w ''yes''"
    have "q = p\<lparr>p_local := l, p_cfg := (p_cfg p)\<lparr>u_increspterm := (if y then 1 else 0)\<rparr>, p_out := Some ((if y then ''increspterm now is '' @ w else ''respterm now is NO'') @ [LF])\<rparr>"
      using that True g by (simp add: opt_increspterm_def y_def Let_def)
    then show ?thesis using getToken_short [OF g] by (simp add: parse_ok_set univ_ok_update c)
  qed (use that assms in \<open>simp add: opt_increspterm_def\<close>)
qed

lemma parse_token_keeps:
  assumes "parse_ok p" "parse_token server tok p = Some (b, q)"
  shows "parse_ok q"
proof -
  obtain p1 p2 p3 p4 p5 p6 where s: "opt_timeout tok p = Some p1" "opt_maxrate tok p1 = Some p2" "opt_retries tok p2 = Some p3"
    "opt_cmdterm tok p3 = Some p4" "opt_respterm tok p4 = Some p5" "opt_increspterm tok p5 = Some p6"
    and q: "q = p6 \<or> q = p6\<lparr>p_cfg := (p_cfg p6)\<lparr>u_shutdown := 1\<rparr>, p_out := Some ''shutting down''\<rparr>
      \<or> q = p6\<lparr>p_out := Some (show_settings (p_cfg p6))\<rparr>"
    using assms(2) by (auto simp: parse_token_def split: bind_splits if_splits)
  from opt_keeps(1) [OF assms(1) s(1)] have "parse_ok p1" .
  from opt_keeps(2) [OF this s(2)] have "parse_ok p2" .
  from opt_keeps(3) [OF this s(3)] have "parse_ok p3" .
  from opt_keeps(4) [OF this s(4)] have "parse_ok p4" .
  from opt_keeps(5) [OF this s(5)] have "parse_ok p5" .
  from opt_keeps(6) [OF this s(6)] have "parse_ok p6" .
  with q show ?thesis by (auto simp: parse_ok_def show_settings_short univ_ok_update)
qed

lemma ParseLocalCmd_keeps:
  "parse_ok p \<Longrightarrow> UNIV_ParseLocalCmd server p = Some q \<Longrightarrow> parse_ok q"
proof (induction server p rule: UNIV_ParseLocalCmd.induct)
  case (1 server p)
  show ?case
  proof (cases "checkIfEos (p_local p) = Some False")
    case True
    with 1(3) obtain l tok b p1 where t: "getToken 256 (p_local p) = Some (l, tok)"
      "parse_token server tok (p\<lparr>p_local := l\<rparr>) = Some (b, p1)"
      "if b then q = p1 else UNIV_ParseLocalCmd server p1 = Some q"
      by (subst (asm) UNIV_ParseLocalCmd.simps) (auto split: option.splits prod.splits bool.splits if_splits)
    have "parse_ok (p\<lparr>p_local := l\<rparr>)" using 1(2) by (simp add: parse_ok_def)
    from parse_token_keeps [OF this t(2)] have p1: "parse_ok p1" .
    show ?thesis
    proof (cases b)
      case True
      with t(3) p1 show ?thesis by simp
    next
      case False
      with t(2,3) have "UNIV_ParseLocalCmd server p1 = Some q" "parse_token server tok (p\<lparr>p_local := l\<rparr>) = Some (False, p1)" by simp_all
      with 1(1) [OF True _ t(1) refl this(2) refl] p1 show ?thesis by simp
    qed
  next
    case False
    with 1(3) have "q = p" by (subst (asm) UNIV_ParseLocalCmd.simps) (auto split: option.splits bool.splits)
    with 1(2) show ?thesis by simp
  qed
qed

text \<open>C30: Every reply to a local command fits the 256 characters of the smallest buffer it is printed
  to, and the settings stay in range: the numbers are C ints, the terminators LF or CR, the flag a
  bit.\<close>

theorem local_reply_fits:
  "\<lbrakk>univ_ok c; UNIV_IsLocalCmd server s c e = Some (b, p)\<rbrakk>
    \<Longrightarrow> univ_ok (p_cfg p) \<and> (\<forall>r. p_out p = Some r \<longrightarrow> length r < 256)"
  using ParseLocalCmd_keeps [of "\<lparr>p_cfg = c, p_local = s, p_errno = e, p_out = None\<rparr>" server p]
  by (auto simp: UNIV_IsLocalCmd_def Let_def parse_ok_def split: if_splits)

theorem local_reply_fits_witness:
  "let r = UNIV_IsLocalCmd True ''UNIV get'' univ_start 0 in
     r \<noteq> None \<and> univ_ok (p_cfg (snd (the r))) \<and> length (the (p_out (snd (the r)))) < 256"
proof -
  have ok: "univ_ok univ_start" by (simp add: univ_ok_def univ_start_def is_i32_def)
  have "UNIV_IsLocalCmd True ''UNIV get'' univ_start 0 \<noteq> None
    \<and> p_out (snd (the (UNIV_IsLocalCmd True ''UNIV get'' univ_start 0))) \<noteq> None" by code_simp
  then obtain b p r where r: "UNIV_IsLocalCmd True ''UNIV get'' univ_start 0 = Some (b, p)" "p_out p = Some r" by auto
  from local_reply_fits [OF ok r(1)] r show ?thesis by (simp add: Let_def)
qed

section \<open>A line of settings\<close>

lemma parse_step:
  assumes "list_all plain tok" "tok \<noteq> []" "length tok < 80"
    "parse_token server tok \<lparr>p_cfg = c, p_local = r, p_errno = e, p_out = out\<rparr> = Some (False, q)"
  shows "UNIV_ParseLocalCmd server \<lparr>p_cfg = c, p_local = tok @ CHR '' '' # r, p_errno = e, p_out = out\<rparr>
    = UNIV_ParseLocalCmd server q"
  using assms getToken_word [of tok 256 r] by (subst UNIV_ParseLocalCmd.simps) (simp add: checkIfEos_word)

lemma parse_end: "UNIV_ParseLocalCmd server \<lparr>p_cfg = c, p_local = [], p_errno = e, p_out = out\<rparr>
    = Some \<lparr>p_cfg = c, p_local = [], p_errno = e, p_out = out\<rparr>"
  by (simp add: UNIV_ParseLocalCmd.simps checkIfEos_nil)

text \<open>The option words: each is handled by its own branch only.\<close>

lemmas opt_defs = opt_timeout_def opt_maxrate_def opt_retries_def opt_cmdterm_def opt_respterm_def
  opt_increspterm_def strncmp_eq_def

lemma parse_token_words:
  "parse_token server ''UNIV'' p = Some (False, p)"
  "parse_token server ''timeout'' p = map_option (Pair False) (opt_timeout ''timeout'' p)"
  "parse_token server ''maxrate'' p = map_option (Pair False) (opt_maxrate ''maxrate'' p)"
  "parse_token server ''retries'' p = map_option (Pair False) (opt_retries ''retries'' p)"
  "parse_token server ''cmdterm'' p = map_option (Pair False) (opt_cmdterm ''cmdterm'' p)"
  "parse_token server ''respterm'' p = map_option (Pair False) (opt_respterm ''respterm'' p)"
  "parse_token server ''increspterm'' p = map_option (Pair False) (opt_increspterm ''increspterm'' p)"
  by (simp_all add: parse_token_def opt_defs Let_def map_option_case split: option.splits bind_splits)

lemma plain_words:
  "list_all plain ''UNIV''" "list_all plain ''timeout''" "list_all plain ''maxrate''" "list_all plain ''retries''"
  "list_all plain ''cmdterm''" "list_all plain ''respterm''" "list_all plain ''increspterm''"
  "list_all plain ''CR''" "list_all plain ''LF''" "list_all plain ''yes''" "list_all plain ''no''"
  "list_all plain ''type''" "list_all plain ''server_port''"
  by (simp_all add: plain_def is_blank_def is_break_def)

lemma parse_number:
  assumes "v \<noteq> 0" "is_i32 v"
  shows "getInteger (dec v @ CHR '' '' # r) e = Some (r, v, e)"
  using assms getInteger_dec by (simp add: is_i32_def)

definition term_name :: "char \<Rightarrow> string" where
  "term_name x = (if x = CR then ''CR'' else ''LF'')"

text \<open>The line that asks for the settings of \<open>c\<close>.\<close>

definition settings_line :: "univ \<Rightarrow> string" where
  "settings_line c =
     ''UNIV'' @ CHR '' '' # ''timeout'' @ CHR '' '' # dec (u_timeout c) @ CHR '' '' # ''maxrate'' @ CHR '' '' # dec (u_maxrate c)
     @ CHR '' '' # ''retries'' @ CHR '' '' # dec (u_retries c) @ CHR '' '' # ''cmdterm'' @ CHR '' '' # term_name (u_cmdterm c)
     @ CHR '' '' # ''respterm'' @ CHR '' '' # term_name (u_respterm c)
     @ CHR '' '' # ''increspterm'' @ CHR '' '' # (if u_increspterm c = 1 then ''yes'' else ''no'') @ CHR '' '' # []"

definition settable :: "univ \<Rightarrow> bool" where
  "settable c \<longleftrightarrow> univ_ok c \<and> u_timeout c \<noteq> 0 \<and> - 1 \<le> u_timeout c \<and> 0 < u_maxrate c \<and> 0 < u_retries c"

lemma getToken_names:
  "getToken 5 (''CR'' @ CHR '' '' # r) = Some (r, ''CR'')" "getToken 5 (''LF'' @ CHR '' '' # r) = Some (r, ''LF'')"
  "getToken 5 (''yes'' @ CHR '' '' # r) = Some (r, ''yes'')" "getToken 5 (''no'' @ CHR '' '' # r) = Some (r, ''no'')"
  by (rule getToken_word; simp add: plain_def is_blank_def is_break_def)+

lemma parse_options:
  "v \<noteq> 0 \<Longrightarrow> - 1 \<le> v \<Longrightarrow> is_i32 v \<Longrightarrow>
   opt_timeout ''timeout'' \<lparr>p_cfg = c, p_local = dec v @ CHR '' '' # r, p_errno = e, p_out = out\<rparr>
     = Some \<lparr>p_cfg = c\<lparr>u_timeout := v\<rparr>, p_local = r, p_errno = e, p_out = Some (''timeout now is '' @ dec v @ '' [s]'' @ [LF])\<rparr>"
  "0 < v \<Longrightarrow> is_i32 v \<Longrightarrow>
   opt_maxrate ''maxrate'' \<lparr>p_cfg = c, p_local = dec v @ CHR '' '' # r, p_errno = e, p_out = out\<rparr>
     = Some \<lparr>p_cfg = c\<lparr>u_maxrate := v\<rparr>, p_local = r, p_errno = e, p_out = Some (''maxreqtime now is '' @ dec v @ '' [ms]'' @ [LF])\<rparr>"
  "0 < v \<Longrightarrow> is_i32 v \<Longrightarrow>
   opt_retries ''retries'' \<lparr>p_cfg = c, p_local = dec v @ CHR '' '' # r, p_errno = e, p_out = out\<rparr>
     = Some \<lparr>p_cfg = c\<lparr>u_retries := v\<rparr>, p_local = r, p_errno = e, p_out = Some (''retries now is '' @ dec v @ '' times'' @ [LF])\<rparr>"
  "x \<in> {LF, CR} \<Longrightarrow>
   opt_cmdterm ''cmdterm'' \<lparr>p_cfg = c, p_local = term_name x @ CHR '' '' # r, p_errno = e, p_out = out\<rparr>
     = Some \<lparr>p_cfg = c\<lparr>u_cmdterm := x\<rparr>, p_local = r, p_errno = e, p_out = Some (''cmdterm now is '' @ term_name x @ [LF])\<rparr>"
  "x \<in> {LF, CR} \<Longrightarrow>
   opt_respterm ''respterm'' \<lparr>p_cfg = c, p_local = term_name x @ CHR '' '' # r, p_errno = e, p_out = out\<rparr>
     = Some \<lparr>p_cfg = c\<lparr>u_respterm := x\<rparr>, p_local = r, p_errno = e, p_out = Some (''respterm now is '' @ term_name x @ [LF])\<rparr>"
  "w \<in> {0, 1} \<Longrightarrow>
   opt_increspterm ''increspterm'' \<lparr>p_cfg = c, p_local = (if w = 1 then ''yes'' else ''no'') @ CHR '' '' # r, p_errno = e, p_out = out\<rparr>
     = Some \<lparr>p_cfg = c\<lparr>u_increspterm := w\<rparr>, p_local = r, p_errno = e,
         p_out = Some ((if w = 1 then ''increspterm now is yes'' else ''respterm now is NO'') @ [LF])\<rparr>"
proof -
  show "opt_timeout ''timeout'' \<lparr>p_cfg = c, p_local = dec v @ CHR '' '' # r, p_errno = e, p_out = out\<rparr>
     = Some \<lparr>p_cfg = c\<lparr>u_timeout := v\<rparr>, p_local = r, p_errno = e, p_out = Some (''timeout now is '' @ dec v @ '' [s]'' @ [LF])\<rparr>"
    if "v \<noteq> 0" "- 1 \<le> v" "is_i32 v"
  proof -
    have "v = - 1 \<or> 0 < v" using that by auto
    then show ?thesis using that parse_number [of v] by (auto simp: opt_timeout_def strncmp_eq_def Let_def)
  qed
qed (simp_all add: opt_maxrate_def opt_retries_def opt_cmdterm_def opt_respterm_def opt_increspterm_def
      strncmp_eq_def parse_number Let_def term_name_def getToken_names [simplified], auto simp: getToken_names [simplified])

lemma parse_settings:
  "v \<noteq> 0 \<Longrightarrow> - 1 \<le> v \<Longrightarrow> is_i32 v \<Longrightarrow>
   UNIV_ParseLocalCmd sv \<lparr>p_cfg = c, p_local = ''timeout'' @ CHR '' '' # dec v @ CHR '' '' # r, p_errno = e, p_out = out\<rparr>
     = UNIV_ParseLocalCmd sv \<lparr>p_cfg = c\<lparr>u_timeout := v\<rparr>, p_local = r, p_errno = e, p_out = Some (''timeout now is '' @ dec v @ '' [s]'' @ [LF])\<rparr>"
  "0 < v \<Longrightarrow> is_i32 v \<Longrightarrow>
   UNIV_ParseLocalCmd sv \<lparr>p_cfg = c, p_local = ''maxrate'' @ CHR '' '' # dec v @ CHR '' '' # r, p_errno = e, p_out = out\<rparr>
     = UNIV_ParseLocalCmd sv \<lparr>p_cfg = c\<lparr>u_maxrate := v\<rparr>, p_local = r, p_errno = e, p_out = Some (''maxreqtime now is '' @ dec v @ '' [ms]'' @ [LF])\<rparr>"
  "0 < v \<Longrightarrow> is_i32 v \<Longrightarrow>
   UNIV_ParseLocalCmd sv \<lparr>p_cfg = c, p_local = ''retries'' @ CHR '' '' # dec v @ CHR '' '' # r, p_errno = e, p_out = out\<rparr>
     = UNIV_ParseLocalCmd sv \<lparr>p_cfg = c\<lparr>u_retries := v\<rparr>, p_local = r, p_errno = e, p_out = Some (''retries now is '' @ dec v @ '' times'' @ [LF])\<rparr>"
  "x \<in> {LF, CR} \<Longrightarrow>
   UNIV_ParseLocalCmd sv \<lparr>p_cfg = c, p_local = ''cmdterm'' @ CHR '' '' # term_name x @ CHR '' '' # r, p_errno = e, p_out = out\<rparr>
     = UNIV_ParseLocalCmd sv \<lparr>p_cfg = c\<lparr>u_cmdterm := x\<rparr>, p_local = r, p_errno = e, p_out = Some (''cmdterm now is '' @ term_name x @ [LF])\<rparr>"
  "x \<in> {LF, CR} \<Longrightarrow>
   UNIV_ParseLocalCmd sv \<lparr>p_cfg = c, p_local = ''respterm'' @ CHR '' '' # term_name x @ CHR '' '' # r, p_errno = e, p_out = out\<rparr>
     = UNIV_ParseLocalCmd sv \<lparr>p_cfg = c\<lparr>u_respterm := x\<rparr>, p_local = r, p_errno = e, p_out = Some (''respterm now is '' @ term_name x @ [LF])\<rparr>"
  "w \<in> {0, 1} \<Longrightarrow>
   UNIV_ParseLocalCmd sv \<lparr>p_cfg = c, p_local = ''increspterm'' @ CHR '' '' # (if w = 1 then ''yes'' else ''no'') @ CHR '' '' # r, p_errno = e, p_out = out\<rparr>
     = UNIV_ParseLocalCmd sv \<lparr>p_cfg = c\<lparr>u_increspterm := w\<rparr>, p_local = r, p_errno = e, p_out = Some ((if w = 1 then ''increspterm now is yes'' else ''respterm now is NO'') @ [LF])\<rparr>"
  "UNIV_ParseLocalCmd sv \<lparr>p_cfg = c, p_local = ''UNIV'' @ CHR '' '' # r, p_errno = e, p_out = out\<rparr>
     = UNIV_ParseLocalCmd sv \<lparr>p_cfg = c, p_local = r, p_errno = e, p_out = out\<rparr>"
  by (rule parse_step, simp only: plain_words, simp, simp, simp only: parse_token_words parse_options option.map simp_thms)+

text \<open>C29: The command \<open>UNIV timeout .. maxrate .. retries .. cmdterm .. respterm .. increspterm ..\<close> printed
  from settings sets exactly those settings: what is printed in decimal is read back although the
  parser takes the base from the prefix, and only the shutdown flag is as before.\<close>

theorem settings_roundtrip:
  assumes "settable c"
  shows "map_option (\<lambda>(b, p). (b, p_cfg p)) (UNIV_IsLocalCmd server (settings_line c) c0 e)
    = Some (True, c\<lparr>u_shutdown := u_shutdown c0\<rparr>)"
proof -
  have w: "first_word (settings_line c) = ''UNIV''" by (simp add: first_word_def settings_line_def is_space_def)
  from assms have c: "is_i32 (u_timeout c)" "is_i32 (u_maxrate c)" "is_i32 (u_retries c)" "u_timeout c \<noteq> 0" "- 1 \<le> u_timeout c"
    "0 < u_maxrate c" "0 < u_retries c" "u_cmdterm c \<in> {LF, CR}" "u_respterm c \<in> {LF, CR}" "u_increspterm c \<in> {0, 1}"
    by (simp_all add: settable_def univ_ok_def)
  have "\<exists>out. UNIV_ParseLocalCmd server \<lparr>p_cfg = c0, p_local = settings_line c, p_errno = e, p_out = None\<rparr>
    = Some \<lparr>p_cfg = c\<lparr>u_shutdown := u_shutdown c0\<rparr>, p_local = [], p_errno = e, p_out = Some out\<rparr>"
    unfolding settings_line_def parse_settings(7) parse_settings(1) [OF c(4,5,1)] parse_settings(2) [OF c(6,2)]
      parse_settings(3) [OF c(7,3)] parse_settings(4) [OF c(8)] parse_settings(5) [OF c(9)] parse_settings(6) [OF c(10)]
      parse_end
    by (cases c; cases c0) simp
  then show ?thesis by (auto simp: UNIV_IsLocalCmd_def w)
qed

theorem settings_roundtrip_witness:
  "let c = univ_start\<lparr>u_timeout := -1, u_maxrate := 250, u_respterm := CR\<rparr> in
   map_option (\<lambda>(b, p). (b, p_cfg p)) (UNIV_IsLocalCmd True (settings_line c) univ_start 0) = Some (True, c)"
  using settings_roundtrip [of "univ_start\<lparr>u_timeout := -1, u_maxrate := 250, u_respterm := CR\<rparr>" True univ_start 0]
  by (simp add: settable_def univ_ok_def univ_start_def is_i32_def)

section \<open>Where the arrays are too small\<close>

lemma getToken_overrun: "list_all plain w \<Longrightarrow> w \<noteq> [] \<Longrightarrow> cap \<le> length w \<Longrightarrow> getToken cap (w @ CHR '' '' # r) = None"
  by (simp add: getToken_def gtkbrk_def gtk_loop_word)

lemma option_overruns:
  assumes "list_all plain w" "w \<noteq> []" "5 \<le> length w" "p_local p = w @ CHR '' '' # r"
  shows "opt_cmdterm ''cmdterm'' p = None" "opt_respterm ''respterm'' p = None" "opt_increspterm ''increspterm'' p = None"
  using getToken_overrun [OF assms(1-3)] assms(4)
  by (simp_all add: opt_cmdterm_def opt_respterm_def opt_increspterm_def strncmp_eq_def)

lemma parse_stuck:
  assumes "list_all plain tok" "tok \<noteq> []" "length tok < 80"
    "parse_token server tok \<lparr>p_cfg = c, p_local = r, p_errno = e, p_out = out\<rparr> = None"
  shows "UNIV_ParseLocalCmd server \<lparr>p_cfg = c, p_local = tok @ CHR '' '' # r, p_errno = e, p_out = out\<rparr> = None"
  using assms getToken_word [of tok 256 r] by (subst UNIV_ParseLocalCmd.simps) (simp add: checkIfEos_word)

text \<open>The value after \<open>cmdterm\<close>, \<open>respterm\<close> or \<open>increspterm\<close> is copied to an array of five characters:
  a client that sends a longer word, \<open>UNIV increspterm FALSE\<close>, writes past it, and the command has no
  defined result.\<close>

theorem long_value_overruns:
  assumes "list_all plain w" "5 \<le> length w" "opt \<in> {''cmdterm'', ''respterm'', ''increspterm''}"
  shows "UNIV_IsLocalCmd server (''UNIV '' @ opt @ CHR '' '' # w @ CHR '' '' # r) c e = None"
proof -
  from assms(2) have w: "w \<noteq> []" by auto
  have f: "first_word (''UNIV '' @ opt @ CHR '' '' # w @ CHR '' '' # r) = ''UNIV''"
    by (simp add: first_word_def is_space_def)
  have "UNIV_ParseLocalCmd server \<lparr>p_cfg = c, p_local = opt @ CHR '' '' # w @ CHR '' '' # r, p_errno = e, p_out = None\<rparr> = None"
    using assms(3) option_overruns [OF assms(1) w assms(2)] plain_words
    by (elim insertE emptyE; hypsubst; intro parse_stuck) (simp_all only: parse_token_words option.map parse.simps, simp_all)
  with parse_settings(7) [of server c "opt @ CHR '' '' # w @ CHR '' '' # r" e None]
  show ?thesis using f by (simp add: UNIV_IsLocalCmd_def)
qed

theorem long_value_overruns_witness:
  "UNIV_IsLocalCmd True ''UNIV increspterm FALSE '' univ_start 0 = None"
  using long_value_overruns [of "''FALSE''" "''increspterm''" True "[]" univ_start 0]
  by (simp add: plain_def is_blank_def is_break_def)

section \<open>The command line\<close>

lemma ini_step:
  assumes "list_all plain tok" "tok \<noteq> []" "length tok < 80" "i_local n = tok @ CHR '' '' # r"
    "ini_token tok (n\<lparr>i_local := r\<rparr>) = Some (Inr m)"
  shows "ini_loop n = ini_loop m"
  using assms getToken_word [of tok 256 r] by (subst ini_loop.simps) (simp add: checkIfEos_word)

lemma ini_end: "i_local n = [] \<Longrightarrow> ini_loop n = Some (Inr n)"
  by (simp add: ini_loop.simps checkIfEos_nil)

lemma ini_words:
  "ini_token ''type'' n = ini_type ''type'' n"
  "ini_token ''server_port'' n = ini_port ''server_port'' n"
  by (auto simp: ini_token_def ini_type_def ini_port_def strncmp_eq_def split: bind_splits option.splits sum.splits)

text \<open>A number is no option word.\<close>

lemma dec_first: "\<exists>c cs. dec v = c # cs \<and> (of_char c :: nat) < 58"
proof -
  obtain d cs where d: "d < 10" "dec_nat (nat v) = dig d # cs" using dec_nat_starts by blast
  with of_char_dig [OF d(1)] show ?thesis by (cases "v < 0") (auto simp: dec_def)
qed

lemma parse_token_dec: "parse_token server (dec v) p = Some (False, p)"
proof -
  obtain c cs where c: "dec v = c # cs" "(of_char c :: nat) < 58" using dec_first by blast
  then have "c \<noteq> CHR ''t''" "c \<noteq> CHR ''m''" "c \<noteq> CHR ''r''" "c \<noteq> CHR ''c''" "c \<noteq> CHR ''i''"
    "c \<noteq> CHR ''S''" "c \<noteq> CHR ''C''" "c \<noteq> CHR ''g''" by auto
  then show ?thesis by (simp add: parse_token_def opt_defs c)
qed

lemma dec_length80: "is_i32 v \<Longrightarrow> length (dec v) < 80"
  using dec_short by fastforce

lemma parse_ini_words:
  "parse_token server ''type'' p = Some (False, p)" "parse_token server ''tcp'' p = Some (False, p)"
  "parse_token server ''serial'' p = Some (False, p)" "parse_token server ''server_port'' p = Some (False, p)"
  by (simp_all add: parse_token_def opt_defs)

lemma parse_ini_line:
  assumes "is_i32 v"
  shows "UNIV_ParseLocalCmd sv \<lparr>p_cfg = c, p_local = ''server_port'' @ CHR '' '' # dec v @ '' '', p_errno = e, p_out = out\<rparr>
      = Some \<lparr>p_cfg = c, p_local = [], p_errno = e, p_out = out\<rparr>" (is ?p)
    and "w \<in> {''tcp'', ''serial''} \<Longrightarrow>
      UNIV_ParseLocalCmd sv \<lparr>p_cfg = c, p_local = ''type'' @ CHR '' '' # w @ CHR '' '' # ''server_port'' @ CHR '' '' # dec v @ '' '',
        p_errno = e, p_out = out\<rparr> = Some \<lparr>p_cfg = c, p_local = [], p_errno = e, p_out = out\<rparr>"
proof -
  note number = parse_step [OF plain_dec dec_nonempty dec_length80 [OF assms] parse_token_dec]
  have "UNIV_ParseLocalCmd sv \<lparr>p_cfg = c, p_local = ''server_port'' @ CHR '' '' # dec v @ CHR '' '' # [], p_errno = e, p_out = out\<rparr>
    = UNIV_ParseLocalCmd sv \<lparr>p_cfg = c, p_local = dec v @ CHR '' '' # [], p_errno = e, p_out = out\<rparr>"
    by (rule parse_step) (simp_all add: plain_words parse_ini_words plain_def is_blank_def is_break_def)
  then show p: ?p by (simp add: number parse_end)
  assume w: "w \<in> {''tcp'', ''serial''}"
  let ?r = "''server_port'' @ CHR '' '' # dec v @ '' ''"
  have "UNIV_ParseLocalCmd sv \<lparr>p_cfg = c, p_local = ''type'' @ CHR '' '' # w @ CHR '' '' # ?r, p_errno = e, p_out = out\<rparr>
    = UNIV_ParseLocalCmd sv \<lparr>p_cfg = c, p_local = w @ CHR '' '' # ?r, p_errno = e, p_out = out\<rparr>"
    by (rule parse_step, simp only: plain_words, simp, simp, simp only: parse_ini_words parse.simps)
  also have "\<dots> = UNIV_ParseLocalCmd sv \<lparr>p_cfg = c, p_local = ?r, p_errno = e, p_out = out\<rparr>"
    using w by (intro parse_step) (auto simp: plain_def is_blank_def is_break_def parse_ini_words)
  finally show "UNIV_ParseLocalCmd sv \<lparr>p_cfg = c, p_local = ''type'' @ CHR '' '' # w @ CHR '' '' # ?r, p_errno = e, p_out = out\<rparr>
    = Some \<lparr>p_cfg = c, p_local = [], p_errno = e, p_out = out\<rparr>" using p by simp
qed

text \<open>The server's command line \<open>type T server_port P\<close> yields the type and the port with the default
  settings; without a type the call still counts as valid and copies a type that was never stored,
  which has no defined result.\<close>

theorem ParseIniArgs_needs_type:
  assumes "w \<in> {''tcp'', ''serial''}" "v \<noteq> 0" "is_i32 v" "e \<noteq> EINVAL"
  shows "let port = ''server_port'' @ CHR '' '' # dec v @ '' '' in
    UNIV_ParseIniArgs server (''type'' @ CHR '' '' # w @ CHR '' '' # port) c e
      = Some (0, univ_start\<lparr>u_shutdown := u_shutdown c, u_increspterm := u_increspterm c\<rparr>, Some (w, v))
    \<and> UNIV_ParseIniArgs server port c e = None"
proof -
  let ?c = "univ_start\<lparr>u_shutdown := u_shutdown c, u_increspterm := u_increspterm c\<rparr>"
  let ?p = "''server_port'' @ CHR '' '' # dec v @ '' ''"
  have port: "ini_loop \<lparr>i_valid = b, i_type = tp, i_server = s, i_local = ?p, i_errno = e\<rparr>
    = Some (Inr \<lparr>i_valid = True, i_type = tp, i_server = v, i_local = [], i_errno = e\<rparr>)" for b tp s
  proof -
    have "ini_loop \<lparr>i_valid = b, i_type = tp, i_server = s, i_local = ?p, i_errno = e\<rparr>
      = ini_loop \<lparr>i_valid = True, i_type = tp, i_server = v, i_local = [], i_errno = e\<rparr>"
      by (rule ini_step [where tok = "''server_port''" and r = "dec v @ '' ''"])
        (simp_all add: plain_def is_blank_def is_break_def ini_words ini_port_def strncmp_eq_def
          parse_number [OF assms(2,3)] assms(4))
    then show ?thesis by (simp add: ini_end)
  qed
  have kind: "ini_loop \<lparr>i_valid = b, i_type = tp, i_server = s, i_local = ''type'' @ CHR '' '' # w @ CHR '' '' # ?p, i_errno = e\<rparr>
    = ini_loop \<lparr>i_valid = True, i_type = Some w, i_server = s, i_local = ?p, i_errno = e\<rparr>" for b tp s
  proof (rule ini_step [where tok = "''type''"])
    have "getToken 20 (w @ CHR '' '' # ?p) = Some (?p, w)"
      using assms(1) by (intro getToken_word) (auto simp: plain_def is_blank_def is_break_def)
    then show "ini_token ''type'' (\<lparr>i_valid = b, i_type = tp, i_server = s,
        i_local = ''type'' @ CHR '' '' # w @ CHR '' '' # ?p, i_errno = e\<rparr>\<lparr>i_local := w @ CHR '' '' # ?p\<rparr>)
      = Some (Inr \<lparr>i_valid = True, i_type = Some w, i_server = s, i_local = ?p, i_errno = e\<rparr>)"
      using assms(4) by (simp add: ini_words ini_type_def strncmp_eq_def)
  qed (simp_all add: plain_def is_blank_def is_break_def)
  have c: "c\<lparr>u_timeout := 2, u_retries := 2, u_maxrate := 100, u_cmdterm := LF, u_respterm := LF\<rparr> = ?c"
    by (cases c) (simp add: univ_start_def)
  show ?thesis
    unfolding Let_def UNIV_ParseIniArgs_def c kind port
    using parse_ini_line [OF assms(3)] assms(1) by simp
qed

theorem ParseIniArgs_needs_type_witness:
  "UNIV_ParseIniArgs True ''type tcp server_port 5100 '' univ_start 0 = Some (0, univ_start, Some (''tcp'', 5100))
    \<and> UNIV_ParseIniArgs True ''server_port 5100 '' univ_start 0 = None"
proof -
  have d: "dec 5100 = ''5100''" by (simp add: dec_def dec_nat.simps dig_def char_of_def bit_0)
  have c: "univ_start\<lparr>u_shutdown := u_shutdown univ_start, u_increspterm := u_increspterm univ_start\<rparr> = univ_start"
    by simp
  have p: "''server_port'' @ CHR '' '' # ''5100'' @ '' '' = ''server_port 5100 ''"
    "''type'' @ CHR '' '' # ''tcp'' @ CHR '' '' # ''server_port 5100 '' = ''type tcp server_port 5100 ''" by simp_all
  have "5100 \<noteq> (0 :: int)" "is_i32 5100" "0 \<noteq> EINVAL" by (simp_all add: is_i32_def)
  from ParseIniArgs_needs_type [of "''tcp''", OF insertI1 this, of True univ_start]
  show ?thesis unfolding d p c Let_def .
qed

section \<open>Lines from the hardware\<close>

lemma read_line_line:
  assumes "prev \<noteq> u_respterm c" "u_respterm c \<notin> set l" "length l < length ck"
  shows "read_line c t prev buf \<lparr>reads = map Rd l @ Rd (u_respterm c) # rs, clock = ck\<rparr>
    = Ret (1, buf @ take (1024 - length buf) l, \<lparr>reads = rs, clock = drop (Suc (length l)) ck\<rparr>)"
  using assms
proof (induction l arbitrary: prev buf ck)
  case Nil
  then obtain k ks where "ck = k # ks" by (cases ck) auto
  then show ?case using Nil
    by (subst read_line.simps) (simp add: UNIV_read_timeout_def read_line.simps [of c t "u_respterm c"])
next
  case (Cons x l)
  then obtain k ks where ck: "ck = k # ks" by (cases ck) auto
  let ?b = "if length buf < 1024 then buf @ [x] else buf"
  have "read_line c t prev buf \<lparr>reads = map Rd (x # l) @ Rd (u_respterm c) # rs, clock = ck\<rparr>
    = read_line c t x ?b \<lparr>reads = map Rd l @ Rd (u_respterm c) # rs, clock = ks\<rparr>"
    using Cons.prems by (subst read_line.simps) (auto simp: UNIV_read_timeout_def ck)
  also have "\<dots> = Ret (1, ?b @ take (1024 - length ?b) l, \<lparr>reads = rs, clock = drop (Suc (length l)) ks\<rparr>)"
    using Cons.prems ck by (intro Cons.IH) auto
  also have "?b @ take (1024 - length ?b) l = buf @ take (1024 - length buf) (x # l)"
    by (auto simp: take_Cons' Suc_diff_Suc)
  finally show ?case by (simp add: ck)
qed

text \<open>\<open>UNIV_Read\<close> returns the characters up to the response terminator, the first 1024 of them and
  the terminator itself when it is asked for, and leaves what follows unread; an array of \<open>BUFLEN\<close>
  characters is too short for the closing NUL of a line of 1024.\<close>

theorem UNIV_Read_line:
  assumes "u_respterm c \<noteq> NUL" "u_respterm c \<notin> set l" "length l < length ck"
  shows "let line = take 1024 l @ (if u_increspterm c \<noteq> 0 then [u_respterm c] else []) in
    UNIV_Read cap c t \<lparr>reads = map Rd l @ Rd (u_respterm c) # rs, clock = ck\<rparr>
      = (if length line < cap
         then Ret (int (length line), line, \<lparr>reads = rs, clock = drop (Suc (length l)) ck\<rparr>) else Overrun)"
  using read_line_line [of NUL c l ck t "[]" rs] assms by (simp add: UNIV_Read_def Let_def)

theorem UNIV_Read_line_witness:
  "UNIV_Read 1024 univ_start 2 \<lparr>reads = map Rd ''42'' @ [Rd LF, Rd CR], clock = [7, 7, 7]\<rparr>
      = Ret (2, ''42'', \<lparr>reads = [Rd CR], clock = []\<rparr>)
    \<and> UNIV_Read 1024 univ_start 2 \<lparr>reads = map Rd (replicate 1024 CHR ''x'') @ [Rd LF], clock = replicate 1025 7\<rparr> = Overrun"
  using UNIV_Read_line [of univ_start "''42''" "[7, 7, 7]" 1024 2 "[Rd CR]"]
    UNIV_Read_line [of univ_start "replicate 1024 CHR ''x''" "replicate 1025 7" 1024 2 "[]"]
  by (simp add: univ_start_def NUL_def)

lemma read_line_waits:
  "\<lbrakk>prev \<noteq> u_respterm c; \<forall>x \<in> set (reads h). x = Rd_eof \<or> (\<exists>y. y \<noteq> u_respterm c \<and> x = Rd y)\<rbrakk>
    \<Longrightarrow> read_line c t prev buf h = Waiting"
proof (induction "length (reads h)" arbitrary: h prev buf)
  case 0
  then show ?case by (subst read_line.simps) (simp add: UNIV_read_timeout_def split: list.splits)
next
  case (Suc n)
  then obtain x rs where r: "reads h = x # rs" by (cases "reads h") auto
  show ?case
  proof (cases "clock h")
    case Nil
    then show ?thesis using Suc.prems by (subst read_line.simps) (simp add: UNIV_read_timeout_def)
  next
    case (Cons k ks)
    obtain y where y: "UNIV_read_timeout t prev h = Ret (1, y, \<lparr>reads = rs, clock = ks\<rparr>)" "y \<noteq> u_respterm c"
      using Suc.prems r Cons by (auto simp: UNIV_read_timeout_def)
    show ?thesis using Suc.prems y Suc.hyps(1) [of "\<lparr>reads = rs, clock = ks\<rparr>" y] Suc.hyps(2) r
      by (subst read_line.simps) simp
  qed
qed

text \<open>C32: Once the device has closed its end in the middle of a line, \<open>read\<close> answers 0 for ever and
  \<open>UNIV_read_timeout\<close> reports that as a character: \<open>UNIV_Read\<close> has not returned after any number of
  answers, whatever the timeout and the clock.\<close>

theorem UNIV_Read_eof_never_returns:
  assumes "u_respterm c \<noteq> NUL" "u_respterm c \<notin> set l"
  shows "UNIV_Read cap c t \<lparr>reads = map Rd l @ replicate n Rd_eof, clock = ck\<rparr> = Waiting"
proof -
  have "read_line c t NUL [] \<lparr>reads = map Rd l @ replicate n Rd_eof, clock = ck\<rparr> = Waiting"
    using assms by (intro read_line_waits) auto
  then show ?thesis by (simp add: UNIV_Read_def)
qed

theorem UNIV_Read_eof_never_returns_witness:
  "UNIV_Read 1024 univ_start 2 \<lparr>reads = map Rd ''4'' @ replicate 1000 Rd_eof, clock = map int [0..<1000]\<rparr> = Waiting"
  by (rule UNIV_Read_eof_never_returns) (simp_all add: univ_start_def NUL_def)

text \<open>\<open>UNIV_Error\<close> never closes the device, whatever the error.\<close>

lemma UNIV_Error_forgets: "snd (UNIV_Error h e) = (- 1, False)"
  by (simp add: UNIV_Error_def Let_def)

lemma write_wait_result:
  "\<lbrakk>write_wait t st msg h ws ck = Ret (r, h', sent); \<forall>e. Wr_err e \<in> set ws \<longrightarrow> 0 < e\<rbrakk> \<Longrightarrow>
   (r = 0 \<and> h' = h \<and> (\<exists>n. Wr n \<in> set ws \<and> sent = take n msg)) \<or> (r < 0 \<and> h' = - 1 \<and> sent = [])"
  by (induction t st msg h ws ck rule: write_wait.induct)
    (auto simp: UNIV_Error_forgets split: if_splits list.splits)

text \<open>\<open>UNIV_Write\<close> reports success after one \<open>write\<close>, whatever part of the command the device took;
  every failure forgets the descriptor without closing it.\<close>

theorem UNIV_Write_result:
  "\<lbrakk>UNIV_Write value t h ws ck = Ret (r, h', sent); \<forall>e. Wr_err e \<in> set ws \<longrightarrow> 0 < e\<rbrakk> \<Longrightarrow>
   (r = 0 \<and> h' = h \<and> (\<exists>n. Wr n \<in> set ws \<and> sent = take n (value @ [LF, CR]))) \<or> (r < 0 \<and> h' = - 1 \<and> sent = [])"
  unfolding UNIV_Write_def by (cases ck) (simp, simp only: list.case, rule write_wait_result)

theorem UNIV_Write_result_witness:
  "UNIV_Write ''go'' 2 7 [Wr_err 11, Wr 1] [0, 1] = Ret (0, 7, ''g'')"
proof -
  let ?w = "UNIV_Write ''go'' 2 7 [Wr_err 11, Wr 1] [0, 1]"
  have w: "?w = Ret (0, 7, take 1 (''go'' @ [LF, CR]))" by (simp add: UNIV_Write_def)
  have "\<forall>e. Wr_err e \<in> set [Wr_err 11, Wr 1] \<longrightarrow> 0 < e" by simp
  from UNIV_Write_result [OF w this] show ?thesis unfolding w by simp
qed

end
