(* ===== verification/Univ_Server_Props.thy ===== *)
theory Univ_Server_Props imports Univ_Props
begin

text \<open>
  The socket loops transfer whole messages; the server keeps its table of connections well formed and
  serves it as a set of at most five clients.
\<close>

section \<open>Whole messages\<close>

lemma sock_write_loop_sent:
  "sock_write_loop n ws buf sent = Ret (r, out) \<Longrightarrow>
   \<exists>k. out = sent @ take k buf \<and> (r = int n \<and> out = sent @ buf \<or> r \<in> {0, - 1} \<and> buf \<noteq> [] \<and> k < length buf)"
proof (induction n ws buf sent rule: sock_write_loop.induct)
  case (3 n m ws c cs sent)
  show ?case
  proof (cases "m = 0")
    case False
    with 3 obtain k where "out = (sent @ take m (c # cs)) @ take k (drop m (c # cs))"
      "r = int n \<and> out = (sent @ take m (c # cs)) @ drop m (c # cs) \<or> r \<in> {0, - 1} \<and> k < length (drop m (c # cs))"
      by auto
    then show ?thesis
      by (intro exI [of _ "m + k"]) (auto simp: take_add [symmetric] simp del: take_Cons' drop_Cons')
  qed (use 3 in \<open>auto intro: exI [of _ 0]\<close>)
qed (auto split: if_splits intro: exI [of _ 0])

lemma sock_write_loop_completes:
  "\<lbrakk>\<forall>w \<in> set ws. w = Wr_err EINTR \<or> (\<exists>n. 0 < n \<and> w = Wr n);
    length buf \<le> length (filter (\<lambda>w. w \<noteq> Wr_err EINTR) ws)\<rbrakk>
    \<Longrightarrow> sock_write_loop n ws buf sent = Ret (int n, sent @ buf)"
  by (induction n ws buf sent rule: sock_write_loop.induct) auto

text \<open>\<open>sock_write\<close> sends the buffer from the start, without gaps, whatever parts the kernel takes; its
  return value is the length exactly when everything was sent, and it gets there if every answer is
  a positive count or \<open>EINTR\<close> and there are enough of them.\<close>

theorem sock_write_sends:
  "(\<forall>r out. sock_write ws buf = Ret (r, out) \<longrightarrow>
      (\<exists>k. out = take k buf) \<and> (r = int (length buf) \<longleftrightarrow> out = buf))
   \<and> ((\<forall>w \<in> set ws. w = Wr_err EINTR \<or> (\<exists>n. 0 < n \<and> w = Wr n))
      \<and> length buf \<le> length (filter (\<lambda>w. w \<noteq> Wr_err EINTR) ws) \<longrightarrow> sock_write ws buf = Ret (int (length buf), buf))"
proof (intro conjI allI impI)
  fix r out
  assume "sock_write ws buf = Ret (r, out)"
  from sock_write_loop_sent [OF this [unfolded sock_write_def]] obtain k where k: "out = take k buf"
    "r = int (length buf) \<and> out = buf \<or> r \<in> {0, - 1} \<and> buf \<noteq> [] \<and> k < length buf" by fastforce
  then show "\<exists>k. out = take k buf" by blast
  from k show "r = int (length buf) \<longleftrightarrow> out = buf" by auto
next
  assume "(\<forall>w \<in> set ws. w = Wr_err EINTR \<or> (\<exists>n. 0 < n \<and> w = Wr n))
    \<and> length buf \<le> length (filter (\<lambda>w. w \<noteq> Wr_err EINTR) ws)"
  then show "sock_write ws buf = Ret (int (length buf), buf)"
    using sock_write_loop_completes [of ws buf "length buf" "[]"] by (simp add: sock_write_def)
qed

theorem sock_write_sends_witness:
  "sock_write [Wr 2, Wr_err 4, Wr 1, Wr 9] ''abc'' = Ret (3, ''abc'')"
  using sock_write_sends [of "[Wr 2, Wr_err 4, Wr 1, Wr 9]" "''abc''"] by simp

text \<open>The payload of a chunk list, as \<open>read\<close> hands it out.\<close>

fun payload :: "rdn list \<Rightarrow> string" where
  "payload [] = []"
| "payload (Chunk s # rs) = s @ payload rs"
| "payload (Chunk_err e # rs) = payload rs"

lemma sock_read_loop_payload:
  assumes "\<forall>x \<in> set rs. x = Chunk_err EINTR \<or> (\<exists>s. s \<noteq> [] \<and> x = Chunk s)" "length got \<le> count"
  shows "sock_read_loop count (rs @ [Chunk []]) got =
    Ret (int (length (take count (got @ payload rs))), take count (got @ payload rs))"
  using assms
proof (induction rs arbitrary: got)
  case Nil
  then show ?case by (subst sock_read_loop.simps) auto
next
  case (Cons x rs)
  show ?case
  proof (cases "length got = count")
    case True
    then show ?thesis by (subst sock_read_loop.simps) simp
  next
    case False
    with Cons.prems(2) have lt: "length got < count" by simp
    consider "x = Chunk_err EINTR" | s where "s \<noteq> []" "x = Chunk s" using Cons.prems(1) by auto
    then show ?thesis
    proof cases
      case 1
      then show ?thesis using Cons lt by (subst sock_read_loop.simps) simp
    next
      case 2
      define s' where "s' = take (count - length got) s"
      have "s' \<noteq> []" "length (got @ s') \<le> count" using 2 lt by (auto simp: s'_def)
      moreover have "take count ((got @ s') @ payload rs) = take count (got @ s @ payload rs)"
        using lt by (cases "length s \<le> count - length got") (simp_all add: s'_def)
      ultimately show ?thesis using 2 lt Cons.IH [of "got @ s'"] Cons.prems(1)
        by (subst sock_read_loop.simps) (simp add: Let_def flip: s'_def)
    qed
  qed
qed

text \<open>\<open>sock_read\<close> reassembles a message of \<open>count\<close> bytes from chunks of any size, however often it
  is interrupted; it returns less only at the end of the stream.\<close>

theorem sock_read_reassembles:
  assumes "\<forall>x \<in> set rs. x = Chunk_err EINTR \<or> (\<exists>s. s \<noteq> [] \<and> x = Chunk s)"
  shows "let msg = take count (payload rs) in sock_read count (rs @ [Chunk []]) = Ret (int (length msg), msg)"
  using sock_read_loop_payload [OF assms, of "[]" count] by (simp add: sock_read_def Let_def)

theorem sock_read_reassembles_witness:
  "sock_read 5 [Chunk ''ab'', Chunk_err 4, Chunk ''cdef'', Chunk []] = Ret (5, ''abcde'')"
  using sock_read_reassembles [of "[Chunk ''ab'', Chunk_err 4, Chunk ''cdef'']" 5] by (simp add: Let_def)

section \<open>Lines of the clients\<close>

definition kept :: "string \<Rightarrow> string" where
  "kept l = filter (\<lambda>c. c \<noteq> LF \<and> c \<noteq> CR) l"

lemma kept_simps [simp]:
  "kept [] = []" "kept (c # l) = (if c \<noteq> LF \<and> c \<noteq> CR then c # kept l else kept l)" "kept (l @ m) = kept l @ kept m"
  by (simp_all add: kept_def)

lemma gets_loop_line:
  assumes "trm \<notin> set l" "length str \<le> n"
  shows "gets_loop trm n str (map Rd l @ Rd trm # rs) =
    (if 0 < n \<and> n \<le> length (str @ kept (l @ [trm])) then Overrun else Ret (Some (take n (str @ kept (l @ [trm]))), rs))"
  using assms
proof (induction l arbitrary: str)
  case Nil
  then show ?case by (auto simp: Let_def)
next
  case (Cons c l)
  let ?s = "if length str < n \<and> c \<noteq> LF \<and> c \<noteq> CR then str @ [c] else str"
  have "gets_loop trm n str (map Rd (c # l) @ Rd trm # rs) = gets_loop trm n ?s (map Rd l @ Rd trm # rs)"
    using Cons.prems by (auto simp: Let_def)
  also have "\<dots> = (if 0 < n \<and> n \<le> length (?s @ kept (l @ [trm])) then Overrun else Ret (Some (take n (?s @ kept (l @ [trm]))), rs))"
    using Cons.prems by (intro Cons.IH) auto
  also have "\<dots> = (if 0 < n \<and> n \<le> length (str @ kept ((c # l) @ [trm])) then Overrun else Ret (Some (take n (str @ kept ((c # l) @ [trm]))), rs))"
    using Cons.prems by auto
  finally show ?case .
qed

lemma gets_loop_partial: "trm \<notin> set l \<Longrightarrow> gets_loop trm n str (map Rd l) = Ret (None, [])"
  by (induction l arbitrary: str) (auto simp: Let_def)

lemma sock_gets_partial: "trm \<noteq> NUL \<Longrightarrow> trm \<notin> set l \<Longrightarrow> sock_gets trm n (map Rd l) = Ret (None, [])"
  by (simp add: sock_gets_def gets_loop_partial)

text \<open>A line of a client is delivered without carriage returns and line feeds when it has fewer than
  \<open>count\<close> other characters, and overruns the array by its NUL when it has more.  A line whose
  terminator has not arrived counts as a closed connection: the socket does not block.\<close>

theorem sock_gets_lines:
  assumes "trm \<noteq> NUL" "trm \<notin> set l" "0 < n"
  shows "let line = kept (l @ [trm]) in
    sock_gets trm n (map Rd l @ Rd trm # rs) = (if length line < n then Ret (Some line, rs) else Overrun)
    \<and> sock_gets trm n (map Rd l) = Ret (None, [])"
  using assms gets_loop_line [OF assms(2), of "[]" n rs] gets_loop_partial [OF assms(2)]
  by (simp only: sock_gets_def Let_def) (simp del: kept_simps)

theorem sock_gets_lines_witness:
  "sock_gets LF 80 (map Rd (''go'' @ [CR]) @ [Rd LF]) = Ret (Some ''go'', []) \<and> sock_gets LF 80 (map Rd ''go'') = Ret (None, [])"
  using sock_gets_lines [of LF "''go'' @ [CR]" 80 "[]"] sock_gets_lines [of LF "''go''" 80 "[]"] by (simp add: NUL_def Let_def)

section \<open>The table of connections\<close>

definition clients :: "server \<Rightarrow> int set" where
  "clients sv = set (s_tab sv) - {0}"

definition srv_inv :: "server \<Rightarrow> bool" where
  "srv_inv sv \<longleftrightarrow> length (s_tab sv) = 5 \<and> distinct (filter (\<lambda>fd. fd \<noteq> 0) (s_tab sv))
     \<and> (\<forall>fd \<in> set (s_tab sv). 0 \<le> fd) \<and> s_sock sv \<notin> set (s_tab sv) \<and> 0 < s_sock sv \<and> s_sock sv \<le> s_high sv"

text \<open>The kernel's contract: \<open>accept\<close> fails or returns a descriptor not in use.\<close>

definition fresh :: "event \<Rightarrow> server \<Rightarrow> bool" where
  "fresh ev sv \<longleftrightarrow> e_accept ev < 0 \<or> 0 < e_accept ev \<and> e_accept ev \<noteq> s_sock sv \<and> e_accept ev \<notin> clients sv"

text \<open>What the environment does in a turn in which nothing is readable.\<close>

definition quiet :: "event" where
  "quiet = \<lparr>e_open = - 1, e_ready = {}, e_select = True, e_accept = - 1, e_fcntl = True, e_data = (\<lambda>_. [])\<rparr>"

lemma tab5: "length t = 5 \<Longrightarrow> \<exists>a b c d e. t = [a, b, c, d, (e :: int)]"
  by (auto simp: length_Suc_conv eval_nat_numeral)

lemma for_n_5: "for_n 5 f s = f 4 (f 3 (f 2 (f 1 (f 0 s))))"
  by (simp add: eval_nat_numeral)

lemma for_opt_5:
  "for_opt 5 f s = do { a \<leftarrow> f 0 s; b \<leftarrow> f 1 a; c \<leftarrow> f 2 b; d \<leftarrow> f 3 c; f 4 d }"
  by (simp add: eval_nat_numeral for_opt_Suc)

text \<open>Before \<open>select\<close>: the descriptors waited for are the listening socket and the clients, and
  \<open>highsock\<close> bounds them.\<close>

lemma build_select_list_spec:
  assumes "srv_inv sv"
  obtains h where "build_select_list sv = sv\<lparr>s_socks := insert (s_sock sv) (clients sv), s_high := h\<rparr>"
    "\<forall>fd \<in> insert (s_sock sv) (clients sv). fd \<le> h"
proof -
  let ?S = "\<lambda>i. insert (s_sock sv) (set (take i (s_tab sv)) - {0})"
  let ?P = "\<lambda>i s. \<exists>h. s = sv\<lparr>s_socks := ?S i, s_high := h\<rparr> \<and> (\<forall>fd \<in> ?S i. fd \<le> h)"
  have len: "length (s_tab sv) = 5" using assms by (simp add: srv_inv_def)
  have "?P 5 (build_select_list sv)"
    unfolding build_select_list_def
  proof (rule for_n_invariant [where P = ?P])
    show "?P 0 (sv\<lparr>s_socks := {s_sock sv}\<rparr>)" using assms by (intro exI [of _ "s_high sv"]) (simp add: srv_inv_def)
  next
    fix i s assume i: "i < 5" "?P i s"
    then obtain h where s: "s = sv\<lparr>s_socks := ?S i, s_high := h\<rparr>" "\<forall>fd \<in> ?S i. fd \<le> h" by blast
    have tk: "set (take (Suc i) (s_tab sv)) = insert (s_tab sv ! i) (set (take i (s_tab sv)))"
      using i(1) len by (simp add: take_Suc_conv_app_nth)
    show "?P (Suc i) (if s_tab s ! i \<noteq> 0
        then s\<lparr>s_socks := insert (s_tab s ! i) (s_socks s), s_high := max (s_high s) (s_tab s ! i)\<rparr> else s)"
    proof (cases "s_tab sv ! i = 0")
      case True
      then show ?thesis using s by (intro exI [of _ h]) (simp add: tk)
    next
      case False
      then have "?S (Suc i) = insert (s_tab sv ! i) (?S i)" by (auto simp: tk)
      with False s show ?thesis by (intro exI [of _ "max h (s_tab sv ! i)"]) (simp add: le_max_iff_disj)
    qed
  qed
  with that len show thesis by (auto simp: clients_def)
qed

lemma find_slot_spec:
  assumes "length (s_tab sv) = 5" "cn \<noteq> - 1"
  shows "0 \<notin> set (s_tab sv) \<Longrightarrow> find_slot cn sv = (cn, sv)"
    "0 \<in> set (s_tab sv) \<Longrightarrow>
      \<exists>us vs. s_tab sv = us @ 0 # vs \<and> 0 \<notin> set us \<and> find_slot cn sv = (- 1, sv\<lparr>s_tab := us @ cn # vs\<rparr>)"
proof -
  obtain a b c d e where t: "s_tab sv = [a, b, c, d, e]" using tab5 [OF assms(1)] by blast
  show "0 \<notin> set (s_tab sv) \<Longrightarrow> find_slot cn sv = (cn, sv)"
    using assms(2) by (simp add: find_slot_def for_n_5 t)
  assume z: "0 \<in> set (s_tab sv)"
  consider "a = 0" | "a \<noteq> 0" "b = 0" | "a \<noteq> 0" "b \<noteq> 0" "c = 0" | "a \<noteq> 0" "b \<noteq> 0" "c \<noteq> 0" "d = 0"
    | "a \<noteq> 0" "b \<noteq> 0" "c \<noteq> 0" "d \<noteq> 0" "e = 0" using z t by auto
  then show "\<exists>us vs. s_tab sv = us @ 0 # vs \<and> 0 \<notin> set us \<and> find_slot cn sv = (- 1, sv\<lparr>s_tab := us @ cn # vs\<rparr>)"
  proof cases
    case 1
    then show ?thesis using assms(2) t by (intro exI [of _ "[]"] exI [of _ "[b, c, d, e]"]) (simp add: find_slot_def for_n_5)
  next
    case 2
    then show ?thesis using assms(2) t by (intro exI [of _ "[a]"] exI [of _ "[c, d, e]"]) (simp add: find_slot_def for_n_5)
  next
    case 3
    then show ?thesis using assms(2) t by (intro exI [of _ "[a, b]"] exI [of _ "[d, e]"]) (simp add: find_slot_def for_n_5)
  next
    case 4
    then show ?thesis using assms(2) t by (intro exI [of _ "[a, b, c]"] exI [of _ "[e]"]) (simp add: find_slot_def for_n_5)
  next
    case 5
    then show ?thesis using assms(2) t by (intro exI [of _ "[a, b, c, d]"] exI [of _ "[]"]) (simp add: find_slot_def for_n_5)
  qed
qed

lemma clients_card:
  assumes "srv_inv sv"
  shows "card (clients sv) = length (filter (\<lambda>fd. fd \<noteq> 0) (s_tab sv))"
    "card (clients sv) < 5 \<longleftrightarrow> 0 \<in> set (s_tab sv)"
proof -
  have "clients sv = set (filter (\<lambda>fd. fd \<noteq> 0) (s_tab sv))" by (auto simp: clients_def)
  then show c: "card (clients sv) = length (filter (\<lambda>fd. fd \<noteq> 0) (s_tab sv))"
    using assms distinct_card [of "filter (\<lambda>fd. fd \<noteq> 0) (s_tab sv)"] by (simp only: srv_inv_def)
  show "card (clients sv) < 5 \<longleftrightarrow> 0 \<in> set (s_tab sv)"
  proof
    assume "0 \<in> set (s_tab sv)"
    then have "length (filter (\<lambda>fd. fd \<noteq> 0) (s_tab sv)) < length (s_tab sv)" by (rule length_filter_less) simp
    with c assms show "card (clients sv) < 5" by (simp add: srv_inv_def)
  next
    assume l: "card (clients sv) < 5"
    show "0 \<in> set (s_tab sv)"
    proof (rule ccontr)
      assume "0 \<notin> set (s_tab sv)"
      then have "filter (\<lambda>fd. fd \<noteq> 0) (s_tab sv) = s_tab sv" by (auto simp: filter_id_conv)
      with c l assms show False by (simp add: srv_inv_def)
    qed
  qed
qed

lemma new_connection:
  assumes "srv_inv sv" "fresh ev sv" "0 \<le> e_accept ev" "e_fcntl ev"
  shows "let sv' = handle_new_connection ev sv; fd = e_accept ev in srv_inv sv' \<and>
    (if card (clients sv) < 5 then clients sv' = insert fd (clients sv) \<and> s_out sv' = s_out sv \<and> s_closed sv' = s_closed sv
     else clients sv' = clients sv \<and> s_out sv' = s_out sv @ [(fd, too_busy)] \<and> s_closed sv' = s_closed sv @ [fd])"
proof -
  let ?fd = "e_accept ev"
  have fd: "0 < ?fd" "?fd \<noteq> s_sock sv" "?fd \<notin> clients sv" "?fd \<noteq> - 1"
    using assms(2,3) by (auto simp: fresh_def)
  have len: "length (s_tab sv) = 5" using assms(1) by (simp add: srv_inv_def)
  show ?thesis
  proof (cases "0 \<in> set (s_tab sv)")
    case True
    from find_slot_spec(2) [OF len fd(4) True] obtain us vs where
      t: "s_tab sv = us @ 0 # vs" "find_slot ?fd sv = (- 1, sv\<lparr>s_tab := us @ ?fd # vs\<rparr>)" by blast
    have h: "handle_new_connection ev sv = sv\<lparr>s_tab := us @ ?fd # vs\<rparr>"
      using assms(3,4) t(2) by (simp add: handle_new_connection_def)
    have "?fd \<notin> set us" "?fd \<notin> set vs" using fd(1,3) t(1) by (auto simp: clients_def)
    then have "srv_inv (sv\<lparr>s_tab := us @ ?fd # vs\<rparr>)" "clients (sv\<lparr>s_tab := us @ ?fd # vs\<rparr>) = insert ?fd (clients sv)"
      using assms(1) fd t(1) by (auto simp: srv_inv_def clients_def)
    with True clients_card(2) [OF assms(1)] show ?thesis by (simp add: h Let_def)
  next
    case False
    from find_slot_spec(1) [OF len fd(4) False] assms(3,4) fd(4)
    have "handle_new_connection ev sv = (put ?fd too_busy sv)\<lparr>s_closed := s_closed sv @ [?fd]\<rparr>"
      by (simp add: handle_new_connection_def)
    with False clients_card(2) [OF assms(1)] assms(1) show ?thesis
      by (simp add: Let_def put_def srv_inv_def clients_def)
  qed
qed

text \<open>A new connection: the table implements a set of at most five clients.  With room the
  descriptor is added and nothing is sent; with five clients the newcomer is told so and closed, and
  the clients stay.\<close>

theorem new_connection_refines:
  assumes "srv_inv sv" "fresh ev sv" "0 \<le> e_accept ev" "e_fcntl ev"
  shows "let sv' = handle_new_connection ev sv; fd = e_accept ev in srv_inv sv' \<and>
    (if card (clients sv) < 5 then clients sv' = insert fd (clients sv) \<and> s_out sv' = s_out sv \<and> s_closed sv' = s_closed sv
     else clients sv' = clients sv \<and> s_out sv' = s_out sv @ [(fd, too_busy)] \<and> s_closed sv' = s_closed sv @ [fd])"
  by (rule new_connection [OF assms])

theorem new_connection_refines_witness:
  "let sv = (server_start univ_start 3)\<lparr>s_tab := [4, 5, 6, 7, 8]\<rparr>;
       sv' = handle_new_connection (quiet\<lparr>e_accept := 9\<rparr>) sv
   in clients sv' = {4, 5, 6, 7, 8} \<and> s_out sv' = [(9, too_busy)] \<and> s_closed sv' = [9]"
proof -
  let ?sv = "(server_start univ_start 3)\<lparr>s_tab := [4, 5, 6, 7, 8]\<rparr>"
  let ?ev = "quiet\<lparr>e_accept := 9\<rparr>"
  have h: "srv_inv ?sv" "fresh ?ev ?sv" "0 \<le> e_accept ?ev" "e_fcntl ?ev"
    by (simp_all add: srv_inv_def server_start_def fresh_def quiet_def clients_def)
  have c: "clients ?sv = {4, 5, 6, 7, 8}" "s_out ?sv = []" "s_closed ?sv = []" "e_accept ?ev = 9"
    by (auto simp: clients_def server_start_def quiet_def)
  have "card {4, 5, 6, 7, 8 :: int} = 5" by simp
  with new_connection_refines [OF h] show ?thesis unfolding Let_def c by simp
qed

section \<open>A turn of the main loop\<close>

lemma srv_inv_quiet:
  assumes "srv_inv sv" "s_tab sv' = s_tab sv" "s_sock sv' = s_sock sv" "s_high sv \<le> s_high sv'"
  shows "srv_inv sv'" "clients sv' = clients sv"
  using assms by (simp_all add: srv_inv_def clients_def)

lemma reopen_table: "s_tab (reopen ev sv) = s_tab sv" "s_sock (reopen ev sv) = s_sock sv" "s_high (reopen ev sv) = s_high sv"
  "s_socks (reopen ev sv) = s_socks sv" "s_cfg (reopen ev sv) = s_cfg sv" "s_out (reopen ev sv) = s_out sv"
  "s_closed (reopen ev sv) = s_closed sv" "s_exit (reopen ev sv) = s_exit sv" "s_errno (reopen ev sv) = s_errno sv"
  by (simp_all add: reopen_def)

lemma drop_slot:
  assumes "srv_inv sv" "i < 5" "s_tab sv ! i \<noteq> 0" "s_tab sv' = (s_tab sv)[i := 0]" "s_sock sv' = s_sock sv" "s_high sv' = s_high sv"
  shows "srv_inv sv'" "clients sv' = clients sv - {s_tab sv ! i}"
proof -
  have len: "i < length (s_tab sv)" using assms(1,2) by (simp add: srv_inv_def)
  define us x vs where "us = take i (s_tab sv)" and "x = s_tab sv ! i" and "vs = drop (Suc i) (s_tab sv)"
  have t: "s_tab sv = us @ x # vs" "s_tab sv' = us @ 0 # vs"
    using len assms(4) by (simp_all add: us_def x_def vs_def id_take_nth_drop upd_conv_take_nth_drop)
  with assms(1,5,6) show "srv_inv sv'" by (auto simp: srv_inv_def split: if_splits)
  have "x \<noteq> 0" using assms(3) by (simp add: x_def)
  with assms(1) t(1) have "x \<notin> set us" "x \<notin> set vs" by (auto simp: srv_inv_def)
  then show "clients sv' = clients sv - {s_tab sv ! i}" unfolding x_def [symmetric] using t by (auto simp: clients_def)
qed

text \<open>Serving a client answers it, or drops it.\<close>

lemma deal_with_data_table:
  assumes "srv_inv sv" "i < 5" "s_tab sv ! i \<noteq> 0" "deal_with_data ev i sv = Some sv'"
  shows "srv_inv sv'" "clients sv' \<subseteq> clients sv" "s_socks sv' = s_socks sv" "s_sock sv' = s_sock sv"
    "s_hFd sv' = s_hFd sv" "s_exit sv' = s_exit sv" "\<forall>j. j \<noteq> i \<longrightarrow> s_tab sv' ! j = s_tab sv ! j" "s_tab sv' ! i \<in> {0, s_tab sv ! i}"
proof -
  let ?fd = "s_tab sv ! i"
  have len: "i < length (s_tab sv)" using assms(1,2) by (simp add: srv_inv_def)
  consider "sv' = sv\<lparr>s_closed := s_closed sv @ [?fd], s_tab := (s_tab sv)[i := 0]\<rparr>"
    | p :: parse and r where "sv' = put ?fd [LF] (put ?fd r (sv\<lparr>s_cfg := p_cfg p, s_errno := p_errno p\<rparr>))"
    using assms(4) by (auto simp: deal_with_data_def Let_def split: run.splits prod.splits option.splits bind_splits)
  then have "srv_inv sv' \<and> clients sv' \<subseteq> clients sv \<and> s_socks sv' = s_socks sv \<and> s_sock sv' = s_sock sv
    \<and> s_hFd sv' = s_hFd sv \<and> s_exit sv' = s_exit sv \<and> (\<forall>j. j \<noteq> i \<longrightarrow> s_tab sv' ! j = s_tab sv ! j) \<and> s_tab sv' ! i \<in> {0, s_tab sv ! i}"
  proof cases
    case 1
    with drop_slot [OF assms(1-3), of sv'] len show ?thesis by auto
  next
    case 2
    with srv_inv_quiet [OF assms(1), of sv'] show ?thesis by (simp add: put_def)
  qed
  then show "srv_inv sv'" "clients sv' \<subseteq> clients sv" "s_socks sv' = s_socks sv" "s_sock sv' = s_sock sv"
    "s_hFd sv' = s_hFd sv" "s_exit sv' = s_exit sv" "\<forall>j. j \<noteq> i \<longrightarrow> s_tab sv' ! j = s_tab sv ! j" "s_tab sv' ! i \<in> {0, s_tab sv ! i}"
    by auto
qed

lemma serve_invariant:
  assumes "srv_inv sv" "0 \<notin> ready" "for_opt n (\<lambda>i sv. if s_tab sv ! i \<in> ready then deal_with_data ev i sv else Some sv) sv = Some sv'"
    "n \<le> 5"
  shows "srv_inv sv' \<and> clients sv' \<subseteq> clients sv \<and> s_sock sv' = s_sock sv \<and> s_hFd sv' = s_hFd sv"
  using assms(3,4)
proof (induction n arbitrary: sv')
  case 0
  then show ?case using assms(1) by simp
next
  case (Suc n)
  then obtain t where t: "for_opt n (\<lambda>i sv. if s_tab sv ! i \<in> ready then deal_with_data ev i sv else Some sv) sv = Some t"
    "(if s_tab t ! n \<in> ready then deal_with_data ev n t else Some t) = Some sv'"
    by (auto simp: for_opt_Suc split: bind_splits)
  from Suc.IH [OF t(1)] Suc.prems(2) have i: "srv_inv t" "clients t \<subseteq> clients sv" "s_sock t = s_sock sv" "s_hFd t = s_hFd sv" by auto
  show ?case
  proof (cases "s_tab t ! n \<in> ready")
    case True
    then have nz: "s_tab t ! n \<noteq> 0" using assms(2) by auto
    from t(2) True have d: "deal_with_data ev n t = Some sv'" by simp
    have "n < 5" using Suc.prems(2) by simp
    from deal_with_data_table [OF i(1) this nz d] i show ?thesis by auto
  next
    case False
    with t(2) i show ?thesis by simp
  qed
qed

lemma read_socks_invariant:
  assumes "srv_inv sv" "fresh ev sv" "s_socks sv = insert (s_sock sv) (clients sv)" "read_socks ev sv = Some sv'"
  shows "srv_inv sv' \<and> clients sv' \<subseteq> insert (e_accept ev) (clients sv) \<and> s_sock sv' = s_sock sv \<and> s_hFd sv' = s_hFd sv"
proof -
  let ?ready = "s_socks sv \<inter> e_ready ev"
  define t where "t = (if s_sock sv \<in> ?ready then handle_new_connection ev sv else sv)"
  have z: "0 \<notin> ?ready" using assms(1,3) by (auto simp: clients_def srv_inv_def)
  have s: "s_sock t = s_sock sv \<and> s_hFd t = s_hFd sv"
    by (auto simp: t_def handle_new_connection_def put_def find_slot_def for_n_5 split: prod.splits if_splits)
  have i: "srv_inv t \<and> clients t \<subseteq> insert (e_accept ev) (clients sv)"
  proof (cases "s_sock sv \<in> ?ready \<and> 0 \<le> e_accept ev \<and> e_fcntl ev")
    case True
    with new_connection [OF assms(1,2)] show ?thesis by (auto simp: t_def Let_def split: if_splits)
  next
    case False
    then have "t = sv \<or> t = sv\<lparr>s_exit := Some 1\<rparr>" by (auto simp: t_def handle_new_connection_def)
    with assms(1) show ?thesis by (auto simp: srv_inv_def clients_def)
  qed
  have r: "read_socks ev sv = (if s_exit t \<noteq> None then Some t
     else for_opt 5 (\<lambda>i sv. if s_tab sv ! i \<in> ?ready then deal_with_data ev i sv else Some sv) t)"
    by (simp only: read_socks_def t_def Let_def)
  show ?thesis
  proof (cases "s_exit t = None")
    case True
    with r assms(4) have "for_opt 5 (\<lambda>i sv. if s_tab sv ! i \<in> ?ready then deal_with_data ev i sv else Some sv) t = Some sv'" by simp
    from serve_invariant [OF conjunct1 [OF i] z this] i s show ?thesis by auto
  next
    case False
    with r assms(4) i s show ?thesis by simp
  qed
qed

lemma main_step_invariant:
  assumes "srv_inv sv" "fresh ev sv" "main_step ev sv = Some sv'"
  shows "srv_inv sv' \<and> clients sv' \<subseteq> insert (e_accept ev) (clients sv) \<and> s_sock sv' = s_sock sv"
proof -
  obtain h where b: "build_select_list sv = sv\<lparr>s_socks := insert (s_sock sv) (clients sv), s_high := h\<rparr>"
    "\<forall>fd \<in> insert (s_sock sv) (clients sv). fd \<le> h" using build_select_list_spec [OF assms(1)] .
  define t where "t = reopen ev (build_select_list sv)"
  have t: "srv_inv t" "clients t = clients sv" "fresh ev t" "s_sock t = s_sock sv" "s_socks t = insert (s_sock t) (clients t)"
    using assms(1,2) b by (auto simp: t_def srv_inv_def clients_def fresh_def reopen_table)
  consider "sv' = sv" | "sv' = sv\<lparr>s_exit := Some 0, s_closed := s_closed sv @ [s_hFd sv]\<rparr>" | "sv' = t\<lparr>s_exit := Some 1\<rparr>"
    | "sv' = t" | "read_socks ev t = Some sv'"
    using assms(3) unfolding main_step_def Let_def t_def [symmetric] by (metis option.inject)
  then show ?thesis
  proof cases
    case 5
    from read_socks_invariant [OF t(1,3,5) this] t show ?thesis by auto
  qed (use assms(1) t in \<open>auto simp: srv_inv_def clients_def\<close>)
qed

text \<open>The states a server gets to.\<close>

inductive served :: "server \<Rightarrow> server \<Rightarrow> bool" for s0 where
  start: "served s0 s0"
| turn: "served s0 sv \<Longrightarrow> fresh ev sv \<Longrightarrow> main_step ev sv = Some sv' \<Longrightarrow> served s0 sv'"

lemma served_inv:
  assumes "0 < k" "served (server_start c k) sv"
  shows "srv_inv sv \<and> s_sock sv = k \<and> card (clients sv) \<le> 5"
proof -
  from assms(2) have "srv_inv sv \<and> s_sock sv = k"
  proof induction
    case start
    then show ?case using assms(1) by (simp add: srv_inv_def server_start_def)
  next
    case (turn sv ev sv')
    with main_step_invariant [of sv ev sv'] show ?case by simp
  qed
  moreover have "card (clients sv) \<le> 5" if "srv_inv sv"
  proof -
    have "card (clients sv) \<le> length (s_tab sv)" unfolding clients_card(1) [OF that] by (rule length_filter_le)
    then show ?thesis using that by (simp add: srv_inv_def)
  qed
  ultimately show ?thesis by blast
qed

text \<open>C31: In every state the server reaches, the table has five slots, the clients in it are distinct
  and positive, none is the listening socket, and so there are at most five.\<close>

theorem server_invariant:
  assumes "0 < k" "served (server_start c k) sv"
  shows "srv_inv sv \<and> s_sock sv = k \<and> card (clients sv) \<le> 5"
  by (rule served_inv [OF assms])

theorem server_invariant_witness:
  "let sv = the (main_step (quiet\<lparr>e_ready := {3}, e_accept := 4\<rparr>) (server_start univ_start 3)) in
     srv_inv sv \<and> s_sock sv = 3 \<and> card (clients sv) \<le> 5"
proof -
  let ?ev = "quiet\<lparr>e_ready := {3}, e_accept := 4\<rparr>"
  have "main_step ?ev (server_start univ_start 3) \<noteq> None"
    by (simp add: main_step_def server_start_def univ_start_def Let_def reopen_def build_select_list_def for_n_5 quiet_def
        read_socks_def for_opt_5 handle_new_connection_def find_slot_def)
  then obtain sv where sv: "main_step ?ev (server_start univ_start 3) = Some sv" by blast
  have "fresh ?ev (server_start univ_start 3)" by (simp add: fresh_def quiet_def server_start_def clients_def)
  from served.turn [OF served.start this sv] have "served (server_start univ_start 3) sv" .
  from server_invariant [OF _ this] sv show ?thesis by simp
qed

text \<open>The descriptor of the hardware changes only while it is \<open>ERROR\<close>.\<close>

lemma main_step_hFd:
  assumes "srv_inv sv" "fresh ev sv" "main_step ev sv = Some sv'" "s_hFd sv \<noteq> - 1"
  shows "s_hFd sv' = s_hFd sv"
proof -
  obtain h where b: "build_select_list sv = sv\<lparr>s_socks := insert (s_sock sv) (clients sv), s_high := h\<rparr>"
    "\<forall>fd \<in> insert (s_sock sv) (clients sv). fd \<le> h" using build_select_list_spec [OF assms(1)] .
  let ?t = "build_select_list sv"
  have r: "reopen ev ?t = ?t" using assms(4) b by (simp add: reopen_def)
  have t: "srv_inv ?t" "fresh ev ?t" "s_socks ?t = insert (s_sock ?t) (clients ?t)" "s_hFd ?t = s_hFd sv"
    using assms(1,2) b by (auto simp: srv_inv_def clients_def fresh_def)
  show ?thesis
    using assms(3) read_socks_invariant [OF t(1-3), of sv'] t(4)
    by (auto simp: main_step_def Let_def r split: if_splits)
qed

text \<open>When opening the device fails with an error number other than 1, \<open>hFd\<close> is negative and not
  \<open>ERROR\<close>: no later turn tries again, whatever happens, and the device stays disconnected for good.\<close>

theorem failed_open_is_final:
  assumes "0 < k" "served (server_start c k) sv" "s_hFd sv < 0" "s_hFd sv \<noteq> - 1" "served sv sv'"
  shows "s_hFd sv' = s_hFd sv"
proof -
  from assms(5) have "served (server_start c k) sv' \<and> s_hFd sv' = s_hFd sv"
  proof induction
    case start
    then show ?case using assms(2) by simp
  next
    case (turn t ev u)
    with served_inv [OF assms(1), of c t] have "srv_inv t" by simp
    with main_step_hFd [OF this turn(2,3)] turn assms(4) served.turn [of "server_start c k" t ev u] show ?case by simp
  qed
  then show ?thesis by simp
qed

text \<open>A first turn with no client, in which the device cannot be opened.\<close>

lemma quiet_turn:
  assumes "srv_inv sv" "s_exit sv = None" "u_shutdown (s_cfg sv) = 0" "s_hFd sv = - 1" "s_hCt sv > 20"
  shows "\<exists>sv'. main_step (quiet\<lparr>e_open := r\<rparr>) sv = Some sv' \<and> s_hFd sv' = r"
proof -
  obtain h where "build_select_list sv = sv\<lparr>s_socks := insert (s_sock sv) (clients sv), s_high := h\<rparr>"
    using build_select_list_spec [OF assms(1)] .
  with assms show ?thesis by (simp add: main_step_def Let_def quiet_def reopen_def)
qed

theorem failed_open_is_final_witness:
  "\<exists>sv sv'. served (server_start univ_start 3) sv \<and> s_hFd sv = - 111 \<and> served sv sv' \<and> s_hFd sv' = - 111"
proof -
  let ?s = "server_start univ_start 3"
  have inv: "srv_inv ?s" by (simp add: srv_inv_def server_start_def)
  obtain sv where sv: "main_step (quiet\<lparr>e_open := - 111\<rparr>) ?s = Some sv" "s_hFd sv = - 111"
    using quiet_turn [OF inv, of "- 111"] by (auto simp: server_start_def univ_start_def)
  have "fresh (quiet\<lparr>e_open := - 111\<rparr>) t" for t by (simp add: fresh_def quiet_def)
  from served.turn [OF served.start this sv(1)] have s: "served ?s sv" .
  from failed_open_is_final [OF _ s _ _ served.start] sv(2) have "s_hFd sv = - 111" by simp
  with s served.start [of sv] show ?thesis by blast
qed

section \<open>One client at a time\<close>

lemma slot_unique:
  assumes "distinct (filter (\<lambda>fd. fd \<noteq> 0) t)" "i < length t" "j < length t" "t ! i = t ! j" "t ! i \<noteq> (0 :: int)"
  shows "i = j"
proof (rule ccontr)
  have "\<not> (i < j \<and> t ! i = t ! j \<and> j < length t \<and> t ! i \<noteq> 0)" for i j
  proof
    assume a: "i < j \<and> t ! i = t ! j \<and> j < length t \<and> t ! i \<noteq> 0"
    then have "i < length t" by simp
    then have e: "take i t @ t ! i # drop (Suc i) t = t" by (rule id_take_nth_drop [symmetric])
    have "distinct (filter (\<lambda>fd. fd \<noteq> 0) (take i t @ t ! i # drop (Suc i) t))" unfolding e by (rule assms(1))
    moreover have "t ! i \<in> set (drop (Suc i) t)"
      using a by (auto simp: in_set_conv_nth intro!: exI [of _ "j - Suc i"])
    ultimately show False using a by simp
  qed
  moreover assume "i \<noteq> j"
  ultimately show False using assms by (metis nat_neq_iff)
qed

lemma serve_one:
  assumes "srv_inv t" "i < 5" "s_tab t ! i = fd" "fd \<noteq> 0" "deal_with_data ev i t = Some u"
  shows "for_opt 5 (\<lambda>i sv. if s_tab sv ! i \<in> {fd} then deal_with_data ev i sv else Some sv) t = Some u"
proof -
  have len: "length (s_tab t) = 5" and d: "distinct (filter (\<lambda>fd. fd \<noteq> 0) (s_tab t))" using assms(1) by (simp_all add: srv_inv_def)
  have other: "s_tab t ! j \<noteq> fd" if "j < 5" "j \<noteq> i" for j
    using slot_unique [OF d, of i j] that assms(2-4) len by auto
  have same: "\<forall>j. j \<noteq> i \<longrightarrow> s_tab u ! j = s_tab t ! j"
    using deal_with_data_table(7) [OF assms(1,2) _ assms(5)] assms(3,4) by simp
  have "m \<le> 5 \<Longrightarrow> for_opt m (\<lambda>i sv. if s_tab sv ! i \<in> {fd} then deal_with_data ev i sv else Some sv) t
    = Some (if m \<le> i then t else u)" for m
  proof (induction m)
    case 0
    show ?case by simp
  next
    case (Suc m)
    consider "m < i" | "m = i" | "i < m" by linarith
    then show ?case
    proof cases
      case 1
      with Suc other [of m] show ?thesis by (simp add: for_opt_Suc)
    next
      case 2
      with Suc assms(3,5) show ?thesis by (simp add: for_opt_Suc)
    next
      case 3
      with Suc other [of m] same show ?thesis by (simp add: for_opt_Suc)
    qed
  qed
  from this [of 5] assms(2) show ?thesis by simp
qed

text \<open>A turn in which exactly one client is readable is \<open>deal_with_data\<close> for it.\<close>

lemma turn_of_one:
  assumes "srv_inv sv" "s_exit sv = None" "u_shutdown (s_cfg sv) = 0" "e_select ev" "fd \<in> clients sv"
    "e_ready ev \<inter> insert (s_sock sv) (clients sv) = {fd}"
  obtains i h where "i < 5" "s_tab sv ! i = fd" "fd \<noteq> 0"
    "\<And>u. deal_with_data ev i (reopen ev (sv\<lparr>s_socks := insert (s_sock sv) (clients sv), s_high := h\<rparr>)) = Some u
      \<Longrightarrow> main_step ev sv = Some u"
    "srv_inv (reopen ev (sv\<lparr>s_socks := insert (s_sock sv) (clients sv), s_high := h\<rparr>))"
proof -
  obtain h where b: "build_select_list sv = sv\<lparr>s_socks := insert (s_sock sv) (clients sv), s_high := h\<rparr>"
    "\<forall>fd \<in> insert (s_sock sv) (clients sv). fd \<le> h" using build_select_list_spec [OF assms(1)] .
  define t where "t = reopen ev (sv\<lparr>s_socks := insert (s_sock sv) (clients sv), s_high := h\<rparr>)"
  have t: "srv_inv t" "s_tab t = s_tab sv" "s_sock t = s_sock sv" "s_exit t = None" "s_socks t \<inter> e_ready ev = {fd}"
    using assms(1,2,6) b(2) by (auto simp: t_def srv_inv_def reopen_table)
  have ns: "s_sock t \<noteq> fd" "fd \<noteq> 0" using assms(1,5) t(3) by (auto simp: clients_def srv_inv_def)
  obtain i where i: "i < 5" "s_tab sv ! i = fd"
    using assms(1,5) by (auto simp: clients_def srv_inv_def in_set_conv_nth)
  have "main_step ev sv = Some u" if "deal_with_data ev i t = Some u" for u
  proof -
    have "main_step ev sv = read_socks ev t"
      using assms(2-4) t(5) unfolding main_step_def b(1) t_def [symmetric] Let_def by simp
    also have "\<dots> = Some u"
      using serve_one [OF t(1) i(1) _ ns(2) that] i(2) t ns(1) unfolding read_socks_def Let_def by simp
    finally show ?thesis .
  qed
  with that i ns(2) t(1) show thesis unfolding t_def by blast
qed

text \<open>A client of which a part of a line has arrived is disconnected: the read that finds no more
  characters is taken for the end of the connection.  Nothing is sent to it.\<close>

theorem partial_line_disconnects:
  assumes "srv_inv sv" "s_exit sv = None" "u_shutdown (s_cfg sv) = 0" "e_select ev" "fd \<in> clients sv"
    "e_ready ev \<inter> insert (s_sock sv) (clients sv) = {fd}"
    "e_data ev fd = map Rd l" "u_cmdterm (s_cfg sv) \<notin> set l" "u_cmdterm (s_cfg sv) \<noteq> NUL"
  shows "\<exists>sv'. main_step ev sv = Some sv' \<and> clients sv' = clients sv - {fd} \<and> s_out sv' = s_out sv
    \<and> s_closed sv' = s_closed sv @ [fd]"
proof -
  obtain i h where i: "i < 5" "s_tab sv ! i = fd" "fd \<noteq> 0"
    "\<And>u. deal_with_data ev i (reopen ev (sv\<lparr>s_socks := insert (s_sock sv) (clients sv), s_high := h\<rparr>)) = Some u
      \<Longrightarrow> main_step ev sv = Some u" "srv_inv (reopen ev (sv\<lparr>s_socks := insert (s_sock sv) (clients sv), s_high := h\<rparr>))"
    using turn_of_one [OF assms(1-6)] by blast
  define t where "t = reopen ev (sv\<lparr>s_socks := insert (s_sock sv) (clients sv), s_high := h\<rparr>)"
  have t: "s_tab t = s_tab sv" "s_cfg t = s_cfg sv" "s_out t = s_out sv" "s_closed t = s_closed sv"
    by (simp_all add: t_def reopen_table)
  let ?u = "t\<lparr>s_closed := s_closed t @ [fd], s_tab := (s_tab t)[i := 0]\<rparr>"
  have "sock_gets (u_cmdterm (s_cfg sv)) 80 (map Rd l) = Ret (None, [])"
    using sock_gets_partial [OF assms(9,8)] .
  then have "deal_with_data ev i t = Some ?u"
    using t i(2) assms(7) by (simp add: deal_with_data_def)
  with i(4) have "main_step ev sv = Some ?u" by (simp add: t_def)
  moreover have "clients ?u = clients t - {fd}"
    using drop_slot(2) [OF i(5) i(1), of ?u] i(2,3) t by (simp add: t_def [symmetric])
  ultimately show ?thesis using t by (auto simp: clients_def)
qed

theorem partial_line_disconnects_witness:
  "let sv = (server_start univ_start 3)\<lparr>s_tab := [4, 0, 0, 0, 0]\<rparr>;
       ev = quiet\<lparr>e_ready := {4}, e_data := (\<lambda>_. map Rd ''UNIV g'')\<rparr>
   in \<exists>sv'. main_step ev sv = Some sv' \<and> clients sv' = {} \<and> s_out sv' = [] \<and> s_closed sv' = [4]"
proof -
  let ?sv = "(server_start univ_start 3)\<lparr>s_tab := [4, 0, 0, 0, 0]\<rparr>"
  let ?ev = "quiet\<lparr>e_ready := {4}, e_data := (\<lambda>_. map Rd ''UNIV g'')\<rparr>"
  have h: "srv_inv ?sv" "s_exit ?sv = None" "u_shutdown (s_cfg ?sv) = 0" "e_select ?ev" "4 \<in> clients ?sv"
    "e_ready ?ev \<inter> insert (s_sock ?sv) (clients ?sv) = {4}" "e_data ?ev 4 = map Rd ''UNIV g''"
    "u_cmdterm (s_cfg ?sv) \<notin> set ''UNIV g''" "u_cmdterm (s_cfg ?sv) \<noteq> NUL"
    by (simp_all add: srv_inv_def server_start_def univ_start_def quiet_def clients_def NUL_def)
  have "clients ?sv = {4}" "s_out ?sv = []" "s_closed ?sv = []" by (auto simp: clients_def server_start_def)
  with partial_line_disconnects [OF h] show ?thesis unfolding Let_def by simp
qed

lemma plain_set: "list_all plain l \<Longrightarrow> LF \<notin> set l \<and> CR \<notin> set l"
  by (induction l) (auto simp: plain_def is_break_def Let_def)

lemma kept_plain: "list_all plain l \<Longrightarrow> kept l = l"
  by (induction l) (auto simp: plain_def is_break_def Let_def)

text \<open>A client that sends \<open>UNIV maxrate v\<close> changes that setting and no other, gets the confirmation and
  an empty line, and stays connected.\<close>

theorem client_sets_maxrate:
  assumes "srv_inv sv" "s_exit sv = None" "u_shutdown (s_cfg sv) = 0" "e_select ev" "fd \<in> clients sv"
    "e_ready ev \<inter> insert (s_sock sv) (clients sv) = {fd}"
    "u_cmdterm (s_cfg sv) \<in> {LF, CR}" "0 < v" "is_i32 v"
    "e_data ev fd = map Rd (''UNIV maxrate '' @ dec v @ '' '') @ Rd (u_cmdterm (s_cfg sv)) # rs"
  shows "\<exists>sv'. main_step ev sv = Some sv' \<and> clients sv' = clients sv \<and> s_cfg sv' = (s_cfg sv)\<lparr>u_maxrate := v\<rparr>
    \<and> s_out sv' = s_out sv @ [(fd, ''maxreqtime now is '' @ dec v @ '' [ms]'' @ [LF]), (fd, [LF])]"
proof -
  let ?l = "''UNIV maxrate '' @ dec v @ '' ''"
  obtain i h where i: "i < 5" "s_tab sv ! i = fd" "fd \<noteq> 0"
    "\<And>u. deal_with_data ev i (reopen ev (sv\<lparr>s_socks := insert (s_sock sv) (clients sv), s_high := h\<rparr>)) = Some u
      \<Longrightarrow> main_step ev sv = Some u" "srv_inv (reopen ev (sv\<lparr>s_socks := insert (s_sock sv) (clients sv), s_high := h\<rparr>))"
    using turn_of_one [OF assms(1-6)] by blast
  define t where "t = reopen ev (sv\<lparr>s_socks := insert (s_sock sv) (clients sv), s_high := h\<rparr>)"
  have t: "s_tab t = s_tab sv" "s_cfg t = s_cfg sv" "s_out t = s_out sv"
    by (simp_all add: t_def reopen_table)
  have "LF \<notin> set ?l \<and> CR \<notin> set ?l" using plain_set [OF plain_dec, of v] by simp
  with assms(7) have trm: "u_cmdterm (s_cfg sv) \<noteq> NUL" "u_cmdterm (s_cfg sv) \<notin> set ?l"
    by (elim insertE emptyE; simp add: NUL_def)+
  have line: "kept (?l @ [u_cmdterm (s_cfg sv)]) = ?l"
    using assms(7) kept_plain [OF plain_dec, of v] by (elim insertE emptyE; simp)
  have "length ?l < 80" using dec_short [OF assms(9)] by simp
  then have g: "sock_gets (u_cmdterm (s_cfg sv)) 80 (e_data ev fd) = Ret (Some ?l, rs)"
    using sock_gets_lines [OF trm, of 80 rs] assms(10) unfolding line Let_def by simp
  have w: "first_word ?l = ''UNIV''" by (simp add: first_word_def is_space_def)
  have "UNIV_ParseLocalCmd True \<lparr>p_cfg = s_cfg sv, p_local = ''UNIV'' @ CHR '' '' # ''maxrate'' @ CHR '' '' # dec v @ CHR '' '' # [],
      p_errno = s_errno t, p_out = None\<rparr>
    = Some \<lparr>p_cfg = (s_cfg sv)\<lparr>u_maxrate := v\<rparr>, p_local = [], p_errno = s_errno t,
        p_out = Some (''maxreqtime now is '' @ dec v @ '' [ms]'' @ [LF])\<rparr>"
    unfolding parse_settings(7) parse_settings(2) [OF assms(8,9)] parse_end ..
  then have c: "UNIV_IsLocalCmd True ?l (s_cfg sv) (s_errno t)
    = Some (True, \<lparr>p_cfg = (s_cfg sv)\<lparr>u_maxrate := v\<rparr>, p_local = [], p_errno = s_errno t,
        p_out = Some (''maxreqtime now is '' @ dec v @ '' [ms]'' @ [LF])\<rparr>)"
    using w by (simp add: UNIV_IsLocalCmd_def)
  have "deal_with_data ev i t = Some (put fd [LF] (put fd (''maxreqtime now is '' @ dec v @ '' [ms]'' @ [LF])
      (t\<lparr>s_cfg := (s_cfg sv)\<lparr>u_maxrate := v\<rparr>, s_errno := s_errno t\<rparr>)))"
    unfolding deal_with_data_def t i(2) g Let_def run.case prod.case option.case c by simp
  with i(4) t show ?thesis unfolding t_def [symmetric] by (auto simp: put_def clients_def)
qed

theorem client_sets_maxrate_witness:
  "let sv = (server_start univ_start 3)\<lparr>s_tab := [4, 0, 0, 0, 0]\<rparr>;
       ev = quiet\<lparr>e_ready := {4}, e_data := (\<lambda>_. map Rd (''UNIV maxrate '' @ dec 5 @ '' '') @ [Rd LF])\<rparr>
   in \<exists>sv'. main_step ev sv = Some sv' \<and> clients sv' = {4} \<and> s_cfg sv' = univ_start\<lparr>u_maxrate := 5\<rparr>"
proof -
  let ?sv = "(server_start univ_start 3)\<lparr>s_tab := [4, 0, 0, 0, 0]\<rparr>"
  let ?ev = "quiet\<lparr>e_ready := {4}, e_data := (\<lambda>_. map Rd (''UNIV maxrate '' @ dec 5 @ '' '') @ [Rd LF])\<rparr>"
  have h: "srv_inv ?sv" "s_exit ?sv = None" "u_shutdown (s_cfg ?sv) = 0" "e_select ?ev" "4 \<in> clients ?sv"
    "e_ready ?ev \<inter> insert (s_sock ?sv) (clients ?sv) = {4}" "u_cmdterm (s_cfg ?sv) \<in> {LF, CR}" "0 < (5 :: int)" "is_i32 5"
    "e_data ?ev 4 = map Rd (''UNIV maxrate '' @ dec 5 @ '' '') @ Rd (u_cmdterm (s_cfg ?sv)) # []"
    by (simp_all add: srv_inv_def server_start_def univ_start_def quiet_def clients_def is_i32_def)
  have "clients ?sv = {4}" "s_cfg ?sv = univ_start" by (auto simp: clients_def server_start_def)
  with client_sets_maxrate [OF h] show ?thesis unfolding Let_def by auto
qed

end
