(* ===== verification/MathParser.thy ===== *)
theory MathParser imports Prelude
begin

text \<open>
  \<open>Common/private/c/mathparser/MathParserLib.c\<close>: the precedence parser of arithmetic expressions, and
  their evaluation.  A \<open>double\<close> is a value of any type \<open>'v\<close>; \<open>sscanf ("%lf")\<close>, the operators on
  doubles and the functions of \<open>libm\<close> are the fields of a record.
\<close>

section \<open>Expressions\<close>

datatype binop = wEXP | wMUL | wDIV | wADD | wSUB

text \<open>\<open>struct node\<close>, with \<open>Null\<close> for a null pointer.\<close>

datatype 'v node =
    Null
  | Num 'v
  | Var string
  | Func string "'v node"
  | Neg "'v node"
  | Bin binop "'v node" "'v node"

record 'v fp =
  f_scan :: "string \<Rightarrow> 'v"
  f_pow :: "'v \<Rightarrow> 'v \<Rightarrow> 'v"
  f_mul :: "'v \<Rightarrow> 'v \<Rightarrow> 'v"
  f_div :: "'v \<Rightarrow> 'v \<Rightarrow> 'v"
  f_add :: "'v \<Rightarrow> 'v \<Rightarrow> 'v"
  f_sub :: "'v \<Rightarrow> 'v \<Rightarrow> 'v"
  f_neg :: "'v \<Rightarrow> 'v"
  f_sin :: "'v \<Rightarrow> 'v"
  f_cos :: "'v \<Rightarrow> 'v"
  f_tan :: "'v \<Rightarrow> 'v"
  f_zero :: 'v

section \<open>The parser\<close>

definition is_digit :: "char \<Rightarrow> bool" where
  "is_digit c = (let n = (of_char c :: nat) in 48 \<le> n \<and> n \<le> 57)"

definition is_letter :: "char \<Rightarrow> bool" where
  "is_letter c = (let n = (of_char c :: nat) in 65 \<le> n \<and> n \<le> 90 \<or> 97 \<le> n \<and> n \<le> 122 \<or> n = 95)"

definition num_start :: "char \<Rightarrow> bool" where
  "num_start c \<longleftrightarrow> is_digit c \<or> c = CHR ''.''"

definition num_char :: "char \<Rightarrow> bool" where
  "num_char c \<longleftrightarrow> is_digit c \<or> c = CHR ''.'' \<or> c = CHR ''e'' \<or> c = CHR ''E''"

definition name_char :: "char \<Rightarrow> bool" where
  "name_char c \<longleftrightarrow> is_letter c \<or> is_digit c"

definition skip :: "string \<Rightarrow> string" where
  "skip s = dropWhile (\<lambda>c. c = CHR '' '' \<or> c = CHR 0x09) s"

text \<open>A missing parenthesis is only reported on the terminal.\<close>

definition close_paren :: "string \<Rightarrow> string" where
  "close_paren s = (let t = skip s in if t \<noteq> [] \<and> hd t = CHR '')'' then tl t else t)"

definition op_of :: "char \<Rightarrow> binop option" where
  "op_of c =
     (if c = CHR ''^'' then Some wEXP else if c = CHR ''*'' then Some wMUL
      else if c = CHR ''/'' then Some wDIV else if c = CHR ''+'' then Some wADD
      else if c = CHR ''-'' then Some wSUB else None)"

fun opprec :: "binop \<Rightarrow> nat" where
  "opprec wEXP = 40"
| "opprec wMUL = 20"
| "opprec wDIV = 20"
| "opprec wADD = 10"
| "opprec wSUB = 10"

definition assoc :: "binop \<Rightarrow> bool" where
  "assoc op \<longleftrightarrow> op = wEXP"

text \<open>\<open>if(opprec>prec || assoc && opprec>=prec)\<close>\<close>

definition binds :: "nat \<Rightarrow> binop \<Rightarrow> bool" where
  "binds prec op \<longleftrightarrow> opprec op > prec \<or> assoc op \<and> opprec op \<ge> prec"

text \<open>The result is the node, the rest of \<open>str\<close> and \<open>err\<close>.  \<open>Overflow\<close>: a name of 32 characters or more
  is written past \<open>char name[32]\<close>.  \<open>No_fuel\<close>: the bound on the recursion was too small.\<close>

datatype 'v parsed = No_fuel | Overflow | Parsed "'v node" string bool

primrec and_then :: "'v parsed \<Rightarrow> ('v node \<Rightarrow> string \<Rightarrow> bool \<Rightarrow> 'v parsed) \<Rightarrow> 'v parsed" where
  "and_then No_fuel k = No_fuel"
| "and_then Overflow k = Overflow"
| "and_then (Parsed nd s e) k = k nd s e"

lemma and_then_cong [fundef_cong]:
  "p = p' \<Longrightarrow> (\<And>nd s e. p' = Parsed nd s e \<Longrightarrow> k nd s e = k' nd s e) \<Longrightarrow> and_then p k = and_then p' k'"
  by (cases p') auto

text \<open>\<open>doparse\<close>, and \<open>ops\<close>, its code from the label \<open>loop\<close> on.\<close>

fun doparse :: "(string \<Rightarrow> 'v) \<Rightarrow> nat \<Rightarrow> nat \<Rightarrow> string \<Rightarrow> bool \<Rightarrow> 'v parsed"
  and ops :: "(string \<Rightarrow> 'v) \<Rightarrow> nat \<Rightarrow> nat \<Rightarrow> 'v node \<Rightarrow> string \<Rightarrow> bool \<Rightarrow> 'v parsed" where
  "doparse scan 0 prec str err = No_fuel"
| "doparse scan (Suc n) prec str err =
     (case skip str of
        [] \<Rightarrow> Parsed Null [] True
      | c # cs \<Rightarrow>
          if num_start c then ops scan n prec (Num (scan (c # cs))) (dropWhile num_char cs) err
          else if is_letter c then
            (let name = takeWhile name_char (c # cs); s = skip (dropWhile name_char cs) in
             if length name \<ge> 32 then Overflow
             else if s \<noteq> [] \<and> hd s = CHR ''('' then
               and_then (doparse scan n 0 (tl s) err) (\<lambda>r s err. ops scan n prec (Func name r) (close_paren s) err)
             else ops scan n prec (Var name) s err)
          else if c = CHR ''('' then
            and_then (doparse scan n 0 cs err) (\<lambda>nd s err. ops scan n prec nd (close_paren s) err)
          else if c = CHR ''-'' then
            and_then (doparse scan n 30 cs err) (\<lambda>r s err. ops scan n prec (Neg r) s err)
          else Parsed Null (c # cs) True)"
| "ops scan 0 prec node str err = No_fuel"
| "ops scan (Suc n) prec node str err =
     (case skip str of
        [] \<Rightarrow> Parsed node [] err
      | c # cs \<Rightarrow>
          (case op_of c of
             None \<Rightarrow> Parsed node (c # cs) err
           | Some op \<Rightarrow>
               if binds prec op
               then and_then (doparse scan n (opprec op) cs err) (\<lambda>r s err. ops scan n prec (Bin op node r) s err)
               else Parsed node (c # cs) err))"

text \<open>\<open>parse\<close>: as many steps as there are characters are enough.\<close>

definition parse_expr :: "(string \<Rightarrow> 'v) \<Rightarrow> string \<Rightarrow> 'v parsed" where
  "parse_expr scan s = doparse scan (Suc (length s)) 0 s False"

section \<open>Evaluation\<close>

text \<open>Following a null pointer is undefined.  The argument of an unknown function is not evaluated.\<close>

fun ev :: "'v fp \<Rightarrow> 'v \<Rightarrow> 'v node \<Rightarrow> 'v option" where
  "ev f var Null = None"
| "ev f var (Num v) = Some v"
| "ev f var (Var name) = Some (if name = ''x'' then var else f_zero f)"
| "ev f var (Func name r) =
     (if name = ''sin'' then map_option (f_sin f) (ev f var r)
      else if name = ''cos'' then map_option (f_cos f) (ev f var r)
      else if name = ''tan'' then map_option (f_tan f) (ev f var r)
      else Some (f_zero f))"
| "ev f var (Neg r) = map_option (f_neg f) (ev f var r)"
| "ev f var (Bin op l r) =
     (case (ev f var l, ev f var r) of
        (Some a, Some b) \<Rightarrow>
          Some (case op of wEXP \<Rightarrow> f_pow f a b | wMUL \<Rightarrow> f_mul f a b | wDIV \<Rightarrow> f_div f a b
                | wADD \<Rightarrow> f_add f a b | wSUB \<Rightarrow> f_sub f a b)
      | _ \<Rightarrow> None)"

text \<open>The return value and \<open>*resp\<close>; \<open>char buf[128]\<close>.\<close>

definition MP_evaluate :: "'v fp \<Rightarrow> 'v \<Rightarrow> string \<Rightarrow> (int \<times> 'v option) option" where
  "MP_evaluate f variable expression =
     (if expression = [] then Some (- EINVAL, None)
      else if length expression \<ge> 128 then None
      else case parse_expr (f_scan f) expression of
        Parsed node _ err \<Rightarrow>
          (case ev f variable node of
             None \<Rightarrow> None
           | Some v \<Rightarrow> Some (if err then 1 else 0, Some v))
      | _ \<Rightarrow> None)"

section \<open>The recursion ends\<close>

lemma skip_length: "length (skip s) \<le> length s"
  by (simp add: skip_def length_dropWhile_le)

lemma close_length: "length (close_paren s) \<le> length s"
  using skip_length [of s] by (auto simp: close_paren_def Let_def)

lemma skip_Cons: "skip s = c # cs \<Longrightarrow> length cs < length s"
  using skip_length [of s] by simp

text \<open>With more steps than characters neither function runs out, and neither gives characters back.\<close>

definition returns :: "string \<Rightarrow> 'v parsed \<Rightarrow> bool" where
  "returns s p \<longleftrightarrow> p \<noteq> No_fuel \<and> (\<forall>nd r e. p = Parsed nd r e \<longrightarrow> length r \<le> length s)"

lemma returns_Parsed [simp]: "returns s (Parsed nd r e) \<longleftrightarrow> length r \<le> length s" "returns s Overflow"
  by (auto simp: returns_def)

lemma returns_mono: "returns r p \<Longrightarrow> length r \<le> length s \<Longrightarrow> returns s p"
  by (auto simp: returns_def dest: le_trans)

lemma returns_and_then:
  assumes "returns s p" "\<And>nd r e. length r \<le> length s \<Longrightarrow> returns r (k nd r e)"
  shows "returns s (and_then p k)"
proof (cases p)
  case (Parsed nd r e)
  with assms(1) have "length r \<le> length s" by simp
  with returns_mono [OF assms(2) [OF this] this] Parsed show ?thesis by simp
qed (use assms(1) in \<open>auto simp: returns_def\<close>)

lemma rest_lengths:
  "length (dropWhile P cs) \<le> length cs" "length (skip (dropWhile P cs)) \<le> length cs"
  using skip_length [of "dropWhile P cs"] length_dropWhile_le [of P cs] by auto

lemma parse_returns:
  "length s < n \<Longrightarrow> returns s (doparse scan n p s e)"
  "length s < n \<Longrightarrow> returns s (ops scan n p node s e)"
proof (induction n arbitrary: s p e node)
  case 0
  {case 1 then show ?case by simp}
  {case 2 then show ?case by simp}
next
  case (Suc n)
  {
    case 1
    show ?case
    proof (cases "skip s")
      case (Cons c cs)
      with 1 skip_Cons [OF Cons] have l: "length cs < n" "length cs < length s" by simp_all
      have num: "returns s (ops scan n p nd (dropWhile num_char cs) e)" for nd
        using Suc.IH(2) rest_lengths(1) [of num_char cs] l
        by (meson le_less_trans less_imp_le returns_mono)
      have var: "returns s (ops scan n p nd (skip (dropWhile name_char cs)) e)" for nd
        using Suc.IH(2) rest_lengths(2) [of name_char cs] l
        by (meson le_less_trans less_imp_le returns_mono)
      have sub: "returns s (and_then (doparse scan n q r e) (\<lambda>nd s e. ops scan n p (f nd) (g s) e))"
        if "length r < n" "length r \<le> length s" "\<And>s. length (g s) \<le> length s" for q r f and g :: "string \<Rightarrow> string"
      proof (rule returns_mono [OF returns_and_then that(2)])
        show "returns r (doparse scan n q r e)" by (rule Suc.IH(1) [OF that(1)])
        fix nd :: "'a node" and s' :: string and e' :: bool assume "length s' \<le> length r"
        then show "returns s' (ops scan n p (f nd) (g s') e')"
          using that(1,3) Suc.IH(2) by (meson le_less_trans returns_mono)
      qed
      have "length (tl (skip (dropWhile name_char cs))) < n" "length (tl (skip (dropWhile name_char cs))) \<le> length s"
        using rest_lengths(2) [of name_char cs] l by auto
      with num var sub [where g = close_paren] sub [where g = "\<lambda>s. s"] l close_length skip_length [of s] Cons
      show ?thesis by (cases "skip (dropWhile name_char cs)") (simp_all add: Let_def less_imp_le)
    qed simp
  }
  {
    case 2
    show ?case
    proof (cases "skip s")
      case (Cons c cs)
      with 2 skip_Cons [OF Cons] have l: "length cs < n" "length cs < length s" by simp_all
      have "returns s (and_then (doparse scan n q cs e) (\<lambda>r s e. ops scan n p (Bin op node r) s e))" for q op
      proof (rule returns_mono [OF returns_and_then])
        show "returns cs (doparse scan n q cs e)" by (rule Suc.IH(1) [OF l(1)])
        fix nd :: "'a node" and s' :: string and e' :: bool assume "length s' \<le> length cs"
        then show "returns s' (ops scan n p (Bin op node nd) s' e')" using l(1) Suc.IH(2) by simp
      qed (use l in simp)
      with Cons skip_length [of s] show ?thesis by (simp split: option.splits)
    qed simp
  }
qed

text \<open>More steps than needed change nothing.\<close>

definition no_less :: "'v parsed \<Rightarrow> 'v parsed \<Rightarrow> bool" where
  "no_less p q \<longleftrightarrow> p = No_fuel \<or> p = q"

lemma no_less_refl: "no_less p p"
  by (simp add: no_less_def)

lemma no_less_and_then:
  assumes "no_less p q" "\<And>nd s e. no_less (k nd s e) (l nd s e)"
  shows "no_less (and_then p k) (and_then q l)"
proof (cases p)
  case (Parsed nd s e)
  with assms(1) have "q = Parsed nd s e" by (auto simp: no_less_def)
  with Parsed assms(2) [of nd s e] show ?thesis by simp
qed (use assms(1) in \<open>auto simp: no_less_def\<close>)

lemma no_less_if: "no_less p q \<Longrightarrow> no_less p' q' \<Longrightarrow> no_less (if b then p else p') (if b then q else q')"
  by simp

lemma parse_no_less:
  "n \<le> m \<Longrightarrow> no_less (doparse scan n p s e) (doparse scan m p s e)"
  "n \<le> m \<Longrightarrow> no_less (ops scan n p node s e) (ops scan m p node s e)"
proof (induction n arbitrary: s p e node m)
  case 0
  {case 1 then show ?case by (simp add: no_less_def)}
  {case 2 then show ?case by (simp add: no_less_def)}
next
  case (Suc n)
  {
    case 1
    then obtain m' where m: "m = Suc m'" "n \<le> m'" by (cases m) auto
    note ih = Suc.IH(1) [OF m(2)] Suc.IH(2) [OF m(2)]
    show ?case unfolding m(1) doparse.simps Let_def
      by (cases "skip s"; simp only: list.case; intro no_less_refl no_less_if no_less_and_then ih)
  }
  {
    case 2
    then obtain m' where m: "m = Suc m'" "n \<le> m'" by (cases m) auto
    note ih = Suc.IH(1) [OF m(2)] Suc.IH(2) [OF m(2)]
    show ?case
    proof (cases "skip s")
      case (Cons c cs)
      show ?thesis unfolding m(1) ops.simps Cons list.case
        by (cases "op_of c"; simp only: option.case; intro no_less_refl no_less_if no_less_and_then ih)
    qed (simp add: m(1) no_less_refl)
  }
qed

lemma parse_more:
  "doparse scan n p s e \<noteq> No_fuel \<Longrightarrow> n \<le> m \<Longrightarrow> doparse scan m p s e = doparse scan n p s e"
  "ops scan n p node s e \<noteq> No_fuel \<Longrightarrow> n \<le> m \<Longrightarrow> ops scan m p node s e = ops scan n p node s e"
  using parse_no_less(1) [of n m scan p s e] parse_no_less(2) [of n m scan p node s e] by (auto simp: no_less_def)

declare doparse.simps [simp del] ops.simps [simp del]

end
