(* ===== verification/MathParser_Props.thy ===== *)
theory MathParser_Props imports MathParser CText
begin

text \<open>
  The expression parser: it always returns; it inverts a printer that writes only the parentheses the
  precedences ask for; a missing operand is never reported.  The printed form of numbers is a locale.
\<close>

section \<open>The parser without its bound\<close>

definition pexp :: "(string \<Rightarrow> 'v) \<Rightarrow> nat \<Rightarrow> string \<Rightarrow> bool \<Rightarrow> 'v parsed" where
  "pexp scan p s e = doparse scan (Suc (length s)) p s e"

definition pops :: "(string \<Rightarrow> 'v) \<Rightarrow> nat \<Rightarrow> 'v node \<Rightarrow> string \<Rightarrow> bool \<Rightarrow> 'v parsed" where
  "pops scan p node s e = ops scan (Suc (length s)) p node s e"

lemma enough:
  "length s < n \<Longrightarrow> doparse scan n p s e = pexp scan p s e"
  "length s < n \<Longrightarrow> ops scan n p node s e = pops scan p node s e"
  using parse_returns(1) [of s "Suc (length s)" scan p e] parse_returns(2) [of s "Suc (length s)" scan p node e]
    parse_more(1) [of scan "Suc (length s)" p s e n] parse_more(2) [of scan "Suc (length s)" p node s e n]
  by (auto simp: pexp_def pops_def returns_def)

lemma pexp_rest: "pexp scan p s e = Parsed nd r e' \<Longrightarrow> length r \<le> length s"
  using parse_returns(1) [of s "Suc (length s)" scan p e] by (simp add: pexp_def)

lemma and_then_enough:
  assumes "length s < n" "\<And>r. length (g r) \<le> length r"
  shows "and_then (doparse scan n q s e) (\<lambda>nd r e. ops scan n p (f nd) (g r) e)
    = and_then (pexp scan q s e) (\<lambda>nd r e. pops scan p (f nd) (g r) e)"
  unfolding enough(1) [OF assms(1)]
proof (rule and_then_cong [OF refl])
  fix nd r e' assume "pexp scan q s e = Parsed nd r e'"
  from pexp_rest [OF this] assms(1) assms(2) [of r] show "ops scan n p (f nd) (g r) e' = pops scan p (f nd) (g r) e'"
    by (intro enough) simp
qed

lemma skip_nonblank: "c \<noteq> CHR '' '' \<Longrightarrow> c \<noteq> CHR 0x09 \<Longrightarrow> skip (c # cs) = c # cs"
  by (simp add: skip_def)

lemma pops_stop:
  "skip s = [] \<or> op_of (hd (skip s)) = None \<or> \<not> binds p (the (op_of (hd (skip s)))) \<Longrightarrow> pops scan p node s e = Parsed node (skip s) e"
  by (cases "skip s") (auto simp: pops_def ops.simps split: option.splits)

lemma pops_op:
  assumes "skip s = c # cs" "op_of c = Some op" "binds p op"
  shows "pops scan p node s e = and_then (pexp scan (opprec op) cs e) (\<lambda>r s e. pops scan p (Bin op node r) s e)"
  using and_then_enough [of cs "length s" "\<lambda>s. s" scan "opprec op" e p "Bin op node"] skip_Cons [OF assms(1)] assms
  unfolding pops_def [of scan p node s] by (simp add: ops.simps)

lemma pexp_num:
  assumes "skip s = c # cs" "num_start c"
  shows "pexp scan p s e = pops scan p (Num (scan (c # cs))) (dropWhile num_char cs) e"
  using assms skip_Cons [OF assms(1)] rest_lengths(1) [of num_char cs] enough(2) [of "dropWhile num_char cs" "length s"]
  unfolding pexp_def by (simp add: doparse.simps)

lemma pexp_paren:
  assumes "skip s = CHR ''('' # cs"
  shows "pexp scan p s e = and_then (pexp scan 0 cs e) (\<lambda>nd s e. pops scan p nd (close_paren s) e)"
  using assms skip_Cons [OF assms(1)] and_then_enough [of cs "length s" close_paren scan 0 e p "\<lambda>nd. nd"] close_length
  unfolding pexp_def [of scan p s] by (simp add: doparse.simps num_start_def is_digit_def is_letter_def)

lemma pexp_neg:
  assumes "skip s = CHR ''-'' # cs"
  shows "pexp scan p s e = and_then (pexp scan 30 cs e) (\<lambda>r s e. pops scan p (Neg r) s e)"
  using assms skip_Cons [OF assms(1)] and_then_enough [of cs "length s" "\<lambda>s. s" scan 30 e p Neg]
  unfolding pexp_def [of scan p s] by (simp add: doparse.simps num_start_def is_digit_def is_letter_def)

lemma letter_not_start: "is_letter c \<Longrightarrow> \<not> num_start c"
  by (auto simp: num_start_def is_digit_def is_letter_def Let_def)

lemma pexp_name:
  assumes "skip s = c # cs" "is_letter c" "length (takeWhile name_char (c # cs)) < 32"
  defines "name \<equiv> takeWhile name_char (c # cs)" and "t \<equiv> skip (dropWhile name_char cs)"
  shows "pexp scan p s e =
    (if t \<noteq> [] \<and> hd t = CHR ''(''
     then and_then (pexp scan 0 (tl t) e) (\<lambda>r s e. pops scan p (Func name r) (close_paren s) e)
     else pops scan p (Var name) t e)"
proof -
  have l: "length t < length s" "length (tl t) < length s"
    using skip_Cons [OF assms(1)] rest_lengths(2) [of name_char cs] by (auto simp: t_def)
  show ?thesis
    using assms(1-3) letter_not_start [OF assms(2)] and_then_enough [OF l(2) close_length, of scan 0 e p "Func name"] enough(2) [OF l(1), of scan p "Var name" e]
    unfolding pexp_def [of scan p s] doparse.simps(2) name_def by (simp only: list.case Let_def if_False t_def [symmetric]) (cases "t = []"; simp)
qed

section \<open>A printer\<close>

fun op_char :: "binop \<Rightarrow> char" where
  "op_char wEXP = CHR ''^''"
| "op_char wMUL = CHR ''*''"
| "op_char wDIV = CHR ''/''"
| "op_char wADD = CHR ''+''"
| "op_char wSUB = CHR ''-''"

text \<open>The printer follows the rules of algebra on its own account: \<open>+\<close> and \<open>-\<close> are weaker than \<open>*\<close> and
  \<open>/\<close>, these than a minus sign (30), and that than \<open>^\<close>; equals group to the left, \<open>^\<close> to the right.
  \<open>takes p op\<close>: in a context of weight \<open>p\<close> the operator still belongs to the operand.\<close>

fun weight :: "binop \<Rightarrow> nat" where
  "weight wEXP = 40"
| "weight wMUL = 20"
| "weight wDIV = 20"
| "weight wADD = 10"
| "weight wSUB = 10"

fun takes :: "nat \<Rightarrow> binop \<Rightarrow> bool" where
  "takes p wEXP = (p \<le> 40)"
| "takes p op = (p < weight op)"

lemma weight_opprec [simp]: "weight op = opprec op"
  by (cases op) simp_all

lemma takes_binds [simp]: "takes p op = binds p op"
  by (cases op) (auto simp: binds_def assoc_def)

text \<open>What can stand as an operand of a context of weight \<open>p\<close> without parentheses, and the contexts
  that are open at the right end of a printed expression.\<close>

fun fits :: "nat \<Rightarrow> 'v node \<Rightarrow> bool" where
  "fits p (Bin op l r) = takes p op"
| "fits p t = True"

fun edges :: "'v node \<Rightarrow> nat list" where
  "edges (Neg r) = 30 # (if fits 30 r then edges r else [])"
| "edges (Bin op l r) = weight op # (if fits (weight op) r then edges r else [])"
| "edges t = []"

definition left_fits :: "binop \<Rightarrow> 'v node \<Rightarrow> bool" where
  "left_fits op l \<longleftrightarrow> list_all (\<lambda>q. \<not> takes q op) (edges l)"

definition paren :: "bool \<Rightarrow> string \<Rightarrow> string" where
  "paren b s = (if b then s else CHR ''('' # s @ '')'')"

fun unparse :: "('v \<Rightarrow> string) \<Rightarrow> 'v node \<Rightarrow> string" where
  "unparse prt Null = []"
| "unparse prt (Num v) = prt v"
| "unparse prt (Var name) = name"
| "unparse prt (Func name a) = name @ CHR ''('' # unparse prt a @ '')''"
| "unparse prt (Neg r) = CHR ''-'' # paren (fits 30 r) (unparse prt r)"
| "unparse prt (Bin op l r) =
     paren (left_fits op l) (unparse prt l) @ op_char op # paren (fits (weight op) r) (unparse prt r)"

definition name_ok :: "string \<Rightarrow> bool" where
  "name_ok s \<longleftrightarrow> s \<noteq> [] \<and> is_letter (hd s) \<and> list_all name_char s \<and> length s < 32"

fun printable :: "'v node \<Rightarrow> bool" where
  "printable Null = False"
| "printable (Num v) = True"
| "printable (Var name) = name_ok name"
| "printable (Func name a) = (name_ok name \<and> printable a)"
| "printable (Neg r) = printable r"
| "printable (Bin op l r) = (printable l \<and> printable r)"

text \<open>What may follow a printed expression, and what ends the operators of the context \<open>q\<close>.\<close>

definition delim :: "string \<Rightarrow> bool" where
  "delim r \<longleftrightarrow> r = [] \<or> hd r = CHR '')'' \<or> op_of (hd r) \<noteq> None"

definition stops :: "nat \<Rightarrow> string \<Rightarrow> bool" where
  "stops q r \<longleftrightarrow> r = [] \<or> op_of (hd r) = None \<or> \<not> binds q (the (op_of (hd r)))"

lemma op_of_op_char [simp]: "op_of (op_char op) = Some op"
  by (cases op) (simp_all add: op_of_def)

lemma delim_chars:
  assumes "delim (c # r)"
  shows "\<not> num_char c" "\<not> name_char c" "c \<noteq> CHR '' ''" "c \<noteq> CHR 0x09" "c \<noteq> CHR ''(''"
proof -
  have "c \<in> {CHR '')'', CHR ''^'', CHR ''*'', CHR ''/'', CHR ''+'', CHR ''-''}"
    using assms by (auto simp: delim_def op_of_def split: if_splits)
  then have "\<not> num_char c \<and> \<not> name_char c \<and> c \<noteq> CHR '' '' \<and> c \<noteq> CHR 0x09 \<and> c \<noteq> CHR ''(''"
    by (auto simp: num_char_def name_char_def is_digit_def is_letter_def)
  then show "\<not> num_char c" "\<not> name_char c" "c \<noteq> CHR '' ''" "c \<noteq> CHR 0x09" "c \<noteq> CHR ''(''" by auto
qed

lemma skip_delim: "delim r \<Longrightarrow> skip r = r"
  by (cases r) (simp_all add: skip_def delim_chars)

lemma delim_simps [simp]: "delim []" "delim (CHR '')'' # r)" "delim (op_char op # r)"
  by (simp_all add: delim_def)

lemma stops_simps [simp]: "stops q []" "stops q (CHR '')'' # r)" "stops q (op_char op # r) \<longleftrightarrow> \<not> binds q op"
  by (simp add: stops_def, simp add: stops_def op_of_def, simp add: stops_def)

lemma pops_ends: "delim r \<Longrightarrow> stops q r \<Longrightarrow> pops scan q nd r e = Parsed nd r e"
  using pops_stop [of r q scan nd e] by (auto simp: skip_delim stops_def)

lemma close_paren_here [simp]: "close_paren (CHR '')'' # r) = r"
  by (simp add: close_paren_def skip_def)

lemma letter_nonblank: "is_letter c \<Longrightarrow> c \<noteq> CHR '' '' \<and> c \<noteq> CHR 0x09"
  by (auto simp: is_letter_def)

lemma name_scanned:
  assumes "name_ok (c # cs)" "r = [] \<or> \<not> name_char (hd r)"
  shows "takeWhile name_char (c # cs @ r) = c # cs" "dropWhile name_char (cs @ r) = r"
  using assms by (cases r; simp add: name_ok_def list_all_iff dropWhile_append2 takeWhile_append2)+

text \<open>An operator that binds in the context of a left operand keeps that operand bound.\<close>

lemma left_fits_fits: "left_fits op l \<Longrightarrow> binds p op \<Longrightarrow> fits p l"
  by (cases l) (auto simp: left_fits_def binds_def)

lemma binds_0: "binds 0 op"
  by (cases op) (simp_all add: binds_def)

lemma fits_0: "fits 0 t"
  by (cases t) (simp_all add: binds_0)

section \<open>Round trip\<close>

lemma num_nonblank: "num_start c \<Longrightarrow> c \<noteq> CHR '' '' \<and> c \<noteq> CHR 0x09"
  by (auto simp: num_start_def is_digit_def)

text \<open>Numbers are printed to texts that \<open>sscanf ("%lf")\<close> reads back, whatever follows.\<close>

locale number_text =
  fixes scan :: "string \<Rightarrow> 'v" and prt :: "'v \<Rightarrow> string"
  assumes scan_prt: "r = [] \<or> \<not> num_char (hd r) \<Longrightarrow> scan (prt v @ r) = v"
    and prt_chars: "list_all num_char (prt v)"
    and prt_first: "prt v \<noteq> [] \<and> num_start (hd (prt v))"
begin

lemma parenthesised:
  assumes "\<And>r. pexp scan 0 (s @ CHR '')'' # r) e = Parsed t (CHR '')'' # r) e"
  shows "pexp scan q (paren False s @ r) e = pops scan q t r e"
  using pexp_paren [of "paren False s @ r" "s @ CHR '')'' # r" scan q e] assms
  by (simp add: paren_def skip_nonblank)

text \<open>In a context it fits, and before an operator none of its open ends takes, a printed expression
  is read as itself.\<close>

lemma pexp_unparse:
  assumes "printable t" "fits p t" "delim r" "list_all (\<lambda>q. stops q r) (edges t)"
  shows "pexp scan p (unparse prt t @ r) e = pops scan p t r e"
  using assms
proof (induction t arbitrary: p r)
  case (Num v)
  obtain c cs where c: "prt v = c # cs" "num_start c" using prt_first [of v] by (cases "prt v") auto
  have r: "r = [] \<or> \<not> num_char (hd r)" using Num.prems(3) delim_chars(1) by (cases r) auto
  have "dropWhile num_char (cs @ r) = r"
    using prt_chars [of v] c r by (cases r) (simp_all add: list_all_iff dropWhile_append2)
  with pexp_num [of "c # cs @ r" c "cs @ r" scan p e] c scan_prt [OF r, of v] num_nonblank [OF c(2)] show ?case
    by (simp add: skip_nonblank)
next
  case (Var name)
  then obtain c cs where c: "name = c # cs" "is_letter c" by (cases name) (auto simp: name_ok_def)
  have r: "r = [] \<or> \<not> name_char (hd r)" using Var.prems(3) delim_chars(2) by (cases r) auto
  note sc = name_scanned [OF _ r, of c cs]
  have "hd r \<noteq> CHR ''(''" if "r \<noteq> []" using that Var.prems(3) delim_chars(5) by (cases r) auto
  with pexp_name [of "c # cs @ r" c "cs @ r" scan p e] Var.prems c sc letter_nonblank [OF c(2)] skip_delim [OF Var.prems(3)]
  show ?case by (auto simp: skip_nonblank name_ok_def)
next
  case (Func name a)
  then obtain c cs where c: "name = c # cs" "is_letter c" by (cases name) (auto simp: name_ok_def)
  let ?r = "CHR ''('' # unparse prt a @ CHR '')'' # r"
  have n: "?r = [] \<or> \<not> name_char (hd ?r)" by (simp add: name_char_def is_letter_def is_digit_def)
  note sc = name_scanned [OF _ n, of c cs]
  have "pexp scan 0 (unparse prt a @ CHR '')'' # r) e = pops scan 0 a (CHR '')'' # r) e"
    using Func.prems by (intro Func.IH) (simp_all add: fits_0 list_all_iff)
  then have "pexp scan 0 (unparse prt a @ CHR '')'' # r) e = Parsed a (CHR '')'' # r) e" by (simp add: pops_ends)
  with pexp_name [of "c # cs @ ?r" c "cs @ ?r" scan p e] Func.prems c sc letter_nonblank [OF c(2)]
  show ?case by (simp add: skip_nonblank name_ok_def)
next
  case (Neg a)
  have "pexp scan 30 (paren (fits 30 a) (unparse prt a) @ r) e = pops scan 30 a r e"
  proof (cases "fits 30 a")
    case True
    with Neg show ?thesis by (simp add: paren_def)
  next
    case False
    have "pexp scan 0 (unparse prt a @ CHR '')'' # s) e = Parsed a (CHR '')'' # s) e" for s
      using Neg.prems(1) Neg.IH [of 0 "CHR '')'' # s"] by (simp add: fits_0 list_all_iff pops_ends)
    from parenthesised [OF this] False show ?thesis by simp
  qed
  also have "\<dots> = Parsed a r e" using Neg.prems by (simp add: pops_ends)
  finally show ?case using pexp_neg [of "unparse prt (Neg a) @ r" _ scan p e] by (simp add: skip_nonblank)
next
  case (Bin op a b)
  have A: "pexp scan p (paren (left_fits op a) (unparse prt a) @ s) e = pops scan p a s e"
    if "delim s" "left_fits op a \<Longrightarrow> list_all (\<lambda>q. stops q s) (edges a)" for s
  proof (cases "left_fits op a")
    case True
    with Bin.prems that left_fits_fits [OF True] Bin.IH(1) [of p s] show ?thesis by (simp add: paren_def)
  next
    case False
    have "pexp scan 0 (unparse prt a @ CHR '')'' # s) e = Parsed a (CHR '')'' # s) e" for s
      using Bin.prems(1) Bin.IH(1) [of 0 "CHR '')'' # s"] by (simp add: fits_0 list_all_iff pops_ends)
    from parenthesised [OF this] False show ?thesis by simp
  qed
  have "pexp scan (opprec op) (paren (fits (opprec op) b) (unparse prt b) @ r) e = pops scan (opprec op) b r e"
  proof (cases "fits (opprec op) b")
    case True
    with Bin.prems Bin.IH(2) [of "opprec op" r] show ?thesis by (simp add: paren_def)
  next
    case False
    have "pexp scan 0 (unparse prt b @ CHR '')'' # s) e = Parsed b (CHR '')'' # s) e" for s
      using Bin.prems(1) Bin.IH(2) [of 0 "CHR '')'' # s"] by (simp add: fits_0 list_all_iff pops_ends)
    from parenthesised [OF this] False show ?thesis by simp
  qed
  also have "\<dots> = Parsed b r e" using Bin.prems by (simp add: pops_ends)
  finally have B: "pexp scan (opprec op) (paren (fits (opprec op) b) (unparse prt b) @ r) e = Parsed b r e" .
  let ?s = "op_char op # paren (fits (opprec op) b) (unparse prt b) @ r"
  have "pexp scan p (unparse prt (Bin op a b) @ r) e = pops scan p a ?s e"
    using A [of ?s] by (simp add: left_fits_def)
  also have "\<dots> = pops scan p (Bin op a b) r e"
    using pops_op [of ?s "op_char op" "tl ?s" op p scan a e] Bin.prems(2) B by (simp add: skip_delim)
  finally show ?case .
qed simp

lemma parse_unparse:
  "printable t \<Longrightarrow> parse_expr scan (unparse prt t) = Parsed t [] False"
  using pexp_unparse [of t 0 "[]" False]
  by (simp add: fits_0 list_all_iff pops_ends parse_expr_def pexp_def)

end

text \<open>Numbers in decimal are such a text.\<close>

lemma digits_stop: "r = [] \<or> \<not> num_char (hd r) \<Longrightarrow> digits 10 n r = (n, r)"
  by (cases r) (auto simp: digit_of_def num_char_def is_digit_def Let_def split: if_splits)

lemma num_char_dig: "d < 10 \<Longrightarrow> num_char (dig d) \<and> num_start (dig d)"
  by (simp add: num_char_def num_start_def is_digit_def of_char_dig)

lemma num_char_dec_nat: "list_all num_char (dec_nat n)"
proof (induction n rule: dec_nat.induct)
  case (1 n)
  then show ?case by (cases "n < 10") (simp_all add: dec_nat.simps [of n] num_char_dig)
qed

interpretation decimal: number_text "\<lambda>s. fst (digits 10 0 s)" dec_nat
proof
  fix r n assume "r = [] \<or> \<not> num_char (hd r)"
  from digits_stop [OF this] digits_dec_nat [of 0 n r] show "fst (digits 10 0 (dec_nat n @ r)) = n" by auto
next
  fix n
  show "list_all num_char (dec_nat n)" by (rule num_char_dec_nat)
  show "dec_nat n \<noteq> [] \<and> num_start (hd (dec_nat n))" using dec_nat_starts [of n] num_char_dig by auto
qed

lemma printable_evaluates: "printable t \<Longrightarrow> \<exists>v. ev f x t = Some v"
  by (induction t) auto


text \<open>Natural numbers as the values, for the examples.\<close>

definition nat_fp :: "nat fp" where
  "nat_fp = \<lparr>f_scan = (\<lambda>s. fst (digits 10 0 s)), f_pow = (\<lambda>a b. a ^ b), f_mul = (\<lambda>a b. a * b), f_div = (\<lambda>a b. a div b),
     f_add = (\<lambda>a b. a + b), f_sub = (\<lambda>a b. a - b), f_neg = (\<lambda>a. a), f_sin = (\<lambda>a. a), f_cos = (\<lambda>a. a), f_tan = (\<lambda>a. a), f_zero = 0\<rparr>"


section \<open>Termination\<close>

text \<open>C36: The parser returns on every text: with one step per character it does not run out of steps, and
  any larger bound gives the same result.\<close>

theorem parser_terminates:
  "parse_expr scan s \<noteq> No_fuel \<and> (\<forall>n. length s < n \<longrightarrow> doparse scan n 0 s False = parse_expr scan s)"
proof -
  have p: "parse_expr scan s = pexp scan 0 s False" by (simp add: parse_expr_def pexp_def)
  have "pexp scan 0 s False \<noteq> No_fuel"
    using parse_returns(1) [of s "Suc (length s)" scan 0 False] by (simp add: pexp_def returns_def)
  then show ?thesis unfolding p using enough(1) by blast
qed

theorem parser_terminates_witness:
  "doparse (f_scan nat_fp) 9 0 ''((2'' False = parse_expr (f_scan nat_fp) ''((2''"
  using parser_terminates [of "f_scan nat_fp" "''((2''"] by simp

section \<open>Missing operands\<close>

fun nulls :: "'v node \<Rightarrow> bool" where
  "nulls Null = True"
| "nulls (Num v) = False"
| "nulls (Var name) = False"
| "nulls (Func name r) = nulls r"
| "nulls (Neg r) = nulls r"
| "nulls (Bin op l r) = (nulls l \<or> nulls r)"

fun known :: "'v node \<Rightarrow> bool" where
  "known (Func name r) = (name \<in> {''sin'', ''cos'', ''tan''} \<and> known r)"
| "known (Neg r) = known r"
| "known (Bin op l r) = (known l \<and> known r)"
| "known t = True"

lemma ev_null: "nulls t \<Longrightarrow> known t \<Longrightarrow> ev f x t = None"
  by (induction t) (auto split: option.splits)

lemma and_then_Parsed:
  "and_then p k = Parsed nd r e \<longleftrightarrow> (\<exists>nd' r' e'. p = Parsed nd' r' e' \<and> k nd' r' e' = Parsed nd r e)"
  by (cases p) auto

lemma err_is_null:
  "doparse scan n p s e = Parsed nd r e' \<Longrightarrow> e' = (e \<or> nulls nd)"
  "ops scan n p node s e = Parsed nd r e' \<Longrightarrow>
     (e' \<or> nulls node) = (e \<or> nulls nd) \<and> (e \<longrightarrow> e') \<and> (nulls node \<longrightarrow> nulls nd)"
proof (induction n arbitrary: s p e node nd r e')
  case 0
  {case 1 then show ?case by (simp add: doparse.simps)}
  {case 2 then show ?case by (simp add: ops.simps)}
next
  case (Suc n)
  {
    case 1
    then show ?case
      by (auto simp: doparse.simps Let_def and_then_Parsed split: list.splits if_splits dest!: Suc.IH)
  }
  {
    case 2
    then show ?case
      by (auto simp: ops.simps and_then_Parsed split: list.splits option.splits if_splits dest!: Suc.IH)
  }
qed

text \<open>\<open>MP_evaluate\<close> never reports a missing operand of an expression whose functions are known: it
  evaluates the incomplete tree first and follows the null pointer of the operand.\<close>

theorem missing_operand_crashes:
  assumes "parse_expr (f_scan f) s = Parsed nd r True" "known nd"
  shows "s \<noteq> [] \<longrightarrow> MP_evaluate f x s = None"
proof -
  have "nulls nd" using err_is_null(1) [OF assms(1) [unfolded parse_expr_def]] by simp
  from ev_null [OF this assms(2)] assms(1) show ?thesis by (simp add: MP_evaluate_def)
qed

theorem missing_operand_crashes_witness:
  "MP_evaluate nat_fp 1 ''2+'' = None"
proof -
  have "parse_expr (f_scan nat_fp) ''2+'' = Parsed (Bin wADD (Num (f_scan nat_fp ''2+'')) Null) [] True"
    by (simp add: parse_expr_def doparse.simps ops.simps skip_def num_start_def is_digit_def num_char_def op_of_def binds_def)
  from missing_operand_crashes [OF this, of 1] show ?thesis by simp
qed

section \<open>Exponents\<close>

text \<open>A number with a signed exponent is read twice: \<open>sscanf\<close> converts the whole of \<open>1e-5\<close>, the
  loop that skips the number stops at the sign, and the expression becomes the difference of the
  number and the digits of its exponent.\<close>

theorem signed_exponent_is_subtracted:
  assumes "ds \<noteq> []" "list_all is_digit ds" "es \<noteq> []" "list_all is_digit es"
  shows "parse_expr scan (ds @ ''e-'' @ es)
    = Parsed (Bin wSUB (Num (scan (ds @ ''e-'' @ es))) (Num (scan es))) [] False"
proof -
  have nb: "skip (c # cs) = c # cs \<and> num_start c" if "is_digit c" for c cs
    using that num_nonblank [of c] by (simp add: num_start_def skip_nonblank)
  have dw: "dropWhile num_char cs = []" if "list_all is_digit cs" for cs
    using that by (induction cs) (simp_all add: num_char_def)
  have dm: "dropWhile num_char (cs @ ''e-'' @ es) = CHR ''-'' # es" if "list_all is_digit cs" for cs
    using that by (induction cs) (simp_all add: num_char_def is_digit_def)
  obtain d dr where d: "ds = d # dr" "is_digit d" "list_all is_digit dr" using assms(1,2) by (cases ds) auto
  obtain c cr where c: "es = c # cr" "is_digit c" "list_all is_digit cr" using assms(3,4) by (cases es) auto
  have "pexp scan 0 (d # dr @ ''e-'' @ es) False = pops scan 0 (Num (scan (d # dr @ ''e-'' @ es))) (CHR ''-'' # es) False"
    using pexp_num [of "d # dr @ ''e-'' @ es" d "dr @ ''e-'' @ es" scan 0 False] nb [OF d(2)] dm [OF d(3)] by simp
  also have "\<dots> = and_then (pexp scan 10 es False) (\<lambda>r s e. pops scan 0 (Bin wSUB (Num (scan (d # dr @ ''e-'' @ es))) r) s e)"
    using pops_op [of "CHR ''-'' # es" "CHR ''-''" es wSUB 0] by (simp add: skip_nonblank op_of_def binds_0)
  also have "pexp scan 10 es False = Parsed (Num (scan es)) [] False"
    using pexp_num [of es c cr scan 10 False] nb [OF c(2)] dw [OF c(3)] c(1) by (simp add: pops_ends)
  finally show ?thesis using d(1) by (simp add: parse_expr_def pexp_def pops_ends)
qed

theorem signed_exponent_is_subtracted_witness:
  "parse_expr scan ''1e-5'' = Parsed (Bin wSUB (Num (scan ''1e-5'')) (Num (scan ''5''))) [] False"
  using signed_exponent_is_subtracted [of "''1''" "''5''" scan] by (simp add: is_digit_def)

end
