(* ===== verification/Tcs.thy ===== *)
theory Tcs imports Prelude
begin

text \<open>
  The clients of the telescope control system: \<open>DRV_COMS/private/c/src/tcs_sml/tcsSmlLib.c\<close> and
  \<open>DRV_TCSSOAR/private/c/src/tcsSoarLib.c\<close>.  A message is its length in four bytes, the most significant
  first, and its text.  What has arrived on the socket is a list of segments; one \<open>recv\<close> takes from
  the first segment only.
\<close>

section \<open>Buffers\<close>

text \<open>The union of \<open>char line[256]\<close> and \<open>int l\<close>: the integer is the first four bytes, least significant first.\<close>

definition set_l :: "int \<Rightarrow> byte list \<Rightarrow> byte list" where
  "set_l v line = [word_of_int v, word_of_int (v div 2 ^ 8), word_of_int (v div 2 ^ 16), word_of_int (v div 2 ^ 24)] @ drop 4 line"

definition get_l :: "byte list \<Rightarrow> int" where
  "get_l line = to_i32 (uint (line ! 0) + 2 ^ 8 * uint (line ! 1) + 2 ^ 16 * uint (line ! 2) + 2 ^ 24 * uint (line ! 3))"

text \<open>\<open>flaten\<close>: from and to the byte order of LabVIEW.\<close>

definition flaten :: "byte list \<Rightarrow> byte list" where
  "flaten line = [line ! 3, line ! 2, line ! 1, line ! 0] @ drop 4 line"

text \<open>Writing to the front of an array of the caller: undefined if it does not fit.\<close>

definition put_front :: "byte list \<Rightarrow> byte list \<Rightarrow> byte list option" where
  "put_front bs buf = (if length bs \<le> length buf then Some (bs @ drop (length bs) buf) else None)"

definition bytes :: "string \<Rightarrow> byte list" where
  "bytes s = map (\<lambda>c. word_of_nat (of_char c)) s"

definition strcpy_to :: "byte list \<Rightarrow> string \<Rightarrow> byte list option" where
  "strcpy_to buf s = put_front (bytes s @ [0]) buf"

text \<open>\<open>recv\<close> of at most \<open>n\<close> bytes; with nothing there it fails and stores nothing.  A negative count
  is a huge one.\<close>

definition recv :: "int \<Rightarrow> byte list list \<Rightarrow> byte list \<times> byte list list" where
  "recv n segs =
     (case segs of
        [] \<Rightarrow> ([], [])
      | s # ss \<Rightarrow>
          (let k = (if n < 0 then length s else min (nat n) (length s)) in
           (take k s, if drop k s = [] then ss else drop k s # ss)))"

section \<open>Messages\<close>

record tcs =
  t_socket :: int
  t_in :: "byte list list"
  t_out :: "byte list"
  t_resp :: "byte list"     \<comment> \<open>the caller's \<open>response\<close>\<close>

text \<open>Reading a reply: its length to \<open>ma.l\<close>, its text to \<open>response\<close>.  Neither count is compared with
  what was asked for, and no NUL is stored.\<close>

definition recv_message :: "byte list \<Rightarrow> tcs \<Rightarrow> tcs option" where
  "recv_message line s =
     (case recv 4 (t_in s) of
        (h, segs) \<Rightarrow>
          (let line = flaten (h @ drop (length h) line) in
           case recv (get_l line) segs of
             (txt, segs') \<Rightarrow> map_option (\<lambda>r. s\<lparr>t_in := segs', t_resp := r\<rparr>) (put_front txt (t_resp s))))"

text \<open>The package of a command; \<open>strcpy(&ma.line[4], command)\<close> into what is left of 256 characters.\<close>

definition package :: "byte list \<Rightarrow> byte list \<Rightarrow> byte list option" where
  "package line command =
     (if length command < 252
      then Some (take 4 (flaten (set_l (int (length command)) line)) @ command) else None)"

text \<open>What the kernel answers: \<open>send\<close>'s count, and whether something arrives before \<open>select\<close> times out.\<close>

record answers =
  a_send :: int
  a_select :: bool

abbreviation (input) ENOTSOCK :: int where "ENOTSOCK \<equiv> 88"
abbreviation (input) EPROTO :: int where "EPROTO \<equiv> 71"
abbreviation (input) ENOTCONN :: int where "ENOTCONN \<equiv> 107"

definition fail_with :: "string \<Rightarrow> int \<Rightarrow> tcs \<Rightarrow> (int \<times> tcs) option" where
  "fail_with msg r s = map_option (\<lambda>b. (r, s\<lparr>t_resp := b\<rparr>)) (strcpy_to (t_resp s) (msg @ [CHR 0x0A]))"

text \<open>\<open>Demand2TCS\<close> of \<open>tcsSmlLib.c\<close> on the socket \<open>ref\<close>\<close>

definition Demand2TCS :: "answers \<Rightarrow> byte list \<Rightarrow> int \<Rightarrow> byte list \<Rightarrow> int \<Rightarrow> tcs \<Rightarrow> (int \<times> tcs) option" where
  "Demand2TCS a line ref command tmout s =
     (if ref = 0 then Some (- EINVAL, s)
      else case package line command of
        None \<Rightarrow> None
      | Some p \<Rightarrow>
          if a_send a \<noteq> int (length p)
          then fail_with ''ERROR sending'' (- EPROTO) (s\<lparr>t_out := t_out s @ take (nat (a_send a)) p\<rparr>)
          else (let s = s\<lparr>t_out := t_out s @ p\<rparr> in
            if tmout > 0 then
              (if \<not> a_select a then fail_with ''ERROR timeout waiting response'' (- ETIME) s
               else map_option (Pair 0) (recv_message p s))
            else fail_with ''cmd sent'' 0 s))"

definition ReadFromTCS :: "answers \<Rightarrow> byte list \<Rightarrow> int \<Rightarrow> tcs \<Rightarrow> (int \<times> tcs) option" where
  "ReadFromTCS a line ref s =
     (if ref = 0 then Some (- EINVAL, s)
      else if \<not> a_select a then fail_with ''ERROR timeout waiting response'' (- ETIME) s
      else map_option (Pair 0) (recv_message line s))"

definition CloseTCSSocket :: "int \<Rightarrow> int" where
  "CloseTCSSocket ref = (if ref = 0 then - EINVAL else 0)"

section \<open>Connecting\<close>

record dial =
  d_socket :: int
  d_errno :: int
  d_fcntl :: bool
  d_connect :: bool        \<comment> \<open>\<open>connect\<close> succeeds at once\<close>
  d_writable :: bool       \<comment> \<open>the first \<open>select\<close> does not time out\<close>
  d_ack :: bool            \<comment> \<open>nor the second\<close>

text \<open>\<open>strcmp(response, "DONE")\<close>\<close>

definition cstr :: "byte list \<Rightarrow> byte list" where
  "cstr b = takeWhile (\<lambda>x. x \<noteq> 0) b"

text \<open>The socket, \<open>0\<close> after a failure, and \<open>*err\<close>.\<close>

definition OpenTCSSocket :: "dial \<Rightarrow> byte list \<Rightarrow> tcs \<Rightarrow> (int \<times> int \<times> tcs) option" where
  "OpenTCSSocket d line s =
     (let failed = (\<lambda>msg e. map_option (\<lambda>(_, s). (0, e, s)) (fail_with msg 0 s)) in
      if d_socket d = 0 \<or> \<not> d_fcntl d then Some (0, - d_errno d, s)
      else if d_connect d then Some (d_socket d, 0, s)
      else if d_writable d then
        (if \<not> d_ack d then failed ''ERROR timeout in connection'' (- ETIME)
         else case recv_message line s of
           None \<Rightarrow> None
         | Some s' \<Rightarrow>
             if cstr (t_resp s') = bytes ''DONE'' then Some (d_socket d, 0, s')
             else map_option (\<lambda>(_, s). (0, - EPERM, s)) (fail_with ''ERROR authenticating'' 0 s'))
      else failed ''ERROR in connection'' (- ENOTCONN))"

section \<open>The SOAR client\<close>

text \<open>\<open>tcsSoarLib.c\<close> keeps the socket in \<open>m_Socket\<close> and always waits for the reply.\<close>

definition soar_Open :: "dial \<Rightarrow> byte list \<Rightarrow> tcs \<Rightarrow> (int \<times> tcs) option" where
  "soar_Open d line s0 =
     (let s = s0\<lparr>t_socket := d_socket d\<rparr> in
      if d_socket d = 0 \<or> \<not> d_fcntl d then Some (- 1, s)
      else if d_connect d then Some (0, s)
      else if d_writable d then
        (if \<not> d_ack d then fail_with ''ERROR timeout in connection'' (- 1) s
         else case recv_message line s of
           None \<Rightarrow> None
         | Some s' \<Rightarrow>
             if cstr (t_resp s') = bytes ''DONE'' then Some (0, s')
             else fail_with ''ERROR authenticating'' (- 1) s')
      else fail_with ''ERROR in connection'' (- 1) s)"

definition soar_Demand :: "answers \<Rightarrow> byte list \<Rightarrow> byte list \<Rightarrow> tcs \<Rightarrow> (int \<times> tcs) option" where
  "soar_Demand a line command s =
     (if t_socket s = 0 then fail_with ''ERROR invalid socket'' (- 1) s
      else case package line command of
        None \<Rightarrow> None
      | Some p \<Rightarrow>
          if a_send a \<noteq> int (length p) then fail_with ''ERROR sending'' (- 1) (s\<lparr>t_socket := 0, t_out := t_out s @ take (nat (a_send a)) p\<rparr>)
          else (let s = s\<lparr>t_out := t_out s @ p\<rparr> in
            if \<not> a_select a then fail_with ''ERROR timeout waiting response'' (- 1) s
            else map_option (Pair 0) (recv_message p s)))"

definition soar_Close :: "tcs \<Rightarrow> tcs" where
  "soar_Close s = s\<lparr>t_socket := 0\<rparr>"

section \<open>Properties\<close>

lemma flaten_twice: "4 \<le> length b \<Longrightarrow> flaten (flaten b) = b"
  by (cases b rule: list.exhaust [case_product list.exhaust]; cases "tl b"; cases "tl (tl b)"; cases "tl (tl (tl b))")
    (auto simp: flaten_def)

lemma package_bytes:
  assumes "package line cmd = Some p"
  shows "length cmd < 252" "p = [0, 0, 0, word_of_int (int (length cmd))] @ cmd"
proof -
  show "length cmd < 252" using assms by (simp add: package_def split: if_splits)
  then have "int (length cmd) div 2 ^ 8 = 0" "int (length cmd) div 2 ^ 16 = 0" "int (length cmd) div 2 ^ 24 = 0" by simp_all
  with assms show "p = [0, 0, 0, word_of_int (int (length cmd))] @ cmd"
    by (simp add: package_def flaten_def set_l_def split: if_splits)
qed

lemma header_read:
  assumes "n < 252"
  shows "get_l (flaten ([0, 0, 0, word_of_int (int n)] @ rest)) = int n"
proof -
  have "uint (word_of_int (int n) :: byte) = int n" using assms by (simp add: unsigned_of_nat take_bit_nat_eq_self)
  then show ?thesis using assms by (simp add: get_l_def flaten_def to_i32_id)
qed

lemma read_segment:
  assumes "get_l (flaten (h @ drop 4 line)) = int n" "length h = 4" "t_in s = h # a # later" "a \<noteq> []" "length a \<le> n"
    "length a \<le> length (t_resp s)"
  shows "recv_message line s = Some (s\<lparr>t_in := later, t_resp := a @ drop (length a) (t_resp s)\<rparr>)"
  using assms by (simp add: recv_message_def recv_def put_front_def Let_def)

lemma read_joined:
  assumes "get_l (flaten (h @ drop 4 line)) = int (length a)" "length h = 4" "t_in s = (h @ a) # later" "a \<noteq> []"
    "length a \<le> length (t_resp s)"
  shows "recv_message line s = Some (s\<lparr>t_in := later, t_resp := a @ drop (length a) (t_resp s)\<rparr>)"
  using assms by (simp add: recv_message_def recv_def put_front_def Let_def)

text \<open>C37: A message and its reader agree: what a command's package carries is what a reply of the same
  bytes delivers, in one segment or with the header apart, to the front of the response buffer; the
  bytes after it in the buffer are the old ones, for no NUL is stored.\<close>

theorem tcs_message_roundtrip:
  assumes "package line cmd = Some p" "cmd \<noteq> []" "length cmd \<le> length (t_resp s)"
    "t_in s \<in> {[p] @ later, [take 4 p, drop 4 p] @ later}"
  shows "recv_message line' s = Some (s\<lparr>t_in := later, t_resp := cmd @ drop (length cmd) (t_resp s)\<rparr>)"
proof -
  let ?h = "[0, 0, 0, word_of_int (int (length cmd))] :: byte list"
  have g: "get_l (flaten (?h @ drop 4 line')) = int (length cmd)" using header_read [OF package_bytes(1) [OF assms(1)]] .
  have p: "p = ?h @ cmd" using package_bytes(2) [OF assms(1)] .
  then have "take 4 p = ?h" "drop 4 p = cmd" by simp_all
  with assms(4) p have "t_in s = (?h @ cmd) # later \<or> t_in s = ?h # cmd # later" by auto
  then show ?thesis
  proof
    assume "t_in s = (?h @ cmd) # later"
    from read_joined [OF g _ this assms(2,3)] show ?thesis by simp
  next
    assume "t_in s = ?h # cmd # later"
    from read_segment [OF g _ this assms(2) _ assms(3)] show ?thesis by simp
  qed
qed

theorem tcs_message_roundtrip_witness:
  "let p = [0, 0, 0, 2, 71, 79]; s = \<lparr>t_socket = 5, t_in = [p], t_out = [], t_resp = [65, 66, 67, 0]\<rparr> in
     package (replicate 256 0) [71, 79] = Some p \<and> map_option t_resp (recv_message [] s) = Some [71, 79, 67, 0]"
proof -
  let ?s = "\<lparr>t_socket = 5, t_in = [[0, 0, 0, 2, 71, 79]], t_out = [], t_resp = [65, 66, 67, 0]\<rparr>"
  have p: "package (replicate 256 0) [71, 79] = Some [0, 0, 0, 2, 71, 79]"
    by (simp add: package_def flaten_def set_l_def)
  from tcs_message_roundtrip [OF p, of ?s "[]" "[]"] p show ?thesis by (simp add: Let_def)
qed

text \<open>A reply that arrives in two parts is reported complete after the first: \<open>Demand2TCS\<close> returns 0
  with a part of the text, and the rest is left to be read as the header of the next reply.\<close>

theorem split_reply_truncated:
  assumes "ref \<noteq> 0" "tmout > 0" "package line cmd = Some p" "a_send a = int (length p)" "a_select a"
    "a1 \<noteq> []" "a2 \<noteq> []" "length (a1 @ a2) < 252" "length (a1 @ a2) \<le> length (t_resp s)"
    "t_in s = [[0, 0, 0, word_of_int (int (length (a1 @ a2)))], a1, a2]"
  shows "Demand2TCS a line ref cmd tmout s
    = Some (0, s\<lparr>t_in := [a2], t_out := t_out s @ p, t_resp := a1 @ drop (length a1) (t_resp s)\<rparr>)"
proof -
  let ?h = "[0, 0, 0, word_of_int (int (length (a1 @ a2)))] :: byte list"
  have l: "get_l (flaten (?h @ drop 4 p)) = int (length (a1 @ a2))" using header_read [OF assms(8)] .
  have "recv_message p (s\<lparr>t_out := t_out s @ p\<rparr>)
    = Some (s\<lparr>t_in := [a2], t_out := t_out s @ p, t_resp := a1 @ drop (length a1) (t_resp s)\<rparr>)"
    using read_segment [OF l, of "s\<lparr>t_out := t_out s @ p\<rparr>" a1 "[a2]"] assms(6,9,10) by simp
  with assms(1-5) show ?thesis by (simp add: Demand2TCS_def Let_def)
qed

theorem split_reply_truncated_witness:
  "let s = \<lparr>t_socket = 5, t_in = [[0, 0, 0, 4], [68, 79], [78, 69]], t_out = [], t_resp = replicate 8 0\<rparr> in
     map_option (\<lambda>(r, s). (r, t_resp s, t_in s)) (Demand2TCS \<lparr>a_send = 6, a_select = True\<rparr> (replicate 256 0) 5 [71, 79] 500 s)
       = Some (0, [68, 79, 0, 0, 0, 0, 0, 0], [[78, 69]])"
proof -
  let ?s = "\<lparr>t_socket = 5, t_in = [[0, 0, 0, 4], [68, 79], [78, 69]], t_out = [], t_resp = replicate 8 0\<rparr>"
  have p: "package (replicate 256 0) [71, 79] = Some [0, 0, 0, 2, 71, 79]"
    by (simp add: package_def flaten_def set_l_def)
  have r: "replicate 8 (0 :: byte) = [0, 0, 0, 0, 0, 0, 0, 0]" by (simp add: eval_nat_numeral)
  from split_reply_truncated [of 5 500 "replicate 256 0" "[71, 79]" _ "\<lparr>a_send = 6, a_select = True\<rparr>" "[68, 79]" "[78, 69]" ?s, OF _ _ p]
  show ?thesis by (simp add: Let_def r)
qed

text \<open>The handshake compares an unterminated buffer: the telescope's acknowledgement \<open>DONE\<close> is accepted
  exactly when the caller's buffer holds a NUL right after it, and otherwise it is reported as a
  failed authentication.\<close>

lemma bytes_length [simp]: "length (bytes s) = length s"
  by (simp add: bytes_def)

lemma bytes_DONE: "bytes ''DONE'' = [68, 79, 78, 69]"
  by (simp add: bytes_def)

theorem handshake_needs_clean_buffer:
  assumes "d_socket d \<noteq> 0" "d_fcntl d" "\<not> d_connect d" "d_writable d" "d_ack d"
    "t_in s = [[0, 0, 0, 4] @ bytes ''DONE'']" "30 \<le> length (t_resp s)"
  shows "\<exists>s'. OpenTCSSocket d line s =
    Some (if t_resp s ! 4 = 0 then (d_socket d, 0, s') else (0, - EPERM, s'))"
proof -
  have "get_l (flaten ([0, 0, 0, 4] @ drop 4 line)) = int (length (bytes ''DONE''))"
    using header_read [of 4] by simp
  from read_joined [OF this _ assms(6)] assms(7)
  have r: "recv_message line s = Some (s\<lparr>t_in := [], t_resp := [68, 79, 78, 69] @ drop 4 (t_resp s)\<rparr>)"
    by (simp add: bytes_DONE numeral_eq_Suc)
  have d: "drop 4 (t_resp s) = t_resp s ! 4 # drop 5 (t_resp s)"
    using assms(7) Cons_nth_drop_Suc [of 4 "t_resp s"] by simp
  have c: "cstr ([68, 79, 78, 69] @ drop 4 (t_resp s)) = [68, 79, 78, 69] \<longleftrightarrow> t_resp s ! 4 = 0"
    by (simp add: cstr_def d)
  define m where "m = bytes (''ERROR authenticating'' @ [CHR 0x0A]) @ [0]"
  have m: "length m = 22" by (simp add: m_def)
  have l18: "18 \<le> length (t_resp s) - 4" using assms(7) by simp
  have "OpenTCSSocket d line s = (if t_resp s ! 4 = 0 then Some (d_socket d, 0, s\<lparr>t_in := [], t_resp := [68, 79, 78, 69] @ drop 4 (t_resp s)\<rparr>)
    else Some (0, - EPERM, s\<lparr>t_in := [], t_resp := m @ drop 22 ([68, 79, 78, 69] @ drop 4 (t_resp s))\<rparr>))"
    using assms(1-5) m c l18
    unfolding OpenTCSSocket_def Let_def r option.case tcs.simps bytes_DONE fail_with_def strcpy_to_def put_front_def m_def [symmetric]
    by simp
  then show ?thesis by (cases "t_resp s ! 4 = 0") simp_all
qed

theorem handshake_needs_clean_buffer_witness:
  "let d = \<lparr>d_socket = 5, d_errno = 115, d_fcntl = True, d_connect = False, d_writable = True, d_ack = True\<rparr>;
       s = (\<lambda>b. \<lparr>t_socket = 0, t_in = [[0, 0, 0, 4] @ bytes ''DONE''], t_out = [], t_resp = replicate 64 b\<rparr>) in
     map_option (\<lambda>(r, e, _). (r, e)) (OpenTCSSocket d [] (s 0)) = Some (5, 0)
     \<and> map_option (\<lambda>(r, e, _). (r, e)) (OpenTCSSocket d [] (s 32)) = Some (0, - EPERM)"
proof -
  let ?d = "\<lparr>d_socket = 5, d_errno = 115, d_fcntl = True, d_connect = False, d_writable = True, d_ack = True\<rparr>"
  let ?s = "\<lambda>b. \<lparr>t_socket = 0, t_in = [[0, 0, 0, 4] @ bytes ''DONE''], t_out = [], t_resp = replicate 64 b\<rparr>"
  have "\<exists>s'. OpenTCSSocket ?d [] (?s 0) = Some (5, 0, s')"
    using handshake_needs_clean_buffer [of ?d "?s 0" "[]"] by simp
  moreover have "\<exists>s'. OpenTCSSocket ?d [] (?s 32) = Some (0, - EPERM, s')"
    using handshake_needs_clean_buffer [of ?d "?s 32" "[]"] by simp
  ultimately obtain s1 s2 where "OpenTCSSocket ?d [] (?s 0) = Some (5, 0, s1)" "OpenTCSSocket ?d [] (?s 32) = Some (0, - EPERM, s2)"
    by blast
  then show ?thesis unfolding Let_def by simp
qed

end
