(* ===== verification/MemLib.thy ===== *)
theory MemLib imports Logic_Props
begin

text \<open>
  \<open>Common/Clib/src/memLib.c\<close>: the image arithmetic of the common library, on byte memory.  A pointer is
  unsigned, so \<open>ptr <= 0\<close> is \<open>ptr == 0\<close>, and an error number returned as a pointer is huge.  The
  statistics (\<open>CMN_get_imstats\<close>, \<open>CMN_coadd2\<close>, \<open>CMN_operate_coadd\<close>, \<open>CMN_operate_images_auto\<close>) accumulate
  floats and are left out; \<open>malloc\<close> is a parameter.
\<close>

definition CMN_mem_examine :: "int \<Rightarrow> int \<Rightarrow> mem \<Rightarrow> int" where
  "CMN_mem_examine location off m =
     (if location = 0 then to_u16 (- EFAULT) else ld_u16 m (location + 2 * off))"

definition CMN_coadd :: "int \<Rightarrow> int \<Rightarrow> int \<Rightarrow> mem \<Rightarrow> int \<times> mem" where
  "CMN_coadd image_buf coadd_buff nelems m =
     (if image_buf = 0 \<or> coadd_buff = 0 then (- EFAULT, m)
      else (0, for_n (nat nelems) (\<lambda>i m. add_u32 m coadd_buff (int i) (ld_u32 m (image_buf + 4 * int i))) m))"

text \<open>\<open>copy\<close> copies the first image to the second, not to the result.\<close>

definition CMN_operate_images16To32 :: "int \<Rightarrow> int \<Rightarrow> int \<Rightarrow> int \<Rightarrow> string \<Rightarrow> mem \<Rightarrow> int \<times> mem" where
  "CMN_operate_images16To32 image1 image2 result nelems operation m =
     (if image1 = 0 \<or> image2 = 0 \<or> result = 0 then (- EFAULT, m)
      else if operation = ''copy'' then
        (0, for_n (nat nelems) (\<lambda>i m. st_u16 m (image2 + 2 * int i) (ld_u16 m (image1 + 2 * int i))) m)
      else if operation = ''substract'' then
        (0, for_n (nat nelems) (\<lambda>i m. st_u32 m (result + 4 * int i)
              (to_u32 (ld_u16 m (image1 + 2 * int i) - ld_u16 m (image2 + 2 * int i)))) m)
      else (- EINVAL, m))"

definition CMN_operate_images16To16 :: "int \<Rightarrow> int \<Rightarrow> int \<Rightarrow> int \<Rightarrow> string \<Rightarrow> int \<Rightarrow> mem \<Rightarrow> int \<times> mem" where
  "CMN_operate_images16To16 image1 image2 result nelems operation offset m =
     (if image1 = 0 \<or> image2 = 0 \<or> result = 0 then (- EFAULT, m)
      else if operation = ''copy'' then
        (0, for_n (nat nelems) (\<lambda>i m. st_u16 m (image2 + 2 * int i) (ld_u16 m (image1 + 2 * int i))) m)
      else if operation = ''substract'' then
        (0, for_n (nat nelems) (\<lambda>i m. st_u16 m (result + 2 * int i)
              (to_u16 (ld_u16 m (image1 + 2 * int i) - ld_u16 m (image2 + 2 * int i) + offset))) m)
      else (- EINVAL, m))"

definition CMN_operate_images32To32 :: "int \<Rightarrow> int \<Rightarrow> int \<Rightarrow> int \<Rightarrow> string \<Rightarrow> mem \<Rightarrow> int \<times> mem" where
  "CMN_operate_images32To32 image1 image2 result nelems operation m =
     (if image1 = 0 \<or> image2 = 0 \<or> result = 0 then (- EFAULT, m)
      else if operation = ''copy'' then
        (0, for_n (nat nelems) (\<lambda>i m. st_u32 m (image2 + 4 * int i) (ld_u32 m (image1 + 4 * int i))) m)
      else if operation = ''substract'' then
        (0, for_n (nat nelems) (\<lambda>i m. st_u32 m (result + 4 * int i)
              (to_u32 (ld_u32 m (image1 + 4 * int i) - ld_u32 m (image2 + 4 * int i)))) m)
      else (- EINVAL, m))"

definition CMN_mem_clear :: "int \<Rightarrow> int \<Rightarrow> mem \<Rightarrow> int \<times> mem" where
  "CMN_mem_clear buf_pt nelems m = (if buf_pt = 0 then (- EFAULT, m) else (0, memset m buf_pt 0 nelems))"

text \<open>The argument is what \<open>malloc\<close> returns.\<close>

definition CMN_mem_alloc :: "int \<Rightarrow> int" where
  "CMN_mem_alloc ptr = (if ptr = 0 then to_u64 (- ENOMEM) else ptr)"

section \<open>Properties\<close>

definition stored :: "int \<Rightarrow> nat \<Rightarrow> (nat \<Rightarrow> int) \<Rightarrow> mem \<Rightarrow> mem \<Rightarrow> bool" where
  "stored c n v m m' \<longleftrightarrow> (\<forall>k < n. ld_u32 m' (c + 4 * int k) = v k)
     \<and> (\<forall>a. a < c \<or> c + 4 * int n \<le> a \<longrightarrow> m' a = m a)"

lemma st_u32_outside: "a < p \<or> p + 4 \<le> a \<Longrightarrow> st_u32 m p v a = m a"
  by (auto simp: st_u32_def)

lemma store_loop:
  assumes "\<And>k m'. k < n \<Longrightarrow> (\<And>a. a < c \<or> c + 4 * int n \<le> a \<Longrightarrow> m' a = m a) \<Longrightarrow> f k m' = v k"
    "\<And>k. k < n \<Longrightarrow> 0 \<le> v k \<and> v k < 2 ^ 32"
  shows "stored c n v m (for_n n (\<lambda>k m. st_u32 m (c + 4 * int k) (f k m)) m)"
proof -
  let ?P = "\<lambda>j m'. (\<forall>k < j. ld_u32 m' (c + 4 * int k) = v k) \<and> (\<forall>a. a < c \<or> c + 4 * int n \<le> a \<longrightarrow> m' a = m a)"
  have "?P n (for_n n (\<lambda>k m. st_u32 m (c + 4 * int k) (f k m)) m)"
  proof (rule for_n_invariant [where P = ?P])
    fix i m' assume i: "i < n" "?P i m'"
    then have f: "f i m' = v i" by (intro assms(1)) auto
    have "ld_u32 (st_u32 m' (c + 4 * int i) (v i)) (c + 4 * int k) = v k" if "k < Suc i" for k
    proof (cases "k = i")
      case True
      then show ?thesis using assms(2) [OF i(1)] by (simp add: ld_u32_st_u32)
    next
      case False
      with that i(2) show ?thesis by (subst ld_u32_st_u32_other) auto
    qed
    moreover have "st_u32 m' (c + 4 * int i) (v i) a = m a" if "a < c \<or> c + 4 * int n \<le> a" for a
      using that i by (subst st_u32_outside) auto
    ultimately show "?P (Suc i) (st_u32 m' (c + 4 * int i) (f i m'))" by (simp add: f)
  qed simp
  then show ?thesis by (simp add: stored_def)
qed

lemma CMN_substract32_stores:
  assumes "image1 \<noteq> 0" "image2 \<noteq> 0" "result \<noteq> 0" "away result n image1 (4 * int n)" "away result n image2 (4 * int n)"
  obtains m' where "CMN_operate_images32To32 image1 image2 result (int n) ''substract'' m = (0, m')"
    "stored result n (\<lambda>k. to_u32 (ld_u32 m (image1 + 4 * int k) - ld_u32 m (image2 + 4 * int k))) m m'"
proof -
  have "stored result n (\<lambda>k. to_u32 (ld_u32 m (image1 + 4 * int k) - ld_u32 m (image2 + 4 * int k))) m
    (for_n n (\<lambda>k m. st_u32 m (result + 4 * int k)
       (to_u32 (ld_u32 m (image1 + 4 * int k) - ld_u32 m (image2 + 4 * int k)))) m)"
  proof (rule store_loop)
    fix k m' assume k: "k < n" "\<And>a. a < result \<or> result + 4 * int n \<le> a \<Longrightarrow> m' a = m a"
    from away_u32 [OF assms(4) k] away_u32 [OF assms(5) k]
    show "to_u32 (ld_u32 m' (image1 + 4 * int k) - ld_u32 m' (image2 + 4 * int k))
      = to_u32 (ld_u32 m (image1 + 4 * int k) - ld_u32 m (image2 + 4 * int k))" by simp
  qed (intro conjI to_u32_range)
  with that assms(1-3) show thesis by (simp add: CMN_operate_images32To32_def)
qed

text \<open>Subtracting two 32-bit images and coadding the second to the result gives the first back, pixel
  by pixel, wherever the difference wrapped; neither source changes.\<close>

theorem substract_then_coadd:
  assumes "image1 \<noteq> 0" "image2 \<noteq> 0" "result \<noteq> 0" "away result n image1 (4 * int n)" "away result n image2 (4 * int n)"
  shows "let m1 = snd (CMN_operate_images32To32 image1 image2 result (int n) ''substract'' m);
             (r, m2) = CMN_coadd image2 result (int n) m1
    in r = 0 \<and> (\<forall>k < n. ld_u32 m2 (result + 4 * int k) = ld_u32 m (image1 + 4 * int k))
      \<and> (\<forall>a. a < result \<or> result + 4 * int n \<le> a \<longrightarrow> m2 a = m a)"
proof -
  obtain m1 where m1: "CMN_operate_images32To32 image1 image2 result (int n) ''substract'' m = (0, m1)"
    "stored result n (\<lambda>k. to_u32 (ld_u32 m (image1 + 4 * int k) - ld_u32 m (image2 + 4 * int k))) m m1"
    by (rule CMN_substract32_stores [OF assms])
  define m2 where "m2 = for_n n (\<lambda>i m. add_u32 m result (int i) (ld_u32 m (image2 + 4 * int i))) m1"
  have c: "CMN_coadd image2 result (int n) m1 = (0, m2)" using assms(2,3) by (simp add: CMN_coadd_def m2_def)
  have "accumulates result n n (\<lambda>k. k) (\<lambda>k. ld_u32 m1 (image2 + 4 * int k)) m1 m2"
    unfolding m2_def by (rule accum_u32 [OF _ assms(5)]) simp
  note acc = elementwise [OF this]
  have i2: "ld_u32 m1 (image2 + 4 * int k) = ld_u32 m (image2 + 4 * int k)" if "k < n" for k
    using away_u32 [OF assms(5) that, of m1 m] m1(2) by (auto simp: stored_def)
  have "ld_u32 m2 (result + 4 * int k) = ld_u32 m (image1 + 4 * int k)" if "k < n" for k
  proof -
    have "ld_u32 m2 (result + 4 * int k)
      = to_u32 (to_u32 (ld_u32 m (image1 + 4 * int k) - ld_u32 m (image2 + 4 * int k)) + ld_u32 m (image2 + 4 * int k))"
      using acc(1) [OF that] i2 [OF that] m1(2) that by (simp add: stored_def)
    also have "\<dots> = ld_u32 m (image1 + 4 * int k)"
      using ld_u32_range [of m "image1 + 4 * int k"] by (simp add: to_u32_add to_u32_id)
    finally show ?thesis .
  qed
  moreover have "m2 a = m a" if "a < result \<or> result + 4 * int n \<le> a" for a
    using acc(2) [OF that] m1(2) that unfolding stored_def by metis
  ultimately show ?thesis using m1(1) c by simp
qed

theorem substract_then_coadd_witness:
  "let m = (\<lambda>a. if a = 1000 then 5 else if a = 2000 then 9 else 0);
       m1 = snd (CMN_operate_images32To32 1000 2000 3000 1 ''substract'' m); (r, m2) = CMN_coadd 2000 3000 1 m1
   in ld_u32 m2 3000 = 5"
  using substract_then_coadd [of 1000 2000 3000 1 "\<lambda>a. if a = 1000 then 5 else if a = 2000 then 9 else 0"]
  by (simp add: away_def Let_def split_def ld_u32_def ld_u16_def)

text \<open>The common library's coadd computes what the Logic library's does.  Their \<open>copy\<close> differs: the
  common library overwrites the second image and leaves the result buffer alone.\<close>

theorem common_and_logic_agree:
  "CMN_coadd image_buf coadd_buff nelems (l_mem s)
     = (fst (coadd image_buf coadd_buff nelems 32 s), l_mem (snd (coadd image_buf coadd_buff nelems 32 s)))
   \<and> (image1 \<noteq> 0 \<and> image2 \<noteq> 0 \<and> result \<noteq> 0 \<longrightarrow>
     CMN_operate_images32To32 image1 image2 result nelems ''copy'' (l_mem s)
       = (0, l_mem (snd (operate_images32To32 image1 image2 image2 nelems ''copy'' s))))"
  by (simp add: CMN_coadd_def coadd_def coadd32To32_def CMN_operate_images32To32_def operate_images32To32_def)

theorem common_and_logic_agree_witness:
  "CMN_operate_images32To32 1000 2000 3000 1 ''copy'' (l_mem logic_init)
     = (0, l_mem (snd (operate_images32To32 1000 2000 2000 1 ''copy'' logic_init)))"
  using common_and_logic_agree [of 1 1 1 logic_init 1000 2000 3000] by simp

end
