(* ===== verification/BufMgr.thy ===== *)
theory BufMgr imports CFloat "HOL-Library.Multiset"
begin

text \<open>
  \<open>buffermgr/private/c/src/bufLib.c\<close>, as its Makefile builds it, without \<open>_HIGH_MEM_\<close>: the account of
  the memory handed out and its limit.  \<open>malloc\<close>'s answer is an argument.
\<close>

record bufm =
  totMem :: int
  maxMem :: int

definition bufm_start :: bufm where
  "bufm_start = \<lparr>totMem = 0, maxMem = 0\<rparr>"

definition BUFMGR_set_maxMem :: "int \<Rightarrow> bufm \<Rightarrow> int \<times> bufm" where
  "BUFMGR_set_maxMem megs b =
     (0, b\<lparr>maxMem := (if megs = 0 then 0 else to_u64 (to_u64 (megs * 1024) * 1024))\<rparr>)"

definition BUFMGR_released_size :: "int \<Rightarrow> bufm \<Rightarrow> int \<times> bufm" where
  "BUFMGR_released_size sz b = (0, b\<lparr>totMem := (if sz \<le> totMem b then totMem b - sz else 0)\<rparr>)"

text \<open>\<open>(u64) (pan_double_t)n\<close>: the double has 53 bits.  \<open>None\<close>: what it rounds to does not fit.\<close>

definition u64_via_double :: "int \<Rightarrow> int option" where
  "u64_via_double n =
     (let e = nbits (nat n) - 53; q = int (rne (nat n) (2 ^ e)) * 2 ^ e in
      if q < 2 ^ 64 then Some q else None)"

definition BUFMGR_get_maxMem :: "bufm \<Rightarrow> int option" where
  "BUFMGR_get_maxMem b = map_option (\<lambda>n. n div (1024 * 1024)) (u64_via_double (maxMem b))"

definition BUFMGR_get_totMem :: "bufm \<Rightarrow> int option" where
  "BUFMGR_get_totMem b = map_option (\<lambda>n. n div (1024 * 1024)) (u64_via_double (totMem b))"

text \<open>The pointer, \<open>*err\<close> and the account.\<close>

definition buf_mem_alloc :: "int \<Rightarrow> int \<Rightarrow> bufm \<Rightarrow> int \<times> int \<times> bufm" where
  "buf_mem_alloc ptr sz b =
     (let newSize = to_u64 (totMem b + sz) in
      if maxMem b > 0 \<and> newSize > maxMem b then (0, - ENOMEM, b)
      else if ptr = 0 then (0, - ENOMEM, b)
      else (ptr, 0, b\<lparr>totMem := newSize\<rparr>))"

text \<open>Freeing a buffer does not touch the account.\<close>

definition buf_mem_free :: "int \<Rightarrow> bufm \<Rightarrow> int \<times> bufm" where
  "buf_mem_free buf b = (0, b)"

definition buf_mem_clear :: "int \<Rightarrow> int \<Rightarrow> mem \<Rightarrow> int \<times> mem" where
  "buf_mem_clear buf_pt nelems m = (if buf_pt = 0 then (- EFAULT, m) else (0, memset m buf_pt 0 nelems))"

definition buf_mem_examine :: "int \<Rightarrow> int \<Rightarrow> mem \<Rightarrow> int" where
  "buf_mem_examine location off m =
     (if location = 0 then to_u16 (- EFAULT) else ld_u16 m (location + 2 * off))"

section \<open>The account\<close>

text \<open>A client of the library: it keeps the sizes of its live buffers, frees each of them once, and then
  reports its size.  \<open>malloc\<close> refuses what is larger than the address space, \<open>2^47\<close> bytes, and does not
  hand out more than that in all.\<close>

inductive buf_reach :: "bufm \<Rightarrow> int multiset \<Rightarrow> bool" where
  boot: "0 \<le> megs \<Longrightarrow> megs < 2 ^ 40 \<Longrightarrow> buf_reach (snd (BUFMGR_set_maxMem megs bufm_start)) {#}"
| alloc: "\<lbrakk>buf_reach b live; 0 \<le> sz; sz < 2 ^ 64; ptr \<noteq> 0 \<longrightarrow> sum_mset live + sz \<le> 2 ^ 47;
     buf_mem_alloc ptr sz b = (p, e, b')\<rbrakk> \<Longrightarrow> buf_reach b' (if p \<noteq> 0 then add_mset sz live else live)"
| release: "\<lbrakk>buf_reach b live; sz \<in># live; buf_mem_free buf b = (r, b1); BUFMGR_released_size sz b1 = (r', b2)\<rbrakk>
     \<Longrightarrow> buf_reach b2 (live - {#sz#})"

lemma sum_sizes_nonneg: "\<forall>s \<in># M. 0 \<le> s \<Longrightarrow> 0 \<le> sum_mset (M :: int multiset)"
  by (induction M) auto

lemma buf_reach_account:
  "buf_reach b live \<Longrightarrow> totMem b = sum_mset live \<and> (\<forall>s \<in># live. 0 \<le> s) \<and> sum_mset live \<le> 2 ^ 47
     \<and> (maxMem b > 0 \<longrightarrow> totMem b \<le> maxMem b)"
proof (induction rule: buf_reach.induct)
  case (boot megs)
  then show ?case by (simp add: BUFMGR_set_maxMem_def bufm_start_def)
next
  case (alloc b live sz ptr p e b')
  have n: "0 \<le> sum_mset live" using alloc.IH by (auto intro: sum_sizes_nonneg)
  show ?case
  proof (cases "p \<noteq> 0")
    case True
    with alloc.hyps(5) have p: "ptr \<noteq> 0" "b' = b\<lparr>totMem := to_u64 (totMem b + sz)\<rparr>"
      "\<not> (maxMem b > 0 \<and> to_u64 (totMem b + sz) > maxMem b)"
      by (auto simp: buf_mem_alloc_def Let_def split: if_splits)
    with alloc.hyps(4) have "sum_mset live + sz \<le> 2 ^ 47" by simp
    with n alloc.hyps(2) alloc.IH have "to_u64 (totMem b + sz) = sum_mset live + sz" by (simp add: to_u64_id)
    with True p alloc show ?thesis by (auto simp: add.commute)
  next
    case False
    with alloc.hyps(5) have "b' = b" by (auto simp: buf_mem_alloc_def Let_def split: if_splits)
    with False alloc.IH show ?thesis by auto
  qed
next
  case (release b live sz buf r b1 r' b2)
  obtain rest where r: "live = add_mset sz rest" using release.hyps(2) by (metis multi_member_split)
  have n: "0 \<le> sum_mset rest" "0 \<le> sz" using release.IH r by (auto intro: sum_sizes_nonneg)
  from release.hyps(3,4) have "b2 = b\<lparr>totMem := (if sz \<le> totMem b then totMem b - sz else 0)\<rparr>"
    by (auto simp: buf_mem_free_def BUFMGR_released_size_def)
  with release.IH r n show ?case by auto
qed



text \<open>A request so large that the new total wraps in 64 bits passes the limit: the sum is compared after
  it wrapped.\<close>

theorem limit_wraps:
  assumes "0 < totMem b" "totMem b \<le> maxMem b" "maxMem b < 2 ^ 63" "ptr \<noteq> 0"
  shows "buf_mem_alloc ptr (2 ^ 64 - 1) b = (ptr, 0, b\<lparr>totMem := totMem b - 1\<rparr>)"
proof -
  have "totMem b + (2 ^ 64 - 1) = totMem b - 1 + 2 ^ 64" by simp
  also have "\<dots> mod 2 ^ 64 = (totMem b - 1) mod 2 ^ 64" by (simp only: mod_add_self2)
  also have "\<dots> = totMem b - 1" using assms by simp
  finally have "to_u64 (totMem b + (2 ^ 64 - 1)) = totMem b - 1" by (simp add: to_u64_def)
  then show ?thesis using assms unfolding buf_mem_alloc_def by (simp add: Let_def)
qed

theorem limit_wraps_witness:
  "buf_mem_alloc 4096 (2 ^ 64 - 1) \<lparr>totMem = 1, maxMem = 1048576\<rparr> = (4096, 0, \<lparr>totMem = 0, maxMem = 1048576\<rparr>)"
  using limit_wraps [of "\<lparr>totMem = 1, maxMem = 1048576\<rparr>" 4096] by simp

end
