(* ===== verification/Dhe.thy ===== *)
theory Dhe imports Prelude
begin

text \<open>
  \<open>DHE/private/c/src/dheLib.c\<close>: the exposure timer and the calls of other threads that pause, resume and
  stop it.  Times are microseconds.  \<open>dhe_var_elapsed\<close> is a double of milliseconds: it is kept in
  microseconds, for the quotient by 1000 is compared with, and truncated to, integers below \<open>2^32\<close>,
  and rounding to 53 bits carries no multiple of 1/1000 across an integer of that size.
\<close>

section \<open>State\<close>

record dhe_timer =
  v_elapsed :: int      \<comment> \<open>\<open>dhe_var_elapsed\<close>, in microseconds\<close>
  v_stop :: bool
  v_stopped :: bool
  v_pause :: bool
  v_paused :: int       \<comment> \<open>\<open>dhe_var_paused_time\<close>\<close>
  w_beg :: int          \<comment> \<open>the locals of \<open>dhe_timer\<close>\<close>
  w_end :: int
  w_msecs :: int
  w_result :: "(int \<times> int) option"   \<comment> \<open>the return value and \<open>*darktime\<close>, once it has returned\<close>

definition dhe_start :: dhe_timer where
  "dhe_start = \<lparr>v_elapsed = 0, v_stop = False, v_stopped = False, v_pause = False, v_paused = 0,
     w_beg = 0, w_end = 0, w_msecs = 0, w_result = None\<rparr>"

section \<open>The timer\<close>

definition dhe_init_integ :: "dhe_timer \<Rightarrow> dhe_timer" where
  "dhe_init_integ s = s\<lparr>v_stop := False, v_stopped := False, v_elapsed := 0, v_pause := False, v_paused := 0\<rparr>"

text \<open>The return value and \<open>*darktime\<close>: milliseconds added to microseconds.\<close>

definition dhe_get_elapsed :: "dhe_timer \<Rightarrow> int \<times> int" where
  "dhe_get_elapsed s = (cdiv (v_elapsed s) 1000, to_i32 (v_paused s + cdiv (v_elapsed s) 1000))"

text \<open>\<open>dhe_timer\<close> up to its loop, called at the time \<open>now\<close>.\<close>

definition timer_call :: "int \<Rightarrow> int \<Rightarrow> dhe_timer \<Rightarrow> dhe_timer" where
  "timer_call msecs now s =
     (dhe_init_integ s)\<lparr>w_beg := now, w_end := now, w_msecs := msecs, w_result := None\<rparr>"

text \<open>The body of the loop, and what follows the loop.\<close>

definition timer_body :: "int \<Rightarrow> dhe_timer \<Rightarrow> dhe_timer" where
  "timer_body now s =
     (let s1 = (if v_pause s
                then (let ptime = now - w_end s in
                      s\<lparr>v_paused := v_paused s + ptime, w_end := w_end s + ptime, w_beg := w_beg s + ptime\<rparr>)
                else s\<lparr>w_end := now\<rparr>) in
      s1\<lparr>v_elapsed := w_end s1 - w_beg s1\<rparr>)"

definition timer_exit :: "dhe_timer \<Rightarrow> dhe_timer" where
  "timer_exit s =
     (let s1 = s\<lparr>v_stopped := True, v_elapsed := (if v_stop s then v_elapsed s else 1000 * w_msecs s)\<rparr> in
      s1\<lparr>w_result := Some (cdiv (v_elapsed s1) 1000, to_i32 (v_paused s1 + cdiv (v_elapsed s1) 1000))\<rparr>)"

text \<open>What happens next: the loop's test and, after the sleep, its body at the time \<open>now\<close>; or a call of
  another thread.\<close>

datatype dhe_event = Turn int | Pause | Resume | Stop

definition timer_turn :: "int \<Rightarrow> dhe_timer \<Rightarrow> dhe_timer" where
  "timer_turn now s =
     (if w_result s \<noteq> None then s
      else if v_elapsed s < 1000 * w_msecs s
      then (let s1 = timer_body now s in if v_stop s1 then timer_exit s1 else s1)
      else timer_exit s)"

definition dhe_pause :: "dhe_timer \<Rightarrow> int \<times> dhe_timer" where
  "dhe_pause s = (0, s\<lparr>v_pause := True\<rparr>)"

definition dhe_resume :: "dhe_timer \<Rightarrow> int \<times> dhe_timer" where
  "dhe_resume s = (0, s\<lparr>v_pause := False\<rparr>)"

text \<open>\<open>dhe_stop_integ\<close>: it sets the flag and polls; \<open>polls\<close> are the states it sees.\<close>

definition stop_request :: "dhe_timer \<Rightarrow> dhe_timer" where
  "stop_request s = s\<lparr>v_stop := True\<rparr>"

fun stop_wait :: "int \<Rightarrow> dhe_timer list \<Rightarrow> int option" where
  "stop_wait cnt [] = None"
| "stop_wait cnt (s # ss) =
     (if v_stopped s then Some (cdiv (v_elapsed s) 1000)
      else if cnt > 4000 then Some (- ETIME)
      else stop_wait (cnt + 1) ss)"

fun dhe_apply :: "dhe_event \<Rightarrow> dhe_timer \<Rightarrow> dhe_timer" where
  "dhe_apply (Turn now) s = timer_turn now s"
| "dhe_apply Pause s = snd (dhe_pause s)"
| "dhe_apply Resume s = snd (dhe_resume s)"
| "dhe_apply Stop s = stop_request s"

section \<open>Properties\<close>

text \<open>The times of the turns do not decrease.\<close>

fun clocked :: "int \<Rightarrow> dhe_event list \<Rightarrow> bool" where
  "clocked t [] = True"
| "clocked t (Turn now # es) = (t \<le> now \<and> clocked now es)"
| "clocked t (e # es) = clocked t es"

definition last_turn :: "int \<Rightarrow> dhe_event list \<Rightarrow> int" where
  "last_turn t es = fold (\<lambda>e t. case e of Turn now \<Rightarrow> now | _ \<Rightarrow> t) es t"

text \<open>While the timer runs, exposure and pauses share the time since the call.\<close>

definition shares :: "int \<Rightarrow> int \<Rightarrow> dhe_timer \<Rightarrow> bool" where
  "shares t0 t s \<longleftrightarrow> w_end s = t \<and> v_elapsed s = w_end s - w_beg s \<and> v_elapsed s + v_paused s = t - t0
     \<and> 0 \<le> v_elapsed s \<and> 0 \<le> v_paused s"

lemma shares_turn:
  assumes "shares t0 t s" "t \<le> now" "w_result s = None" "w_result (timer_turn now s) = None"
  shows "shares t0 now (timer_turn now s)"
  using assms by (auto simp: timer_turn_def timer_exit_def timer_body_def shares_def Let_def split: if_splits)

lemma returned_step: "w_result s \<noteq> None \<Longrightarrow> w_result (dhe_apply e s) = w_result s"
  by (cases e) (simp_all add: timer_turn_def dhe_pause_def dhe_resume_def stop_request_def)

lemma returned: "w_result s \<noteq> None \<Longrightarrow> w_result (fold dhe_apply es s) = w_result s"
  by (induction es arbitrary: s) (simp_all add: returned_step)

lemma shares_run:
  "\<lbrakk>shares t0 t s; clocked t es; w_result (fold dhe_apply es s) = None\<rbrakk>
    \<Longrightarrow> shares t0 (last_turn t es) (fold dhe_apply es s)"
proof (induction es arbitrary: t s)
  case Nil
  then show ?case by (simp add: last_turn_def)
next
  case (Cons e es)
  from Cons.prems(3) returned have r: "w_result s = None" "w_result (dhe_apply e s) = None"
    by (metis fold_simps(2) option.distinct(1), metis fold_simps(2) option.distinct(1))
  show ?case
  proof (cases e)
    case (Turn now)
    have "shares t0 now (dhe_apply e s)" using shares_turn [OF Cons.prems(1)] Cons.prems(2) r Turn by simp
    from Cons.IH [OF this] Cons.prems(2,3) Turn show ?thesis by (simp add: last_turn_def)
  qed (use Cons.IH [of t "dhe_apply e s"] Cons.prems in
      \<open>simp_all add: last_turn_def shares_def dhe_pause_def dhe_resume_def stop_request_def\<close>)
qed

lemma shares_call: "shares t0 t0 (timer_call msecs t0 s)"
  by (simp add: shares_def timer_call_def dhe_init_integ_def)

lemma msecs_kept: "w_msecs (fold dhe_apply es s) = w_msecs s"
proof (induction es arbitrary: s)
  case (Cons e es)
  have "w_msecs (dhe_apply e s) = w_msecs s"
    by (cases e) (simp_all add: timer_turn_def timer_exit_def timer_body_def Let_def dhe_pause_def dhe_resume_def stop_request_def)
  with Cons show ?case by simp
qed simp

text \<open>C40: Whatever is paused, resumed or stopped, while the timer runs the exposure so far and the pauses add
  up to the time since the call, and two turns after the exposure is complete it has returned.\<close>

theorem timer_accounts_for_time:
  assumes "clocked t0 es" "w_result (fold dhe_apply es (timer_call msecs t0 s)) = None"
  shows "let r = fold dhe_apply es (timer_call msecs t0 s) in
    v_elapsed r + v_paused r = last_turn t0 es - t0 \<and> 0 \<le> v_elapsed r \<and> 0 \<le> v_paused r
    \<and> (\<not> v_pause r \<and> msecs * 1000 \<le> now - t0 - v_paused r \<longrightarrow> w_result (timer_turn now' (timer_turn now r)) \<noteq> None)"
proof -
  define r where "r = fold dhe_apply es (timer_call msecs t0 s)"
  have s: "shares t0 (last_turn t0 es) r" unfolding r_def by (rule shares_run [OF shares_call assms])
  have m: "w_msecs r = msecs" by (simp add: r_def msecs_kept timer_call_def)
  have "w_result (timer_turn now' (timer_turn now r)) \<noteq> None" if "\<not> v_pause r" "msecs * 1000 \<le> now - t0 - v_paused r"
    using that s m assms(2) by (auto simp: timer_turn_def timer_exit_def timer_body_def shares_def Let_def)
  with s show ?thesis by (simp add: shares_def r_def [symmetric])
qed

theorem timer_accounts_for_time_witness:
  "let r = fold dhe_apply [Turn 500, Pause, Turn 1500, Resume, Turn 2000] (timer_call 2 0 dhe_start) in
     v_elapsed r + v_paused r = 2000 \<and> v_paused r = 1000"
proof -
  let ?es = "[Turn 500, Pause, Turn 1500, Resume, Turn 2000]"
  have r: "w_result (fold dhe_apply ?es (timer_call 2 0 dhe_start)) = None \<and> v_paused (fold dhe_apply ?es (timer_call 2 0 dhe_start)) = 1000"
    by (simp add: timer_call_def dhe_start_def dhe_init_integ_def timer_turn_def timer_body_def dhe_pause_def dhe_resume_def Let_def)
  from timer_accounts_for_time [of 0 ?es 2 dhe_start, OF _ conjunct1 [OF r]] r
  show ?thesis by (simp add: Let_def last_turn_def)
qed

text \<open>A timer that nobody stops returns the milliseconds it was asked for; the dark time it reports adds
  the pauses in microseconds to that.\<close>

theorem timer_dark_time_units:
  assumes "clocked t0 es" "w_result (fold dhe_apply es (timer_call msecs t0 s)) = None"
    "\<not> v_stop (fold dhe_apply es (timer_call msecs t0 s))" "0 \<le> msecs"
    "w_result (timer_turn now (fold dhe_apply es (timer_call msecs t0 s))) = Some (ret, dark)"
  shows "let r = fold dhe_apply es (timer_call msecs t0 s) in
    ret = msecs \<and> dark = to_i32 (v_paused r + msecs) \<and> v_paused r = last_turn t0 es - t0 - v_elapsed r"
proof -
  define r where "r = fold dhe_apply es (timer_call msecs t0 s)"
  have s: "shares t0 (last_turn t0 es) r" unfolding r_def by (rule shares_run [OF shares_call assms(1,2)])
  have m: "w_msecs r = msecs" by (simp add: r_def msecs_kept timer_call_def)
  have "timer_turn now r = timer_exit r"
    using assms(2,3,5) by (auto simp: r_def [symmetric] timer_turn_def timer_body_def Let_def split: if_splits)
  moreover have "cdiv (1000 * msecs) 1000 = msecs" using assms(4) by (simp add: cdiv_nonneg)
  ultimately have "ret = msecs" "dark = to_i32 (v_paused r + msecs)"
    using assms(3,5) m by (auto simp: r_def [symmetric] timer_exit_def Let_def)
  with s show ?thesis by (simp add: shares_def r_def [symmetric])
qed

theorem timer_dark_time_units_witness:
  "w_result (fold dhe_apply [Pause, Turn 5000, Resume, Turn 7000, Turn 8000] (timer_call 2 0 dhe_start)) = Some (2, 5002)"
proof -
  let ?es = "[Pause, Turn 5000, Resume, Turn 7000]"
  let ?r = "fold dhe_apply ?es (timer_call 2 0 dhe_start)"
  have r: "w_result ?r = None \<and> \<not> v_stop ?r \<and> v_paused ?r = 5000"
    by (simp add: timer_call_def dhe_start_def dhe_init_integ_def timer_turn_def timer_body_def dhe_pause_def dhe_resume_def Let_def)
  have "w_result (timer_turn 8000 ?r) \<noteq> None"
    by (simp add: timer_call_def dhe_start_def dhe_init_integ_def timer_turn_def timer_body_def timer_exit_def dhe_pause_def dhe_resume_def Let_def)
  then obtain a b where "w_result (timer_turn 8000 ?r) = Some (a, b)" by auto
  with timer_dark_time_units [of 0 ?es 2 dhe_start 8000 a b] r show ?thesis by (simp add: Let_def to_i32_id)
qed

text \<open>\<open>dhe_stop_integ\<close> gives up after 4002 polls, and a stop that arrives before the timer is called is
  lost: the call clears the flag.\<close>

theorem stop_gives_up:
  "(4002 \<le> length polls \<longrightarrow> stop_wait 0 polls \<noteq> None) \<and> timer_call msecs now (stop_request s) = timer_call msecs now s"
proof -
  have "c \<le> 4001 \<Longrightarrow> nat (4002 - c) \<le> length ps \<Longrightarrow> stop_wait c ps \<noteq> None" for c ps
  proof (induction ps arbitrary: c)
    case (Cons p ps)
    then show ?case by (cases "c = 4001") auto
  qed simp
  from this [of 0 polls] show ?thesis by (simp add: timer_call_def dhe_init_integ_def stop_request_def)
qed

theorem stop_gives_up_witness:
  "stop_wait 0 (replicate 4002 dhe_start) \<noteq> None"
  using stop_gives_up [of "replicate 4002 dhe_start"] by simp

end
