(* ===== verification/Gfits_State.thy ===== *)
theory Gfits_State imports GU_State CFloat
begin

text \<open>
  \<open>GFITS/private/c/src/GfitsLib.c\<close>, the set-up half: the globals, the region of interest, the
  geometry of the image that is going to be written, the map from amplifiers to extensions and the
  release of everything.  The build is the one of the \<open>Makefile\<close>: 64 bits, without \<open>_SHMEM_\<close>.
  \<open>mal k n\<close> is the address the \<open>k\<close>-th \<open>malloc\<close> returns when asked for \<open>n\<close> bytes (\<open>0\<close> when it fails).
\<close>

section \<open>Constants of \<open>fitsio.h\<close> and the globals\<close>

abbreviation (input) TUSHORT :: int where "TUSHORT \<equiv> 20"
abbreviation (input) TSHORT :: int where "TSHORT \<equiv> 21"
abbreviation (input) TLONG :: int where "TLONG \<equiv> 41"
abbreviation (input) TFLOAT :: int where "TFLOAT \<equiv> 42"
abbreviation (input) DERTOIZ :: int where "DERTOIZ \<equiv> 1"
abbreviation (input) IZTODER :: int where "IZTODER \<equiv> - 1"
abbreviation (input) EBADF :: int where "EBADF \<equiv> 9"

record gf =
  f_totEleRead :: "nat \<Rightarrow> int"
  f_Extension :: "nat \<Rightarrow> int"
  f_datatype :: int
  f_hdutype :: int
  f_nzim :: int
  f_nzcnt :: int
  f_bytes_pp :: int
  f_amp :: "nat \<Rightarrow> amp_t"          \<comment> \<open>\<open>fitsamp\<close>\<close>
  f_totElePerAmp :: int
  f_totEle :: int
  f_totcols :: int
  f_totrows :: int
  f_is_roi :: bool
  f_roiptr :: int
  f_roisize :: int
  f_fitsbufsize :: int
  f_xroist :: int
  f_yroist :: int
  f_xroilen :: int
  f_yroilen :: int
  f_totPixels :: int
  f_namps :: int
  f_mext :: int
  f_memfits :: bool
  f_membuf :: int
  f_membufsize :: int
  f_memfitssize :: int
  f_imsize :: int
  f_hdrsize :: int
  f_nextbuf :: int
  f_bufcnt :: int
  f_nbufs :: int
  f_minimy :: int
  f_minimx :: int
  f_ominx :: int
  f_ominy :: int
  f_omaxx :: int
  f_omaxy :: int
  f_tmpptr :: "nat \<Rightarrow> int"
  f_amptype :: "nat \<Rightarrow> int"
  f_mem :: mem
  f_nmal :: nat                      \<comment> \<open>calls of \<open>malloc\<close> so far\<close>

definition gf_start :: gf where
  "gf_start = \<lparr>f_totEleRead = (\<lambda>_. 0), f_Extension = (\<lambda>_. 0), f_datatype = 0, f_hdutype = 0,
     f_nzim = 1, f_nzcnt = 0, f_bytes_pp = 0, f_amp = (\<lambda>_. amp_zero), f_totElePerAmp = 0, f_totEle = 0,
     f_totcols = 0, f_totrows = 0, f_is_roi = False, f_roiptr = 0, f_roisize = 0, f_fitsbufsize = 0,
     f_xroist = 0, f_yroist = 0, f_xroilen = 0, f_yroilen = 0, f_totPixels = 0, f_namps = 0, f_mext = 0,
     f_memfits = False, f_membuf = 0, f_membufsize = 0, f_memfitssize = 0, f_imsize = 0, f_hdrsize = 0,
     f_nextbuf = 0, f_bufcnt = 0, f_nbufs = 1, f_minimy = 10 ^ 6, f_minimx = 10 ^ 6, f_ominx = -1,
     f_ominy = -1, f_omaxx = -1, f_omaxy = -1, f_tmpptr = (\<lambda>_. 0), f_amptype = (\<lambda>_. 0),
     f_mem = (\<lambda>_. 0), f_nmal = 0\<rparr>"

definition new_block :: "(nat \<Rightarrow> int \<Rightarrow> int) \<Rightarrow> int \<Rightarrow> gf \<Rightarrow> int \<times> gf" where
  "new_block mal n s = (mal (f_nmal s) n, s\<lparr>f_nmal := Suc (f_nmal s)\<rparr>)"

text \<open>The parameter \<open>ptr_t amplifiers\<close>: \<open>NULL\<close>, a table of the caller, or \<open>fitsamp\<close> itself, which
  \<open>GF_writeImage_from_buf\<close> passes.\<close>

datatype amps = Null | Caller "nat \<Rightarrow> amp_t" | Own

definition amp_at :: "amps \<Rightarrow> gf \<Rightarrow> nat \<Rightarrow> amp_t" where
  "amp_at src s i = (case src of Caller t \<Rightarrow> t i | _ \<Rightarrow> f_amp s i)"

section \<open>Memory images and the region of interest\<close>

definition GF_set_mbufs :: "int \<Rightarrow> gf \<Rightarrow> gf" where
  "GF_set_mbufs mbufs s = s\<lparr>f_nbufs := (if mbufs < 0 then 1 else mbufs)\<rparr>"

definition GF_set_memfits :: "int \<Rightarrow> gf \<Rightarrow> gf" where
  "GF_set_memfits flag s = s\<lparr>f_memfits := flag > 0\<rparr>"

definition GF_get_memfits :: "gf \<Rightarrow> int" where
  "GF_get_memfits s = of_bool (f_memfits s)"

definition GF_get_shmem :: "gf \<Rightarrow> int" where
  "GF_get_shmem s = 0"

definition GF_set_shmem :: "int \<Rightarrow> gf \<Rightarrow> gf" where
  "GF_set_shmem flag s = GF_set_memfits flag s"

definition GF_get_membufptr :: "gf \<Rightarrow> int \<times> int" where
  "GF_get_membufptr s = (f_membuf s, to_i32 (f_memfitssize s))"

definition GF_release_image_buf :: "gf \<Rightarrow> int \<times> gf" where
  "GF_release_image_buf s =
     (if f_membuf s = 0 \<or> f_membufsize s = 0 then (OK, s)
      else (OK, s\<lparr>f_membuf := 0, f_membufsize := 0, f_bufcnt := 0, f_nextbuf := 0, f_imsize := 0\<rparr>))"

definition GF_allocate_image_buf :: "(nat \<Rightarrow> int \<Rightarrow> int) \<Rightarrow> int \<Rightarrow> gf \<Rightarrow> int \<times> gf" where
  "GF_allocate_image_buf mal sz s = new_block mal sz s"

definition GF_fits_set_zaxis :: "int \<Rightarrow> gf \<Rightarrow> int \<times> gf" where
  "GF_fits_set_zaxis nz s = (if nz \<le> 0 then (- EINVAL, s) else (OK, s\<lparr>f_nzim := nz\<rparr>))"

definition GF_set_roi :: "(nat \<Rightarrow> int \<Rightarrow> int) \<Rightarrow> int \<Rightarrow> int \<Rightarrow> int \<Rightarrow> int \<Rightarrow> gf \<Rightarrow> int \<times> gf" where
  "GF_set_roi mal xstart ystart xlen ylen s0 =
     (let s = s0\<lparr>f_is_roi := False, f_xroist := 0, f_yroist := 0, f_xroilen := 0, f_yroilen := 0\<rparr> in
      if f_mext s \<noteq> 0 then (OK, s)
      else if xstart > 0 \<and> ystart > 0 \<and> xlen > 0 \<and> ylen > 0 then
        (let s = s\<lparr>f_xroist := xstart, f_yroist := ystart, f_xroilen := xlen, f_yroilen := ylen\<rparr>;
             s = (if f_roiptr s \<noteq> 0 then s\<lparr>f_roiptr := 0, f_roisize := 0\<rparr> else s);
             n = to_u32 (xlen * ylen * f_bytes_pp s);
             (p, s) = new_block mal n s;
             s = s\<lparr>f_roiptr := p\<rparr> in
         if p = 0 then (- ENOMEM, s) else (OK, s\<lparr>f_roisize := n, f_is_roi := True\<rparr>))
      else (OK, s))"

definition GF_get_roi :: "gf \<Rightarrow> int \<times> int \<times> int \<times> int \<times> int" where
  "GF_get_roi s = (of_bool (f_is_roi s), f_xroist s, f_yroist s, f_xroilen s, f_yroilen s)"

definition GF_check_roi :: "(nat \<Rightarrow> int \<Rightarrow> int) \<Rightarrow> gf \<Rightarrow> gf" where
  "GF_check_roi mal s =
     (if f_is_roi s \<and> f_roisize s < to_u32 (f_xroilen s * f_yroilen s * f_bytes_pp s)
      then snd (GF_set_roi mal (f_xroist s) (f_yroist s) (f_xroilen s) (f_yroilen s) s) else s)"

definition GF_set_bpp :: "(nat \<Rightarrow> int \<Rightarrow> int) \<Rightarrow> int \<Rightarrow> gf \<Rightarrow> gf" where
  "GF_set_bpp mal data s =
     GF_check_roi mal (s\<lparr>f_bytes_pp := (if data = TUSHORT \<or> data = TSHORT then 2 else 4)\<rparr>)"

section \<open>The geometry of the image\<close>

text \<open>The part of \<open>GF_fits_set_values\<close> that copies amplifier \<open>i\<close>; a rotated one gets the direction in
  which it grows, and starts at its far side when it grows to the left.\<close>

definition copy_geometry :: "amps \<Rightarrow> nat \<Rightarrow> gf \<Rightarrow> gf" where
  "copy_geometry src i s =
     (let A = amp_at src s i;
          F = (f_amp s i)\<lparr>amp_xstart := (if f_mext s \<noteq> 0 then 1 else amp_xstart A),
                amp_ystart := (if f_mext s \<noteq> 0 then 1 else amp_ystart A),
                amp_ncols := amp_ncols A, amp_nrows := amp_nrows A, amp_type := amp_type A,
                amp_rotate := amp_rotate A, amp_flip := amp_flip A, amp_discard := amp_discard A\<rparr>;
          leftwards = ((amp_type F AND LOWER \<noteq> 0) = (amp_rotate F = 90)) in
      if amp_rotate F = 0 then s\<lparr>f_amp := (f_amp s)(i := F)\<rparr>
      else s\<lparr>f_amp := (f_amp s)(i := if leftwards then F\<lparr>amp_xstart := to_i32 (amp_xstart F + amp_nrows F)\<rparr> else F),
             f_amptype := (f_amptype s)(i := if leftwards then IZTODER else DERTOIZ)\<rparr>)"

text \<open>The extent of a flat image so far: \<open>maxx\<close>, \<open>maxy\<close>, \<open>etot2\<close> and the state with \<open>minimx\<close>, \<open>minimy\<close>.\<close>

definition extend_extent :: "nat \<Rightarrow> int \<times> int \<times> int \<times> gf \<Rightarrow> int \<times> int \<times> int \<times> gf" where
  "extend_extent i = (\<lambda>(maxx, maxy, etot2, s).
     (let F = f_amp s i;
          maxx = max maxx (to_i32 (amp_xstart F + amp_ncols F - 1));
          maxy = max maxy (to_i32 (amp_ystart F + amp_nrows F - 1));
          s = s\<lparr>f_minimx := min (f_minimx s) (amp_xstart F), f_minimy := min (f_minimy s) (amp_ystart F)\<rparr>;
          s = (if amp_type F AND UPPER \<noteq> 0 \<and> amp_rotate F = 0
               then s\<lparr>f_amp := (f_amp s)(i := F\<lparr>amp_ystart := to_i32 (amp_ystart F + amp_nrows F)\<rparr>)\<rparr> else s) in
      (maxx, maxy, to_i32 ((maxx - f_minimx s + 1) * (maxy - f_minimy s + 1)), s)))"

text \<open>One turn of the loop; \<open>Inl\<close> is the return after a failed \<open>malloc\<close>.\<close>

definition set_amp :: "(nat \<Rightarrow> int \<Rightarrow> int) \<Rightarrow> amps \<Rightarrow> int \<Rightarrow> int \<Rightarrow> nat \<Rightarrow> int \<times> int \<times> int \<times> gf
    \<Rightarrow> (int \<times> gf) + (int \<times> int \<times> int \<times> gf)" where
  "set_amp mal src oldbytes_pp oldmext i = (\<lambda>(maxx, maxy, etot2, s).
     (let s = copy_geometry src i s;
          (maxx, maxy, etot2, s) = (if f_mext s = 0 \<and> amp_discard (f_amp s i) = 0
                                    then extend_extent i (maxx, maxy, etot2, s) else (maxx, maxy, etot2, s));
          F = f_amp s i in
      if (f_bytes_pp s > oldbytes_pp \<or> f_mext s \<noteq> oldmext) \<and> f_mext s \<noteq> 0 \<and> amp_rotate F \<noteq> 0
      then (let (p, s) = new_block mal (to_u64 (to_i32 (amp_ncols F * amp_nrows F * f_bytes_pp s))) s;
                s = s\<lparr>f_tmpptr := (f_tmpptr s)(i := p)\<rparr> in
            if p = 0 then Inl (- ENOMEM, s)
            else Inr (maxx, maxy, etot2, s\<lparr>f_totEleRead := (f_totEleRead s)(i := 0)\<rparr>))
      else Inr (maxx, maxy, etot2, s\<lparr>f_totEleRead := (f_totEleRead s)(i := 0)\<rparr>)))"

text \<open>A double has 53 bits, and the constant \<open>1.1\<close> is \<open>2476979795053773 / 2^51\<close>.\<close>

definition f64_nat :: "nat \<Rightarrow> nat" where
  "f64_nat n = (let e = nbits n - 53 in rne n (2 ^ e) * 2 ^ e)"

text \<open>\<open>(int)(1.1*totEle*bytes_pp)\<close>\<close>

definition with_margin :: "int \<Rightarrow> int \<Rightarrow> int option" where
  "with_margin n b = in_i32 (int (f64_nat (f64_nat (2476979795053773 * nat n) * nat b) div 2 ^ 51))"

text \<open>The end of \<open>GF_fits_set_values\<close>: a flat image gets a buffer when its size or place changed.\<close>

definition set_canvas :: "(nat \<Rightarrow> int \<Rightarrow> int) \<Rightarrow> int \<Rightarrow> int \<Rightarrow> int \<times> int \<times> int \<times> gf \<Rightarrow> (int \<times> gf) option" where
  "set_canvas mal oldbytes_pp oldmext = (\<lambda>(maxx, maxy, etot2, s).
     (if (f_bytes_pp s > oldbytes_pp \<or> f_mext s \<noteq> oldmext \<or> f_totEle s \<noteq> to_u32 etot2 \<or> f_omaxx s \<noteq> maxx
          \<or> f_omaxy s \<noteq> maxy \<or> f_ominy s \<noteq> f_minimy s \<or> f_ominx s \<noteq> f_minimx s) \<and> f_mext s = 0
      then (let s = (if f_tmpptr s 0 \<noteq> 0 then s\<lparr>f_tmpptr := (f_tmpptr s)(0 := 0)\<rparr> else s);
                s = s\<lparr>f_totcols := to_u32 (maxx - f_minimx s + 1), f_totrows := to_u32 (maxy - f_minimy s + 1),
                      f_totEle := to_u32 etot2, f_ominy := f_minimy s, f_ominx := f_minimx s,
                      f_omaxx := maxx, f_omaxy := maxy\<rparr> in
            case with_margin (f_totEle s) (f_bytes_pp s) of
              None \<Rightarrow> None
            | Some n \<Rightarrow>
                (let (p, s) = new_block mal (to_u64 n) s;
                     s = s\<lparr>f_tmpptr := (f_tmpptr s)(0 := p)\<rparr> in
                 if p = 0 then Some (- ENOMEM, s)
                 else Some (OK, s\<lparr>f_fitsbufsize := to_u32 n,
                        f_mem := memset (f_mem s) p 0 (to_u32 (f_totEle s * f_bytes_pp s))\<rparr>)))
      else Some (OK, s)))"

definition GF_fits_set_values :: "(nat \<Rightarrow> int \<Rightarrow> int) \<Rightarrow> int \<Rightarrow> int \<Rightarrow> int \<Rightarrow> amps \<Rightarrow> gf \<Rightarrow> (int \<times> gf) option" where
  "GF_fits_set_values mal data hdu mult amplifiers s0 =
     (let oldbytes_pp = f_bytes_pp s0; oldmext = f_mext s0;
          s = s0\<lparr>f_minimy := 10 ^ 6, f_minimx := 10 ^ 6, f_datatype := data, f_mext := to_i16 mult, f_hdutype := hdu\<rparr> in
      if amplifiers = Null then Some (- EFAULT, s)
      else (let s = GF_set_bpp mal data s in
        case for_ret (nat (f_namps s)) (set_amp mal amplifiers oldbytes_pp oldmext) (-1, -1, -1, s) of
          Inl r \<Rightarrow> Some r
        | Inr t \<Rightarrow> set_canvas mal oldbytes_pp oldmext t))"

section \<open>Extensions, start and end\<close>

definition GF_close :: "gf \<Rightarrow> gf" where
  "GF_close s0 =
     (let s = for_n (nat (f_namps s0)) (\<lambda>i s. if f_tmpptr s i \<noteq> 0
            then s\<lparr>f_tmpptr := (f_tmpptr s)(i := 0),
                   f_amp := (f_amp s)(i := (f_amp s i)\<lparr>amp_ncols := 0, amp_nrows := 0\<rparr>)\<rparr> else s) s0;
          (_, s) = GF_release_image_buf s in
      s\<lparr>f_namps := 0, f_bytes_pp := 0, f_totcols := 0, f_totrows := 0, f_datatype := 0, f_hdutype := 0\<rparr>)"

definition GF_InitExtensions :: "gf \<Rightarrow> gf" where
  "GF_InitExtensions s = s\<lparr>f_Extension := (\<lambda>i. if i < MAX_AMPS then int i else f_Extension s i)\<rparr>"

definition GF_GetMaxAmps :: int where
  "GF_GetMaxAmps = int MAX_AMPS"

text \<open>The number of extensions written, and what the loop stores to \<open>array\<close> and \<open>discard\<close>.\<close>

definition GF_GetExtensions :: "int \<Rightarrow> gf \<Rightarrow> int \<times> int list \<times> int list" where
  "GF_GetExtensions nelems s =
     (if nelems < int MAX_AMPS then (- ENOMEM, [], [])
      else (let is = [0..<nat (f_namps s)] in
        (int (length (filter (\<lambda>i. amp_discard (f_amp s i) = 0) is)),
         map (\<lambda>i. to_u64 (f_Extension s i)) is, map (\<lambda>i. amp_discard (f_amp s i)) is)))"

definition extension_step :: "int \<Rightarrow> nat \<Rightarrow> int \<times> gf \<Rightarrow> int \<times> gf" where
  "extension_step elements i = (\<lambda>(extptr, s).
     (if int i > elements then (extptr, s\<lparr>f_Extension := (f_Extension s)(i := int i)\<rparr>)
      else (extptr + 4, s\<lparr>f_Extension := (f_Extension s)(i := ld_i32 (f_mem s) extptr)\<rparr>)))"

definition GF_SetExtensions :: "int \<Rightarrow> int \<Rightarrow> gf \<Rightarrow> int \<times> gf" where
  "GF_SetExtensions array elements s =
     (if array = 0 then (- EFAULT, s)
      else (OK, snd (for_n (nat (f_namps s)) (extension_step elements) (array, s))))"

definition GF_init :: "(nat \<Rightarrow> int \<Rightarrow> int) \<Rightarrow> int \<Rightarrow> int \<Rightarrow> int \<Rightarrow> amps \<Rightarrow> int \<Rightarrow> int \<Rightarrow> int \<Rightarrow> gf \<Rightarrow> (int \<times> gf) option" where
  "GF_init mal data hdu mult amplifiers namp totalcols totalrows s0 =
     (let s = (GF_close (s0\<lparr>f_namps := namp\<rparr>))\<lparr>f_namps := namp, f_totcols := to_u32 totalcols,
                 f_totrows := to_u32 totalrows, f_totEle := to_u32 (to_u32 totalcols * to_u32 totalrows)\<rparr> in
      case GF_fits_set_values mal data hdu mult amplifiers s of
        None \<Rightarrow> None
      | Some (ret, s) \<Rightarrow>
          if ret < 0 then Some (ret, s)
          else (let A = amp_at amplifiers s 0; n = to_u32 (amp_ncols A * amp_nrows A) in
            Some (OK, s\<lparr>f_totElePerAmp := n, f_totPixels := to_u32 (namp * n)\<rparr>)))"

end
