(* ===== verification/Gfits_Write.thy ===== *)
theory Gfits_Write imports Gfits_State
begin

text \<open>
  \<open>GFITS/private/c/src/GfitsLib.c\<close>, writing the pixels: every call brings one piece of the image of
  every amplifier.  A file with extensions receives each piece in the extension of its amplifier; a
  flat image is assembled in the buffer \<open>tmpptr[0]\<close> and written when the last piece has arrived.

  CFITSIO is a parameter: a record of the routines the file calls, over a state \<open>'c\<close> of the library.
  A routine gets the status so far and returns the new one.
\<close>

section \<open>CFITSIO\<close>

text \<open>The value of a keyword: what its pointer refers to, for a real the text it was converted from.\<close>

datatype keyval = Text string | Whole int | Real string

record 'c fits =
  ff_create_file :: "string \<Rightarrow> int \<Rightarrow> 'c \<Rightarrow> int \<times> int \<times> 'c"                \<comment> \<open>name, status: handle, status\<close>
  ff_create_memfile :: "int \<Rightarrow> int \<Rightarrow> int \<Rightarrow> 'c \<Rightarrow> int \<times> int \<times> 'c"          \<comment> \<open>address, size, status\<close>
  ff_open_file :: "string \<Rightarrow> int \<Rightarrow> 'c \<Rightarrow> int \<times> int \<times> 'c"
  ff_open_memfile :: "int \<Rightarrow> int \<Rightarrow> int \<Rightarrow> 'c \<Rightarrow> int \<times> int \<times> 'c"
  ff_close_file :: "int \<Rightarrow> int \<Rightarrow> 'c \<Rightarrow> int \<times> 'c"
  ff_flush_file :: "int \<Rightarrow> int \<Rightarrow> 'c \<Rightarrow> int \<times> 'c"
  ff_create_img :: "int \<Rightarrow> int \<Rightarrow> int list \<Rightarrow> int \<Rightarrow> 'c \<Rightarrow> int \<times> 'c"       \<comment> \<open>handle, bitpix, sizes, status\<close>
  ff_insert_img :: "int \<Rightarrow> int \<Rightarrow> int list \<Rightarrow> int \<Rightarrow> 'c \<Rightarrow> int \<times> 'c"
  ff_create_hdu :: "int \<Rightarrow> int \<Rightarrow> 'c \<Rightarrow> int \<times> 'c"
  ff_copy_hdu :: "int \<Rightarrow> int \<Rightarrow> int \<Rightarrow> 'c \<Rightarrow> int \<times> 'c"
  ff_set_hdrsize :: "int \<Rightarrow> int \<Rightarrow> int \<Rightarrow> 'c \<Rightarrow> int \<times> 'c"
  ff_movabs_hdu :: "int \<Rightarrow> int \<Rightarrow> int \<Rightarrow> int \<Rightarrow> 'c \<Rightarrow> int \<times> int \<times> 'c"  \<comment> \<open>handle, number, type, status: type, status\<close>
  ff_movrel_hdu :: "int \<Rightarrow> int \<Rightarrow> int \<Rightarrow> int \<Rightarrow> 'c \<Rightarrow> int \<times> int \<times> 'c"
  ff_get_num_hdus :: "int \<Rightarrow> int \<Rightarrow> 'c \<Rightarrow> int \<times> int"
  ff_get_dataend :: "int \<Rightarrow> int \<Rightarrow> 'c \<Rightarrow> int \<times> int"
  ff_write_img :: "int \<Rightarrow> int \<Rightarrow> int \<Rightarrow> int \<Rightarrow> int \<Rightarrow> mem \<Rightarrow> int \<Rightarrow> 'c \<Rightarrow> int \<times> 'c"
     \<comment> \<open>handle, type, first element, elements, buffer, memory, status\<close>
  ff_write_date :: "int \<Rightarrow> int \<Rightarrow> 'c \<Rightarrow> int \<times> 'c"
  ff_write_comment :: "int \<Rightarrow> string \<Rightarrow> int \<Rightarrow> 'c \<Rightarrow> int \<times> 'c"
  ff_write_key :: "int \<Rightarrow> int \<Rightarrow> string \<Rightarrow> keyval \<Rightarrow> string \<Rightarrow> int \<Rightarrow> 'c \<Rightarrow> int \<times> 'c"
  ff_set_compression_type :: "int \<Rightarrow> int \<Rightarrow> int \<Rightarrow> 'c \<Rightarrow> int \<times> 'c"
  ff_set_tile_dim :: "int \<Rightarrow> int list \<Rightarrow> int \<Rightarrow> 'c \<Rightarrow> int \<times> 'c"
  ff_set_quantize_level :: "int \<Rightarrow> int \<Rightarrow> int \<Rightarrow> 'c \<Rightarrow> int \<times> 'c"
  ff_set_hcomp_smooth :: "int \<Rightarrow> int \<Rightarrow> int \<Rightarrow> 'c \<Rightarrow> int \<times> 'c"
  ff_set_hcomp_scale :: "int \<Rightarrow> int \<Rightarrow> int \<Rightarrow> 'c \<Rightarrow> int \<times> 'c"

section \<open>Percentages in single precision\<close>

text \<open>\<open>((float)a/b) * 100\<close> for whole floats \<open>a\<close> and \<open>b\<close>: the quotient is rounded to 24 bits, the product
  again, and the result is cut off.\<close>

definition f32_percent :: "nat \<Rightarrow> nat \<Rightarrow> nat" where
  "f32_percent a b =
     (if a = 0 then 0
      else let k = 24 + nbits b - nbits a; j = nbits a - (24 + nbits b);
               (k, j) = (if a * 2 ^ k div (b * 2 ^ j) < 2 ^ 24 then (k, j)
                         else if 0 < k then (k - 1, j) else (k, j + 1));
               m = rne (a * 2 ^ k) (b * 2 ^ j) in
        f32_nat (100 * m) * 2 ^ j div 2 ^ k)"

definition percent :: "int \<Rightarrow> int \<Rightarrow> int option" where
  "percent a b =
     (if b = 0 then None else in_i32 (sgn a * int (f32_percent (f32_nat (nat \<bar>a\<bar>)) (f32_nat (nat b)))))"

section \<open>Copying a piece to its place\<close>

definition GF_add_subimage :: "int \<Rightarrow> int \<Rightarrow> int \<Rightarrow> int \<Rightarrow> int \<Rightarrow> int \<Rightarrow> int \<Rightarrow> gf \<Rightarrow> int \<times> gf" where
  "GF_add_subimage genptr subimptr subxstart subystart subcols subrows totalcols s =
     (if genptr = 0 \<or> subimptr = 0 then (- EFAULT, s)
      else (let b = f_bytes_pp s;
                subyend = to_i32 (subystart + subrows - 1);
                y0 = to_i32 (subystart - 1) in
        (OK, s\<lparr>f_mem := fst (for_n (nat (subyend - y0)) (\<lambda>k (m, subptr).
           (memcpy m (genptr + to_i32 (((y0 + int k) * totalcols + (subxstart - 1)) * b))
              subptr (to_i32 (subcols * b)),
            subptr + to_i32 (subcols * b))) (f_mem s, subimptr))\<rparr>)))"

text \<open>A call's results besides the value returned: \<open>*progress\<close>, \<open>*zcnt\<close>, \<open>*num_amps\<close>, not set by an
  early return.  The whole is \<open>None\<close> where the code divides by zero or converts a float that does not
  fit.\<close>

type_synonym 'c written = "(int \<times> (int \<times> int \<times> int) option \<times> gf \<times> 'c) option"

definition set_start :: "nat \<Rightarrow> (amp_t \<Rightarrow> amp_t) \<Rightarrow> gf \<Rightarrow> gf" where
  "set_start i f s = s\<lparr>f_amp := (f_amp s)(i := f (f_amp s i))\<rparr>"

section \<open>One flat image\<close>

text \<open>One turn of the loop of \<open>GF_writeImage_Single\<close>; \<open>d\<close> counts the discarded amplifiers.\<close>

definition single_turn :: "amps \<Rightarrow> int \<Rightarrow> nat \<Rightarrow> int \<times> gf \<Rightarrow> (int \<times> gf) option + int \<times> gf" where
  "single_turn src ampdata i = (\<lambda>(d, s).
     (if amp_discard (f_amp s i) \<le> 0 then
        (let s = set_start i (\<lambda>F. F\<lparr>dataptr := dataptr (amp_at src s i)\<rparr>) s;
             F = f_amp s i; chunk = cdiv ampdata (amp_ncols F);
             add = (\<lambda>cols rows s. GF_add_subimage (f_tmpptr s 0) (dataptr (f_amp s i))
               (to_i32 (amp_xstart (f_amp s i) - f_minimx s + 1)) (to_i32 (amp_ystart (f_amp s i) - f_minimy s + 1))
               cols rows (to_i32 (f_totcols s)) s);
             step = (\<lambda>r f. case r of (ret, s) \<Rightarrow> if ret < 0 then Inl (Some (ret, s)) else Inr (d, set_start i f s)) in
         if dataptr F = 0 then Inl (Some (- EFAULT, s))
         else if amp_ncols F = 0 then Inl None
         else if amp_rotate F = 0 then
           (if amp_type F AND LOWER \<noteq> 0
            then step (add (amp_ncols F) chunk s) (\<lambda>F. F\<lparr>amp_ystart := to_i32 (amp_ystart F + chunk)\<rparr>)
            else step (add (amp_ncols F) chunk (set_start i (\<lambda>F. F\<lparr>amp_ystart := to_i32 (amp_ystart F - chunk)\<rparr>) s)) id)
         else
           (if f_amptype s i = DERTOIZ
            then step (add chunk (amp_ncols F) s) (\<lambda>F. F\<lparr>amp_xstart := to_i32 (amp_xstart F + chunk)\<rparr>)
            else step (add chunk (amp_ncols F) (set_start i (\<lambda>F. F\<lparr>amp_xstart := to_i32 (amp_xstart F - chunk)\<rparr>) s)) id))
      else Inr (d + 1, s)))"

text \<open>The region of interest is copied line by line to \<open>roiptr\<close>; the offset is a \<open>u32\<close>.\<close>

definition copy_roi :: "gf \<Rightarrow> mem" where
  "copy_roi s =
     (let linebytes = to_u32 (f_xroilen s * f_bytes_pp s) in
      for_n (nat (f_yroilen s)) (\<lambda>line m.
        memcpy m (f_roiptr s + int line * linebytes)
          (f_tmpptr s 0 + to_u32 (((f_yroist s - 1 + int line) * f_totcols s + f_xroist s - 1) * f_bytes_pp s))
          linebytes) (f_mem s))"

definition write_canvas :: "'c fits \<Rightarrow> int \<Rightarrow> gf \<Rightarrow> 'c \<Rightarrow> int \<times> gf \<times> 'c" where
  "write_canvas lib fptr s c =
     (if f_is_roi s then
        (let s = s\<lparr>f_mem := copy_roi s\<rparr>;
             (stat, c) = ff_write_img lib fptr (f_datatype s) 1 (to_u32 (f_xroilen s * f_yroilen s)) (f_roiptr s) (f_mem s) 0 c in
         (stat, s, c))
      else
        (case ff_write_img lib fptr (f_datatype s) (to_u32 (f_totEle s * f_nzcnt s + 1)) (f_totEle s) (f_tmpptr s 0) (f_mem s) 0 c of
           (stat, c) \<Rightarrow> (stat, s, c)))"

definition GF_writeImage_Single :: "(nat \<Rightarrow> int \<Rightarrow> int) \<Rightarrow> 'c fits \<Rightarrow> int \<Rightarrow> amps \<Rightarrow> int \<Rightarrow> gf \<Rightarrow> 'c \<Rightarrow> 'c written" where
  "GF_writeImage_Single mal lib ref amplifiers eleRead0 s c =
     (if ref = 0 then Some (- EBADF, None, s, c)
      else if eleRead0 \<le> 0 then Some (OK, None, s, c)
      else if f_tmpptr s 0 = 0 then Some (- EFAULT, None, s, c)
      else if amplifiers = Null then Some (- EFAULT, None, s, c)
      else if f_namps s = 0 then None
      else
        (let eleRead = (if eleRead0 > f_totPixels s then to_i32 (f_totPixels s) else eleRead0);
             ampdata = cdiv eleRead (f_namps s);
             s = s\<lparr>f_totEleRead := (f_totEleRead s)(0 := to_i32 (f_totEleRead s 0 + eleRead))\<rparr> in
         case for_ret (nat (f_namps s)) (single_turn amplifiers ampdata) (0, s) of
           Inl r \<Rightarrow> map_option (\<lambda>(ret, s). (ret, None, s, c)) r
         | Inr (discarded, s) \<Rightarrow>
             (case percent (to_u32 (f_nzcnt s * f_totPixels s + f_totEleRead s 0)) (to_u32 (f_nzim s * f_totPixels s)) of
                None \<Rightarrow> None
              | Some progress \<Rightarrow>
                  if to_u32 (f_totEleRead s 0) = f_totPixels s then
                    (case write_canvas lib ref s c of
                       (stat, s, c) \<Rightarrow>
                         (case (if f_nzim s \<ge> 1
                                then map_option snd (GF_fits_set_values mal (f_datatype s) (f_hdutype s) (f_mext s) amplifiers
                                       (s\<lparr>f_nzcnt := to_i32 (f_nzcnt s + 1)\<rparr>))
                                else Some s) of
                            None \<Rightarrow> None
                          | Some s \<Rightarrow> Some (- stat, Some (progress, f_nzcnt s, f_namps s - discarded), s, c)))
                  else Some (0, Some (progress, f_nzcnt s, f_namps s - discarded), s, c))))"

section \<open>One extension per amplifier\<close>

definition move_and_write :: "'c fits \<Rightarrow> int \<Rightarrow> int \<Rightarrow> int \<Rightarrow> int \<Rightarrow> int \<Rightarrow> int \<times> gf \<times> 'c \<Rightarrow> int \<times> gf \<times> 'c" where
  "move_and_write lib fptr hdu firstel n buf = (\<lambda>(stat, s, c).
     (let (ty, stat, c) = ff_movabs_hdu lib fptr hdu (f_hdutype s) stat c;
          s = s\<lparr>f_hdutype := ty\<rparr>;
          (stat, c) = ff_write_img lib fptr (f_datatype s) firstel n buf (f_mem s) stat c in
      (stat, s, c)))"

text \<open>A rotated amplifier is assembled in a buffer of its own, and written when it is complete.\<close>

definition rotated_piece :: "'c fits \<Rightarrow> int \<Rightarrow> int \<Rightarrow> int \<Rightarrow> int \<Rightarrow> nat \<Rightarrow> int \<times> gf \<times> 'c
    \<Rightarrow> (int \<times> gf \<times> 'c) option + int \<times> gf \<times> 'c" where
  "rotated_piece lib fptr hdu buffer ampdata i = (\<lambda>(stat, s, c).
     (let chunkcols = cdiv ampdata (amp_ncols (f_amp s i));
          s = (if f_amptype s i = DERTOIZ then s
               else set_start i (\<lambda>F. F\<lparr>amp_xstart := to_i32 (amp_xstart F - chunkcols)\<rparr>) s);
          F = f_amp s i in
      if amp_ncols F = 0 then Inl None
      else case GF_add_subimage (f_tmpptr s i) buffer (amp_xstart F) (amp_ystart F) chunkcols (amp_ncols F) (amp_nrows F) s of
        (ret, s) \<Rightarrow>
          if ret < 0 then Inl (Some (ret, s, c))
          else (let s = (if f_amptype s i = DERTOIZ
                         then set_start i (\<lambda>F. F\<lparr>amp_xstart := to_i32 (amp_xstart F + chunkcols)\<rparr>) s else s) in
                if to_u32 (f_totEleRead s i) \<ge> f_totElePerAmp s
                then Inr (move_and_write lib fptr hdu 1 (f_totElePerAmp s) (f_tmpptr s i) (stat, s, c))
                else Inr (stat, s, c))))"

text \<open>One turn of the loop: the status, the discarded amplifiers and \<open>lasttotread\<close> are carried along.
  Only a failure of a lower amplifier that is not rotated returns.\<close>

definition multiple_turn :: "'c fits \<Rightarrow> int \<Rightarrow> amps \<Rightarrow> int \<Rightarrow> nat \<Rightarrow> int \<times> int \<times> int \<times> gf \<times> 'c
    \<Rightarrow> (int \<times> gf \<times> 'c) option + int \<times> int \<times> int \<times> gf \<times> 'c" where
  "multiple_turn lib fptr src ampdata i = (\<lambda>(d, lasttot, stat, s, c).
     (if amp_discard (f_amp s i) \<le> 0 then
        (let buffer = dataptr (amp_at src s i) in
         if buffer = 0 then Inl (Some (- EFAULT, s, c))
         else
           (let s = s\<lparr>f_totEleRead := (f_totEleRead s)(i := to_i32 (f_totEleRead s i + ampdata))\<rparr>;
                hdu = to_i32 (f_Extension s i + 2 - d); ty = amp_type (f_amp s i) in
            if amp_rotate (f_amp s i) = 0 then
              (let firstel = (if ty = LL \<or> ty = LR then to_i32 (f_totEleRead s i - ampdata + 1)
                              else to_i32 (f_totElePerAmp s - f_totEleRead s i + 1)) in
               case move_and_write lib fptr hdu firstel ampdata buffer (stat, s, c) of
                 (stat, s, c) \<Rightarrow>
                   if (ty = LL \<or> ty = LR) \<and> stat \<noteq> 0 then Inl (Some (- stat, s, c))
                   else Inr (d, f_totEleRead s i, stat, s, c))
            else
              (case rotated_piece lib fptr hdu buffer ampdata i (stat, s, c) of
                 Inl r \<Rightarrow> Inl r
               | Inr (stat, s, c) \<Rightarrow> Inr (d, f_totEleRead s i, stat, s, c))))
      else Inr (d + 1, lasttot, stat, s, c)))"

definition GF_writeImage_Multiple :: "'c fits \<Rightarrow> int \<Rightarrow> amps \<Rightarrow> int \<Rightarrow> gf \<Rightarrow> 'c \<Rightarrow> 'c written" where
  "GF_writeImage_Multiple lib ref amplifiers eleRead0 s c =
     (if ref = 0 then Some (- EBADF, None, s, c)
      else if eleRead0 \<le> 0 then Some (OK, None, s, c)
      else if amplifiers = Null then Some (- EFAULT, None, s, c)
      else if f_namps s = 0 then None
      else
        (let eleRead = (if eleRead0 > f_totPixels s then to_i32 (f_totPixels s) else eleRead0);
             ampdata = cdiv eleRead (f_namps s) in
         case for_ret (nat (f_namps s)) (multiple_turn lib ref amplifiers ampdata) (0, 0, 0, s, c) of
           Inl r \<Rightarrow> map_option (\<lambda>(ret, s, c). (ret, None, s, c)) r
         | Inr (discarded, lasttot, stat, s, c) \<Rightarrow>
             map_option (\<lambda>p. (0, Some (p, 0, f_namps s - discarded), s, c)) (percent lasttot (f_totElePerAmp s))))"

definition GF_writeImage :: "(nat \<Rightarrow> int \<Rightarrow> int) \<Rightarrow> 'c fits \<Rightarrow> int \<Rightarrow> amps \<Rightarrow> int \<Rightarrow> gf \<Rightarrow> 'c \<Rightarrow> 'c written" where
  "GF_writeImage mal lib ref amplifiers eleRead s c =
     (if f_mext s \<noteq> 0 then GF_writeImage_Multiple lib ref amplifiers eleRead s c
      else GF_writeImage_Single mal lib ref amplifiers eleRead s c)"

text \<open>The pieces lie one after the other in a buffer; \<open>fitsamp\<close> itself serves as the amplifier table.\<close>

definition GF_writeImage_from_buf :: "(nat \<Rightarrow> int \<Rightarrow> int) \<Rightarrow> 'c fits \<Rightarrow> int \<Rightarrow> int \<Rightarrow> int \<Rightarrow> gf \<Rightarrow> 'c \<Rightarrow> 'c written" where
  "GF_writeImage_from_buf mal lib ref buffer eleRead s c =
     (if buffer = 0 then Some (- EFAULT, None, s, c)
      else if f_namps s = 0 then None
      else
        (let ampdata_bytes = cdiv (to_i32 (eleRead * f_bytes_pp s)) (f_namps s);
             s = for_n (nat (f_namps s)) (\<lambda>i. set_start i (\<lambda>F. F\<lparr>dataptr := to_u64 (buffer + to_i32 (int i * ampdata_bytes))\<rparr>)) s in
         GF_writeImage mal lib ref Own eleRead s c))"

end
