(* ===== verification/Gfits_File.thy ===== *)
theory Gfits_File imports Gfits_Write CText
begin

text \<open>
  \<open>GFITS/private/c/src/GfitsLib.c\<close>, the file half: creating a file on disk or in memory, its images and
  extensions, closing it, keywords, and the plain image writer.
\<close>

abbreviation (input) RICE_1 :: int where "RICE_1 \<equiv> 11"
abbreviation (input) HCOMPRESS_1 :: int where "HCOMPRESS_1 \<equiv> 41"
abbreviation (input) PLIO_1 :: int where "PLIO_1 \<equiv> 31"
abbreviation (input) NOCOMPRESS :: int where "NOCOMPRESS \<equiv> 0"
abbreviation (input) LONG_IMG :: int where "LONG_IMG \<equiv> 32"
abbreviation (input) FLOAT_IMG :: int where "FLOAT_IMG \<equiv> - 32"
abbreviation (input) USHORT_IMG :: int where "USHORT_IMG \<equiv> 20"
abbreviation (input) BADREF :: int where "BADREF \<equiv> 0"

section \<open>Compression directives\<close>

text \<open>\<open>strtok\<close>: the next token and the rest of the string.\<close>

definition strtok :: "string \<Rightarrow> string \<Rightarrow> string option \<times> string" where
  "strtok delims s =
     (let t = dropWhile (\<lambda>c. c \<in> set delims) s in
      if t = [] then (None, [])
      else (Some (takeWhile (\<lambda>c. c \<notin> set delims) t), drop 1 (dropWhile (\<lambda>c. c \<notin> set delims) t)))"

fun strstr :: "string \<Rightarrow> string \<Rightarrow> bool" where
  "strstr [] w = (w = [])"
| "strstr (c # cs) w = (take (length w) (c # cs) = w \<or> strstr cs w)"

definition starts :: "string \<Rightarrow> string \<Rightarrow> bool" where
  "starts w s \<longleftrightarrow> take (length w) s = w"

definition atoi :: "string \<Rightarrow> int" where
  "atoi s = to_i32 (fst (strtol 10 s))"

abbreviation (input) delim :: string where "delim \<equiv> '' ,;]''"

text \<open>The method named after \<open>[compress\<close>, and the smoothing flag.\<close>

definition compress_method :: "string option \<Rightarrow> int \<times> int" where
  "compress_method tok =
     (case tok of
        None \<Rightarrow> (RICE_1, 0)
      | Some i \<Rightarrow>
          if starts ''R'' i then (RICE_1, 0)
          else if starts ''G'' i then (RICE_1, 0)
          else if starts ''H'' i then (HCOMPRESS_1, if starts ''HS'' i then 1 else 0)
          else if starts ''P'' i then (PLIO_1, 0)
          else (NOCOMPRESS, 0))"

text \<open>The scale, then the quantization before it, then the tiles before both; \<open>atof\<close> is the value cut to
  an \<open>i32\<close>.\<close>

definition compress_scale :: "(string \<Rightarrow> int) \<Rightarrow> 'c fits \<Rightarrow> int \<Rightarrow> string \<Rightarrow> string \<Rightarrow> 'c \<Rightarrow> int \<times> 'c" where
  "compress_scale atof lib fptr i rest c =
     (if starts ''s'' i then
        (case strtok '' '' rest of
           (None, _) \<Rightarrow> (OK, c)
         | (Some i, _) \<Rightarrow>
             if atof i > 0 then (case ff_set_hcomp_scale lib fptr (atof i) 0 c of (stat, c) \<Rightarrow> (- stat, c)) else (OK, c))
      else (OK, c))"

definition compress_quant :: "(string \<Rightarrow> int) \<Rightarrow> 'c fits \<Rightarrow> int \<Rightarrow> int \<Rightarrow> string \<Rightarrow> string \<Rightarrow> 'c \<Rightarrow> int \<times> 'c" where
  "compress_quant atof lib fptr smooth i rest c =
     (if starts ''q'' i then
        (case strtok '' '' rest of
           (None, _) \<Rightarrow> (OK, c)
         | (Some i, rest) \<Rightarrow>
             if atof i > 0 then
               (case ff_set_quantize_level lib fptr (atof i) 0 c of (stat, c) \<Rightarrow>
                  if stat \<noteq> 0 then (- stat, c)
                  else (case ff_set_hcomp_smooth lib fptr smooth 0 c of (stat, c) \<Rightarrow>
                    if stat \<noteq> 0 then (- stat, c)
                    else (case strtok delim rest of
                       (None, _) \<Rightarrow> (OK, c)
                     | (Some i, rest) \<Rightarrow> compress_scale atof lib fptr i rest c)))
             else compress_scale atof lib fptr i rest c)
      else compress_scale atof lib fptr i rest c)"

definition compress_tiles :: "(string \<Rightarrow> int) \<Rightarrow> 'c fits \<Rightarrow> int \<Rightarrow> int \<Rightarrow> string \<Rightarrow> string \<Rightarrow> 'c \<Rightarrow> int \<times> 'c" where
  "compress_tiles atof lib fptr smooth i rest c =
     (let x = atoi i in
      if x > 0 then
        (case strtok delim rest of
           (None, _) \<Rightarrow> (OK, c)
         | (Some i, rest) \<Rightarrow>
             (let y = atoi i in
              if y > 0 then
                (case ff_set_tile_dim lib fptr [x, y] 0 c of (stat, c) \<Rightarrow>
                   if stat \<noteq> 0 then (- stat, c)
                   else (case strtok delim rest of
                      (None, _) \<Rightarrow> (OK, c)
                    | (Some i, rest) \<Rightarrow> compress_quant atof lib fptr smooth i rest c))
              else compress_quant atof lib fptr smooth i rest c))
      else compress_quant atof lib fptr smooth i rest c)"

definition GF_compress_img :: "(string \<Rightarrow> int) \<Rightarrow> 'c fits \<Rightarrow> int \<Rightarrow> string \<Rightarrow> 'c \<Rightarrow> int \<times> 'c" where
  "GF_compress_img atof lib fptr name c =
     (if \<not> strstr name ''[compress'' then (OK, c)
      else
        (let rest = snd (strtok '' '' name); (tok, rest) = strtok '' '' rest;
             (compress, smooth) = compress_method tok;
             (stat, c) = ff_set_compression_type lib fptr compress 0 c in
         if stat \<noteq> 0 then (- stat, c)
         else (case strtok delim rest of
            (None, _) \<Rightarrow> (OK, c)
          | (Some i, rest) \<Rightarrow> compress_tiles atof lib fptr smooth i rest c)))"

section \<open>Opening and creating a file\<close>

definition GF_open_file :: "'c fits \<Rightarrow> string \<Rightarrow> 'c \<Rightarrow> int \<times> int \<times> 'c" where
  "GF_open_file lib filename c = ff_open_file lib filename 0 c"

text \<open>The buffer for \<open>nbufs\<close> images in memory: kept while it is large enough.  \<open>False\<close>: no memory.\<close>

definition image_buffer :: "(nat \<Rightarrow> int \<Rightarrow> int) \<Rightarrow> gf \<Rightarrow> bool \<times> gf" where
  "image_buffer mal s0 =
     (let s = s0\<lparr>f_imsize := to_u32 (f_totEle s0 * f_bytes_pp s0 + f_namps s0 * 5760)\<rparr>;
          bsize = to_u64 (f_nbufs s * f_imsize s) in
      if f_membufsize s < bsize then
        (let s = (if f_membuf s \<noteq> 0 then snd (GF_release_image_buf s) else s);
             (p, s) = GF_allocate_image_buf mal bsize s;
             s = s\<lparr>f_membuf := p\<rparr> in
         if p = 0 then (False, s\<lparr>f_membufsize := 0\<rparr>)
         else (True, s\<lparr>f_membufsize := bsize, f_nextbuf := p, f_bufcnt := 0\<rparr>))
      else (True, s))"

text \<open>The handle, \<open>*err\<close> and the states; \<open>None\<close>: \<open>bzero\<close> of a null pointer.\<close>

definition GF_create_file :: "(nat \<Rightarrow> int \<Rightarrow> int) \<Rightarrow> (string \<Rightarrow> int) \<Rightarrow> 'c fits \<Rightarrow> string \<Rightarrow> gf \<Rightarrow> 'c
    \<Rightarrow> (int \<times> int \<times> gf \<times> 'c) option" where
  "GF_create_file mal atof lib name s c =
     (let finish = (\<lambda>fptr stat s c. if stat \<noteq> 0 then Some (0, stat, s, c) else Some (fptr, 0, s, c)) in
      if f_memfits s then
        (case image_buffer mal s of
           (False, s) \<Rightarrow> Some (to_u64 (- ENOMEM), - ENOMEM, s, c)
         | (True, s) \<Rightarrow>
             if f_nextbuf s = 0 \<and> f_imsize s > 0 then None
             else
               (let s = s\<lparr>f_mem := memset (f_mem s) (f_nextbuf s) 0 (f_imsize s)\<rparr>;
                    (fptr, stat, c) = ff_create_memfile lib (f_nextbuf s) (f_imsize s) 0 c;
                    (_, c) = GF_compress_img atof lib fptr name c in
                finish fptr stat s c))
      else (case ff_create_file lib name 0 c of (fptr, stat, c) \<Rightarrow> finish fptr stat s c))"

text \<open>CFITSIO's text for the status, or none.\<close>

definition GF_get_error_text :: "(int \<Rightarrow> string) \<Rightarrow> int \<Rightarrow> string" where
  "GF_get_error_text errstatus status =
     (let status = \<bar>status\<bar> in if status < 100 \<or> status = 0 then [] else errstatus status)"

section \<open>Creating the images\<close>

definition bitpix_of :: "int \<Rightarrow> int" where
  "bitpix_of data = (if data = TLONG then LONG_IMG else if data = TFLOAT then FLOAT_IMG else USHORT_IMG)"

text \<open>The sides of a flat image; the region of interest counts when its rows fit.\<close>

definition flat_sizes :: "gf \<Rightarrow> bool \<times> int \<times> int" where
  "flat_sizes s =
     (if f_is_roi s then
        (let w = (if to_u32 (f_xroist s + f_xroilen s - 1) \<le> f_totcols s then f_xroilen s else f_totcols s) in
         if to_u32 (f_yroist s + f_yroilen s - 1) \<le> f_totrows s then (True, w, f_yroilen s) else (False, w, f_totrows s))
      else (False, f_totcols s, f_totrows s))"

text \<open>The extension of amplifier \<open>i\<close>; \<open>Inl\<close>: the status of a failure, or \<open>None\<close> outside the table.\<close>

definition create_extension :: "'c fits \<Rightarrow> int \<Rightarrow> int \<Rightarrow> int \<Rightarrow> gf \<Rightarrow> nat \<Rightarrow> 'c \<Rightarrow> (int \<times> 'c) option + 'c" where
  "create_extension lib fptr bitpix nkeys s i c =
     (if amp_discard (f_amp s i) \<le> 0 then
        (if f_Extension s i < 0 \<or> f_Extension s i \<ge> int MAX_AMPS then Inl None
         else
           (let A = f_amp s (nat (f_Extension s i));
                sizes = (if amp_rotate (f_amp s i) = 0 then [amp_ncols A, amp_nrows A] else [amp_nrows A, amp_ncols A]);
                (stat, c) = ff_create_hdu lib fptr 0 c in
            if stat \<noteq> 0 then Inl (Some (stat, c))
            else
              (let (stat, c) = ff_insert_img lib fptr bitpix sizes 0 c;
                   (stat, c) = ff_set_hdrsize lib fptr nkeys stat c in
               if stat \<noteq> 0 then Inl (Some (stat, c)) else Inr c)))
      else Inr c)"

text \<open>The reference, \<open>*err\<close> (unchanged when all went well) and the states.\<close>

definition GF_create_img :: "(nat \<Rightarrow> int \<Rightarrow> int) \<Rightarrow> (string \<Rightarrow> int) \<Rightarrow> 'c fits \<Rightarrow> string \<Rightarrow> int \<Rightarrow> int \<Rightarrow> int \<Rightarrow> amps \<Rightarrow> int
    \<Rightarrow> int \<Rightarrow> gf \<Rightarrow> 'c \<Rightarrow> (int \<times> int \<times> gf \<times> 'c) option" where
  "GF_create_img mal atof lib name data hdu mult amplifiers nkeys0 err s c =
     (if f_totcols s = 0 \<or> f_totrows s = 0 \<or> f_datatype s = 0 then Some (BADREF, - EINVAL, s, c)
      else
        (let s = (if f_memfits s then GF_set_bpp mal data s else s) in
         case GF_create_file mal atof lib name s c of
           None \<Rightarrow> None
         | Some (ref, stat, s, c) \<Rightarrow>
             if ref = 0 \<or> stat \<noteq> 0 then Some (BADREF, - stat, s, c)
             else
               (case GF_fits_set_values mal data hdu mult amplifiers s of
                  None \<Rightarrow> None
                | Some (ret, s) \<Rightarrow>
                    if ret < 0 then Some (BADREF, - stat, s, c)
                    else
                      (let s = s\<lparr>f_nzcnt := 0\<rparr>; nkeys = max nkeys0 0; bitpix = bitpix_of (f_datatype s) in
                       if f_mext s = 0 then
                         (let (roi, w, h) = flat_sizes s; s = s\<lparr>f_is_roi := roi\<rparr>;
                              (stat, c) = ff_create_img lib ref bitpix (if f_nzim s > 1 then [w, h, f_nzim s] else [w, h]) 0 c;
                              (stat, c) = ff_set_hdrsize lib ref nkeys stat c in
                          Some (if stat \<noteq> 0 then (BADREF, - stat, s, c) else (ref, err, s, c)))
                       else
                         (let (stat, c) = ff_create_img lib ref bitpix [] 0 c;
                              (stat, c) = ff_set_hdrsize lib ref nkeys stat c in
                          if stat \<noteq> 0 then Some (BADREF, - stat, s, c)
                          else
                            (case for_ret (nat (f_namps s)) (create_extension lib ref bitpix nkeys s) c of
                               Inl r \<Rightarrow> map_option (\<lambda>(stat, c). (BADREF, - stat, s, c)) r
                             | Inr c \<Rightarrow>
                                 (let (ty, stat, c) = ff_movabs_hdu lib ref 1 (f_hdutype s) 0 c; s = s\<lparr>f_hdutype := ty\<rparr> in
                                  Some (if stat \<noteq> 0 then (BADREF, - stat, s, c) else (ref, err, s, c)))))))))"

section \<open>Closing and copying\<close>

text \<open>The next image in memory goes behind this one, or to the start of the buffer.\<close>

definition next_image :: "gf \<Rightarrow> gf" where
  "next_image s =
     (let n = to_i32 (f_bufcnt s + 1); n = (if n \<ge> f_nbufs s then 0 else n) in
      s\<lparr>f_bufcnt := n, f_nextbuf := to_u64 (f_membuf s + f_imsize s * n)\<rparr>)"

definition GF_fits_close_file :: "'c fits \<Rightarrow> int \<Rightarrow> gf \<Rightarrow> 'c \<Rightarrow> int \<times> gf \<times> 'c" where
  "GF_fits_close_file lib ref s c =
     (if ref = 0 then (- EBADF, s, c)
      else
        (let (_, c) = ff_flush_file lib ref 0 c;
             (s, c) = (if f_memfits s then
                 (let (hdunum, _) = ff_get_num_hdus lib ref 0 c;
                      (_, _, c) = ff_movabs_hdu lib ref hdunum 0 0 c;
                      (dataend, _) = ff_get_dataend lib ref 0 c;
                      s = s\<lparr>f_memfitssize := to_u64 dataend\<rparr>;
                      s = s\<lparr>f_hdrsize := to_u64 (f_memfitssize s - to_u32 (f_totEle s * f_bytes_pp s))\<rparr> in
                  (next_image s, c)) else (s, c));
             (stat, c) = ff_close_file lib ref 0 c in
         (- stat, s, c)))"

text \<open>One turn of the loop of \<open>GF_fits_write_from_mem\<close>; \<open>Inl\<close> is a return.\<close>

definition copy_turn :: "'c fits \<Rightarrow> int \<Rightarrow> int \<Rightarrow> nat \<Rightarrow> int \<times> gf \<times> 'c \<Rightarrow> (int \<times> gf \<times> 'c) + (int \<times> gf \<times> 'c)" where
  "copy_turn lib infptr outfptr i = (\<lambda>(status, s, c).
     (let (ty, status, c) = ff_movabs_hdu lib infptr (int i + 1) (f_hdutype s) status c;
          s = s\<lparr>f_hdutype := ty\<rparr> in
      if status \<noteq> 0 then Inl (- status, s, c)
      else
        (let (status, c) = ff_copy_hdu lib infptr outfptr status c in
         if status \<noteq> 0 then Inl (- status, s, c) else Inr (status, s, c))))"

definition GF_fits_write_from_mem :: "'c fits \<Rightarrow> string \<Rightarrow> gf \<Rightarrow> 'c \<Rightarrow> int \<times> gf \<times> 'c" where
  "GF_fits_write_from_mem lib filename s c =
     (if f_memfits s then
        (if f_membuf s = 0 \<or> f_membufsize s = 0 then (- EFAULT, s, c)
         else
           (let (infptr, status, c) = ff_open_memfile lib (f_membuf s) (f_membufsize s) 0 c in
            if status \<noteq> 0 then (- status, s, c)
            else
              (let (outfptr, status, c) = ff_create_file lib filename status c in
               if status \<noteq> 0 then (- status, s, c)
               else
                 (let (hdunum, status) = ff_get_num_hdus lib infptr status c in
                  case for_ret (nat hdunum) (copy_turn lib infptr outfptr) (status, s, c) of
                    Inl r \<Rightarrow> r
                  | Inr (status, s, c) \<Rightarrow>
                      (let (status, c) = ff_close_file lib infptr status c in
                       if status \<noteq> 0 then (- status, s, c)
                       else
                         (let (status, c) = ff_close_file lib outfptr status c in
                          if status \<noteq> 0 then (- status, s, c) else (OK, s, c)))))))
      else (OK, s, c))"

section \<open>Keywords and extensions\<close>

definition on_file :: "int \<Rightarrow> ('c \<Rightarrow> int \<times> 'c) \<Rightarrow> 'c \<Rightarrow> int \<times> 'c" where
  "on_file ref call c = (if ref = 0 then (- EBADF, c) else (case call c of (stat, c) \<Rightarrow> (- stat, c)))"

definition labfits_write_date :: "'c fits \<Rightarrow> int \<Rightarrow> 'c \<Rightarrow> int \<times> 'c" where
  "labfits_write_date lib ref = on_file ref (ff_write_date lib ref 0)"

definition labfits_write_comment :: "'c fits \<Rightarrow> int \<Rightarrow> string \<Rightarrow> 'c \<Rightarrow> int \<times> 'c" where
  "labfits_write_comment lib ref comment = on_file ref (ff_write_comment lib ref comment 0)"

definition labfits_write_key :: "'c fits \<Rightarrow> int \<Rightarrow> int \<Rightarrow> string \<Rightarrow> keyval \<Rightarrow> string \<Rightarrow> 'c \<Rightarrow> int \<times> 'c" where
  "labfits_write_key lib ref datatype keyname v comment = on_file ref (ff_write_key lib ref datatype keyname v comment 0)"

text \<open>Several keywords; the statuses, each starting from 0, are added.\<close>

fun write_keys :: "'c fits \<Rightarrow> int \<Rightarrow> (string \<times> string \<times> string) list \<Rightarrow> 'c \<Rightarrow> int \<times> 'c" where
  "write_keys lib ref [] c = (0, c)"
| "write_keys lib ref ((key, v, comment) # ks) c =
     (case ff_write_key lib ref 16 key (Text v) comment 0 c of
        (stat, c) \<Rightarrow> (case write_keys lib ref ks c of (others, c) \<Rightarrow> (stat + others, c)))"

text \<open>\<open>None\<close>: the name does not fit \<open>keyname[10]\<close>.\<close>

definition labfits_write_geom_single :: "'c fits \<Rightarrow> int \<Rightarrow> string \<Rightarrow> string \<Rightarrow> string \<Rightarrow> string \<Rightarrow> string \<Rightarrow> string \<Rightarrow> 'c
    \<Rightarrow> (int \<times> 'c) option" where
  "labfits_write_geom_single lib ref Asec Bsec Csec Dsec Tsec amplifier c =
     (if ref = 0 then Some (- EBADF, c)
      else if length amplifier > 5 then None
      else (case write_keys lib ref
          [(''ASEC'' @ amplifier, Asec, ''amplifier section''), (''BSEC'' @ amplifier, Bsec, ''bias section''),
           (''CSEC'' @ amplifier, Csec, ''ccd section''), (''DSEC'' @ amplifier, Dsec, ''data section''),
           (''TSEC'' @ amplifier, Tsec, ''trim section'')] c of
        (others, c) \<Rightarrow> Some (- others, c)))"

definition labfits_write_geom_multiple :: "'c fits \<Rightarrow> int \<Rightarrow> string \<Rightarrow> string \<Rightarrow> string \<Rightarrow> string \<Rightarrow> string \<Rightarrow> string \<Rightarrow> string
    \<Rightarrow> 'c \<Rightarrow> int \<times> 'c" where
  "labfits_write_geom_multiple lib ref data bias ccd amp trim det ccdsize =
     on_file ref (write_keys lib ref
       [(''DATASEC'', data, ''data section''), (''BIASSEC'', bias, ''overscan section''), (''CCDSEC'', ccd, ''ccd section''),
        (''AMPSEC'', amp, ''amplifier section''), (''TRIMSEC'', trim, ''trim section''), (''DETSEC'', det, ''detector section''),
        (''CCDSIZE'', ccdsize, ''ccd size'')])"

definition strtoul :: "string \<Rightarrow> int" where
  "strtoul s =
     (let (neg, t) = read_sign (dropWhile is_space s); n = int (fst (digits 10 0 t)) in
      if \<not> starts_number 10 t then 0
      else if n \<ge> 2 ^ 64 then 2 ^ 64 - 1
      else if neg then to_u64 (- n) else n)"

text \<open>The value for a keyword of a type, read from text.  \<open>None\<close>: a byte is passed in a variable that was
  never set.\<close>

definition key_value :: "int \<Rightarrow> string \<Rightarrow> keyval option" where
  "key_value datatype v =
     (if datatype = TLONG then Some (Whole (fst (strtol 10 v)))
      else if datatype = 31 \<or> datatype = 14 then Some (Whole (atoi v))
      else if datatype = 40 then Some (Whole (strtoul v))
      else if datatype = 30 then Some (Whole (to_u32 (strtoul v)))
      else if datatype = TFLOAT \<or> datatype = 82 \<or> datatype = 83 then Some (Real v)
      else if datatype = TSHORT then Some (Whole (to_i16 (atoi v)))
      else if datatype = TUSHORT then Some (Whole (to_u16 (atoi v)))
      else if datatype = 11 then None
      else Some (Text v))"

definition labfits_write_key_from_char :: "'c fits \<Rightarrow> int \<Rightarrow> int \<Rightarrow> string \<Rightarrow> string \<Rightarrow> string \<Rightarrow> 'c \<Rightarrow> (int \<times> 'c) option" where
  "labfits_write_key_from_char lib ref datatype keyname v comment c =
     (if ref = 0 then Some (- EBADF, c)
      else if keyname = [] then Some (0, c)
      else map_option (\<lambda>kv. labfits_write_key lib ref datatype keyname kv comment c) (key_value datatype v))"

text \<open>The lines of three texts in step; \<open>None\<close>: a name is missing.  A missing value or comment is passed
  on as a null pointer, which the model does not follow.\<close>

fun write_lines :: "'c fits \<Rightarrow> int \<Rightarrow> int list \<Rightarrow> string \<Rightarrow> string \<Rightarrow> string \<Rightarrow> int \<Rightarrow> 'c \<Rightarrow> (int \<times> 'c) option" where
  "write_lines lib ref [] names vals comments stat c = Some (stat, c)"
| "write_lines lib ref (ty # tys) names vals comments stat c =
     (case (strtok [CHR 0x0A] names, strtok [CHR 0x0A] vals, strtok [CHR 0x0A] comments) of
        ((Some key, names), (Some v, vals), (Some comment, comments)) \<Rightarrow>
          (case labfits_write_key_from_char lib ref ty key v comment c of
             None \<Rightarrow> None
           | Some (stat, c) \<Rightarrow> write_lines lib ref tys names vals comments stat c)
      | _ \<Rightarrow> None)"

definition labfits_writw_key_from_array :: "'c fits \<Rightarrow> int \<Rightarrow> int list \<Rightarrow> string \<Rightarrow> string \<Rightarrow> string \<Rightarrow> 'c \<Rightarrow> (int \<times> 'c) option" where
  "labfits_writw_key_from_array lib ref typearr namearr valarr commarr c =
     map_option (\<lambda>(stat, c). (- stat, c)) (write_lines lib ref (map to_i32 typearr) namearr valarr commarr 0 c)"

definition labfits_create_hdu :: "'c fits \<Rightarrow> int \<Rightarrow> 'c \<Rightarrow> int \<times> 'c" where
  "labfits_create_hdu lib ref = on_file ref (ff_create_hdu lib ref 0)"

definition labfits_insert_img :: "'c fits \<Rightarrow> int \<Rightarrow> int \<Rightarrow> int list \<Rightarrow> 'c \<Rightarrow> int \<times> 'c" where
  "labfits_insert_img lib ref bitpix naxes = on_file ref (ff_insert_img lib ref bitpix naxes 0)"

definition GF_fits_movabs_hdu :: "'c fits \<Rightarrow> int \<Rightarrow> int \<Rightarrow> int \<Rightarrow> 'c \<Rightarrow> int \<times> 'c" where
  "GF_fits_movabs_hdu lib ref hdunum hdutyp = on_file ref (\<lambda>c.
     (let (stat, c) = ff_flush_file lib ref 0 c; (_, stat, c) = ff_movabs_hdu lib ref hdunum hdutyp stat c in (stat, c)))"

text \<open>The type found is stored through the pointer.\<close>

definition labfits_movrel_hdu :: "'c fits \<Rightarrow> int \<Rightarrow> int \<Rightarrow> int \<Rightarrow> 'c \<Rightarrow> int \<times> int \<times> 'c" where
  "labfits_movrel_hdu lib ref nmove hdutyp c =
     (if ref = 0 then (- EBADF, hdutyp, c)
      else (case ff_movrel_hdu lib ref nmove hdutyp 0 c of (ty, stat, c) \<Rightarrow> (- stat, ty, c)))"

section \<open>A plain image\<close>

text \<open>Creating the file is tried again under a numbered name.\<close>

function retry_create :: "(nat \<Rightarrow> int \<Rightarrow> int) \<Rightarrow> (string \<Rightarrow> int) \<Rightarrow> 'c fits \<Rightarrow> string \<Rightarrow> int \<Rightarrow> int \<Rightarrow> string \<Rightarrow> gf \<Rightarrow> 'c
    \<Rightarrow> (int \<times> int \<times> gf \<times> 'c) option" where
  "retry_create mal atof lib name ntries errcnt imname s c =
     (case GF_create_file mal atof lib imname s c of
        None \<Rightarrow> None
      | Some (ref, stat, s, c) \<Rightarrow>
          if ref = 0 \<or> stat \<noteq> 0 then
            (if errcnt \<ge> ntries then Some (BADREF, stat, s, c)
             else if length (name @ ''_'' @ dec errcnt @ ''.fits'') \<ge> 1024 then None
             else retry_create mal atof lib name ntries (errcnt + 1) (name @ ''_'' @ dec errcnt @ ''.fits'') s c)
          else Some (ref, stat, s, c))"
  by pat_completeness auto
termination by (relation "measure (\<lambda>(mal, atof, lib, name, ntries, errcnt, _). nat (ntries - errcnt))") auto

declare retry_create.simps [simp del]

text \<open>\<open>None\<close>: the name does not fit \<open>imname[1024]\<close>, or a null pointer is followed.\<close>

definition GF_simple_data_write :: "(nat \<Rightarrow> int \<Rightarrow> int) \<Rightarrow> (string \<Rightarrow> int) \<Rightarrow> 'c fits \<Rightarrow> string \<Rightarrow> int \<Rightarrow> int \<Rightarrow> int \<Rightarrow> int
    \<Rightarrow> int \<Rightarrow> gf \<Rightarrow> 'c \<Rightarrow> (int \<times> int \<times> gf \<times> 'c) option" where
  "GF_simple_data_write mal atof lib name ncols nrows dtype bptr ntries s c =
     (if ncols = 0 \<or> nrows = 0 \<or> dtype = 0 then Some (BADREF, - EINVAL, s, c)
      else if bptr = 0 then Some (BADREF, - EFAULT, s, c)
      else if length (name @ ''.fits'') \<ge> 1024 then None
      else
        (case retry_create mal atof lib name (if ntries \<le> 0 then 1 else ntries) 0 (name @ ''.fits'') s c of
           None \<Rightarrow> None
         | Some (ref, stat, s, c) \<Rightarrow>
             if ref = 0 \<or> stat \<noteq> 0 then Some (BADREF, - stat, s, c)
             else
               (let (stat, c) = ff_create_img lib ref (bitpix_of dtype) [ncols, nrows] stat c in
                if stat \<noteq> 0 then Some (BADREF, - stat, s, c)
                else
                  (let (stat, c) = ff_write_img lib ref dtype 1 (to_i32 (ncols * nrows)) bptr (f_mem s) stat c in
                   if stat \<noteq> 0 then Some (BADREF, - stat, s, c) else Some (ref, 0, s, c)))))"

end
