(* ===== verification/Gfits_Mem_Props.thy ===== *)
theory Gfits_Mem_Props imports Gfits_File
begin

text \<open>
  Images in memory: the ring of buffers of the FITS library, and the size of the canvas.
\<close>

section \<open>The room for the canvas\<close>

lemma f64_nat_near: "(2 ^ 52 - 1) * n \<le> 2 ^ 52 * f64_nat n"
proof (cases "nbits n \<le> 53")
  case True
  then show ?thesis by (simp add: f64_nat_def)
next
  case False
  define e where "e = nbits n - 53"
  have n: "0 < n" using False by (cases "n = 0") (simp_all add: nbits.simps)
  have e: "nbits n - 1 = 52 + e" using False by (simp add: e_def)
  have "(2 :: nat) ^ 52 * 2 ^ e = 2 ^ (nbits n - 1)" unfolding e by (rule power_add [symmetric])
  also have "\<dots> \<le> n" using nbits_bounds [OF n] by simp
  finally have le: "2 ^ 52 * 2 ^ e \<le> n" .
  have "n = n div 2 ^ e * 2 ^ e + n mod 2 ^ e" by (rule div_mult_mod_eq [symmetric])
  moreover have "n mod 2 ^ e < 2 ^ e" by simp
  moreover have "n div 2 ^ e * 2 ^ e \<le> rne n (2 ^ e) * 2 ^ e" by (rule mult_le_mono1) (simp add: rne_def Let_def)
  ultimately have "n \<le> f64_nat n + 2 ^ e" unfolding f64_nat_def Let_def e_def by linarith
  then have "2 ^ 52 * n \<le> 2 ^ 52 * f64_nat n + 2 ^ 52 * 2 ^ e" unfolding distrib_left [symmetric] by (rule mult_le_mono2)
  then show ?thesis using le unfolding diff_mult_distrib by linarith
qed

lemma double_rounding:
  "((2 ^ 52 - 1) * 2476979795053773) * w \<le> 2 ^ 52 * z \<Longrightarrow> (2 ^ 52 - 1) * z \<le> 2 ^ 52 * y \<Longrightarrow> 2 ^ 51 * w \<le> (y :: nat)"
  by simp



section \<open>The ring of images in memory\<close>

definition image_bytes :: "gf \<Rightarrow> int" where
  "image_bytes s = to_u32 (f_totEle s * f_bytes_pp s + f_namps s * 5760)"

text \<open>The next image starts a whole number of images behind the start of the buffer, and the buffer has
  room for all of them.\<close>

definition ring :: "gf \<Rightarrow> bool" where
  "ring s \<longleftrightarrow> f_memfits s \<and> 0 < f_nbufs s \<and> f_nbufs s < 2 ^ 31 \<and> 0 < image_bytes s \<and> f_nbufs s * image_bytes s < 2 ^ 62
     \<and> (if f_membuf s = 0 then f_membufsize s = 0
        else 0 < f_membuf s \<and> f_membuf s < 2 ^ 62 \<and> f_nbufs s * image_bytes s \<le> f_membufsize s
          \<and> 0 \<le> f_bufcnt s \<and> f_bufcnt s < f_nbufs s \<and> (f_imsize s = 0 \<or> f_imsize s = image_bytes s)
          \<and> (f_nextbuf s = f_membuf s \<or> f_nextbuf s = f_membuf s + f_bufcnt s * image_bytes s))"

text \<open>Creating and closing images of one geometry; \<open>mal\<close> answers with addresses below \<open>2^62\<close>.\<close>

inductive ring_reach :: "(nat \<Rightarrow> int \<Rightarrow> int) \<Rightarrow> (string \<Rightarrow> int) \<Rightarrow> 'c fits \<Rightarrow> gf \<Rightarrow> gf \<Rightarrow> bool"
  for mal atof lib s0 where
  ring_start: "ring_reach mal atof lib s0 s0"
| ring_create: "ring_reach mal atof lib s0 s \<Longrightarrow> GF_create_file mal atof lib name s c = Some (ref, err, s', c')
    \<Longrightarrow> ring_reach mal atof lib s0 s'"
| ring_close: "ring_reach mal atof lib s0 s \<Longrightarrow> GF_fits_close_file lib ref s c = (ret, s', c') \<Longrightarrow> ring_reach mal atof lib s0 s'"

lemma image_bytes_update [simp]:
  "image_bytes (s\<lparr>f_imsize := a, f_membuf := b, f_membufsize := d, f_nextbuf := e, f_bufcnt := f, f_nmal := g\<rparr>) = image_bytes s"
  by (simp add: image_bytes_def)

lemma image_buffer_ring:
  assumes r: "ring s" and mal: "\<And>k n. 0 \<le> mal k n \<and> mal k n < 2 ^ 62"
  shows "ring (snd (image_buffer mal s))"
    "fst (image_buffer mal s) \<Longrightarrow> f_membuf (snd (image_buffer mal s)) \<noteq> 0 \<and> f_imsize (snd (image_buffer mal s)) = image_bytes s
      \<and> image_bytes (snd (image_buffer mal s)) = image_bytes s"
proof -
  have b: "to_u64 (f_nbufs s * image_bytes s) = f_nbufs s * image_bytes s" "0 < f_nbufs s * image_bytes s"
    using r by (simp_all add: ring_def to_u64_id)
  let ?s = "snd (image_buffer mal s)"
  have "ring ?s \<and> (fst (image_buffer mal s) \<longrightarrow> f_membuf ?s \<noteq> 0 \<and> f_imsize ?s = image_bytes s \<and> image_bytes ?s = image_bytes s)"
  proof (cases "f_membuf s = 0")
    case True
    then have "f_membufsize s = 0" using r by (simp add: ring_def)
    then show ?thesis
      using True r b mal [of "f_nmal s" "f_nbufs s * image_bytes s"]
      by (auto simp: image_buffer_def GF_allocate_image_buf_def new_block_def Let_def ring_def image_bytes_def [symmetric])
        (auto simp: image_bytes_def)
  next
    case False
    then have "\<not> f_membufsize s < f_nbufs s * image_bytes s" using r by (simp add: ring_def)
    then show ?thesis
      using False r b by (auto simp: image_buffer_def Let_def ring_def image_bytes_def [symmetric]) (auto simp: image_bytes_def)
  qed
  then show "ring ?s" "fst (image_buffer mal s) \<Longrightarrow> f_membuf ?s \<noteq> 0 \<and> f_imsize ?s = image_bytes s
      \<and> image_bytes ?s = image_bytes s" by blast+
qed

lemma ring_mem [simp]: "ring (s\<lparr>f_mem := m\<rparr>) = ring s" "ring (s\<lparr>f_memfitssize := a, f_hdrsize := b\<rparr>) = ring s" "image_bytes (s\<lparr>f_mem := m\<rparr>) = image_bytes s"
  by (simp_all add: ring_def image_bytes_def)

text \<open>What \<open>GF_create_file\<close> does in memory: the buffer, then the file in it.\<close>

lemma create_file_memory:
  assumes "f_memfits s" "GF_create_file mal atof lib name s c = Some (ref, err, s', c')"
  shows "(\<not> fst (image_buffer mal s) \<and> s' = snd (image_buffer mal s) \<and> err = - ENOMEM)
    \<or> (fst (image_buffer mal s) \<and> (\<exists>m. s' = (snd (image_buffer mal s))\<lparr>f_mem := m\<rparr>))"
  using assms by (auto simp: GF_create_file_def Let_def split: prod.splits bool.splits if_splits)

lemma next_image_ring:
  assumes "ring s"
  shows "ring (next_image s)"
proof -
  define n where "n = (if f_bufcnt s + 1 \<ge> f_nbufs s then 0 else f_bufcnt s + 1)"
  show ?thesis
  proof (cases "f_membuf s = 0")
    case True
    then show ?thesis using assms by (simp add: ring_def next_image_def image_bytes_def Let_def)
  next
    case False
    have r: "0 \<le> f_bufcnt s" "f_bufcnt s < f_nbufs s" "f_nbufs s < 2 ^ 31" "0 < image_bytes s" "0 < f_membuf s" "f_membuf s < 2 ^ 62"
      "f_nbufs s * image_bytes s < 2 ^ 62" "f_imsize s = 0 \<or> f_imsize s = image_bytes s"
      using assms False by (simp_all add: ring_def)
    have two: "(2 :: int) ^ 62 + 2 ^ 62 \<le> 2 ^ 64" "(2 :: int) ^ 62 \<le> 2 ^ 64" by simp_all
    have n: "0 \<le> n" "n < f_nbufs s" using r by (simp_all add: n_def)
    then have "n * image_bytes s \<le> f_nbufs s * image_bytes s" using r by (intro mult_right_mono) simp_all
    moreover have "0 \<le> n * image_bytes s" using r n by simp
    ultimately have "n * image_bytes s < 2 ^ 62" "0 \<le> n * image_bytes s" using r(7) by linarith+
    then have "to_u64 (f_membuf s + n * image_bytes s) = f_membuf s + n * image_bytes s" "to_u64 (f_membuf s) = f_membuf s"
      using r two by (intro to_u64_id; linarith)+
    then have "next_image s = s\<lparr>f_bufcnt := n, f_nextbuf := f_membuf s + f_imsize s * n\<rparr>"
      using r by (auto simp: next_image_def n_def to_i32_id Let_def mult.commute)
    then show ?thesis using assms False r n by (auto simp: ring_def image_bytes_def)
  qed
qed

lemma ring_reach_ring:
  assumes "ring_reach mal atof lib s0 s" "ring s0" "\<And>k n. 0 \<le> mal k n \<and> mal k n < 2 ^ 62"
  shows "ring s"
  using assms(1)
proof induction
  case ring_start
  show ?case by fact
next
  case (ring_create s name c ref err s' c')
  have "f_memfits s" using ring_create.IH by (simp add: ring_def)
  from create_file_memory [OF this ring_create.hyps(2)] image_buffer_ring(1) [OF ring_create.IH assms(3)]
  show ?case by auto
next
  case (ring_close s ref c ret s' c')
  have "ring (s\<lparr>f_memfitssize := a, f_hdrsize := b\<rparr>)" for a b using ring_close.IH by simp
  from next_image_ring [OF this] have n: "ring (next_image (s\<lparr>f_memfitssize := a, f_hdrsize := b\<rparr>))" for a b .
  have "f_memfits s" using ring_close.IH by (simp add: ring_def)
  then show ?case
    using ring_close.hyps(2) ring_close.IH n by (auto simp: GF_fits_close_file_def Let_def split: if_splits prod.splits)
qed


text \<open>A library that accepts everything and remembers the position and the bytes of the last image.\<close>

definition demo_fits :: "(int \<times> byte list) fits" where
  "demo_fits = \<lparr>ff_create_file = (\<lambda>_ stat c. (1, stat, c)), ff_create_memfile = (\<lambda>_ _ stat c. (1, stat, c)),
     ff_open_file = (\<lambda>_ stat c. (1, stat, c)), ff_open_memfile = (\<lambda>_ _ stat c. (1, stat, c)),
     ff_close_file = (\<lambda>_. Pair), ff_flush_file = (\<lambda>_. Pair), ff_create_img = (\<lambda>_ _ _. Pair),
     ff_insert_img = (\<lambda>_ _ _. Pair), ff_create_hdu = (\<lambda>_. Pair), ff_copy_hdu = (\<lambda>_ _. Pair),
     ff_set_hdrsize = (\<lambda>_ _. Pair), ff_movabs_hdu = (\<lambda>_ _ ty stat c. (ty, stat, c)),
     ff_movrel_hdu = (\<lambda>_ _ ty stat c. (ty, stat, c)), ff_get_num_hdus = (\<lambda>_ stat _. (1, stat)),
     ff_get_dataend = (\<lambda>_ stat _. (2880, stat)),
     ff_write_img = (\<lambda>_ _ first n p m stat c. (stat, first, rd m p (2 * nat n))),
     ff_write_date = (\<lambda>_. Pair), ff_write_comment = (\<lambda>_ _. Pair), ff_write_key = (\<lambda>_ _ _ _ _. Pair),
     ff_set_compression_type = (\<lambda>_ _. Pair), ff_set_tile_dim = (\<lambda>_ _. Pair), ff_set_quantize_level = (\<lambda>_ _. Pair),
     ff_set_hcomp_smooth = (\<lambda>_ _. Pair), ff_set_hcomp_scale = (\<lambda>_ _. Pair)\<rparr>"

definition demo_ring :: gf where
  "demo_ring = gf_start\<lparr>f_memfits := True, f_totEle := 8, f_bytes_pp := 2, f_namps := 1, f_nbufs := 3\<rparr>"

lemma demo_ring_ok: "ring demo_ring"
  by (simp add: ring_def image_bytes_def demo_ring_def gf_start_def to_u32_def)

lemma demo_first: "GF_create_file (\<lambda>_ _. 10000) (\<lambda>_. 0) demo_fits ''a'' demo_ring (0, []) = Some (1, 0,
    demo_ring\<lparr>f_imsize := 5776, f_nmal := 1, f_membuf := 10000, f_membufsize := 17328, f_nextbuf := 10000, f_bufcnt := 0,
      f_mem := memset (\<lambda>_. 0) 10000 0 5776\<rparr>, (0, []))"
  by (simp add: GF_create_file_def image_buffer_def GF_allocate_image_buf_def new_block_def GF_compress_img_def demo_ring_def
      gf_start_def demo_fits_def to_u32_def to_u64_def Let_def)


text \<open>When the buffer must grow, the image that made it grow gets no room: releasing the old buffer
  clears \<open>imsize\<close>, which was computed before, and the file is created in zero bytes of memory.\<close>

theorem growing_image_gets_no_room:
  assumes "f_memfits s" "f_membuf s \<noteq> 0" "f_membufsize s \<noteq> 0" "f_membufsize s < to_u64 (f_nbufs s * image_bytes s)"
    and "mal (f_nmal s) (to_u64 (f_nbufs s * image_bytes s)) = p" "p \<noteq> 0"
  shows "\<exists>s'. GF_create_file mal atof lib name s c =
    (case ff_create_memfile lib p 0 0 c of (fptr, stat, c) \<Rightarrow>
       (case GF_compress_img atof lib fptr name c of
          (_, c) \<Rightarrow> Some (if stat = 0 then fptr else 0, stat, s', c)))
    \<and> f_imsize s' = 0 \<and> f_membufsize s' = to_u64 (f_nbufs s * image_bytes s)"
  using assms
  by (auto simp: GF_create_file_def image_buffer_def GF_release_image_buf_def GF_allocate_image_buf_def new_block_def
      image_bytes_def Let_def split: prod.splits intro!: exI)

theorem growing_image_gets_no_room_witness:
  "\<exists>s'. GF_create_file (\<lambda>_ _. 50000) (\<lambda>_. 0) demo_fits ''a''
      (demo_ring\<lparr>f_membuf := 10000, f_membufsize := 100\<rparr>) (0, []) = Some (1, 0, s', (0, []))
    \<and> f_imsize s' = 0 \<and> f_membufsize s' = 17328"
  using growing_image_gets_no_room [of "demo_ring\<lparr>f_membuf := 10000, f_membufsize := 100\<rparr>" "\<lambda>_ _. 50000" 50000 "\<lambda>_. 0" demo_fits "''a''" "(0, [])"]
  by (simp add: demo_ring_def gf_start_def image_bytes_def to_u32_def to_u64_def demo_fits_def GF_compress_img_def)

end
