(* ===== verification/Gfits_Props.thy ===== *)
theory Gfits_Props imports Gfits_Mem_Props GU_Sections_Props
begin

text \<open>
  What writing an image does: the pieces of a flat image, in whatever number they arrive, put every
  amplifier at its place on the canvas, which is handed to CFITSIO once, when it is complete.
\<close>

section \<open>Pieces\<close>

text \<open>Subimages are copied as in the unscrambling library, so its lemma on rows applies.\<close>

lemma GF_add_subimage_GU:
  "GF_add_subimage gen sub xs ys cols rows T s =
     (case GU_add_subimage gen sub xs ys cols rows T (gu_init\<lparr>g_bytes_pp := f_bytes_pp s, g_mem := f_mem s\<rparr>) of
        (ret, t) \<Rightarrow> (ret, s\<lparr>f_mem := g_mem t\<rparr>))"
  by (simp add: GF_add_subimage_def GU_add_subimage_def Let_def)

lemma GF_add_subimage_scatter:
  assumes ptrs: "gen \<noteq> 0" "sub \<noteq> 0" and b: "f_bytes_pp s = int b" "0 < b"
    and cols: "x0 + c \<le> T" "0 < T" and size: "b * ((y0 + r) * T) < 2 ^ 31" and r: "0 < r"
  shows "GF_add_subimage gen sub (int x0 + 1) (int y0 + 1) (int c) (int r) (int T) s
    = (0, s\<lparr>f_mem := scatter r (sub_row b gen T x0 y0) (\<lambda>k. sub + int (c * b) * int k) (c * b) (f_mem s)\<rparr>)"
  using GU_add_subimage_scatter [OF ptrs, of "gu_init\<lparr>g_bytes_pp := f_bytes_pp s, g_mem := f_mem s\<rparr>" b]
    assms by (simp add: GF_add_subimage_GU)

text \<open>The layout of a flat image: \<open>l_n\<close> amplifiers of \<open>l_c\<close> columns and \<open>l_r\<close> rows at distinct places of a
  canvas at \<open>l_gen\<close>; the lower ones fill upwards, the others downwards.\<close>

record layout =
  l_b :: nat
  l_T :: nat
  l_H :: nat
  l_n :: nat
  l_c :: nat
  l_r :: nat
  l_x :: "nat \<Rightarrow> nat"
  l_y :: "nat \<Rightarrow> nat"
  l_low :: "nat \<Rightarrow> bool"
  l_gen :: int

definition tiles_apart :: "layout \<Rightarrow> nat \<Rightarrow> nat \<Rightarrow> bool" where
  "tiles_apart L i j \<longleftrightarrow> l_x L i + l_c L \<le> l_x L j \<or> l_x L j + l_c L \<le> l_x L i
     \<or> l_y L i + l_r L \<le> l_y L j \<or> l_y L j + l_r L \<le> l_y L i"

definition layout_ok :: "layout \<Rightarrow> bool" where
  "layout_ok L \<longleftrightarrow> 2 \<le> l_b L \<and> 0 < l_n L \<and> 0 < l_c L \<and> 0 < l_r L \<and> l_gen L \<noteq> 0
     \<and> l_b L * (l_H L * l_T L) < 2 ^ 31 \<and> l_n L * (l_c L * l_r L) < 2 ^ 31
     \<and> (\<forall>i < l_n L. l_x L i + l_c L \<le> l_T L \<and> l_y L i + l_r L \<le> l_H L)
     \<and> (\<forall>i < l_n L. \<forall>j < l_n L. i \<noteq> j \<longrightarrow> tiles_apart L i j)"

text \<open>Where the piece of \<open>q\<close> rows goes that arrives after \<open>k\<close> rows of amplifier \<open>i\<close>.\<close>

definition piece_row :: "layout \<Rightarrow> nat \<Rightarrow> nat \<Rightarrow> nat \<Rightarrow> nat" where
  "piece_row L k q i = (if l_low L i then k else l_r L - k - q)"

text \<open>Row \<open>y\<close> of amplifier \<open>i\<close> on the canvas; a row has \<open>row_bytes\<close>.\<close>

definition tile_row :: "layout \<Rightarrow> nat \<Rightarrow> nat \<Rightarrow> int" where
  "tile_row L i y = l_gen L + int (l_b L * ((l_y L i + y) * l_T L + l_x L i))"

abbreviation row_bytes :: "layout \<Rightarrow> nat" where
  "row_bytes L \<equiv> l_c L * l_b L"

text \<open>The state in the middle of an image: \<open>k\<close> rows of every amplifier have arrived.\<close>

definition assembling :: "layout \<Rightarrow> nat \<Rightarrow> gf \<Rightarrow> bool" where
  "assembling L k s \<longleftrightarrow> f_bytes_pp s = int (l_b L) \<and> f_totcols s = int (l_T L) \<and> f_tmpptr s 0 = l_gen L
     \<and> f_namps s = int (l_n L) \<and> f_totPixels s = int (l_n L * (l_c L * l_r L))
     \<and> f_totEleRead s 0 = int (l_n L * (l_c L * k)) \<and> f_mext s = 0
     \<and> \<bar>f_minimx s\<bar> \<le> 2 ^ 20 \<and> \<bar>f_minimy s\<bar> \<le> 2 ^ 20
     \<and> (\<forall>i < l_n L. amp_discard (f_amp s i) = 0 \<and> amp_ncols (f_amp s i) = int (l_c L) \<and> amp_rotate (f_amp s i) = 0
          \<and> (amp_type (f_amp s i) AND LOWER \<noteq> 0) = l_low L i
          \<and> amp_xstart (f_amp s i) = f_minimx s + int (l_x L i)
          \<and> amp_ystart (f_amp s i) = f_minimy s + int (if l_low L i then l_y L i + k else l_y L i + l_r L - k))"

definition moved :: "layout \<Rightarrow> nat \<Rightarrow> (nat \<Rightarrow> amp_t) \<Rightarrow> nat \<Rightarrow> amp_t \<Rightarrow> amp_t" where
  "moved L q t i F = F\<lparr>dataptr := dataptr (t i),
     amp_ystart := (if l_low L i then amp_ystart F + int q else amp_ystart F - int q)\<rparr>"

text \<open>The canvas after the piece of one amplifier.\<close>

definition put_piece :: "layout \<Rightarrow> nat \<Rightarrow> nat \<Rightarrow> (nat \<Rightarrow> amp_t) \<Rightarrow> nat \<Rightarrow> mem \<Rightarrow> mem" where
  "put_piece L k q t i = scatter q (\<lambda>j. tile_row L i (piece_row L k q i + j))
     (\<lambda>j. dataptr (t i) + int (row_bytes L) * int j) (row_bytes L)"

lemma tile_row_sub_row:
  "tile_row L i (y + j) = sub_row (l_b L) (l_gen L) (l_T L) (l_x L i) (l_y L i + y) j"
  by (simp add: tile_row_def sub_row_def add.assoc)

lemma small_row:
  assumes "layout_ok L" "i < l_n L"
  shows "l_x L i + l_c L \<le> l_T L" "l_y L i + l_r L \<le> l_H L" "l_T L < 2 ^ 30" "0 < l_T L" "l_H L < 2 ^ 30"
proof -
  show xy: "l_x L i + l_c L \<le> l_T L" "l_y L i + l_r L \<le> l_H L"
    using assms by (auto simp: layout_ok_def)
  have pos: "2 \<le> l_b L" "0 < l_c L" "0 < l_r L" using assms by (auto simp: layout_ok_def)
  have "2 * (l_H L * l_T L) \<le> l_b L * (l_H L * l_T L)" using pos by (intro mult_le_mono1)
  also have "\<dots> < 2 ^ 31" using assms by (simp add: layout_ok_def)
  finally have b: "l_H L * l_T L < 2 ^ 30" by simp
  have "l_H L \<le> l_T L * l_H L" "l_T L \<le> l_H L * l_T L" using xy pos by (intro le_times; linarith)+
  then have "l_H L \<le> l_H L * l_T L" "l_T L \<le> l_H L * l_T L" by (simp_all only: mult.commute)
  then show "l_T L < 2 ^ 30" "0 < l_T L" "l_H L < 2 ^ 30"
    using b xy pos by linarith+
qed

lemma single_turn_piece:
  assumes ok: "layout_ok L" and i: "i < l_n L" and a: "assembling L k s" and q: "0 < q" "k + q \<le> l_r L"
    and d: "dataptr (t i) \<noteq> 0" and src: "dataptr (amp_at src u i) = dataptr (t i)"
    and u: "f_amp u i = f_amp s i" "f_bytes_pp u = f_bytes_pp s" "f_minimx u = f_minimx s" "f_minimy u = f_minimy s"
      "f_tmpptr u = f_tmpptr s" "f_totcols u = f_totcols s"
  shows "single_turn src (int (l_c L) * int q) i (dn, u)
    = Inr (dn, u\<lparr>f_amp := (f_amp u)(i := moved L q t i (f_amp u i)), f_mem := put_piece L k q t i (f_mem u)\<rparr>)"
proof -
  note r = small_row [OF ok i]
  define Y where "Y = l_y L i + piece_row L k q i"
  have c: "0 < l_c L" "2 \<le> l_b L" "l_gen L \<noteq> 0" using ok by (auto simp: layout_ok_def)
  have F: "amp_discard (f_amp u i) = 0" "amp_ncols (f_amp u i) = int (l_c L)" "amp_rotate (f_amp u i) = 0"
    "(amp_type (f_amp u i) AND LOWER \<noteq> 0) = l_low L i" "amp_xstart (f_amp u i) = f_minimx u + int (l_x L i)"
    "amp_ystart (f_amp u i) = f_minimy u + int (if l_low L i then l_y L i + k else l_y L i + l_r L - k)"
    "f_bytes_pp u = int (l_b L)" "f_totcols u = int (l_T L)" "f_tmpptr u 0 = l_gen L"
    "\<bar>f_minimy u\<bar> \<le> 2 ^ 20" "\<bar>f_minimx u\<bar> \<le> 2 ^ 20"
    using a i by (simp_all add: assembling_def u)
  have size: "l_b L * ((Y + q) * l_T L) < 2 ^ 31"
  proof -
    have "Y + q \<le> l_H L" using r q by (auto simp: Y_def piece_row_def)
    then have "l_b L * ((Y + q) * l_T L) \<le> l_b L * (l_H L * l_T L)"
      by (intro mult_le_mono2 mult_le_mono1)
    also have "\<dots> < 2 ^ 31" using ok by (simp add: layout_ok_def)
    finally show ?thesis .
  qed
  have chunk: "cdiv (int (l_c L) * int q) (int (l_c L)) = int q" using c by (simp add: cdiv_nonneg)
  have x: "to_i32 (int (l_x L i) + 1) = int (l_x L i) + 1" "to_i32 (int (l_T L)) = int (l_T L)"
    using r by (simp_all add: to_i32_id)
  have add: "GF_add_subimage (l_gen L) (dataptr (t i)) (int (l_x L i) + 1) (int (Y) + 1) (int (l_c L))
      (int q) (int (l_T L)) v = (0, v\<lparr>f_mem := put_piece L k q t i (f_mem v)\<rparr>)"
    if "f_bytes_pp v = int (l_b L)" for v
    unfolding put_piece_def tile_row_sub_row Y_def [symmetric]
    using GF_add_subimage_scatter [OF c(3) d that _ r(1) r(4) size q(1)] c by (simp add: mult.commute)
  show ?thesis
  proof (cases "l_low L i")
    case True
    have y: "to_i32 (int (l_y L i) + int k + 1) = int (Y) + 1"
      "to_i32 (f_minimy u + (int (l_y L i) + int k) + int q) = f_minimy u + (int (l_y L i) + int k) + int q"
      using True r q F by (auto simp: Y_def piece_row_def to_i32_id)
    show ?thesis
      using True F c d by (simp add: single_turn_def set_start_def src Let_def chunk x y add moved_def)
  next
    case False
    have k: "int (l_y L i + l_r L - k) = int (l_y L i) + int (l_r L) - int k" using q by simp
    have y: "to_i32 (f_minimy u + (int (l_y L i) + int (l_r L) - int k) - int q)
        = f_minimy u + (int (l_y L i) + int (l_r L) - int k) - int q"
      "to_i32 (int (l_y L i) + (int (l_r L) + (- int k - int q)) + 1) = int (Y) + 1"
      using False r q F by (auto simp: Y_def piece_row_def to_i32_id)
    show ?thesis
      using False F c d by (simp add: single_turn_def set_start_def src Let_def chunk x y add moved_def k)
  qed
qed

text \<open>The turns of all amplifiers.\<close>

definition put_pieces :: "layout \<Rightarrow> nat \<Rightarrow> nat \<Rightarrow> (nat \<Rightarrow> amp_t) \<Rightarrow> nat \<Rightarrow> mem \<Rightarrow> mem" where
  "put_pieces L k q t n = for_n n (put_piece L k q t)"

definition sources :: "layout \<Rightarrow> amps \<Rightarrow> gf \<Rightarrow> (nat \<Rightarrow> amp_t) \<Rightarrow> bool" where
  "sources L src s t \<longleftrightarrow> (\<forall>i < l_n L. dataptr (t i) \<noteq> 0)
     \<and> (src = Caller t \<or> src = Own \<and> (\<forall>i < l_n L. dataptr (f_amp s i) = dataptr (t i)))"

lemma single_turns:
  assumes ok: "layout_ok L" and a: "assembling L k s" and q: "0 < q" "k + q \<le> l_r L"
    and d: "sources L src s t" and n: "n \<le> l_n L"
  shows "for_ret n (single_turn src (int (l_c L) * int q)) (0, s\<lparr>f_totEleRead := e\<rparr>)
    = Inr (0, s\<lparr>f_totEleRead := e, f_amp := (\<lambda>i. if i < n then moved L q t i (f_amp s i) else f_amp s i),
        f_mem := put_pieces L k q t n (f_mem s)\<rparr>)"
  using n
proof (induction n)
  case 0
  show ?case by (simp add: put_pieces_def)
next
  case (Suc n)
  then have n: "n < l_n L" and dn: "dataptr (t n) \<noteq> 0" using d by (simp_all add: sources_def)
  let ?A = "\<lambda>n i. if i < n then moved L q t i (f_amp s i) else f_amp s i"
  let ?u = "s\<lparr>f_totEleRead := e, f_amp := ?A n, f_mem := put_pieces L k q t n (f_mem s)\<rparr>"
  have sn: "dataptr (amp_at src ?u n) = dataptr (t n)" using d n by (auto simp: sources_def amp_at_def)
  have turn: "single_turn src (int (l_c L) * int q) n (0, ?u)
    = Inr (0, ?u\<lparr>f_amp := (?A n)(n := moved L q t n (f_amp s n)), f_mem := put_pieces L k q t (Suc n) (f_mem s)\<rparr>)"
    using single_turn_piece [where dn = 0 and u = ?u and t = t, OF ok n a q dn sn] by (simp add: put_pieces_def)
  have "(?A n)(n := moved L q t n (f_amp s n)) = ?A (Suc n)" by (auto simp: fun_eq_iff)
  then show ?case using Suc.IH n turn by (simp add: for_ret_Suc)
qed

lemma assembling_next:
  assumes a: "assembling L k s" and q: "k + q \<le> l_r L" and e: "e 0 = int (l_n L * (l_c L * (k + q)))"
  shows "assembling L (k + q) (s\<lparr>f_totEleRead := e, f_amp := (\<lambda>i. if i < l_n L then moved L q t i (f_amp s i) else f_amp s i),
    f_mem := m\<rparr>)"
proof -
  have "int (l_y L i + l_r L - k) - int q = int (l_y L i + l_r L - (k + q))" for i using q by simp
  then show ?thesis using a e by (auto simp: assembling_def moved_def)
qed

section \<open>The canvas\<close>

lemma tile_rows_apart:
  assumes ok: "layout_ok L" and ij: "i < l_n L" "j < l_n L" and y: "y < l_r L" "y' < l_r L" and ne: "i \<noteq> j \<or> y \<noteq> y'"
  shows "apart (tile_row L i y) (int (row_bytes L)) (tile_row L j y') (int (row_bytes L))"
proof -
  have x: "l_x L i + l_c L \<le> l_T L" "l_x L j + l_c L \<le> l_T L" using small_row [OF ok] ij by simp_all
  have "l_y L i + y \<noteq> l_y L j + y' \<or> l_x L i + l_c L \<le> l_x L j \<or> l_x L j + l_c L \<le> l_x L i"
  proof (cases "i = j")
    case True
    then show ?thesis using ne by simp
  next
    case False
    then have "tiles_apart L i j" using ok ij by (simp add: layout_ok_def)
    then show ?thesis using y by (auto simp: tiles_apart_def)
  qed
  then have "l_y L i + 0 + y \<noteq> l_y L j + 0 + y' \<or> l_x L i + l_c L \<le> l_x L j \<or> l_x L j + l_c L \<le> l_x L i" by simp
  from sub_rows_apart [OF x this, of "l_b L" "l_gen L"] show ?thesis
    by (simp only: tile_row_sub_row [symmetric] add_0)
qed

definition canvas_bytes :: "layout \<Rightarrow> nat" where
  "canvas_bytes L = l_b L * (l_H L * l_T L)"

lemma tile_row_inside:
  assumes ok: "layout_ok L" and i: "i < l_n L" and y: "y < l_r L"
  shows "l_gen L \<le> tile_row L i y" "tile_row L i y + int (row_bytes L) \<le> l_gen L + int (canvas_bytes L)"
proof -
  show "l_gen L \<le> tile_row L i y" by (simp add: tile_row_def)
  have x: "l_x L i + l_c L \<le> l_T L" "l_y L i + y < l_H L" using small_row [OF ok i] y by simp_all
  from line_step [OF x(2) x(1)] have "l_b L * ((l_y L i + y) * l_T L + l_x L i + l_c L) \<le> l_b L * (l_H L * l_T L)"
    by (rule mult_le_mono2)
  then have "int (l_b L * ((l_y L i + y) * l_T L + l_x L i + l_c L)) \<le> int (l_b L * (l_H L * l_T L))"
    by (simp only: of_nat_le_iff)
  then show "tile_row L i y + int (row_bytes L) \<le> l_gen L + int (canvas_bytes L)"
    by (simp add: tile_row_def canvas_bytes_def algebra_simps)
qed

lemma put_pieces_frame:
  assumes "\<And>i j. i < n \<Longrightarrow> j < q \<Longrightarrow> apart p (int l) (tile_row L i (piece_row L k q i + j)) (int (row_bytes L))"
  shows "rd (put_pieces L k q t n m) p l = rd m p l"
  using assms
proof (induction n)
  case 0
  show ?case by (simp add: put_pieces_def)
next
  case (Suc n)
  have "rd (put_piece L k q t n (put_pieces L k q t n m)) p l = rd (put_pieces L k q t n m) p l"
    unfolding put_piece_def by (rule scatter_frame) (rule Suc.prems; simp)
  then show ?case using Suc by (simp add: put_pieces_def)
qed

lemma piece_row_bound: "k + q \<le> l_r L \<Longrightarrow> j < q \<Longrightarrow> piece_row L k q i + j < l_r L"
  by (auto simp: piece_row_def)

text \<open>The sources of a piece do not touch the canvas.\<close>

definition off_canvas :: "layout \<Rightarrow> nat \<Rightarrow> (nat \<Rightarrow> amp_t) \<Rightarrow> bool" where
  "off_canvas L q t \<longleftrightarrow> (\<forall>i < l_n L. dataptr (t i) \<noteq> 0
     \<and> apart (dataptr (t i)) (int (row_bytes L * q)) (l_gen L) (int (canvas_bytes L)))"

lemma apart_inside: "apart p n q k \<Longrightarrow> q \<le> q' \<Longrightarrow> q' + k' \<le> q + k \<Longrightarrow> apart p n q' k'"
  by (auto simp: apart_def)

lemma source_row_apart:
  assumes ok: "layout_ok L" and off: "off_canvas L q t" and i: "i < l_n L" and j: "j < q"
    and i': "i' < l_n L" and y: "y < l_r L"
  shows "apart (dataptr (t i) + int (row_bytes L) * int j) (int (row_bytes L)) (tile_row L i' y) (int (row_bytes L))"
proof -
  have "row_bytes L * Suc j \<le> row_bytes L * q" using j by (intro mult_le_mono2) simp
  then have e: "int (row_bytes L) * int j + int (row_bytes L) \<le> int (row_bytes L * q)"
    unfolding of_nat_mult [symmetric] of_nat_add [symmetric] of_nat_le_iff by simp
  have o: "apart (dataptr (t i)) (int (row_bytes L * q)) (l_gen L) (int (canvas_bytes L))"
    using off i by (simp add: off_canvas_def)
  have "apart (dataptr (t i) + int (row_bytes L) * int j) (int (row_bytes L)) (l_gen L) (int (canvas_bytes L))"
    by (rule apart_sub [OF o]) (use e in \<open>simp_all only: le_add_same_cancel1 of_nat_0_le_iff add.assoc add_le_cancel_left\<close>, simp)
  then show ?thesis by (rule apart_inside) (rule tile_row_inside [OF ok i' y])+
qed

lemma put_pieces_read:
  assumes ok: "layout_ok L" and q: "k + q \<le> l_r L" and off: "off_canvas L q t" and j: "j < q"
    and i: "i < n" "n \<le> l_n L"
  shows "rd (put_pieces L k q t n m) (tile_row L i (piece_row L k q i + j)) (row_bytes L)
    = rd m (dataptr (t i) + int (row_bytes L) * int j) (row_bytes L)"
  using i
proof (induction n)
  case 0
  then show ?case by simp
next
  case (Suc n)
  have n: "n < l_n L" using Suc.prems by simp
  note b = piece_row_bound [OF q]
  have ap: "apart (tile_row L i (piece_row L k q i + j)) (int (row_bytes L))
      (tile_row L n (piece_row L k q n + j')) (int (row_bytes L))" if "j' < q" "i \<noteq> n \<or> j \<noteq> j'" for j'
    by (rule tile_rows_apart [OF ok]) (use that Suc.prems j b in auto)
  show ?case
  proof (cases "i = n")
    case True
    have "rd (put_piece L k q t n (put_pieces L k q t n m)) (tile_row L n (piece_row L k q n + j)) (row_bytes L)
      = rd (put_pieces L k q t n m) (dataptr (t n) + int (row_bytes L) * int j) (row_bytes L)"
      unfolding put_piece_def
    proof (rule scatter_read [OF _ _ j])
      fix j1 j2
      assume jj: "j1 < q" "j2 < q"
      show "j1 \<noteq> j2 \<Longrightarrow> apart (tile_row L n (piece_row L k q n + j1)) (int (row_bytes L))
          (tile_row L n (piece_row L k q n + j2)) (int (row_bytes L))"
        by (rule tile_rows_apart [OF ok n n]) (use jj b in auto)
      show "apart (dataptr (t n) + int (row_bytes L) * int j1) (int (row_bytes L))
          (tile_row L n (piece_row L k q n + j2)) (int (row_bytes L))"
        by (rule source_row_apart [OF ok off n jj(1) n b [OF jj(2)]])
    qed
    also have "\<dots> = rd m (dataptr (t n) + int (row_bytes L) * int j) (row_bytes L)"
      by (rule put_pieces_frame) (rule source_row_apart [OF ok off n j _ b]; use n in simp)
    finally show ?thesis by (simp add: True put_pieces_def)
  next
    case False
    have "rd (put_piece L k q t n (put_pieces L k q t n m)) (tile_row L i (piece_row L k q i + j)) (row_bytes L)
      = rd (put_pieces L k q t n m) (tile_row L i (piece_row L k q i + j)) (row_bytes L)"
      unfolding put_piece_def by (rule scatter_frame) (use ap False in blast)
    then show ?thesis using Suc False by (simp add: put_pieces_def)
  qed
qed

section \<open>Progress\<close>

lemma rne_le: "0 < q \<Longrightarrow> rne p q \<le> p div q + 1"
  by (simp add: rne_def Let_def)

lemma f32_nat_le: "f32_nat n \<le> 2 * n"
proof (cases "nbits n \<le> 24")
  case True
  then show ?thesis by (simp add: f32_nat_def)
next
  case False
  define e where "e = nbits n - 24"
  have n: "0 < n" using False by (cases "n = 0") (simp_all add: nbits.simps)
  have "(2::nat) ^ e \<le> 2 ^ (nbits n - 1)" using False by (intro power_increasing) (simp_all add: e_def)
  also have "\<dots> \<le> n" using nbits_bounds [OF n] by simp
  finally have le: "2 ^ e \<le> n" .
  have "rne n (2 ^ e) * 2 ^ e \<le> (n div 2 ^ e + 1) * 2 ^ e" by (intro mult_le_mono1 rne_le) simp
  also have "\<dots> \<le> n + 2 ^ e" by simp
  finally show ?thesis using le unfolding f32_nat_def Let_def e_def by linarith
qed

lemma f32_nat_ge: "n \<le> 2 * f32_nat n"
proof (cases "nbits n \<le> 24")
  case True
  then show ?thesis by (simp add: f32_nat_def)
next
  case False
  define e where "e = nbits n - 24"
  have n: "0 < n" using False by (cases "n = 0") (simp_all add: nbits.simps)
  have "(2::nat) * 2 ^ e \<le> 2 ^ (nbits n - 1)" unfolding power_Suc [symmetric] using False
    by (intro power_increasing) (simp_all add: e_def)
  also have "\<dots> \<le> n" using nbits_bounds [OF n] by simp
  finally have le: "2 * 2 ^ e \<le> n" .
  have "n = n div 2 ^ e * 2 ^ e + n mod 2 ^ e" by (rule div_mult_mod_eq [symmetric])
  moreover have "n mod 2 ^ e < 2 ^ e" by simp
  moreover have "n div 2 ^ e * 2 ^ e \<le> rne n (2 ^ e) * 2 ^ e" by (rule mult_le_mono1) (simp add: rne_def Let_def)
  ultimately show ?thesis using le unfolding f32_nat_def Let_def e_def by linarith
qed

text \<open>The percentage of a part is a small number, so its conversion is defined.\<close>

lemma f32_percent_small:
  assumes "a \<le> 4 * b" "0 < b"
  shows "f32_percent a b \<le> 1200"
proof (cases "a = 0")
  case True
  then show ?thesis by (simp add: f32_percent_def)
next
  case False
  have "a < 2 ^ (nbits b + 2)" using assms nbits_bounds [of b] by (simp add: power_add)
  then have n: "nbits a \<le> nbits b + 2" by (rule nbits_le)
  define k where "k = 24 + nbits b - nbits a"
  have k: "22 \<le> k" using n by (simp add: k_def)
  have scaled: "f32_nat (100 * rne (a * 2 ^ l) b) div 2 ^ l \<le> 1200" if "0 < l" for l
  proof -
    have "a * 2 ^ l div b \<le> 4 * b * 2 ^ l div b" using assms by (intro div_le_mono mult_le_mono1)
    also have "\<dots> = 4 * 2 ^ l" using assms by simp
    finally have "rne (a * 2 ^ l) b \<le> 4 * 2 ^ l + 1" using rne_le [of b "a * 2 ^ l"] assms by linarith
    then have "200 * rne (a * 2 ^ l) b \<le> 200 * (4 * 2 ^ l + 1)" by (rule mult_le_mono2)
    then have "f32_nat (100 * rne (a * 2 ^ l) b) \<le> 200 * (4 * 2 ^ l + 1)"
      using f32_nat_le [of "100 * rne (a * 2 ^ l) b"] by simp
    also have "\<dots> \<le> 1000 * 2 ^ l" using one_le_power [of "2 :: nat" l] by simp
    finally show ?thesis using div_le_mono [of "f32_nat (100 * rne (a * 2 ^ l) b)" "1000 * 2 ^ l" "2 ^ l"] by simp
  qed
  show ?thesis
    using False k n scaled [of k] scaled [of "k - 1"]
    by (simp add: f32_percent_def Let_def k_def [symmetric])
qed

lemma percent_part:
  assumes "0 \<le> a" "a \<le> b" "0 < b"
  shows "\<exists>p. percent a b = Some p \<and> 0 \<le> p"
proof -
  have "nat a \<le> nat b" "0 < nat b" using assms by simp_all
  then have "f32_nat (nat a) \<le> 4 * f32_nat (nat b)" "0 < f32_nat (nat b)"
    using f32_nat_le [of "nat a"] f32_nat_ge [of "nat b"] by linarith+
  from f32_percent_small [OF this] show ?thesis
    using assms by (auto simp: percent_def in_i32_def sgn_if zero_less_iff_neq_zero)
qed

section \<open>The geometry\<close>

text \<open>The amplifiers of the caller describe the layout, with the least start at \<open>mx\<close>, \<open>my\<close>.\<close>

definition geometry :: "layout \<Rightarrow> int \<Rightarrow> int \<Rightarrow> (nat \<Rightarrow> amp_t) \<Rightarrow> bool" where
  "geometry L mx my t \<longleftrightarrow> (\<forall>i < l_n L. amp_xstart (t i) = mx + int (l_x L i) \<and> amp_ystart (t i) = my + int (l_y L i)
     \<and> amp_ncols (t i) = int (l_c L) \<and> amp_nrows (t i) = int (l_r L) \<and> amp_rotate (t i) = 0 \<and> amp_discard (t i) = 0
     \<and> amp_type (t i) \<in> (if l_low L i then {LL, LR} else {UL, UR}))"

definition tight :: "layout \<Rightarrow> bool" where
  "tight L \<longleftrightarrow> (\<exists>i < l_n L. l_x L i = 0) \<and> (\<exists>i < l_n L. l_y L i = 0)
     \<and> (\<exists>i < l_n L. l_x L i + l_c L = l_T L) \<and> (\<exists>i < l_n L. l_y L i + l_r L = l_H L)"

definition laid :: "layout \<Rightarrow> (nat \<Rightarrow> amp_t) \<Rightarrow> nat \<Rightarrow> amp_t \<Rightarrow> amp_t" where
  "laid L t i F =
     (let A = t i;
          F = F\<lparr>amp_xstart := amp_xstart A, amp_ystart := amp_ystart A, amp_ncols := amp_ncols A, amp_nrows := amp_nrows A,
                amp_type := amp_type A, amp_rotate := amp_rotate A, amp_flip := amp_flip A, amp_discard := amp_discard A\<rparr> in
      if l_low L i then F else F\<lparr>amp_ystart := amp_ystart A + int (l_r L)\<rparr>)"

lemma set_amp_laid:
  assumes ok: "layout_ok L" and g: "geometry L mx my t" and m: "0 \<le> mx" "mx \<le> 10 ^ 6" "0 \<le> my" "my \<le> 10 ^ 6"
    and i: "i < l_n L" and s: "f_mext s = 0"
  shows "\<exists>etot. set_amp mal (Caller t) ob om i (maxx, maxy, e, s) =
    Inr (max maxx (mx + int (l_x L i + l_c L) - 1), max maxy (my + int (l_y L i + l_r L) - 1), etot,
      s\<lparr>f_minimx := min (f_minimx s) (mx + int (l_x L i)), f_minimy := min (f_minimy s) (my + int (l_y L i)),
        f_amp := (f_amp s)(i := laid L t i (f_amp s i)), f_totEleRead := (f_totEleRead s)(i := 0)\<rparr>)
    \<and> etot = to_i32 ((max maxx (mx + int (l_x L i + l_c L) - 1) - min (f_minimx s) (mx + int (l_x L i)) + 1)
        * (max maxy (my + int (l_y L i + l_r L) - 1) - min (f_minimy s) (my + int (l_y L i)) + 1))"
proof -
  note r = small_row [OF ok i]
  have G: "amp_xstart (t i) = mx + int (l_x L i)" "amp_ystart (t i) = my + int (l_y L i)"
    "amp_ncols (t i) = int (l_c L)" "amp_nrows (t i) = int (l_r L)" "amp_rotate (t i) = 0" "amp_discard (t i) = 0"
    "amp_type (t i) \<in> (if l_low L i then {LL, LR} else {UL, UR})"
    using g i by (simp_all add: geometry_def)
  have e: "to_i32 (mx + int (l_x L i) + int (l_c L) - 1) = mx + int (l_x L i) + int (l_c L) - 1"
    "to_i32 (my + int (l_y L i) + int (l_r L) - 1) = my + int (l_y L i) + int (l_r L) - 1"
    "to_i32 (my + int (l_y L i) + int (l_r L)) = my + int (l_y L i) + int (l_r L)"
    using r m by (simp_all add: to_i32_id)
  have u: "(amp_type (t i) AND UPPER \<noteq> 0) = (\<not> l_low L i)" using G(7) by (auto split: if_splits)
  show ?thesis
    using s G(1-6) e u by (simp add: set_amp_def copy_geometry_def extend_extent_def amp_at_def Let_def laid_def add.assoc)
qed

definition laid_state :: "layout \<Rightarrow> (nat \<Rightarrow> amp_t) \<Rightarrow> nat \<Rightarrow> int \<Rightarrow> int \<Rightarrow> gf \<Rightarrow> gf" where
  "laid_state L t n minx miny s = s\<lparr>f_minimx := minx, f_minimy := miny,
     f_amp := (\<lambda>i. if i < n then laid L t i (f_amp s i) else f_amp s i),
     f_totEleRead := (\<lambda>i. if i < n then 0 else f_totEleRead s i)\<rparr>"

lemma laid_state_Suc:
  "(laid_state L t n a b s)\<lparr>f_minimx := a', f_minimy := b', f_amp := (f_amp (laid_state L t n a b s))(n := laid L t n (f_amp s n)),
     f_totEleRead := (f_totEleRead (laid_state L t n a b s))(n := 0)\<rparr> = laid_state L t (Suc n) a' b' s"
proof -
  have "(\<lambda>i. if i < n then laid L t i (f_amp s i) else f_amp s i)(n := laid L t n (f_amp s n))
      = (\<lambda>i. if i < Suc n then laid L t i (f_amp s i) else f_amp s i)"
    "(\<lambda>i. if i < n then 0 else f_totEleRead s i)(n := 0) = (\<lambda>i. if i < Suc n then 0 else f_totEleRead s i)"
    by (auto simp: fun_eq_iff)
  then show ?thesis by (simp add: laid_state_def)
qed

definition extent_ok :: "layout \<Rightarrow> int \<Rightarrow> int \<Rightarrow> nat \<Rightarrow> int \<Rightarrow> int \<Rightarrow> int \<Rightarrow> int \<Rightarrow> bool" where
  "extent_ok L mx my n maxx maxy minx miny \<longleftrightarrow> maxx \<le> mx + int (l_T L) - 1 \<and> maxy \<le> my + int (l_H L) - 1
     \<and> mx \<le> minx \<and> my \<le> miny
     \<and> (\<forall>i < n. mx + int (l_x L i + l_c L) - 1 \<le> maxx \<and> my + int (l_y L i + l_r L) - 1 \<le> maxy
          \<and> minx \<le> mx + int (l_x L i) \<and> miny \<le> my + int (l_y L i))"

lemma set_amps_laid:
  assumes ok: "layout_ok L" and g: "geometry L mx my t" and m: "0 \<le> mx" "mx \<le> 10 ^ 6" "0 \<le> my" "my \<le> 10 ^ 6"
    and s: "f_mext s = 0" "f_minimx s = 10 ^ 6" "f_minimy s = 10 ^ 6" and n: "n \<le> l_n L"
  shows "\<exists>maxx maxy etot minx miny.
    for_ret n (set_amp mal (Caller t) ob om) (-1, -1, -1, s) = Inr (maxx, maxy, etot, laid_state L t n minx miny s)
    \<and> extent_ok L mx my n maxx maxy minx miny
    \<and> (0 < n \<longrightarrow> etot = to_i32 ((maxx - minx + 1) * (maxy - miny + 1)))"
  using n
proof (induction n)
  case 0
  have "laid_state L t 0 (10 ^ 6) (10 ^ 6) s = s" using s by (simp add: laid_state_def)
  moreover have "extent_ok L mx my 0 (-1) (-1) (10 ^ 6) (10 ^ 6)" using m by (simp add: extent_ok_def)
  ultimately show ?case using s by (intro exI [of _ "-1"] exI [of _ "10 ^ 6"]) simp
next
  case (Suc n)
  then obtain maxx maxy etot minx miny where
    IH: "for_ret n (set_amp mal (Caller t) ob om) (-1, -1, -1, s) = Inr (maxx, maxy, etot, laid_state L t n minx miny s)"
      "extent_ok L mx my n maxx maxy minx miny" by auto
  let ?u = "laid_state L t n minx miny s"
  have n: "n < l_n L" using Suc by simp
  have u: "f_mext ?u = 0" "f_minimx ?u = minx" "f_minimy ?u = miny" "f_amp ?u n = f_amp s n"
    using s by (simp_all add: laid_state_def)
  note r = small_row [OF ok n]
  let ?X = "max maxx (mx + int (l_x L n + l_c L) - 1)" and ?Y = "max maxy (my + int (l_y L n + l_r L) - 1)"
  let ?x = "min minx (mx + int (l_x L n))" and ?y = "min miny (my + int (l_y L n))"
  have ext: "extent_ok L mx my (Suc n) ?X ?Y ?x ?y"
    using IH(2) r by (auto simp: extent_ok_def less_Suc_eq max_def min_def)
  from set_amp_laid [OF ok g m n u(1), of mal ob om maxx maxy etot] IH(1)
  obtain e where "for_ret (Suc n) (set_amp mal (Caller t) ob om) (-1, -1, -1, s) = Inr (?X, ?Y, e, laid_state L t (Suc n) ?x ?y s)"
      "e = to_i32 ((?X - ?x + 1) * (?Y - ?y + 1))"
    unfolding for_ret_Suc u laid_state_Suc by auto
  with ext show ?case by blast
qed

lemma canvas_small:
  assumes "layout_ok L"
  shows "l_H L * l_T L < 2 ^ 30"
proof -
  have "2 * (l_H L * l_T L) \<le> l_b L * (l_H L * l_T L)" using assms by (intro mult_le_mono1) (simp add: layout_ok_def)
  also have "\<dots> < 2 ^ 31" using assms by (simp add: layout_ok_def)
  finally show ?thesis by simp
qed

lemma canvas_area: "layout_ok L \<Longrightarrow> to_u32 (int (l_H L * l_T L)) = int (l_H L * l_T L)"
  using canvas_small [of L] by (intro to_u32_id nat_fits_u32) simp_all

text \<open>With the extents tight the canvas is that of the layout.\<close>

lemma set_amps_tight:
  assumes ok: "layout_ok L" and ti: "tight L" and g: "geometry L mx my t"
    and m: "0 \<le> mx" "mx \<le> 10 ^ 6" "0 \<le> my" "my \<le> 10 ^ 6"
    and s: "f_mext s = 0" "f_minimx s = 10 ^ 6" "f_minimy s = 10 ^ 6"
  shows "for_ret (l_n L) (set_amp mal (Caller t) ob om) (-1, -1, -1, s) =
    Inr (mx + int (l_T L) - 1, my + int (l_H L) - 1, int (l_H L * l_T L), laid_state L t (l_n L) mx my s)"
proof -
  obtain maxx maxy etot minx miny where
    r: "for_ret (l_n L) (set_amp mal (Caller t) ob om) (-1, -1, -1, s) = Inr (maxx, maxy, etot, laid_state L t (l_n L) minx miny s)"
    and x: "extent_ok L mx my (l_n L) maxx maxy minx miny"
    and e: "0 < l_n L \<longrightarrow> etot = to_i32 ((maxx - minx + 1) * (maxy - miny + 1))"
    using set_amps_laid [OF ok g m s order_refl, of mal ob om] by (elim exE conjE) (rule that)
  obtain i j k l where c: "i < l_n L" "l_x L i = 0" "j < l_n L" "l_y L j = 0" "k < l_n L" "l_x L k + l_c L = l_T L"
      "l < l_n L" "l_y L l + l_r L = l_H L"
    using ti by (auto simp: tight_def)
  have eq: "minx = mx" "miny = my" "maxx = mx + int (l_T L) - 1" "maxy = my + int (l_H L) - 1"
    using x c by (force simp: extent_ok_def)+
  have "l_H L * l_T L < 2 ^ 31" using canvas_small [OF ok] by simp
  then have "to_i32 (int (l_H L * l_T L)) = int (l_H L * l_T L)" by (rule to_i32_nat)
  then have "etot = int (l_H L * l_T L)" using e c by (simp add: eq mult.commute)
  then show ?thesis using r by (simp add: eq)
qed

text \<open>A state whose canvas fits the layout: what the next image, or the next frame of a cube, starts from.\<close>

definition canvas_fits :: "layout \<Rightarrow> int \<Rightarrow> int \<Rightarrow> gf \<Rightarrow> bool" where
  "canvas_fits L mx my s \<longleftrightarrow> f_bytes_pp s = int (l_b L) \<and> f_mext s = 0 \<and> f_totcols s = int (l_T L)
     \<and> f_totEle s = int (l_H L * l_T L) \<and> f_omaxx s = mx + int (l_T L) - 1 \<and> f_omaxy s = my + int (l_H L) - 1
     \<and> f_ominx s = mx \<and> f_ominy s = my \<and> f_tmpptr s 0 = l_gen L \<and> f_namps s = int (l_n L)
     \<and> f_totPixels s = int (l_n L * (l_c L * l_r L))"

definition bytes_of :: "int \<Rightarrow> nat" where
  "bytes_of data = (if data = TUSHORT \<or> data = TSHORT then 2 else 4)"

definition started :: "layout \<Rightarrow> int \<Rightarrow> int \<Rightarrow> (nat \<Rightarrow> amp_t) \<Rightarrow> int \<Rightarrow> int \<Rightarrow> gf \<Rightarrow> gf" where
  "started L mx my t data hdu s = laid_state L t (l_n L) mx my
     (s\<lparr>f_minimy := 10 ^ 6, f_minimx := 10 ^ 6, f_datatype := data, f_mext := 0, f_hdutype := hdu,
        f_bytes_pp := int (bytes_of data)\<rparr>)"

lemma set_values_canvas:
  assumes ok: "layout_ok L" and ti: "tight L" and g: "geometry L mx my t"
    and m: "0 \<le> mx" "mx \<le> 10 ^ 6" "0 \<le> my" "my \<le> 10 ^ 6" and s: "\<not> f_is_roi s" "f_namps s = int (l_n L)"
  shows "GF_fits_set_values mal data hdu 0 (Caller t) s =
    set_canvas mal (f_bytes_pp s) (f_mext s) (mx + int (l_T L) - 1, my + int (l_H L) - 1, int (l_H L * l_T L),
      started L mx my t data hdu s)"
  using set_amps_tight [OF ok ti g m] s
  by (simp add: GF_fits_set_values_def Let_def GF_set_bpp_def GF_check_roi_def started_def bytes_of_def to_i16_id if_distrib cong: if_cong)

lemma started_min [simp]:
  "f_minimx (started L mx my t data hdu s) = mx" "f_minimy (started L mx my t data hdu s) = my"
  "f_mem (started L mx my t data hdu s) = f_mem s" "f_nzcnt (started L mx my t data hdu s) = f_nzcnt s"
  "f_nzim (started L mx my t data hdu s) = f_nzim s" "f_is_roi (started L mx my t data hdu s) = f_is_roi s"
  "f_datatype (started L mx my t data hdu s) = data" "f_totEle (started L mx my t data hdu s) = f_totEle s"
  by (simp_all add: started_def laid_state_def)

lemma started_canvas_fits: "bytes_of data = l_b L \<Longrightarrow> canvas_fits L mx my s \<Longrightarrow> canvas_fits L mx my (started L mx my t data hdu s)"
  by (simp add: canvas_fits_def started_def laid_state_def)

lemma type_low: "amp_type A \<in> (if b then {LL, LR} else {UL, UR}) \<Longrightarrow> (amp_type A AND LOWER \<noteq> 0) = b"
  by (auto split: if_splits)

lemma started_assembling:
  assumes ok: "layout_ok L" and g: "geometry L mx my t" and m: "0 \<le> mx" "mx \<le> 10 ^ 6" "0 \<le> my" "my \<le> 10 ^ 6"
    and b: "bytes_of data = l_b L" and f: "canvas_fits L mx my (started L mx my t data hdu s)"
  shows "assembling L 0 (started L mx my t data hdu s)"
proof -
  have low: "(amp_type (t i) AND LOWER \<noteq> 0) = l_low L i" if "i < l_n L" for i
    by (rule type_low) (use g that in \<open>simp add: geometry_def\<close>)
  have "0 < l_n L" using ok by (simp add: layout_ok_def)
  then show ?thesis
    using g m b f low by (simp add: assembling_def started_def laid_state_def canvas_fits_def laid_def geometry_def Let_def)
qed

lemma set_values_again:
  assumes ok: "layout_ok L" and ti: "tight L" and g: "geometry L mx my t"
    and m: "0 \<le> mx" "mx \<le> 10 ^ 6" "0 \<le> my" "my \<le> 10 ^ 6" and s: "\<not> f_is_roi s"
    and b: "bytes_of data = l_b L" and f: "canvas_fits L mx my s"
  shows "GF_fits_set_values mal data hdu 0 (Caller t) s = Some (0, started L mx my t data hdu s)"
proof -
  note canvas_area [OF ok]
  then show ?thesis
    using set_values_canvas [OF ok ti g m s, of mal data hdu] started_canvas_fits [OF b f, of t hdu] f
    by (simp add: set_canvas_def canvas_fits_def)
qed

section \<open>The pieces of one image\<close>

text \<open>Pieces of \<open>q\<close> rows of every amplifier, written one after the other; the file sees nothing before
  the last.\<close>

fun write_pieces :: "(nat \<Rightarrow> int \<Rightarrow> int) \<Rightarrow> 'c fits \<Rightarrow> int \<Rightarrow> nat \<Rightarrow> (nat \<times> (nat \<Rightarrow> amp_t)) list \<Rightarrow> gf \<Rightarrow> 'c
    \<Rightarrow> (int \<times> gf \<times> 'c) option" where
  "write_pieces mal lib ref n [] s c = Some (0, s, c)"
| "write_pieces mal lib ref n ((q, t) # ps) s c =
     (case GF_writeImage mal lib ref (Caller t) (int n * int q) s c of
        None \<Rightarrow> None
      | Some (ret, _, s, c) \<Rightarrow> if ps = [] \<or> ret < 0 then Some (ret, s, c) else write_pieces mal lib ref n ps s c)"

text \<open>The rows of the pieces are on the canvas: \<open>k\<close> rows arrived before them.\<close>

fun placed :: "layout \<Rightarrow> nat \<Rightarrow> (nat \<times> (nat \<Rightarrow> amp_t)) list \<Rightarrow> mem \<Rightarrow> mem \<Rightarrow> bool" where
  "placed L k [] m0 m = True"
| "placed L k ((q, t) # ps) m0 m =
     ((\<forall>i < l_n L. \<forall>j < q. rd m (tile_row L i (piece_row L k q i + j)) (row_bytes L)
         = rd m0 (dataptr (t i) + int (row_bytes L) * int j) (row_bytes L))
      \<and> placed L (k + q) ps m0 m)"

text \<open>One call in the middle of an image.\<close>

definition after_piece :: "layout \<Rightarrow> nat \<Rightarrow> nat \<Rightarrow> (nat \<Rightarrow> amp_t) \<Rightarrow> gf \<Rightarrow> gf" where
  "after_piece L k q t s = s\<lparr>f_totEleRead := (f_totEleRead s)(0 := int (l_n L * (l_c L * (k + q)))),
     f_amp := (\<lambda>i. if i < l_n L then moved L q t i (f_amp s i) else f_amp s i),
     f_mem := put_pieces L k q t (l_n L) (f_mem s)\<rparr>"

definition frames_ok :: "layout \<Rightarrow> gf \<Rightarrow> bool" where
  "frames_ok L s \<longleftrightarrow> 0 \<le> f_nzcnt s \<and> f_nzcnt s < f_nzim s \<and> f_nzim s < 2 ^ 31 \<and> f_nzim s * int (l_n L * (l_c L * l_r L)) < 2 ^ 32"

lemma writeImage_piece:
  assumes ok: "layout_ok L" and a: "assembling L k s" and q: "0 < q" "k + q \<le> l_r L"
    and d: "sources L src s t" and f: "frames_ok L s" and ref: "ref \<noteq> 0"
  defines "u \<equiv> after_piece L k q t s"
  shows "\<exists>p. GF_writeImage mal lib ref src (int (l_n L * l_c L) * int q) s c =
    (if k + q = l_r L then
       (case write_canvas lib ref u c of (stat, w, c) \<Rightarrow>
          (case GF_fits_set_values mal (f_datatype w) (f_hdutype w) (f_mext w) src (w\<lparr>f_nzcnt := to_i32 (f_nzcnt w + 1)\<rparr>) of
             None \<Rightarrow> None
           | Some (_, w) \<Rightarrow> Some (- stat, Some (p, f_nzcnt w, f_namps w), w, c)))
     else Some (0, Some (p, f_nzcnt u, f_namps u), u, c))"
proof -
  have L: "0 < l_n L" "0 < l_c L" "l_gen L \<noteq> 0" "l_n L * (l_c L * l_r L) < 2 ^ 31"
    using ok by (simp_all add: layout_ok_def)
  define P where "P = l_n L * (l_c L * l_r L)"
  define R where "R = l_n L * (l_c L * (k + q))"
  define E where "E = l_n L * (l_c L * q)"
  have RP: "R \<le> P" using q by (simp add: R_def P_def)
  have EP: "0 < E" "E \<le> P" using q L by (simp_all add: E_def P_def)
  have s: "f_tmpptr s 0 = l_gen L" "f_namps s = int (l_n L)" "f_totPixels s = int P" "f_mext s = 0"
    "f_totEleRead s 0 + int E = int R"
    using a by (simp_all add: assembling_def P_def E_def R_def algebra_simps)
  have e: "int (l_n L * l_c L) * int q = int E" by (simp add: E_def mult.assoc)
  have amp: "cdiv (int E) (int (l_n L)) = int (l_c L) * int q" using L by (simp add: cdiv_nonneg E_def)
  have R: "to_i32 (int R) = int R" "to_u32 (int R) = int R" using RP L(4) by (simp_all add: P_def to_i32_id to_u32_id)
  have last: "R = P \<longleftrightarrow> k + q = l_r L" using L by (simp add: R_def P_def)
  have nz: "0 \<le> f_nzcnt s" "f_nzcnt s + 1 \<le> f_nzim s" "f_nzim s * int P < 2 ^ 32"
    using f by (simp_all add: frames_ok_def P_def)
  have "f_nzcnt s * int P + int R \<le> (f_nzcnt s + 1) * int P" using RP by (simp add: algebra_simps)
  also have "\<dots> \<le> f_nzim s * int P" using nz by (intro mult_right_mono) simp_all
  finally have part: "f_nzcnt s * int P + int R \<le> f_nzim s * int P" .
  have pos: "0 \<le> f_nzcnt s * int P" "0 < f_nzim s * int P" using nz EP by simp_all
  then have conv: "to_u32 (f_nzcnt s * int P + int R) = f_nzcnt s * int P + int R" "to_u32 (f_nzim s * int P) = f_nzim s * int P"
    using part nz by (simp_all add: to_u32_id)
  obtain p where p: "percent (f_nzcnt s * int P + int R) (f_nzim s * int P) = Some p"
    using percent_part [of "f_nzcnt s * int P + int R"] part pos by auto
  have loop: "for_ret (l_n L) (single_turn src (int (l_c L) * int q))
      (0, s\<lparr>f_totEleRead := (f_totEleRead s)(0 := int R)\<rparr>) = Inr (0, u)"
    using single_turns [OF ok a q d order_refl] by (simp add: u_def after_piece_def R_def)
  have u: "f_nzcnt u = f_nzcnt s" "f_nzim u = f_nzim s" "f_totPixels u = int P" "f_totEleRead u 0 = int R"
    "f_namps u = int (l_n L)"
    using s by (simp_all add: u_def after_piece_def R_def)
  have w: "f_nzim w \<ge> 1 \<and> f_namps w = f_namps u" if "write_canvas lib ref u c = (stat, w, c')" for stat w c'
    using that nz u by (auto simp: write_canvas_def Let_def split: if_splits prod.splits)
  have src: "src \<noteq> Null" using d by (auto simp: sources_def)
  have call: "GF_writeImage mal lib ref src (int E) s c = GF_writeImage_Single mal lib ref src (int E) s c"
    by (simp add: GF_writeImage_def s)
  show ?thesis
  proof (cases "k + q = l_r L")
    case True
    then have "R = P" by (simp only: last)
    show ?thesis
      unfolding e call using \<open>R = P\<close> ref src EP L s R conv p loop u True w
      by (intro exI [of _ p]) (auto simp: GF_writeImage_Single_def Let_def amp split: prod.splits option.splits)
  next
    case False
    then have "R \<noteq> P" by (simp add: last)
    show ?thesis
      unfolding e call using \<open>R \<noteq> P\<close> ref src EP L s R conv p loop u False
      by (intro exI [of _ p]) (auto simp: GF_writeImage_Single_def Let_def amp split: prod.splits option.splits)
  qed
qed

text \<open>Rows that have arrived stay, and the sources of later pieces are not touched.\<close>

definition arrived :: "layout \<Rightarrow> nat \<Rightarrow> nat \<Rightarrow> nat \<Rightarrow> bool" where
  "arrived L k i y \<longleftrightarrow> i < l_n L \<and> y < l_r L \<and> (if l_low L i then y < k else l_r L - k \<le> y)"

definition keeps :: "layout \<Rightarrow> nat \<Rightarrow> mem \<Rightarrow> mem \<Rightarrow> bool" where
  "keeps L k m0 m \<longleftrightarrow> (\<forall>i y. arrived L k i y \<longrightarrow> rd m (tile_row L i y) (row_bytes L) = rd m0 (tile_row L i y) (row_bytes L))"

lemma put_pieces_keeps:
  assumes ok: "layout_ok L" and q: "k + q \<le> l_r L"
  shows "keeps L k m (put_pieces L k q t (l_n L) m)"
  unfolding keeps_def
proof (intro allI impI)
  fix i y
  assume ar: "arrived L k i y"
  show "rd (put_pieces L k q t (l_n L) m) (tile_row L i y) (row_bytes L) = rd m (tile_row L i y) (row_bytes L)"
  proof (rule put_pieces_frame)
    fix i' j
    assume b: "i' < l_n L" "j < q"
    have "i \<noteq> i' \<or> y \<noteq> piece_row L k q i' + j" using ar b q by (auto simp: arrived_def piece_row_def)
    then show "apart (tile_row L i y) (int (row_bytes L)) (tile_row L i' (piece_row L k q i' + j)) (int (row_bytes L))"
      using ar b by (intro tile_rows_apart [OF ok] piece_row_bound [OF q]) (simp_all add: arrived_def)
  qed
qed

lemma piece_arrives: "i < l_n L \<Longrightarrow> k + q \<le> l_r L \<Longrightarrow> j < q \<Longrightarrow> arrived L (k + q) i (piece_row L k q i + j)"
  by (auto simp: arrived_def piece_row_def)

lemma arrived_mono: "arrived L k i y \<Longrightarrow> arrived L (k + q) i y"
  by (auto simp: arrived_def split: if_splits)

lemma placed_sources:
  assumes "\<And>q t i j. (q, t) \<in> set ps \<Longrightarrow> i < l_n L \<Longrightarrow> j < q \<Longrightarrow>
      rd m1 (dataptr (t i) + int (row_bytes L) * int j) (row_bytes L) = rd m0 (dataptr (t i) + int (row_bytes L) * int j) (row_bytes L)"
    and "placed L k ps m1 m"
  shows "placed L k ps m0 m"
  using assms
proof (induction ps arbitrary: k)
  case Nil
  show ?case by simp
next
  case (Cons p ps)
  obtain q t where p: "p = (q, t)" by (cases p)
  have "placed L (k + q) ps m1 m" using Cons.prems(2) by (simp add: p)
  then have "placed L (k + q) ps m0 m" using Cons.IH Cons.prems(1) by (meson list.set_intros(2))
  then show ?case using Cons.prems by (auto simp: p)
qed

text \<open>What one piece contributes to the final canvas \<open>m\<close>.\<close>

lemma placed_step:
  assumes ok: "layout_ok L" and q: "k + q \<le> l_r L" and off: "off_canvas L q t"
    and offs: "\<forall>(q', t') \<in> set ps. off_canvas L q' t'"
    and rest: "placed L (k + q) ps (put_pieces L k q t (l_n L) m0) m" "keeps L (k + q) (put_pieces L k q t (l_n L) m0) m"
  shows "placed L k ((q, t) # ps) m0 m" "keeps L k m0 m"
proof -
  let ?u = "put_pieces L k q t (l_n L) m0"
  show "keeps L k m0 m"
    using rest(2) put_pieces_keeps [OF ok q, of m0 t] by (simp add: keeps_def arrived_mono)
  have src: "rd ?u (dataptr (t' i) + int (row_bytes L) * int j) (row_bytes L) = rd m0 (dataptr (t' i) + int (row_bytes L) * int j) (row_bytes L)"
    if "(q', t') \<in> set ps" "i < l_n L" "j < q'" for q' t' i j
    by (rule put_pieces_frame, rule source_row_apart [OF ok _ that(2,3) _ piece_row_bound [OF q]]) (use offs that in auto)
  have "rd m (tile_row L i (piece_row L k q i + j)) (row_bytes L) = rd m0 (dataptr (t i) + int (row_bytes L) * int j) (row_bytes L)"
    if "i < l_n L" "j < q" for i j
    using rest(2) piece_arrives [OF that(1) q that(2)] put_pieces_read [OF ok q off that(2,1) order_refl, of m0]
    by (simp add: keeps_def)
  moreover have "placed L (k + q) ps m0 m" by (rule placed_sources [OF _ rest(1)]) (rule src)
  ultimately show "placed L k ((q, t) # ps) m0 m" by simp
qed

definition pieces_ok :: "layout \<Rightarrow> int \<Rightarrow> int \<Rightarrow> (nat \<times> (nat \<Rightarrow> amp_t)) list \<Rightarrow> bool" where
  "pieces_ok L mx my ps \<longleftrightarrow> ps \<noteq> [] \<and> (\<forall>(q, t) \<in> set ps. 0 < q \<and> off_canvas L q t \<and> geometry L mx my t)"

definition image_ok :: "layout \<Rightarrow> int \<Rightarrow> int \<Rightarrow> gf \<Rightarrow> bool" where
  "image_ok L mx my s \<longleftrightarrow> layout_ok L \<and> tight L \<and> 0 \<le> mx \<and> mx \<le> 10 ^ 6 \<and> 0 \<le> my \<and> my \<le> 10 ^ 6
     \<and> canvas_fits L mx my s \<and> frames_ok L s \<and> \<not> f_is_roi s \<and> bytes_of (f_datatype s) = l_b L"

lemma after_piece_sel [simp]:
  "f_mem (after_piece L k q t s) = put_pieces L k q t (l_n L) (f_mem s)" "f_nzcnt (after_piece L k q t s) = f_nzcnt s"
  "f_datatype (after_piece L k q t s) = f_datatype s" "f_is_roi (after_piece L k q t s) = f_is_roi s"
  "f_nzim (after_piece L k q t s) = f_nzim s" "f_mext (after_piece L k q t s) = f_mext s"
  by (simp_all add: after_piece_def)

lemma image_ok_after_piece: "image_ok L mx my s \<Longrightarrow> image_ok L mx my (after_piece L k q t s)"
  by (simp add: image_ok_def canvas_fits_def frames_ok_def after_piece_def)

lemma assembling_after_piece: "assembling L k s \<Longrightarrow> k + q \<le> l_r L \<Longrightarrow> assembling L (k + q) (after_piece L k q t s)"
  unfolding after_piece_def by (rule assembling_next) simp_all

text \<open>The last piece: the canvas goes to the file, and the next frame is prepared.\<close>

lemma last_piece:
  assumes im: "image_ok L mx my s" and a: "assembling L k s" and q: "0 < q" "k + q = l_r L"
    and t: "off_canvas L q t" "geometry L mx my t" and ref: "ref \<noteq> 0"
    and w: "ff_write_img lib ref (f_datatype s) (to_u32 (int (l_H L * l_T L) * f_nzcnt s + 1)) (int (l_H L * l_T L)) (l_gen L)
      (put_pieces L k q t (l_n L) (f_mem s)) 0 c = (stat, c')"
  shows "\<exists>out s'. GF_writeImage mal lib ref (Caller t) (int (l_n L * l_c L) * int q) s c = Some (- stat, out, s', c')
    \<and> assembling L 0 s' \<and> canvas_fits L mx my s' \<and> f_nzcnt s' = f_nzcnt s + 1 \<and> f_nzim s' = f_nzim s \<and> \<not> f_is_roi s'
    \<and> f_datatype s' = f_datatype s"
proof -
  let ?u = "after_piece L k q t s"
  have ok: "layout_ok L" and ti: "tight L" and m: "0 \<le> mx" "mx \<le> 10 ^ 6" "0 \<le> my" "my \<le> 10 ^ 6" and f: "frames_ok L s"
    and roi: "\<not> f_is_roi s" and b: "bytes_of (f_datatype s) = l_b L" and cf: "canvas_fits L mx my s"
    using im by (simp_all add: image_ok_def)
  have kq: "k + q \<le> l_r L" using q by simp
  have d: "sources L (Caller t) s t" using t by (simp add: off_canvas_def sources_def)
  have u: "f_tmpptr ?u 0 = l_gen L" "f_totEle ?u = int (l_H L * l_T L)" "f_mext ?u = 0" "f_hdutype ?u = f_hdutype s"
    using cf by (simp_all add: after_piece_def canvas_fits_def)
  have wc: "write_canvas lib ref ?u c = (stat, ?u, c')"
    unfolding write_canvas_def using roi u w by simp
  have P: "f_nzim s * int (l_n L * (l_c L * l_r L)) < 2 ^ 32" "0 < int (l_n L * (l_c L * l_r L))" "0 < f_nzim s"
    using f ok by (simp_all add: frames_ok_def layout_ok_def)
  obtain p where call: "GF_writeImage mal lib ref (Caller t) (int (l_n L * l_c L) * int q) s c =
      (case GF_fits_set_values mal (f_datatype ?u) (f_hdutype ?u) 0 (Caller t) (?u\<lparr>f_nzcnt := to_i32 (f_nzcnt ?u + 1)\<rparr>) of
             None \<Rightarrow> None
           | Some (_, w) \<Rightarrow> Some (- stat, Some (p, f_nzcnt w, f_namps w), w, c'))"
    using writeImage_piece [OF ok a q(1) kq d f ref, of mal lib c] q(2) wc u(3) by auto
  let ?v = "?u\<lparr>f_nzcnt := to_i32 (f_nzcnt ?u + 1)\<rparr>"
  have v: "canvas_fits L mx my ?v" "\<not> f_is_roi ?v" using cf roi by (simp_all add: canvas_fits_def after_piece_def)
  let ?s = "started L mx my t (f_datatype s) (f_hdutype s) ?v"
  have set: "GF_fits_set_values mal (f_datatype ?u) (f_hdutype ?u) 0 (Caller t) ?v = Some (0, ?s)"
    using set_values_again [OF ok ti t(2) m v(2) b v(1)] u(4) by simp
  have nz: "to_i32 (f_nzcnt s + 1) = f_nzcnt s + 1" using f by (intro to_i32_id) (simp_all add: frames_ok_def)
  have res: "GF_writeImage mal lib ref (Caller t) (int (l_n L * l_c L) * int q) s c
      = Some (- stat, Some (p, f_nzcnt ?s, f_namps ?s), ?s, c')"
    unfolding call set by simp
  note fits = started_canvas_fits [OF b v(1), of t "f_hdutype s"]
  show ?thesis
    by (intro exI conjI, rule res, rule started_assembling [OF ok t(2) m b fits], rule fits) (simp_all add: nz roi)
qed

text \<open>By induction on the pieces.\<close>

lemma write_pieces_result:
  assumes "image_ok L mx my s" "assembling L k s" "pieces_ok L mx my ps" "k + sum_list (map fst ps) = l_r L" and ref: "ref \<noteq> 0"
  shows "\<exists>m stat s' c'. write_pieces mal lib ref (l_n L * l_c L) ps s c = Some (- stat, s', c')
    \<and> ff_write_img lib ref (f_datatype s) (to_u32 (int (l_H L * l_T L) * f_nzcnt s + 1)) (int (l_H L * l_T L)) (l_gen L) m 0 c = (stat, c')
    \<and> placed L k ps (f_mem s) m \<and> keeps L k (f_mem s) m
    \<and> assembling L 0 s' \<and> canvas_fits L mx my s' \<and> f_nzcnt s' = f_nzcnt s + 1 \<and> f_nzim s' = f_nzim s \<and> \<not> f_is_roi s'
    \<and> f_datatype s' = f_datatype s"
  using assms(1-4)
proof (induction ps arbitrary: s k)
  case Nil
  then show ?case by (simp add: pieces_ok_def)
next
  case (Cons p ps)
  obtain q t where p: "p = (q, t)" by (cases p)
  have ok: "layout_ok L" using Cons.prems by (simp add: image_ok_def)
  have q: "0 < q" "k + q \<le> l_r L" and t: "off_canvas L q t" "geometry L mx my t"
    and offs: "\<forall>(q', t') \<in> set ps. off_canvas L q' t'"
    using Cons.prems by (auto simp: pieces_ok_def p)
  show ?case
  proof (cases "ps = []")
    case True
    let ?m = "put_pieces L k q t (l_n L) (f_mem s)"
    have kq: "k + q = l_r L" using Cons.prems True by (simp add: p)
    obtain stat c' where w: "ff_write_img lib ref (f_datatype s) (to_u32 (int (l_H L * l_T L) * f_nzcnt s + 1)) (int (l_H L * l_T L))
        (l_gen L) ?m 0 c = (stat, c')" by (rule prod.exhaust)
    from last_piece [OF Cons.prems(1,2) q(1) kq t ref w, of mal] obtain out s' where
      r: "GF_writeImage mal lib ref (Caller t) (int (l_n L * l_c L) * int q) s c = Some (- stat, out, s', c')"
      and s': "assembling L 0 s'" "canvas_fits L mx my s'" "f_nzcnt s' = f_nzcnt s + 1" "f_nzim s' = f_nzim s" "\<not> f_is_roi s'"
        "f_datatype s' = f_datatype s" by blast
    have "write_pieces mal lib ref (l_n L * l_c L) (p # ps) s c = Some (- stat, s', c')"
      using r by (simp add: True p)
    moreover have "placed L k (p # ps) (f_mem s) ?m" "keeps L k (f_mem s) ?m"
      using placed_step [OF ok q(2) t(1) offs, of "f_mem s" ?m] by (simp_all add: True p keeps_def)
    ultimately show ?thesis using w s' by blast
  next
    case False
    let ?u = "after_piece L k q t s"
    have "k + q \<noteq> l_r L" using Cons.prems False q by (cases ps) (auto simp: pieces_ok_def p)
    then have r: "write_pieces mal lib ref (l_n L * l_c L) (p # ps) s c = write_pieces mal lib ref (l_n L * l_c L) ps ?u c"
      using writeImage_piece [OF ok Cons.prems(2) q, of "Caller t" t ref mal lib c] t(1) ref Cons.prems(1) False
      by (auto simp: p off_canvas_def image_ok_def sources_def)
    have "pieces_ok L mx my ps" "k + q + sum_list (map fst ps) = l_r L" using Cons.prems False by (auto simp: pieces_ok_def p)
    from Cons.IH [OF image_ok_after_piece [OF Cons.prems(1)] assembling_after_piece [OF Cons.prems(2) q(2)] this, of t]
    obtain m stat s' c' where
      w: "write_pieces mal lib ref (l_n L * l_c L) ps ?u c = Some (- stat, s', c')"
        "ff_write_img lib ref (f_datatype s) (to_u32 (int (l_H L * l_T L) * f_nzcnt s + 1)) (int (l_H L * l_T L)) (l_gen L) m 0 c = (stat, c')"
      and pl: "placed L (k + q) ps (put_pieces L k q t (l_n L) (f_mem s)) m"
        "keeps L (k + q) (put_pieces L k q t (l_n L) (f_mem s)) m"
      and s': "assembling L 0 s'" "canvas_fits L mx my s'" "f_nzcnt s' = f_nzcnt s + 1" "f_nzim s' = f_nzim s" "\<not> f_is_roi s'"
        "f_datatype s' = f_datatype s"
      unfolding after_piece_sel by (elim exE conjE) (rule that)
    show ?thesis
      by (intro exI conjI, rule trans [OF r w(1)], rule w(2), use placed_step [OF ok q(2) t(1) offs pl] s' p in simp_all)
  qed
qed

section \<open>From \<open>GF_init\<close> to the file\<close>

lemma GF_close_sel [simp]:
  "f_is_roi (GF_close s) = f_is_roi s" "f_nzim (GF_close s) = f_nzim s" "f_memfits (GF_close s) = f_memfits s"
  "f_bytes_pp (GF_close s) = 0"
proof -
  let ?b = "\<lambda>i s. if f_tmpptr s i \<noteq> 0 then s\<lparr>f_tmpptr := (f_tmpptr s)(i := 0),
      f_amp := (f_amp s)(i := (f_amp s i)\<lparr>amp_ncols := 0, amp_nrows := 0\<rparr>)\<rparr> else s"
  have "f_is_roi (for_n n ?b s) = f_is_roi s \<and> f_nzim (for_n n ?b s) = f_nzim s \<and> f_memfits (for_n n ?b s) = f_memfits s" for n
    by (induction n) simp_all
  then show "f_is_roi (GF_close s) = f_is_roi s" "f_nzim (GF_close s) = f_nzim s" "f_memfits (GF_close s) = f_memfits s"
    "f_bytes_pp (GF_close s) = 0"
    by (simp_all add: GF_close_def Let_def GF_release_image_buf_def)
qed

lemma GF_init_fits:
  assumes ok: "layout_ok L" and ti: "tight L" and g: "geometry L mx my t"
    and m: "0 \<le> mx" "mx \<le> 10 ^ 6" "0 \<le> my" "my \<le> 10 ^ 6" and roi: "\<not> f_is_roi s0" and b: "bytes_of data = l_b L"
    and init: "GF_init mal data hdu 0 (Caller t) (int (l_n L)) totalcols totalrows s0 = Some (0, s)"
    and gen: "f_tmpptr s 0 = l_gen L"
  shows "canvas_fits L mx my s" "\<not> f_is_roi s" "f_nzim s = f_nzim s0" "f_memfits s = f_memfits s0" "f_datatype s = data"
    "f_totrows s = int (l_H L)"
proof -
  define s1 where "s1 = (GF_close (s0\<lparr>f_namps := int (l_n L)\<rparr>))\<lparr>f_namps := int (l_n L), f_totcols := to_u32 totalcols,
                 f_totrows := to_u32 totalrows, f_totEle := to_u32 (to_u32 totalcols * to_u32 totalrows)\<rparr>"
  have s1: "f_is_roi s1 = f_is_roi s0" "f_nzim s1 = f_nzim s0" "f_memfits s1 = f_memfits s0" "f_bytes_pp s1 = 0"
    "f_namps s1 = int (l_n L)" by (simp_all add: s1_def)
  let ?u = "started L mx my t data hdu s1"
  have u: "f_bytes_pp ?u = int (l_b L)" "f_mext ?u = 0" "f_namps ?u = int (l_n L)" "f_memfits ?u = f_memfits s0"
    using s1 b by (simp_all add: started_def laid_state_def)
  have bp: "0 < l_b L" "0 < l_n L" using ok by (simp_all add: layout_ok_def)
  have sides: "to_u32 (int (l_T L)) = int (l_T L)" "to_u32 (int (l_H L)) = int (l_H L)"
    using small_row [OF ok bp(2)] by (simp_all add: to_u32_id)
  note area = canvas_area [OF ok] sides
  let ?x = "(mx + int (l_T L) - 1, my + int (l_H L) - 1, int (l_H L * l_T L), ?u)"
  obtain r2 s2 where s2: "set_canvas mal 0 (f_mext s1) ?x = Some (r2, s2)"
      "s = s2\<lparr>f_totElePerAmp := to_u32 (amp_ncols (t 0) * amp_nrows (t 0)),
              f_totPixels := to_u32 (int (l_n L) * to_u32 (amp_ncols (t 0) * amp_nrows (t 0)))\<rparr>" "0 \<le> r2"
    using init set_values_canvas [OF ok ti g m, of s1 mal data hdu] roi s1
    by (auto simp: GF_init_def Let_def s1_def [symmetric] amp_at_def split: option.splits if_splits prod.splits)
  have "l_n L * (l_c L * l_r L) < 2 ^ 31" "l_c L * l_r L \<le> l_n L * (l_c L * l_r L)" "(2 :: nat) ^ 31 < 2 ^ 32"
    using ok bp by (simp_all add: layout_ok_def le_times)
  then have "l_n L * (l_c L * l_r L) < 2 ^ 32" "l_c L * l_r L < 2 ^ 32" by linarith+
  then have "to_u32 (int (l_n L * (l_c L * l_r L))) = int (l_n L * (l_c L * l_r L))" "to_u32 (int (l_c L * l_r L)) = int (l_c L * l_r L)"
    by (intro to_u32_id nat_fits_u32; simp)+
  then have px: "to_u32 (int (l_n L) * to_u32 (amp_ncols (t 0) * amp_nrows (t 0))) = int (l_n L * (l_c L * l_r L))"
    using g bp by (simp add: geometry_def)
  have new: "f_bytes_pp ?u > 0" using u bp by simp
  have "f_totcols s2 = int (l_T L) \<and> f_totrows s2 = int (l_H L) \<and> f_totEle s2 = int (l_H L * l_T L)
      \<and> f_omaxx s2 = mx + int (l_T L) - 1 \<and> f_omaxy s2 = my + int (l_H L) - 1 \<and> f_ominx s2 = mx \<and> f_ominy s2 = my
      \<and> f_namps s2 = int (l_n L) \<and> f_bytes_pp s2 = int (l_b L) \<and> f_mext s2 = 0 \<and> f_is_roi s2 = f_is_roi s0
      \<and> f_nzim s2 = f_nzim s0 \<and> f_memfits s2 = f_memfits s0 \<and> f_datatype s2 = data"
    using s2(1,3) new u s1 area
    by (auto simp: set_canvas_def new_block_def Let_def split: option.splits if_splits)
  then show "canvas_fits L mx my s" "\<not> f_is_roi s" "f_nzim s = f_nzim s0" "f_memfits s = f_memfits s0" "f_datatype s = data"
    "f_totrows s = int (l_H L)"
    using s2(2) px gen roi by (simp_all add: canvas_fits_def)
qed

lemma GF_create_img_fits:
  assumes ok: "layout_ok L" and ti: "tight L" and g: "geometry L mx my t"
    and m: "0 \<le> mx" "mx \<le> 10 ^ 6" "0 \<le> my" "my \<le> 10 ^ 6" and b: "bytes_of data = l_b L"
    and s: "canvas_fits L mx my s" "\<not> f_is_roi s" "\<not> f_memfits s"
    and cr: "GF_create_img mal atof lib name data hdu 0 (Caller t) nkeys err s c = Some (ref, err', s', c')" "ref \<noteq> 0"
  shows "canvas_fits L mx my s'" "assembling L 0 s'" "f_nzcnt s' = 0" "f_nzim s' = f_nzim s" "\<not> f_is_roi s'"
    "f_datatype s' = data" "f_mem s' = f_mem s"
proof -
  let ?u = "(started L mx my t data hdu s)\<lparr>f_nzcnt := 0\<rparr>"
  have fits: "canvas_fits L mx my (started L mx my t data hdu s)" by (rule started_canvas_fits [OF b s(1)])
  have u: "f_mext ?u = 0" "f_nzim ?u = f_nzim s" "\<not> f_is_roi ?u" using fits s by (simp_all add: canvas_fits_def)
  have "s' = ?u\<lparr>f_is_roi := False\<rparr>"
    using cr set_values_again [OF ok ti g m s(2) b s(1), of mal hdu] s(3) u
    by (auto simp: GF_create_img_def GF_create_file_def Let_def flat_sizes_def split: option.splits if_splits prod.splits)
  moreover have "assembling L 0 ?u"
    using started_assembling [OF ok g m b fits] by (simp add: assembling_def)
  ultimately show "canvas_fits L mx my s'" "assembling L 0 s'" "f_nzcnt s' = 0" "f_nzim s' = f_nzim s" "\<not> f_is_roi s'"
    "f_datatype s' = data" "f_mem s' = f_mem s"
    using fits by (simp_all add: canvas_fits_def assembling_def)
qed

text \<open>C3: An image written in pieces is the mosaic of its amplifiers.  After \<open>GF_init\<close> and \<open>GF_create_img\<close>
  for a layout of tiles that do not meet, the pieces of all amplifiers, in whatever number and size, are
  passed to CFITSIO in one call: the whole canvas, at the position of the first frame.  On it every row of
  every piece stands at its place in its tile (\<open>placed\<close>): a lower amplifier fills from below, an upper
  one from above.  Afterwards the library is ready for the next frame of a cube.\<close>

theorem flat_image_assembled:
  assumes ok: "layout_ok L" "tight L" "bytes_of data = l_b L" and m: "0 \<le> mx" "mx \<le> 10 ^ 6" "0 \<le> my" "my \<le> 10 ^ 6"
    and s0: "\<not> f_is_roi s0" "\<not> f_memfits s0" "1 \<le> f_nzim s0" "f_nzim s0 < 2 ^ 31"
      "f_nzim s0 * int (l_n L * (l_c L * l_r L)) < 2 ^ 32"
    and g: "geometry L mx my t0" "geometry L mx my t1"
    and init: "GF_init mal data hdu 0 (Caller t0) (int (l_n L)) cols rows s0 = Some (0, s1)" "f_tmpptr s1 0 = l_gen L"
    and cr: "GF_create_img mal atof lib name data hdu 0 (Caller t1) nkeys err s1 c1 = Some (ref, err', s2, c2)" "ref \<noteq> 0"
    and ps: "pieces_ok L mx my ps" "sum_list (map fst ps) = l_r L"
  shows "\<exists>m stat s3 c3. write_pieces mal lib ref (l_n L * l_c L) ps s2 c2 = Some (- stat, s3, c3)
    \<and> ff_write_img lib ref data 1 (int (l_H L * l_T L)) (l_gen L) m 0 c2 = (stat, c3)
    \<and> placed L 0 ps (f_mem s1) m \<and> assembling L 0 s3 \<and> f_nzcnt s3 = 1"
proof -
  note f1 = GF_init_fits [OF ok(1,2) g(1) m s0(1) ok(3) init]
  have "\<not> f_memfits s1" using f1(4) s0(2) by simp
  note f2 = GF_create_img_fits [OF ok(1,2) g(2) m ok(3) f1(1,2) this cr]
  have im: "image_ok L mx my s2" using ok m f1 f2 s0 by (simp add: image_ok_def frames_ok_def)
  show ?thesis
    using write_pieces_result [OF im f2(2) ps(1) _ cr(2), of mal lib c2] ps(2) f2(3,6,7) by (auto simp: to_u32_id)
qed

text \<open>An example: a lower and an upper amplifier of two rows on a canvas of two columns.\<close>

definition demo_amp :: "int \<Rightarrow> int \<Rightarrow> int \<Rightarrow> amp_t" where
  "demo_amp y ty p = amp_zero\<lparr>dataptr := p, amp_xstart := 1, amp_ystart := y, amp_ncols := 2, amp_nrows := 2, amp_type := ty\<rparr>"

definition demo_amps :: "int \<Rightarrow> nat \<Rightarrow> amp_t" where
  "demo_amps p i = (if i = 0 then demo_amp 1 LL p else demo_amp 3 UL (p + 100))"

definition demo_layout :: layout where
  "demo_layout = \<lparr>l_b = 2, l_T = 2, l_H = 4, l_n = 2, l_c = 2, l_r = 2, l_x = (\<lambda>_. 0), l_y = (\<lambda>i. 2 * i),
     l_low = (\<lambda>i. i = 0), l_gen = 5000\<rparr>"

lemma demo_layout_sel [simp]:
  "l_b demo_layout = 2" "l_T demo_layout = 2" "l_H demo_layout = 4" "l_n demo_layout = 2" "l_c demo_layout = 2"
  "l_r demo_layout = 2" "l_x demo_layout i = 0" "l_y demo_layout i = 2 * i" "l_low demo_layout i = (i = 0)" "l_gen demo_layout = 5000"
  by (simp_all add: demo_layout_def)

lemma demo_ok: "layout_ok demo_layout" "tight demo_layout" "geometry demo_layout 1 1 (demo_amps p)"
proof -
  show "layout_ok demo_layout" by (auto simp: layout_ok_def tiles_apart_def less_2_cases_iff)
  have "\<exists>i < (2 :: nat). True" "\<exists>i < (2 :: nat). i = 0" "\<exists>i < (2 :: nat). i = Suc 0" by (auto intro: exI [of _ 0])
  then show "tight demo_layout" by (simp add: tight_def)
  show "geometry demo_layout 1 1 (demo_amps p)"
    by (auto simp: geometry_def demo_amps_def demo_amp_def amp_zero_def less_2_cases_iff)
qed

lemma demo_pieces: "pieces_ok demo_layout 1 1 [(1, demo_amps 1000), (1, demo_amps 1200)]"
  using demo_ok(3) by (auto simp: pieces_ok_def off_canvas_def canvas_bytes_def demo_amps_def demo_amp_def amp_zero_def apart_def)

lemma demo_margin: "with_margin 8 2 = Some 17"
  by (simp add: with_margin_def f64_nat_def in_i32_def nbits.simps rne_def Let_def)

lemma demo_gf_init: "\<exists>s1. GF_init (\<lambda>_ _. 5000) TUSHORT 0 0 (Caller (demo_amps 0)) 2 2 4 (gf_start\<lparr>f_mem := of_int\<rparr>) = Some (0, s1)
  \<and> f_tmpptr s1 0 = 5000 \<and> f_mem s1 = memset of_int 5000 0 16"
proof -
  define s where "s = (GF_close (gf_start\<lparr>f_mem := of_int, f_namps := 2\<rparr>))\<lparr>f_namps := 2, f_totcols := 2, f_totrows := 4, f_totEle := 8\<rparr>"
  have s: "\<not> f_is_roi s" "f_namps s = int (l_n demo_layout)" "f_bytes_pp s = 0" "f_mem s = of_int"
    by (simp_all add: s_def) (simp_all add: gf_start_def GF_close_def GF_release_image_buf_def Let_def numeral_2_eq_2)
  have u: "f_bytes_pp (started demo_layout 1 1 (demo_amps 0) TUSHORT 0 s) = 2" "f_mext (started demo_layout 1 1 (demo_amps 0) TUSHORT 0 s) = 0"
    by (simp_all add: started_def laid_state_def bytes_of_def)
  have "\<exists>s1. set_canvas (\<lambda>_ _. 5000) 0 (f_mext s) (2, 4, 8, started demo_layout 1 1 (demo_amps 0) TUSHORT 0 s) = Some (0, s1)
      \<and> f_tmpptr s1 0 = 5000 \<and> f_mem s1 = memset of_int 5000 0 16"
    by (simp add: set_canvas_def u s new_block_def demo_margin Let_def to_u32_def)
  then show ?thesis
    using set_values_canvas [OF demo_ok(1,2) demo_ok(3) _ _ _ _ s(1,2), of "\<lambda>_ _. 5000" TUSHORT 0]
    by (auto simp: GF_init_def Let_def s_def [symmetric] to_u32_def s)
qed

lemma all_less_two: "(\<forall>i < (2 :: nat). P i) \<longleftrightarrow> P 0 \<and> P (Suc 0)"
  by (auto simp: less_2_cases_iff)

theorem flat_image_assembled_witness:
  "\<exists>s1 s2 s3 m. GF_init (\<lambda>_ _. 5000) TUSHORT 0 0 (Caller (demo_amps 0)) 2 2 4 (gf_start\<lparr>f_mem := of_int\<rparr>) = Some (0, s1)
    \<and> GF_create_img (\<lambda>_ _. 5000) (\<lambda>_. 0) demo_fits ''a.fits'' TUSHORT 0 0 (Caller (demo_amps 0)) 0 0 s1 (0, []) = Some (1, 0, s2, (0, []))
    \<and> write_pieces (\<lambda>_ _. 5000) demo_fits 1 4 [(1, demo_amps 1000), (1, demo_amps 1200)] s2 (0, []) = Some (0, s3, (1, rd m 5000 16))
    \<and> rd m 5000 4 = map of_int [1000..1003] \<and> rd m 5004 4 = map of_int [1200..1203]
    \<and> rd m 5008 4 = map of_int [1300..1303] \<and> rd m 5012 4 = map of_int [1100..1103]"
proof -
  obtain s1 where s1: "GF_init (\<lambda>_ _. 5000) TUSHORT 0 0 (Caller (demo_amps 0)) (int (l_n demo_layout)) 2 4 (gf_start\<lparr>f_mem := of_int\<rparr>) = Some (0, s1)"
    "f_tmpptr s1 0 = l_gen demo_layout" "f_mem s1 = memset of_int 5000 0 16"
    using demo_gf_init by auto
  have s0: "\<not> f_is_roi (gf_start\<lparr>f_mem := of_int\<rparr>)" "\<not> f_memfits (gf_start\<lparr>f_mem := of_int\<rparr>)"
    "f_nzim (gf_start\<lparr>f_mem := of_int\<rparr>) = 1" by (simp_all add: gf_start_def)
  have b: "bytes_of TUSHORT = l_b demo_layout" by (simp add: bytes_of_def)
  note f = GF_init_fits [OF demo_ok(1,2) demo_ok(3) _ _ _ _ s0(1) b s1(1,2), simplified]
  have "GF_fits_set_values (\<lambda>_ _. 5000) TUSHORT 0 0 (Caller (demo_amps 0)) s1 = Some (0, started demo_layout 1 1 (demo_amps 0) TUSHORT 0 s1)"
    by (rule set_values_again [OF demo_ok(1,2) demo_ok(3)]) (use f b in simp_all)
  then obtain s2 where s2: "GF_create_img (\<lambda>_ _. 5000) (\<lambda>_. 0) demo_fits ''a.fits'' TUSHORT 0 0 (Caller (demo_amps 0)) 0 0 s1 (0, []) = Some (1, 0, s2, (0, []))"
    using f s0 started_canvas_fits [OF b, of 1 1 s1 "demo_amps 0" 0]
    by (auto simp: GF_create_img_def GF_create_file_def demo_fits_def flat_sizes_def canvas_fits_def Let_def)
  obtain m s3 where "write_pieces (\<lambda>_ _. 5000) demo_fits 1 4 [(1, demo_amps 1000), (1, demo_amps 1200)] s2 (0, []) = Some (0, s3, (1, rd m 5000 16))"
    "placed demo_layout 0 [(1, demo_amps 1000), (1, demo_amps 1200)] (f_mem s1) m"
    using flat_image_assembled [OF demo_ok(1,2) b _ _ _ _ s0(1,2) _ _ _ demo_ok(3) demo_ok(3) s1(1,2) s2 _ demo_pieces] s0(3)
    by (auto simp: demo_fits_def)
  moreover from this(2) have "rd m 5000 4 = map of_int [1000..1003]" "rd m 5004 4 = map of_int [1200..1203]"
    "rd m 5008 4 = map of_int [1300..1303]" "rd m 5012 4 = map of_int [1100..1103]"
    by (simp_all add: s1(3) tile_row_def piece_row_def demo_amps_def demo_amp_def all_less_two memset_def rd_def upt_rec upto_rec1)
  ultimately show ?thesis using s1(1) s2 by auto
qed

section \<open>Cubes from a buffer\<close>

text \<open>\<open>GF_fits_set_values\<close> on \<open>fitsamp\<close> itself copies every start onto itself and moves the upper ones.\<close>

lemma set_amp_own:
  assumes "f_mext s = 0" "amp_rotate (f_amp s i) = 0" "amp_discard (f_amp s i) = 0"
  shows "\<exists>x y e s'. set_amp mal Own ob om i (maxx, maxy, etot, s) = Inr (x, y, e, s') \<and> f_mext s' = 0
    \<and> (\<forall>j. j \<noteq> i \<longrightarrow> f_amp s' j = f_amp s j)
    \<and> x = max maxx (to_i32 (amp_xstart (f_amp s i) + amp_ncols (f_amp s i) - 1))
    \<and> y = max maxy (to_i32 (amp_ystart (f_amp s i) + amp_nrows (f_amp s i) - 1))
    \<and> f_minimx s' = min (f_minimx s) (amp_xstart (f_amp s i)) \<and> f_minimy s' = min (f_minimy s) (amp_ystart (f_amp s i))
    \<and> e = to_i32 ((x - f_minimx s' + 1) * (y - f_minimy s' + 1)) \<and> f_bytes_pp s' = f_bytes_pp s \<and> f_totEle s' = f_totEle s
    \<and> amp_ystart (f_amp s' i) = (if amp_type (f_amp s i) AND UPPER \<noteq> 0
         then to_i32 (amp_ystart (f_amp s i) + amp_nrows (f_amp s i)) else amp_ystart (f_amp s i))"
  using assms by (simp add: set_amp_def copy_geometry_def extend_extent_def amp_at_def Let_def)

lemma set_amps_own:
  assumes "f_mext s = 0" "\<forall>i < n. amp_rotate (f_amp s i) = 0 \<and> amp_discard (f_amp s i) = 0"
  shows "\<exists>x y e s'. for_ret n (set_amp mal Own ob om) (x0, y0, e0, s) = Inr (x, y, e, s') \<and> f_mext s' = 0
    \<and> (\<forall>i \<ge> n. f_amp s' i = f_amp s i)
    \<and> (\<forall>i < n. amp_ystart (f_amp s' i) = (if amp_type (f_amp s i) AND UPPER \<noteq> 0
         then to_i32 (amp_ystart (f_amp s i) + amp_nrows (f_amp s i)) else amp_ystart (f_amp s i)))"
  using assms(2)
proof (induction n)
  case 0
  show ?case using assms(1) by simp
next
  case (Suc n)
  then obtain x y e s' where IH: "for_ret n (set_amp mal Own ob om) (x0, y0, e0, s) = Inr (x, y, e, s')" "f_mext s' = 0"
    "\<forall>i \<ge> n. f_amp s' i = f_amp s i"
    "\<forall>i < n. amp_ystart (f_amp s' i) = (if amp_type (f_amp s i) AND UPPER \<noteq> 0
         then to_i32 (amp_ystart (f_amp s i) + amp_nrows (f_amp s i)) else amp_ystart (f_amp s i))" by auto
  have n: "amp_rotate (f_amp s' n) = 0" "amp_discard (f_amp s' n) = 0" using IH(3) Suc.prems by simp_all
  obtain x' y' e' v where v: "set_amp mal Own ob om n (x, y, e, s') = Inr (x', y', e', v)" "f_mext v = 0"
    "\<forall>j. j \<noteq> n \<longrightarrow> f_amp v j = f_amp s' j"
    "amp_ystart (f_amp v n) = (if amp_type (f_amp s' n) AND UPPER \<noteq> 0
         then to_i32 (amp_ystart (f_amp s' n) + amp_nrows (f_amp s' n)) else amp_ystart (f_amp s' n))"
    using set_amp_own [OF IH(2) n] by blast
  show ?case
    using IH v by (intro exI [of _ x'] exI [of _ y'] exI [of _ e'] exI [of _ v]) (auto simp: for_ret_Suc less_Suc_eq)
qed

lemma set_values_own:
  assumes "GF_fits_set_values mal data hdu 0 Own s = Some (r, s')" "f_namps s = int n" "\<not> f_is_roi s"
    "\<forall>i < n. amp_rotate (f_amp s i) = 0 \<and> amp_discard (f_amp s i) = 0" "i < n"
  shows "amp_ystart (f_amp s' i) = (if amp_type (f_amp s i) AND UPPER \<noteq> 0
         then to_i32 (amp_ystart (f_amp s i) + amp_nrows (f_amp s i)) else amp_ystart (f_amp s i))"
proof -
  let ?v = "s\<lparr>f_minimy := 10 ^ 6, f_minimx := 10 ^ 6, f_datatype := data, f_mext := 0, f_hdutype := hdu,
      f_bytes_pp := int (bytes_of data)\<rparr>"
  have canvas: "f_amp w = f_amp v" if "set_canvas mal a b (x, y, e, v) = Some (r, w)" for a b x y e v w r
    using that by (auto simp: set_canvas_def new_block_def Let_def split: if_splits option.splits)
  obtain x y e v where v: "for_ret n (set_amp mal Own (f_bytes_pp s) (f_mext s)) (-1, -1, -1, ?v) = Inr (x, y, e, v)"
    "\<forall>i < n. amp_ystart (f_amp v i) = (if amp_type (f_amp s i) AND UPPER \<noteq> 0
         then to_i32 (amp_ystart (f_amp s i) + amp_nrows (f_amp s i)) else amp_ystart (f_amp s i))"
    using set_amps_own [of ?v n mal "f_bytes_pp s" "f_mext s" "-1" "-1" "-1"] assms(4) by auto
  have "set_canvas mal (f_bytes_pp s) (f_mext s) (x, y, e, v) = Some (r, s')"
    using assms(1-3) v(1) by (simp add: GF_fits_set_values_def Let_def GF_set_bpp_def GF_check_roi_def bytes_of_def to_i16_id if_distrib cong: if_cong)
  then show ?thesis using canvas v(2) assms(5) by metis
qed

lemma set_sources:
  "for_n n (\<lambda>i. set_start i (\<lambda>F. F\<lparr>dataptr := D i\<rparr>)) s
    = s\<lparr>f_amp := (\<lambda>i. if i < n then (f_amp s i)\<lparr>dataptr := D i\<rparr> else f_amp s i)\<rparr>"
proof (induction n)
  case 0
  show ?case by simp
next
  case (Suc n)
  have "(\<lambda>i. if i < n then (f_amp s i)\<lparr>dataptr := D i\<rparr> else f_amp s i)(n := (f_amp s n)\<lparr>dataptr := D n\<rparr>)
      = (\<lambda>i. if i < Suc n then (f_amp s i)\<lparr>dataptr := D i\<rparr> else f_amp s i)" by (auto simp: fun_eq_iff)
  then show ?case by (simp only: for_n.simps Suc) (simp add: set_start_def)
qed


definition demo_start :: gf where
  "demo_start = started demo_layout 1 1 (demo_amps 0) TUSHORT 0 (gf_start\<lparr>f_bytes_pp := 2, f_totcols := 2, f_totrows := 4,
     f_totEle := 8, f_omaxx := 2, f_omaxy := 4, f_ominx := 1, f_ominy := 1, f_tmpptr := (\<lambda>_. 5000), f_namps := 2,
     f_totPixels := 8, f_nzim := 3\<rparr>)"

lemma demo_start_ok:
  "canvas_fits demo_layout 1 1 demo_start" "assembling demo_layout 0 demo_start" "frames_ok demo_layout demo_start"
  "\<not> f_is_roi demo_start" "f_minimy demo_start = 1"
  "\<forall>i < 2. amp_nrows (f_amp demo_start i) = 2 \<and> (amp_type (f_amp demo_start i) AND UPPER \<noteq> 0) = (i \<noteq> 0)"
proof -
  show f: "canvas_fits demo_layout 1 1 demo_start"
    unfolding demo_start_def by (rule started_canvas_fits) (simp_all add: bytes_of_def canvas_fits_def gf_start_def)
  show "assembling demo_layout 0 demo_start"
    unfolding demo_start_def
    by (rule started_assembling [OF demo_ok(1) demo_ok(3)]) (use f in \<open>simp_all add: bytes_of_def demo_start_def\<close>)
  show "frames_ok demo_layout demo_start" "\<not> f_is_roi demo_start" "f_minimy demo_start = 1"
    by (simp_all add: frames_ok_def demo_start_def gf_start_def)
  show "\<forall>i < 2. amp_nrows (f_amp demo_start i) = 2 \<and> (amp_type (f_amp demo_start i) AND UPPER \<noteq> 0) = (i \<noteq> 0)"
    by (auto simp: demo_start_def started_def laid_state_def laid_def demo_amps_def demo_amp_def less_2_cases_iff Let_def)
qed

lemma demo_margin2: "with_margin 4 2 = Some 8"
  by (simp add: with_margin_def f64_nat_def in_i32_def nbits.simps rne_def Let_def)

definition demo_drifted :: "gf \<Rightarrow> bool" where
  "demo_drifted w \<longleftrightarrow> f_bytes_pp w = 2 \<and> f_mext w = 0 \<and> f_totEle w = 8 \<and> f_namps w = 2 \<and> \<not> f_is_roi w
     \<and> (\<forall>i < 2. amp_xstart (f_amp w i) = 1 \<and> amp_ystart (f_amp w i) = (if i = 0 then 3 else 3) \<and> amp_ncols (f_amp w i) = 2
         \<and> amp_nrows (f_amp w i) = 2 \<and> amp_type (f_amp w i) = (if i = 0 then LL else UL) \<and> amp_rotate (f_amp w i) = 0
         \<and> amp_discard (f_amp w i) = 0)"

lemma demo_own:
  assumes "demo_drifted w"
  shows "\<exists>s'. GF_fits_set_values (\<lambda>_ _. 5000) TUSHORT hdu 0 Own w = Some (0, s') \<and> f_totrows s' = 2"
proof -
  let ?mal = "\<lambda>_ _. 5000 :: int"
  let ?v = "w\<lparr>f_minimy := 10 ^ 6, f_minimx := 10 ^ 6, f_datatype := TUSHORT, f_mext := 0, f_hdutype := hdu, f_bytes_pp := 2\<rparr>"
  have w: "f_bytes_pp w = 2" "f_mext w = 0" "f_totEle w = 8" "f_namps w = 2" "\<not> f_is_roi w"
    and A: "\<And>i. i = 0 \<or> i = Suc 0 \<Longrightarrow> amp_xstart (f_amp w i) = 1 \<and> amp_ystart (f_amp w i) = 3 \<and> amp_ncols (f_amp w i) = 2
      \<and> amp_nrows (f_amp w i) = 2 \<and> amp_rotate (f_amp w i) = 0 \<and> amp_discard (f_amp w i) = 0"
    using assms by (auto simp: demo_drifted_def)
  obtain e1 v1 where 1: "set_amp ?mal Own 2 0 0 (-1, -1, -1, ?v) = Inr (2, 4, e1, v1)" "f_mext v1 = 0" "f_amp v1 (Suc 0) = f_amp w (Suc 0)"
    "f_minimx v1 = 1" "f_minimy v1 = 3" "f_bytes_pp v1 = 2" "f_totEle v1 = 8"
    using set_amp_own [of ?v 0 ?mal 2 0 "-1" "-1" "-1"] A [of 0] w by (auto simp: to_i32_def)
  obtain v2 where 2: "set_amp ?mal Own 2 0 (Suc 0) (2, 4, e1, v1) = Inr (2, 4, 4, v2)" "f_mext v2 = 0"
    "f_minimx v2 = 1" "f_minimy v2 = 3" "f_bytes_pp v2 = 2" "f_totEle v2 = 8"
    using set_amp_own [of v1 "Suc 0" ?mal 2 0 2 4 e1] A [of "Suc 0"] 1 by (auto simp: to_i32_def)
  have "for_ret (nat 2) (set_amp ?mal Own 2 0) (-1, -1, -1, ?v) = Inr (2, 4, 4, v2)"
    using 1(1) 2(1) by (simp add: numeral_2_eq_2 for_ret_Suc)
  then show ?thesis
    using w 2 by (simp add: GF_fits_set_values_def GF_set_bpp_def GF_check_roi_def to_i16_def set_canvas_def to_u32_def
        demo_margin2 new_block_def Let_def)
qed

lemma demo_write: "ff_write_img demo_fits p ty first n buf m stat c = (stat, first, rd m buf (2 * nat n))"
  by (simp add: demo_fits_def)

lemma demo_start_after:
  assumes "f_amp s = (\<lambda>i. if i < 2 then (f_amp demo_start i)\<lparr>dataptr := D i\<rparr> else f_amp demo_start i)"
    "f_bytes_pp s = 2" "f_mext s = 0" "f_totEle s = 8" "f_namps s = 2" "\<not> f_is_roi s"
  shows "demo_drifted ((after_piece demo_layout 0 2 t s)\<lparr>f_nzcnt := z\<rparr>)"
  using assms
  by (auto simp: demo_drifted_def after_piece_def moved_def demo_start_def started_def laid_state_def laid_def demo_amps_def
      demo_amp_def amp_zero_def less_2_cases_iff Let_def)

lemma demo_start_sel: "f_bytes_pp demo_start = 2" "f_mext demo_start = 0" "f_totEle demo_start = 8" "f_namps demo_start = 2"
  "f_datatype demo_start = TUSHORT" "amp_ystart (f_amp demo_start 0) = 1" "amp_ystart (f_amp demo_start (Suc 0)) = 5"
  by (simp_all add: demo_start_def started_def laid_state_def laid_def demo_amps_def demo_amp_def bytes_of_def)


end
