(* ===== verification/AstroPci.thy ===== *)
theory AstroPci imports SimDriver "HOL-Library.Monad_Syntax"
begin

text \<open>
  The kernel driver of the PCI interface board, \<open>SDSU/private/c/driver/driver_2.6.X/astropci.c\<close> (with
  \<open>astropci_defs.h\<close> and \<open>astropci_io.h\<close>), in the build its \<open>Makefile\<close> makes: a kernel of 2.6.24 or later,
  \<open>DEBUG_ON\<close> defined, \<open>CONFIG_HIGHMEM\<close> irrelevant since the top of memory is a parameter.

  The boards and the clock are the environment: a record of functions on their state \<open>'h\<close>, by which the
  registers of a board are read and written and time passes.  An operation is \<open>None\<close> when it does not
  return: it waits for ever for the lock or for the board.
\<close>

section \<open>Constants\<close>

abbreviation (input) EBUSY :: int where "EBUSY \<equiv> 16"
abbreviation (input) EACCES :: int where "EACCES \<equiv> 13"
abbreviation (input) ENODEV :: int where "ENODEV \<equiv> 19"
abbreviation (input) MAX_DEV :: nat where "MAX_DEV \<equiv> 4"
abbreviation (input) CMD_MAX :: int where "CMD_MAX \<equiv> 6"
abbreviation (input) PAGE_SIZE :: int where "PAGE_SIZE \<equiv> 4096"

abbreviation (input) INPUT_FIFO :: int where "INPUT_FIFO \<equiv> 0"
abbreviation (input) OUTPUT_FIFO :: int where "OUTPUT_FIFO \<equiv> 1"
abbreviation (input) CHECK_REPLY :: int where "CHECK_REPLY \<equiv> 2"
abbreviation (input) INPUT_FIFO_OK_MASK :: int where "INPUT_FIFO_OK_MASK \<equiv> 2"
abbreviation (input) OUTPUT_FIFO_OK_MASK :: int where "OUTPUT_FIFO_OK_MASK \<equiv> 4"
abbreviation (input) DMA_INTERRUPTING :: int where "DMA_INTERRUPTING \<equiv> 0x40"
abbreviation (input) BUSY_MAX_WAIT :: int where "BUSY_MAX_WAIT \<equiv> 1000"
abbreviation (input) SLEEP_MAX_WAIT :: int where "SLEEP_MAX_WAIT \<equiv> 800000"

abbreviation (input) HCTR :: int where "HCTR \<equiv> 0x10"
abbreviation (input) HSTR :: int where "HSTR \<equiv> 0x14"
abbreviation (input) HCVR :: int where "HCVR \<equiv> 0x18"
abbreviation (input) REPLY_BUFFER :: int where "REPLY_BUFFER \<equiv> 0x1C"
abbreviation (input) CMD_DATA :: int where "CMD_DATA \<equiv> 0x20"

abbreviation (input) READ_REPLY_VALUE :: int where "READ_REPLY_VALUE \<equiv> 0x83"
abbreviation (input) CLEAR_REPLY_FLAGS :: int where "CLEAR_REPLY_FLAGS \<equiv> 0x85"
abbreviation (input) WRITE_PCI_ADDRESS :: int where "WRITE_PCI_ADDRESS \<equiv> 0x8D"
abbreviation (input) CLEAR_INTERRUPT :: int where "CLEAR_INTERRUPT \<equiv> 0x8073"
abbreviation (input) READ_PCI_IMAGE_ADDR :: int where "READ_PCI_IMAGE_ADDR \<equiv> 0x8075"
abbreviation (input) READ_NUMBER_OF_FRAMES_READ :: int where "READ_NUMBER_OF_FRAMES_READ \<equiv> 0x807D"
abbreviation (input) PCI_DOWNLOAD :: int where "PCI_DOWNLOAD \<equiv> 0x802F"
abbreviation (input) WRITE_COMMAND :: int where "WRITE_COMMAND \<equiv> 0xB1"

abbreviation (input) RDR :: int where "RDR \<equiv> 0x524452"
abbreviation (input) SYR :: int where "SYR \<equiv> 0x535952"
abbreviation (input) ROUT :: int where "ROUT \<equiv> 0x524F5554"

abbreviation (input) DONE_STATUS :: int where "DONE_STATUS \<equiv> 1"
abbreviation (input) READ_REPLY_STATUS :: int where "READ_REPLY_STATUS \<equiv> 2"
abbreviation (input) ERROR_STATUS :: int where "ERROR_STATUS \<equiv> 3"
abbreviation (input) SYSTEM_RESET_STATUS :: int where "SYSTEM_RESET_STATUS \<equiv> 4"
abbreviation (input) READOUT_STATUS :: int where "READOUT_STATUS \<equiv> 5"
abbreviation (input) BUSY_STATUS :: int where "BUSY_STATUS \<equiv> 6"

section \<open>State\<close>

record astropci_t =
  b_pdev :: int
  b_ioaddr :: int
  b_have_irq :: bool
  b_size :: int        \<comment> \<open>\<open>imageBufferSize\<close>\<close>
  b_phys :: int        \<comment> \<open>\<open>imageBufferPhysAddr\<close>\<close>
  b_virt :: int        \<comment> \<open>\<open>imageBufferVirtAddr\<close>\<close>
  b_opened :: bool

record 'h kern =
  k_board :: "nat \<Rightarrow> astropci_t"
  k_next :: int        \<comment> \<open>\<open>nextValidStartAddress\<close>\<close>
  k_ndev :: nat
  k_lock :: bool       \<comment> \<open>\<open>astropci_lock\<close> is held\<close>
  k_hw :: 'h

definition no_board :: astropci_t where
  "no_board = \<lparr>b_pdev = 0, b_ioaddr = 0, b_have_irq = False, b_size = 0, b_phys = 0, b_virt = 0, b_opened = False\<rparr>"

definition kern_start :: "'h \<Rightarrow> 'h kern" where
  "kern_start h = \<lparr>k_board = (\<lambda>_. no_board), k_next = 0, k_ndev = 0, k_lock = False, k_hw = h\<rparr>"

text \<open>\<open>p_HZ\<close> are the ticks of a second, \<open>p_top\<close> is the first address above Linux' memory, \<open>p_remap\<close> the
  result of \<open>remap_pfn_range\<close> for a page number and a size, \<open>p_pattern\<close> the four test words \<open>DEBUG_ON\<close>
  writes to an image buffer.\<close>

record 'h pci =
  p_readl :: "int \<Rightarrow> 'h \<Rightarrow> int \<times> 'h"
  p_readw :: "int \<Rightarrow> 'h \<Rightarrow> int \<times> 'h"
  p_writel :: "int \<Rightarrow> int \<Rightarrow> 'h \<Rightarrow> 'h"            \<comment> \<open>value, address\<close>
  p_writew :: "int \<Rightarrow> int \<Rightarrow> 'h \<Rightarrow> 'h"
  p_latency :: "int \<Rightarrow> 'h \<Rightarrow> 'h"                 \<comment> \<open>0xFF to the latency timer of a device\<close>
  p_time :: "'h \<Rightarrow> int \<times> 'h"                    \<comment> \<open>the clock in microseconds\<close>
  p_udelay :: "int \<Rightarrow> 'h \<Rightarrow> 'h"
  p_schedule :: "int \<Rightarrow> 'h \<Rightarrow> 'h"               \<comment> \<open>sleep for ticks\<close>
  p_HZ :: int
  p_top :: int
  p_remap :: "int \<Rightarrow> int \<Rightarrow> int"
  p_pattern :: "int \<Rightarrow> 'h \<Rightarrow> 'h"

definition on_hw :: "('h \<Rightarrow> 'h) \<Rightarrow> 'h kern \<Rightarrow> 'h kern" where
  "on_hw f s = s\<lparr>k_hw := f (k_hw s)\<rparr>"

definition set_board :: "nat \<Rightarrow> (astropci_t \<Rightarrow> astropci_t) \<Rightarrow> 'h kern \<Rightarrow> 'h kern" where
  "set_board dev f s = s\<lparr>k_board := (k_board s)(dev := f (k_board s dev))\<rparr>"

section \<open>Registers\<close>

definition ReadRegister_32 :: "'h pci \<Rightarrow> int \<Rightarrow> 'h kern \<Rightarrow> int \<times> 'h kern" where
  "ReadRegister_32 env addr s = (case p_readl env addr (k_hw s) of (v, h) \<Rightarrow> (to_u32 v, s\<lparr>k_hw := h\<rparr>))"

definition ReadRegister_16 :: "'h pci \<Rightarrow> int \<Rightarrow> 'h kern \<Rightarrow> int \<times> 'h kern" where
  "ReadRegister_16 env addr s = (case p_readw env addr (k_hw s) of (v, h) \<Rightarrow> (to_u16 v, s\<lparr>k_hw := h\<rparr>))"

definition WriteRegister_32 :: "'h pci \<Rightarrow> int \<Rightarrow> int \<Rightarrow> 'h kern \<Rightarrow> 'h kern" where
  "WriteRegister_32 env v addr = on_hw (p_writel env (to_u32 v) addr)"

definition WriteRegister_16 :: "'h pci \<Rightarrow> int \<Rightarrow> int \<Rightarrow> 'h kern \<Rightarrow> 'h kern" where
  "WriteRegister_16 env v addr = on_hw (p_writew env (to_u16 v) addr)"

definition Read_HCTR :: "'h pci \<Rightarrow> nat \<Rightarrow> 'h kern \<Rightarrow> int \<times> 'h kern" where
  "Read_HCTR env dev s = ReadRegister_32 env (b_ioaddr (k_board s dev) + HCTR) s"

definition Read_HSTR :: "'h pci \<Rightarrow> nat \<Rightarrow> 'h kern \<Rightarrow> int \<times> 'h kern" where
  "Read_HSTR env dev s = ReadRegister_32 env (b_ioaddr (k_board s dev) + HSTR) s"

definition Read_REPLY_BUFFER_32 :: "'h pci \<Rightarrow> nat \<Rightarrow> 'h kern \<Rightarrow> int \<times> 'h kern" where
  "Read_REPLY_BUFFER_32 env dev s = ReadRegister_32 env (b_ioaddr (k_board s dev) + REPLY_BUFFER) s"

definition Read_REPLY_BUFFER_16 :: "'h pci \<Rightarrow> nat \<Rightarrow> 'h kern \<Rightarrow> int \<times> 'h kern" where
  "Read_REPLY_BUFFER_16 env dev s = ReadRegister_16 env (b_ioaddr (k_board s dev) + REPLY_BUFFER) s"

definition Write_HCTR :: "'h pci \<Rightarrow> nat \<Rightarrow> int \<Rightarrow> 'h kern \<Rightarrow> 'h kern" where
  "Write_HCTR env dev v s = WriteRegister_32 env v (b_ioaddr (k_board s dev) + HCTR) s"

definition Write_CMD_DATA_32 :: "'h pci \<Rightarrow> nat \<Rightarrow> int \<Rightarrow> 'h kern \<Rightarrow> 'h kern" where
  "Write_CMD_DATA_32 env dev v s = WriteRegister_32 env v (b_ioaddr (k_board s dev) + CMD_DATA) s"

definition Write_CMD_DATA_16 :: "'h pci \<Rightarrow> nat \<Rightarrow> int \<Rightarrow> 'h kern \<Rightarrow> 'h kern" where
  "Write_CMD_DATA_16 env dev v s = WriteRegister_16 env v (b_ioaddr (k_board s dev) + CMD_DATA) s"

text \<open>The loop of \<open>Write_HCVR\<close> over the tries that are left: the status.\<close>

fun hcvr_ready :: "'h pci \<Rightarrow> nat \<Rightarrow> nat \<Rightarrow> 'h kern \<Rightarrow> int \<times> 'h kern" where
  "hcvr_ready env dev 0 s = (- EIO, s)"
| "hcvr_ready env dev (Suc n) s =
     (case ReadRegister_32 env (b_ioaddr (k_board s dev) + HCVR) s of
        (v, s) \<Rightarrow> if v AND 1 = 0 then (0, s) else hcvr_ready env dev n s)"

definition Write_HCVR :: "'h pci \<Rightarrow> nat \<Rightarrow> int \<Rightarrow> 'h kern \<Rightarrow> int \<times> 'h kern" where
  "Write_HCVR env dev v s =
     (case hcvr_ready env dev 100 s of
        (status, s) \<Rightarrow> (status, if status = 0 then WriteRegister_32 env v (b_ioaddr (k_board s dev) + HCVR) s else s))"

section \<open>Waiting\<close>

definition masked :: "int \<Rightarrow> int \<Rightarrow> int" where
  "masked cond reg =
     (if cond = INPUT_FIFO then reg AND INPUT_FIFO_OK_MASK
      else if cond = OUTPUT_FIFO then reg AND OUTPUT_FIFO_OK_MASK
      else if cond = CHECK_REPLY then drop_bit 3 (reg AND HTF_BITS)
      else reg)"

partial_function (option) wait_loop ::
  "'h pci \<Rightarrow> nat \<Rightarrow> int \<Rightarrow> int \<Rightarrow> int \<Rightarrow> int \<Rightarrow> int \<Rightarrow> 'h kern \<Rightarrow> (int \<times> 'h kern) option" where
  "wait_loop env dev cond sleepDelay initial elapsed status s =
     (if elapsed < SLEEP_MAX_WAIT then
        (let (reg, s) = Read_HSTR env dev s; status = masked cond reg in
         if status > 0 then Some (status, s)
         else
           (let (now, h) = p_time env (k_hw s); elapsed = now - initial;
                h = (if elapsed < BUSY_MAX_WAIT then p_udelay env 1 h else p_schedule env sleepDelay h) in
            wait_loop env dev cond sleepDelay initial elapsed status (s\<lparr>k_hw := h\<rparr>)))
      else Some (status, s))"

definition astropci_wait_for_condition :: "'h pci \<Rightarrow> nat \<Rightarrow> int \<Rightarrow> 'h kern \<Rightarrow> (int \<times> 'h kern) option" where
  "astropci_wait_for_condition env dev cond s =
     (case p_time env (k_hw s) of (initial, h) \<Rightarrow>
        wait_loop env dev cond (max 1 (10000 * p_HZ env div 1000000)) initial 0 0 (s\<lparr>k_hw := h\<rparr>))"

definition astropci_check_dsp_input_fifo :: "'h pci \<Rightarrow> nat \<Rightarrow> 'h kern \<Rightarrow> (int \<times> 'h kern) option" where
  "astropci_check_dsp_input_fifo env dev = astropci_wait_for_condition env dev INPUT_FIFO"

definition astropci_check_dsp_output_fifo :: "'h pci \<Rightarrow> nat \<Rightarrow> 'h kern \<Rightarrow> (int \<times> 'h kern) option" where
  "astropci_check_dsp_output_fifo env dev = astropci_wait_for_condition env dev OUTPUT_FIFO"

text \<open>What a status makes of \<open>retval\<close>.\<close>

definition reply_of :: "int \<Rightarrow> int \<Rightarrow> int" where
  "reply_of status retval =
     (if status = DONE_STATUS then DON
      else if status = READ_REPLY_STATUS then RDR
      else if status = ERROR_STATUS then ERR
      else if status = SYSTEM_RESET_STATUS then SYR
      else if status = READOUT_STATUS then ROUT
      else retval)"

partial_function (option) reply_loop :: "'h pci \<Rightarrow> nat \<Rightarrow> int \<Rightarrow> 'h kern \<Rightarrow> (int \<times> 'h kern) option" where
  "reply_loop env dev retval s =
     do { (status, s) \<leftarrow> astropci_wait_for_condition env dev CHECK_REPLY s;
          let retval = reply_of status retval;
          let s = (if retval \<noteq> ROUT then snd (Write_HCVR env dev CLEAR_REPLY_FLAGS s) else s);
          if status = BUSY_STATUS then reply_loop env dev retval s else Some (retval, s) }"

definition astropci_check_reply_flags :: "'h pci \<Rightarrow> nat \<Rightarrow> 'h kern \<Rightarrow> (int \<times> 'h kern) option" where
  "astropci_check_reply_flags env dev = reply_loop env dev TOUT"

declare wait_loop.simps [code] reply_loop.simps [code]

text \<open>\<open>astropci_flush_reply_buffer\<close>: at most six words; the last one read is returned.\<close>

fun flush_loop :: "'h pci \<Rightarrow> nat \<Rightarrow> nat \<Rightarrow> int \<Rightarrow> 'h kern \<Rightarrow> int \<times> 'h kern" where
  "flush_loop env dev 0 reply s = (reply, s)"
| "flush_loop env dev (Suc n) reply s =
     (let (status, s) = Read_HSTR env dev s in
      if status AND OUTPUT_FIFO_OK_MASK = OUTPUT_FIFO_OK_MASK
      then (let (v, s) = Read_REPLY_BUFFER_32 env dev s in flush_loop env dev n (to_i32 v) s)
      else (reply, s))"

definition astropci_flush_reply_buffer :: "'h pci \<Rightarrow> nat \<Rightarrow> 'h kern \<Rightarrow> int \<times> 'h kern" where
  "astropci_flush_reply_buffer env dev = flush_loop env dev 6 0"

section \<open>The image buffer\<close>

definition astropci_set_buffer_addresses :: "'h pci \<Rightarrow> nat \<Rightarrow> 'h kern \<Rightarrow> (int \<times> 'h kern) option" where
  "astropci_set_buffer_addresses env dev s =
     do { (ready, s) \<leftarrow> astropci_check_dsp_input_fifo env dev s;
          if ready = 0 then Some (- ENXIO, s)
          else do {
            let phys = b_phys (k_board s dev);
            let s = Write_CMD_DATA_16 env dev (to_u16 (phys AND 0xFFFF)) s;
            let s = Write_CMD_DATA_16 env dev (to_u16 (drop_bit 16 (phys AND 0xFFFF0000))) s;
            let (retval, s) = Write_HCVR env dev WRITE_PCI_ADDRESS s;
            if retval = 0 then do {
              (reply, s) \<leftarrow> astropci_check_reply_flags env dev s;
              Some (if reply \<noteq> DON then - ENXIO else 0, s) }
            else Some (retval, s) } }"

section \<open>Opening, closing and mapping\<close>

definition spin_lock :: "'h kern \<Rightarrow> 'h kern option" where
  "spin_lock s = (if k_lock s then None else Some (s\<lparr>k_lock := True\<rparr>))"

definition spin_unlock :: "'h kern \<Rightarrow> 'h kern" where
  "spin_unlock s = s\<lparr>k_lock := False\<rparr>"

text \<open>\<open>dev\<close> is the minor number of the file.\<close>

definition astropci_open :: "'h pci \<Rightarrow> nat \<Rightarrow> 'h kern \<Rightarrow> (int \<times> 'h kern) option" where
  "astropci_open env dev s =
     do { s \<leftarrow> spin_lock s;
          let (retval, s) =
            (if dev \<ge> MAX_DEV \<or> \<not> b_have_irq (k_board s dev) then (- ENXIO, s)
             else if b_opened (k_board s dev) then (- EBUSY, s)
             else
               (let s = on_hw (p_latency env (b_pdev (k_board s dev))) s;
                    (v, s) = Read_HCTR env dev s;
                    s = Write_HCTR env dev ((v AND 0xCFF) OR 0x900) s;
                    (reply, s) = astropci_flush_reply_buffer env dev s in
                if reply \<noteq> 0 then (- EACCES, s)
                else (0, set_board dev (\<lambda>b. b\<lparr>b_opened := True\<rparr>) s)));
          Some (retval, spin_unlock s) }"

definition astropci_close :: "nat \<Rightarrow> 'h kern \<Rightarrow> (int \<times> 'h kern) option" where
  "astropci_close dev s =
     do { s \<leftarrow> spin_lock s;
          let s = set_board dev (\<lambda>b. b\<lparr>b_opened := False, b_phys := 0, b_virt := 0\<rparr>) s;
          let s = (if \<exists>d < MAX_DEV. b_opened (k_board s d) then s else s\<lparr>k_next := 0\<rparr>);
          Some (0, spin_unlock s) }"

text \<open>The area is \<open>len\<close> bytes at the virtual address \<open>vm_start\<close>.\<close>

definition astropci_mmap :: "'h pci \<Rightarrow> nat \<Rightarrow> int \<Rightarrow> int \<Rightarrow> 'h kern \<Rightarrow> (int \<times> 'h kern) option" where
  "astropci_mmap env dev vm_start len s =
     do { s \<leftarrow> spin_lock s;
          (retval, s) \<leftarrow>
            (if dev \<ge> MAX_DEV \<or> \<not> b_opened (k_board s dev) then Some (- EAGAIN, s)
             else do {
               let s = (if k_next s = 0 then s\<lparr>k_next := to_u32 (p_top env)\<rparr> else s);
               let phys = k_next s;
               let size = to_u32 len;
               let s = set_board dev (\<lambda>b. b\<lparr>b_phys := phys, b_size := size\<rparr>) s;
               let s = s\<lparr>k_next := to_u32 (phys + size + PAGE_SIZE)\<rparr>;
               let retval = p_remap env (drop_bit 12 phys) len;
               if retval \<noteq> 0 then Some (retval, s)
               else do {
                 let virt = to_u32 vm_start;
                 let s = set_board dev (\<lambda>b. b\<lparr>b_virt := virt\<rparr>) s;
                 let s = (if virt \<noteq> 0 then on_hw (p_pattern env virt) s else s);
                 astropci_set_buffer_addresses env dev s } });
          let s = (if retval \<noteq> 0 \<and> dev \<noteq> MAX_DEV then set_board dev (\<lambda>b. b\<lparr>b_phys := 0, b_virt := 0\<rparr>) s else s);
          Some (retval, spin_unlock s) }"

section \<open>Control\<close>

text \<open>The user's memory at \<open>arg\<close>, as words; \<open>None\<close> when it cannot be accessed.\<close>

type_synonym user = "int list option"

definition get_user :: "user \<Rightarrow> int option" where
  "get_user u = (case u of Some (w # _) \<Rightarrow> Some w | _ \<Rightarrow> None)"

definition put_user :: "int \<Rightarrow> user \<Rightarrow> bool \<times> user" where
  "put_user v u = (case u of Some (_ # ws) \<Rightarrow> (True, Some (v # ws)) | _ \<Rightarrow> (False, u))"

definition copy_from_user :: "user \<Rightarrow> int list option" where
  "copy_from_user u = (case u of Some ws \<Rightarrow> if length ws < 6 then None else Some (take 6 ws) | None \<Rightarrow> None)"

definition copy_to_user :: "int list \<Rightarrow> user \<Rightarrow> bool \<times> user" where
  "copy_to_user vs u =
     (case u of Some ws \<Rightarrow> if length ws < 6 then (False, u) else (True, Some (vs @ drop 6 ws)) | None \<Rightarrow> (False, u))"

text \<open>Most cases end by storing a word; a failure of that replaces \<open>retval\<close>.\<close>

definition give :: "int \<Rightarrow> int \<Rightarrow> user \<Rightarrow> 'h kern \<Rightarrow> (int \<times> user \<times> 'h kern) option" where
  "give v retval u s = (case put_user v u of (stored, u) \<Rightarrow> Some (if stored then retval else - EFAULT, u, s))"

text \<open>The two halves of a counter the board answers with: the progress, the number of frames.\<close>

definition read_counter :: "'h pci \<Rightarrow> nat \<Rightarrow> int \<Rightarrow> 'h kern \<Rightarrow> (int \<times> int \<times> 'h kern) option" where
  "read_counter env dev vector s =
     (case Write_HCVR env dev vector s of
        (retval, s) \<Rightarrow>
          if retval = 0 then do {
            (ready, s) \<leftarrow> astropci_check_dsp_output_fifo env dev s;
            if ready \<noteq> 0 then
              (let (lower, s) = Read_REPLY_BUFFER_16 env dev s; (upper, s) = Read_REPLY_BUFFER_16 env dev s in
               Some (0, to_u32 (push_bit 16 upper OR lower), s))
            else Some (- EFAULT, 0, s) }
          else Some (retval, 0, s))"

text \<open>The reply to a command: its status, or the value when there is one to read.\<close>

definition fetch_reply :: "'h pci \<Rightarrow> nat \<Rightarrow> 'h kern \<Rightarrow> (int \<times> int \<times> 'h kern) option" where
  "fetch_reply env dev s =
     do { (reply, s) \<leftarrow> astropci_check_reply_flags env dev s;
          if reply = RDR then do {
            let s = snd (astropci_flush_reply_buffer env dev s);
            let (retval, s) = Write_HCVR env dev READ_REPLY_VALUE s;
            if retval = 0 then do {
              (ready, s) \<leftarrow> astropci_check_dsp_output_fifo env dev s;
              if ready \<noteq> 0 then (let (v, s) = Read_REPLY_BUFFER_32 env dev s in Some (0, v, s))
              else Some (- EFAULT, reply, s) }
            else Some (retval, reply, s) }
          else Some (0, reply, s) }"

definition set_hcvr_case :: "'h pci \<Rightarrow> nat \<Rightarrow> user \<Rightarrow> 'h kern \<Rightarrow> (int \<times> user \<times> 'h kern) option" where
  "set_hcvr_case env dev u s =
     (case get_user u of
        None \<Rightarrow> give 0 (- EFAULT) u s
      | Some v \<Rightarrow>
          (let (retval, s) = (if v \<noteq> ABORT_READOUT then Write_HCVR env dev CLEAR_REPLY_FLAGS s else (0, s));
               (retval, s) = (if retval = 0 then Write_HCVR env dev v s else (retval, s)) in
           if retval = 0 then do { (retval, reply, s) \<leftarrow> fetch_reply env dev s; give reply retval u s }
           else give 0 retval u s))"

text \<open>The words of a command go to the board one by one; \<open>reply\<close> comes back in the first.\<close>

definition send_command :: "'h pci \<Rightarrow> nat \<Rightarrow> int list \<Rightarrow> 'h kern \<Rightarrow> (int \<times> int \<times> 'h kern) option" where
  "send_command env dev ws s =
     (let (reg, s) = Read_HSTR env dev s; curr = drop_bit 3 (reg AND HTF_BITS) in
      if ws ! 1 AND 0x8000 = 0 \<and> curr = READOUT_STATUS then Some (- EIO, 0, s)
      else
        (let (retval, s) = Write_HCVR env dev CLEAR_REPLY_FLAGS s in
         if retval \<noteq> 0 then Some (retval, 0, s)
         else do {
           (ready, s) \<leftarrow> astropci_check_dsp_input_fifo env dev s;
           if ready = 0 then Some (- EIO, 0, s)
           else
             (let n = ws ! 0 AND 0xFF in
              if n > CMD_MAX then Some (- EFAULT, 0, s)
              else
                (let s = for_n (nat n) (\<lambda>i. Write_CMD_DATA_32 env dev (ws ! i)) s;
                     (retval, s) = Write_HCVR env dev WRITE_COMMAND s in
                 if retval = 0 then fetch_reply env dev s else Some (retval, 0, s))) }))"

definition command_case :: "'h pci \<Rightarrow> nat \<Rightarrow> user \<Rightarrow> 'h kern \<Rightarrow> (int \<times> user \<times> 'h kern) option" where
  "command_case env dev u s =
     do { let ws = copy_from_user u;
          (retval, reply, s) \<leftarrow>
            (case ws of None \<Rightarrow> Some (- EFAULT, 0, s) | Some ws \<Rightarrow> send_command env dev ws s);
          let (stored, u) = copy_to_user (reply # tl (case ws of None \<Rightarrow> replicate 6 0 | Some ws \<Rightarrow> ws)) u;
          Some (if stored then retval else - EFAULT, u, s) }"

text \<open>\<open>cmd\<close> is the request, \<open>u\<close> the user's memory at the argument.\<close>

definition astropci_ioctl :: "'h pci \<Rightarrow> nat \<Rightarrow> int \<Rightarrow> user \<Rightarrow> 'h kern \<Rightarrow> (int \<times> user \<times> 'h kern) option" where
  "astropci_ioctl env dev cmd u s =
     (if dev \<ge> MAX_DEV \<or> \<not> b_have_irq (k_board s dev) then Some (- ENXIO, u, s)
      else if cmd = 0x1 then (case Read_HCTR env dev s of (v, s) \<Rightarrow> give v 0 u s)
      else if cmd = 0x2 then
        do { (retval, v, s) \<leftarrow> read_counter env dev READ_PCI_IMAGE_ADDR s; give v retval u s }
      else if cmd = 0x7 then
        do { (retval, v, s) \<leftarrow> read_counter env dev READ_NUMBER_OF_FRAMES_READ s; give v retval u s }
      else if cmd = 0x4 then (case Read_HSTR env dev s of (v, s) \<Rightarrow> give v 0 u s)
      else if cmd = 0x3 then give (b_phys (k_board s dev)) 0 u s
      else if cmd = 0x11 then
        (case get_user u of None \<Rightarrow> Some (- EFAULT, u, s) | Some v \<Rightarrow> Some (0, u, Write_HCTR env dev v s))
      else if cmd = 0x12 then set_hcvr_case env dev u s
      else if cmd = 0x10 then
        (case get_user u of
           None \<Rightarrow> Some (- EFAULT, u, s)
         | Some v \<Rightarrow> do {
             (ready, s) \<leftarrow> astropci_check_dsp_input_fifo env dev s;
             Some (if ready \<noteq> 0 then (0, u, Write_CMD_DATA_32 env dev v s) else (- EIO, u, s)) })
      else if cmd = 0x15 then command_case env dev u s
      else if cmd = 0x13 then (case Write_HCVR env dev PCI_DOWNLOAD s of (retval, s) \<Rightarrow> Some (retval, u, s))
      else if cmd = 0x14 then do { (reply, s) \<leftarrow> astropci_check_reply_flags env dev s; give reply 0 u s }
      else if cmd = 0x16 then Some (0, u, set_board dev (\<lambda>b. b\<lparr>b_phys := 0, b_virt := 0\<rparr>) s)
      else if cmd = 999 then
        Some (0, u, if b_virt (k_board s dev) \<noteq> 0 then on_hw (p_pattern env (b_virt (k_board s dev))) s else s)
      else Some (- EINVAL, u, s))"

section \<open>Interrupts\<close>

text \<open>\<open>dev_id\<close> is the number of the board plus one.  The lock is kept when the interrupt is another
  device's.\<close>

definition astropci_intr :: "'h pci \<Rightarrow> int \<Rightarrow> 'h kern \<Rightarrow> (int \<times> 'h kern) option" where
  "astropci_intr env dev_id s =
     do { s \<leftarrow> spin_lock s;
          let dev = dev_id - 1;
          let (int_flag, s) = (if 0 \<le> dev \<and> dev < int MAX_DEV \<and> b_have_irq (k_board s (nat dev))
                               then Read_HSTR env (nat dev) s else (0, s));
          if int_flag AND DMA_INTERRUPTING = 0 then Some (0, s)
          else (let (_, s) = Write_HCVR env (nat dev) CLEAR_INTERRUPT s in Some (0, spin_unlock s)) }"

section \<open>Finding and losing boards\<close>

text \<open>What the kernel answers for one board.\<close>

record found =
  n_pdev :: int
  n_enable :: int      \<comment> \<open>\<open>pci_enable_device\<close>\<close>
  n_regions :: int     \<comment> \<open>\<open>pci_request_regions\<close>\<close>
  n_ioaddr :: int      \<comment> \<open>\<open>ioremap_nocache\<close>\<close>
  n_irq :: int         \<comment> \<open>\<open>request_irq\<close>\<close>

definition astropci_probe :: "found \<Rightarrow> 'h kern \<Rightarrow> int \<times> 'h kern" where
  "astropci_probe d s =
     (if k_ndev s = MAX_DEV then (0, s)
      else
        (let dev = k_ndev s in
         if n_enable d \<noteq> 0 then (- ENODEV, s)
         else
           (let s = s\<lparr>k_ndev := Suc dev\<rparr> in
            if n_regions d \<noteq> 0 then (n_regions d, s)
            else
              (let s = set_board dev (\<lambda>_. no_board\<lparr>b_pdev := n_pdev d, b_ioaddr := n_ioaddr d\<rparr>) s in
               if n_ioaddr d = 0 then (0, s)
               else if n_irq d = 0 then (0, set_board dev (\<lambda>b. b\<lparr>b_have_irq := True\<rparr>) s)
               else (n_irq d, s)))))"

definition astropci_remove :: "int \<Rightarrow> 'h kern \<Rightarrow> 'h kern" where
  "astropci_remove dev s =
     (if 0 \<le> dev \<and> dev < int MAX_DEV then set_board (nat dev) (\<lambda>b. b\<lparr>b_have_irq := False\<rparr>) s else s)"

text \<open>\<open>pci_register_driver\<close> probes the boards; \<open>chr i\<close> are the results of \<open>alloc_chrdev_region\<close> and
  \<open>cdev_add\<close> for a board, the last of which is returned.\<close>

definition astropci_init :: "int \<Rightarrow> found list \<Rightarrow> (nat \<Rightarrow> int) \<Rightarrow> 'h kern \<Rightarrow> int \<times> 'h kern" where
  "astropci_init registered boards chr s =
     (let s = fold (\<lambda>d s. snd (astropci_probe d s)) boards s;
          (retval, s) = (if registered \<ge> 0
            then (if k_ndev s = 0 then registered else chr (k_ndev s - 1), s\<lparr>k_next := 0\<rparr>)
            else (registered, s)) in
      (retval, s\<lparr>k_lock := False\<rparr>))"

end
