(* ===== verification/GenIII.thy ===== *)
theory GenIII imports AstroPci
begin

text \<open>
  The driver library of the real controller, \<open>driver_api/genIII_pcix/genIIILib.c\<close>, on top of the kernel
  driver: its \<open>ioctl\<close>s are the calls of \<open>AstroPci\<close>.  The requests are numbered as in \<open>sdsu_defs.h\<close>.

  The rest of the kernel is the record \<open>os\<close>: the device files, the descriptor \<open>open\<close> returns, the address and
  the length of a mapping.  Loading a DSP program (\<open>load_pci\<close>) is left out.
\<close>

abbreviation (input) ENOENT :: int where "ENOENT \<equiv> 2"
abbreviation (input) EBADF :: int where "EBADF \<equiv> 9"
abbreviation (input) RESET_CONTROLLER :: int where "RESET_CONTROLLER \<equiv> 0x87"
abbreviation (input) PCI_PC_RESET :: int where "PCI_PC_RESET \<equiv> 0x8077"

section \<open>State and system calls\<close>

record 'h gen =
  x_cmd :: "int list"               \<comment> \<open>\<open>cmd_data[10]\<close>\<close>
  x_mapsize :: int                  \<comment> \<open>\<open>opened_mapsize\<close>\<close>
  x_opened :: bool
  x_highmem :: int
  x_files :: "int \<Rightarrow> nat option"     \<comment> \<open>open descriptors and the board behind them\<close>
  x_kern :: "'h kern"

definition gen_start :: "'h kern \<Rightarrow> 'h gen" where
  "gen_start k = \<lparr>x_cmd = replicate 10 0, x_mapsize = 0, x_opened = False, x_highmem = 0, x_files = (\<lambda>_. None), x_kern = k\<rparr>"

record 'h os =
  o_pci :: "'h pci"
  o_minor :: "int \<Rightarrow> nat option"     \<comment> \<open>the board behind \<open>/dev/Arc64PCI<n>\<close>\<close>
  o_fd :: "(int \<Rightarrow> nat option) \<Rightarrow> int"
  o_vm :: int
  o_len :: "int \<Rightarrow> int"

text \<open>The result of a call is its value and \<open>errno\<close>; \<open>None\<close>: it does not return.\<close>

definition sys_open :: "'h os \<Rightarrow> int \<Rightarrow> 'h gen \<Rightarrow> (int \<times> int \<times> 'h gen) option" where
  "sys_open os device g =
     (case o_minor os device of
        None \<Rightarrow> Some (-1, ENOENT, g)
      | Some dev \<Rightarrow> do {
          (r, k) \<leftarrow> astropci_open (o_pci os) dev (x_kern g);
          let g = g\<lparr>x_kern := k\<rparr>;
          let fd = o_fd os (x_files g);
          Some (if r < 0 then (-1, - r, g) else (fd, 0, g\<lparr>x_files := (x_files g)(fd \<mapsto> dev)\<rparr>)) })"

definition sys_close :: "int \<Rightarrow> 'h gen \<Rightarrow> (int \<times> int \<times> 'h gen) option" where
  "sys_close fd g =
     (case x_files g fd of
        None \<Rightarrow> Some (-1, EBADF, g)
      | Some dev \<Rightarrow> do {
          (_, k) \<leftarrow> astropci_close dev (x_kern g);
          Some (0, 0, g\<lparr>x_files := (x_files g)(fd := None), x_kern := k\<rparr>) })"

text \<open>\<open>MAP_FAILED\<close> is the address \<open>-1\<close>.\<close>

definition sys_mmap :: "'h os \<Rightarrow> int \<Rightarrow> int \<Rightarrow> 'h gen \<Rightarrow> (int \<times> int \<times> 'h gen) option" where
  "sys_mmap os sz fd g =
     (case x_files g fd of
        None \<Rightarrow> Some (-1, EBADF, g)
      | Some dev \<Rightarrow> do {
          (r, k) \<leftarrow> astropci_mmap (o_pci os) dev (o_vm os) (o_len os sz) (x_kern g);
          Some (if r < 0 then -1 else o_vm os, if r < 0 then - r else 0, g\<lparr>x_kern := k\<rparr>) })"

definition sys_ioctl :: "'h os \<Rightarrow> int \<Rightarrow> int \<Rightarrow> int list \<Rightarrow> 'h gen \<Rightarrow> (int \<times> int \<times> int list \<times> 'h gen) option" where
  "sys_ioctl os fd cmd arg g =
     (case x_files g fd of
        None \<Rightarrow> Some (-1, EBADF, arg, g)
      | Some dev \<Rightarrow> do {
          (r, u, k) \<leftarrow> astropci_ioctl (o_pci os) dev cmd (Some (map to_u32 arg)) (x_kern g);
          Some (if r < 0 then -1 else r, if r < 0 then - r else 0,
            case u of None \<Rightarrow> arg | Some ws \<Rightarrow> map to_i32 ws, g\<lparr>x_kern := k\<rparr>) })"

section \<open>Commands\<close>

definition gen_read_reply :: "int \<Rightarrow> 'h gen \<Rightarrow> int" where
  "gen_read_reply expected g =
     (let v = hd (x_cmd g) in
      if v \<noteq> expected then (if v = ERR then - EIO else if v = TOUT then - ETIME else if expected \<noteq> 0 then - EIO else v)
      else DONE)"

text \<open>An \<open>ioctl\<close> with one word, that is only checked for success.\<close>

definition word_ioctl :: "'h os \<Rightarrow> int \<Rightarrow> int \<Rightarrow> int \<Rightarrow> ('h gen \<Rightarrow> int \<Rightarrow> int \<times> 'h gen) \<Rightarrow> 'h gen \<Rightarrow> (int \<times> 'h gen) option" where
  "word_ioctl os fd cmd v done g =
     do { (r, errno, ws, g) \<leftarrow> sys_ioctl os fd cmd [v] g;
          Some (if r \<noteq> 0 then (- errno, g) else done g (hd ws)) }"

definition gen_set_cmd_data :: "'h os \<Rightarrow> int \<Rightarrow> int \<Rightarrow> 'h gen \<Rightarrow> (int \<times> 'h gen) option" where
  "gen_set_cmd_data os fd data = word_ioctl os fd 0x10 data (\<lambda>g _. (DONE, g))"

definition gen_do_command ::
  "'h os \<Rightarrow> int \<Rightarrow> int \<Rightarrow> int \<Rightarrow> int \<Rightarrow> int \<Rightarrow> int \<Rightarrow> int \<Rightarrow> int \<Rightarrow> int \<Rightarrow> 'h gen \<Rightarrow> (int \<times> 'h gen) option" where
  "gen_do_command os fd board command arg1 arg2 arg3 arg4 expected timeout g =
     (let args = (if arg4 \<noteq> NONE then 6 else if arg3 \<noteq> NONE then 5 else if arg2 \<noteq> NONE then 4
                  else if arg1 \<noteq> NONE then 3 else 2);
          g = g\<lparr>x_cmd := [to_i32 (push_bit 8 board OR args), command, arg1, arg2, arg3, arg4] @ drop 6 (x_cmd g)\<rparr> in
      do { (r, errno, ws, g) \<leftarrow> sys_ioctl os fd 0x15 (x_cmd g) g;
           let g = g\<lparr>x_cmd := ws\<rparr>;
           Some (if r < 0 then - errno else gen_read_reply expected g, g) })"

definition gen_get_hctr :: "'h os \<Rightarrow> int \<Rightarrow> 'h gen \<Rightarrow> (int \<times> 'h gen) option" where
  "gen_get_hctr os fd = word_ioctl os fd 0x1 0 (\<lambda>g v. (v, g))"

definition gen_get_hstr :: "'h os \<Rightarrow> int \<Rightarrow> 'h gen \<Rightarrow> (int \<times> 'h gen) option" where
  "gen_get_hstr os fd = word_ioctl os fd 0x4 0 (\<lambda>g v. (v, g))"

definition gen_get_frames_progress :: "'h os \<Rightarrow> int \<Rightarrow> 'h gen \<Rightarrow> (int \<times> 'h gen) option" where
  "gen_get_frames_progress os fd = word_ioctl os fd 0x7 0 (\<lambda>g v. (v, g))"

text \<open>The request is the same number as that for the frames.\<close>

definition gen_get_read_progress :: "'h os \<Rightarrow> int \<Rightarrow> 'h gen \<Rightarrow> (int \<times> 'h gen) option" where
  "gen_get_read_progress os fd = word_ioctl os fd 0x7 0
     (\<lambda>g pix. (if pix = ROUT then -1 else if pix = ERR then - EIO else if pix = TOUT then - ETIME else pix, g))"

definition gen_no_op :: "'h gen \<Rightarrow> (int \<times> 'h gen) option" where
  "gen_no_op g = Some (DONE, g)"

section \<open>Opening and closing\<close>

definition gen_close_drv :: "int \<Rightarrow> 'h gen \<Rightarrow> (int \<times> 'h gen) option" where
  "gen_close_drv fd g =
     do { (r, errno, g) \<leftarrow> sys_close fd g;
          Some (if r \<noteq> 0 then (- errno, g) else (DONE, g\<lparr>x_opened := False, x_mapsize := 0\<rparr>)) }"

text \<open>The value returned and what is stored to \<open>*highmemPtr\<close>.  Only a null address is taken for a failure
  of \<open>mmap\<close>.\<close>

definition gen_open_drv :: "'h os \<Rightarrow> int \<Rightarrow> int \<Rightarrow> 'h gen \<Rightarrow> ((int \<times> int option) \<times> 'h gen) option" where
  "gen_open_drv os device mapsize g =
     (if x_opened g then Some ((- EBUSY, None), g)
      else do {
        (fd, errno, g) \<leftarrow> sys_open os device g;
        if fd = -1 then Some ((- errno, None), g)
        else do {
          (p, errno, g) \<leftarrow> sys_mmap os mapsize fd g;
          let g = g\<lparr>x_highmem := p\<rparr>;
          if p = 0 then do { (_, g) \<leftarrow> gen_close_drv fd g; Some ((- errno, Some p), g) }
          else Some ((fd, Some p), g\<lparr>x_opened := True, x_mapsize := mapsize\<rparr>) } })"

definition gen_link_info :: string where
  "gen_link_info = ''pcix''"

definition gen_cont_info :: string where
  "gen_cont_info = ''SDSU GenIII''"

section \<open>Resets and registers\<close>

definition gen_reset_ctrler :: "'h os \<Rightarrow> int \<Rightarrow> 'h gen \<Rightarrow> (int \<times> 'h gen) option" where
  "gen_reset_ctrler os fd = word_ioctl os fd 0x12 RESET_CONTROLLER
     (\<lambda>g v. let g = g\<lparr>x_cmd := v # tl (x_cmd g)\<rparr> in (gen_read_reply SYR g, g))"

definition gen_reset_pci :: "'h os \<Rightarrow> int \<Rightarrow> 'h gen \<Rightarrow> (int \<times> 'h gen) option" where
  "gen_reset_pci os fd = word_ioctl os fd 0x12 PCI_PC_RESET
     (\<lambda>g v. let g = g\<lparr>x_cmd := v # tl (x_cmd g)\<rparr> in (gen_read_reply DON g, g))"

definition gen_set_hctr :: "'h os \<Rightarrow> int \<Rightarrow> int \<Rightarrow> 'h gen \<Rightarrow> 'h gen option" where
  "gen_set_hctr os fd v g = do { (_, _, _, g) \<leftarrow> sys_ioctl os fd 0x11 [v] g; Some g }"

definition gen_set_hcvr :: "'h os \<Rightarrow> int \<Rightarrow> int \<Rightarrow> int \<Rightarrow> int \<Rightarrow> 'h gen \<Rightarrow> (int \<times> 'h gen) option" where
  "gen_set_hcvr os fd command expected timeout g =
     do { (r, errno, ws, g) \<leftarrow> sys_ioctl os fd 0x12 [command] g;
          if r < 0 then Some (- errno, g)
          else (let g = g\<lparr>x_cmd := hd ws # tl (x_cmd g)\<rparr> in Some (gen_read_reply expected g, g)) }"

end
