(* ===== verification/AstroPci_Board.thy ===== *)
theory AstroPci_Board imports AstroPci
begin

text \<open>
  What is asked of the hardware behind the kernel driver: the protocol of a board's registers, and a board
  that keeps it.
\<close>

section \<open>The protocol of a board\<close>

text \<open>What the kernel driver knows of a board: the words it has received, its status (the HTF bits), the
  words in its reply buffer, the value it holds ready, and the cells of the controller behind it.\<close>

record dsp =
  d_in :: "int list"
  d_status :: int
  d_out :: "int list"
  d_value :: int
  d_cell :: "int \<Rightarrow> int \<Rightarrow> int"

text \<open>The documented behaviour of the registers of the board at \<open>io\<close>: in the states \<open>good\<close> the input
  buffer has room, the bits of the status register tell the rest, and the vectors do what their names
  say.  Words are of 24 bits.\<close>

definition protocol :: "'h pci \<Rightarrow> int \<Rightarrow> ('h \<Rightarrow> bool) \<Rightarrow> ('h \<Rightarrow> dsp) \<Rightarrow> bool" where
  "protocol env io good view \<longleftrightarrow> (\<forall>h. good h \<longrightarrow>
     (\<forall>v h'. p_readl env (io + HSTR) h = (v, h') \<longrightarrow> good h' \<and> view h' = view h \<and> 0 \<le> v \<and> v < 2 ^ 32
        \<and> v AND INPUT_FIFO_OK_MASK = INPUT_FIFO_OK_MASK
        \<and> v AND OUTPUT_FIFO_OK_MASK = (if d_out (view h) = [] then 0 else OUTPUT_FIFO_OK_MASK)
        \<and> drop_bit 3 (v AND HTF_BITS) = d_status (view h))
   \<and> (\<forall>v h'. p_readl env (io + HCVR) h = (v, h') \<longrightarrow> good h' \<and> view h' = view h \<and> to_u32 v AND 1 = 0)
   \<and> (\<forall>w ws v h'. d_out (view h) = w # ws \<longrightarrow> p_readl env (io + REPLY_BUFFER) h = (v, h') \<longrightarrow>
        v = w \<and> good h' \<and> view h' = (view h)\<lparr>d_out := ws\<rparr>)
   \<and> (\<forall>w h'. p_writel env w (io + CMD_DATA) h = h' \<longrightarrow> good h' \<and> view h' = (view h)\<lparr>d_in := d_in (view h) @ [w]\<rparr>)
   \<and> (\<forall>t h'. p_time env h = (t, h') \<longrightarrow> good h' \<and> view h' = view h)
   \<and> (\<forall>h'. p_writel env CLEAR_REPLY_FLAGS (io + HCVR) h = h' \<longrightarrow> good h' \<and> view h' = (view h)\<lparr>d_status := 0\<rparr>)
   \<and> (\<forall>h'. p_writel env READ_REPLY_VALUE (io + HCVR) h = h' \<longrightarrow>
        good h' \<and> view h' = (view h)\<lparr>d_out := d_out (view h) @ [d_value (view h)]\<rparr>)
   \<and> (\<forall>b a v h'. d_in (view h) = [b * 256 + 4, WRM, a, v] \<longrightarrow> p_writel env WRITE_COMMAND (io + HCVR) h = h' \<longrightarrow>
        good h' \<and> view h' = (view h)\<lparr>d_in := [], d_status := DONE_STATUS,
          d_cell := (d_cell (view h))(b := (d_cell (view h) b)(a := v))\<rparr>)
   \<and> (\<forall>b a h'. d_in (view h) = [b * 256 + 3, RDM, a] \<longrightarrow> p_writel env WRITE_COMMAND (io + HCVR) h = h' \<longrightarrow>
        good h' \<and> view h' = (view h)\<lparr>d_in := [], d_status := READ_REPLY_STATUS, d_value := d_cell (view h) b a\<rparr>))"

lemma protocolD:
  assumes "protocol env io good view" "good h"
  shows "p_readl env (io + HSTR) h = (v, h') \<Longrightarrow> good h' \<and> view h' = view h \<and> to_u32 v = v
        \<and> v AND INPUT_FIFO_OK_MASK = INPUT_FIFO_OK_MASK
        \<and> v AND OUTPUT_FIFO_OK_MASK = (if d_out (view h) = [] then 0 else OUTPUT_FIFO_OK_MASK)
        \<and> drop_bit 3 (v AND HTF_BITS) = d_status (view h)"
    and "p_readl env (io + HCVR) h = (v, h') \<Longrightarrow> good h' \<and> view h' = view h \<and> to_u32 v AND 1 = 0"
    and "d_out (view h) = w # ws \<Longrightarrow> p_readl env (io + REPLY_BUFFER) h = (v, h') \<Longrightarrow>
        v = w \<and> good h' \<and> view h' = (view h)\<lparr>d_out := ws\<rparr>"
    and "good (p_writel env w (io + CMD_DATA) h) \<and> view (p_writel env w (io + CMD_DATA) h) = (view h)\<lparr>d_in := d_in (view h) @ [w]\<rparr>"
    and "p_time env h = (tm, h') \<Longrightarrow> good h' \<and> view h' = view h"
    and "good (p_writel env CLEAR_REPLY_FLAGS (io + HCVR) h)
        \<and> view (p_writel env CLEAR_REPLY_FLAGS (io + HCVR) h) = (view h)\<lparr>d_status := 0\<rparr>"
    and "good (p_writel env READ_REPLY_VALUE (io + HCVR) h)
        \<and> view (p_writel env READ_REPLY_VALUE (io + HCVR) h) = (view h)\<lparr>d_out := d_out (view h) @ [d_value (view h)]\<rparr>"
    and "d_in (view h) = [b * 256 + 4, WRM, a, x] \<Longrightarrow> good (p_writel env WRITE_COMMAND (io + HCVR) h)
        \<and> view (p_writel env WRITE_COMMAND (io + HCVR) h) = (view h)\<lparr>d_in := [], d_status := DONE_STATUS,
          d_cell := (d_cell (view h))(b := (d_cell (view h) b)(a := x))\<rparr>"
    and "d_in (view h) = [b * 256 + 3, RDM, a] \<Longrightarrow> good (p_writel env WRITE_COMMAND (io + HCVR) h)
        \<and> view (p_writel env WRITE_COMMAND (io + HCVR) h) = (view h)\<lparr>d_in := [], d_status := READ_REPLY_STATUS,
          d_value := d_cell (view h) b a\<rparr>"
proof -
  note P = assms(1) [unfolded protocol_def, THEN spec, THEN mp, OF assms(2)]
  note P1 = P [THEN conjunct2]
  note P2 = P1 [THEN conjunct2]
  note P3 = P2 [THEN conjunct2]
  note P4 = P3 [THEN conjunct2]
  note P5 = P4 [THEN conjunct2]
  note P6 = P5 [THEN conjunct2]
  note P7 = P6 [THEN conjunct2]
  show "p_readl env (io + HSTR) h = (v, h') \<Longrightarrow> good h' \<and> view h' = view h \<and> to_u32 v = v
        \<and> v AND INPUT_FIFO_OK_MASK = INPUT_FIFO_OK_MASK
        \<and> v AND OUTPUT_FIFO_OK_MASK = (if d_out (view h) = [] then 0 else OUTPUT_FIFO_OK_MASK)
        \<and> drop_bit 3 (v AND HTF_BITS) = d_status (view h)"
    using P [THEN conjunct1, THEN spec, THEN spec, THEN mp, of v h'] by (auto intro: to_u32_id simp del: drop_bit_and)
  show "p_readl env (io + HCVR) h = (v, h') \<Longrightarrow> good h' \<and> view h' = view h \<and> to_u32 v AND 1 = 0"
    by (rule P1 [THEN conjunct1, THEN spec, THEN spec, THEN mp])
  show "d_out (view h) = w # ws \<Longrightarrow> p_readl env (io + REPLY_BUFFER) h = (v, h') \<Longrightarrow>
        v = w \<and> good h' \<and> view h' = (view h)\<lparr>d_out := ws\<rparr>"
    by (rule P2 [THEN conjunct1, THEN spec, THEN spec, THEN spec, THEN spec, THEN mp, THEN mp])
  show "good (p_writel env w (io + CMD_DATA) h) \<and> view (p_writel env w (io + CMD_DATA) h) = (view h)\<lparr>d_in := d_in (view h) @ [w]\<rparr>"
    by (rule P3 [THEN conjunct1, THEN spec, THEN spec, THEN mp, OF refl])
  show "p_time env h = (tm, h') \<Longrightarrow> good h' \<and> view h' = view h"
    by (rule P4 [THEN conjunct1, THEN spec, THEN spec, THEN mp])
  show "good (p_writel env CLEAR_REPLY_FLAGS (io + HCVR) h)
        \<and> view (p_writel env CLEAR_REPLY_FLAGS (io + HCVR) h) = (view h)\<lparr>d_status := 0\<rparr>"
    by (rule P5 [THEN conjunct1, THEN spec, THEN mp, OF refl])
  show "good (p_writel env READ_REPLY_VALUE (io + HCVR) h)
        \<and> view (p_writel env READ_REPLY_VALUE (io + HCVR) h) = (view h)\<lparr>d_out := d_out (view h) @ [d_value (view h)]\<rparr>"
    by (rule P6 [THEN conjunct1, THEN spec, THEN mp, OF refl])
  show "d_in (view h) = [b * 256 + 4, WRM, a, x] \<Longrightarrow> good (p_writel env WRITE_COMMAND (io + HCVR) h)
        \<and> view (p_writel env WRITE_COMMAND (io + HCVR) h) = (view h)\<lparr>d_in := [], d_status := DONE_STATUS,
          d_cell := (d_cell (view h))(b := (d_cell (view h) b)(a := x))\<rparr>"
    by (erule P7 [THEN conjunct1, THEN spec, THEN spec, THEN spec, THEN spec, THEN mp, THEN mp]) (rule refl)
  show "d_in (view h) = [b * 256 + 3, RDM, a] \<Longrightarrow> good (p_writel env WRITE_COMMAND (io + HCVR) h)
        \<and> view (p_writel env WRITE_COMMAND (io + HCVR) h) = (view h)\<lparr>d_in := [], d_status := READ_REPLY_STATUS,
          d_value := d_cell (view h) b a\<rparr>"
    by (erule P7 [THEN conjunct2, THEN spec, THEN spec, THEN spec, THEN mp, THEN mp]) (rule refl)
qed

text \<open>Opening the board sets its control register and its latency timer, which leaves the rest alone.\<close>

definition quiet_setup :: "'h pci \<Rightarrow> int \<Rightarrow> ('h \<Rightarrow> bool) \<Rightarrow> ('h \<Rightarrow> dsp) \<Rightarrow> bool" where
  "quiet_setup env io good view \<longleftrightarrow> (\<forall>h. good h \<longrightarrow>
     (\<forall>v h'. p_readl env (io + HCTR) h = (v, h') \<longrightarrow> good h' \<and> view h' = view h)
   \<and> (\<forall>w. good (p_writel env w (io + HCTR) h) \<and> view (p_writel env w (io + HCTR) h) = view h)
   \<and> (\<forall>d. good (p_latency env d h) \<and> view (p_latency env d h) = view h))"

section \<open>A board\<close>

text \<open>A machine with one board on two addresses, and a clock.\<close>

type_synonym machine = "int \<times> dsp"

definition vector :: "int \<Rightarrow> dsp \<Rightarrow> dsp" where
  "vector v d =
     (if v = CLEAR_REPLY_FLAGS then d\<lparr>d_status := 0\<rparr>
      else if v = READ_REPLY_VALUE then d\<lparr>d_out := d_out d @ [d_value d]\<rparr>
      else if v = WRITE_PCI_ADDRESS then d\<lparr>d_in := [], d_status := DONE_STATUS\<rparr>
      else if v = WRITE_COMMAND then
        (case d_in d of
           [c, op, a] \<Rightarrow>
             if op = RDM then d\<lparr>d_in := [], d_status := READ_REPLY_STATUS, d_value := d_cell d (c div 256) a\<rparr>
             else d\<lparr>d_in := [], d_status := ERROR_STATUS\<rparr>
         | [c, op, a, x] \<Rightarrow>
             if op = WRM then d\<lparr>d_in := [], d_status := DONE_STATUS,
               d_cell := (d_cell d)(c div 256 := (d_cell d (c div 256))(a := x))\<rparr>
             else d\<lparr>d_in := [], d_status := ERROR_STATUS\<rparr>
         | _ \<Rightarrow> d\<lparr>d_in := [], d_status := ERROR_STATUS\<rparr>)
      else d)"

definition board_read :: "int \<Rightarrow> machine \<Rightarrow> int \<times> machine" where
  "board_read addr h = (case h of (t, d) \<Rightarrow>
     if addr mod 0x1000 = HSTR then (2 + (if d_out d = [] then 0 else 4) + 8 * d_status d, h)
     else if addr mod 0x1000 = REPLY_BUFFER then
       (case d_out d of [] \<Rightarrow> (0, h) | w # ws \<Rightarrow> (w, (t, d\<lparr>d_out := ws\<rparr>)))
     else (0, h))"

definition board_write :: "int \<Rightarrow> int \<Rightarrow> machine \<Rightarrow> machine" where
  "board_write w addr h = (case h of (t, d) \<Rightarrow>
     if addr mod 0x1000 = CMD_DATA then (t, d\<lparr>d_in := d_in d @ [w]\<rparr>)
     else if addr mod 0x1000 = HCVR then (t, vector w d)
     else h)"

definition demo_pci :: "machine pci" where
  "demo_pci = \<lparr>p_readl = board_read, p_readw = board_read, p_writel = board_write, p_writew = board_write,
     p_latency = (\<lambda>_ h. h), p_time = (\<lambda>h. (fst h, (fst h + 1, snd h))), p_udelay = (\<lambda>n h. (fst h + 1, snd h)),
     p_schedule = (\<lambda>n h. (fst h + 10000, snd h)), p_HZ = 100, p_top = 0x40000000, p_remap = (\<lambda>_ _. 0),
     p_pattern = (\<lambda>_ h. h)\<rparr>"

definition demo_dsp :: dsp where
  "demo_dsp = \<lparr>d_in = [], d_status = 0, d_out = [], d_value = 0, d_cell = (\<lambda>_ _. 0)\<rparr>"

definition demo_found :: "int \<Rightarrow> found" where
  "demo_found io = \<lparr>n_pdev = 1, n_enable = 0, n_regions = 0, n_ioaddr = io, n_irq = 0\<rparr>"

text \<open>The driver once it has found the two boards.\<close>

definition demo_kern :: "machine kern" where
  "demo_kern = snd (astropci_init 0 [demo_found 0x1000, demo_found 0x2000] (\<lambda>_. 0) (kern_start (0, demo_dsp)))"

lemma demo_kern_sel:
  "k_board demo_kern 0 = no_board\<lparr>b_pdev := 1, b_ioaddr := 0x1000, b_have_irq := True\<rparr>"
  "k_board demo_kern 1 = no_board\<lparr>b_pdev := 1, b_ioaddr := 0x2000, b_have_irq := True\<rparr>"
  "k_lock demo_kern = False" "k_hw demo_kern = (0, demo_dsp)" "k_next demo_kern = 0"
  by (simp_all add: demo_kern_def astropci_init_def astropci_probe_def demo_found_def kern_start_def set_board_def no_board_def Let_def)

definition demo_good :: "machine \<Rightarrow> bool" where
  "demo_good h \<longleftrightarrow> d_status (snd h) \<in> {0 .. 7}"

lemma demo_protocol: "protocol demo_pci 0x1000 demo_good snd"
proof -
  have status: "d_status d \<in> {0, 1, 2, 3, 4, 5, 6, 7}" if "demo_good (t, d)" for t d
    using that by (auto simp: demo_good_def)
  have hstr: "0 \<le> v \<and> v < 2 ^ 32 \<and> v AND INPUT_FIFO_OK_MASK = INPUT_FIFO_OK_MASK
        \<and> v AND OUTPUT_FIFO_OK_MASK = (if d_out d = [] then 0 else OUTPUT_FIFO_OK_MASK)
        \<and> drop_bit 3 (v AND HTF_BITS) = d_status d"
    if "demo_good (t, d)" "v = 2 + (if d_out d = [] then 0 else 4) + 8 * d_status d" for t d v
    using status [OF that(1)] that(2) by (cases "d_out d = []") (auto simp del: drop_bit_and)
  have regs: "p_readl demo_pci (0x1000 + HSTR) (t, d) = (2 + (if d_out d = [] then 0 else 4) + 8 * d_status d, (t, d))"
      "p_readl demo_pci (0x1000 + HCVR) (t, d) = (0, (t, d))"
      "p_readl demo_pci (0x1000 + REPLY_BUFFER) (t, d) =
        (case d_out d of [] \<Rightarrow> (0, (t, d)) | w # ws \<Rightarrow> (w, (t, d\<lparr>d_out := ws\<rparr>)))"
      "p_writel demo_pci w (0x1000 + CMD_DATA) (t, d) = (t, d\<lparr>d_in := d_in d @ [w]\<rparr>)"
      "p_writel demo_pci w (0x1000 + HCVR) (t, d) = (t, vector w d)"
      "p_time demo_pci (t, d) = (t, (t + 1, d))" for t d w
    by (simp_all add: demo_pci_def board_read_def board_write_def)
  have div: "(b * 256 + 4) div 256 = b" "(b * 256 + 3) div 256 = b" for b :: int by simp_all
  show ?thesis
    unfolding protocol_def
  proof (intro allI impI, goal_cases)
    case (1 h)
    obtain t d where h: "h = (t, d)" by (cases h)
    show ?case
      unfolding h regs using 1 [unfolded h]
      by (intro conjI allI impI)
        (use hstr [of t d] in \<open>auto simp: vector_def div demo_good_def to_u32_def simp del: drop_bit_and\<close>)
  qed
qed

lemma demo_quiet: "quiet_setup demo_pci 0x1000 demo_good snd"
  by (simp add: quiet_setup_def demo_pci_def board_read_def board_write_def split: prod.split)

end
