(* ===== verification/AstroPci_Props.thy ===== *)
theory AstroPci_Props imports AstroPci_Board
begin

text \<open>
  The kernel driver: what the low-level operations leave alone, the termination of waiting, the lock,
  and the image buffers of the boards.
\<close>

section \<open>What the hardware cannot change\<close>

text \<open>\<open>touched s s'\<close>: only the boards themselves and the clock have moved.\<close>

definition touched :: "'h kern \<Rightarrow> 'h kern \<Rightarrow> bool" where
  "touched s s' \<longleftrightarrow> k_board s' = k_board s \<and> k_next s' = k_next s \<and> k_ndev s' = k_ndev s \<and> k_lock s' = k_lock s"

named_theorems touching \<open>operations that move the hardware only\<close>

lemma touched_refl [simp, intro]: "touched s s"
  by (simp add: touched_def)

lemma touched_trans [trans]: "touched s t \<Longrightarrow> touched t u \<Longrightarrow> touched s u"
  by (simp add: touched_def)

lemma touched_hw [simp]: "touched s (s\<lparr>k_hw := h\<rparr>)" "touched s (on_hw f s)"
  "touched (s\<lparr>k_hw := h\<rparr>) s' = touched s s'" "touched s (s'\<lparr>k_hw := h\<rparr>) = touched s s'"
  by (simp_all add: touched_def on_hw_def)

lemma registers_touched [touching]:
  "touched s (snd (ReadRegister_32 env a s))" "touched s (snd (ReadRegister_16 env a s))"
  "touched s (WriteRegister_32 env v a s)" "touched s (WriteRegister_16 env v a s)"
  by (simp_all add: ReadRegister_32_def ReadRegister_16_def WriteRegister_32_def WriteRegister_16_def split: prod.split)

lemmas access_defs = Read_HCTR_def Read_HSTR_def Read_REPLY_BUFFER_32_def Read_REPLY_BUFFER_16_def
  Write_HCTR_def Write_CMD_DATA_32_def Write_CMD_DATA_16_def

lemma access_touched [touching]:
  "touched s (snd (Read_HCTR env dev s))" "touched s (snd (Read_HSTR env dev s))"
  "touched s (snd (Read_REPLY_BUFFER_32 env dev s))" "touched s (snd (Read_REPLY_BUFFER_16 env dev s))"
  "touched s (Write_HCTR env dev v s)" "touched s (Write_CMD_DATA_32 env dev v s)" "touched s (Write_CMD_DATA_16 env dev v s)"
  by (simp_all add: access_defs touching)

lemma touched_fst: "f s = (v, t) \<Longrightarrow> touched s (snd (f s)) \<Longrightarrow> touched s t"
  by simp

lemma hcvr_ready_touched: "touched s (snd (hcvr_ready env dev n s))"
proof (induction n arbitrary: s)
  case (Suc n)
  obtain v t where r: "ReadRegister_32 env (b_ioaddr (k_board s dev) + HCVR) s = (v, t)" by fastforce
  then have "touched s t" using registers_touched(1) by (rule touched_fst)
  then show ?case using r Suc [of t] by (auto intro: touched_trans)
qed simp

lemma Write_HCVR_touched [touching]: "touched s (snd (Write_HCVR env dev v s))"
proof -
  obtain st t where r: "hcvr_ready env dev 100 s = (st, t)" by fastforce
  then have "touched s t" using hcvr_ready_touched by (rule touched_fst)
  moreover have "touched t (WriteRegister_32 env v a t)" for a by (simp add: touching)
  ultimately show ?thesis using r by (auto simp: Write_HCVR_def intro: touched_trans)
qed

text \<open>The same as destruction rules.\<close>

lemmas hw_touched = registers_touched(1,2) [THEN touched_fst [rotated]] access_touched(1-4) [THEN touched_fst [rotated]]
  Write_HCVR_touched [THEN touched_fst [rotated]]

lemma flush_loop_touched: "touched s (snd (flush_loop env dev n reply s))"
proof (induction n arbitrary: reply s)
  case (Suc n)
  obtain v t where r: "Read_HSTR env dev s = (v, t)" by fastforce
  obtain w u where q: "Read_REPLY_BUFFER_32 env dev t = (w, u)" by fastforce
  have "touched s t" "touched t u" using r q by (auto intro: hw_touched)
  then show ?case using r q Suc [of u] by (auto simp: Let_def intro: touched_trans)
qed simp

lemma flush_touched [touching]: "touched s (snd (astropci_flush_reply_buffer env dev s))"
  by (simp add: astropci_flush_reply_buffer_def flush_loop_touched)

lemma wait_loop_touched:
  assumes "wait_loop env dev cond d i e st s = Some rs"
  shows "touched s (snd rs)"
proof (rule wait_loop.raw_induct [where P = "\<lambda>env dev cond d i e st s rs. touched s (snd rs)", OF _ assms])
  fix f env dev cond d i e st rs and s :: "'h kern"
  assume IH: "\<And>env dev cond d i e st s rs. f env dev cond d i e st s = Some rs \<Longrightarrow> touched s (snd rs)"
    and eq: "(if e < SLEEP_MAX_WAIT then
        (let (reg, s) = Read_HSTR env dev s; status = masked cond reg in
         if status > 0 then Some (status, s)
         else
           (let (now, h) = p_time env (k_hw s); elapsed = now - i;
                h = (if elapsed < BUSY_MAX_WAIT then p_udelay env 1 h else p_schedule env d h) in
            f env dev cond d i elapsed status (s\<lparr>k_hw := h\<rparr>)))
      else Some (st, s)) = Some rs"
  obtain v t where t: "Read_HSTR env dev s = (v, t)" by fastforce
  then have st: "touched s t" by (rule hw_touched)
  show "touched s (snd rs)"
  proof (cases "e < SLEEP_MAX_WAIT \<and> \<not> masked cond v > 0")
    case True
    obtain now h where h: "p_time env (k_hw t) = (now, h)" by fastforce
    from eq t h True have "touched t (snd rs)"
      by (auto simp: Let_def dest!: IH split: if_splits)
    then show ?thesis using st by (blast intro: touched_trans)
  next
    case False
    then show ?thesis using eq t st by (auto simp: Let_def split: if_splits)
  qed
qed

lemma wait_touched [touching]: "astropci_wait_for_condition env dev cond s = Some rs \<Longrightarrow> touched s (snd rs)"
  by (auto simp: astropci_wait_for_condition_def split: prod.splits dest!: wait_loop_touched)

lemma fifo_touched:
  "astropci_check_dsp_input_fifo env dev s = Some rs \<Longrightarrow> touched s (snd rs)"
  "astropci_check_dsp_output_fifo env dev s = Some rs \<Longrightarrow> touched s (snd rs)"
  by (simp_all add: astropci_check_dsp_input_fifo_def astropci_check_dsp_output_fifo_def wait_touched)

lemma reply_loop_touched:
  assumes "reply_loop env dev r s = Some rs"
  shows "touched s (snd rs)"
proof (rule reply_loop.raw_induct [where P = "\<lambda>env dev r s rs. touched s (snd rs)", OF _ assms])
  fix f env dev r rs and s :: "'h kern"
  assume IH: "\<And>env dev r s rs. f env dev r s = Some rs \<Longrightarrow> touched s (snd rs)"
    and eq: "do { (status, s) \<leftarrow> astropci_wait_for_condition env dev CHECK_REPLY s;
          let r = reply_of status r;
          let s = (if r \<noteq> ROUT then snd (Write_HCVR env dev CLEAR_REPLY_FLAGS s) else s);
          if status = BUSY_STATUS then f env dev r s else Some (r, s) } = Some rs"
  then obtain st t where t: "astropci_wait_for_condition env dev CHECK_REPLY s = Some (st, t)" by (auto simp: bind_eq_Some_conv)
  define u where "u = (if reply_of st r \<noteq> ROUT then snd (Write_HCVR env dev CLEAR_REPLY_FLAGS t) else t)"
  have "touched s t" using wait_touched [OF t] by simp
  moreover have "touched t u" by (simp add: u_def touching)
  moreover have "touched u (snd rs)"
    using eq t by (auto simp: Let_def u_def dest!: IH split: if_splits)
  ultimately show "touched s (snd rs)" by (blast intro: touched_trans)
qed

lemma check_reply_touched: "astropci_check_reply_flags env dev s = Some rs \<Longrightarrow> touched s (snd rs)"
  by (auto simp: astropci_check_reply_flags_def dest: reply_loop_touched)


lemma set_buffer_touched: "astropci_set_buffer_addresses env dev s = Some rs \<Longrightarrow> touched s (snd rs)"
proof -
  assume a: "astropci_set_buffer_addresses env dev s = Some rs"
  then obtain ready t where t: "astropci_check_dsp_input_fifo env dev s = Some (ready, t)"
    by (auto simp: astropci_set_buffer_addresses_def bind_eq_Some_conv)
  define t1 where "t1 = Write_CMD_DATA_16 env dev (to_u16 (b_phys (k_board t dev) AND 0xFFFF)) t"
  define t2 where "t2 = Write_CMD_DATA_16 env dev (to_u16 (drop_bit 16 (b_phys (k_board t dev)) AND 0xFFFF)) t1"
  obtain r u where u: "Write_HCVR env dev WRITE_PCI_ADDRESS t2 = (r, u)" by fastforce
  have "touched s t" using fifo_touched(1) [OF t] by simp
  also have "touched t t1" by (simp add: t1_def touching)
  also have "touched t1 t2" by (simp add: t2_def touching)
  also have "touched t2 u" using u by (rule hw_touched)
  finally have "touched s u" "touched s t"
    using fifo_touched(1) [OF t] by simp_all
  then show ?thesis
    using a t u by (cases rs) (auto simp: astropci_set_buffer_addresses_def t1_def [symmetric] t2_def [symmetric] Let_def bind_eq_Some_conv
        split: if_splits dest!: check_reply_touched intro: touched_trans)
qed

lemma read_counter_touched: "read_counter env dev vec s = Some (r, v, s') \<Longrightarrow> touched s s'"
proof -
  assume a: "read_counter env dev vec s = Some (r, v, s')"
  obtain q t where t: "Write_HCVR env dev vec s = (q, t)" by fastforce
  then have st: "touched s t" by (rule hw_touched)
  show ?thesis
  proof (cases "q = 0")
    case True
    then obtain ready u where u: "astropci_check_dsp_output_fifo env dev t = Some (ready, u)"
      using a t by (auto simp: read_counter_def bind_eq_Some_conv)
    obtain lo w where w: "Read_REPLY_BUFFER_16 env dev u = (lo, w)" by fastforce
    obtain hi x where x: "Read_REPLY_BUFFER_16 env dev w = (hi, x)" by fastforce
    have "touched t u" "touched u w" "touched w x"
      using fifo_touched(2) [OF u] w x by (auto intro: hw_touched)
    then show ?thesis using a t u w x True st
      by (auto simp: read_counter_def Let_def split: if_splits intro: touched_trans)
  next
    case False
    then show ?thesis using a t st by (auto simp: read_counter_def)
  qed
qed

lemma fetch_reply_touched: "fetch_reply env dev s = Some (r, v, s') \<Longrightarrow> touched s s'"
proof -
  assume a: "fetch_reply env dev s = Some (r, v, s')"
  then obtain reply t where t: "astropci_check_reply_flags env dev s = Some (reply, t)"
    by (auto simp: fetch_reply_def bind_eq_Some_conv)
  then have st: "touched s t" using check_reply_touched by fastforce
  show ?thesis
  proof (cases "reply = RDR")
    case True
    define u where "u = snd (astropci_flush_reply_buffer env dev t)"
    have tu: "touched t u" by (simp add: u_def touching)
    obtain q w where w: "Write_HCVR env dev READ_REPLY_VALUE u = (q, w)" by fastforce
    then have uw: "touched u w" by (rule hw_touched)
    have "touched w s'"
    proof (cases "q = 0")
      case True
      then obtain ready x where x: "astropci_check_dsp_output_fifo env dev w = Some (ready, x)"
        using a t w \<open>reply = RDR\<close> by (auto simp: fetch_reply_def u_def bind_eq_Some_conv)
      obtain z y where y: "Read_REPLY_BUFFER_32 env dev x = (z, y)" by fastforce
      have "touched w x" "touched x y" using fifo_touched(2) [OF x] y by (auto intro: hw_touched)
      then show ?thesis using a t w x y True \<open>reply = RDR\<close>
        by (auto simp: fetch_reply_def u_def Let_def split: if_splits intro: touched_trans)
    next
      case False
      then show ?thesis using a t w \<open>reply = RDR\<close> by (auto simp: fetch_reply_def u_def)
    qed
    then show ?thesis using st tu uw by (blast intro: touched_trans)
  next
    case False
    then show ?thesis using a t st by (auto simp: fetch_reply_def)
  qed
qed


section \<open>Waiting ends\<close>

text \<open>The clock of the environment: it never goes back, and a pause moves it.\<close>

definition clock_runs :: "'h pci \<Rightarrow> ('h \<Rightarrow> int) \<Rightarrow> bool" where
  "clock_runs env clk \<longleftrightarrow> (\<forall>h. fst (p_time env h) = clk h \<and> clk h \<le> clk (snd (p_time env h)))
     \<and> (\<forall>h a. clk h \<le> clk (snd (p_readl env a h)))
     \<and> (\<forall>h d. clk h < clk (p_udelay env d h)) \<and> (\<forall>h d. clk h < clk (p_schedule env d h))"

lemma Read_HSTR_clock:
  assumes "clock_runs env clk" "Read_HSTR env dev s = (v, t)"
  shows "clk (k_hw s) \<le> clk (k_hw t)"
  using assms by (auto simp: Read_HSTR_def ReadRegister_32_def clock_runs_def split: prod.splits) (metis snd_conv)

lemma wait_loop_returns:
  assumes "clock_runs env clk"
  shows "e \<le> clk (k_hw s) - i \<Longrightarrow> \<exists>r t. wait_loop env dev cond d i e st s = Some (r, t)
    \<and> (r > 0 \<or> clk (k_hw t) - i \<ge> SLEEP_MAX_WAIT)"
proof (induction "nat (SLEEP_MAX_WAIT + i - clk (k_hw s))" arbitrary: s e st rule: less_induct)
  case less
  show ?case
  proof (cases "e < SLEEP_MAX_WAIT")
    case False
    then show ?thesis using less.prems by (simp add: wait_loop.simps [of env dev cond d i e])
  next
    case True
    obtain v t where t: "Read_HSTR env dev s = (v, t)" by fastforce
    show ?thesis
    proof (cases "masked cond v > 0")
      case True
      then show ?thesis using t \<open>e < SLEEP_MAX_WAIT\<close> by (simp add: wait_loop.simps [of env dev cond d i e])
    next
      case False
      obtain now h where h: "p_time env (k_hw t) = (now, h)" by fastforce
      define h' where "h' = (if now - i < BUSY_MAX_WAIT then p_udelay env 1 h else p_schedule env d h)"
      have step: "wait_loop env dev cond d i e st s = wait_loop env dev cond d i (now - i) (masked cond v) (t\<lparr>k_hw := h'\<rparr>)"
        using True False t h by (simp add: wait_loop.simps [of env dev cond d i e] h'_def Let_def)
      have "clk (k_hw s) \<le> clk (k_hw t)" by (rule Read_HSTR_clock [OF assms t])
      moreover have "now = clk (k_hw t)" "clk (k_hw t) \<le> clk h" "clk h < clk h'"
        using assms h unfolding clock_runs_def h'_def by (metis fst_conv, metis snd_conv, simp)
      ultimately have clk: "clk (k_hw s) \<le> now" "now < clk h'" by linarith+
      show ?thesis
      proof (cases "now - i < SLEEP_MAX_WAIT")
        case True
        then have "nat (SLEEP_MAX_WAIT + i - clk (k_hw (t\<lparr>k_hw := h'\<rparr>))) < nat (SLEEP_MAX_WAIT + i - clk (k_hw s))"
          using clk by simp
        from less.hyps [OF this, of "now - i" "masked cond v"] clk show ?thesis by (simp add: step)
      next
        case False
        then show ?thesis using clk by (simp add: step wait_loop.simps [of env dev cond d i "now - i"])
      qed
    qed
  qed
qed




text \<open>There is no such bound on a board that keeps answering "busy": the driver asks again for ever,
  and a command to it never returns.\<close>

theorem busy_board_hangs:
  assumes busy: "\<And>h. drop_bit 3 (to_u32 (fst (p_readl env (b_ioaddr (k_board s dev) + HSTR) h)) AND HTF_BITS) = BUSY_STATUS"
  shows "astropci_check_reply_flags env dev s = None"
proof (rule ccontr)
  assume "astropci_check_reply_flags env dev s \<noteq> None"
  then obtain rs where rs: "reply_loop env dev TOUT s = Some rs" by (auto simp: astropci_check_reply_flags_def)
  have wait: "r = BUSY_STATUS" if "astropci_wait_for_condition env dev CHECK_REPLY u = Some (r, t)" "touched s u" for u r t
  proof -
    obtain i h where h: "p_time env (k_hw u) = (i, h)" by fastforce
    obtain v w where v: "Read_HSTR env dev (u\<lparr>k_hw := h\<rparr>) = (v, w)" by fastforce
    have "masked CHECK_REPLY v = BUSY_STATUS"
      using v that(2) busy [of h] by (auto simp: Read_HSTR_def ReadRegister_32_def masked_def touched_def split: prod.splits)
    then show ?thesis
      using that(1) h v by (simp add: astropci_wait_for_condition_def wait_loop.simps [of env dev 2])
  qed
  have "env = env \<and> dev = dev \<longrightarrow> touched s s \<longrightarrow> False"
  proof (rule reply_loop.raw_induct [where P = "\<lambda>e d r u rs. e = env \<and> d = dev \<longrightarrow> touched s u \<longrightarrow> False", OF _ rs], intro impI)
    fix f e d r u rs
    assume IH: "\<And>e d r u rs. f e d r u = Some rs \<Longrightarrow> e = env \<and> d = dev \<longrightarrow> touched s u \<longrightarrow> False"
      and eq: "do { (status, s) \<leftarrow> astropci_wait_for_condition e d CHECK_REPLY u;
          let r = reply_of status r;
          let s = (if r \<noteq> ROUT then snd (Write_HCVR e d CLEAR_REPLY_FLAGS s) else s);
          if status = BUSY_STATUS then f e d r s else Some (r, s) } = Some rs"
      and ed: "e = env \<and> d = dev" and u: "touched s u"
    from eq ed obtain st t where t: "astropci_wait_for_condition env dev CHECK_REPLY u = Some (st, t)"
      by (auto simp: bind_eq_Some_conv)
    have "touched s t" using u wait_touched [OF t] by (auto intro: touched_trans)
    moreover from this have "touched s (snd (Write_HCVR env dev CLEAR_REPLY_FLAGS t))"
      by (rule touched_trans) (simp add: touching)
    ultimately show False
      using eq ed t wait [OF t u] IH [of env dev "reply_of BUSY_STATUS r"]
      by (auto simp: Let_def split: if_splits)
  qed
  then show False by simp
qed

theorem busy_board_hangs_witness:
  "astropci_check_reply_flags (demo_pci\<lparr>p_readl := \<lambda>_ h. (0x30, h)\<rparr>) 0 demo_kern = None"
  by (rule busy_board_hangs) (simp add: to_u32_def)


section \<open>The lock\<close>

text \<open>Requests leave the lock as it is, and do not look at it.\<close>

lemma give_Some: "give v r u s = Some (r', u', s') \<Longrightarrow> s' = s"
  by (auto simp: give_def split: prod.splits)

lemma set_hcvr_touched: "set_hcvr_case env dev u s = Some (r, u', s') \<Longrightarrow> touched s s'"
proof -
  assume a: "set_hcvr_case env dev u s = Some (r, u', s')"
  show ?thesis
  proof (cases "get_user u")
    case None
    then show ?thesis using a by (auto simp: set_hcvr_case_def dest: give_Some)
  next
    case (Some v)
    obtain q t where t: "(if v \<noteq> ABORT_READOUT then Write_HCVR env dev CLEAR_REPLY_FLAGS s else (0, s)) = (q, t)" by fastforce
    then have st: "touched s t" by (auto split: if_splits intro: hw_touched)
    obtain p w where w: "(if q = 0 then Write_HCVR env dev v t else (q, t)) = (p, w)" by fastforce
    then have "touched t w" by (auto split: if_splits intro: hw_touched)
    with st have sw: "touched s w" by (rule touched_trans)
    have eq: "(if p = 0 then do { (r, reply, s) \<leftarrow> fetch_reply env dev w; give reply r u s } else give 0 p u w) = Some (r, u', s')"
      using a Some unfolding set_hcvr_case_def by (simp only: option.case t w Let_def prod.case)
    show ?thesis
    proof (cases "p = 0")
      case True
      then obtain r1 reply x where "fetch_reply env dev w = Some (r1, reply, x)" "give reply r1 u x = Some (r, u', s')"
        using eq by (auto simp: bind_eq_Some_conv)
      then show ?thesis using sw give_Some fetch_reply_touched by (metis touched_trans)
    next
      case False
      then show ?thesis using eq sw by (auto dest: give_Some)
    qed
  qed
qed

lemma command_words_touched: "touched s (for_n n (\<lambda>i. Write_CMD_DATA_32 env dev (ws ! i)) s)"
  by (induction n) (auto simp: touching intro: touched_trans)

lemma send_command_touched: "send_command env dev ws s = Some (r, v, s') \<Longrightarrow> touched s s'"
proof -
  assume a: "send_command env dev ws s = Some (r, v, s')"
  obtain reg t where t: "Read_HSTR env dev s = (reg, t)" by fastforce
  then have st: "touched s t" by (rule hw_touched)
  obtain q w where w: "Write_HCVR env dev CLEAR_REPLY_FLAGS t = (q, w)" by fastforce
  then have "touched t w" by (rule hw_touched)
  with st have sw: "touched s w" by (rule touched_trans)
  define busy where "busy \<longleftrightarrow> ws ! 1 AND 0x8000 = 0 \<and> drop_bit 3 (reg AND HTF_BITS) = READOUT_STATUS"
  show ?thesis
  proof (cases "busy \<or> q \<noteq> 0")
    case True
    then show ?thesis using a t w st sw by (auto simp: send_command_def busy_def Let_def split: if_splits)
  next
    case False
    then obtain ready x where x: "astropci_check_dsp_input_fifo env dev w = Some (ready, x)"
      using a t w by (auto simp: send_command_def busy_def Let_def bind_eq_Some_conv)
    define y where "y = for_n (nat (ws ! 0 AND 0xFF)) (\<lambda>i. Write_CMD_DATA_32 env dev (ws ! i)) x"
    obtain p z where z: "Write_HCVR env dev WRITE_COMMAND y = (p, z)" by fastforce
    have wx: "touched w x" using fifo_touched(1) [OF x] by simp
    have xy: "touched x y" by (simp add: y_def command_words_touched)
    have yz: "touched y z" using z by (rule hw_touched)
    have sx: "touched s x" using sw wx by (rule touched_trans)
    have sz: "touched s z" by (rule touched_trans [OF sx touched_trans [OF xy yz]])
    have "(if ready = 0 then Some (- EIO, 0, x) else if ws ! 0 AND 0xFF > CMD_MAX then Some (- EFAULT, 0, x)
        else if p = 0 then fetch_reply env dev z else Some (p, 0, z)) = Some (r, v, s')"
      using a t w x z False by (auto simp: send_command_def busy_def y_def Let_def split: if_splits)
    then show ?thesis using sx sz by (auto split: if_splits dest: fetch_reply_touched intro: touched_trans)
  qed
qed

lemma command_touched: "command_case env dev u s = Some (r, u', s') \<Longrightarrow> touched s s'"
proof -
  assume a: "command_case env dev u s = Some (r, u', s')"
  then obtain q reply t where t: "(case copy_from_user u of None \<Rightarrow> Some (- EFAULT, 0, s) | Some ws \<Rightarrow> send_command env dev ws s)
      = Some (q, reply, t)"
    by (auto simp: command_case_def Let_def bind_eq_Some_conv)
  then have "t = s'" using a by (auto simp: command_case_def Let_def split: prod.splits)
  then show ?thesis using t by (auto split: option.splits dest: send_command_touched)
qed


text \<open>A request changes the record of its own board at most, and only to forget the image buffer.\<close>

definition unmapped :: "nat \<Rightarrow> 'h kern \<Rightarrow> 'h kern" where
  "unmapped dev = set_board dev (\<lambda>b. b\<lparr>b_phys := 0, b_virt := 0\<rparr>)"

lemma ioctl_touched:
  assumes "astropci_ioctl env dev cmd u s = Some (r, u', s')"
  shows "touched s s' \<or> s' = unmapped dev s"
proof (cases "dev \<ge> MAX_DEV \<or> \<not> b_have_irq (k_board s dev)")
  case True
  then show ?thesis using assms by (auto simp: astropci_ioctl_def)
next
  case False
  then have dev: "\<not> dev \<ge> MAX_DEV" "b_have_irq (k_board s dev)" by simp_all
  note d = astropci_ioctl_def dev unmapped_def [symmetric]
  consider (one) "cmd \<in> {0x1, 0x4, 0x3}" | (two) "cmd \<in> {0x2, 0x7}" | (hctr) "cmd = 0x11" | (hcvr) "cmd = 0x12" | (data) "cmd = 0x10"
    | (command) "cmd = 0x15" | (down) "cmd = 0x13" | (wait) "cmd = 0x14" | (unmap) "cmd = 0x16"
    | (other) "cmd \<notin> {0x1, 0x2, 0x3, 0x4, 0x7, 0x10, 0x11, 0x12, 0x13, 0x14, 0x15, 0x16}" by blast
  then show ?thesis
  proof cases
    case one
    obtain v t where v: "Read_HCTR env dev s = (v, t)" by fastforce
    obtain w y where w: "Read_HSTR env dev s = (w, y)" by fastforce
    have "touched s t" "touched s y" using v w by (auto intro: hw_touched)
    then show ?thesis using one assms v w by (auto simp: d dest!: give_Some)
  next
    case two
    then obtain vec q v t where "read_counter env dev vec s = Some (q, v, t)" "give v q u t = Some (r, u', s')"
      using assms by (auto simp: d bind_eq_Some_conv)
    then show ?thesis using read_counter_touched give_Some by metis
  next
    case hctr
    then show ?thesis using assms by (auto simp: d touching split: option.splits)
  next
    case hcvr
    then show ?thesis using assms set_hcvr_touched by (auto simp: d)
  next
    case data
    show ?thesis
    proof (cases "get_user u")
      case None
      then show ?thesis using data assms by (simp add: d)
    next
      case (Some v)
      then obtain ready t where t: "astropci_check_dsp_input_fifo env dev s = Some (ready, t)"
        using data assms by (auto simp: d bind_eq_Some_conv)
      have "touched s t" using fifo_touched(1) [OF t] by simp
      moreover have "touched t (Write_CMD_DATA_32 env dev v t)" by (simp add: touching)
      ultimately show ?thesis using data assms Some t by (auto simp: d split: if_splits intro: touched_trans)
    qed
  next
    case command
    then show ?thesis using assms command_touched by (auto simp: d)
  next
    case down
    obtain q t where t: "Write_HCVR env dev PCI_DOWNLOAD s = (q, t)" by fastforce
    then have "touched s t" by (rule hw_touched)
    then show ?thesis using down assms t by (simp add: d)
  next
    case wait
    then obtain reply t where t: "astropci_check_reply_flags env dev s = Some (reply, t)" "give reply 0 u t = Some (r, u', s')"
      using assms by (auto simp: d bind_eq_Some_conv)
    then show ?thesis using check_reply_touched [OF t(1)] give_Some [OF t(2)] by simp
  next
    case unmap
    then show ?thesis using assms by (simp add: d)
  next
    case other
    then show ?thesis using assms by (auto simp: d split: if_splits)
  qed
qed

lemma unmapped_sel [simp]:
  "k_next (unmapped dev s) = k_next s" "k_lock (unmapped dev s) = k_lock s" "k_ndev (unmapped dev s) = k_ndev s"
  "k_board (unmapped dev s) d = (if d = dev then (k_board s d)\<lparr>b_phys := 0, b_virt := 0\<rparr> else k_board s d)"
  by (simp_all add: unmapped_def set_board_def)

lemma ioctl_keeps_lock: "astropci_ioctl env dev cmd u s = Some (r, u', s') \<Longrightarrow> k_lock s' = k_lock s"
  by (drule ioctl_touched) (auto simp: touched_def)

text \<open>The calls of the kernel, in any order, by any number of processes.\<close>

inductive kern_step :: "'h pci \<Rightarrow> 'h kern \<Rightarrow> 'h kern \<Rightarrow> bool" for env where
  step_open: "astropci_open env dev s = Some (r, s') \<Longrightarrow> kern_step env s s'"
| step_close: "dev < MAX_DEV \<Longrightarrow> astropci_close dev s = Some (r, s') \<Longrightarrow> kern_step env s s'"
| step_mmap: "0 \<le> len \<Longrightarrow> astropci_mmap env dev vm_start len s = Some (r, s') \<Longrightarrow> kern_step env s s'"
| step_ioctl: "astropci_ioctl env dev cmd u s = Some (r, u', s') \<Longrightarrow> kern_step env s s'"
| step_intr: "astropci_intr env dev_id s = Some (r, s') \<Longrightarrow> kern_step env s s'"

text \<open>C9: The interrupt line is shared, and when another device interrupts the handler returns with
  the lock held.  From then on, whatever requests are made, no file can be opened, closed or mapped
  and no interrupt is handled: all these calls wait for ever.\<close>

theorem foreign_interrupt_deadlocks:
  assumes "astropci_intr env dev_id s = Some (r, s1)"
    and foreign: "\<not> (0 \<le> dev_id - 1 \<and> dev_id - 1 < int MAX_DEV \<and> b_have_irq (k_board s (nat (dev_id - 1))))
      \<or> fst (Read_HSTR env (nat (dev_id - 1)) s) AND DMA_INTERRUPTING = 0"
    and later: "(kern_step env)\<^sup>*\<^sup>* s1 s2"
  shows "astropci_open env dev s2 = None \<and> astropci_close dev s2 = None \<and> astropci_mmap env dev vm_start len s2 = None
    \<and> astropci_intr env dev_id' s2 = None"
proof -
  have hstr: "fst (Read_HSTR env d (s\<lparr>k_lock := l\<rparr>)) = fst (Read_HSTR env d s)"
    "k_lock (snd (Read_HSTR env d (s\<lparr>k_lock := l\<rparr>))) = l" for d l
    by (simp_all add: Read_HSTR_def ReadRegister_32_def split: prod.split)
  have "\<not> k_lock s" using assms(1) by (auto simp: astropci_intr_def spin_lock_def)
  then have s1: "k_lock s1"
    using assms(1) foreign hstr [of "nat (dev_id - 1)" True]
    by (auto simp: astropci_intr_def spin_lock_def Let_def split: if_splits prod.splits)
  have "k_lock s2"
    using later
  proof induction
    case base
    show ?case by (rule s1)
  next
    case (step t u)
    from step.hyps(2) step.IH show ?case
      by cases (auto simp: astropci_open_def astropci_close_def astropci_mmap_def astropci_intr_def spin_lock_def
          dest: ioctl_keeps_lock)
  qed
  then show ?thesis
    by (simp add: astropci_open_def astropci_close_def astropci_mmap_def astropci_intr_def spin_lock_def)
qed

theorem foreign_interrupt_deadlocks_witness:
  "\<exists>s1. astropci_intr demo_pci 1 demo_kern = Some (0, s1) \<and> astropci_open demo_pci 0 s1 = None"
proof -
  obtain v s1 where r: "Read_HSTR demo_pci 0 (demo_kern\<lparr>k_lock := True\<rparr>) = (v, s1)" "v AND DMA_INTERRUPTING = 0"
    by (simp add: Read_HSTR_def ReadRegister_32_def demo_pci_def board_read_def demo_kern_sel no_board_def demo_dsp_def to_u32_def)
  have "astropci_intr demo_pci 1 demo_kern = Some (0, s1)"
    using r by (simp add: astropci_intr_def spin_lock_def demo_kern_sel no_board_def)
  moreover have "fst (Read_HSTR demo_pci (nat (1 - 1)) demo_kern) AND DMA_INTERRUPTING = 0"
    by (simp add: Read_HSTR_def ReadRegister_32_def demo_pci_def board_read_def demo_kern_sel no_board_def demo_dsp_def to_u32_def)
  ultimately show ?thesis
    using foreign_interrupt_deadlocks [of demo_pci 1 demo_kern 0 s1 s1 0 0 0 1] by blast
qed


section \<open>The image buffers\<close>

text \<open>Buffers lie in the memory above Linux' one after the other, with a page between them; the record of
  a closed board is empty, so the space is used again once all are closed.  The addresses are \<open>u32\<close>: the
  property is about a machine whose mappings fit.\<close>

definition buf_ok :: "int \<Rightarrow> int \<Rightarrow> astropci_t \<Rightarrow> bool" where
  "buf_ok lo nxt b \<longleftrightarrow> (b_phys b \<noteq> 0 \<longrightarrow>
     b_opened b \<and> 0 \<le> b_size b \<and> lo \<le> b_phys b \<and> b_phys b + b_size b + PAGE_SIZE \<le> nxt)"

definition bufs_apart :: "astropci_t \<Rightarrow> astropci_t \<Rightarrow> bool" where
  "bufs_apart b c \<longleftrightarrow> (b_phys b \<noteq> 0 \<longrightarrow> b_phys c \<noteq> 0 \<longrightarrow>
     b_phys b + b_size b < b_phys c \<or> b_phys c + b_size c < b_phys b)"

definition buffers_ok :: "int \<Rightarrow> 'h kern \<Rightarrow> bool" where
  "buffers_ok lo s \<longleftrightarrow> 0 \<le> k_next s \<and> (k_next s = 0 \<or> lo \<le> k_next s)
     \<and> (\<forall>d < MAX_DEV. buf_ok lo (k_next s) (k_board s d))
     \<and> (\<forall>d < MAX_DEV. \<forall>e < MAX_DEV. d \<noteq> e \<longrightarrow> bufs_apart (k_board s d) (k_board s e))"

lemma bufs_apart_commute: "bufs_apart b c = bufs_apart c b"
  by (auto simp: bufs_apart_def)

lemma set_board_sel [simp]:
  "k_next (set_board dev f s) = k_next s" "k_lock (set_board dev f s) = k_lock s" "k_ndev (set_board dev f s) = k_ndev s"
  "k_board (set_board dev f s) d = (if d = dev then f (k_board s d) else k_board s d)" "k_hw (set_board dev f s) = k_hw s"
  by (simp_all add: set_board_def)

lemma buffers_ok_set:
  assumes "buffers_ok lo s" "buf_ok lo (k_next s) (f (k_board s dev))"
    and "\<And>e. e < MAX_DEV \<Longrightarrow> e \<noteq> dev \<Longrightarrow> bufs_apart (f (k_board s dev)) (k_board s e)"
  shows "buffers_ok lo (set_board dev f s)"
  using assms bufs_apart_commute [of _ "f (k_board s dev)"] by (simp add: buffers_ok_def)

lemma buffers_ok_empty: "buffers_ok lo s \<Longrightarrow> (\<And>b. b_phys (f b) = 0) \<Longrightarrow> buffers_ok lo (set_board dev f s)"
  by (rule buffers_ok_set) (simp_all add: buf_ok_def bufs_apart_def)

text \<open>The calls of a machine whose buffers fit below 4 GB.\<close>

inductive fitting_run :: "'h pci \<Rightarrow> 'h kern \<Rightarrow> 'h kern \<Rightarrow> bool" for env s0 where
  fit_start: "fitting_run env s0 s0"
| fit_mmap: "fitting_run env s0 s \<Longrightarrow> 0 \<le> len \<Longrightarrow> (if k_next s = 0 then p_top env else k_next s) + len + PAGE_SIZE < 2 ^ 32
    \<Longrightarrow> astropci_mmap env dev vm_start len s = Some (r, s') \<Longrightarrow> fitting_run env s0 s'"
| fit_open: "fitting_run env s0 s \<Longrightarrow> astropci_open env dev s = Some (r, s') \<Longrightarrow> fitting_run env s0 s'"
| fit_close: "fitting_run env s0 s \<Longrightarrow> dev < MAX_DEV \<Longrightarrow> astropci_close dev s = Some (r, s') \<Longrightarrow> fitting_run env s0 s'"
| fit_ioctl: "fitting_run env s0 s \<Longrightarrow> astropci_ioctl env dev cmd u s = Some (r, u', s') \<Longrightarrow> fitting_run env s0 s'"
| fit_intr: "fitting_run env s0 s \<Longrightarrow> astropci_intr env dev_id s = Some (r, s') \<Longrightarrow> fitting_run env s0 s'"

lemma buffers_ok_cong: "k_board s' = k_board s \<Longrightarrow> k_next s' = k_next s \<Longrightarrow> buffers_ok lo s' = buffers_ok lo s"
  by (simp add: buffers_ok_def)

lemma buffers_ok_touched: "touched s s' \<Longrightarrow> buffers_ok lo s' = buffers_ok lo s"
  by (rule buffers_ok_cong) (simp_all add: touched_def)

lemma buffers_ok_locked [simp]: "buffers_ok lo (s\<lparr>k_lock := l\<rparr>) = buffers_ok lo s" "buffers_ok lo (spin_unlock s) = buffers_ok lo s"
  by (simp_all add: buffers_ok_def spin_unlock_def)

lemma buffers_ok_unmapped: "buffers_ok lo s \<Longrightarrow> buffers_ok lo (unmapped dev s)"
  unfolding unmapped_def by (rule buffers_ok_empty) simp_all

lemma buffers_ok_opened: "buffers_ok lo s \<Longrightarrow> buffers_ok lo (set_board dev (\<lambda>b. b\<lparr>b_opened := True\<rparr>) s)"
proof (cases "dev < MAX_DEV")
  case True
  assume a: "buffers_ok lo s"
  then show ?thesis using True by (intro buffers_ok_set) (simp_all add: buffers_ok_def buf_ok_def bufs_apart_def)
next
  case False
  assume "buffers_ok lo s"
  then show ?thesis using False by (auto simp: buffers_ok_def)
qed

lemma buffers_ok_open:
  assumes "buffers_ok lo s" "astropci_open env dev s = Some (r, s')"
  shows "buffers_ok lo s'"
proof -
  define s1 where "s1 = on_hw (p_latency env (b_pdev (k_board s dev))) (s\<lparr>k_lock := True\<rparr>)"
  obtain v t where t: "Read_HCTR env dev s1 = (v, t)" by fastforce
  define w where "w = Write_HCTR env dev ((v AND 0xCFF) OR 0x900) t"
  obtain reply x where x: "astropci_flush_reply_buffer env dev w = (reply, x)" by fastforce
  have "touched s1 t" using t by (rule hw_touched)
  also have "touched t w" by (simp add: w_def touching)
  also have "touched w x" using x flush_touched [of w env dev] by simp
  finally have "buffers_ok lo x = buffers_ok lo s1" by (rule buffers_ok_touched)
  also have "\<dots> = buffers_ok lo s" by (rule buffers_ok_cong) (simp_all add: s1_def on_hw_def)
  finally have x_ok: "buffers_ok lo x" using assms(1) by simp
  have "(if dev \<ge> MAX_DEV \<or> \<not> b_have_irq (k_board s dev) then (- ENXIO, s\<lparr>k_lock := True\<rparr>)
      else if b_opened (k_board s dev) then (- EBUSY, s\<lparr>k_lock := True\<rparr>)
      else if reply \<noteq> 0 then (- EACCES, x) else (0, set_board dev (\<lambda>b. b\<lparr>b_opened := True\<rparr>) x)) = (r, z) \<Longrightarrow> buffers_ok lo z" for z
    using assms(1) x_ok buffers_ok_opened by (auto split: if_splits)
  then show ?thesis
    using assms(2) t x by (auto simp: astropci_open_def spin_lock_def Let_def s1_def [symmetric] w_def [symmetric] split: if_splits)
qed

lemma buffers_ok_close:
  assumes "buffers_ok lo s" "astropci_close dev s = Some (r, s')"
  shows "buffers_ok lo s'"
proof -
  define s1 where "s1 = set_board dev (\<lambda>b. b\<lparr>b_opened := False, b_phys := 0, b_virt := 0\<rparr>) (s\<lparr>k_lock := True\<rparr>)"
  have 1: "buffers_ok lo s1" unfolding s1_def by (rule buffers_ok_empty) (simp_all add: assms(1))
  moreover have "buffers_ok lo (s1\<lparr>k_next := 0\<rparr>)" if "\<forall>d < MAX_DEV. d = dev \<or> \<not> b_opened (k_board s d)"
  proof -
    have "b_phys (k_board s1 d) = 0" if "d < MAX_DEV" for d
    proof -
      have "buf_ok lo (k_next s1) (k_board s1 d)" using 1 that unfolding buffers_ok_def by blast
      then show ?thesis
        using \<open>\<forall>d < MAX_DEV. d = dev \<or> \<not> b_opened (k_board s d)\<close> that by (cases "d = dev") (auto simp: buf_ok_def s1_def)
    qed
    then show ?thesis by (simp add: buffers_ok_def buf_ok_def bufs_apart_def)
  qed
  ultimately show ?thesis
    using assms(2) by (auto simp: astropci_close_def spin_lock_def s1_def [symmetric] Let_def split: if_splits)
qed

lemma buffers_ok_intr:
  assumes "buffers_ok lo s" "astropci_intr env dev_id s = Some (r, s')"
  shows "buffers_ok lo s'"
proof -
  define s1 where "s1 = s\<lparr>k_lock := True\<rparr>"
  obtain f t where t: "(if 0 \<le> dev_id - 1 \<and> dev_id - 1 < int MAX_DEV \<and> b_have_irq (k_board s1 (nat (dev_id - 1)))
      then Read_HSTR env (nat (dev_id - 1)) s1 else (0, s1)) = (f, t)" by fastforce
  then have "touched s1 t" by (auto split: if_splits intro: hw_touched)
  moreover obtain q u where u: "Write_HCVR env (nat (dev_id - 1)) CLEAR_INTERRUPT t = (q, u)" by fastforce
  then have "touched t u" by (rule hw_touched)
  ultimately have "buffers_ok lo t" "buffers_ok lo u"
    using assms(1) by (simp_all add: buffers_ok_touched s1_def)
  moreover have "(if f AND DMA_INTERRUPTING = 0 then Some (0, t) else Some (0, spin_unlock u)) = Some (r, s')"
    using assms(2) t u by (simp add: astropci_intr_def spin_lock_def s1_def Let_def split: if_splits)
  ultimately show ?thesis by (auto split: if_splits)
qed


lemma buffers_ok_same:
  assumes "\<And>b. b_phys (f b) = b_phys b \<and> b_size (f b) = b_size b \<and> b_opened (f b) = b_opened b"
  shows "buffers_ok lo (set_board dev f s) = buffers_ok lo s"
proof -
  have "buf_ok lo n (k_board (set_board dev f s) d) = buf_ok lo n (k_board s d)"
    "bufs_apart (k_board (set_board dev f s) d) (k_board (set_board dev f s) e) = bufs_apart (k_board s d) (k_board s e)" for n d e
    by (simp_all add: buf_ok_def bufs_apart_def assms)
  then show ?thesis by (simp only: buffers_ok_def set_board_sel(1))
qed

lemma buffers_ok_mmap:
  assumes ok: "buffers_ok (p_top env) s" and len: "0 \<le> len" "0 \<le> p_top env"
    and fits: "(if k_next s = 0 then p_top env else k_next s) + len + PAGE_SIZE < 2 ^ 32"
    and m: "astropci_mmap env dev vm_start len s = Some (r, s')"
  shows "buffers_ok (p_top env) s'"
proof -
  define l where "l = s\<lparr>k_lock := True\<rparr>"
  have l: "buffers_ok (p_top env) l" using ok by (simp add: l_def)
  have fin: "buffers_ok (p_top env) (if r \<noteq> 0 \<and> dev \<noteq> MAX_DEV then set_board dev (\<lambda>b. b\<lparr>b_phys := 0, b_virt := 0\<rparr>) w else w)"
    if "buffers_ok (p_top env) w" for r w
    using that by (auto intro: buffers_ok_empty)
  show ?thesis
  proof (cases "dev \<ge> MAX_DEV \<or> \<not> b_opened (k_board s dev)")
    case True
    then show ?thesis using m fin [OF l, of "- EAGAIN"]
      by (auto simp: astropci_mmap_def spin_lock_def l_def Let_def split: if_splits)
  next
    case False
    define n where "n = (if k_next s = 0 then p_top env else k_next s)"
    have n: "0 \<le> n" "p_top env \<le> n" "n + len + PAGE_SIZE < 2 ^ 32"
      using ok len fits by (auto simp: n_def buffers_ok_def)
    define a where "a = (set_board dev (\<lambda>b. b\<lparr>b_phys := n, b_size := len\<rparr>) (l\<lparr>k_next := n\<rparr>))\<lparr>k_next := n + len + PAGE_SIZE\<rparr>"
    have old: "buf_ok (p_top env) n (k_board s d)" if "d < MAX_DEV" for d
      using ok that n by (fastforce simp: buffers_ok_def n_def buf_ok_def)
    have "buf_ok (p_top env) (n + len + PAGE_SIZE) (k_board a d)" if "d < MAX_DEV" for d
      using old [OF that] False len n by (auto simp: a_def l_def buf_ok_def)
    moreover have "bufs_apart (k_board a dev) (k_board a e)" if "e < MAX_DEV" "e \<noteq> dev" for e
      using old [OF that(1)] that(2) by (auto simp: a_def l_def buf_ok_def bufs_apart_def)
    moreover have "bufs_apart (k_board a d) (k_board a e)" if "d < MAX_DEV" "e < MAX_DEV" "d \<noteq> e" "d \<noteq> dev" "e \<noteq> dev" for d e
      using ok that by (simp add: a_def l_def buffers_ok_def)
    ultimately have a: "buffers_ok (p_top env) a"
      unfolding buffers_ok_def using n len bufs_apart_commute [of "k_board a dev"] by (auto simp: a_def)
    define b where "b = set_board dev (\<lambda>b. b\<lparr>b_virt := to_u32 vm_start\<rparr>) a"
    have b: "buffers_ok (p_top env) b"
      unfolding b_def using a by (subst buffers_ok_same) simp_all
    define c where "c = (if to_u32 vm_start \<noteq> 0 then on_hw (p_pattern env (to_u32 vm_start)) b else b)"
    have c: "buffers_ok (p_top env) c" using b by (simp add: c_def buffers_ok_touched [OF touched_hw(2)])
    have conv: "to_u32 (p_top env) = p_top env" if "k_next s = 0" using that n len by (simp add: n_def to_u32_id)
    have "to_u32 len = len" "to_u32 (n + len + PAGE_SIZE) = n + len + PAGE_SIZE" using n len by (simp_all add: to_u32_id)
    then have "do { (retval, s) \<leftarrow> (let retval = p_remap env (drop_bit 12 n) len in
          if retval \<noteq> 0 then Some (retval, a) else astropci_set_buffer_addresses env dev c);
        let s = (if retval \<noteq> 0 \<and> dev \<noteq> MAX_DEV then set_board dev (\<lambda>b. b\<lparr>b_phys := 0, b_virt := 0\<rparr>) s else s);
        Some (retval, spin_unlock s) } = Some (r, s')"
      using m False conv
      by (simp add: astropci_mmap_def spin_lock_def Let_def a_def b_def c_def n_def l_def set_board_def split: if_splits)
    then obtain q w where w: "(let retval = p_remap env (drop_bit 12 n) len in
          if retval \<noteq> 0 then Some (retval, a) else astropci_set_buffer_addresses env dev c) = Some (q, w)"
      "s' = spin_unlock (if q \<noteq> 0 \<and> dev \<noteq> MAX_DEV then set_board dev (\<lambda>b. b\<lparr>b_phys := 0, b_virt := 0\<rparr>) w else w)"
      by (auto simp: bind_eq_Some_conv Let_def)
    then have "buffers_ok (p_top env) w"
      using a c buffers_ok_touched set_buffer_touched [of env dev c "(q, w)"] by (auto simp: Let_def split: if_splits)
    then show ?thesis using fin [of w q] w(2) by simp
  qed
qed

lemma fitting_run_ok:
  assumes "fitting_run env s0 s" "buffers_ok (p_top env) s0" "0 \<le> p_top env"
  shows "buffers_ok (p_top env) s"
  using assms(1)
proof induction
  case fit_start
  show ?case by (rule assms(2))
next
  case fit_mmap
  then show ?case using assms(3) buffers_ok_mmap by blast
next
  case fit_open
  then show ?case using buffers_ok_open by blast
next
  case fit_close
  then show ?case using buffers_ok_close by blast
next
  case (fit_ioctl s dev cmd u r u' s')
  then show ?case using ioctl_touched [OF fit_ioctl.hyps(2)] buffers_ok_touched buffers_ok_unmapped by blast
next
  case fit_intr
  then show ?case using buffers_ok_intr by blast
qed

text \<open>C7: The image buffers of the boards never overlap: in every state the calls can reach from a
  freshly loaded driver, the buffers of different boards are disjoint and above Linux' memory, and a board that has one is open.\<close>

theorem image_buffers_disjoint:
  assumes "fitting_run env s0 s" "snd (astropci_init registered boards chr (kern_start h)) = s0" "0 \<le> registered" "0 \<le> p_top env"
    and "d < MAX_DEV" "b_phys (k_board s d) \<noteq> 0"
  shows "b_opened (k_board s d) \<and> p_top env \<le> b_phys (k_board s d)
    \<and> (\<forall>e < MAX_DEV. e \<noteq> d \<longrightarrow> b_phys (k_board s e) \<noteq> 0 \<longrightarrow>
         {b_phys (k_board s d) ..< b_phys (k_board s d) + b_size (k_board s d)}
           \<inter> {b_phys (k_board s e) ..< b_phys (k_board s e) + b_size (k_board s e)} = {})"
proof -
  have none: "\<forall>d. b_phys (k_board (fold (\<lambda>d s. snd (astropci_probe d s)) boards s) d) = 0"
    if "\<forall>d. b_phys (k_board s d) = 0" for s :: "'a kern"
    using that
  proof (induction boards arbitrary: s)
    case (Cons b bs)
    have "\<forall>d. b_phys (k_board (snd (astropci_probe b s)) d) = 0"
      using Cons.prems by (simp add: astropci_probe_def Let_def no_board_def)
    then show ?case by (simp add: Cons.IH)
  qed simp
  have "\<forall>d. b_phys (k_board s0 d) = 0" "k_next s0 = 0"
    using assms(2,3) none [of "kern_start h"] by (auto simp: astropci_init_def Let_def kern_start_def no_board_def)
  then have "buffers_ok (p_top env) s0" by (simp add: buffers_ok_def buf_ok_def bufs_apart_def)
  from fitting_run_ok [OF assms(1) this assms(4)] have "buf_ok (p_top env) (k_next s) (k_board s d)"
    "\<And>e. e < MAX_DEV \<Longrightarrow> e \<noteq> d \<Longrightarrow> bufs_apart (k_board s d) (k_board s e)"
    using assms(5) by (simp_all add: buffers_ok_def)
  then show ?thesis using assms(6) by (fastforce simp: buf_ok_def bufs_apart_def)
qed

text \<open>Both boards of the machine opened and mapped, a megabyte each.\<close>

definition demo_mapped :: "(int \<times> machine kern) option" where
  "demo_mapped =
     do { (r, s) \<leftarrow> astropci_open demo_pci 0 demo_kern; (r, s) \<leftarrow> astropci_mmap demo_pci 0 0x700000 0x100000 s;
          (r, s) \<leftarrow> astropci_open demo_pci 1 s; astropci_mmap demo_pci 1 0x900000 0x100000 s }"

lemma demo_mapped_at:
  "map_option (\<lambda>(r, s). (r, b_phys (k_board s 0), b_phys (k_board s 1))) demo_mapped = Some (0, 0x40000000, 0x40101000)"
  "map_option (\<lambda>(r, s). k_next s) (do { (r, s) \<leftarrow> astropci_open demo_pci 0 demo_kern;
      (r, s) \<leftarrow> astropci_mmap demo_pci 0 0x700000 0x100000 s; astropci_open demo_pci 1 s }) = Some 0x40101000"
  "map_option (\<lambda>(r, s). k_next s) (astropci_open demo_pci 0 demo_kern) = Some 0"
  by code_simp+

theorem image_buffers_disjoint_witness:
  "\<exists>s. demo_mapped = Some (0, s) \<and> {b_phys (k_board s 0) ..< b_phys (k_board s 0) + b_size (k_board s 0)}
     \<inter> {b_phys (k_board s 1) ..< b_phys (k_board s 1) + b_size (k_board s 1)} = {}"
proof -
  obtain s where s: "demo_mapped = Some (0, s)" "b_phys (k_board s 0) \<noteq> 0" "b_phys (k_board s 1) \<noteq> 0"
    using demo_mapped_at(1) by auto
  then obtain r1 s1 r2 s2 r3 s3 where
    1: "astropci_open demo_pci 0 demo_kern = Some (r1, s1)" and 2: "astropci_mmap demo_pci 0 0x700000 0x100000 s1 = Some (r2, s2)"
    and 3: "astropci_open demo_pci 1 s2 = Some (r3, s3)" and 4: "astropci_mmap demo_pci 1 0x900000 0x100000 s3 = Some (0, s)"
    by (auto simp: demo_mapped_def bind_eq_Some_conv)
  have k: "k_next s1 = 0"
    using demo_mapped_at(3) 1 by simp
  have n: "k_next s3 = 0x40101000" using demo_mapped_at(2) 1 2 3 by simp
  have "fitting_run demo_pci demo_kern s"
    by (rule fit_mmap [OF fit_open [OF fit_mmap [OF fit_open [OF fit_start 1] _ _ 2] 3] _ _ 4])
      (simp_all add: k n demo_pci_def)
  from image_buffers_disjoint [OF this demo_kern_def [symmetric], of 0] s show ?thesis
    by (auto simp: demo_pci_def)
qed

end
