(* ===== verification/GenIII_Props.thy ===== *)
theory GenIII_Props imports Sdsu_Props GenIII AstroPci_Props
begin

text \<open>
  A command of the controller library through the driver library, the kernel driver and the registers of
  a board that keeps its protocol.
\<close>

section \<open>Single accesses\<close>

text \<open>The driver's state \<open>s\<close> is that of board \<open>dev\<close> at \<open>io\<close>, showing \<open>d\<close>.\<close>

definition shows_dsp :: "('h \<Rightarrow> bool) \<Rightarrow> ('h \<Rightarrow> dsp) \<Rightarrow> int \<Rightarrow> nat \<Rightarrow> dsp \<Rightarrow> 'h kern \<Rightarrow> bool" where
  "shows_dsp good view io dev d s \<longleftrightarrow> good (k_hw s) \<and> view (k_hw s) = d \<and> b_ioaddr (k_board s dev) = io"

named_theorems proto \<open>single accesses to a board that keeps its protocol\<close>

lemma proto_HSTR:
  assumes "protocol env io good view" "shows_dsp good view io dev d s"
  shows "\<exists>v s'. Read_HSTR env dev s = (v, s') \<and> shows_dsp good view io dev d s' \<and> v AND INPUT_FIFO_OK_MASK = INPUT_FIFO_OK_MASK
    \<and> v AND OUTPUT_FIFO_OK_MASK = (if d_out d = [] then 0 else OUTPUT_FIFO_OK_MASK) \<and> drop_bit 3 (v AND HTF_BITS) = d_status d"
proof -
  obtain v h where h: "p_readl env (io + HSTR) (k_hw s) = (v, h)" by fastforce
  have "good (k_hw s)" "view (k_hw s) = d" using assms(2) by (simp_all add: shows_dsp_def)
  then show ?thesis using h assms(2) protocolD(1) [OF assms(1) _ h]
    by (simp add: Read_HSTR_def ReadRegister_32_def shows_dsp_def del: drop_bit_and)
qed

lemma proto_wait:
  assumes "protocol env io good view" "shows_dsp good view io dev d s"
  shows "\<exists>s'. astropci_check_dsp_input_fifo env dev s = Some (INPUT_FIFO_OK_MASK, s') \<and> shows_dsp good view io dev d s'"
    and "d_out d \<noteq> [] \<Longrightarrow> \<exists>s'. astropci_check_dsp_output_fifo env dev s = Some (OUTPUT_FIFO_OK_MASK, s') \<and> shows_dsp good view io dev d s'"
    and "d_status d > 0 \<Longrightarrow> \<exists>s'. astropci_wait_for_condition env dev CHECK_REPLY s = Some (d_status d, s') \<and> shows_dsp good view io dev d s'"
proof -
  obtain t h where h: "p_time env (k_hw s) = (t, h)" by fastforce
  then have "shows_dsp good view io dev d (s\<lparr>k_hw := h\<rparr>)"
    using assms(2) protocolD(5) [OF assms(1) _ h] by (simp add: shows_dsp_def)
  from proto_HSTR [OF assms(1) this] obtain v s' where v: "Read_HSTR env dev (s\<lparr>k_hw := h\<rparr>) = (v, s')"
    "shows_dsp good view io dev d s'" "v AND INPUT_FIFO_OK_MASK = INPUT_FIFO_OK_MASK"
    "v AND OUTPUT_FIFO_OK_MASK = (if d_out d = [] then 0 else OUTPUT_FIFO_OK_MASK)" "drop_bit 3 (v AND HTF_BITS) = d_status d"
    by blast
  note w = astropci_wait_for_condition_def wait_loop.simps [of env dev] masked_def
  show "\<exists>s'. astropci_check_dsp_input_fifo env dev s = Some (INPUT_FIFO_OK_MASK, s') \<and> shows_dsp good view io dev d s'"
    using h v by (simp add: astropci_check_dsp_input_fifo_def w)
  show "\<exists>s'. astropci_check_dsp_output_fifo env dev s = Some (OUTPUT_FIFO_OK_MASK, s') \<and> shows_dsp good view io dev d s'"
    if "d_out d \<noteq> []" using h v that by (simp add: astropci_check_dsp_output_fifo_def w)
  show "\<exists>s'. astropci_wait_for_condition env dev CHECK_REPLY s = Some (d_status d, s') \<and> shows_dsp good view io dev d s'"
    if "d_status d > 0" using h v that by (simp add: w del: drop_bit_and)
qed

text \<open>A vector is written at once; \<open>d'\<close> is what it makes of the board.\<close>

lemma proto_HCVR:
  assumes p: "protocol env io good view" and s: "shows_dsp good view io dev d s"
    and vec: "\<And>h. good h \<Longrightarrow> view h = d \<Longrightarrow> good (p_writel env v (io + HCVR) h) \<and> view (p_writel env v (io + HCVR) h) = d'"
    and v: "0 \<le> v" "v < 2 ^ 32"
  shows "\<exists>s'. Write_HCVR env dev v s = (0, s') \<and> shows_dsp good view io dev d' s'"
proof -
  obtain w h where h: "p_readl env (io + HCVR) (k_hw s) = (w, h)" by fastforce
  have "good h" "view h = d" "to_u32 w AND 1 = 0"
    using s protocolD(2) [OF p _ h] by (simp_all add: shows_dsp_def)
  then have "hcvr_ready env dev 100 s = (0, s\<lparr>k_hw := h\<rparr>)"
    using h s hcvr_ready.simps(2) [of env dev 99 s] by (simp add: ReadRegister_32_def shows_dsp_def)
  then show ?thesis
    using vec [OF \<open>good h\<close> \<open>view h = d\<close>] s v by (simp add: Write_HCVR_def WriteRegister_32_def on_hw_def shows_dsp_def to_u32_id)
qed

lemma proto_vectors:
  assumes p: "protocol env io good view" and s: "shows_dsp good view io dev d s"
  shows "\<exists>s'. Write_HCVR env dev CLEAR_REPLY_FLAGS s = (0, s') \<and> shows_dsp good view io dev (d\<lparr>d_status := 0\<rparr>) s'"
    and "\<exists>s'. Write_HCVR env dev READ_REPLY_VALUE s = (0, s') \<and> shows_dsp good view io dev (d\<lparr>d_out := d_out d @ [d_value d]\<rparr>) s'"
    and "d_in d = [b * 256 + 4, WRM, a, x] \<Longrightarrow> \<exists>s'. Write_HCVR env dev WRITE_COMMAND s = (0, s')
      \<and> shows_dsp good view io dev (d\<lparr>d_in := [], d_status := DONE_STATUS, d_cell := (d_cell d)(b := (d_cell d b)(a := x))\<rparr>) s'"
    and "d_in d = [b * 256 + 3, RDM, a] \<Longrightarrow> \<exists>s'. Write_HCVR env dev WRITE_COMMAND s = (0, s')
      \<and> shows_dsp good view io dev (d\<lparr>d_in := [], d_status := READ_REPLY_STATUS, d_value := d_cell d b a\<rparr>) s'"
proof -
  show "\<exists>s'. Write_HCVR env dev CLEAR_REPLY_FLAGS s = (0, s') \<and> shows_dsp good view io dev (d\<lparr>d_status := 0\<rparr>) s'"
    by (rule proto_HCVR [OF p s]) (use protocolD(6) [OF p] in auto)
  show "\<exists>s'. Write_HCVR env dev READ_REPLY_VALUE s = (0, s') \<and> shows_dsp good view io dev (d\<lparr>d_out := d_out d @ [d_value d]\<rparr>) s'"
    by (rule proto_HCVR [OF p s]) (use protocolD(7) [OF p] in auto)
  show "\<exists>s'. Write_HCVR env dev WRITE_COMMAND s = (0, s')
      \<and> shows_dsp good view io dev (d\<lparr>d_in := [], d_status := DONE_STATUS, d_cell := (d_cell d)(b := (d_cell d b)(a := x))\<rparr>) s'"
    if "d_in d = [b * 256 + 4, WRM, a, x]"
    by (rule proto_HCVR [OF p s]) (use protocolD(8) [OF p] that in auto)
  show "\<exists>s'. Write_HCVR env dev WRITE_COMMAND s = (0, s')
      \<and> shows_dsp good view io dev (d\<lparr>d_in := [], d_status := READ_REPLY_STATUS, d_value := d_cell d b a\<rparr>) s'"
    if "d_in d = [b * 256 + 3, RDM, a]"
    by (rule proto_HCVR [OF p s]) (use protocolD(9) [OF p] that in auto)
qed

lemma proto_word:
  assumes p: "protocol env io good view" and s: "shows_dsp good view io dev d s" and w: "0 \<le> w" "w < 2 ^ 32"
  shows "shows_dsp good view io dev (d\<lparr>d_in := d_in d @ [w]\<rparr>) (Write_CMD_DATA_32 env dev w s)"
  using s protocolD(4) [OF p] w
  by (simp add: Write_CMD_DATA_32_def WriteRegister_32_def on_hw_def shows_dsp_def to_u32_id)

lemma proto_words:
  assumes p: "protocol env io good view" and s: "shows_dsp good view io dev d s"
    and n: "n \<le> length ws" "\<forall>w \<in> set ws. 0 \<le> w \<and> w < 2 ^ 32"
  shows "shows_dsp good view io dev (d\<lparr>d_in := d_in d @ take n ws\<rparr>) (for_n n (\<lambda>i. Write_CMD_DATA_32 env dev (ws ! i)) s)"
  using n(1)
proof (induction n)
  case 0
  then show ?case using s by simp
next
  case (Suc n)
  then have "shows_dsp good view io dev (d\<lparr>d_in := d_in d @ take n ws\<rparr>) (for_n n (\<lambda>i. Write_CMD_DATA_32 env dev (ws ! i)) s)"
    by simp
  from proto_word [OF p this, of "ws ! n"] n(2) Suc.prems show ?case
    by (simp add: take_Suc_conv_app_nth)
qed

section \<open>Commands\<close>

lemma proto_reply:
  assumes p: "protocol env io good view" and s: "shows_dsp good view io dev d s"
    and st: "d_status d \<in> {DONE_STATUS, READ_REPLY_STATUS}"
  shows "\<exists>s'. astropci_check_reply_flags env dev s = Some (if d_status d = DONE_STATUS then DON else RDR, s')
    \<and> shows_dsp good view io dev (d\<lparr>d_status := 0\<rparr>) s'"
proof -
  obtain s1 where w: "astropci_wait_for_condition env dev CHECK_REPLY s = Some (d_status d, s1)" "shows_dsp good view io dev d s1"
    using proto_wait(3) [OF p s] st by auto
  obtain s2 where "Write_HCVR env dev CLEAR_REPLY_FLAGS s1 = (0, s2)" "shows_dsp good view io dev (d\<lparr>d_status := 0\<rparr>) s2"
    using proto_vectors(1) [OF p w(2)] by auto
  with w(1) st show ?thesis
    by (auto simp: astropci_check_reply_flags_def reply_loop.simps [of env dev TOUT s] reply_of_def)
qed

lemma proto_fetch_done:
  assumes p: "protocol env io good view" and s: "shows_dsp good view io dev d s" and st: "d_status d = DONE_STATUS"
  shows "\<exists>s'. fetch_reply env dev s = Some (0, DON, s') \<and> shows_dsp good view io dev (d\<lparr>d_status := 0\<rparr>) s'"
  using proto_reply [OF p s] st by (auto simp: fetch_reply_def)

lemma proto_flush:
  assumes p: "protocol env io good view" and s: "shows_dsp good view io dev d s" and "d_out d = []"
  shows "\<exists>s'. astropci_flush_reply_buffer env dev s = (0, s') \<and> shows_dsp good view io dev d s'"
proof -
  obtain v s' where v: "Read_HSTR env dev s = (v, s')" "shows_dsp good view io dev d s'" "v AND OUTPUT_FIFO_OK_MASK = 0"
    using proto_HSTR [OF p s] assms(3) by metis
  then have "flush_loop env dev (Suc 5) 0 s = (0, s')" unfolding flush_loop.simps(2) by simp
  moreover have "astropci_flush_reply_buffer env dev s = flush_loop env dev (Suc 5) 0 s"
    by (simp add: astropci_flush_reply_buffer_def)
  ultimately show ?thesis using v(2) by metis
qed

lemma proto_fetch_value:
  assumes p: "protocol env io good view" and s: "shows_dsp good view io dev d s" and st: "d_status d = READ_REPLY_STATUS"
    and o: "d_out d = []" and v: "0 \<le> d_value d" "d_value d < 2 ^ 32"
  shows "\<exists>s'. fetch_reply env dev s = Some (0, d_value d, s') \<and> shows_dsp good view io dev (d\<lparr>d_status := 0\<rparr>) s'"
proof -
  let ?d = "d\<lparr>d_status := 0\<rparr>"
  obtain s1 where 1: "astropci_check_reply_flags env dev s = Some (RDR, s1)" "shows_dsp good view io dev ?d s1"
    using proto_reply [OF p s] st by auto
  obtain s2 where 2: "astropci_flush_reply_buffer env dev s1 = (0, s2)" "shows_dsp good view io dev ?d s2"
    using proto_flush [OF p 1(2)] o by auto
  obtain s3 where 3: "Write_HCVR env dev READ_REPLY_VALUE s2 = (0, s3)" "shows_dsp good view io dev (?d\<lparr>d_out := [d_value d]\<rparr>) s3"
    using proto_vectors(2) [OF p 2(2)] o by auto
  obtain s4 where 4: "astropci_check_dsp_output_fifo env dev s3 = Some (OUTPUT_FIFO_OK_MASK, s4)"
      "shows_dsp good view io dev (?d\<lparr>d_out := [d_value d]\<rparr>) s4"
    using proto_wait(2) [OF p 3(2)] by auto
  obtain w h where h: "p_readl env (io + REPLY_BUFFER) (k_hw s4) = (w, h)" by fastforce
  have "w = d_value d \<and> good h \<and> view h = ?d\<lparr>d_out := []\<rparr>"
    using protocolD(3) [OF p _ _ h, of "d_value d" "[]"] 4(2) by (simp add: shows_dsp_def)
  then have "Read_REPLY_BUFFER_32 env dev s4 = (d_value d, s4\<lparr>k_hw := h\<rparr>)" "shows_dsp good view io dev ?d (s4\<lparr>k_hw := h\<rparr>)"
    using h 4(2) v o by (simp_all add: Read_REPLY_BUFFER_32_def ReadRegister_32_def shows_dsp_def to_u32_id)
  with 1 2 3 4 show ?thesis by (auto simp: fetch_reply_def)
qed

lemma proto_send:
  assumes p: "protocol env io good view" and s: "shows_dsp good view io dev d s"
    and d: "d_in d = []" "d_status d \<noteq> READOUT_STATUS"
    and ws: "n \<le> length ws" "ws ! 0 AND 0xFF = int n" "n \<le> 6" "\<forall>w \<in> set ws. 0 \<le> w \<and> w < 2 ^ 32"
  shows "\<exists>s'. send_command env dev ws s =
      (case Write_HCVR env dev WRITE_COMMAND s' of (r, s'') \<Rightarrow> if r = 0 then fetch_reply env dev s'' else Some (r, 0, s''))
    \<and> shows_dsp good view io dev (d\<lparr>d_status := 0, d_in := take n ws\<rparr>) s'"
proof -
  obtain reg s1 where 1: "Read_HSTR env dev s = (reg, s1)" "shows_dsp good view io dev d s1" "drop_bit 3 (reg AND HTF_BITS) = d_status d"
    using proto_HSTR [OF p s] by blast
  obtain s2 where 2: "Write_HCVR env dev CLEAR_REPLY_FLAGS s1 = (0, s2)" "shows_dsp good view io dev (d\<lparr>d_status := 0\<rparr>) s2"
    using proto_vectors(1) [OF p 1(2)] by auto
  obtain s3 where 3: "astropci_check_dsp_input_fifo env dev s2 = Some (INPUT_FIFO_OK_MASK, s3)"
      "shows_dsp good view io dev (d\<lparr>d_status := 0\<rparr>) s3"
    using proto_wait(1) [OF p 2(2)] by auto
  have "shows_dsp good view io dev (d\<lparr>d_status := 0, d_in := take n ws\<rparr>) (for_n n (\<lambda>i. Write_CMD_DATA_32 env dev (ws ! i)) s3)"
    using proto_words [OF p 3(2) ws(1,4)] d(1) by simp
  then show ?thesis
    using 1 2 3 ws d(2)
    by (intro exI [of _ "for_n n (\<lambda>i. Write_CMD_DATA_32 env dev (ws ! i)) s3"])
      (simp add: send_command_def Let_def del: drop_bit_and)
qed

lemma idle_input: "d_in d = [] \<Longrightarrow> d\<lparr>d_in := [], d_status := x, d_cell := c\<rparr> = d\<lparr>d_status := x, d_cell := c\<rparr>"
    "d_in d = [] \<Longrightarrow> d\<lparr>d_in := [], d_status := x, d_value := v\<rparr> = d\<lparr>d_status := x, d_value := v\<rparr>"
  by (cases d; simp)+

lemma proto_write:
  assumes p: "protocol env io good view" and s: "shows_dsp good view io dev d s"
    and d: "d_in d = []" "d_status d \<noteq> READOUT_STATUS"
    and ws: "ws = [b * 256 + 4, WRM, a, v] @ rest" "b \<in> {1, 2, 3}" "\<forall>w \<in> set ws. 0 \<le> w \<and> w < 2 ^ 32"
  shows "\<exists>s'. send_command env dev ws s = Some (0, DON, s')
    \<and> shows_dsp good view io dev (d\<lparr>d_cell := (d_cell d)(b := (d_cell d b)(a := v)), d_status := 0\<rparr>) s'"
proof -
  have "ws ! 0 AND 0xFF = int 4" using ws(1,2) by auto
  from proto_send [OF p s d _ this _ ws(3)] ws(1) obtain s1 where
    1: "send_command env dev ws s =
      (case Write_HCVR env dev WRITE_COMMAND s1 of (r, s'') \<Rightarrow> if r = 0 then fetch_reply env dev s'' else Some (r, 0, s''))"
      "shows_dsp good view io dev (d\<lparr>d_status := 0, d_in := [b * 256 + 4, WRM, a, v]\<rparr>) s1"
    by auto
  obtain s2 where 2: "Write_HCVR env dev WRITE_COMMAND s1 = (0, s2)"
      "shows_dsp good view io dev (d\<lparr>d_status := DONE_STATUS, d_cell := (d_cell d)(b := (d_cell d b)(a := v))\<rparr>) s2"
    using proto_vectors(3) [OF p 1(2), of b a v] d(1) by (auto simp: idle_input)
  from proto_fetch_done [OF p 2(2)] 1(1) 2(1) show ?thesis by simp
qed

lemma proto_read:
  assumes p: "protocol env io good view" and s: "shows_dsp good view io dev d s"
    and d: "d_in d = []" "d_out d = []" "d_status d \<noteq> READOUT_STATUS" "0 \<le> d_cell d b a" "d_cell d b a < 2 ^ 32"
    and ws: "ws = [b * 256 + 3, RDM, a] @ rest" "b \<in> {1, 2, 3}" "\<forall>w \<in> set ws. 0 \<le> w \<and> w < 2 ^ 32"
  shows "\<exists>s'. send_command env dev ws s = Some (0, d_cell d b a, s')
    \<and> shows_dsp good view io dev (d\<lparr>d_value := d_cell d b a, d_status := 0\<rparr>) s'"
proof -
  have "ws ! 0 AND 0xFF = int 3" using ws(1,2) by auto
  from proto_send [OF p s d(1,3) _ this _ ws(3)] ws(1) obtain s1 where
    1: "send_command env dev ws s =
      (case Write_HCVR env dev WRITE_COMMAND s1 of (r, s'') \<Rightarrow> if r = 0 then fetch_reply env dev s'' else Some (r, 0, s''))"
      "shows_dsp good view io dev (d\<lparr>d_status := 0, d_in := [b * 256 + 3, RDM, a]\<rparr>) s1"
    by auto
  obtain s2 where 2: "Write_HCVR env dev WRITE_COMMAND s1 = (0, s2)"
      "shows_dsp good view io dev (d\<lparr>d_status := READ_REPLY_STATUS, d_value := d_cell d b a\<rparr>) s2"
    using proto_vectors(4) [OF p 1(2), of b a] d(1) by (auto simp: idle_input)
  from proto_fetch_value [OF p 2(2)] d 1(1) 2(1) show ?thesis by simp
qed

section \<open>The library's command\<close>

text \<open>The descriptor \<open>fd\<close> is an idle board that keeps its protocol.  Its cells hold words of 24 bits other than
  the code the library takes for an error.\<close>

abbreviation word24 :: "int \<Rightarrow> bool" where
  "word24 v \<equiv> 0 \<le> v \<and> v < 2 ^ 24 \<and> v \<noteq> ERR"

definition gen_cells :: "(int \<times> int) set" where
  "gen_cells = {1, 2, 3} \<times> {0 ..< 2 ^ 24}"

definition gen_ok :: "'h os \<Rightarrow> ('h \<Rightarrow> bool) \<Rightarrow> ('h \<Rightarrow> dsp) \<Rightarrow> int \<Rightarrow> int \<Rightarrow> 'h gen \<Rightarrow> bool" where
  "gen_ok os good view io fd g \<longleftrightarrow> length (x_cmd g) = 10 \<and>
     (\<exists>dev d. x_files g fd = Some dev \<and> dev < MAX_DEV \<and> b_have_irq (k_board (x_kern g) dev)
        \<and> shows_dsp good view io dev d (x_kern g) \<and> d_in d = [] \<and> d_out d = [] \<and> d_status d \<noteq> READOUT_STATUS
        \<and> (\<forall>(b, a) \<in> gen_cells. word24 (d_cell d b a)))"

definition gen_peek :: "('h \<Rightarrow> dsp) \<Rightarrow> 'h gen \<Rightarrow> int \<Rightarrow> int \<Rightarrow> int" where
  "gen_peek view g = d_cell (view (k_hw (x_kern g)))"

text \<open>A command of six words as the library's \<open>ioctl\<close>: the words go to the board, the answer is in the first.\<close>

lemma command_case_sent:
  assumes "6 \<le> length ws" "send_command env dev (take 6 ws) s = Some (r, reply, s')"
  shows "command_case env dev (Some ws) s = Some (r, Some (reply # tl ws), s')"
proof -
  have "tl (take 6 ws) @ drop 6 ws = tl ws"
    using assms(1) append_take_drop_id [of 6 ws] by (cases ws) simp_all
  then show ?thesis
    using assms by (simp add: command_case_def copy_from_user_def copy_to_user_def)
qed

lemma gen_command:
  assumes "x_files g fd = Some dev" "dev < MAX_DEV" "b_have_irq (k_board (x_kern g) dev)" "length (x_cmd g) = 10"
    and n: "args = (if arg4 \<noteq> NONE then 6 else if arg3 \<noteq> NONE then 5 else if arg2 \<noteq> NONE then 4 else if arg1 \<noteq> NONE then 3 else 2)"
    and send: "send_command (o_pci os) dev (map to_u32 [to_i32 (push_bit 8 board OR args), command, arg1, arg2, arg3, arg4]) (x_kern g)
      = Some (0, reply, k)"
    and fits: "0 \<le> reply" "reply < 2 ^ 31"
  shows "\<exists>ws. gen_do_command os fd board command arg1 arg2 arg3 arg4 expected timeout g =
      Some (gen_read_reply expected (g\<lparr>x_kern := k, x_cmd := reply # ws\<rparr>), g\<lparr>x_kern := k, x_cmd := reply # ws\<rparr>)
    \<and> length ws = 9"
proof -
  let ?w = "[to_i32 (push_bit 8 board OR args), command, arg1, arg2, arg3, arg4]"
  let ?ws = "map to_u32 (?w @ drop 6 (x_cmd g))"
  have "take 6 ?ws = map to_u32 ?w" "length ?ws = 10" using assms(4) by simp_all
  then have "command_case (o_pci os) dev (Some ?ws) (x_kern g) = Some (0, Some (reply # tl ?ws), k)"
    using command_case_sent [of ?ws "o_pci os" dev "x_kern g"] send by simp
  then have i: "astropci_ioctl (o_pci os) dev 0x15 (Some ?ws) (x_kern g) = Some (0, Some (reply # tl ?ws), k)"
    using assms(2,3) unfolding astropci_ioctl_def by simp
  show ?thesis
    using assms(1,4) i fits to_i32_id [of reply]
    by (intro exI [of _ "map (to_i32 \<circ> to_u32) (tl (?w @ drop 6 (x_cmd g)))"]) (simp add: gen_do_command_def n [symmetric] sys_ioctl_def Let_def)
qed

lemma board_word: "b \<in> {1, 2, 3} \<Longrightarrow> 0 \<le> n \<Longrightarrow> n \<le> 6 \<Longrightarrow> to_u32 (to_i32 (push_bit 8 b OR n)) = b * 256 + n"
proof -
  assume "b \<in> {1, 2, 3}" "0 \<le> n" "n \<le> 6"
  moreover from this(2,3) have "n \<in> {0, 1, 2, 3, 4, 5, 6}" by auto
  ultimately show ?thesis by (auto simp: to_i32_def to_u32_def)
qed

lemma to_u32_word: "to_u32 v \<in> {0 ..< 2 ^ 32}"
  using to_u32_range [of v] by simp

lemma gen_ok_after:
  assumes "x_files g fd = Some dev" "dev < MAX_DEV" "b_have_irq (k_board (x_kern g) dev)" "touched (x_kern g) k"
    and "shows_dsp good view io dev d k" "d_in d = []" "d_out d = []" "d_status d = 0"
    and "\<And>b a. (b, a) \<in> gen_cells \<Longrightarrow> word24 (d_cell d b a)" and "length ws = 9"
  shows "gen_ok os good view io fd (g\<lparr>x_kern := k, x_cmd := r # ws\<rparr>)"
  unfolding gen_ok_def using assms by (intro conjI exI [of _ dev] exI [of _ d]) (auto simp: touched_def)

lemma gen_peek_shown: "shows_dsp good view io dev d (x_kern g) \<Longrightarrow> gen_peek view g = d_cell d"
  by (simp add: gen_peek_def shows_dsp_def)

lemma gen_writes:
  assumes p: "protocol (o_pci os) io good view" and g: "gen_ok os good view io fd g"
    and c: "(b, ta) \<in> gen_cells" and v: "word24 v"
  shows "\<exists>r g'. gen_do_command os fd b WRM ta v NONE NONE e DEF_TIMEOUT g = Some (r, g') \<and> (e = DON \<longrightarrow> r = DONE)
    \<and> gen_ok os good view io fd g'
    \<and> (\<forall>(b', ta') \<in> gen_cells. gen_peek view g' b' ta' = (if b' = b \<and> ta' = ta then v else gen_peek view g b' ta'))"
proof -
  from g obtain dev d where d: "x_files g fd = Some dev" "dev < MAX_DEV" "b_have_irq (k_board (x_kern g) dev)"
      "shows_dsp good view io dev d (x_kern g)" "d_in d = []" "d_out d = []" "d_status d \<noteq> READOUT_STATUS"
      "\<forall>(b, a) \<in> gen_cells. word24 (d_cell d b a)" and len: "length (x_cmd g) = 10"
    by (auto simp: gen_ok_def)
  let ?ws = "map to_u32 [to_i32 (push_bit 8 b OR 4), WRM, ta, v, NONE, NONE]"
  have b: "b \<in> {1, 2, 3}" and ta: "0 \<le> ta" "ta < 2 ^ 24" using c by (auto simp: gen_cells_def)
  have u: "to_u32 WRM = WRM" "to_u32 ta = ta" "to_u32 v = v" using ta v by (simp_all add: to_u32_id)
  have "?ws = [b * 256 + 4, WRM, ta, v] @ [to_u32 NONE, to_u32 NONE]"
    using board_word [OF b, of 4] u by simp
  moreover have "\<forall>w \<in> set ?ws. 0 \<le> w \<and> w < 2 ^ 32" using to_u32_word by auto
  ultimately obtain k where k: "send_command (o_pci os) dev ?ws (x_kern g) = Some (0, DON, k)"
      "shows_dsp good view io dev (d\<lparr>d_cell := (d_cell d)(b := (d_cell d b)(ta := v)), d_status := 0\<rparr>) k"
    using proto_write [OF p d(4,5,7) _ b] by blast
  have "4 = (if NONE \<noteq> NONE then 6 else if NONE \<noteq> NONE then 5 else if v \<noteq> NONE then 4 else if ta \<noteq> NONE then 3 else (2 :: int))"
    using v by auto
  from gen_command [OF d(1-3) len this k(1), of e DEF_TIMEOUT] obtain ws where
    r: "gen_do_command os fd b WRM ta v NONE NONE e DEF_TIMEOUT g =
      Some (gen_read_reply e (g\<lparr>x_kern := k, x_cmd := DON # ws\<rparr>), g\<lparr>x_kern := k, x_cmd := DON # ws\<rparr>)" "length ws = 9"
    by auto
  have "gen_ok os good view io fd (g\<lparr>x_kern := k, x_cmd := DON # ws\<rparr>)"
    by (rule gen_ok_after [OF d(1-3) send_command_touched [OF k(1)] k(2) _ _ _ _ r(2)]) (use d(5,6,8) v in auto)
  moreover have "gen_peek view (g\<lparr>x_kern := k, x_cmd := DON # ws\<rparr>) b' ta' = (if b' = b \<and> ta' = ta then v else gen_peek view g b' ta')" for b' ta'
    using k(2) gen_peek_shown [of good view io dev _ "g\<lparr>x_kern := k, x_cmd := DON # ws\<rparr>"] gen_peek_shown [OF d(4)] by auto
  moreover have "e = DON \<longrightarrow> gen_read_reply e (g\<lparr>x_kern := k, x_cmd := DON # ws\<rparr>) = DONE" by (simp add: gen_read_reply_def)
  ultimately show ?thesis unfolding r(1) by blast
qed

lemma gen_reads:
  assumes p: "protocol (o_pci os) io good view" and g: "gen_ok os good view io fd g" and c: "(b, ta) \<in> gen_cells"
  shows "\<exists>g'. gen_do_command os fd b RDM ta NONE NONE NONE 0 DEF_TIMEOUT g = Some (gen_peek view g b ta, g')
    \<and> gen_ok os good view io fd g' \<and> (\<forall>(b', ta') \<in> gen_cells. gen_peek view g' b' ta' = gen_peek view g b' ta')"
proof -
  from g obtain dev d where d: "x_files g fd = Some dev" "dev < MAX_DEV" "b_have_irq (k_board (x_kern g) dev)"
      "shows_dsp good view io dev d (x_kern g)" "d_in d = []" "d_out d = []" "d_status d \<noteq> READOUT_STATUS"
      "\<forall>(b, a) \<in> gen_cells. word24 (d_cell d b a)" and len: "length (x_cmd g) = 10"
    by (auto simp: gen_ok_def)
  let ?ws = "map to_u32 [to_i32 (push_bit 8 b OR 3), RDM, ta, NONE, NONE, NONE]"
  let ?v = "d_cell d b ta"
  have b: "b \<in> {1, 2, 3}" and ta: "0 \<le> ta" "ta < 2 ^ 24" and v: "word24 ?v" using c d(8) by (auto simp: gen_cells_def)
  have v32: "?v < 2 ^ 32" using v by simp
  have u: "to_u32 RDM = RDM" "to_u32 ta = ta" using ta by (simp_all add: to_u32_id)
  have "?ws = [b * 256 + 3, RDM, ta] @ [to_u32 NONE, to_u32 NONE, to_u32 NONE]"
    using board_word [OF b, of 3] u by simp
  moreover have "\<forall>w \<in> set ?ws. 0 \<le> w \<and> w < 2 ^ 32" using to_u32_word by auto
  ultimately obtain k where k: "send_command (o_pci os) dev ?ws (x_kern g) = Some (0, ?v, k)"
      "shows_dsp good view io dev (d\<lparr>d_value := ?v, d_status := 0\<rparr>) k"
    using proto_read [OF p d(4-7) conjunct1 [OF v] v32 _ b] by blast
  have "3 = (if NONE \<noteq> NONE then 6 else if NONE \<noteq> NONE then 5 else if NONE \<noteq> NONE then 4 else if ta \<noteq> NONE then 3 else (2 :: int))"
    using ta by auto
  from gen_command [OF d(1-3) len this k(1), of 0 DEF_TIMEOUT] v obtain ws where
    r: "gen_do_command os fd b RDM ta NONE NONE NONE 0 DEF_TIMEOUT g =
      Some (gen_read_reply 0 (g\<lparr>x_kern := k, x_cmd := ?v # ws\<rparr>), g\<lparr>x_kern := k, x_cmd := ?v # ws\<rparr>)" "length ws = 9"
    by auto
  have peek: "gen_peek view g b ta = ?v" using gen_peek_shown [OF d(4)] by simp
  have "gen_ok os good view io fd (g\<lparr>x_kern := k, x_cmd := ?v # ws\<rparr>)"
    by (rule gen_ok_after [OF d(1-3) send_command_touched [OF k(1)] k(2) _ _ _ _ r(2)]) (use d(5,6,8) in auto)
  moreover have "gen_peek view (g\<lparr>x_kern := k, x_cmd := ?v # ws\<rparr>) b' ta' = gen_peek view g b' ta'" for b' ta'
    using k(2) gen_peek_shown [of good view io dev _ "g\<lparr>x_kern := k, x_cmd := ?v # ws\<rparr>"] gen_peek_shown [OF d(4)] by auto
  moreover have "gen_read_reply 0 (g\<lparr>x_kern := k, x_cmd := ?v # ws\<rparr>) = ?v"
    using v by (auto simp: gen_read_reply_def Let_def)
  ultimately show ?thesis unfolding r(1) peek by blast
qed

section \<open>The board as the library's driver\<close>

definition gen_board :: "'h os \<Rightarrow> ('h \<Rightarrow> bool) \<Rightarrow> ('h \<Rightarrow> dsp) \<Rightarrow> int \<Rightarrow> int \<Rightarrow> 'h gen \<Rightarrow> bool" where
  "gen_board os good view io fd g \<longleftrightarrow> protocol (o_pci os) io good view \<and> gen_ok os good view io fd g"

interpretation gendrv: dsp_driver "gen_do_command os" "gen_board os good view io" "gen_peek view" gen_cells "\<lambda>v. word24 v"
  for os good view io
proof
  fix fd d b ta v e assume "gen_board os good view io fd d" "(b, ta) \<in> gen_cells" "word24 v"
  then show "\<exists>r d'. gen_do_command os fd b WRM ta v NONE NONE e DEF_TIMEOUT d = Some (r, d') \<and> (e = DON \<longrightarrow> r = DONE)
      \<and> gen_board os good view io fd d'
      \<and> (\<forall>(b', ta') \<in> gen_cells. gen_peek view d' b' ta' = (if b' = b \<and> ta' = ta then v else gen_peek view d b' ta'))"
    unfolding gen_board_def using gen_writes [of os io good view fd d b ta v e] by (elim conjE) simp
next
  fix fd d b ta assume "gen_board os good view io fd d" "(b, ta) \<in> gen_cells"
  then show "\<exists>d'. gen_do_command os fd b RDM ta NONE NONE NONE 0 DEF_TIMEOUT d = Some (gen_peek view d b ta, d')
      \<and> gen_board os good view io fd d' \<and> (\<forall>(b', ta') \<in> gen_cells. gen_peek view d' b' ta' = gen_peek view d b' ta')"
    unfolding gen_board_def using gen_reads by blast
qed

text \<open>A word whose bits below 24 are not those of the error code.\<close>

lemma word24_by_bits:
  assumes "\<And>k. k < 32 \<Longrightarrow> bit (to_i32 x) k = f k" "\<And>k. 24 \<le> k \<Longrightarrow> k < 32 \<Longrightarrow> \<not> f k" "\<not> (\<forall>k < 24. f k = bit ERR k)"
  shows "word24 (to_i32 x)"
proof -
  have "take_bit 32 (to_i32 x) = take_bit 24 (to_i32 x)"
    by (rule bit_eqI) (use assms(1,2) in \<open>auto simp: bit_take_bit_iff not_le [symmetric]\<close>)
  then have "to_u32 (to_i32 x) < 2 ^ 24" by (simp add: to_u32_def take_bit_eq_mod)
  moreover have "- (2 ^ 31) \<le> to_i32 x" "to_i32 x < 2 ^ 31" by (simp_all add: to_i32_def)
  ultimately have "0 \<le> to_i32 x" "to_i32 x < 2 ^ 24"
    using to_u32_id [of "to_i32 x"] mod_pos_pos_trivial [of "to_i32 x + 2 ^ 32" "2 ^ 32"]
    by (cases "to_i32 x < 0"; simp add: to_u32_def)+
  moreover have "to_i32 x \<noteq> ERR" using assms(1,3) by fastforce
  ultimately show ?thesis by simp
qed

lemma set_clear_word24:
  assumes v: "word24 v" and n: "n < 24" and e: "\<not> (\<forall>k < 24. (if k = n then on else bit v k) = bit ERR k)"
  shows "on \<Longrightarrow> word24 (to_i32 (to_u32 v OR 2 ^ n))" "\<not> on \<Longrightarrow> word24 (to_i32 (to_u32 v AND to_u32 (NOT (2 ^ n))))"
proof -
  have high: "\<not> bit v k" if "24 \<le> k" for k
    using v take_bit_int_eq_self [of v 24] that by (metis bit_take_bit_iff not_le)
  show "word24 (to_i32 (to_u32 v OR 2 ^ n))" if on
    by (rule word24_by_bits [where f = "\<lambda>k. if k = n then on else bit v k"]) (use bit_set_clear(1) that n high e in auto)
  show "word24 (to_i32 (to_u32 v AND to_u32 (NOT (2 ^ n))))" if "\<not> on"
    by (rule word24_by_bits [where f = "\<lambda>k. if k = n then on else bit v k"]) (use bit_set_clear(2) that n high e in auto)
qed

lemma gen_x0: "(TIM_ID, X_MEM) \<in> gen_cells"
  by (simp add: gen_cells_def)

text \<open>C6: The controller library's mode switches reach the real controller: through the driver library, the
  kernel driver's \<open>ioctl\<close> and the registers of a board that keeps its protocol, \<open>autoshutter\<close>, \<open>autoclear\<close>
  and \<open>artif_data\<close> set or clear their bit of the timing board's \<open>X:0\<close>, keep its other bits and every other
  cell, and leave the board ready for the next command.  The one exception is a new word equal to the
  code of an error.\<close>

theorem modes_reach_the_board:
  assumes lib: "h_do_command (sd_dhe s) = Some (gen_do_command os)" and m: "sd_master s = TIM_ID"
    and board: "protocol (o_pci os) io good view" "gen_ok os good view io fd (sd_dev s)"
    and op: "(op, n, on) \<in> {(autoshutter fd flag s, 11, flag \<noteq> 0), (autoclear fd flag s, 8, flag = 0),
      (artif_data fd flag s, 10, flag \<noteq> 0)}"
    and e: "\<not> (\<forall>k < 24. (if k = n then on else bit (gen_peek view (sd_dev s) TIM_ID X_MEM) k) = bit ERR k)"
  shows "\<exists>s'. op = Some (DONE, s') \<and> gen_ok os good view io fd (sd_dev s')
    \<and> (\<forall>k < 32. bit (gen_peek view (sd_dev s') TIM_ID X_MEM) k
         = (if k = n then on else bit (gen_peek view (sd_dev s) TIM_ID X_MEM) k))
    \<and> (\<forall>(b, ta) \<in> gen_cells - {(TIM_ID, X_MEM)}. gen_peek view (sd_dev s') b ta = gen_peek view (sd_dev s) b ta)"
proof -
  let ?v = "gen_peek view (sd_dev s) TIM_ID X_MEM"
  have att: "gendrv.attached os good view io fd s"
    using lib board by (simp add: gendrv.attached_def gen_board_def)
  have v: "word24 ?v"
    using board(2) gen_x0 by (fastforce simp: gen_ok_def gen_peek_def shows_dsp_def)
  note sw = gendrv.mode_switches [OF att gen_x0 m, where flag = flag]
  note w = set_clear_word24 [OF v _ e]
  have fin: ?thesis
    if "\<exists>s'. op = Some (DONE, s') \<and> gendrv.attached os good view io fd s' \<and> gendrv.holds view (sd_dev s) (sd_dev s') [((TIM_ID, X_MEM), x)]"
      and "\<And>k. k < 32 \<Longrightarrow> bit x k = (if k = n then on else bit ?v k)" for x
  proof -
    from that(1) obtain s' where s': "op = Some (DONE, s')" "gen_ok os good view io fd (sd_dev s')"
        "gendrv.holds view (sd_dev s) (sd_dev s') [((TIM_ID, X_MEM), x)]"
      by (auto simp: gendrv.attached_def gen_board_def)
    have "gen_peek view (sd_dev s') TIM_ID X_MEM = x" by (rule gendrv.holds_hit [OF s'(3) gen_x0]) simp
    moreover have "\<forall>(b, ta) \<in> gen_cells - {(TIM_ID, X_MEM)}. gen_peek view (sd_dev s') b ta = gen_peek view (sd_dev s) b ta"
      by (rule gendrv.holds_rest [OF s'(3)]) simp
    ultimately show ?thesis using s'(1,2) that(2) by auto
  qed
  note bits = bit_set_clear [where n = 11] bit_set_clear [where n = 8] bit_set_clear [where n = 10]
  from op consider (shutter) "op = autoshutter fd flag s" "n = 11" "on = (flag \<noteq> 0)"
    | (clear) "op = autoclear fd flag s" "n = 8" "on = (flag = 0)"
    | (artif) "op = artif_data fd flag s" "n = 10" "on = (flag \<noteq> 0)" by auto
  then show ?thesis
  proof cases
    case shutter
    show ?thesis
      by (rule fin [OF sw(1) [folded shutter(1)]]) (use w shutter bits [simplified] in \<open>auto split: if_splits\<close>)
  next
    case clear
    show ?thesis
      by (rule fin [OF sw(2) [folded clear(1)]]) (use w clear bits [simplified] in \<open>auto split: if_splits\<close>)
  next
    case artif
    show ?thesis
      by (rule fin [OF sw(3) [folded artif(1)]]) (use w artif bits [simplified] in \<open>auto split: if_splits\<close>)
  qed
qed

text \<open>A library on the demonstration machine, with the file of its first board open.\<close>

definition demo_os :: "machine os" where
  "demo_os = \<lparr>o_pci = demo_pci, o_minor = (\<lambda>n. Some (nat n)), o_fd = (\<lambda>_. 3), o_vm = 0x700000, o_len = (\<lambda>n. n)\<rparr>"

definition demo_gen :: "machine gen sdsu" where
  "demo_gen = (sdsu_start ((gen_start demo_kern)\<lparr>x_files := [3 \<mapsto> 0]\<rparr>))
     \<lparr>sd_dhe := no_dhe\<lparr>h_do_command := Some (gen_do_command demo_os)\<rparr>\<rparr>"

theorem modes_reach_the_board_witness:
  "\<exists>s'. autoshutter 3 1 demo_gen = Some (DONE, s') \<and> bit (d_cell (snd (k_hw (x_kern (sd_dev s')))) TIM_ID X_MEM) 11"
proof -
  have lib: "h_do_command (sd_dhe demo_gen) = Some (gen_do_command demo_os)" "sd_master demo_gen = TIM_ID"
    by (simp_all add: demo_gen_def sdsu_start_def)
  have p: "protocol (o_pci demo_os) 0x1000 demo_good snd" using demo_protocol by (simp add: demo_os_def)
  have "shows_dsp demo_good snd 0x1000 0 demo_dsp demo_kern"
    by (simp add: shows_dsp_def demo_kern_sel demo_good_def demo_dsp_def no_board_def)
  then have ok: "gen_ok demo_os demo_good snd 0x1000 3 (sd_dev demo_gen)"
    by (auto simp: gen_ok_def demo_gen_def sdsu_start_def gen_start_def demo_kern_sel no_board_def
        intro!: exI [of _ demo_dsp]) (simp_all add: demo_dsp_def)
  have zero: "gen_peek snd (sd_dev demo_gen) TIM_ID X_MEM = 0"
    by (simp add: gen_peek_def demo_gen_def sdsu_start_def gen_start_def demo_kern_sel demo_dsp_def)
  have e: "\<not> (\<forall>k < 24. (if k = 11 then (1 :: int) \<noteq> 0 else bit (gen_peek snd (sd_dev demo_gen) TIM_ID X_MEM) k) = bit ERR k)"
    unfolding zero by (intro notI) (drule spec [of _ 11], simp)
  show ?thesis
    using modes_reach_the_board [OF lib p ok _ e, of "autoshutter 3 1 demo_gen" 1] by (auto simp: gen_peek_def)
qed

section \<open>A reply left over\<close>

lemma proto_flush_all:
  assumes p: "protocol env io good view"
  shows "\<lbrakk>shows_dsp good view io dev d s; length (d_out d) \<le> n; \<forall>w \<in> set (d_out d). 0 \<le> w \<and> w < 2 ^ 31\<rbrakk> \<Longrightarrow>
    \<exists>s'. flush_loop env dev n r s = (if d_out d = [] then r else last (d_out d), s') \<and> shows_dsp good view io dev (d\<lparr>d_out := []\<rparr>) s'"
proof (induction n arbitrary: d s r)
  case 0
  then show ?case by (cases d) simp
next
  case (Suc n)
  obtain v s1 where 1: "Read_HSTR env dev s = (v, s1)" "shows_dsp good view io dev d s1"
    "v AND OUTPUT_FIFO_OK_MASK = (if d_out d = [] then 0 else OUTPUT_FIFO_OK_MASK)"
    using proto_HSTR [OF p Suc.prems(1)] by metis
  show ?case
  proof (cases "d_out d")
    case Nil
    then have "d = d\<lparr>d_out := []\<rparr>" by (cases d) simp
    with 1(2) have "shows_dsp good view io dev (d\<lparr>d_out := []\<rparr>) s1" by metis
    with 1(1,3) Nil show ?thesis by simp
  next
    case (Cons w ws)
    obtain x h where h: "p_readl env (io + REPLY_BUFFER) (k_hw s1) = (x, h)" by fastforce
    have "x = w \<and> good h \<and> view h = d\<lparr>d_out := ws\<rparr>"
      using protocolD(3) [OF p _ _ h, of w ws] 1(2) Cons by (simp add: shows_dsp_def)
    then have r: "Read_REPLY_BUFFER_32 env dev s1 = (w, s1\<lparr>k_hw := h\<rparr>)" "shows_dsp good view io dev (d\<lparr>d_out := ws\<rparr>) (s1\<lparr>k_hw := h\<rparr>)"
      using h 1(2) Suc.prems(3) Cons by (simp_all add: Read_REPLY_BUFFER_32_def ReadRegister_32_def shows_dsp_def to_u32_id)
    from Suc.IH [OF r(2), of w] Suc.prems(2,3) Cons show ?thesis
      using 1 r(1) by (cases "ws = []") (simp_all add: to_i32_id)
  qed
qed

text \<open>A board that was left with a reply in its buffer (at most six words, the last one not 0) cannot be opened: the call empties
  the buffer, takes the word for a failure and answers \<open>EACCES\<close>.  The next call opens the board.\<close>

theorem stale_reply_refuses_open:
  assumes p: "protocol env io good view" "quiet_setup env io good view"
    and s: "shows_dsp good view io dev d s" "dev < MAX_DEV" "b_have_irq (k_board s dev)" "\<not> b_opened (k_board s dev)" "\<not> k_lock s"
    and stale: "d_out d \<noteq> []" "length (d_out d) \<le> 6" "\<forall>w \<in> set (d_out d). 0 \<le> w \<and> w < 2 ^ 31" "last (d_out d) \<noteq> 0"
  shows "\<exists>s1 s2. astropci_open env dev s = Some (- EACCES, s1) \<and> \<not> b_opened (k_board s1 dev)
    \<and> astropci_open env dev s1 = Some (0, s2) \<and> b_opened (k_board s2 dev)"
proof -
  have main: "\<exists>s'. astropci_open env dev t =
      Some (if d_out e = [] \<or> last (d_out e) = 0 then 0 else - EACCES, s')
      \<and> b_opened (k_board s' dev) = (d_out e = [] \<or> last (d_out e) = 0) \<and> b_have_irq (k_board s' dev) \<and> \<not> k_lock s'
      \<and> shows_dsp good view io dev (e\<lparr>d_out := []\<rparr>) s'"
    if t: "shows_dsp good view io dev e t" "b_have_irq (k_board t dev)" "\<not> b_opened (k_board t dev)" "\<not> k_lock t"
      and e: "length (d_out e) \<le> 6" "\<forall>w \<in> set (d_out e). 0 \<le> w \<and> w < 2 ^ 31" for t e
  proof -
    define a where "a = on_hw (p_latency env (b_pdev (k_board t dev))) (t\<lparr>k_lock := True\<rparr>)"
    have a: "shows_dsp good view io dev e a"
      using t(1) p(2) by (simp add: a_def shows_dsp_def on_hw_def quiet_setup_def)
    obtain v b where b: "Read_HCTR env dev a = (v, b)" by fastforce
    then have b': "shows_dsp good view io dev e b"
      using a p(2) by (auto simp: Read_HCTR_def ReadRegister_32_def shows_dsp_def quiet_setup_def split: prod.splits)
    define c where "c = Write_HCTR env dev ((v AND 0xCFF) OR 0x900) b"
    have c: "shows_dsp good view io dev e c"
      using b' p(2) by (simp add: c_def Write_HCTR_def WriteRegister_32_def on_hw_def shows_dsp_def quiet_setup_def)
    obtain s' where s': "astropci_flush_reply_buffer env dev c = (if d_out e = [] then 0 else last (d_out e), s')"
        "shows_dsp good view io dev (e\<lparr>d_out := []\<rparr>) s'"
      using proto_flush_all [OF p(1) c e] unfolding astropci_flush_reply_buffer_def by blast
    have "touched a b" using b by (rule hw_touched)
    moreover have "touched b c" by (simp add: c_def touching)
    moreover have "touched c s'" using flush_touched [of c env dev] s'(1) by simp
    ultimately have "k_board s' = k_board t" by (simp add: touched_def a_def on_hw_def)
    then show ?thesis
      using t s(2) s' b a_def c_def
      by (simp add: astropci_open_def spin_lock_def spin_unlock_def Let_def shows_dsp_def set_board_def)
  qed
  obtain s1 where 1: "astropci_open env dev s = Some (- EACCES, s1)" "\<not> b_opened (k_board s1 dev)"
    "b_have_irq (k_board s1 dev)" "\<not> k_lock s1" "shows_dsp good view io dev (d\<lparr>d_out := []\<rparr>) s1"
    using main [OF s(1,3-5) stale(2,3)] stale(1,4) by auto
  from main [OF 1(5,3,2,4)] 1(1,2) show ?thesis by fastforce
qed

theorem stale_reply_refuses_open_witness:
  "\<exists>s1 s2. astropci_open demo_pci 0 (demo_kern\<lparr>k_hw := (0, demo_dsp\<lparr>d_out := [7]\<rparr>)\<rparr>) = Some (- EACCES, s1)
    \<and> astropci_open demo_pci 0 s1 = Some (0, s2)"
proof -
  have "shows_dsp demo_good snd 0x1000 0 (demo_dsp\<lparr>d_out := [7]\<rparr>) (demo_kern\<lparr>k_hw := (0, demo_dsp\<lparr>d_out := [7]\<rparr>)\<rparr>)"
    by (simp add: shows_dsp_def demo_kern_sel demo_good_def demo_dsp_def no_board_def)
  from stale_reply_refuses_open [OF demo_protocol demo_quiet this] show ?thesis
    by (simp add: demo_kern_sel no_board_def) blast
qed

end
