(* ===== verification/AstroIII.thy ===== *)
theory AstroIII imports Sdsu
begin

text \<open>
  The exposure library, \<open>PAN/Modules/SDSU/private/c/src/astroIIILib.c\<close>, which the \<open>Makefile\<close> there links with
  \<open>sdsuLib.c\<close> into \<open>libarcDHE.so\<close> (without \<open>_SHMEM_\<close>): it starts exposures, follows the integration and the
  readout, and copies the image from the memory the interface board writes to into buffers of the caller.

  The globals are the record \<open>astro\<close>; the controller library is a part of it.  LabVIEW runs the exposure in
  one thread and polls or stops it from others.  Those run while the exposure sleeps: \<open>w_usleep\<close>, the
  passing of time, is a function on the whole state, and so is the clock that \<open>chk_buffer\<close> polls.

  An operation is \<open>None\<close> when it does not return or C is undefined: a null function pointer, an index outside
  an array, a division by zero, a copy of a negative length.  Signed counters are not taken past their type.
\<close>

section \<open>Constants and state\<close>

abbreviation (input) ENOBUFS :: int where "ENOBUFS \<equiv> 105"
abbreviation (input) ECONNABORTED :: int where "ECONNABORTED \<equiv> 103"
abbreviation (input) OK :: int where "OK \<equiv> 0"
abbreviation (input) CIRC_BUF_SIZE :: int where "CIRC_BUF_SIZE \<equiv> 1024"
abbreviation (input) BUF_BYTES_SIZE :: int where "BUF_BYTES_SIZE \<equiv> 2 * 65536"
abbreviation (input) MINFASTBUF :: int where "MINFASTBUF \<equiv> 1024 * 1024"
abbreviation (input) EXP_TIME_BREAK :: int where "EXP_TIME_BREAK \<equiv> 2000"
abbreviation (input) STOP_TIME :: int where "STOP_TIME \<equiv> 2000"
abbreviation (input) cont_READOUT :: int where "cont_READOUT \<equiv> 5"

abbreviation (input) ST_IDLE :: int where "ST_IDLE \<equiv> 0"
abbreviation (input) ST_RESET :: int where "ST_RESET \<equiv> 1"
abbreviation (input) ST_EXPO :: int where "ST_EXPO \<equiv> 2"
abbreviation (input) ST_READ :: int where "ST_READ \<equiv> 3"
abbreviation (input) ST_PAUSED :: int where "ST_PAUSED \<equiv> 4"

abbreviation (input) FM_IDLE :: int where "FM_IDLE \<equiv> 0"
abbreviation (input) FM_READING :: int where "FM_READING \<equiv> 1"
abbreviation (input) FM_ABORTED :: int where "FM_ABORTED \<equiv> 2"
abbreviation (input) FM_OK :: int where "FM_OK \<equiv> 3"
abbreviation (input) FM_ERROR :: int where "FM_ERROR \<equiv> 4"
abbreviation (input) CO_ABORTED :: int where "CO_ABORTED \<equiv> 5"
abbreviation (input) FM_RDENDED :: int where "FM_RDENDED \<equiv> -1"

record frame_t =
  fm_ptr :: int
  fm_buf_read :: int
  fm_status :: int

record 'd astro =
  a_sdsu :: "'d sdsu"
  a_mem :: mem
  a_errno :: int
  a_detstatus :: int
  a_exp_prog :: int
  a_stop_sequence :: bool
  a_stop_exposure :: bool
  a_stop_coadding :: bool
  a_stop_sur :: bool
  a_try_stop_coadding :: bool
  a_try_stop_sur :: bool
  a_try_stop_next_exp :: bool
  a_discard_coadd :: bool
  a_coadds_discarded :: int
  a_images_discarded :: int
  a_images_done :: int
  a_images_started :: int
  a_oldimages_started :: int
  a_coadds_done :: int
  a_num_reads :: int
  a_fmi :: int
  a_fmo :: int
  a_imi :: int
  a_imo :: int
  a_frame :: "frame_t list"       \<comment> \<open>\<open>CIRC_BUF_SIZE+1\<close> entries\<close>
  a_UTShut :: "string list"       \<comment> \<open>of \<open>image\<close>, of the same length\<close>
  a_next_imptr :: int
  a_bufs_read :: int
  a_bufs_per_frame :: int
  a_img_bufs :: "int list"        \<comment> \<open>20 entries\<close>
  a_num_bufs :: int
  a_columns :: int
  a_rows :: int
  a_nreads :: int
  a_bytes_pp :: int
  a_pix_per_image :: int
  a_buff_size :: int
  a_framePtr :: int
  a_highmemPtr :: int
  a_framesPerBuffer :: int
  a_framesCounter :: int
  a_fastFramesCounter :: int
  a_fastPtrNo :: int
  a_pciPixCounter :: int
  a_tot_pix_rec :: int
  a_ufast_read :: bool
  a_exposure_time :: int
  a_npics :: int
  a_onpics :: int
  a_support_abort :: bool
  a_support_rit :: bool
  a_cont_read :: bool
  a_iniexpdelay :: int
  a_expdelay :: int
  a_fastbufptr :: int
  a_curr_fastptr :: int
  a_max_ptr :: int
  a_fastbufsize :: int
  a_curr_imsize :: int
  a_autoidle :: bool
  a_actual_inttime :: int
  a_guidebytes :: int
  a_gcols :: int
  a_grows :: int
  a_guide_mode :: int
  a_guideFtime :: int
  a_guideEtime :: int
  a_gbl_pixtime :: int            \<comment> \<open>the integer part, which is all that is used here\<close>

definition no_frame :: frame_t where
  "no_frame = \<lparr>fm_ptr = 0, fm_buf_read = 0, fm_status = FM_IDLE\<rparr>"

definition astro_start :: "'d sdsu \<Rightarrow> mem \<Rightarrow> 'd astro" where
  "astro_start d m = \<lparr>a_sdsu = d, a_mem = m, a_errno = 0, a_detstatus = ST_IDLE, a_exp_prog = 0,
     a_stop_sequence = False, a_stop_exposure = False, a_stop_coadding = False, a_stop_sur = False,
     a_try_stop_coadding = False, a_try_stop_sur = False, a_try_stop_next_exp = False, a_discard_coadd = False,
     a_coadds_discarded = 0, a_images_discarded = 0, a_images_done = 0, a_images_started = 0, a_oldimages_started = 0,
     a_coadds_done = 0, a_num_reads = 0, a_fmi = 0, a_fmo = 0, a_imi = 0, a_imo = 0,
     a_frame = replicate 1025 no_frame, a_UTShut = replicate 1025 [], a_next_imptr = 0, a_bufs_read = 0,
     a_bufs_per_frame = 0, a_img_bufs = replicate 20 0, a_num_bufs = 0, a_columns = 0, a_rows = 0, a_nreads = 0,
     a_bytes_pp = 2, a_pix_per_image = 2, a_buff_size = 65536, a_framePtr = 0, a_highmemPtr = 0,
     a_framesPerBuffer = 1, a_framesCounter = 0, a_fastFramesCounter = 0, a_fastPtrNo = 0, a_pciPixCounter = 0,
     a_tot_pix_rec = 0, a_ufast_read = False, a_exposure_time = 0, a_npics = 0, a_onpics = 0,
     a_support_abort = False, a_support_rit = False, a_cont_read = False, a_iniexpdelay = 0, a_expdelay = 0,
     a_fastbufptr = 0, a_curr_fastptr = 0, a_max_ptr = 0, a_fastbufsize = 0, a_curr_imsize = 0, a_autoidle = True,
     a_actual_inttime = -1, a_guidebytes = 0, a_gcols = 0, a_grows = 0, a_guide_mode = 0, a_guideFtime = 0,
     a_guideEtime = 0, a_gbl_pixtime = 0\<rparr>"

text \<open>\<open>w_usleep\<close> is what happens in a number of microseconds; \<open>w_clock\<close> reads the processor time in seconds,
  \<open>w_UT\<close> formats the time of day, \<open>w_errno\<close> is \<open>errno\<close> after a call of the controller library, \<open>w_malloc\<close>
  the address of a new block (0 when there is none).\<close>

record 'd world =
  w_usleep :: "int \<Rightarrow> 'd astro \<Rightarrow> 'd astro"
  w_clock :: "'d astro \<Rightarrow> int \<times> 'd astro"
  w_UT :: "'d astro \<Rightarrow> string"
  w_errno :: "'d sdsu \<Rightarrow> int \<Rightarrow> int"
  w_malloc :: "int \<Rightarrow> 'd astro \<Rightarrow> int"

type_synonym 'd op = "'d astro \<Rightarrow> (int \<times> 'd astro) option"

text \<open>A call of the controller library.\<close>

definition dhe_call :: "'d world \<Rightarrow> ('d sdsu \<Rightarrow> (int \<times> 'd sdsu) option) \<Rightarrow> 'd op" where
  "dhe_call w f s = do { (r, d) \<leftarrow> f (a_sdsu s); Some (r, s\<lparr>a_sdsu := d, a_errno := w_errno w d (a_errno s)\<rparr>) }"

definition copy_bytes :: "int \<Rightarrow> int \<Rightarrow> int \<Rightarrow> 'd astro \<Rightarrow> 'd astro option" where
  "copy_bytes dst src n s = (if n < 0 then None else Some (s\<lparr>a_mem := memcpy (a_mem s) dst src n\<rparr>))"

section \<open>The frame table\<close>

text \<open>\<open>if (i++ > CIRC_BUF_SIZE) i = 0\<close>: the old value is compared.\<close>

definition bump :: "int \<Rightarrow> int" where
  "bump i = (if i > CIRC_BUF_SIZE then 0 else i + 1)"

definition get_frame :: "int \<Rightarrow> 'd astro \<Rightarrow> frame_t option" where
  "get_frame i s = (if 0 \<le> i \<and> nat i < length (a_frame s) then Some (a_frame s ! nat i) else None)"

definition set_frame :: "int \<Rightarrow> (frame_t \<Rightarrow> frame_t) \<Rightarrow> 'd astro \<Rightarrow> 'd astro option" where
  "set_frame i f s =
     (if 0 \<le> i \<and> nat i < length (a_frame s) then Some (s\<lparr>a_frame := (a_frame s)[nat i := f (a_frame s ! nat i)]\<rparr>) else None)"

definition set_status :: "int \<Rightarrow> 'd astro \<Rightarrow> 'd astro option" where
  "set_status st s = set_frame (a_fmi s) (\<lambda>f. f\<lparr>fm_status := st\<rparr>) s"

definition set_UT :: "string \<Rightarrow> 'd astro \<Rightarrow> 'd astro option" where
  "set_UT t s =
     (if 0 \<le> a_imi s \<and> nat (a_imi s) < length (a_UTShut s) then Some (s\<lparr>a_UTShut := (a_UTShut s)[nat (a_imi s) := t]\<rparr>) else None)"

section \<open>Clearing\<close>

definition clear_discards :: "'d astro \<Rightarrow> 'd astro" where
  "clear_discards s = s\<lparr>a_coadds_discarded := 0, a_images_discarded := 0\<rparr>"

definition init_cont_read :: "'d astro \<Rightarrow> 'd astro" where
  "init_cont_read s = s\<lparr>a_framePtr := a_highmemPtr s, a_framesCounter := 0, a_tot_pix_rec := 0\<rparr>"

definition clear_counters :: "'d astro \<Rightarrow> 'd astro" where
  "clear_counters s = s\<lparr>a_fmi := 0, a_fmo := 0, a_imi := 0, a_imo := 0, a_frame := map (\<lambda>_. no_frame) (a_frame s)\<rparr>"

definition clear_exp_vals :: "'d astro \<Rightarrow> 'd astro" where
  "clear_exp_vals s = s\<lparr>a_detstatus := ST_IDLE, a_exp_prog := 0\<rparr>"

definition clear_all :: "int \<Rightarrow> 'd astro \<Rightarrow> int \<times> 'd astro" where
  "clear_all err s = (err, (clear_exp_vals s)\<lparr>a_stop_sequence := False, a_stop_coadding := False, a_stop_sur := False,
     a_try_stop_coadding := False, a_try_stop_sur := False, a_try_stop_next_exp := False, a_discard_coadd := False\<rparr>)"

definition clear_progress_buf :: "'d astro \<Rightarrow> int \<times> 'd astro" where
  "clear_progress_buf s = (OK, s\<lparr>a_bufs_read := 0\<rparr>)"

section \<open>Settings\<close>

definition get_guide_mode :: "'d astro \<Rightarrow> int" where
  "get_guide_mode s = a_guide_mode s"

text \<open>The casts apply to the area alone: the product is an \<open>int\<close>, its quotient by 1000 a double.\<close>

definition calc_gftime :: "int \<Rightarrow> 'd astro \<Rightarrow> int option" where
  "calc_gftime pixtime s =
     do { area \<leftarrow> in_i32 (f32_int (to_i32 (a_gcols s * a_grows s))); Some (cdiv (to_i32 (area * pixtime)) 1000) }"

definition set_gframes :: "'d world \<Rightarrow> int \<Rightarrow> int \<Rightarrow> 'd op" where
  "set_gframes w fd exptime s =
     do { nimages \<leftarrow> f32_quot exptime (to_i32 (2 * a_guideFtime s + a_guideEtime s));
          (ret, s) \<leftarrow> dhe_call w (set_guider_nimages fd nimages) s;
          Some (if ret < 0 then ret else 2 * nimages, s) }"

definition set_guide_mode :: "'d world \<Rightarrow> int \<Rightarrow> int \<Rightarrow> int \<Rightarrow> int \<Rightarrow> int \<Rightarrow> 'd op" where
  "set_guide_mode w fd gmode exptime cols rs s =
     do { (ret, s) \<leftarrow> dhe_call w (set_window_mode fd gmode cols rs) s;
          if ret < 0 then Some (ret, s)
          else do {
            let s = s\<lparr>a_guide_mode := gmode\<rparr>;
            if gmode = 0 then Some (0, s\<lparr>a_gcols := a_columns s, a_grows := a_rows s\<rparr>)
            else do {
              (ret, s) \<leftarrow> dhe_call w (set_guider_exptime fd exptime) s;
              if ret < 0 then Some (ret, s)
              else do {
                let s = s\<lparr>a_gcols := cols, a_grows := rs, a_guidebytes := to_i32 (cols * rs * a_bytes_pp s), a_guideEtime := exptime\<rparr>;
                t \<leftarrow> calc_gftime (a_gbl_pixtime s) s;
                Some (0, s\<lparr>a_guideFtime := t, a_curr_imsize := to_i32 (cols * rs)\<rparr>) } } } }"

definition stop_idle :: "'d world \<Rightarrow> int \<Rightarrow> 'd op" where
  "stop_idle w fd s = dhe_call w (stp_idl fd) (s\<lparr>a_autoidle := False\<rparr>)"

definition resume_idle :: "'d world \<Rightarrow> int \<Rightarrow> 'd op" where
  "resume_idle w fd s = dhe_call w (res_idl fd) (s\<lparr>a_autoidle := True\<rparr>)"

text \<open>The number of images is unsigned.\<close>

definition set_nimages :: "int \<Rightarrow> int \<Rightarrow> 'd astro \<Rightarrow> int \<times> 'd astro" where
  "set_nimages fd nimages s = (OK, s\<lparr>a_npics := to_u32 (a_npics s + (nimages - a_onpics s))\<rparr>)"

definition set_exp_time :: "'d world \<Rightarrow> int \<Rightarrow> int \<Rightarrow> 'd op" where
  "set_exp_time w fd exp_time s =
     do { (ret, s) \<leftarrow> dhe_call w (set_exposure_time fd (to_u32 exp_time)) s;
          Some (ret, if ret < 0 then s else s\<lparr>a_exposure_time := to_u32 exp_time\<rparr>) }"

definition get_exp_time :: "'d astro \<Rightarrow> int" where
  "get_exp_time s = to_i32 (a_exposure_time s)"

definition set_bpp :: "int \<Rightarrow> 'd op" where
  "set_bpp bpp s =
     (let b = cdiv bpp 8 in
      if b = 0 then None else Some (OK, s\<lparr>a_bytes_pp := b, a_buff_size := cdiv BUF_BYTES_SIZE b\<rparr>))"

definition set_cont_read :: "int \<Rightarrow> int \<Rightarrow> 'd astro \<Rightarrow> int \<times> 'd astro" where
  "set_cont_read fd flag s = (OK, s\<lparr>a_cont_read := (flag \<noteq> 0)\<rparr>)"

definition set_maping_size :: "int \<Rightarrow> 'd astro \<Rightarrow> int \<times> 'd astro" where
  "set_maping_size size_MB s = (case set_mapsize size_MB (a_sdsu s) of (r, d) \<Rightarrow> (r, s\<lparr>a_sdsu := d\<rparr>))"

definition set_frames_per_buffer :: "'d world \<Rightarrow> int \<Rightarrow> int \<Rightarrow> 'd op" where
  "set_frames_per_buffer w fd fpb s =
     (let fpb = (if fpb \<le> 0 then 1 else fpb) in
      do { (ret, s) \<leftarrow> dhe_call w (set_fpb fd fpb) s;
           Some (if ret < 0 then (ret, s) else (0, s\<lparr>a_framesPerBuffer := fpb\<rparr>)) })"

definition astro_reset_controller :: "'d world \<Rightarrow> int \<Rightarrow> 'd op" where
  "astro_reset_controller w fd s =
     do { (ret, s) \<leftarrow> dhe_call w (reset_ctrler fd) s; Some (ret, if ret < 0 then s else s\<lparr>a_nreads := 1\<rparr>) }"

definition pause_exposure :: "'d world \<Rightarrow> int \<Rightarrow> 'd op" where
  "pause_exposure w fd s =
     do { (ret, s) \<leftarrow> dhe_call w (pause_exp fd) s; Some (ret, if ret < 0 then s else s\<lparr>a_detstatus := ST_PAUSED\<rparr>) }"

definition resume_exposure :: "'d world \<Rightarrow> int \<Rightarrow> 'd op" where
  "resume_exposure w fd s =
     do { (ret, s) \<leftarrow> dhe_call w (resume_exp fd) s; Some (ret, if ret < 0 then s else s\<lparr>a_detstatus := ST_EXPO\<rparr>) }"

definition set_status_expo :: "'d astro \<Rightarrow> 'd astro" where
  "set_status_expo s = s\<lparr>a_detstatus := ST_EXPO\<rparr>"

definition set_support_abort :: "int \<Rightarrow> 'd astro \<Rightarrow> 'd astro" where
  "set_support_abort sabt s = s\<lparr>a_support_abort := (to_i16 sabt \<noteq> 0)\<rparr>"

definition set_support_readinttime :: "int \<Rightarrow> 'd astro \<Rightarrow> 'd astro" where
  "set_support_readinttime rit s = s\<lparr>a_support_rit := (to_i16 rit \<noteq> 0)\<rparr>"

section \<open>The buffer of fast frames\<close>

definition release_imbuf :: "int \<Rightarrow> 'd astro \<Rightarrow> int \<times> 'd astro" where
  "release_imbuf sz s = (OK, s\<lparr>a_fastbufsize := 0, a_fastbufptr := 0, a_max_ptr := 0, a_curr_fastptr := 0\<rparr>)"

text \<open>The memory values of the images are never allocated.\<close>

definition free_pointers :: "'d astro \<Rightarrow> int \<times> 'd astro" where
  "free_pointers s = (OK, snd (release_imbuf 0 s))"

text \<open>Sizes are in pixels, pointers advance by shorts.  The size of a frame is not 0: a message divides by it, and
  \<open>dimensions\<close>, the only caller, has refused it.\<close>

definition alloc_fastbuf :: "'d world \<Rightarrow> int \<Rightarrow> 'd astro \<Rightarrow> int \<times> 'd astro" where
  "alloc_fastbuf w fpb s =
     (let nsize = max MINFASTBUF (to_i32 (fpb * a_curr_imsize s));
          (ret, s) =
            (if nsize > a_fastbufsize s then
               (let s = (if a_fastbufsize s > 0 \<and> a_fastbufptr s \<noteq> 0 then snd (release_imbuf nsize s) else s);
                    p = w_malloc w (to_i32 (nsize * a_bytes_pp s)) s;
                    s = s\<lparr>a_fastbufptr := p\<rparr> in
                if p = 0 then (- ENOMEM, s) else (OK, s\<lparr>a_fastbufsize := nsize\<rparr>))
             else (OK, s)) in
      if ret \<noteq> OK then (ret, s)
      else (OK, s\<lparr>a_curr_fastptr := a_fastbufptr s, a_max_ptr := a_fastbufptr s + 2 * (a_fastbufsize s - a_curr_imsize s)\<rparr>))"

text \<open>The size in bytes is halved through a float, which is exact but for its rounding to 24 bits.\<close>

definition set_fastbufptr :: "int \<Rightarrow> int \<Rightarrow> 'd astro \<Rightarrow> int \<times> 'd astro" where
  "set_fastbufptr p sz s =
     (if p \<le> 1000 then (- EFAULT, s)
      else (OK, s\<lparr>a_fastbufptr := p, a_curr_fastptr := p, a_fastbufsize := cdiv (f32_int sz) 2\<rparr>))"

definition reset_fastptr_val :: "'d astro \<Rightarrow> 'd astro" where
  "reset_fastptr_val s = s\<lparr>a_curr_fastptr := a_fastbufptr s, a_fastPtrNo := 0\<rparr>"

definition get_fastptr_val :: "'d astro \<Rightarrow> int \<times> 'd astro" where
  "get_fastptr_val s =
     (let s = s\<lparr>a_curr_fastptr := a_curr_fastptr s + 2 * a_curr_imsize s, a_fastPtrNo := a_fastPtrNo s + 1\<rparr>;
          s = (if a_curr_fastptr s \<ge> a_max_ptr s then reset_fastptr_val s else s) in
      (a_curr_fastptr s, s))"

definition dimensions :: "'d world \<Rightarrow> int \<Rightarrow> int \<Rightarrow> int \<Rightarrow> 'd op" where
  "dimensions w fd ncols nrows s =
     do { (ret, s) \<leftarrow> dhe_call w (set_size fd ncols nrows) s;
          Some (if ret < 0 then (ret, s)
                else (let s = s\<lparr>a_columns := to_i32 ncols, a_rows := to_i32 nrows, a_gcols := to_i32 ncols,
                        a_grows := to_i32 nrows, a_curr_imsize := to_u32 (ncols * nrows)\<rparr> in
                      if a_curr_imsize s = 0 then (- EINVAL, s) else alloc_fastbuf w (a_framesPerBuffer s) s)) }"

section \<open>Opening and closing\<close>

definition close_driver :: "'d world \<Rightarrow> int \<Rightarrow> 'd op" where
  "close_driver w fd s = dhe_call w (close_drv fd) (snd (free_pointers s))"

text \<open>The result and what is stored to \<open>*err\<close>.\<close>

definition open_driver :: "'d world \<Rightarrow> int \<Rightarrow> 'd astro \<Rightarrow> ((int \<times> int option) \<times> 'd astro) option" where
  "open_driver w device s =
     (case open_drv device (a_sdsu s) of ((fd, p), d) \<Rightarrow>
        let s = s\<lparr>a_sdsu := d, a_errno := w_errno w d (a_errno s), a_highmemPtr := (case p of None \<Rightarrow> a_highmemPtr s | Some p \<Rightarrow> p)\<rparr> in
        if fd < 0 then Some ((fd, None), s)
        else if a_highmemPtr s = 0 then do { (_, s) \<leftarrow> close_driver w fd s; Some ((0, Some (- ENOMEM)), s) }
        else Some ((fd, Some 0), init_cont_read s))"

section \<open>Stopping and aborting\<close>

definition abort_read :: "'d world \<Rightarrow> int \<Rightarrow> 'd op" where
  "abort_read w fd s = (if a_support_abort s then dhe_call w (abort_readout fd) s else Some (- EPERM, s))"

definition stop_exp :: "'d world \<Rightarrow> int \<Rightarrow> 'd op" where
  "stop_exp w fd s =
     (let stop_time = a_exp_prog s + STOP_TIME in
      if stop_time < get_exp_time s then do {
        (ret, s) \<leftarrow> set_exp_time w fd stop_time s;
        Some (if ret < 0 then (ret, s) else (stop_time, s\<lparr>a_stop_exposure := True\<rparr>)) }
      else Some (get_exp_time s, s))"

definition stop_seq :: "'d astro \<Rightarrow> 'd astro" where
  "stop_seq s = s\<lparr>a_stop_sequence := True\<rparr>"

definition stop_hard_sur :: "'d world \<Rightarrow> int \<Rightarrow> 'd op" where
  "stop_hard_sur w fd s = do { (ret, s) \<leftarrow> dhe_call w (set_num_sur fd 0) s; Some (min ret OK, s) }"

definition stop_sample_up_the_ramp :: "'d world \<Rightarrow> int \<Rightarrow> 'd op" where
  "stop_sample_up_the_ramp w fd s =
     (if a_detstatus s = ST_EXPO then do {
        (ret, s) \<leftarrow> stop_hard_sur w fd s;
        Some (OK, if ret = OK then s\<lparr>a_stop_sur := True\<rparr> else s\<lparr>a_try_stop_sur := True\<rparr>) }
      else Some (OK, s\<lparr>a_try_stop_sur := True\<rparr>))"

definition stop_hard_coadd :: "'d world \<Rightarrow> int \<Rightarrow> 'd op" where
  "stop_hard_coadd w fd s = do { (ret, s) \<leftarrow> dhe_call w (set_num_coadds fd 1) s; Some (min ret OK, s) }"

definition stop_coadd :: "'d world \<Rightarrow> int \<Rightarrow> 'd op" where
  "stop_coadd w fd s =
     (if a_detstatus s = ST_EXPO then do {
        (ret, s) \<leftarrow> stop_hard_coadd w fd s;
        Some (OK, if ret = OK then s\<lparr>a_stop_sequence := True, a_stop_coadding := True\<rparr> else s\<lparr>a_try_stop_coadding := True\<rparr>) }
      else Some (OK, s\<lparr>a_try_stop_coadding := True\<rparr>))"

definition stop_all :: "'d world \<Rightarrow> int \<Rightarrow> 'd op" where
  "stop_all w fd s =
     (if a_ufast_read s then Some (OK, stop_seq s)
      else do {
        (ret, s) \<leftarrow> (if a_detstatus s = ST_EXPO then stop_exp w fd s
                     else Some (STOP_TIME, s\<lparr>a_try_stop_next_exp := True\<rparr>));
        (_, s) \<leftarrow> stop_coadd w fd (stop_seq s);
        (_, s) \<leftarrow> stop_sample_up_the_ramp w fd s;
        Some (ret, s) })"

definition abort_current_coadd :: "'d world \<Rightarrow> int \<Rightarrow> 'd op" where
  "abort_current_coadd w fd s = abort_read w fd (s\<lparr>a_discard_coadd := True\<rparr>)"

text \<open>The branch for a paused exposure has no braces, so the exposure is aborted in any state; a failed abort of
  the readout is returned as the value 1 of the comparison.\<close>

definition abort_all :: "'d world \<Rightarrow> int \<Rightarrow> 'd op" where
  "abort_all w fd s =
     (if a_ufast_read s then stop_all w fd s
      else do {
        (status, s) \<leftarrow> dhe_call w (get_cont_status fd) s;
        s \<leftarrow> (if a_detstatus s = ST_EXPO \<and> status \<noteq> cont_READOUT then do {
                (_, s) \<leftarrow> dhe_call w (abort_exposure fd) s;
                Some (s\<lparr>a_discard_coadd := True, a_stop_sequence := True\<rparr>) }
              else Some s);
        (_, s) \<leftarrow> dhe_call w (abort_exposure fd) s;
        let s = s\<lparr>a_discard_coadd := True, a_stop_sequence := True\<rparr>;
        if a_detstatus s = ST_READ then do {
          (_, s) \<leftarrow> dhe_call w (abort_exposure fd) s;
          (ret, s) \<leftarrow> abort_read w fd s;
          Some (if ret < 0 then (1, s) else (OK, s\<lparr>a_discard_coadd := True, a_stop_sequence := True\<rparr>)) }
        else Some (OK, s) })"

definition get_expose_status :: "'d astro \<Rightarrow> (bool \<times> bool) \<times> 'd astro" where
  "get_expose_status s = ((a_stop_sequence s, a_stop_coadding s), snd (clear_all OK s))"

section \<open>The caller's buffers\<close>

definition set_ptr_val :: "int \<Rightarrow> 'd astro \<Rightarrow> 'd astro" where
  "set_ptr_val p s = s\<lparr>a_next_imptr := p\<rparr>"

definition set_bufs_per_frame :: "int \<Rightarrow> 'd astro \<Rightarrow> 'd astro" where
  "set_bufs_per_frame n s = s\<lparr>a_bufs_per_frame := n\<rparr>"

definition get_free_buf :: "int \<Rightarrow> 'd astro \<Rightarrow> int option" where
  "get_free_buf index s =
     (if index > a_num_bufs s then Some (to_u64 (- EINVAL))
      else if 0 \<le> index \<and> nat index < length (a_img_bufs s) then Some (a_img_bufs s ! nat index) else None)"

text \<open>The index of the first buffer that is not set, from 1; 0 when there is none.\<close>

fun used_buf :: "int list \<Rightarrow> nat \<Rightarrow> nat \<Rightarrow> int option" where
  "used_buf bufs i 0 = Some 0"
| "used_buf bufs i (Suc n) =
     (if i \<ge> length bufs then None else if bufs ! i = 0 then Some (int i) else used_buf bufs (Suc i) n)"

definition get_used_buf :: "'d astro \<Rightarrow> int option" where
  "get_used_buf s = used_buf (a_img_bufs s) 1 (nat (a_num_bufs s))"

definition set_num_bufs :: "int \<Rightarrow> 'd astro \<Rightarrow> 'd astro option" where
  "set_num_bufs n s =
     (if nat n \<ge> length (a_img_bufs s) then None
      else Some (s\<lparr>a_num_bufs := n, a_img_bufs := for_n (nat n) (\<lambda>i bufs. bufs[Suc i := 0]) (a_img_bufs s)\<rparr>))"

definition set_ptr_vals :: "int list \<Rightarrow> int \<Rightarrow> 'd astro \<Rightarrow> 'd astro option" where
  "set_ptr_vals ptrs n s =
     (if nat n \<ge> length (a_img_bufs s) \<or> length ptrs < nat n then None
      else Some (s\<lparr>a_num_bufs := n, a_img_bufs := for_n (nat n) (\<lambda>i bufs. bufs[Suc i := ptrs ! i]) (a_img_bufs s)\<rparr>))"

definition set_new_buf :: "int \<Rightarrow> int \<Rightarrow> 'd op" where
  "set_new_buf p index s =
     (if index > a_num_bufs s then Some (to_u64 (- EINVAL), s)
      else if 0 \<le> index \<and> nat index < length (a_img_bufs s) then Some (OK, s\<lparr>a_img_bufs := (a_img_bufs s)[nat index := p]\<rparr>)
      else None)"

text \<open>The caller has five seconds of processor time to supply the buffer of the next frame.\<close>

partial_function (option) chk_loop :: "'d world \<Rightarrow> int \<Rightarrow> int \<Rightarrow> 'd astro \<Rightarrow> 'd astro option" where
  "chk_loop w beg now s =
     (if a_next_imptr s = 0 \<and> now - beg < 5 then (let (now, s) = w_clock w s in chk_loop w beg now s) else Some s)"

definition chk_buffer :: "'d world \<Rightarrow> 'd op" where
  "chk_buffer w s =
     (let (beg, s) = w_clock w s in
      do { s \<leftarrow> chk_loop w beg beg s; Some (if a_next_imptr s = 0 then - ENOBUFS else OK, s) })"

section \<open>Readout\<close>

definition get_readout_progress :: "'d world \<Rightarrow> int \<Rightarrow> 'd op" where
  "get_readout_progress w fd s =
     do { (pix, s) \<leftarrow> dhe_call w (get_read_progress fd) s;
          Some (if pix < 0 then pix
                else if pix - a_tot_pix_rec s < 0 then a_pix_per_image s
                else pix - a_tot_pix_rec s, s) }"

definition Update_Frame_Info :: "int \<Rightarrow> 'd astro \<Rightarrow> int \<times> 'd astro" where
  "Update_Frame_Info pixels_received s =
     (let tot = a_tot_pix_rec s + pixels_received;
          s = s\<lparr>a_pciPixCounter := tot, a_tot_pix_rec := (if crem tot 512 \<noteq> 0 then 512 * (cdiv tot 512 + 1) else tot),
                a_framesCounter := a_framesCounter s + 1\<rparr>;
          s = (if a_framesCounter s \<ge> a_framesPerBuffer s then init_cont_read s else s) in
      (a_highmemPtr s + 2 * a_tot_pix_rec s, s))"

definition next_frame :: "int \<Rightarrow> 'd astro \<Rightarrow> 'd astro" where
  "next_frame n s = (case Update_Frame_Info n s of (p, s) \<Rightarrow> s\<lparr>a_framePtr := p\<rparr>)"

definition get_next_pci_ptr :: "int \<Rightarrow> 'd astro \<Rightarrow> int" where
  "get_next_pci_ptr n s = a_highmemPtr s + 2 * a_tot_pix_rec s"

text \<open>The first loop of \<open>readNframes\<close>, with the number of sleeps left.\<close>

fun wait_start :: "'d world \<Rightarrow> int \<Rightarrow> nat \<Rightarrow> 'd astro \<Rightarrow> 'd astro option" where
  "wait_start w fd 0 s = do { (_, s) \<leftarrow> get_readout_progress w fd s; Some s }"
| "wait_start w fd (Suc n) s =
     do { (pix, s) \<leftarrow> get_readout_progress w fd s;
          if pix = a_pciPixCounter s then wait_start w fd n (w_usleep w 1000 s) else Some s }"

text \<open>\<open>ceil\<close> of a quotient of floats; the quotient has \<open>n\<close> bits before the point.\<close>

definition f32_quot_ceil :: "nat \<Rightarrow> nat \<Rightarrow> nat" where
  "f32_quot_ceil a b =
     (if a = 0 then 0 else if a < b then 1
      else let n = nbits (a div b) in
        if n \<le> 24 then (rne (a * 2 ^ (24 - n)) b + (2 ^ (24 - n) - 1)) div 2 ^ (24 - n)
        else rne a (b * 2 ^ (n - 24)) * 2 ^ (n - 24))"

text \<open>\<open>floor\<close> and \<open>ceil\<close> of \<open>(float)pix/buff_size\<close>, for the counts of pixels, which are not negative.\<close>

definition bufs_floor :: "int \<Rightarrow> 'd astro \<Rightarrow> int" where
  "bufs_floor pix s = int (f32_quot_trunc (f32_nat (nat pix)) (f32_nat (nat (a_buff_size s))))"

definition bufs_ceil :: "int \<Rightarrow> 'd astro \<Rightarrow> int" where
  "bufs_ceil pix s = int (f32_quot_ceil (f32_nat (nat pix)) (f32_nat (nat (a_buff_size s))))"

text \<open>The pixels from \<open>oldpix\<close> on, \<open>n\<close> bytes: the offset counts shorts.\<close>

definition copy_pixels :: "int \<Rightarrow> int \<Rightarrow> 'd astro \<Rightarrow> 'd astro option" where
  "copy_pixels oldpix n s =
     do { f \<leftarrow> get_frame (a_fmi s) s; copy_bytes (fm_ptr f + 2 * oldpix) (a_framePtr s + 2 * oldpix) n s }"

text \<open>The second loop of \<open>readNframes\<close>.  Its variables are \<open>frames_read\<close>, \<open>oldpix\<close>, \<open>tout\<close>, \<open>prevpix\<close>; a turn
  returns (\<open>Inl\<close>) or goes on.\<close>

definition take_pixels :: "int \<Rightarrow> int \<Rightarrow> int \<times> int \<Rightarrow> int \<Rightarrow> 'd astro \<Rightarrow> ((int \<times> int) \<times> 'd astro) option" where
  "take_pixels npix bytes v pix s = (case v of (frames_read, oldpix) \<Rightarrow>
     let pix = (if pix > npix then npix else pix);
         pix = (if pix < oldpix \<and> a_framesCounter s = a_framesPerBuffer s - 1 then npix else pix) in
     do { (oldpix, s) \<leftarrow>
            (if pix - oldpix \<ge> a_buff_size s then do {
               s \<leftarrow> copy_pixels oldpix ((pix - oldpix) * a_bytes_pp s) s;
               Some (pix, s\<lparr>a_bufs_read := bufs_floor pix s\<rparr>) }
             else if pix = npix then do {
               s \<leftarrow> copy_pixels oldpix (bytes - oldpix * a_bytes_pp s) s;
               Some (pix, s\<lparr>a_bufs_read := bufs_ceil pix s\<rparr>) }
             else Some (oldpix, s));
          let (frames_read, s) = (if pix = npix
             then (frames_read + 1, (let s = next_frame npix s in s\<lparr>a_bufs_read := bufs_ceil pix s\<rparr>))
             else (frames_read, s));
          s \<leftarrow> set_frame (a_fmi s) (\<lambda>f. f\<lparr>fm_buf_read := a_bufs_read s\<rparr>) s;
          Some ((frames_read, oldpix), s) })"

definition read_turn ::
  "'d world \<Rightarrow> int \<Rightarrow> int \<Rightarrow> int \<Rightarrow> int \<times> int \<times> int \<times> int \<Rightarrow> 'd astro \<Rightarrow> ((int + int \<times> int \<times> int \<times> int) \<times> 'd astro) option" where
  "read_turn w fd npix bytes v s = (case v of (frames_read, oldpix, tout, prevpix) \<Rightarrow>
     do { (pix, s) \<leftarrow> get_readout_progress w fd s;
          let s = (if pix = prevpix then w_usleep w 10000 s else s);
          if pix = prevpix \<and> tout > 3000 then do {
            (_, s) \<leftarrow> abort_read w fd (s\<lparr>a_errno := ETIME\<rparr>); Some (Inl (- ETIME), s) }
          else if pix < 0 then Some (Inl pix, s)
          else do {
            ((frames_read, oldpix), s) \<leftarrow> take_pixels npix bytes (frames_read, oldpix) pix s;
            Some (Inr (frames_read, oldpix, if pix = prevpix then tout + 1 else 0, pix), s) } })"

partial_function (option) read_loop ::
  "'d world \<Rightarrow> int \<Rightarrow> int \<Rightarrow> int \<Rightarrow> int \<times> int \<times> int \<times> int \<Rightarrow> 'd op" where
  "read_loop w fd npix bytes v s =
     (if fst v \<le> a_num_reads s then do {
        (r, s) \<leftarrow> read_turn w fd npix bytes v s;
        case r of Inl ret \<Rightarrow> Some (ret, s) | Inr v \<Rightarrow> read_loop w fd npix bytes v s }
      else Some (OK, s))"

declare chk_loop.simps [code] read_loop.simps [code]

definition begin_frame :: "int \<Rightarrow> 'd astro \<Rightarrow> 'd astro option" where
  "begin_frame p s =
     (let s = s\<lparr>a_fmi := bump (a_fmi s)\<rparr> in set_frame (a_fmi s) (\<lambda>f. f\<lparr>fm_ptr := p, fm_status := FM_READING\<rparr>) s)"

text \<open>One turn of the loop over the frames.\<close>

definition read_frame :: "'d world \<Rightarrow> int \<Rightarrow> int \<Rightarrow> int \<Rightarrow> int \<Rightarrow> 'd op" where
  "read_frame w fd npix bytes frames_read s =
     do { (ret, s) \<leftarrow> chk_buffer w s;
          if ret < 0 then do { (_, s) \<leftarrow> abort_read w fd s; Some (- ENOBUFS, s) }
          else do {
            s \<leftarrow> begin_frame (a_next_imptr s) s;
            s \<leftarrow> wait_start w fd 30000 (s\<lparr>a_next_imptr := 0\<rparr>);
            (ret, s) \<leftarrow> read_loop w fd npix bytes (frames_read, 0, 0, 0) (s\<lparr>a_bufs_read := 0\<rparr>);
            if ret < 0 then Some (ret, s) else do { s \<leftarrow> set_status FM_OK s; Some (OK, s) } } }"

text \<open>\<open>n\<close> frames are left and \<open>k\<close> have been read.\<close>

fun read_frames :: "'d world \<Rightarrow> int \<Rightarrow> int \<Rightarrow> int \<Rightarrow> nat \<Rightarrow> int \<Rightarrow> 'd op" where
  "read_frames w fd npix bytes 0 k s = Some (OK, s\<lparr>a_num_reads := k\<rparr>)"
| "read_frames w fd npix bytes (Suc n) k s =
     do { (ret, s) \<leftarrow> read_frame w fd npix bytes k (s\<lparr>a_num_reads := k\<rparr>);
          if ret < 0 then Some (ret, s) else read_frames w fd npix bytes n (k + 1) s }"

definition readNframes :: "'d world \<Rightarrow> int \<Rightarrow> int \<Rightarrow> int \<Rightarrow> 'd op" where
  "readNframes w fd num_frames bytes s =
     do { npix \<leftarrow> f32_quot bytes (a_bytes_pp s);
          read_frames w fd npix bytes (nat num_frames) 0 (s\<lparr>a_pix_per_image := npix\<rparr>) }"

section \<open>Fast readout\<close>

text \<open>Waits until more than \<open>k\<close> frames are there; the result is whether the time ran out.\<close>

fun wait_frames :: "'d world \<Rightarrow> int \<Rightarrow> int \<Rightarrow> nat \<Rightarrow> 'd astro \<Rightarrow> (bool \<times> 'd astro) option" where
  "wait_frames w fd k 0 s = do { (_, s) \<leftarrow> dhe_call w (get_frames_progress fd) s; Some (True, s) }"
| "wait_frames w fd k (Suc n) s =
     do { (frames, s) \<leftarrow> dhe_call w (get_frames_progress fd) s;
          if frames \<le> k then wait_frames w fd k n (w_usleep w 1000 s) else Some (False, s) }"

definition read_fast_frame :: "'d world \<Rightarrow> int \<Rightarrow> int \<Rightarrow> int \<Rightarrow> int \<Rightarrow> 'd op" where
  "read_fast_frame w fd npix bytes frames_proc s =
     (let (p, s) = get_fastptr_val s in
      do { s \<leftarrow> begin_frame p s;
           (late, s) \<leftarrow> wait_frames w fd frames_proc 4001 (s\<lparr>a_bufs_read := 0\<rparr>);
           if late then do { s \<leftarrow> set_status FM_ERROR s; Some (- ETIME, s) }
           else do {
             f \<leftarrow> get_frame (a_fmi s) s;
             s \<leftarrow> copy_bytes (fm_ptr f) (a_framePtr s) bytes s;
             let s = next_frame npix s;
             s \<leftarrow> set_frame (a_fmi s) (\<lambda>f. f\<lparr>fm_buf_read := a_bufs_per_frame s, fm_status := FM_OK\<rparr>) s;
             Some (OK, s\<lparr>a_bufs_read := a_bufs_per_frame s\<rparr>) } })"

fun read_fast_frames :: "'d world \<Rightarrow> int \<Rightarrow> int \<Rightarrow> int \<Rightarrow> nat \<Rightarrow> int \<Rightarrow> 'd op" where
  "read_fast_frames w fd npix bytes 0 k s = Some (OK, s\<lparr>a_num_reads := k\<rparr>)"
| "read_fast_frames w fd npix bytes (Suc n) k s =
     do { (ret, s) \<leftarrow> read_fast_frame w fd npix bytes k (s\<lparr>a_num_reads := k\<rparr>);
          if ret < 0 then Some (ret, s) else read_fast_frames w fd npix bytes n (k + 1) s }"

definition readNFastframes :: "'d world \<Rightarrow> int \<Rightarrow> int \<Rightarrow> int \<Rightarrow> 'd op" where
  "readNFastframes w fd num_frames bytes s =
     do { npix \<leftarrow> f32_quot bytes (a_bytes_pp s);
          read_fast_frames w fd npix bytes (nat num_frames) 0 (s\<lparr>a_bufs_read := 0\<rparr>) }"

text \<open>Stopping a fast sequence: the controller is asked again while it answers \<open>-EIO\<close>.\<close>

fun stop_tries :: "'d world \<Rightarrow> int \<Rightarrow> nat \<Rightarrow> 'd op" where
  "stop_tries w fd 0 s = Some (- EIO, s)"
| "stop_tries w fd (Suc n) s =
     do { (ret, s) \<leftarrow> stop_hard_coadd w fd s;
          if ret = - EIO then stop_tries w fd n (w_usleep w 5000 s) else Some (ret, s) }"

definition read_ultra_frame :: "'d world \<Rightarrow> int \<Rightarrow> int \<Rightarrow> int \<Rightarrow> 'd astro \<Rightarrow> ((int + unit) \<times> 'd astro) option" where
  "read_ultra_frame w fd npix bytes s =
     (let (p, s) = get_fastptr_val s in
      do { (late, s) \<leftarrow> wait_frames w fd (a_fastFramesCounter s) 4001 s;
           (_, s) \<leftarrow> dhe_call w (get_read_progress fd) s;
           s \<leftarrow> copy_bytes p (a_framePtr s) bytes s;
           let s = next_frame npix (s\<lparr>a_fastFramesCounter := a_fastFramesCounter s + 1\<rparr>);
           if late then Some (Inl (- ETIME), s)
           else if a_stop_sequence s \<and> a_guide_mode s = 0 then do {
             (ret, s) \<leftarrow> stop_tries w fd 250 s;
             Some (Inl (if ret = - ETIME then OK else ret), s) }
           else Some (Inr (), s) })"

fun read_ultra_frames :: "'d world \<Rightarrow> int \<Rightarrow> int \<Rightarrow> int \<Rightarrow> nat \<Rightarrow> int \<Rightarrow> 'd op" where
  "read_ultra_frames w fd npix bytes 0 k s = Some (OK, s\<lparr>a_num_reads := k\<rparr>)"
| "read_ultra_frames w fd npix bytes (Suc n) k s =
     do { (r, s) \<leftarrow> read_ultra_frame w fd npix bytes (s\<lparr>a_num_reads := k\<rparr>);
          case r of Inl ret \<Rightarrow> Some (ret, s) | Inr _ \<Rightarrow> read_ultra_frames w fd npix bytes n (k + 1) s }"

definition readUltraFastframes :: "'d world \<Rightarrow> int \<Rightarrow> int \<Rightarrow> int \<Rightarrow> 'd op" where
  "readUltraFastframes w fd num_frames bytes s =
     do { npix \<leftarrow> f32_quot bytes (a_bytes_pp s);
          read_ultra_frames w fd npix bytes (nat num_frames) 0 (s\<lparr>a_fastFramesCounter := 0\<rparr>) }"

section \<open>Integration\<close>

text \<open>Waits until the controller has reset its time; the result is whether it did not in 2000 tries.\<close>

fun wait_reset :: "'d world \<Rightarrow> int \<Rightarrow> nat \<Rightarrow> 'd astro \<Rightarrow> (bool \<times> 'd astro) option" where
  "wait_reset w fd 0 s = do { (_, s) \<leftarrow> dhe_call w (read_exposure_time fd) s; Some (True, s) }"
| "wait_reset w fd (Suc n) s =
     do { (t, s) \<leftarrow> dhe_call w (read_exposure_time fd) s;
          if t \<ge> get_exp_time s - EXP_TIME_BREAK then wait_reset w fd n (w_usleep w 1000 s) else Some (False, s) }"

text \<open>A turn of the second loop; its variables are \<open>oldexp_prog\<close>, \<open>tout\<close>, \<open>counter\<close>.\<close>

definition exp_turn ::
  "'d world \<Rightarrow> int \<Rightarrow> int \<times> int \<times> int \<Rightarrow> 'd astro \<Rightarrow> ((int + int \<times> int \<times> int) \<times> 'd astro) option" where
  "exp_turn w fd v s = (case v of (old, tout, counter) \<Rightarrow>
     if a_detstatus s \<noteq> ST_EXPO then Some (Inr v, w_usleep w 30000 s)
     else do {
       (t, s) \<leftarrow> dhe_call w (read_exposure_time fd) s;
       let s = s\<lparr>a_exp_prog := t\<rparr>;
       let retry = (t < 0 \<and> a_detstatus s = ST_EXPO \<and> counter < 9);
       let s = (if retry then w_usleep w 1000 (s\<lparr>a_exp_prog := 0\<rparr>) else s);
       let counter = (if retry then counter + 1 else counter);
       if a_discard_coadd s \<and> a_stop_sequence s then do {
         s \<leftarrow> set_status CO_ABORTED s;
         let (ret, s) = clear_all (- ECONNABORTED) s;
         Some (Inl ret, s) }
       else if a_exp_prog s = old \<and> a_detstatus s = ST_EXPO \<and> tout > 2000 then do {
         s \<leftarrow> set_status FM_ABORTED (s\<lparr>a_errno := ETIME\<rparr>);
         Some (Inl (- ETIME), s) }
       else
         (let tout = (if a_exp_prog s = old \<and> a_detstatus s = ST_EXPO then tout + 1 else 0) in
          Some (Inr (a_exp_prog s, tout, counter), w_usleep w 1000 s)) })"

partial_function (option) exp_loop :: "'d world \<Rightarrow> int \<Rightarrow> int \<times> int \<times> int \<Rightarrow> 'd op" where
  "exp_loop w fd v s =
     (if a_exp_prog s < get_exp_time s - EXP_TIME_BREAK \<and> a_exp_prog s \<ge> 0 then do {
        (r, s) \<leftarrow> exp_turn w fd v s;
        case r of Inl ret \<Rightarrow> Some (ret, s) | Inr v \<Rightarrow> exp_loop w fd v s }
      else Some (OK, s))"

definition read_exp_time :: "'d world \<Rightarrow> int \<Rightarrow> 'd op" where
  "read_exp_time w fd s =
     (let s = s\<lparr>a_num_reads := 0\<rparr> in
      if get_exp_time s > EXP_TIME_BREAK then do {
        (late, s) \<leftarrow> wait_reset w fd 2000 (w_usleep w 100 (s\<lparr>a_detstatus := ST_EXPO, a_exp_prog := 0\<rparr>));
        if late then do { s \<leftarrow> set_status FM_ABORTED (s\<lparr>a_errno := ETIME\<rparr>); Some (- ETIME, s) }
        else exp_loop w fd (0, 0, 0) s }
      else Some (OK, s))"

section \<open>Exposures\<close>

text \<open>A sequence of very short frames.\<close>

definition fast_expose :: "'d world \<Rightarrow> int \<Rightarrow> int \<Rightarrow> int \<Rightarrow> int \<Rightarrow> 'd op" where
  "fast_expose w fd exp_time nimages frames_per_image s =
     (let s = reset_fastptr_val (init_cont_read (snd (clear_all OK (s\<lparr>a_detstatus := ST_READ, a_ufast_read := True\<rparr>))));
          frames_per_image = (if frames_per_image \<le> 0 then 1 else frames_per_image);
          nimages = (if nimages \<le> 0 then 1 else nimages);
          nframes = to_i32 (frames_per_image * nimages);
          bytesperframe = to_i32 (a_gcols s * a_grows s * a_bytes_pp s) in
      do { (ret, s) \<leftarrow> set_exp_time w fd (max 10 exp_time) s;
           if ret < 0 then Some (ret, s) else do {
           (ret, s) \<leftarrow> dhe_call w (set_num_coadds fd nimages) s;
           if ret < 0 then Some (ret, s) else do {
           (ret, s) \<leftarrow> dhe_call w (start_exposure fd) s;
           (ret, s) \<leftarrow> (if ret \<noteq> OK then dhe_call w (start_exposure fd) s else Some (OK, s));
           if ret \<noteq> OK then do { (_, s) \<leftarrow> dhe_call w (reset_pci fd) s; Some (ret, s) } else do {
           (ret, s) \<leftarrow> readUltraFastframes w fd nframes bytesperframe s;
           (_, s) \<leftarrow> (if a_autoidle s then Some (OK, s) else stop_idle w fd s);
           Some (ret, clear_exp_vals s) } } } })"

text \<open>\<open>usleep\<close> of a delay that is set.\<close>

definition delay :: "'d world \<Rightarrow> int \<Rightarrow> 'd astro \<Rightarrow> 'd astro" where
  "delay w d s = (if d > 0 then w_usleep w d s else s)"

text \<open>\<open>clear_all\<close> as a returned value.\<close>

definition cleared :: "int \<Rightarrow> 'd op" where
  "cleared err s = Some (clear_all err s)"

definition fail_exposure :: "int \<Rightarrow> 'd op" where
  "fail_exposure ret s = do { s \<leftarrow> set_status FM_ERROR s; cleared ret s }"

text \<open>What both kinds of exposure begin with.\<close>

definition begin_exposure :: "int \<Rightarrow> 'd astro \<Rightarrow> 'd astro" where
  "begin_exposure nimages s =
     (snd (clear_all OK (clear_discards (clear_counters s))))
       \<lparr>a_images_done := 0, a_oldimages_started := 0, a_images_started := 0, a_onpics := to_u32 nimages, a_npics := to_u32 nimages\<rparr>"

text \<open>Starting the controller, with a second try; a failure is the value returned.  \<open>pause\<close> is the sleep
  between the tries.\<close>

definition try_start :: "'d world \<Rightarrow> int \<Rightarrow> int \<Rightarrow> 'd astro \<Rightarrow> ((int + unit) \<times> 'd astro) option" where
  "try_start w fd pause s =
     do { (ret, s) \<leftarrow> dhe_call w (start_exposure fd) s;
          if ret = OK then Some (Inr (), s)
          else do {
            (ret, s) \<leftarrow> dhe_call w (start_exposure fd) (delay w pause s);
            if ret = OK then Some (Inr (), s)
            else do {
              s \<leftarrow> set_status FM_ERROR s;
              (_, s) \<leftarrow> dhe_call w (abort_exposure fd) s;
              (_, s) \<leftarrow> dhe_call w (reset_pci fd) s;
              let (ret, s) = clear_all ret s;
              Some (Inl ret, s) } } }"

definition read_out :: "'d world \<Rightarrow> int \<Rightarrow> bool \<Rightarrow> int \<Rightarrow> int \<Rightarrow> 'd op" where
  "read_out w fd fast n bytes s = (if fast then readNFastframes w fd n bytes s else readNframes w fd n bytes s)"

definition end_sequence :: "'d world \<Rightarrow> int \<Rightarrow> 'd op" where
  "end_sequence w fd s =
     (if a_discard_coadd s \<and> a_stop_sequence s then cleared (- ECONNABORTED) s
      else do { (_, s) \<leftarrow> (if a_autoidle s then Some (OK, s) else stop_idle w fd s); Some (OK, s) })"

text \<open>One image of \<open>expose_optical\<close>.\<close>

definition optical_image ::
  "'d world \<Rightarrow> int \<Rightarrow> int \<Rightarrow> int \<Rightarrow> bool \<Rightarrow> int \<Rightarrow> 'd astro \<Rightarrow> ((int + unit) \<times> 'd astro) option" where
  "optical_image w fd bytes exp_time fast nreads s =
     (let s = init_cont_read s;
          s = (if a_cont_read s then s else s\<lparr>a_npics := to_u32 (a_npics s - 1)\<rparr>) in
      if a_discard_coadd s \<and> a_stop_sequence s then Some (case clear_all (- ECONNABORTED) s of (ret, s) \<Rightarrow> (Inl ret, s))
      else
      do { (_, s) \<leftarrow> (if a_stop_exposure s then set_exp_time w fd exp_time (s\<lparr>a_stop_exposure := False\<rparr>) else Some (OK, s));
           let s = delay w (a_iniexpdelay s) s;
           s \<leftarrow> set_UT (w_UT w s) s;
           (started, s) \<leftarrow> try_start w fd 0 s;
           case started of Inl ret \<Rightarrow> Some (Inl ret, s)
           | Inr _ \<Rightarrow> do {
               (pix, s) \<leftarrow> read_exp_time w fd (w_usleep w 100000 (s\<lparr>a_images_started := a_images_started s + 1\<rparr>));
               (pix, s) \<leftarrow> (if pix < 0 then Some (pix, s)
                           else read_out w fd fast nreads bytes (s\<lparr>a_exp_prog := get_exp_time s, a_detstatus := ST_READ\<rparr>));
               let s = (if pix < 0 then s\<lparr>a_images_discarded := a_images_discarded s + 1\<rparr> else s);
               if pix < 0 \<and> a_errno s \<noteq> ECONNABORTED then do { (ret, s) \<leftarrow> fail_exposure pix s; Some (Inl ret, s) }
               else do {
                 s \<leftarrow> (if pix < 0 then set_status FM_ABORTED s else Some s);
                 let s = s\<lparr>a_images_done := a_images_done s + 1, a_imi := bump (a_imi s), a_exp_prog := 0\<rparr>;
                 Some (Inr (), delay w (a_expdelay s) s) } } })"

partial_function (option) optical_loop :: "'d world \<Rightarrow> int \<Rightarrow> int \<Rightarrow> int \<Rightarrow> bool \<Rightarrow> int \<Rightarrow> 'd op" where
  "optical_loop w fd bytes exp_time fast nreads s =
     (if a_npics s \<noteq> 0 \<and> \<not> a_stop_sequence s then do {
        (r, s) \<leftarrow> optical_image w fd bytes exp_time fast nreads s;
        case r of Inl ret \<Rightarrow> Some (ret, s) | Inr _ \<Rightarrow> optical_loop w fd bytes exp_time fast nreads s }
      else do {
        s \<leftarrow> set_status FM_RDENDED s;
        end_sequence w fd (clear_exp_vals s) })"

definition expose_optical :: "'d world \<Rightarrow> int \<Rightarrow> int \<Rightarrow> int \<Rightarrow> int \<Rightarrow> bool \<Rightarrow> int \<Rightarrow> 'd op" where
  "expose_optical w fd bytes exp_time nimages fast nreads s =
     (let s = begin_exposure nimages s;
          s = s\<lparr>a_detstatus := (if exp_time > 0 then ST_EXPO else ST_READ), a_npics := (if a_npics s = 0 then 1 else a_npics s)\<rparr>;
          exp_time = max 0 exp_time in
      do { (ret, s) \<leftarrow> set_exp_time w fd exp_time s;
           if ret < 0 then fail_exposure ret s else optical_loop w fd bytes exp_time fast nreads s })"

subsection \<open>Infrared exposures\<close>

text \<open>\<open>expose\<close> jumps: \<open>goto new_coadd\<close>, \<open>new_image\<close> and \<open>err\<close>.  Its control is a position, with the values of
  \<open>ncoadds\<close> and \<open>nsur\<close>: the test of the loop over the images, the label \<open>new_image\<close>, the tests of the loops over
  the coadds and over the samples.\<close>

datatype position = At_images | At_new_image int | At_coadds int | At_samples int int

record plan =
  pl_prevex :: int
  pl_postex :: int
  pl_bytes :: int
  pl_exp_time :: int
  pl_coadds :: int
  pl_sur :: int
  pl_fast :: bool
  pl_guideframes :: int

type_synonym 'd jump = "'d astro \<Rightarrow> ((int + position) \<times> 'd astro) option"

definition return_from :: "(int \<times> 'd astro) option \<Rightarrow> ((int + position) \<times> 'd astro) option" where
  "return_from r = map_option (\<lambda>(ret, s). (Inl ret, s)) r"

text \<open>The label \<open>err\<close>, reached with a negative \<open>pix\<close>.\<close>

definition err_label :: "int \<Rightarrow> int \<Rightarrow> 'd jump" where
  "err_label pix ncoadds s =
     (let s = s\<lparr>a_images_discarded := a_images_discarded s + 1\<rparr> in
      if a_discard_coadd s then do {
        s \<leftarrow> set_status CO_ABORTED s;
        Some (Inr At_images, s\<lparr>a_coadds_discarded := a_coadds_discarded s + 1\<rparr>) }
      else if a_errno s = ECONNABORTED then do { s \<leftarrow> set_status FM_ABORTED s; Some (Inr (At_new_image ncoadds), s) }
      else return_from (fail_exposure pix s))"

definition images_step :: "'d world \<Rightarrow> int \<Rightarrow> plan \<Rightarrow> 'd jump" where
  "images_step w fd p s =
     (if a_npics s \<noteq> 0 \<and> \<not> a_stop_sequence s then
        (let s = init_cont_read s;
             s = (if a_cont_read s then s else s\<lparr>a_npics := to_u32 (a_npics s - 1)\<rparr>) in
         if a_discard_coadd s \<and> a_stop_sequence s then return_from (cleared (- ECONNABORTED) s)
         else do {
           let s = s\<lparr>a_discard_coadd := False\<rparr>;
           (_, s) \<leftarrow> (if a_stop_exposure s then set_exp_time w fd (pl_exp_time p) (s\<lparr>a_stop_exposure := False\<rparr>) else Some (OK, s));
           Some (Inr (At_new_image (pl_coadds p)), s\<lparr>a_coadds_done := 0\<rparr>) })
      else do { s \<leftarrow> set_status FM_RDENDED s; return_from (end_sequence w fd s) })"

definition new_image_step :: "'d world \<Rightarrow> int \<Rightarrow> int \<Rightarrow> 'd jump" where
  "new_image_step w fd ncoadds s =
     (let s = (delay w (a_iniexpdelay s) s)\<lparr>a_detstatus := ST_RESET\<rparr>; time = w_UT w s in
      do { (started, s) \<leftarrow> try_start w fd 1000000 s;
           case started of Inl ret \<Rightarrow> Some (Inl ret, s)
           | Inr _ \<Rightarrow> do {
               s \<leftarrow> set_UT time s;
               Some (Inr (At_coadds ncoadds), s\<lparr>a_images_started := a_images_started s + 1\<rparr>) } })"

definition coadds_step :: "'d world \<Rightarrow> int \<Rightarrow> plan \<Rightarrow> int \<Rightarrow> 'd jump" where
  "coadds_step w fd p ncoadds s =
     (if ncoadds \<noteq> 0 \<and> \<not> a_stop_coadding s then do {
        (pix, s) \<leftarrow> read_out w fd (pl_fast p) (pl_prevex p) (pl_bytes p) s;
        if pix < 0 then err_label pix (ncoadds - 1) s else Some (Inr (At_samples (ncoadds - 1) (pl_sur p)), s) }
      else do {
        let s = delay w (a_expdelay s) (s\<lparr>a_images_done := a_images_done s + 1, a_imi := bump (a_imi s)\<rparr>);
        s \<leftarrow> (if a_support_rit s then do { (t, s) \<leftarrow> dhe_call w (read_actual_inttime fd) s; Some (s\<lparr>a_actual_inttime := t\<rparr>) }
             else Some s);
        Some (Inr At_images, clear_exp_vals s) })"

text \<open>The stops that are still to be tried.\<close>

definition try_stops :: "'d world \<Rightarrow> int \<Rightarrow> 'd astro \<Rightarrow> 'd astro option" where
  "try_stops w fd s =
     do { s \<leftarrow> (if a_try_stop_sur s then do {
                 (ret, s) \<leftarrow> stop_hard_sur w fd s;
                 Some (if ret = OK then s\<lparr>a_stop_sur := True, a_try_stop_sur := False\<rparr> else s) }
               else Some s);
          s \<leftarrow> (if a_try_stop_coadding s then do {
                 (ret, s) \<leftarrow> stop_hard_coadd w fd s;
                 Some (if ret = OK then s\<lparr>a_stop_coadding := True, a_stop_sequence := True, a_try_stop_coadding := False\<rparr> else s) }
               else Some s);
          if a_try_stop_next_exp s then do {
            (ret, s) \<leftarrow> stop_exp w fd s;
            Some (if ret = OK then s\<lparr>a_try_stop_next_exp := False\<rparr> else s) }
          else Some s }"

definition samples_step :: "'d world \<Rightarrow> int \<Rightarrow> plan \<Rightarrow> int \<Rightarrow> int \<Rightarrow> 'd jump" where
  "samples_step w fd p ncoadds nsur s =
     (if nsur \<noteq> 0 \<and> \<not> a_stop_sur s then do {
        s \<leftarrow> try_stops w fd s;
        (pix, s) \<leftarrow>
          (if a_guide_mode s \<noteq> 0 then do {
             (pix, s) \<leftarrow> readUltraFastframes w fd (pl_guideframes p) (a_guidebytes s) (reset_fastptr_val s);
             if pix < 0 then Some (pix, s)
             else do {
               (n, s) \<leftarrow> get_readout_progress w fd (init_cont_read s);
               Some (pix, s\<lparr>a_pciPixCounter := n\<rparr>) } }
           else read_exp_time w fd s);
        if pix < 0 then err_label pix ncoadds s
        else if a_discard_coadd s \<and> a_stop_sequence s then do {
          s \<leftarrow> set_status CO_ABORTED s; return_from (cleared (- ECONNABORTED) s) }
        else do {
          (pix, s) \<leftarrow> read_out w fd (pl_fast p) (pl_postex p) (pl_bytes p)
            (s\<lparr>a_exp_prog := pl_exp_time p, a_detstatus := ST_READ\<rparr>);
          if pix < 0 then err_label pix ncoadds s else Some (Inr (At_samples ncoadds (nsur - 1)), s) } }
      else Some (Inr (At_coadds ncoadds), clear_exp_vals (s\<lparr>a_coadds_done := a_coadds_done s + 1\<rparr>)))"

definition expose_step :: "'d world \<Rightarrow> int \<Rightarrow> plan \<Rightarrow> position \<Rightarrow> 'd jump" where
  "expose_step w fd p pos s =
     (case pos of
        At_images \<Rightarrow> images_step w fd p s
      | At_new_image ncoadds \<Rightarrow> new_image_step w fd ncoadds s
      | At_coadds ncoadds \<Rightarrow> coadds_step w fd p ncoadds s
      | At_samples ncoadds nsur \<Rightarrow> samples_step w fd p ncoadds nsur s)"

partial_function (option) expose_run :: "'d world \<Rightarrow> int \<Rightarrow> plan \<Rightarrow> position \<Rightarrow> 'd op" where
  "expose_run w fd p pos s =
     do { (r, s) \<leftarrow> expose_step w fd p pos s;
          case r of Inl ret \<Rightarrow> Some (ret, s) | Inr pos \<Rightarrow> expose_run w fd p pos s }"

definition expose ::
  "'d world \<Rightarrow> int \<Rightarrow> int \<Rightarrow> int \<Rightarrow> int \<Rightarrow> int \<Rightarrow> int \<Rightarrow> int \<Rightarrow> int \<Rightarrow> bool \<Rightarrow> 'd op" where
  "expose w fd num_prevex num_postex bytes exp_time num_coadds nimages num_sur fast s =
     (let s = s\<lparr>a_ufast_read := False\<rparr> in
      do { _ \<leftarrow> f32_quot bytes (a_bytes_pp s);
           if num_prevex = 0 then expose_optical w fd bytes exp_time nimages fast num_postex s
           else do {
             let s = (begin_exposure nimages s)\<lparr>a_coadds_done := 0\<rparr>;
             let s = s\<lparr>a_npics := (if a_npics s = 0 then 1 else a_npics s)\<rparr>;
             let num_sur = max 1 num_sur;
             let num_coadds = max 1 num_coadds;
             let exp_time = max 0 exp_time;
             let short = exp_time < EXP_TIME_BREAK;
             (ret, s) \<leftarrow> set_exp_time w fd exp_time s;
             if ret < 0 then fail_exposure ret s else do {
             (gf, s) \<leftarrow> (if a_guide_mode s \<noteq> 0 then set_gframes w fd exp_time s else Some (0, s));
             (ret, s) \<leftarrow> dhe_call w (set_num_coadds fd num_coadds) s;
             if ret < 0 then fail_exposure ret s else do {
             (ret, s) \<leftarrow> dhe_call w (set_num_sur fd num_sur) s;
             if ret < 0 then fail_exposure ret s
             else expose_run w fd
               \<lparr>pl_prevex = (if short then num_prevex + num_postex else num_prevex), pl_postex = (if short then 0 else num_postex),
                pl_bytes = bytes, pl_exp_time = exp_time, pl_coadds = num_coadds, pl_sur = num_sur, pl_fast = fast,
                pl_guideframes = gf\<rparr> At_images s } } } })"

declare exp_loop.simps [code] optical_loop.simps [code] expose_run.simps [code]

section \<open>Polling\<close>

text \<open>The state of the exposure, for the thread that follows it: \<open>fmo\<close> is the frame it looks at.  The result is
  the return value, and what is stored: buffer, detector status, exposure time, number of reads, images,
  coadds, status of the frame, discarded coadds and images, count of the frame being read.\<close>

record imstatus =
  i_ptr :: int
  i_detstat :: int
  i_exp :: int
  i_imread :: int
  i_imdones :: int
  i_coaddsdone :: int
  i_fmstat :: int
  i_coad_disc :: int
  i_img_disc :: int
  i_actual_buf_read :: int

definition next_fmo :: "'d astro \<Rightarrow> int" where
  "next_fmo s =
     (if a_fmo s < a_fmi s then a_fmo s + 1
      else if a_fmo s > a_fmi s then (if a_fmo s \<ge> CIRC_BUF_SIZE then 0 else a_fmo s + 1)
      else a_fmo s)"

definition get_imstatus :: "int \<Rightarrow> 'd astro \<Rightarrow> ((int \<times> imstatus option) \<times> 'd astro) option" where
  "get_imstatus fd s =
     do { fi \<leftarrow> get_frame (a_fmi s) s;
          if fm_buf_read fi < 0 then Some ((fm_buf_read fi, None), s)
          else do {
            fo \<leftarrow> get_frame (a_fmo s) s;
            s \<leftarrow> (if a_fmo s \<noteq> a_fmi s \<and> fm_status fo = FM_OK
                 then set_frame (a_fmo s) (\<lambda>f. f\<lparr>fm_buf_read := to_i32 (a_bufs_per_frame s)\<rparr>) s else Some s);
            fi \<leftarrow> get_frame (a_fmi s) s;
            fo \<leftarrow> get_frame (a_fmo s) s;
            Some ((fm_buf_read fo,
              Some \<lparr>i_ptr = fm_ptr fo, i_detstat = a_detstatus s, i_exp = a_exp_prog s, i_imread = a_num_reads s,
                i_imdones = a_images_done s, i_coaddsdone = a_coadds_done s, i_fmstat = fm_status fo,
                i_coad_disc = a_coadds_discarded s, i_img_disc = a_images_discarded s, i_actual_buf_read = fm_buf_read fi\<rparr>),
              s\<lparr>a_fmo := next_fmo s\<rparr>) } }"

definition get_UT :: "'d astro \<Rightarrow> (string \<times> 'd astro) option" where
  "get_UT s =
     (if a_oldimages_started s < a_images_started s then
        (let imo = a_imo s in
         if imo < 0 \<or> length (a_UTShut s) \<le> nat imo then None
         else Some (a_UTShut s ! nat imo, s\<lparr>a_oldimages_started := a_oldimages_started s + 1,
           a_imo := (if imo \<le> a_imi s then imo + 1 else if imo \<ge> CIRC_BUF_SIZE then 0 else imo + 1)\<rparr>))
      else Some (''EMPTY'', s))"

definition to_i64 :: "int \<Rightarrow> int" where
  "to_i64 x = (x + 2 ^ 63) mod 2 ^ 64 - 2 ^ 63"

text \<open>The last chunk of an image of \<open>cbuff_size\<close> bytes written so far, in chunks of \<open>dbuf_size\<close>: its address, and
  its number of shorts when it is stored.  The sizes are unsigned and of 64 bits, the position is signed.\<close>

definition astro_data_pointer :: "int \<Rightarrow> int \<Rightarrow> int \<Rightarrow> int \<Rightarrow> int \<times> int option" where
  "astro_data_pointer mbuff buf_read cbuff_size dbuf_size =
     (if buf_read = 0 then (0, None)
      else if mbuff = 0 then (to_u64 (- ENOMEM), None)
      else
        (let current_pos = to_i64 ((buf_read - 1) * dbuf_size);
             bytes_remain = to_i64 (cbuff_size - current_pos) in
         if bytes_remain < 0 then (0, None)
         else
           (let n = (if bytes_remain \<ge> dbuf_size then to_i64 dbuf_size else bytes_remain) in
            (to_u64 (mbuff + 2 * (to_u64 current_pos div 2)), Some (to_u64 (cdiv (to_i32 n) 2))))))"

end
