(* ===== verification/AstroIII_Props.thy ===== *)
theory AstroIII_Props imports AstroIII
begin

text \<open>
  The exposure library: what is read out reaches the caller's buffer.
\<close>

section \<open>The detector during a readout\<close>

text \<open>\<open>camera\<close> is what a readout relies on.  In the states \<open>good\<close>, \<open>prog\<close> pixels of the image \<open>img\<close> of \<open>N\<close> pixels are
  in the memory at \<open>dma\<close>, and that is the progress the driver reports.  Time goes by and other threads run
  without disturbing the readout, and before 3000 sleeps are over (\<open>lag\<close>) another pixel arrives.\<close>

definition same_plan :: "'d astro \<Rightarrow> 'd astro \<Rightarrow> bool" where
  "same_plan s s' \<longleftrightarrow> a_num_reads s' = a_num_reads s \<and> a_fmi s' = a_fmi s \<and> a_npics s' = a_npics s
   \<and> a_stop_sequence s' = a_stop_sequence s \<and> a_discard_coadd s' = a_discard_coadd s \<and> a_autoidle s' = a_autoidle s
   \<and> a_images_done s' = a_images_done s \<and> a_images_discarded s' = a_images_discarded s
   \<and> a_exposure_time s' = a_exposure_time s"

definition undisturbed :: "int \<Rightarrow> int \<Rightarrow> 'd astro \<Rightarrow> 'd astro \<Rightarrow> bool" where
  "undisturbed dma N s s' \<longleftrightarrow>
     a_tot_pix_rec s' = a_tot_pix_rec s \<and> a_framePtr s' = a_framePtr s \<and> a_highmemPtr s' = a_highmemPtr s
   \<and> a_framesCounter s' = a_framesCounter s \<and> a_framesPerBuffer s' = a_framesPerBuffer s
   \<and> a_pix_per_image s' = a_pix_per_image s \<and> a_bytes_pp s' = a_bytes_pp s \<and> a_buff_size s' = a_buff_size s
   \<and> same_plan s s' \<and> get_frame (a_fmi s) s' = get_frame (a_fmi s) s
   \<and> length (a_frame s') = length (a_frame s) \<and> (a_next_imptr s \<noteq> 0 \<longrightarrow> a_next_imptr s' = a_next_imptr s)
   \<and> (\<forall>a. a < dma \<or> dma + 2 * N \<le> a \<longrightarrow> a_mem s' a = a_mem s a)"

definition camera ::
  "'d world \<Rightarrow> int \<Rightarrow> int \<Rightarrow> int \<Rightarrow> (int \<Rightarrow> byte) \<Rightarrow> ('d sdsu \<Rightarrow> mem \<Rightarrow> bool) \<Rightarrow> ('d sdsu \<Rightarrow> int) \<Rightarrow> ('d sdsu \<Rightarrow> nat) \<Rightarrow> bool" where
  "camera w fd dma N img good prog lag \<longleftrightarrow>
     (\<forall>d m. good d m \<longrightarrow>
        0 \<le> prog d \<and> prog d \<le> N \<and> lag d \<le> 3000 \<and> (\<forall>i. 0 \<le> i \<and> i < 2 * prog d \<longrightarrow> m (dma + i) = img i)
      \<and> (\<exists>d'. get_read_progress fd d = Some (prog d, d') \<and> good d' m \<and> prog d' = prog d \<and> lag d' = lag d)
      \<and> (\<forall>m'. (\<forall>i. 0 \<le> i \<and> i < 2 * N \<longrightarrow> m' (dma + i) = m (dma + i)) \<longrightarrow> good d m'))
   \<and> (\<forall>s n. good (a_sdsu s) (a_mem s) \<longrightarrow>
        undisturbed dma N s (w_usleep w n s) \<and> good (a_sdsu (w_usleep w n s)) (a_mem (w_usleep w n s))
      \<and> (if prog (a_sdsu (w_usleep w n s)) = prog (a_sdsu s)
         then prog (a_sdsu s) < N \<longrightarrow> lag (a_sdsu (w_usleep w n s)) < lag (a_sdsu s)
         else prog (a_sdsu s) < prog (a_sdsu (w_usleep w n s))))"

lemma cameraD:
  assumes "camera w fd dma N img good prog lag"
  shows "good d m \<Longrightarrow> 0 \<le> prog d \<and> prog d \<le> N \<and> lag d \<le> 3000"
    and "good d m \<Longrightarrow> 0 \<le> i \<Longrightarrow> i < 2 * prog d \<Longrightarrow> m (dma + i) = img i"
    and "good d m \<Longrightarrow> \<exists>d'. get_read_progress fd d = Some (prog d, d') \<and> good d' m \<and> prog d' = prog d \<and> lag d' = lag d"
    and "good d m \<Longrightarrow> (\<And>i. 0 \<le> i \<Longrightarrow> i < 2 * N \<Longrightarrow> m' (dma + i) = m (dma + i)) \<Longrightarrow> good d m'"
    and "good (a_sdsu s) (a_mem s) \<Longrightarrow> undisturbed dma N s (w_usleep w n s)"
    and "good (a_sdsu s) (a_mem s) \<Longrightarrow> good (a_sdsu (w_usleep w n s)) (a_mem (w_usleep w n s))"
    and "good (a_sdsu s) (a_mem s) \<Longrightarrow> prog (a_sdsu s) \<le> prog (a_sdsu (w_usleep w n s))"
    and "good (a_sdsu s) (a_mem s) \<Longrightarrow> prog (a_sdsu (w_usleep w n s)) = prog (a_sdsu s) \<Longrightarrow> prog (a_sdsu s) < N \<Longrightarrow>
      lag (a_sdsu (w_usleep w n s)) < lag (a_sdsu s)"
proof -
  note A = assms [unfolded camera_def, THEN conjunct1, THEN spec, THEN spec, THEN mp]
  note B = assms [unfolded camera_def, THEN conjunct2, THEN spec, THEN spec, THEN mp]
  show "good d m \<Longrightarrow> 0 \<le> prog d \<and> prog d \<le> N \<and> lag d \<le> 3000" using A by blast
  show "good d m \<Longrightarrow> 0 \<le> i \<Longrightarrow> i < 2 * prog d \<Longrightarrow> m (dma + i) = img i" using A by blast
  show "good d m \<Longrightarrow> \<exists>d'. get_read_progress fd d = Some (prog d, d') \<and> good d' m \<and> prog d' = prog d \<and> lag d' = lag d"
    using A by blast
  show "good d m \<Longrightarrow> (\<And>i. 0 \<le> i \<Longrightarrow> i < 2 * N \<Longrightarrow> m' (dma + i) = m (dma + i)) \<Longrightarrow> good d m'" using A by blast
  show "good (a_sdsu s) (a_mem s) \<Longrightarrow> undisturbed dma N s (w_usleep w n s)" using B by blast
  show "good (a_sdsu s) (a_mem s) \<Longrightarrow> good (a_sdsu (w_usleep w n s)) (a_mem (w_usleep w n s))" using B by blast
  show "good (a_sdsu s) (a_mem s) \<Longrightarrow> prog (a_sdsu s) \<le> prog (a_sdsu (w_usleep w n s))"
    using B [of s n] by (auto split: if_splits)
  show "good (a_sdsu s) (a_mem s) \<Longrightarrow> prog (a_sdsu (w_usleep w n s)) = prog (a_sdsu s) \<Longrightarrow> prog (a_sdsu s) < N \<Longrightarrow>
      lag (a_sdsu (w_usleep w n s)) < lag (a_sdsu s)"
    using B [of s n] by auto
qed

text \<open>A readout under way: frame \<open>fmi\<close> goes to \<open>p\<close>, and its first \<open>n\<close> pixels are there.  \<open>s0\<close> is where it began.\<close>

definition reading ::
  "int \<Rightarrow> int \<Rightarrow> (int \<Rightarrow> byte) \<Rightarrow> ('d sdsu \<Rightarrow> mem \<Rightarrow> bool) \<Rightarrow> int \<Rightarrow> 'd astro \<Rightarrow> int \<Rightarrow> 'd astro \<Rightarrow> bool" where
  "reading dma N img good p s0 n s \<longleftrightarrow> good (a_sdsu s) (a_mem s)
   \<and> a_tot_pix_rec s = 0 \<and> a_framePtr s = dma \<and> a_highmemPtr s = dma \<and> a_framesPerBuffer s = 1 \<and> a_framesCounter s = 0
   \<and> a_pix_per_image s = N \<and> a_bytes_pp s = 2 \<and> a_buff_size s = 65536
   \<and> same_plan s0 s \<and> length (a_frame s) = length (a_frame s0)
   \<and> (\<exists>f. get_frame (a_fmi s0) s = Some f \<and> fm_ptr f = p)
   \<and> (\<forall>i. 0 \<le> i \<and> i < 2 * n \<longrightarrow> a_mem s (p + i) = img i)
   \<and> (\<forall>a. (a < dma \<or> dma + 2 * N \<le> a) \<and> (a < p \<or> p + 2 * N \<le> a) \<longrightarrow> a_mem s a = a_mem s0 a)"

lemmas reading_defs = reading_def same_plan_def

lemma same_plan_trans: "same_plan a b \<Longrightarrow> same_plan b c \<Longrightarrow> same_plan a c"
  by (simp add: same_plan_def)

lemma same_plan_fmi: "same_plan a b \<Longrightarrow> a_fmi b = a_fmi a"
  by (simp add: same_plan_def)

definition clear_of :: "int \<Rightarrow> int \<Rightarrow> int \<Rightarrow> bool" where
  "clear_of p dma N \<longleftrightarrow> p + 2 * N \<le> dma \<or> dma + 2 * N \<le> p"

lemma reading_undisturbed:
  assumes "reading dma N img good p s0 n s" "undisturbed dma N s s'" "good (a_sdsu s') (a_mem s')" "n \<le> N" "clear_of p dma N"
  shows "reading dma N img good p s0 n s'"
proof -
  have m: "a_mem s' a = a_mem s a" if "a < dma \<or> dma + 2 * N \<le> a" for a
    using assms(2) that by (auto simp: undisturbed_def)
  have "a_mem s' (p + i) = img i" if "0 \<le> i" "i < 2 * n" for i
  proof -
    have "p + i < dma \<or> dma + 2 * N \<le> p + i" using that assms(4,5) by (auto simp: clear_of_def)
    moreover have "a_mem s (p + i) = img i" using assms(1) that by (simp add: reading_defs)
    ultimately show ?thesis using m by simp
  qed
  moreover have "a_mem s' a = a_mem s0 a" if "a < dma \<or> dma + 2 * N \<le> a" "a < p \<or> p + 2 * N \<le> a" for a
    using m [OF that(1)] assms(1) that by (simp add: reading_defs)
  moreover have u: "same_plan s s'" "get_frame (a_fmi s) s' = get_frame (a_fmi s) s" using assms(2) by (simp_all add: undisturbed_def)
  moreover have v: "same_plan s0 s" using assms(1) by (simp add: reading_def)
  ultimately have "same_plan s0 s'" "get_frame (a_fmi s0) s' = get_frame (a_fmi s0) s"
    using same_plan_trans [OF v u(1)] same_plan_fmi [OF v] by simp_all
  moreover note \<open>\<And>i. 0 \<le> i \<Longrightarrow> i < 2 * n \<Longrightarrow> a_mem s' (p + i) = img i\<close>
    \<open>\<And>a. a < dma \<or> dma + 2 * N \<le> a \<Longrightarrow> a < p \<or> p + 2 * N \<le> a \<Longrightarrow> a_mem s' a = a_mem s0 a\<close>
  ultimately show ?thesis
    using assms(1-3) by (simp add: reading_def undisturbed_def)
qed

lemma get_frame_update [simp]:
  "get_frame i (s\<lparr>a_sdsu := d\<rparr>) = get_frame i s" "get_frame i (s\<lparr>a_errno := e\<rparr>) = get_frame i s"
  "get_frame i (s\<lparr>a_mem := m\<rparr>) = get_frame i s" "get_frame i (s\<lparr>a_bufs_read := k\<rparr>) = get_frame i s"
  "get_frame i (s\<lparr>a_pciPixCounter := k\<rparr>) = get_frame i s"
  "get_frame i (s\<lparr>a_num_reads := k\<rparr>) = get_frame i s"
  "get_frame i (s\<lparr>a_images_done := k\<rparr>) = get_frame i s" "get_frame i (s\<lparr>a_imi := k\<rparr>) = get_frame i s"
  "get_frame i (s\<lparr>a_exp_prog := k\<rparr>) = get_frame i s"
  by (simp_all add: get_frame_def)

lemma reading_progress:
  assumes c: "camera w fd dma N img good prog lag" and r: "reading dma N img good p s0 n s"
  shows "\<exists>s'. get_readout_progress w fd s = Some (prog (a_sdsu s), s') \<and> reading dma N img good p s0 n s'
    \<and> prog (a_sdsu s') = prog (a_sdsu s) \<and> lag (a_sdsu s') = lag (a_sdsu s)"
proof -
  have g: "good (a_sdsu s) (a_mem s)" "a_tot_pix_rec s = 0" using r by (simp_all add: reading_defs)
  obtain d where d: "get_read_progress fd (a_sdsu s) = Some (prog (a_sdsu s), d)" "good d (a_mem s)" "prog d = prog (a_sdsu s)"
      "lag d = lag (a_sdsu s)"
    using cameraD(3) [OF c g(1)] by blast
  have "\<not> prog (a_sdsu s) < 0" using cameraD(1) [OF c g(1)] by simp
  moreover have "reading dma N img good p s0 n (s\<lparr>a_sdsu := d, a_errno := e\<rparr>)" for e
    using r d(2) by (auto simp: reading_defs)
  ultimately show ?thesis
    using d g(2) by (simp add: get_readout_progress_def dhe_call_def)
qed

lemma reading_sleep:
  assumes "camera w fd dma N img good prog lag" "reading dma N img good p s0 n s" "n \<le> N" "clear_of p dma N"
  shows "reading dma N img good p s0 n (w_usleep w k s)"
proof -
  have "good (a_sdsu s) (a_mem s)" using assms(2) by (simp add: reading_defs)
  then show ?thesis by (intro reading_undisturbed [OF assms(2) _ _ assms(3,4)] cameraD(5,6) [OF assms(1)])
qed

lemma reading_wait:
  assumes c: "camera w fd dma N img good prog lag" and "n \<le> N" "clear_of p dma N"
  shows "reading dma N img good p s0 n s \<Longrightarrow> \<exists>s'. wait_start w fd k s = Some s' \<and> reading dma N img good p s0 n s'"
proof (induction k arbitrary: s)
  case 0
  then show ?case using reading_progress [OF c 0] by auto
next
  case (Suc k)
  obtain s1 where 1: "get_readout_progress w fd s = Some (prog (a_sdsu s), s1)" "reading dma N img good p s0 n s1"
    using reading_progress [OF c Suc.prems] by blast
  show ?case
    using 1 Suc.IH [OF reading_sleep [OF c 1(2) assms(2,3)], of 1000] by (cases "prog (a_sdsu s) = a_pciPixCounter s1") auto
qed

section \<open>One turn of the copying loop\<close>

lemma set_frame_reading:
  assumes "reading dma N img good p s0 n s" "\<And>f. fm_ptr (g f) = fm_ptr f"
  shows "\<exists>s'. set_frame (a_fmi s) g s = Some s' \<and> reading dma N img good p s0 n s' \<and> a_sdsu s' = a_sdsu s
    \<and> a_bufs_read s' = a_bufs_read s \<and> a_mem s' = a_mem s \<and> length (a_frame s') = length (a_frame s)"
  using assms by (auto simp: reading_defs set_frame_def get_frame_def split: if_splits)

text \<open>Copying what has arrived since \<open>old\<close>.\<close>

lemma copy_reading:
  assumes c: "camera w fd dma N img good prog lag" and r: "reading dma N img good p s0 old s" and ap: "clear_of p dma N"
    and b: "0 \<le> old" "old \<le> pix" "pix \<le> prog (a_sdsu s)"
  shows "\<exists>s'. copy_pixels old (2 * (pix - old)) s = Some s' \<and> reading dma N img good p s0 pix s' \<and> a_sdsu s' = a_sdsu s"
proof -
  obtain f where f: "get_frame (a_fmi s) s = Some f" "fm_ptr f = p" using r by (auto simp: reading_defs)
  have g: "good (a_sdsu s) (a_mem s)" and h: "a_framePtr s = dma" using r by (simp_all add: reading_defs)
  have pN: "pix \<le> N" using cameraD(1) [OF c g] b(3) by simp
  define m where "m = memcpy (a_mem s) (p + 2 * old) (dma + 2 * old) (2 * (pix - old))"
  have eq: "copy_pixels old (2 * (pix - old)) s = Some (s\<lparr>a_mem := m\<rparr>)"
    using f h b(2) by (simp add: copy_pixels_def copy_bytes_def m_def)
  have out: "m a = a_mem s a" if "a < p \<or> p + 2 * N \<le> a" for a
    using that b pN by (auto simp: m_def memcpy_def)
  have dma: "m (dma + i) = a_mem s (dma + i)" if "0 \<le> i" "i < 2 * N" for i
    using ap that by (intro out) (auto simp: clear_of_def)
  have "good (a_sdsu s) m" using dma by (rule cameraD(4) [OF c g])
  moreover have "m (p + i) = img i" if i: "0 \<le> i" "i < 2 * pix" for i
  proof (cases "i < 2 * old")
    case True
    then show ?thesis using r i by (simp add: m_def memcpy_def reading_defs)
  next
    case False
    then have "m (p + i) = a_mem s (dma + i)" using i by (simp add: m_def memcpy_def algebra_simps)
    then show ?thesis using cameraD(2) [OF c g i(1)] i(2) b(3) by simp
  qed
  ultimately have "reading dma N img good p s0 pix (s\<lparr>a_mem := m\<rparr>)"
    using r out by (auto simp: reading_defs)
  then show ?thesis using eq by auto
qed

lemma reading_bufs:
  "reading dma N img good p s0 n s \<Longrightarrow> reading dma N img good p s0 n (s\<lparr>a_bufs_read := k\<rparr>)"
  by (simp add: reading_defs)

text \<open>At the end of a frame the bookkeeping of the memory starts again.\<close>

lemma next_frame_reading:
  assumes "reading dma N img good p s0 n s"
  shows "reading dma N img good p s0 n (next_frame k s)" "a_sdsu (next_frame k s) = a_sdsu s"
    "a_buff_size (next_frame k s) = a_buff_size s"
proof -
  have "next_frame k s = s\<lparr>a_pciPixCounter := k\<rparr>"
    using assms by (simp add: reading_defs next_frame_def Update_Frame_Info_def init_cont_read_def)
  then show "reading dma N img good p s0 n (next_frame k s)" "a_sdsu (next_frame k s) = a_sdsu s"
    "a_buff_size (next_frame k s) = a_buff_size s"
    using assms by (auto simp: reading_defs)
qed


text \<open>A turn of \<open>take_pixels\<close> on what the driver reports.\<close>

lemma take_reading:
  assumes c: "camera w fd dma N img good prog lag" and r: "reading dma N img good p s0 old s" and ap: "clear_of p dma N"
    and b: "0 \<le> old" "old \<le> pix" "pix \<le> prog (a_sdsu s)"
  shows "\<exists>old' s'. take_pixels N (2 * N) (k, old) pix s = Some ((if pix = N then k + 1 else k, old'), s')
    \<and> reading dma N img good p s0 old' s' \<and> a_sdsu s' = a_sdsu s \<and> 0 \<le> old' \<and> old' \<le> pix \<and> (pix = N \<longrightarrow> old' = N)"
proof -
  have g: "good (a_sdsu s) (a_mem s)" and bs: "a_buff_size s = 65536" and bp: "a_bytes_pp s = 2" using r by (simp_all add: reading_defs)
  have pN: "pix \<le> N" using cameraD(1) [OF c g] b(3) by simp
  have fin: "\<exists>s'. set_frame (a_fmi t) (\<lambda>f. f\<lparr>fm_buf_read := a_bufs_read t\<rparr>) t = Some s' \<and> reading dma N img good p s0 n s'
      \<and> a_sdsu s' = a_sdsu t" if "reading dma N img good p s0 n t" for n t
    using set_frame_reading [OF that, of "\<lambda>f. f\<lparr>fm_buf_read := a_bufs_read t\<rparr>"] by auto
  show ?thesis
  proof (cases "pix - old \<ge> 65536 \<or> pix = N")
    case True
    obtain t where t: "copy_pixels old (2 * (pix - old)) s = Some t" "reading dma N img good p s0 pix t" "a_sdsu t = a_sdsu s"
      using copy_reading [OF c r ap b] by blast
    define j where "j = (if pix - old \<ge> 65536 then bufs_floor pix t else bufs_ceil pix t)"
    define u where "u = (if pix = N then (let v = next_frame N (t\<lparr>a_bufs_read := j\<rparr>) in v\<lparr>a_bufs_read := bufs_ceil pix v\<rparr>)
      else t\<lparr>a_bufs_read := j\<rparr>)"
    have u: "reading dma N img good p s0 pix u" "a_sdsu u = a_sdsu s"
      using t(3) reading_bufs [OF t(2)] reading_bufs [OF next_frame_reading(1) [OF reading_bufs [OF t(2)]]]
        next_frame_reading(2) [OF reading_bufs [OF t(2)]]
      by (cases "pix = N"; simp add: u_def Let_def)+
    obtain s' where s': "set_frame (a_fmi u) (\<lambda>f. f\<lparr>fm_buf_read := a_bufs_read u\<rparr>) u = Some s'"
        "reading dma N img good p s0 pix s'" "a_sdsu s' = a_sdsu u"
      using fin [OF u(1)] by blast
    have "take_pixels N (2 * N) (k, old) pix s = Some ((if pix = N then k + 1 else k, pix), s')"
    proof (cases "pix - old \<ge> 65536")
      case True
      have "copy_pixels old ((pix - old) * a_bytes_pp s) s = Some t" using t(1) bp by (simp add: algebra_simps)
      then show ?thesis
        using True s'(1) b(2) pN bs by (cases "pix = N") (simp_all add: take_pixels_def u_def j_def Let_def)
    next
      case False
      then have n: "pix = N" using \<open>pix - old \<ge> 65536 \<or> pix = N\<close> by simp
      have "copy_pixels old (2 * N - old * a_bytes_pp s) s = Some t" using t(1) bp n by (simp add: algebra_simps)
      then show ?thesis
        using False s'(1) b(2) pN bs n by (simp add: take_pixels_def u_def j_def Let_def)
    qed
    then show ?thesis using s' u b by auto
  next
    case False
    obtain s' where s': "set_frame (a_fmi s) (\<lambda>f. f\<lparr>fm_buf_read := a_bufs_read s\<rparr>) s = Some s'"
        "reading dma N img good p s0 old s'" "a_sdsu s' = a_sdsu s"
      using fin [OF r] by blast
    then show ?thesis using False b pN bs by (auto simp: take_pixels_def Let_def)
  qed
qed


text \<open>The loop is at \<open>(k, old, tout, prev)\<close>: it has not seen the whole frame, and it is not about to give up.\<close>

definition under_way ::
  "int \<Rightarrow> int \<Rightarrow> (int \<Rightarrow> byte) \<Rightarrow> int \<Rightarrow> ('d sdsu \<Rightarrow> mem \<Rightarrow> bool) \<Rightarrow> ('d sdsu \<Rightarrow> int) \<Rightarrow> ('d sdsu \<Rightarrow> nat) \<Rightarrow>
    'd astro \<Rightarrow> int \<times> int \<times> int \<times> int \<Rightarrow> 'd astro \<Rightarrow> bool" where
  "under_way dma N img p good prog lag s0 v s = (case v of (k, old, tout, prev) \<Rightarrow>
     reading dma N img good p s0 old s \<and> k = a_num_reads s0 \<and> 0 \<le> old \<and> old \<le> prev \<and> prev \<le> prog (a_sdsu s) \<and> prev < N
   \<and> (prev = prog (a_sdsu s) \<longrightarrow> tout + int (lag (a_sdsu s)) \<le> 3000))"

definition distance :: "int \<Rightarrow> ('d sdsu \<Rightarrow> int) \<Rightarrow> ('d sdsu \<Rightarrow> nat) \<Rightarrow> int \<times> int \<times> int \<times> int \<Rightarrow> 'd astro \<Rightarrow> nat" where
  "distance N prog lag v s = nat (N - prog (a_sdsu s)) * 4000 + lag (a_sdsu s)
     + (if prog (a_sdsu s) = snd (snd (snd v)) then 0 else 1)"

lemma read_turn_reading:
  assumes c: "camera w fd dma N img good prog lag" and ap: "clear_of p dma N" and i: "under_way dma N img p good prog lag s0 v s"
  shows "\<exists>v' s'. read_turn w fd N (2 * N) v s = Some (Inr v', s')
    \<and> (fst v' = a_num_reads s0 + 1 \<and> reading dma N img good p s0 N s' \<and> prog (a_sdsu s') = N
       \<or> under_way dma N img p good prog lag s0 v' s' \<and> distance N prog lag v' s' < distance N prog lag v s)"
proof -
  obtain k old tout prev where v: "v = (k, old, tout, prev)" by (cases v)
  note i = i [unfolded v under_way_def, simplified]
  let ?pix = "prog (a_sdsu s)"
  obtain s1 where 1: "get_readout_progress w fd s = Some (?pix, s1)" "reading dma N img good p s0 old s1"
      "prog (a_sdsu s1) = ?pix" "lag (a_sdsu s1) = lag (a_sdsu s)"
    using reading_progress [OF c] i by blast
  have g1: "good (a_sdsu s1) (a_mem s1)" using 1(2) by (simp add: reading_defs)
  define s2 where "s2 = (if ?pix = prev then w_usleep w 10000 s1 else s1)"
  have r2: "reading dma N img good p s0 old s2"
    using 1(2) reading_sleep [OF c 1(2) _ ap] i by (simp add: s2_def)
  then have g2: "good (a_sdsu s2) (a_mem s2)" by (simp add: reading_defs)
  have p2: "?pix \<le> prog (a_sdsu s2)" using cameraD(7) [OF c g1, of 10000] 1(3) by (auto simp: s2_def)
  have l2: "lag (a_sdsu s2) < lag (a_sdsu s)" if "?pix = prev" "prog (a_sdsu s2) = ?pix"
    using cameraD(8) [OF c g1] that i 1(3,4) by (simp add: s2_def)
  obtain old' s' where s': "take_pixels N (2 * N) (k, old) ?pix s2 = Some ((if ?pix = N then k + 1 else k, old'), s')"
      "reading dma N img good p s0 old' s'" "a_sdsu s' = a_sdsu s2" "0 \<le> old'" "old' \<le> ?pix" "?pix = N \<longrightarrow> old' = N"
    using take_reading [OF c r2 ap, of ?pix k] p2 i by auto
  have "\<not> (?pix = prev \<and> tout > 3000)" "0 \<le> ?pix" using i by auto
  then have eq: "read_turn w fd N (2 * N) v s = Some (Inr (if ?pix = N then k + 1 else k, old', if ?pix = prev then tout + 1 else 0, ?pix), s')"
    using 1(1) s'(1) by (cases "?pix = prev") (simp_all add: v read_turn_def s2_def Let_def not_less [symmetric] del: not_less)
  have N: "?pix \<le> N" "prog (a_sdsu s2) \<le> N" "lag (a_sdsu s2) \<le> 3000"
    using cameraD(1) [OF c g1] cameraD(1) [OF c g2] 1(3) by simp_all
  show ?thesis
  proof (cases "?pix = N")
    case True
    then show ?thesis using eq s' i N p2 by (simp add: v)
  next
    case False
    have "distance N prog lag (k, old', t, ?pix) s' < distance N prog lag v s" for t
    proof (cases "prog (a_sdsu s2) = ?pix")
      case True
      then show ?thesis using l2 1(4) s'(3) by (cases "?pix = prev") (auto simp: distance_def v s2_def)
    next
      case False
      then have "nat (N - prog (a_sdsu s2)) + 1 \<le> nat (N - ?pix)" using p2 N by simp
      then have "nat (N - prog (a_sdsu s2)) * 4000 + 4000 \<le> nat (N - ?pix) * 4000" by simp
      moreover have "distance N prog lag (k, old', t, ?pix) s' \<le> nat (N - prog (a_sdsu s2)) * 4000 + lag (a_sdsu s2) + 1"
        using s'(3) by (simp add: distance_def)
      moreover have "nat (N - ?pix) * 4000 \<le> distance N prog lag v s" by (simp add: distance_def)
      ultimately show ?thesis using N(3) by linarith
    qed
    moreover have "(if ?pix = prev then tout + 1 else 0) + int (lag (a_sdsu s2)) \<le> 3000" if "?pix = prog (a_sdsu s2)"
    proof (cases "?pix = prev")
      case True
      have "tout + int (lag (a_sdsu s)) \<le> 3000" using i True by simp
      then show ?thesis using l2 [OF True that [symmetric]] True by simp
    qed (use N in simp)
    ultimately show ?thesis using False eq s' i N p2 by (simp add: under_way_def)
  qed
qed

lemma read_loop_reading:
  assumes c: "camera w fd dma N img good prog lag" and ap: "clear_of p dma N"
  shows "under_way dma N img p good prog lag s0 v s \<Longrightarrow>
    \<exists>s'. read_loop w fd N (2 * N) v s = Some (OK, s') \<and> reading dma N img good p s0 N s'"
proof (induction "distance N prog lag v s" arbitrary: v s rule: less_induct)
  case less
  have l: "fst v \<le> a_num_reads s" using less.prems by (auto simp: under_way_def reading_defs)
  obtain v' s' where t: "read_turn w fd N (2 * N) v s = Some (Inr v', s')"
    and d: "fst v' = a_num_reads s0 + 1 \<and> reading dma N img good p s0 N s'
      \<or> under_way dma N img p good prog lag s0 v' s' \<and> distance N prog lag v' s' < distance N prog lag v s"
    using read_turn_reading [OF c ap less.prems] by blast
  from d show ?case
  proof
    assume f: "fst v' = a_num_reads s0 + 1 \<and> reading dma N img good p s0 N s'"
    then have "read_loop w fd N (2 * N) v' s' = Some (OK, s')"
      by (subst read_loop.simps) (simp add: reading_defs)
    then show ?thesis using f l t by (subst read_loop.simps) simp
  next
    assume u: "under_way dma N img p good prog lag s0 v' s' \<and> distance N prog lag v' s' < distance N prog lag v s"
    then show ?thesis using less.hyps [of v' s'] l t by (subst read_loop.simps) simp
  qed
qed

section \<open>A frame, from the caller's buffer to the caller\<close>

text \<open>The module is set up for 16 bit pixels and one frame in the memory at \<open>dma\<close>.\<close>

definition set_up :: "int \<Rightarrow> 'd astro \<Rightarrow> bool" where
  "set_up dma s \<longleftrightarrow> a_tot_pix_rec s = 0 \<and> a_framePtr s = dma \<and> a_highmemPtr s = dma \<and> a_framesPerBuffer s = 1
   \<and> a_framesCounter s = 0 \<and> a_bytes_pp s = 2 \<and> a_buff_size s = 65536 \<and> length (a_frame s) = 1025"

definition delivered :: "int \<Rightarrow> int \<Rightarrow> int \<Rightarrow> (int \<Rightarrow> byte) \<Rightarrow> mem \<Rightarrow> mem \<Rightarrow> bool" where
  "delivered dma N p img m m' \<longleftrightarrow> (\<forall>i. 0 \<le> i \<and> i < 2 * N \<longrightarrow> m' (p + i) = img i)
   \<and> (\<forall>a. (a < dma \<or> dma + 2 * N \<le> a) \<and> (a < p \<or> p + 2 * N \<le> a) \<longrightarrow> m' a = m a)"

lemma chk_buffer_set:
  assumes "\<And>t. snd (w_clock w t) = t" "a_next_imptr s \<noteq> 0"
  shows "chk_buffer w s = Some (OK, s)"
  using assms by (simp add: chk_buffer_def split_beta chk_loop.simps [of w _ _ s])

lemma begin_frame_in_table:
  assumes "length (a_frame s) = 1025" "0 \<le> a_fmi s" "a_fmi s < 1024"
  shows "begin_frame p s = Some (s\<lparr>a_fmi := a_fmi s + 1,
    a_frame := (a_frame s)[nat (a_fmi s + 1) := (a_frame s ! nat (a_fmi s + 1))\<lparr>fm_ptr := p, fm_status := FM_READING\<rparr>]\<rparr>)"
  using assms by (simp add: begin_frame_def bump_def set_frame_def Let_def)

lemma read_frame_delivers:
  assumes c: "camera w fd dma N img good prog lag" and ap: "clear_of p dma N" and N: "0 < N"
    and clk: "\<And>t. snd (w_clock w t) = t" and s: "set_up dma s" "good (a_sdsu s) (a_mem s)" "a_pix_per_image s = N"
    and nx: "a_next_imptr s = p" "p \<noteq> 0" and f: "0 \<le> a_fmi s" "a_fmi s < 1024"
  shows "\<exists>s'. read_frame w fd N (2 * N) (a_num_reads s) s = Some (OK, s') \<and> set_up dma s' \<and> good (a_sdsu s') (a_mem s')
    \<and> a_pix_per_image s' = N \<and> delivered dma N p img (a_mem s) (a_mem s') \<and> same_plan (s\<lparr>a_fmi := a_fmi s + 1\<rparr>) s'
    \<and> (\<exists>g. get_frame (a_fmi s + 1) s' = Some g \<and> fm_ptr g = p \<and> fm_status g = FM_OK)"
proof -
  have len: "length (a_frame s) = 1025" using s(1) by (simp add: set_up_def)
  define s0 where "s0 = s\<lparr>a_fmi := a_fmi s + 1,
    a_frame := (a_frame s)[nat (a_fmi s + 1) := (a_frame s ! nat (a_fmi s + 1))\<lparr>fm_ptr := p, fm_status := FM_READING\<rparr>],
    a_next_imptr := 0\<rparr>"
  have b: "begin_frame p s = Some s1 \<Longrightarrow> s1\<lparr>a_next_imptr := 0\<rparr> = s0" for s1
    using begin_frame_in_table [OF len f] by (simp add: s0_def)
  have s1: "begin_frame p s \<noteq> None" using begin_frame_in_table [OF len f] by simp
  have sp0: "same_plan (s\<lparr>a_fmi := a_fmi s + 1\<rparr>) s0" by (simp add: s0_def same_plan_def)
  have "reading dma N img good p s0 0 s0"
    using s f len by (auto simp: reading_defs s0_def set_up_def get_frame_def)
  then obtain s2 where 2: "wait_start w fd 30000 s0 = Some s2" "reading dma N img good p s0 0 s2"
    using reading_wait [OF c less_imp_le [OF N] ap, of s0 s0 30000] by blast
  have r3: "reading dma N img good p s0 0 (s2\<lparr>a_bufs_read := 0\<rparr>)" by (rule reading_bufs [OF 2(2)])
  then have g3: "good (a_sdsu s2) (a_mem s2)" by (simp add: reading_def)
  have nr: "a_num_reads s0 = a_num_reads s" by (simp add: s0_def)
  have "under_way dma N img p good prog lag s0 (a_num_reads s, 0, 0, 0) (s2\<lparr>a_bufs_read := 0\<rparr>)"
    using r3 N cameraD(1) [OF c g3] nr by (auto simp: under_way_def)
  then obtain s4 where 4: "read_loop w fd N (2 * N) (a_num_reads s, 0, 0, 0) (s2\<lparr>a_bufs_read := 0\<rparr>) = Some (OK, s4)"
      "reading dma N img good p s0 N s4"
    using read_loop_reading [OF c ap] by blast
  obtain g where g: "get_frame (a_fmi s0) s4 = Some g" "fm_ptr g = p" "a_fmi s4 = a_fmi s0" "length (a_frame s4) = 1025"
    using 4(2) len by (auto simp: reading_defs s0_def)
  define s5 where "s5 = s4\<lparr>a_frame := (a_frame s4)[nat (a_fmi s0) := g\<lparr>fm_status := FM_OK\<rparr>]\<rparr>"
  have 5: "set_status FM_OK s4 = Some s5"
    using g by (auto simp: set_status_def set_frame_def s5_def get_frame_def split: if_splits)
  have "read_frame w fd N (2 * N) (a_num_reads s) s = Some (OK, s5)"
    using s1 b 2(1) 4(1) 5 chk_buffer_set [of w s, OF clk] nx by (auto simp: read_frame_def)
  moreover have "delivered dma N p img (a_mem s) (a_mem s5)"
    using 4(2) by (simp add: delivered_def reading_def s5_def s0_def)
  moreover have "set_up dma s5" "good (a_sdsu s5) (a_mem s5)" "a_pix_per_image s5 = N" using 4(2) g(4) by (simp_all add: set_up_def reading_def s5_def)
  moreover have "same_plan (s\<lparr>a_fmi := a_fmi s + 1\<rparr>) s5" using 4(2) by (intro same_plan_trans [OF sp0]) (simp add: reading_defs s5_def)
  moreover have "get_frame (a_fmi s + 1) s5 = Some (g\<lparr>fm_status := FM_OK\<rparr>)"
    using g f by (simp add: s5_def get_frame_def s0_def)
  ultimately show ?thesis using g(2) by auto
qed

lemma npix_two: "0 < N \<Longrightarrow> N < 2 ^ 23 \<Longrightarrow> f32_quot (2 * N) 2 = Some N"
  by (subst f32_quot_exact) simp_all

lemma readNframes_delivers:
  assumes c: "camera w fd dma N img good prog lag" and ap: "clear_of p dma N" and N: "0 < N" "N < 2 ^ 23"
    and clk: "\<And>t. snd (w_clock w t) = t" and s: "set_up dma s" "good (a_sdsu s) (a_mem s)"
    and nx: "a_next_imptr s = p" "p \<noteq> 0" and f: "0 \<le> a_fmi s" "a_fmi s < 1024"
  shows "\<exists>s'. readNframes w fd 1 (2 * N) s = Some (OK, s') \<and> good (a_sdsu s') (a_mem s')
    \<and> delivered dma N p img (a_mem s) (a_mem s') \<and> same_plan (s\<lparr>a_fmi := a_fmi s + 1, a_num_reads := 1\<rparr>) s'
    \<and> (\<exists>g. get_frame (a_fmi s + 1) s' = Some g \<and> fm_ptr g = p \<and> fm_status g = FM_OK)"
proof -
  let ?s = "s\<lparr>a_pix_per_image := N, a_num_reads := 0\<rparr>"
  have "set_up dma ?s" using s(1) by (simp add: set_up_def)
  then obtain s' g where r: "read_frame w fd N (2 * N) 0 ?s = Some (OK, s')" "good (a_sdsu s') (a_mem s')"
      "delivered dma N p img (a_mem s) (a_mem s')" "same_plan (?s\<lparr>a_fmi := a_fmi s + 1\<rparr>) s'"
      "get_frame (a_fmi s + 1) s' = Some g" "fm_ptr g = p" "fm_status g = FM_OK"
    using read_frame_delivers [OF c ap N(1) clk, of ?s] s(2) nx f by auto
  have 1: "nat 1 = Suc 0" by simp
  have p1: "s\<lparr>a_pix_per_image := N, a_num_reads := 0\<rparr> = ?s" by simp
  have "readNframes w fd 1 (2 * N) s = Some (OK, s'\<lparr>a_num_reads := 1\<rparr>)"
    using s(1) r(1) npix_two [OF N] by (simp add: readNframes_def set_up_def 1)
  moreover have "same_plan (s\<lparr>a_fmi := a_fmi s + 1, a_num_reads := 1\<rparr>) (s'\<lparr>a_num_reads := 1\<rparr>)"
    using r(4) by (simp add: same_plan_def)
  moreover have "get_frame (a_fmi s + 1) (s'\<lparr>a_num_reads := 1\<rparr>) = Some g" using r(5) by simp
  ultimately show ?thesis using r(2,3,6,7) by auto
qed

section \<open>A whole exposure\<close>

lemma get_exp_time_update [simp]: "get_exp_time (s\<lparr>a_num_reads := k\<rparr>) = get_exp_time s"
  by (simp add: get_exp_time_def)

lemma delivered_later:
  assumes "delivered dma N p img m m'" "clear_of p dma N" "\<And>a. a < dma \<or> dma + 2 * N \<le> a \<Longrightarrow> m'' a = m' a"
  shows "delivered dma N p img m m''"
proof -
  have "m'' (p + i) = img i" if "0 \<le> i" "i < 2 * N" for i
  proof -
    have "p + i < dma \<or> dma + 2 * N \<le> p + i" using that assms(2) by (auto simp: clear_of_def)
    then show ?thesis using that assms(1,3) by (simp add: delivered_def)
  qed
  then show ?thesis using assms(1,3) by (simp add: delivered_def)
qed

text \<open>What happens in a sleep after a readout.\<close>

lemma delay_after:
  assumes c: "camera w fd dma N img good prog lag" and g: "good (a_sdsu s) (a_mem s)"
    and d: "delivered dma N p img m (a_mem s)" "clear_of p dma N" and f: "get_frame (a_fmi s) s = Some g"
  shows "same_plan s (delay w k s) \<and> delivered dma N p img m (a_mem (delay w k s)) \<and> get_frame (a_fmi s) (delay w k s) = Some g"
proof (cases "k > 0")
  case True
  have "undisturbed dma N s (w_usleep w k s)" by (rule cameraD(5) [OF c g])
  then show ?thesis using True f delivered_later [OF d, of "a_mem (w_usleep w k s)"] by (auto simp: delay_def undisturbed_def)
next
  case False
  then show ?thesis using d(1) f by (simp add: delay_def same_plan_def)
qed

text \<open>An optical image with a short integration, from the start of the controller to the end of the readout.\<close>

lemma optical_image_delivers:
  assumes c: "camera w fd dma N img good prog lag" and ap: "clear_of p dma N" and N: "0 < N" "N < 2 ^ 23"
    and clk: "\<And>t. snd (w_clock w t) = t"
    and s: "a_highmemPtr s = dma" "a_framesPerBuffer s = 1" "a_bytes_pp s = 2" "a_buff_size s = 65536" "length (a_frame s) = 1025"
      "a_UTShut s \<noteq> []" "\<not> a_cont_read s" "\<not> a_stop_exposure s" "a_iniexpdelay s \<le> 0"
    and nx: "a_next_imptr s = p" "p \<noteq> 0"
    and b: "a_npics s = 1" "a_imi s = 0" "a_fmi s = 0" "a_images_done s = 0" "\<not> a_stop_sequence s" "\<not> a_discard_coadd s"
      "get_exp_time s \<le> EXP_TIME_BREAK"
    and go: "start_exposure fd (a_sdsu s) = Some (OK, d)" "good d (a_mem s)"
  shows "\<exists>s' g. optical_image w fd (2 * N) t False 1 s = Some (Inr (), s')
    \<and> delivered dma N p img (a_mem s) (a_mem s') \<and> a_npics s' = 0 \<and> \<not> a_stop_sequence s' \<and> \<not> a_discard_coadd s'
    \<and> a_autoidle s' = a_autoidle s \<and> a_images_done s' = 1 \<and> a_fmi s' = 1 \<and> get_frame 1 s' = Some g \<and> fm_ptr g = p"
proof -
  define s1 where "s1 = (init_cont_read s)\<lparr>a_npics := 0, a_UTShut := (a_UTShut s)[0 := w_UT w ((init_cont_read s)\<lparr>a_npics := 0\<rparr>)]\<rparr>"
  define s2 where "s2 = s1\<lparr>a_sdsu := d, a_errno := w_errno w d (a_errno s), a_images_started := a_images_started s1 + 1\<rparr>"
  define s3 where "s3 = w_usleep w 100000 s2"
  have u: "set_UT (w_UT w ((init_cont_read s)\<lparr>a_npics := 0\<rparr>)) ((init_cont_read s)\<lparr>a_npics := 0\<rparr>) = Some s1"
    using s(6) b(2) by (simp add: set_UT_def s1_def init_cont_read_def)
  have st: "try_start w fd 0 s1 = Some (Inr (), s1\<lparr>a_sdsu := d, a_errno := w_errno w d (a_errno s)\<rparr>)"
    using go(1) by (simp add: try_start_def dhe_call_def s1_def init_cont_read_def)
  have up: "set_up dma s2" using s by (simp add: s2_def s1_def set_up_def init_cont_read_def)
  have g2: "good (a_sdsu s2) (a_mem s2)" using go(2) by (simp add: s2_def s1_def init_cont_read_def)
  have und: "undisturbed dma N s2 s3" and g3: "good (a_sdsu s3) (a_mem s3)"
    unfolding s3_def by (rule cameraD(5,6) [OF c g2])+
  define s4 where "s4 = s3\<lparr>a_num_reads := 0, a_exp_prog := get_exp_time s3, a_detstatus := ST_READ\<rparr>"
  have sp: "same_plan s2 s3" and mem: "\<And>a. a < dma \<or> dma + 2 * N \<le> a \<Longrightarrow> a_mem s3 a = a_mem s2 a"
    using und by (auto simp: undisturbed_def)
  have ex: "get_exp_time s3 = get_exp_time s" using sp by (simp add: get_exp_time_def same_plan_def s2_def s1_def init_cont_read_def)
  have up4: "set_up dma s4" using up und by (simp add: set_up_def undisturbed_def s4_def)
  have "a_next_imptr s4 = p" using und nx by (simp add: undisturbed_def s4_def s2_def s1_def init_cont_read_def)
  moreover have f4: "a_fmi s4 = 0" using sp b(3) by (simp add: same_plan_def s4_def s2_def s1_def init_cont_read_def)
  moreover have "good (a_sdsu s4) (a_mem s4)" using g3 by (simp add: s4_def)
  ultimately obtain s5 g where r: "readNframes w fd 1 (2 * N) s4 = Some (OK, s5)" "good (a_sdsu s5) (a_mem s5)"
      "delivered dma N p img (a_mem s4) (a_mem s5)" "same_plan (s4\<lparr>a_fmi := 1, a_num_reads := 1\<rparr>) s5"
      "get_frame 1 s5 = Some g" "fm_ptr g = p"
    using readNframes_delivers [OF c ap N clk up4 _ _ nx(2)] f4 by auto
  define s6 where "s6 = s5\<lparr>a_images_done := a_images_done s5 + 1, a_imi := bump (a_imi s5), a_exp_prog := 0\<rparr>"
  define s7 where "s7 = delay w (a_expdelay s6) s6"
  have d6: "delivered dma N p img (a_mem s) (a_mem s6)"
    using r(3) mem by (auto simp: delivered_def s6_def s4_def s2_def s1_def init_cont_read_def)
  have f6: "a_fmi s6 = 1" "get_frame 1 s6 = Some g" using r(4,5) by (simp_all add: same_plan_def s6_def)
  have g6: "good (a_sdsu s6) (a_mem s6)" using r(2) by (simp add: s6_def)
  have 7: "same_plan s6 s7" "delivered dma N p img (a_mem s) (a_mem s7)" "get_frame 1 s7 = Some g"
    using delay_after [OF c g6 d6 ap, of g "a_expdelay s6"] f6 by (simp_all add: s7_def)
  have np: "to_u32 (1 - 1) = 0" by (simp add: to_u32_def)
  have "optical_image w fd (2 * N) t False 1 s = Some (Inr (), s7)"
    using u st r(1) ex b s(7-9) np
    by (simp add: optical_image_def Let_def init_cont_read_def delay_def read_exp_time_def read_out_def
        s7_def s6_def s4_def s3_def s2_def)
  moreover have "a_npics s7 = 0 \<and> \<not> a_stop_sequence s7 \<and> \<not> a_discard_coadd s7 \<and> a_autoidle s7 = a_autoidle s \<and> a_images_done s7 = 1
      \<and> a_fmi s7 = 1"
    using 7(1) r(4) sp b by (simp add: same_plan_def s6_def s4_def s2_def s1_def init_cont_read_def)
  ultimately show ?thesis using 7(2,3) r(6) by blast
qed

text \<open>C10: A short exposure delivers the image: when the controller takes the exposure time and starts, and the detector
  is read out into the memory of the interface board as the contract \<open>camera\<close> says, then \<open>expose\<close> returns OK,
  the image is in the buffer of the caller, no other memory outside the two has changed, one image is counted,
  and the frame that the poller looks at is that buffer, at the end of the sequence.\<close>

theorem exposure_delivers_image:
  fixes s :: "'d astro" and dma N p :: int
  assumes "camera w fd dma N img good prog lag" and "clear_of p dma N" and "0 < N" "N < 2 ^ 23"
    and "\<And>t. snd (w_clock w t) = t"
    and "a_highmemPtr s = dma" "a_framesPerBuffer s = 1" "a_bytes_pp s = 2" "a_buff_size s = 65536" "length (a_frame s) = 1025"
      "a_UTShut s \<noteq> []" "\<not> a_cont_read s" "\<not> a_stop_exposure s" "a_iniexpdelay s \<le> 0" "a_autoidle s"
    and "a_next_imptr s = p" "p \<noteq> 0" and "0 \<le> t" "t \<le> EXP_TIME_BREAK"
    and "set_exposure_time fd t (a_sdsu s) = Some (r, d)" "0 \<le> r"
    and "start_exposure fd d = Some (OK, d')" "good d' (a_mem s)"
  shows "\<exists>s' g. expose w fd 0 1 (2 * N) t coadds 1 sur False s = Some (OK, s')
    \<and> delivered dma N p img (a_mem s) (a_mem s') \<and> a_images_done s' = 1 \<and> a_detstatus s' = ST_IDLE
    \<and> a_fmi s' = 1 \<and> get_frame 1 s' = Some g \<and> fm_ptr g = p \<and> fm_status g = FM_RDENDED"
proof -
  note A = assms(6-19)
  define s1 where "s1 = (begin_exposure 1 (s\<lparr>a_ufast_read := False\<rparr>))\<lparr>a_detstatus := (if t > 0 then ST_EXPO else ST_READ)\<rparr>"
  define s2 where "s2 = s1\<lparr>a_sdsu := d, a_errno := w_errno w d (a_errno s), a_exposure_time := t\<rparr>"
  have tu: "to_u32 t = t" "to_i32 t = t" using A(13,14) by (simp_all add: to_u32_def to_i32_def)
  note b = s2_def s1_def begin_exposure_def clear_all_def clear_discards_def clear_counters_def clear_exp_vals_def
  have len: "length (a_frame s2) = 1025" "a_UTShut s2 \<noteq> []" using A by (simp_all add: b)
  have fields: "a_highmemPtr s2 = dma" "a_framesPerBuffer s2 = 1" "a_bytes_pp s2 = 2" "a_buff_size s2 = 65536"
      "\<not> a_cont_read s2" "\<not> a_stop_exposure s2" "a_iniexpdelay s2 \<le> 0" "a_autoidle s2" "a_next_imptr s2 = p"
      "a_npics s2 = 1" "a_imi s2 = 0" "a_fmi s2 = 0" "a_images_done s2 = 0" "\<not> a_stop_sequence s2" "\<not> a_discard_coadd s2"
      "a_mem s2 = a_mem s" "a_sdsu s2 = d"
    using A by (simp_all add: b to_u32_def)
  have ex: "get_exp_time s2 \<le> EXP_TIME_BREAK" using A(14) tu by (simp add: get_exp_time_def s2_def)
  have go: "start_exposure fd (a_sdsu s2) = Some (OK, d')" "good d' (a_mem s2)" using assms(22,23) fields by simp_all
  obtain s3 g where 3: "optical_image w fd (2 * N) t False 1 s2 = Some (Inr (), s3)"
      "delivered dma N p img (a_mem s2) (a_mem s3)" "a_npics s3 = 0" "\<not> a_stop_sequence s3" "\<not> a_discard_coadd s3"
      "a_autoidle s3" "a_images_done s3 = 1" "a_fmi s3 = 1" "get_frame 1 s3 = Some g" "fm_ptr g = p"
    using optical_image_delivers [OF assms(1-5) fields(1-4) len fields(5-7) fields(9) A(12) fields(10-15) ex go, of t] fields(8)
    by auto
  define s4 where "s4 = clear_exp_vals (s3\<lparr>a_frame := (a_frame s3)[1 := g\<lparr>fm_status := FM_RDENDED\<rparr>]\<rparr>)"
  have l: "Suc 0 < length (a_frame s3)" "a_frame s3 ! Suc 0 = g" using 3(9) by (simp_all add: get_frame_def split: if_splits)
  have st: "set_status FM_RDENDED s3 = Some (s3\<lparr>a_frame := (a_frame s3)[1 := g\<lparr>fm_status := FM_RDENDED\<rparr>]\<rparr>)"
    using l 3(8) by (simp add: set_status_def set_frame_def)
  have "optical_loop w fd (2 * N) t False 1 s3 = Some (OK, s4)"
    using st 3(3-6) by (subst optical_loop.simps) (simp add: s4_def end_sequence_def clear_exp_vals_def)
  then have loop: "optical_loop w fd (2 * N) t False 1 s2 = Some (OK, s4)"
    using 3(1) fields(10,14) by (subst optical_loop.simps) simp
  have "set_exp_time w fd t s1 = Some (r, s2)"
    using assms(20,21) tu by (simp add: set_exp_time_def dhe_call_def b)
  moreover have "(begin_exposure 1 (s\<lparr>a_ufast_read := False\<rparr>))
      \<lparr>a_detstatus := (if t > 0 then ST_EXPO else ST_READ),
       a_npics := (if a_npics (begin_exposure 1 (s\<lparr>a_ufast_read := False\<rparr>)) = 0 then 1 else a_npics (begin_exposure 1 (s\<lparr>a_ufast_read := False\<rparr>)))\<rparr> = s1"
    by (simp add: b to_u32_def)
  ultimately have "expose_optical w fd (2 * N) t 1 False 1 (s\<lparr>a_ufast_read := False\<rparr>) = Some (OK, s4)"
    using loop assms(21) A(13) by (simp add: expose_optical_def Let_def max_absorb2)
  moreover have "f32_quot (2 * N) (a_bytes_pp s) = Some N" using npix_two [OF assms(3,4)] A(3) by simp
  ultimately have "expose w fd 0 1 (2 * N) t coadds 1 sur False s = Some (OK, s4)"
    by (simp add: expose_def)
  moreover have "get_frame 1 s4 = Some (g\<lparr>fm_status := FM_RDENDED\<rparr>)" using l by (simp add: get_frame_def s4_def clear_exp_vals_def)
  ultimately show ?thesis using 3 fields(16) by (auto simp: s4_def clear_exp_vals_def)
qed

text \<open>A detector of three pixels, which come one in each sleep.\<close>

definition demo_img :: "int \<Rightarrow> byte" where
  "demo_img i = of_int (7 * i + 1)"

definition demo_cam :: "int dhe" where
  "demo_cam = no_dhe\<lparr>h_get_progress := Some (\<lambda>fd d. Some (d, d)), h_do_command := Some (\<lambda>fd b c a1 a2 a3 a4 e t d. Some (0, d)),
     h_set_hcvr := Some (\<lambda>fd c e t d. Some (0, d))\<rparr>"

definition demo_sleep :: "int \<Rightarrow> int \<Rightarrow> int astro \<Rightarrow> int astro" where
  "demo_sleep N n s =
     (let k = min N (sd_dev (a_sdsu s) + 1) in
      s\<lparr>a_sdsu := (a_sdsu s)\<lparr>sd_dev := k\<rparr>,
        a_mem := (\<lambda>a. if 1000 \<le> a \<and> a < 1000 + 2 * k then demo_img (a - 1000) else a_mem s a)\<rparr>)"

definition demo_world :: "int \<Rightarrow> int world" where
  "demo_world N = \<lparr>w_usleep = demo_sleep N, w_clock = (\<lambda>s. (0, s)), w_UT = (\<lambda>s. ''now''), w_errno = (\<lambda>d e. e), w_malloc = (\<lambda>n s. 0)\<rparr>"

definition demo_seen :: "int \<Rightarrow> int sdsu \<Rightarrow> mem \<Rightarrow> bool" where
  "demo_seen N d m \<longleftrightarrow> sd_dhe d = demo_cam \<and> 0 \<le> sd_dev d \<and> sd_dev d \<le> N
     \<and> (\<forall>i. 0 \<le> i \<and> i < 2 * sd_dev d \<longrightarrow> m (1000 + i) = demo_img i)"

definition demo_module :: "int astro" where
  "demo_module = (astro_start ((sdsu_start 0)\<lparr>sd_dhe := demo_cam\<rparr>) (\<lambda>_. 0))\<lparr>a_highmemPtr := 1000, a_next_imptr := 100\<rparr>"

lemma demo_camera: "0 \<le> N \<Longrightarrow> camera (demo_world N) 3 1000 N demo_img (demo_seen N) sd_dev (\<lambda>_. 0)"
  by (auto simp: camera_def demo_seen_def demo_cam_def get_read_progress_def drv_def demo_world_def demo_sleep_def Let_def
      undisturbed_def same_plan_def min_def)

lemma exposure_delivers_image_witness:
  "\<exists>s' g. expose (demo_world 3) 3 0 1 6 1500 7 1 2 False demo_module = Some (OK, s')
    \<and> delivered 1000 3 100 demo_img (\<lambda>_. 0) (a_mem s') \<and> a_images_done s' = 1 \<and> a_detstatus s' = ST_IDLE
    \<and> a_fmi s' = 1 \<and> get_frame 1 s' = Some g \<and> fm_ptr g = 100 \<and> fm_status g = FM_RDENDED"
proof -
  let ?d = "(sdsu_start 0)\<lparr>sd_dhe := demo_cam\<rparr> :: int sdsu"
  have 1: "clear_of 100 1000 3" by (simp add: clear_of_def)
  have 2: "set_exposure_time 3 1500 (a_sdsu demo_module) = Some (0, ?d)" "start_exposure 3 ?d = Some (OK, ?d)"
    by (simp_all add: demo_module_def astro_start_def set_exposure_time_def start_exposure_def do_command_def drv_def demo_cam_def)
  have 3: "demo_seen 3 ?d (a_mem demo_module)" by (auto simp: demo_seen_def sdsu_start_def)
  have 4: "a_mem demo_module = (\<lambda>_. 0)" by (simp add: demo_module_def astro_start_def)
  have 5: "snd (w_clock (demo_world 3) t) = t" for t by (simp add: demo_world_def)
  show ?thesis
    using exposure_delivers_image [OF demo_camera 1 _ _ 5 _ _ _ _ _ _ _ _ _ _ _ _ _ _ 2(1) _ 2(2) 3, of 7 2]
    by (simp add: 4) (simp add: demo_module_def astro_start_def)
qed

section \<open>Failures\<close>

text \<open>The index of the frame table passes through all values up to 1025, one more than the table has.\<close>

lemma bump_turns: "(bump ^^ n) 0 = int (n mod 1026)"
proof (induction n)
  case (Suc n)
  have "n mod 1026 < 1026" by simp
  then have "bump (int (n mod 1026)) = int (if Suc (n mod 1026) = 1026 then 0 else Suc (n mod 1026))"
    by (auto simp: bump_def)
  then show ?case using Suc.IH by (simp add: mod_Suc)
qed simp

text \<open>The frame table is overrun: of 1026 frames read one after the other, the 1025th is written behind the end of the
  table of 1025 entries, and no other.\<close>

theorem frame_table_overrun:
  "length (a_frame s) = 1025 \<Longrightarrow> a_fmi s = (bump ^^ n) 0 \<Longrightarrow> begin_frame p s = None \<longleftrightarrow> n mod 1026 = 1024"
proof -
  assume a: "length (a_frame s) = 1025" "a_fmi s = (bump ^^ n) 0"
  have "n mod 1026 < 1026" by simp
  then show "begin_frame p s = None \<longleftrightarrow> n mod 1026 = 1024"
    using a by (auto simp: begin_frame_def set_frame_def bump_turns bump_def Let_def)
qed

lemma frame_table_overrun_witness:
  "begin_frame 100 (demo_module\<lparr>a_fmi := 1024\<rparr>) = None \<and> begin_frame 100 (demo_module\<lparr>a_fmi := 1023\<rparr>) \<noteq> None"
proof -
  have "(bump ^^ 1024) 0 = (1024 :: int)" "(bump ^^ 1023) 0 = (1023 :: int)" unfolding bump_turns by simp_all
  then show ?thesis
    using frame_table_overrun [of "demo_module\<lparr>a_fmi := 1024\<rparr>" 1024 100] frame_table_overrun [of "demo_module\<lparr>a_fmi := 1023\<rparr>" 1023 100]
    by (simp add: demo_module_def astro_start_def)
qed

subsection \<open>A detector that does not answer\<close>

text \<open>No pixel ever arrives; other threads leave the readout alone.\<close>

definition silent :: "'d world \<Rightarrow> int \<Rightarrow> ('d sdsu \<Rightarrow> bool) \<Rightarrow> bool" where
  "silent w fd good \<longleftrightarrow>
     (\<forall>d. good d \<longrightarrow> (\<exists>d'. get_read_progress fd d = Some (0, d') \<and> good d') \<and> abort_readout fd d \<noteq> None)
   \<and> (\<forall>s n. good (a_sdsu s) \<longrightarrow> good (a_sdsu (w_usleep w n s)) \<and> a_tot_pix_rec (w_usleep w n s) = a_tot_pix_rec s
        \<and> a_buff_size (w_usleep w n s) = a_buff_size s \<and> a_num_reads (w_usleep w n s) = a_num_reads s
        \<and> a_fmi (w_usleep w n s) = a_fmi s \<and> length (a_frame (w_usleep w n s)) = length (a_frame s)
        \<and> map_option fm_status (get_frame (a_fmi s) (w_usleep w n s)) = map_option fm_status (get_frame (a_fmi s) s))"

definition waiting :: "('d sdsu \<Rightarrow> bool) \<Rightarrow> int \<Rightarrow> int \<Rightarrow> 'd astro \<Rightarrow> bool" where
  "waiting good k i s \<longleftrightarrow> good (a_sdsu s) \<and> a_tot_pix_rec s = 0 \<and> 0 < a_buff_size s \<and> a_num_reads s = k \<and> a_fmi s = i
   \<and> 0 \<le> i \<and> i < 1025 \<and> length (a_frame s) = 1025 \<and> map_option fm_status (get_frame i s) = Some FM_READING"

lemma waiting_sleep:
  assumes "silent w fd good" "waiting good k i s"
  shows "waiting good k i (w_usleep w n s)"
proof -
  have g: "good (a_sdsu s)" "a_fmi s = i" "map_option fm_status (get_frame i s) = Some FM_READING"
    using assms(2) unfolding waiting_def by blast+
  note h = assms(1) [unfolded silent_def, THEN conjunct2, rule_format, OF g(1), of n]
  have "map_option fm_status (get_frame i (w_usleep w n s)) = Some FM_READING" using h g(2,3) by metis
  then show ?thesis using h assms(2) unfolding waiting_def by metis
qed

lemma waiting_progress:
  assumes "silent w fd good" "waiting good k i s"
  shows "\<exists>s'. get_readout_progress w fd s = Some (0, s') \<and> waiting good k i s'"
proof -
  obtain d where "get_read_progress fd (a_sdsu s) = Some (0, d)" "good d" using assms by (auto simp: silent_def waiting_def)
  then show ?thesis using assms(2) by (simp add: get_readout_progress_def dhe_call_def waiting_def)
qed

lemma waiting_buf_read:
  assumes "waiting good k i s"
  shows "\<exists>s'. set_frame i (\<lambda>f. f\<lparr>fm_buf_read := b\<rparr>) s = Some s' \<and> waiting good k i s'"
  using assms by (auto simp: waiting_def set_frame_def get_frame_def)

lemma waiting_start: "silent w fd good \<Longrightarrow> waiting good k i s \<Longrightarrow> \<exists>s'. wait_start w fd n s = Some s' \<and> waiting good k i s'"
proof (induction n arbitrary: s)
  case 0
  then show ?case using waiting_progress [OF 0] by auto
next
  case (Suc n)
  obtain s1 where 1: "get_readout_progress w fd s = Some (0, s1)" "waiting good k i s1" using waiting_progress [OF Suc.prems] by blast
  show ?case
    using 1 Suc.IH [OF Suc.prems(1) waiting_sleep [OF Suc.prems(1) 1(2)], of 1000] by (cases "a_pciPixCounter s1 = 0") auto
qed

lemma abort_read_waiting:
  assumes "silent w fd good" "waiting good k i s"
  shows "\<exists>r s'. abort_read w fd (s\<lparr>a_errno := e\<rparr>) = Some (r, s') \<and> map_option fm_status (get_frame i s') = Some FM_READING
    \<and> a_fmi s' = i"
  using assms by (auto simp: silent_def waiting_def abort_read_def dhe_call_def)

lemma waiting_loop:
  assumes w: "silent w fd good" and N: "0 < N"
  shows "waiting good k i s \<Longrightarrow> tout + int j = 3001 \<Longrightarrow>
    \<exists>s'. read_loop w fd N bytes (k, 0, tout, 0) s = Some (- ETIME, s') \<and> map_option fm_status (get_frame i s') = Some FM_READING
      \<and> a_fmi s' = i"
proof (induction j arbitrary: s tout)
  case 0
  obtain s1 where 1: "get_readout_progress w fd s = Some (0, s1)" "waiting good k i s1" using waiting_progress [OF w 0(1)] by blast
  obtain r s2 where 2: "abort_read w fd ((w_usleep w 10000 s1)\<lparr>a_errno := ETIME\<rparr>) = Some (r, s2)"
      "map_option fm_status (get_frame i s2) = Some FM_READING" "a_fmi s2 = i"
    using abort_read_waiting [OF w waiting_sleep [OF w 1(2)]] by blast
  have "read_turn w fd N bytes (k, 0, tout, 0) s = Some (Inl (- ETIME), s2)"
    using 1(1) 2(1) 0(2) by (simp add: read_turn_def)
  then show ?case using 0(1) 2(2,3) by (subst read_loop.simps) (simp add: waiting_def)
next
  case (Suc j)
  obtain s1 where 1: "get_readout_progress w fd s = Some (0, s1)" "waiting good k i s1"
    using waiting_progress [OF w Suc.prems(1)] by blast
  have 2: "waiting good k i (w_usleep w 10000 s1)" by (rule waiting_sleep [OF w 1(2)])
  obtain s3 where 3: "set_frame i (\<lambda>f. f\<lparr>fm_buf_read := a_bufs_read (w_usleep w 10000 s1)\<rparr>) (w_usleep w 10000 s1) = Some s3"
      "waiting good k i s3"
    using waiting_buf_read [OF 2] by blast
  have "take_pixels N bytes (k, 0) 0 (w_usleep w 10000 s1) = Some ((k, 0), s3)"
    using 2 3(1) N by (simp add: take_pixels_def waiting_def)
  then have "read_turn w fd N bytes (k, 0, tout, 0) s = Some (Inr (k, 0, tout + 1, 0), s3)"
    using 1(1) Suc.prems(2) by (simp add: read_turn_def)
  then show ?case
    using Suc.IH [OF 3(2), of "tout + 1"] Suc.prems by (subst read_loop.simps) (simp add: waiting_def)
qed


definition demo_silent :: "int world" where
  "demo_silent = \<lparr>w_usleep = (\<lambda>n s. s), w_clock = (\<lambda>s. (0, s)), w_UT = (\<lambda>s. ''now''), w_errno = (\<lambda>d e. e), w_malloc = (\<lambda>n s. 0)\<rparr>"


subsection \<open>Stopping\<close>

lemma set_status_total:
  "0 \<le> a_fmi s \<Longrightarrow> a_fmi s < int (length (a_frame s)) \<Longrightarrow>
    set_status st s = Some (s\<lparr>a_frame := (a_frame s)[nat (a_fmi s) := (a_frame s ! nat (a_fmi s))\<lparr>fm_status := st\<rparr>]\<rparr>)"
  by (simp add: set_status_def set_frame_def)

text \<open>All the flags that \<open>stop_all\<close> raises, and nothing that makes the end of the exposure do more than count.\<close>

definition stopped :: "'d astro \<Rightarrow> bool" where
  "stopped s \<longleftrightarrow> a_stop_sequence s \<and> a_stop_coadding s \<and> a_stop_sur s \<and> a_expdelay s \<le> 0 \<and> \<not> a_support_rit s \<and> a_autoidle s
   \<and> 0 \<le> a_fmi s \<and> a_fmi s < int (length (a_frame s))"

lemma stopped_images:
  assumes "stopped s"
  shows "\<exists>s' g. expose_run w fd p At_images s = Some (if a_discard_coadd s then - ECONNABORTED else OK, s')
    \<and> a_sdsu s' = a_sdsu s \<and> a_npics s' = a_npics s \<and> get_frame (a_fmi s) s' = Some g \<and> fm_status g = FM_RDENDED"
  using assms
  by (subst expose_run.simps)
    (simp add: stopped_def expose_step_def images_step_def set_status_total return_from_def end_sequence_def cleared_def clear_all_def
      clear_exp_vals_def get_frame_def nat_less_iff)

lemma stopped_coadds:
  assumes "stopped s"
  shows "\<exists>s' g. expose_run w fd p (At_coadds n) s = Some (if a_discard_coadd s then - ECONNABORTED else OK, s')
    \<and> a_sdsu s' = a_sdsu s \<and> a_npics s' = a_npics s \<and> get_frame (a_fmi s) s' = Some g \<and> fm_status g = FM_RDENDED"
proof -
  let ?s = "clear_exp_vals (s\<lparr>a_images_done := a_images_done s + 1, a_imi := bump (a_imi s)\<rparr>)"
  have "expose_step w fd p (At_coadds n) s = Some (Inr At_images, ?s)"
    using assms by (simp add: expose_step_def coadds_step_def stopped_def delay_def)
  moreover have "stopped ?s" using assms by (simp add: stopped_def clear_exp_vals_def)
  then have "\<exists>s' g. expose_run w fd p At_images ?s = Some (if a_discard_coadd ?s then - ECONNABORTED else OK, s')
      \<and> a_sdsu s' = a_sdsu ?s \<and> a_npics s' = a_npics ?s \<and> get_frame (a_fmi ?s) s' = Some g \<and> fm_status g = FM_RDENDED"
    by (rule stopped_images)
  ultimately show ?thesis by (subst expose_run.simps) (simp add: clear_exp_vals_def)
qed

lemma stopped_samples:
  assumes "stopped s"
  shows "\<exists>s' g. expose_run w fd p (At_samples n m) s = Some (if a_discard_coadd s then - ECONNABORTED else OK, s')
    \<and> a_sdsu s' = a_sdsu s \<and> a_npics s' = a_npics s \<and> get_frame (a_fmi s) s' = Some g \<and> fm_status g = FM_RDENDED"
proof -
  let ?s = "clear_exp_vals (s\<lparr>a_coadds_done := a_coadds_done s + 1\<rparr>)"
  have "expose_step w fd p (At_samples n m) s = Some (Inr (At_coadds n), ?s)"
    using assms by (simp add: expose_step_def samples_step_def stopped_def)
  moreover have "stopped ?s" using assms by (simp add: stopped_def clear_exp_vals_def)
  then have "\<exists>s' g. expose_run w fd p (At_coadds n) ?s = Some (if a_discard_coadd ?s then - ECONNABORTED else OK, s')
      \<and> a_sdsu s' = a_sdsu ?s \<and> a_npics s' = a_npics ?s \<and> get_frame (a_fmi ?s) s' = Some g \<and> fm_status g = FM_RDENDED"
    by (rule stopped_coadds)
  ultimately show ?thesis by (subst expose_run.simps) (simp add: clear_exp_vals_def)
qed



text \<open>The flags are seen by the integration before the readout: it gives up and clears them.  \<open>expose\<close> then finds
  no flag and no \<open>errno\<close> of an abort.\<close>

definition quiet_clock :: "'d world \<Rightarrow> int \<Rightarrow> ('d sdsu \<Rightarrow> bool) \<Rightarrow> int \<Rightarrow> bool" where
  "quiet_clock w fd good t \<longleftrightarrow>
     (\<forall>d. good d \<longrightarrow> (\<exists>d'. read_exposure_time fd d = Some (t, d') \<and> good d' \<and> (\<forall>e. e \<noteq> ECONNABORTED \<longrightarrow> w_errno w d' e \<noteq> ECONNABORTED)))
   \<and> (\<forall>s n. w_usleep w n s = s\<lparr>a_sdsu := a_sdsu (w_usleep w n s), a_mem := a_mem (w_usleep w n s)\<rparr>
        \<and> (good (a_sdsu s) \<longrightarrow> good (a_sdsu (w_usleep w n s))))"

lemma quiet_read:
  assumes "quiet_clock w fd good t" "good (a_sdsu s)" "a_errno s \<noteq> ECONNABORTED"
  shows "\<exists>d e. dhe_call w (read_exposure_time fd) s = Some (t, s\<lparr>a_sdsu := d, a_errno := e\<rparr>) \<and> good d \<and> e \<noteq> ECONNABORTED"
proof -
  obtain d where "read_exposure_time fd (a_sdsu s) = Some (t, d)" "good d" "\<forall>e. e \<noteq> ECONNABORTED \<longrightarrow> w_errno w d e \<noteq> ECONNABORTED"
    using assms(1,2) by (auto simp: quiet_clock_def)
  then show ?thesis using assms(3) by (auto simp: dhe_call_def)
qed

lemma read_exp_time_aborted:
  assumes q: "quiet_clock w fd good t" "good (a_sdsu s)" "a_errno s \<noteq> ECONNABORTED"
    and f: "a_discard_coadd s" "a_stop_sequence s" and t: "get_exp_time s > EXP_TIME_BREAK" "0 \<le> t" "t < get_exp_time s - EXP_TIME_BREAK"
    and i: "0 \<le> a_fmi s" "a_fmi s < int (length (a_frame s))"
  shows "\<exists>s'. read_exp_time w fd s = Some (- ECONNABORTED, s') \<and> \<not> a_discard_coadd s' \<and> \<not> a_stop_sequence s'
    \<and> a_errno s' \<noteq> ECONNABORTED \<and> a_fmi s' = a_fmi s \<and> length (a_frame s') = length (a_frame s)
    \<and> a_images_discarded s' = a_images_discarded s \<and> a_coadds_discarded s' = a_coadds_discarded s"
proof -
  define s0 where "s0 = s\<lparr>a_num_reads := 0, a_detstatus := ST_EXPO, a_exp_prog := 0\<rparr>"
  obtain d0 m where 1: "w_usleep w 100 s0 = s0\<lparr>a_sdsu := d0, a_mem := m\<rparr>" "good d0"
  proof -
    have "good (a_sdsu s0)" using q(2) by (simp add: s0_def)
    then show ?thesis using q(1) that [of "a_mem (w_usleep w 100 s0)" "a_sdsu (w_usleep w 100 s0)"] unfolding quiet_clock_def by blast
  qed
  have e1: "good (a_sdsu (s0\<lparr>a_sdsu := d0, a_mem := m\<rparr>))" "a_errno (s0\<lparr>a_sdsu := d0, a_mem := m\<rparr>) \<noteq> ECONNABORTED"
    using 1(2) q(3) by (simp_all add: s0_def)
  obtain d1 e where 2: "dhe_call w (read_exposure_time fd) (s0\<lparr>a_sdsu := d0, a_mem := m\<rparr>) =
      Some (t, (s0\<lparr>a_sdsu := d0, a_mem := m\<rparr>)\<lparr>a_sdsu := d1, a_errno := e\<rparr>)" "good d1" "e \<noteq> ECONNABORTED"
    using quiet_read [OF q(1) e1] by blast
  define s2 where "s2 = (s0\<lparr>a_sdsu := d0, a_mem := m\<rparr>)\<lparr>a_sdsu := d1, a_errno := e\<rparr>"
  have g: "get_exp_time (s0\<lparr>a_sdsu := d, a_mem := m, a_errno := e\<rparr>) = get_exp_time s" for d e
    by (simp add: s0_def get_exp_time_def)
  have g': "get_exp_time (s\<lparr>a_num_reads := 0\<rparr>) = get_exp_time s" "get_exp_time s2 = get_exp_time s"
    by (simp_all add: s0_def s2_def get_exp_time_def)
  have "wait_reset w fd (Suc n) (s0\<lparr>a_sdsu := d0, a_mem := m\<rparr>) = Some (False, s2)" for n
    using 2(1) t(3) g'(2) by (simp add: s2_def)
  from this [of 1999] have wr: "wait_reset w fd 2000 (s0\<lparr>a_sdsu := d0, a_mem := m\<rparr>) = Some (False, s2)" by (simp only: numeral_eq_Suc) simp
  have "good (a_sdsu s2)" "a_errno s2 \<noteq> ECONNABORTED" using 2 by (simp_all add: s2_def)
  then obtain d3 e3 where 3: "dhe_call w (read_exposure_time fd) s2 = Some (t, s2\<lparr>a_sdsu := d3, a_errno := e3\<rparr>)" "e3 \<noteq> ECONNABORTED"
    using quiet_read [OF q(1)] by blast
  let ?s3 = "s2\<lparr>a_sdsu := d3, a_errno := e3, a_exp_prog := t\<rparr>"
  have fl: "a_discard_coadd ?s3" "a_stop_sequence ?s3" "a_detstatus s2 = ST_EXPO" "0 \<le> a_fmi ?s3" "a_fmi ?s3 < int (length (a_frame ?s3))"
      "a_exp_prog s2 = 0"
    using f i by (simp_all add: s2_def s0_def)
  obtain s4 where 4: "set_status CO_ABORTED ?s3 = Some s4" "length (a_frame s4) = length (a_frame s)" "a_fmi s4 = a_fmi s" "a_errno s4 = e3"
      "a_images_discarded s4 = a_images_discarded s" "a_coadds_discarded s4 = a_coadds_discarded s"
    using set_status_total [OF fl(4,5)] by (simp add: s2_def s0_def)
  have "exp_turn w fd (0, 0, 0) s2 = Some (Inl (- ECONNABORTED), snd (clear_all (- ECONNABORTED) s4))"
    using 3(1) 4(1) fl t(2) by (simp add: exp_turn_def clear_all_def)
  then have "exp_loop w fd (0, 0, 0) s2 = Some (- ECONNABORTED, snd (clear_all (- ECONNABORTED) s4))"
    using t(1) g'(2) fl(6) by (subst exp_loop.simps) simp
  then have "read_exp_time w fd s = Some (- ECONNABORTED, snd (clear_all (- ECONNABORTED) s4))"
    using t(1) g'(1) 1(1) wr by (simp add: read_exp_time_def s0_def del: wait_reset.simps)
  then show ?thesis using 3(2) 4 by (simp add: clear_all_def clear_exp_vals_def)
qed

text \<open>C13: An exposure that is aborted as its integration begins ends with \<open>-ECONNABORTED\<close>, but is accounted for as a failed
  readout: the frame is left in error, an image and no coadd is counted as discarded.\<close>

theorem abort_counted_as_failure:
  assumes "quiet_clock w fd good t" "good (a_sdsu s)" "a_errno s \<noteq> ECONNABORTED" "a_discard_coadd s" "a_stop_sequence s"
    and "\<not> a_stop_sur s" "nsur \<noteq> 0" "a_guide_mode s = 0" "\<not> a_try_stop_sur s" "\<not> a_try_stop_coadding s" "\<not> a_try_stop_next_exp s"
    and "get_exp_time s > EXP_TIME_BREAK" "0 \<le> t" "t < get_exp_time s - EXP_TIME_BREAK" "0 \<le> a_fmi s" "a_fmi s < int (length (a_frame s))"
  shows "\<exists>s' g. expose_run w fd p (At_samples n nsur) s = Some (- ECONNABORTED, s') \<and> get_frame (a_fmi s) s' = Some g \<and> fm_status g = FM_ERROR
    \<and> a_images_discarded s' = a_images_discarded s + 1 \<and> a_coadds_discarded s' = a_coadds_discarded s"
proof -
  obtain s1 where 1: "read_exp_time w fd s = Some (- ECONNABORTED, s1)" "\<not> a_discard_coadd s1" "a_errno s1 \<noteq> ECONNABORTED"
      "a_fmi s1 = a_fmi s" "length (a_frame s1) = length (a_frame s)" "a_images_discarded s1 = a_images_discarded s"
      "a_coadds_discarded s1 = a_coadds_discarded s"
    using read_exp_time_aborted [OF assms(1-5) assms(12-16)] by blast
  let ?s1 = "s1\<lparr>a_images_discarded := a_images_discarded s1 + 1\<rparr>"
  define s2 where "s2 = ?s1\<lparr>a_frame := (a_frame s1)[nat (a_fmi s) := (a_frame s1 ! nat (a_fmi s))\<lparr>fm_status := FM_ERROR\<rparr>]\<rparr>"
  have "set_status FM_ERROR ?s1 = Some s2" using set_status_total [of ?s1 FM_ERROR] 1(4,5) assms(15,16) by (simp add: s2_def)
  then have e: "err_label (- ECONNABORTED) n s1 = Some (Inl (- ECONNABORTED), snd (clear_all (- ECONNABORTED) s2))"
    using 1 by (simp add: err_label_def return_from_def fail_exposure_def cleared_def clear_all_def)
  have "expose_step w fd p (At_samples n nsur) s = Some (Inl (- ECONNABORTED), snd (clear_all (- ECONNABORTED) s2))"
    using assms(6-11) 1(1) e by (simp add: expose_step_def samples_step_def try_stops_def)
  then have "expose_run w fd p (At_samples n nsur) s = Some (- ECONNABORTED, snd (clear_all (- ECONNABORTED) s2))"
    by (subst expose_run.simps) simp
  then show ?thesis using 1(4-7) assms(15,16) by (simp add: s2_def clear_all_def clear_exp_vals_def get_frame_def nat_less_iff)
qed

lemma abort_counted_as_failure_witness:
  "\<exists>s' g. expose_run demo_silent 3 \<lparr>pl_prevex = 1, pl_postex = 1, pl_bytes = 6, pl_exp_time = 5000, pl_coadds = 1, pl_sur = 1,
      pl_fast = False, pl_guideframes = 0\<rparr> (At_samples 0 1)
      (demo_module\<lparr>a_discard_coadd := True, a_stop_sequence := True, a_exposure_time := 5000\<rparr>) = Some (- ECONNABORTED, s')
    \<and> get_frame 0 s' = Some g \<and> fm_status g = FM_ERROR \<and> a_images_discarded s' = 1 \<and> a_coadds_discarded s' = 0"
proof -
  have "quiet_clock demo_silent 3 (\<lambda>d. sd_dhe d = demo_cam) 0"
    by (auto simp: quiet_clock_def demo_silent_def demo_cam_def read_exposure_time_def do_command_def drv_def)
  then show ?thesis
    using abort_counted_as_failure [of demo_silent 3 "\<lambda>d. sd_dhe d = demo_cam" 0
        "demo_module\<lparr>a_discard_coadd := True, a_stop_sequence := True, a_exposure_time := 5000\<rparr>" 1]
    by (simp add: demo_module_def astro_start_def get_exp_time_def to_i32_def)
qed

section \<open>The buffer of fast frames\<close>

text \<open>The place of the current frame.\<close>

definition in_fastbuf :: "'d astro \<Rightarrow> bool" where
  "in_fastbuf s \<longleftrightarrow> a_fastbufptr s \<le> a_curr_fastptr s
   \<and> a_curr_fastptr s + 2 * a_curr_imsize s \<le> a_fastbufptr s + 2 * a_fastbufsize s
   \<and> 0 < a_curr_imsize s \<and> a_curr_imsize s \<le> a_fastbufsize s
   \<and> a_max_ptr s = a_fastbufptr s + 2 * (a_fastbufsize s - a_curr_imsize s)"

lemma get_fastptr_inside:
  "in_fastbuf s \<Longrightarrow> in_fastbuf (snd (get_fastptr_val s)) \<and> fst (get_fastptr_val s) = a_curr_fastptr (snd (get_fastptr_val s))"
  by (simp add: in_fastbuf_def get_fastptr_val_def reset_fastptr_val_def Let_def)

lemma alloc_fastbuf_inside:
  assumes "alloc_fastbuf w fpb s = (OK, s')" "0 < a_curr_imsize s" "0 < fpb" "fpb * a_curr_imsize s < 2 ^ 31"
  shows "in_fastbuf s'"
proof -
  have "to_i32 (fpb * a_curr_imsize s) = fpb * a_curr_imsize s" using assms(2-4) by (simp add: to_i32_def)
  moreover have "a_curr_imsize s \<le> fpb * a_curr_imsize s" using assms(2,3) by simp
  moreover define z where "z = max MINFASTBUF (to_i32 (fpb * a_curr_imsize s))"
  ultimately have z: "a_curr_imsize s \<le> z" by simp
  show ?thesis
    using assms(1) [unfolded alloc_fastbuf_def z_def [symmetric] Let_def] assms(2) z
    by (auto simp: in_fastbuf_def release_imbuf_def split: if_splits prod.splits)
qed



end
