(* ===== verification/GenIII_PCIe.thy ===== *)
theory GenIII_PCIe imports AstroIII
begin

text \<open>
  The driver library of the PCIe controller, \<open>driver_api/genIII_pcie/genIII_pcieLib.c\<close>.  It calls the interface
  in C of the manufacturer's library (\<open>CArcDevice\<close>, third-party C++), the record \<open>arc\<close> over a state of its own:
  a call gives its value and the status it stores.
\<close>

abbreviation (input) EBUSY :: int where "EBUSY \<equiv> 16"
abbreviation (input) ARC_STATUS_OK :: int where "ARC_STATUS_OK \<equiv> 0"
abbreviation (input) ARC_STATUS_ERROR :: int where "ARC_STATUS_ERROR \<equiv> 1"

record 'a arc =
  arc_command :: "int \<Rightarrow> int \<Rightarrow> int list \<Rightarrow> 'a \<Rightarrow> (int \<times> int) \<times> 'a"   \<comment> \<open>board, command, arguments\<close>
  arc_frames :: "'a \<Rightarrow> (int \<times> int) \<times> 'a"
  arc_pixels :: "'a \<Rightarrow> (int \<times> int) \<times> 'a"
  arc_close :: "'a \<Rightarrow> 'a"
  arc_isopen :: "'a \<Rightarrow> int \<times> 'a"
  arc_find :: "'a \<Rightarrow> int \<times> 'a"
  arc_list :: "'a \<Rightarrow> int \<times> 'a"
  arc_open :: "int \<Rightarrow> int \<Rightarrow> 'a \<Rightarrow> int \<times> 'a"
  arc_buffer :: "'a \<Rightarrow> (int \<times> int) \<times> 'a"
  arc_reset_controller :: "'a \<Rightarrow> int \<times> 'a"
  arc_reset :: "'a \<Rightarrow> int \<times> 'a"
  arc_load :: "string \<Rightarrow> 'a \<Rightarrow> int \<times> 'a"
  arc_errno :: "'a \<Rightarrow> int"

record 'a pcie =
  y_reply :: int          \<comment> \<open>\<open>cmd_data[0]\<close>\<close>
  y_opened :: bool
  y_highmem :: int
  y_arc :: 'a

definition pcie_start :: "'a \<Rightarrow> 'a pcie" where
  "pcie_start a = \<lparr>y_reply = 0, y_opened = False, y_highmem = 0, y_arc = a\<rparr>"

section \<open>Commands\<close>

definition pcie_read_reply :: "int \<Rightarrow> 'a pcie \<Rightarrow> int" where
  "pcie_read_reply expected y =
     (let v = y_reply y in
      if v \<noteq> expected then (if v = ERR then - EIO else if v = TOUT then - ETIME else if expected \<noteq> 0 then - EIO else v)
      else DONE)"

definition pcie_args :: "int \<Rightarrow> int \<Rightarrow> int \<Rightarrow> int \<Rightarrow> int list" where
  "pcie_args arg1 arg2 arg3 arg4 =
     (if arg4 \<noteq> NONE then [arg1, arg2, arg3, arg4] else if arg3 \<noteq> NONE then [arg1, arg2, arg3]
      else if arg2 \<noteq> NONE then [arg1, arg2] else if arg1 \<noteq> NONE then [arg1] else [])"

definition pcie_do_command ::
  "'a arc \<Rightarrow> int \<Rightarrow> int \<Rightarrow> int \<Rightarrow> int \<Rightarrow> int \<Rightarrow> int \<Rightarrow> int \<Rightarrow> int \<Rightarrow> int \<Rightarrow> 'a pcie \<Rightarrow> (int \<times> 'a pcie) option" where
  "pcie_do_command A fd board command arg1 arg2 arg3 arg4 expected timeout y =
     (case arc_command A board command (pcie_args arg1 arg2 arg3 arg4) (y_arc y) of
        ((drep, stat), a) \<Rightarrow>
          (let y = y\<lparr>y_arc := a\<rparr> in
           if stat \<noteq> ARC_STATUS_OK then Some (- stat, y)
           else (let y = y\<lparr>y_reply := drep\<rparr> in Some (pcie_read_reply expected y, y))))"

text \<open>A counter; when the call fails, the value is negated, not the status.\<close>

definition pcie_count :: "('a \<Rightarrow> (int \<times> int) \<times> 'a) \<Rightarrow> 'a pcie \<Rightarrow> (int \<times> 'a pcie) option" where
  "pcie_count f y =
     (case f (y_arc y) of ((n, stat), a) \<Rightarrow> Some (if stat \<noteq> ARC_STATUS_OK then - n else n, y\<lparr>y_arc := a\<rparr>))"

definition pcie_get_frames_progress :: "'a arc \<Rightarrow> int \<Rightarrow> 'a pcie \<Rightarrow> (int \<times> 'a pcie) option" where
  "pcie_get_frames_progress A fd = pcie_count (arc_frames A)"

definition pcie_get_read_progress :: "'a arc \<Rightarrow> int \<Rightarrow> 'a pcie \<Rightarrow> (int \<times> 'a pcie) option" where
  "pcie_get_read_progress A fd = pcie_count (arc_pixels A)"

text \<open>Registers that this board does not have.\<close>

definition pcie_no_op :: "int \<Rightarrow> 'a pcie \<Rightarrow> (int \<times> 'a pcie) option" where
  "pcie_no_op r y = Some (r, y)"

definition pcie_status :: "('a \<Rightarrow> int \<times> 'a) \<Rightarrow> 'a pcie \<Rightarrow> (int \<times> 'a pcie) option" where
  "pcie_status f y = (case f (y_arc y) of (stat, a) \<Rightarrow> Some (if stat \<noteq> ARC_STATUS_OK then - stat else stat, y\<lparr>y_arc := a\<rparr>))"

definition pcie_reset_ctrler :: "'a arc \<Rightarrow> int \<Rightarrow> 'a pcie \<Rightarrow> (int \<times> 'a pcie) option" where
  "pcie_reset_ctrler A fd = pcie_status (arc_reset_controller A)"

definition pcie_reset_pci :: "'a arc \<Rightarrow> int \<Rightarrow> 'a pcie \<Rightarrow> (int \<times> 'a pcie) option" where
  "pcie_reset_pci A fd = pcie_status (arc_reset A)"

definition pcie_load_pci :: "'a arc \<Rightarrow> int \<Rightarrow> string \<Rightarrow> 'a pcie \<Rightarrow> (int \<times> 'a pcie) option" where
  "pcie_load_pci A fd filename = pcie_status (arc_load A filename)"

section \<open>Opening and closing\<close>

definition pcie_close_drv :: "'a arc \<Rightarrow> int \<Rightarrow> 'a pcie \<Rightarrow> (int \<times> 'a pcie) option" where
  "pcie_close_drv A fd y =
     (case arc_isopen A (arc_close A (y_arc y)) of (_, a) \<Rightarrow> Some (DONE, y\<lparr>y_arc := a, y_opened := False\<rparr>))"

text \<open>The value returned and what is stored to \<open>*highmemPtr\<close>.  Every failure of the manufacturer's library
  returns 0 and stores nothing.  (The name of the device is printed from a list; \<open>device\<close> is taken to be in it.)\<close>

definition pcie_open_drv :: "'a arc \<Rightarrow> int \<Rightarrow> int \<Rightarrow> string \<Rightarrow> 'a pcie \<Rightarrow> (int \<times> int option) \<times> 'a pcie" where
  "pcie_open_drv A device mapsize params y =
     (if y_opened y then ((- EBUSY, None), y)
      else (case arc_find A (y_arc y) of (st, a) \<Rightarrow>
        if st = ARC_STATUS_ERROR then ((0, None), y\<lparr>y_arc := a\<rparr>)
        else (case arc_list A a of (st, a) \<Rightarrow>
          if st = ARC_STATUS_ERROR then ((0, None), y\<lparr>y_arc := a\<rparr>)
          else (case arc_open A device mapsize a of (st, a) \<Rightarrow>
            if st = ARC_STATUS_ERROR then ((0, None), y\<lparr>y_arc := a\<rparr>)
            else (case arc_buffer A a of ((p, st), a) \<Rightarrow>
              let y = y\<lparr>y_arc := a\<rparr> in
              if st \<noteq> ARC_STATUS_OK then ((0, None), y)
              else if p = 0
              then (case pcie_close_drv A 0 (y\<lparr>y_highmem := p\<rparr>) of
                      Some (_, y) \<Rightarrow> ((- arc_errno A (y_arc y), Some p), y) | None \<Rightarrow> ((0, None), y))
              else ((250, Some p), y\<lparr>y_highmem := p, y_opened := True\<rparr>))))))"

definition pcie_link_info :: string where
  "pcie_link_info = ''pcie''"

definition pcie_cont_info :: string where
  "pcie_cont_info = ''SDSU GenIII''"

text \<open>What \<open>SDSU_InitLib\<close> finds in the library.\<close>

definition pcie_lib :: "'a arc \<Rightarrow> 'a pcie dhe" where
  "pcie_lib A = \<lparr>h_open = Some (pcie_open_drv A), h_close = Some (pcie_close_drv A),
     h_read_reply = Some (\<lambda>fd expected timeout y. Some (pcie_read_reply expected y, y)),
     h_get_progress = Some (pcie_get_read_progress A), h_get_frame_progress = Some (pcie_get_frames_progress A),
     h_get_hctr = Some (\<lambda>fd. pcie_no_op 0), h_get_hstr = Some (\<lambda>fd. pcie_no_op 0),
     h_set_cmd_data = Some (\<lambda>fd data. pcie_no_op DONE), h_do_command = Some (pcie_do_command A),
     h_set_hctr = Some (\<lambda>fd. pcie_no_op 0), h_set_hcvr = Some (\<lambda>fd command expected timeout. pcie_no_op 0),
     h_reset_controller = Some (pcie_reset_ctrler A), h_reset_pci = Some (pcie_reset_pci A),
     h_load_pci = Some (pcie_load_pci A), h_set_size = Some (\<lambda>fd ncols nrows. pcie_no_op DONE),
     h_get_link_info = Some (\<lambda>fd y. pcie_link_info), h_get_cont_info = Some (\<lambda>fd y. pcie_cont_info),
     h_set_pixtime = True, h_get_pixtime = True, h_artif_data = Some (\<lambda>fd ty args. pcie_no_op DONE)\<rparr>"

section \<open>A board that cannot be opened\<close>

text \<open>C33: A failed open is noticed only the first time.  When the board is gone the driver library answers 0, the
  controller library takes that for a descriptor, and \<open>open_driver\<close> looks at the address of the image memory alone:
  0 gives \<open>-ENOMEM\<close> and closes again, but an address left from an earlier session is taken for the new one, and
  the readouts of the session that now begins copy from there.\<close>

theorem failed_open_unnoticed:
  assumes "sd_dhe (a_sdsu s) = pcie_lib A" "\<not> sd_opened (a_sdsu s)" "\<not> y_opened (sd_dev (a_sdsu s))"
    and "arc_find A (y_arc (sd_dev (a_sdsu s))) = (ARC_STATUS_ERROR, a)"
  shows "\<exists>s'. open_driver w device s = Some ((0, Some (if a_highmemPtr s = 0 then - ENOMEM else 0)), s')
    \<and> sd_opened (a_sdsu s') = (a_highmemPtr s \<noteq> 0) \<and> a_highmemPtr s' = a_highmemPtr s
    \<and> (a_highmemPtr s \<noteq> 0 \<longrightarrow> a_framePtr s' = a_highmemPtr s) \<and> \<not> y_opened (sd_dev (a_sdsu s'))"
proof -
  let ?d = "(a_sdsu s)\<lparr>sd_dev := (sd_dev (a_sdsu s))\<lparr>y_arc := a\<rparr>, sd_opened := True\<rparr>"
  have o: "open_drv device (a_sdsu s) = ((0, None), ?d)"
    using assms by (simp add: open_drv_def pcie_lib_def pcie_open_drv_def)
  show ?thesis
  proof (cases "a_highmemPtr s = 0")
    case True
    then show ?thesis
      using o assms(1,3)
      by (simp add: open_driver_def Let_def close_driver_def dhe_call_def close_drv_def pcie_lib_def pcie_close_drv_def drv_def
          free_pointers_def release_imbuf_def split: prod.split)
  next
    case False
    then show ?thesis using o assms(3) by (simp add: open_driver_def Let_def init_cont_read_def)
  qed
qed

definition demo_arc :: "unit arc" where
  "demo_arc = \<lparr>arc_command = (\<lambda>b c as a. ((DON, 0), a)), arc_frames = (\<lambda>a. ((0, 0), a)), arc_pixels = (\<lambda>a. ((0, 0), a)),
     arc_close = (\<lambda>a. a), arc_isopen = (\<lambda>a. (0, a)), arc_find = (\<lambda>a. (ARC_STATUS_ERROR, a)), arc_list = (\<lambda>a. (0, a)),
     arc_open = (\<lambda>d n a. (0, a)), arc_buffer = (\<lambda>a. ((0, 0), a)), arc_reset_controller = (\<lambda>a. (0, a)), arc_reset = (\<lambda>a. (0, a)),
     arc_load = (\<lambda>f a. (0, a)), arc_errno = (\<lambda>a. 0)\<rparr>"

definition demo_session :: "unit pcie astro" where
  "demo_session = (astro_start ((sdsu_start (pcie_start ()))\<lparr>sd_dhe := pcie_lib demo_arc\<rparr>) (\<lambda>_. 0))\<lparr>a_highmemPtr := 4096\<rparr>"

definition still_world :: "unit pcie world" where
  "still_world = \<lparr>w_usleep = \<lambda>n s. s, w_clock = \<lambda>s. (0, s), w_UT = \<lambda>s. [], w_errno = \<lambda>d e. e, w_malloc = \<lambda>n s. 0\<rparr>"

lemma failed_open_unnoticed_witness:
  "\<exists>s'. open_driver still_world 0 demo_session = Some ((0, Some 0), s') \<and> a_framePtr s' = 4096"
proof -
  have "sd_dhe (a_sdsu demo_session) = pcie_lib demo_arc" "\<not> sd_opened (a_sdsu demo_session)"
    "\<not> y_opened (sd_dev (a_sdsu demo_session))" "arc_find demo_arc (y_arc (sd_dev (a_sdsu demo_session))) = (ARC_STATUS_ERROR, ())"
    and h: "a_highmemPtr demo_session = 4096"
    by (simp_all add: demo_session_def astro_start_def sdsu_start_def pcie_start_def demo_arc_def)
  from failed_open_unnoticed [OF this(1-4), of still_world 0] h show ?thesis by auto
qed

end
