(* ===== verification/Media.thy ===== *)
theory Media imports Univ
begin

text \<open>
  The media of the device server: \<open>media_libs/DEV_SerialLib.c\<close> and \<open>DEV_TcpLib.c\<close> under
  \<open>DRV_COMS/private/c/src/c_univ\<close>, which open a serial port or a connection from a line of settings, the
  calls of \<open>univLib.c\<close> that choose between them, the library of the other serial devices
  (\<open>c_serial1/commLib.c\<close>, with its calls for LabVIEW) and that of plain sockets
  (\<open>Common/Clib/src/sockLib.c\<close>).

  The kernel is the record \<open>kernel\<close> over a state of its own: a call gives \<open>Inl\<close> of an \<open>errno\<close> or \<open>Inr\<close> of its
  result.  \<open>None\<close> is an array that is overrun.
\<close>

section \<open>The kernel\<close>

abbreviation (input) EINPROGRESS :: int where "EINPROGRESS \<equiv> 115"

text \<open>The flags of a terminal, as in the system's \<open>termios.h\<close>.\<close>

abbreviation (input) ICRNL :: int where "ICRNL \<equiv> 0x100"
abbreviation (input) IXON :: int where "IXON \<equiv> 0x400"
abbreviation (input) IGNBRK :: int where "IGNBRK \<equiv> 0x1"
abbreviation (input) BRKINT :: int where "BRKINT \<equiv> 0x2"
abbreviation (input) IGNPAR :: int where "IGNPAR \<equiv> 0x4"
abbreviation (input) CRTSCTS :: int where "CRTSCTS \<equiv> 0x80000000"
abbreviation (input) OPOST :: int where "OPOST \<equiv> 0x1"
abbreviation (input) ONLCR :: int where "ONLCR \<equiv> 0x4"
abbreviation (input) CS6 :: int where "CS6 \<equiv> 0x10"
abbreviation (input) CS7 :: int where "CS7 \<equiv> 0x20"
abbreviation (input) CS8 :: int where "CS8 \<equiv> 0x30"
abbreviation (input) CSTOPB :: int where "CSTOPB \<equiv> 0x40"
abbreviation (input) CREAD :: int where "CREAD \<equiv> 0x80"
abbreviation (input) PARENB :: int where "PARENB \<equiv> 0x100"
abbreviation (input) PARODD :: int where "PARODD \<equiv> 0x200"
abbreviation (input) HUPCL :: int where "HUPCL \<equiv> 0x400"
abbreviation (input) CLOCAL :: int where "CLOCAL \<equiv> 0x800"
abbreviation (input) ISIG :: int where "ISIG \<equiv> 0x1"
abbreviation (input) ICANON :: int where "ICANON \<equiv> 0x2"
abbreviation (input) ECHO :: int where "ECHO \<equiv> 0x8"
abbreviation (input) IEXTEN :: int where "IEXTEN \<equiv> 0x8000"

record termios =
  t_iflag :: int
  t_oflag :: int
  t_cflag :: int
  t_lflag :: int
  t_vmin :: int
  t_vtime :: int

type_synonym ('a, 'k) sys = "'k \<Rightarrow> (int + 'a) \<times> 'k"

record 'k kernel =
  k_open :: "string \<Rightarrow> (int, 'k) sys"
  k_close :: "int \<Rightarrow> (unit, 'k) sys"
  k_isatty :: "int \<Rightarrow> (unit, 'k) sys"
  k_getattr :: "int \<Rightarrow> (termios, 'k) sys"
  k_setattr :: "int \<Rightarrow> termios \<Rightarrow> (unit, 'k) sys"
  k_nonblock :: "int \<Rightarrow> (unit, 'k) sys"
  k_setown :: "int \<Rightarrow> (unit, 'k) sys"
  k_select :: "bool \<Rightarrow> int \<Rightarrow> int \<Rightarrow> (int, 'k) sys"    \<comment> \<open>for writing, descriptor, seconds\<close>
  k_read :: "int \<Rightarrow> nat \<Rightarrow> (string, 'k) sys"
  k_write :: "int \<Rightarrow> string \<Rightarrow> (int, 'k) sys"
  k_host :: "string \<Rightarrow> 'k \<Rightarrow> int option \<times> 'k"            \<comment> \<open>does not set \<open>errno\<close>\<close>
  k_socket :: "bool \<Rightarrow> (int, 'k) sys"                   \<comment> \<open>for datagrams\<close>
  k_connect :: "int \<Rightarrow> int \<Rightarrow> int \<Rightarrow> (unit, 'k) sys"
  k_sockerr :: "int \<Rightarrow> (int, 'k) sys"

record 'k media =
  m_kern :: 'k
  m_errno :: int
  m_oldtio :: termios
  m_oldtio_valid :: bool
  m_media :: string

text \<open>A call of the kernel; \<open>errno\<close> is set when it fails.\<close>

definition sys_call :: "('a, 'k) sys \<Rightarrow> 'k media \<Rightarrow> (int + 'a) \<times> 'k media" where
  "sys_call f s =
     (case f (m_kern s) of (r, k) \<Rightarrow> (r, s\<lparr>m_kern := k, m_errno := (case r of Inl e \<Rightarrow> e | Inr _ \<Rightarrow> m_errno s)\<rparr>))"

section \<open>Serial ports\<close>

record port_line =
  sl_local :: string
  sl_errno :: int
  sl_port :: int
  sl_brate :: int
  sl_data :: int
  sl_stop :: int
  sl_parity :: int

text \<open>A number, and whether it is refused: after \<open>data\<close> and \<open>stop\<close> the baud rate is looked at, after
  \<open>timeout\<close> and \<open>block\<close> nothing but \<open>errno\<close>.\<close>

definition line_number :: "(int \<Rightarrow> port_line \<Rightarrow> port_line) \<Rightarrow> (port_line \<Rightarrow> bool) \<Rightarrow> port_line \<Rightarrow> (int + port_line) option" where
  "line_number store suspect p =
     do { (l, v, e) \<leftarrow> getInteger (sl_local p) (sl_errno p);
          let p = store v (p\<lparr>sl_local := l, sl_errno := e\<rparr>);
          Some (if suspect p \<and> e = EINVAL then Inl (- e) else Inr p) }"

definition line_parity :: "port_line \<Rightarrow> (int + port_line) option" where
  "line_parity p =
     do { (l, tok) \<leftarrow> getToken 128 (sl_local p);
          Some (if sl_errno p = EINVAL then Inl (- sl_errno p)
                else Inr (p\<lparr>sl_local := l, sl_parity := (if tok = ''odd'' then 1 else if tok = ''even'' then 2 else 0)\<rparr>)) }"

definition line_token :: "string \<Rightarrow> port_line \<Rightarrow> (int + port_line) option" where
  "line_token tok p =
     (if tok = ''port'' then line_number (\<lambda>v p. p\<lparr>sl_port := v\<rparr>) (\<lambda>p. sl_port p = 0) p
      else if tok = ''brate'' then line_number (\<lambda>v p. p\<lparr>sl_brate := v\<rparr>) (\<lambda>p. sl_brate p = 0) p
      else if tok = ''data'' then line_number (\<lambda>v p. p\<lparr>sl_data := v\<rparr>) (\<lambda>p. sl_brate p = 0) p
      else if tok = ''stop'' then line_number (\<lambda>v p. p\<lparr>sl_stop := v\<rparr>) (\<lambda>p. sl_brate p = 0) p
      else if tok = ''timeout'' then line_number (\<lambda>v p. p) (\<lambda>p. True) p
      else if tok = ''block'' then line_number (\<lambda>v p. p) (\<lambda>p. True) p
      else if tok = ''parity'' then line_parity p
      else Some (Inr p))"

lemma line_number_rest:
  assumes "line_number store suspect p = Some (Inr q)" "\<And>v p. sl_local (store v p) = sl_local p"
  shows "length (sl_local q) \<le> length (sl_local p)"
  using assms by (auto simp: line_number_def Let_def split: bind_splits if_splits dest!: getInteger_rest)

lemma line_token_rest: "line_token tok p = Some (Inr q) \<Longrightarrow> length (sl_local q) \<le> length (sl_local p)"
  by (auto simp: line_token_def line_parity_def split: bind_splits if_splits
      dest!: line_number_rest getToken_rest)

function line_loop :: "port_line \<Rightarrow> (int + port_line) option" where
  "line_loop p =
     (case checkIfEos (sl_local p) of
        None \<Rightarrow> None
      | Some True \<Rightarrow> Some (Inr p)
      | Some False \<Rightarrow>
          (case getToken 128 (sl_local p) of
             None \<Rightarrow> None
           | Some (l, tok) \<Rightarrow>
               (case line_token tok (p\<lparr>sl_local := l\<rparr>) of
                  None \<Rightarrow> None
                | Some (Inl e) \<Rightarrow> Some (Inl e)
                | Some (Inr q) \<Rightarrow> line_loop q)))"
  by pat_completeness auto
termination
  by (relation "measure (\<lambda>p. length (sl_local p))")
    (auto dest!: line_token_rest dest: token_progress)

declare line_loop.simps [simp del]

definition baud :: "int \<Rightarrow> int" where
  "baud brate =
     (if brate = 19200 then 14 else if brate = 9600 then 13 else if brate = 4800 then 12 else if brate = 2400 then 11
      else if brate = 1800 then 10 else if brate = 1200 then 9 else if brate = 600 then 8 else if brate = 300 then 7
      else if brate = 200 then 6 else 15)"

definition data_flag :: "int \<Rightarrow> int" where
  "data_flag n = (if n = 7 then CS7 else if n = 6 then CS6 else if n = 5 then 0 else CS8)"

definition stop_flag :: "int \<Rightarrow> int" where
  "stop_flag n = (if n = 2 then CSTOPB else 0)"

definition parity_flags :: "int \<Rightarrow> int" where
  "parity_flags n = (if n = 1 then PARENB OR PARODD else if n = 2 then PARENB else 0)"

text \<open>The attributes of the port are built in a variable of which three fields are set: \<open>junk\<close> is what is in the
  others.  Whether they are accepted is not looked at.\<close>

definition DEV_serial_set_port :: "'k kernel \<Rightarrow> termios \<Rightarrow> port_line \<Rightarrow> int \<Rightarrow> 'k media \<Rightarrow> int \<times> 'k media" where
  "DEV_serial_set_port K junk p port s =
     (case sys_call (k_open K (''/dev/ttyS'' @ dec port)) s of
        (Inl e, s) \<Rightarrow> (- e, s)
      | (Inr fd, s) \<Rightarrow>
          (let (r, s) = sys_call (k_getattr K fd) s;
               s = s\<lparr>m_oldtio := (case r of Inl _ \<Rightarrow> m_oldtio s | Inr t \<Rightarrow> t), m_oldtio_valid := True\<rparr>;
               t = junk\<lparr>t_cflag := baud (sl_brate p) OR data_flag (sl_data p) OR stop_flag (sl_stop p)
                       OR parity_flags (sl_parity p) OR CLOCAL OR CREAD, t_iflag := IGNPAR OR ICRNL, t_lflag := ICANON\<rparr>;
               (_, s) = sys_call (k_setattr K fd t) s in
           case sys_call (k_nonblock K fd) s of
             (Inl e, s) \<Rightarrow> (- e, s)
           | (Inr _, s) \<Rightarrow> (fd, snd (sys_call (k_setown K fd) s))))"

definition DEV_serial_close :: "'k kernel \<Rightarrow> int \<Rightarrow> 'k media \<Rightarrow> int \<times> 'k media" where
  "DEV_serial_close K fd s =
     (let s = (if m_oldtio_valid s then (snd (sys_call (k_setattr K fd (m_oldtio s)) s))\<lparr>m_oldtio_valid := False\<rparr> else s) in
      (0, snd (sys_call (k_close K fd) s)))"

definition DEV_serial_open :: "'k kernel \<Rightarrow> termios \<Rightarrow> string \<Rightarrow> 'k media \<Rightarrow> (int \<times> 'k media) option" where
  "DEV_serial_open K junk info s =
     do { r \<leftarrow> line_loop \<lparr>sl_local = info, sl_errno = m_errno s, sl_port = -1, sl_brate = 9600, sl_data = 8, sl_stop = 1, sl_parity = 0\<rparr>;
          (case r of
             Inl e \<Rightarrow> Some (e, s\<lparr>m_errno := EINVAL\<rparr>)
           | Inr p \<Rightarrow>
               (let s = s\<lparr>m_errno := sl_errno p\<rparr>;
                    (fd, s) = DEV_serial_set_port K junk p (if sl_port p < 0 then 0 else sl_port p) s in
                Some (fd, if fd < 0 then snd (DEV_serial_close K fd s) else s))) }"

section \<open>Connections\<close>

record host_line =
  hl_local :: string
  hl_errno :: int
  hl_port :: "int option"
  hl_host :: "string option"

definition host_token :: "string \<Rightarrow> host_line \<Rightarrow> (int + host_line) option" where
  "host_token tok p =
     (if tok = ''port'' then do {
        (l, v, e) \<leftarrow> getInteger (hl_local p) (hl_errno p);
        Some (if v = 0 \<and> e = EINVAL then Inl (- e) else Inr (p\<lparr>hl_local := l, hl_errno := e, hl_port := Some v\<rparr>)) }
      else if tok = ''host'' then do {
        (l, h) \<leftarrow> getToken 128 (hl_local p);
        Some (if hl_errno p = EINVAL then Inl (- hl_errno p) else Inr (p\<lparr>hl_local := l, hl_host := Some h\<rparr>)) }
      else Some (Inr p))"

lemma host_token_rest: "host_token tok p = Some (Inr q) \<Longrightarrow> length (hl_local q) \<le> length (hl_local p)"
  by (auto simp: host_token_def split: bind_splits if_splits dest!: getToken_rest getInteger_rest)

function host_loop :: "host_line \<Rightarrow> (int + host_line) option" where
  "host_loop p =
     (case checkIfEos (hl_local p) of
        None \<Rightarrow> None
      | Some True \<Rightarrow> Some (Inr p)
      | Some False \<Rightarrow>
          (case getToken 256 (hl_local p) of
             None \<Rightarrow> None
           | Some (l, tok) \<Rightarrow>
               (case host_token tok (p\<lparr>hl_local := l\<rparr>) of
                  None \<Rightarrow> None
                | Some (Inl e) \<Rightarrow> Some (Inl e)
                | Some (Inr q) \<Rightarrow> host_loop q)))"
  by pat_completeness auto
termination
  by (relation "measure (\<lambda>p. length (hl_local p))")
    (auto dest!: host_token_rest dest: token_progress)

declare host_loop.simps [simp del]

definition DEV_tcp_close :: "'k kernel \<Rightarrow> int \<Rightarrow> 'k media \<Rightarrow> int \<times> 'k media" where
  "DEV_tcp_close K fd s = (case sys_call (k_close K fd) s of (r, s) \<Rightarrow> (case r of Inl _ \<Rightarrow> -1 | Inr _ \<Rightarrow> 0, s))"

text \<open>A failure after the socket exists: it is closed, and \<open>errno\<close> is read afterwards.\<close>

definition give_up :: "'k kernel \<Rightarrow> int \<Rightarrow> 'k media \<Rightarrow> int \<times> 'k media" where
  "give_up K sock s = (let s = snd (sys_call (k_close K sock) s) in (- m_errno s, s))"

definition tcp_connect :: "'k kernel \<Rightarrow> int \<Rightarrow> int \<Rightarrow> 'k media \<Rightarrow> int \<times> 'k media" where
  "tcp_connect K address port s =
     (case sys_call (k_socket K False) s of
        (Inl e, s) \<Rightarrow> (- e, s)
      | (Inr sock, s) \<Rightarrow>
          (case sys_call (k_nonblock K sock) s of
             (Inl _, s) \<Rightarrow> give_up K sock s
           | (Inr _, s) \<Rightarrow>
               (case sys_call (k_connect K sock address (to_u16 port)) s of
                  (Inl e, s) \<Rightarrow> if e \<noteq> EINPROGRESS then give_up K sock s else (sock, s)
                | (Inr _, s) \<Rightarrow> (sock, s))))"

definition DEV_tcp_open :: "'k kernel \<Rightarrow> string \<Rightarrow> 'k media \<Rightarrow> (int \<times> 'k media) option" where
  "DEV_tcp_open K info s =
     do { r \<leftarrow> host_loop \<lparr>hl_local = info, hl_errno = m_errno s, hl_port = None, hl_host = None\<rparr>;
          (case r of
             Inl e \<Rightarrow> Some (e, s\<lparr>m_errno := EINVAL\<rparr>)
           | Inr p \<Rightarrow>
               (let s = s\<lparr>m_errno := hl_errno p\<rparr> in
                case (hl_host p, hl_port p) of
                  (Some host, Some port) \<Rightarrow>
                    (case k_host K host (m_kern s) of
                       (None, k) \<Rightarrow> Some (- m_errno s, s\<lparr>m_kern := k\<rparr>)
                     | (Some address, k) \<Rightarrow> Some (tcp_connect K address port (s\<lparr>m_kern := k\<rparr>)))
                | _ \<Rightarrow> Some (- EINVAL, s))) }"

section \<open>The choice of the medium\<close>

text \<open>\<open>char media[30]\<close>\<close>

definition UNIV_Open :: "'k kernel \<Rightarrow> termios \<Rightarrow> string \<Rightarrow> string \<Rightarrow> 'k media \<Rightarrow> (int \<times> 'k media) option" where
  "UNIV_Open K junk ty params s =
     do { m \<leftarrow> strcpy 30 ty;
          let s = s\<lparr>m_media := m\<rparr>;
          if m = ''serial'' then DEV_serial_open K junk params s else DEV_tcp_open K params s }"

definition UNIV_Close :: "'k kernel \<Rightarrow> int \<Rightarrow> 'k media \<Rightarrow> int \<times> 'k media" where
  "UNIV_Close K fd s = (if m_media s = ''serial'' then DEV_serial_close K fd s else DEV_tcp_close K fd s)"

section \<open>The library of the other serial devices\<close>

abbreviation (input) MAX_STR :: nat where "MAX_STR \<equiv> 240"
abbreviation (input) CBAUD :: int where "CBAUD \<equiv> 0x100F"

record 'k comm =
  c_kern :: 'k
  c_fd :: int
  c_portio :: termios

definition comm_call :: "('a, 'k) sys \<Rightarrow> 'k comm \<Rightarrow> (int + 'a) \<times> 'k comm" where
  "comm_call f s = (case f (c_kern s) of (r, k) \<Rightarrow> (r, s\<lparr>c_kern := k\<rparr>))"

text \<open>The handshake flag goes to the flags for output.  The speeds are all known to \<open>cfsetospeed\<close>, which puts them
  into the control flags.\<close>

definition comm_speed :: "int \<Rightarrow> int" where
  "comm_speed ib =
     (if ib = 2400 then 11 else if ib = 4800 then 12 else if ib = 9600 then 13 else if ib = 19200 then 14
      else if ib = 38400 then 15 else if ib = 57600 then 0x1001 else if ib = 115200 then 0x1002 else 13)"

definition comm_attributes :: "int \<Rightarrow> termios \<Rightarrow> termios" where
  "comm_attributes ib t = t\<lparr>
     t_iflag := (t_iflag t OR ICRNL) AND NOT IXON AND NOT IGNBRK AND NOT BRKINT,
     t_oflag := (t_oflag t OR CRTSCTS) AND NOT OPOST AND NOT ONLCR,
     t_cflag := ((t_cflag t OR CS8) AND NOT PARENB OR HUPCL) AND NOT CBAUD OR comm_speed ib,
     t_lflag := (t_lflag t AND NOT ISIG OR ICANON) AND NOT ECHO AND NOT IEXTEN,
     t_vmin := 0, t_vtime := 0\<rparr>"

definition comm_open_port :: "'k kernel \<Rightarrow> string \<Rightarrow> int \<Rightarrow> 'k comm \<Rightarrow> int \<times> 'k comm" where
  "comm_open_port K ttys ib s =
     (case comm_call (k_open K ttys) s of
        (Inl _, s) \<Rightarrow> (-1, s\<lparr>c_fd := -1\<rparr>)
      | (Inr fd, s) \<Rightarrow>
          (case comm_call (k_isatty K fd) (s\<lparr>c_fd := fd\<rparr>) of
             (Inl _, s) \<Rightarrow> (-2, s)
           | (Inr _, s) \<Rightarrow>
               (case comm_call (k_getattr K fd) s of
                  (Inl _, s) \<Rightarrow> (-3, s)
                | (Inr t, s) \<Rightarrow>
                    (let s = s\<lparr>c_portio := comm_attributes ib t\<rparr> in
                     case comm_call (k_setattr K fd (c_portio s)) s of (Inl _, s) \<Rightarrow> (-6, s) | (Inr _, s) \<Rightarrow> (0, s)))))"

definition comm_close_port :: "'k kernel \<Rightarrow> 'k comm \<Rightarrow> int \<times> 'k comm" where
  "comm_close_port K s = (case comm_call (k_close K (c_fd s)) s of (Inl _, s) \<Rightarrow> (-1, s) | (Inr _, s) \<Rightarrow> (0, s\<lparr>c_fd := -1\<rparr>))"

definition comm_send_msg :: "'k kernel \<Rightarrow> string \<Rightarrow> 'k comm \<Rightarrow> int \<times> 'k comm" where
  "comm_send_msg K out s =
     (case comm_call (k_write K (c_fd s) out) s of (r, s) \<Rightarrow> (if r = Inr (int (length out)) then 0 else -1, s))"

definition seven_bits :: "char \<Rightarrow> char" where
  "seven_bits c = char_of ((of_char c :: nat) mod 128)"

text \<open>The value returned and the characters in the buffer.  A failed \<open>select\<close> counts as input.\<close>

definition comm_get_msg :: "'k kernel \<Rightarrow> 'k comm \<Rightarrow> (int \<times> string) \<times> 'k comm" where
  "comm_get_msg K s =
     (case comm_call (k_select K False (c_fd s) 1) s of (r, s) \<Rightarrow>
        if r = Inr 0 then ((-1, []), s)
        else (case comm_call (k_read K (c_fd s) MAX_STR) s of
                (Inl _, s) \<Rightarrow> ((-1, []), s)
              | (Inr t, s) \<Rightarrow> ((int (length t), map seven_bits t), s)))"

subsection \<open>Calls for LabVIEW\<close>

text \<open>A string of LabVIEW has its length; it is copied to \<open>char buf[256]\<close> up to its first NUL.\<close>

definition c_string :: "string \<Rightarrow> string" where
  "c_string t = takeWhile (\<lambda>c. c \<noteq> NUL) t"

definition from_handle :: "string \<Rightarrow> string option" where
  "from_handle t = (if 256 \<le> length t then None else Some (c_string t))"

definition LVcomm_open_port :: "'k kernel \<Rightarrow> string \<Rightarrow> int \<Rightarrow> 'k comm \<Rightarrow> ((int \<times> int) \<times> 'k comm) option" where
  "LVcomm_open_port K name baudrate s =
     do { b \<leftarrow> from_handle name; Some (case comm_open_port K b baudrate s of (r, s) \<Rightarrow> ((r, 1), s)) }"

definition LVcomm_close_port :: "'k kernel \<Rightarrow> int \<Rightarrow> 'k comm \<Rightarrow> int \<times> 'k comm" where
  "LVcomm_close_port K fd s = (0, snd (comm_close_port K s))"

definition LVcomm_send_msg :: "'k kernel \<Rightarrow> int \<Rightarrow> string \<Rightarrow> 'k comm \<Rightarrow> (int \<times> 'k comm) option" where
  "LVcomm_send_msg K fd msg s = do { b \<leftarrow> from_handle msg; Some (comm_send_msg K b s) }"

text \<open>\<open>resize\<close> is whether LabVIEW's memory manager can hold the answer.\<close>

definition LVcomm_get_msg :: "'k kernel \<Rightarrow> (nat \<Rightarrow> bool) \<Rightarrow> int \<Rightarrow> 'k comm \<Rightarrow> (int \<times> string option) \<times> 'k comm" where
  "LVcomm_get_msg K resize fd s =
     (case comm_get_msg K s of ((r, b), s) \<Rightarrow>
        (if r \<le> 0 then (-1, None)
         else (let t = c_string b in if resize (length t + 1) then (0, Some t) else (-1, None)), s))"

section \<open>Plain sockets\<close>

definition socket_open :: "'k kernel \<Rightarrow> string \<Rightarrow> string \<Rightarrow> int \<Rightarrow> int \<Rightarrow> 'k media \<Rightarrow> int \<times> 'k media" where
  "socket_open K conn_type hname port secs s =
     (case k_host K hname (m_kern s) of
        (None, k) \<Rightarrow> (- m_errno s, s\<lparr>m_kern := k\<rparr>)
      | (Some address, k) \<Rightarrow>
          (case sys_call (k_socket K (conn_type = ''DGRAM'')) (s\<lparr>m_kern := k\<rparr>) of
             (Inl e, s) \<Rightarrow> (- e, s)
           | (Inr sock, s) \<Rightarrow>
               (case sys_call (k_nonblock K sock) s of
                  (Inl e, s) \<Rightarrow> (- e, s)
                | (Inr _, s) \<Rightarrow>
                    (case sys_call (k_connect K sock address (to_u16 port)) s of (r, s) \<Rightarrow>
                       if (case r of Inl e \<Rightarrow> e \<noteq> EINPROGRESS | Inr _ \<Rightarrow> False) then (- m_errno s, s)
                       else (case sys_call (k_select K True sock secs) s of
                               (Inl e, s) \<Rightarrow> (- e, s)
                             | (Inr n, s) \<Rightarrow>
                                 if n = 0 then (- ETIME, s)
                                 else (case sys_call (k_sockerr K sock) s of
                                         (Inl e, s) \<Rightarrow> (- e, s)
                                       | (Inr response, s) \<Rightarrow> (if response \<noteq> 0 then - response else sock, s)))))))"

definition socket_close :: "'k kernel \<Rightarrow> int \<Rightarrow> 'k media \<Rightarrow> int \<times> 'k media" where
  "socket_close K sock s = DEV_tcp_close K sock s"

definition socket_write :: "'k kernel \<Rightarrow> int \<Rightarrow> string \<Rightarrow> 'k media \<Rightarrow> int \<times> 'k media" where
  "socket_write K sock data s = (case sys_call (k_write K sock data) s of (Inl e, s) \<Rightarrow> (- e, s) | (Inr n, s) \<Rightarrow> (n, s))"

text \<open>The value returned and what is read.  The second \<open>read\<close> reports its failure as \<open>-1\<close>.\<close>

definition socket_read :: "'k kernel \<Rightarrow> int \<Rightarrow> nat \<Rightarrow> int \<Rightarrow> 'k media \<Rightarrow> (int \<times> string) \<times> 'k media" where
  "socket_read K sock nelems secs s =
     (case sys_call (k_read K sock nelems) s of
        (Inr t, s) \<Rightarrow> ((int (length t), t), s)
      | (Inl e, s) \<Rightarrow>
          if e \<noteq> EAGAIN then ((- e, []), s)
          else (case sys_call (k_select K False sock secs) s of
                  (Inl e, s) \<Rightarrow> ((- e, []), s)
                | (Inr n, s) \<Rightarrow>
                    if n = 0 then ((- ETIME, []), s)
                    else (case sys_call (k_read K sock nelems) s of
                            (Inl _, s) \<Rightarrow> ((-1, []), s)
                          | (Inr t, s) \<Rightarrow> ((int (length t), t), s))))"

end
