(* ===== verification/Media_Props.thy ===== *)
theory Media_Props imports Media
begin

text \<open>
  The media of the device server: a serial port gets the settings of its line and is given back as it was;
  what a stale \<open>errno\<close> and an unknown host do.
\<close>

section \<open>Settings of a serial port\<close>

text \<open>A line of settings as it stands in the configuration files.\<close>

definition parity_word :: "int \<Rightarrow> string" where
  "parity_word n = (if n = 1 then ''odd'' else if n = 2 then ''even'' else ''none'')"

definition settings_line :: "int \<Rightarrow> int \<Rightarrow> int \<Rightarrow> int \<Rightarrow> int \<Rightarrow> string" where
  "settings_line port brate dbits sbits par =
     ''port '' @ dec port @ '' brate '' @ dec brate @ '' data '' @ dec dbits @ '' stop '' @ dec sbits @ '' parity '' @ parity_word par @ '' ''"

text \<open>The next word of the line is a known one.\<close>

lemma line_loop_number:
  assumes "list_all plain w" "w \<noteq> []" "length w < 80" "v \<noteq> 0" "- (2 ^ 31) \<le> v" "v < 2 ^ 31"
    and "\<And>p. line_token w p = line_number store suspect p" "\<And>v p. sl_errno (store v p) = sl_errno p"
    and "sl_errno p \<noteq> EINVAL" "sl_local p = w @ CHR '' '' # dec v @ CHR '' '' # r"
  shows "line_loop p = line_loop (store v (p\<lparr>sl_local := r\<rparr>))"
proof -
  have 1: "checkIfEos (sl_local p) = Some False" unfolding assms(10) by (rule checkIfEos_word [OF assms(1-3)])
  have 2: "getToken 128 (sl_local p) = Some (dec v @ CHR '' '' # r, w)"
    unfolding assms(10) by (rule getToken_word) (use assms(1-3) in auto)
  note 3 = getInteger_dec [OF assms(4-6)]
  show ?thesis
    by (subst line_loop.simps) (use assms(9) in \<open>simp add: 1 2 3 assms(7,8) line_number_def Let_def\<close>)
qed

lemma line_loop_parity:
  assumes "par \<in> {0, 1, 2}" "sl_errno p \<noteq> EINVAL" "sl_local p = ''parity '' @ parity_word par @ '' ''"
  shows "line_loop p = Some (Inr (p\<lparr>sl_local := [], sl_parity := par\<rparr>))"
proof -
  have w: "list_all plain ''parity''" "list_all plain (parity_word par)" "parity_word par \<noteq> []" "length (parity_word par) < 80"
    by (simp_all add: plain_def is_blank_def is_break_def parity_word_def)
  have 0: "sl_local p = ''parity'' @ CHR '' '' # parity_word par @ CHR '' '' # []" using assms(3) by simp
  have 1: "checkIfEos (sl_local p) = Some False" unfolding 0 by (rule checkIfEos_word [OF w(1)]) simp_all
  have 2: "getToken 128 (sl_local p) = Some (parity_word par @ CHR '' '' # [], ''parity'')"
    unfolding 0 by (rule getToken_word [OF w(1)]) simp_all
  have 3: "getToken 128 (parity_word par @ CHR '' '' # []) = Some ([], parity_word par)"
    by (rule getToken_word [OF w(2,3)]) (use w(4) in simp)
  have 4: "line_loop (p\<lparr>sl_local := [], sl_parity := par\<rparr>) = Some (Inr (p\<lparr>sl_local := [], sl_parity := par\<rparr>))"
    by (subst line_loop.simps) (simp add: checkIfEos_nil)
  have 5: "(if parity_word par = ''odd'' then 1 else if parity_word par = ''even'' then 2 else 0) = par"
    using assms(1) by (auto simp: parity_word_def)
  show ?thesis
    by (subst line_loop.simps) (use assms(2) in \<open>simp add: 1 2 line_token_def line_parity_def 3 5 4\<close>)
qed

lemma settings_read:
  assumes "0 < port" "port < 2 ^ 31" "0 < brate" "brate < 2 ^ 31" "0 < dbits" "dbits < 2 ^ 31" "0 < sbits" "sbits < 2 ^ 31"
    and "par \<in> {0, 1, 2}" "sl_errno p \<noteq> EINVAL" "sl_local p = settings_line port brate dbits sbits par"
  shows "line_loop p = Some (Inr (p\<lparr>sl_local := [], sl_port := port, sl_brate := brate, sl_data := dbits, sl_stop := sbits, sl_parity := par\<rparr>))"
proof -
  have w: "list_all plain ''port''" "list_all plain ''brate''" "list_all plain ''data''" "list_all plain ''stop''"
    by (simp_all add: plain_def is_blank_def is_break_def)
  define r4 where "r4 = ''parity '' @ parity_word par @ '' ''"
  define r3 where "r3 = ''stop '' @ dec sbits @ CHR '' '' # r4"
  define r2 where "r2 = ''data '' @ dec dbits @ CHR '' '' # r3"
  define r1 where "r1 = ''brate '' @ dec brate @ CHR '' '' # r2"
  have 0: "sl_local p = ''port'' @ CHR '' '' # dec port @ CHR '' '' # r1"
    using assms(11) by (simp add: settings_line_def r1_def r2_def r3_def r4_def)
  define p1 where "p1 = p\<lparr>sl_local := r1, sl_port := port\<rparr>"
  define p2 where "p2 = p1\<lparr>sl_local := r2, sl_brate := brate\<rparr>"
  define p3 where "p3 = p2\<lparr>sl_local := r3, sl_data := dbits\<rparr>"
  define p4 where "p4 = p3\<lparr>sl_local := r4, sl_stop := sbits\<rparr>"
  have "line_loop p = line_loop p1" unfolding p1_def
    by (rule line_loop_number [OF w(1), where suspect = "\<lambda>p. sl_port p = 0"])
      (use assms 0 in \<open>simp_all add: line_token_def fun_eq_iff\<close>)
  also have "\<dots> = line_loop p2" unfolding p2_def
    by (rule line_loop_number [OF w(2), where suspect = "\<lambda>p. sl_brate p = 0"])
      (use assms in \<open>simp_all add: line_token_def p1_def r1_def\<close>)
  also have "\<dots> = line_loop p3" unfolding p3_def
    by (rule line_loop_number [OF w(3), where suspect = "\<lambda>p. sl_brate p = 0"])
      (use assms in \<open>simp_all add: line_token_def p2_def p1_def r2_def\<close>)
  also have "\<dots> = line_loop p4" unfolding p4_def
    by (rule line_loop_number [OF w(4), where suspect = "\<lambda>p. sl_brate p = 0"])
      (use assms in \<open>simp_all add: line_token_def p3_def p2_def p1_def r3_def\<close>)
  also have "\<dots> = Some (Inr (p4\<lparr>sl_local := [], sl_parity := par\<rparr>))"
    by (rule line_loop_parity) (use assms in \<open>simp_all add: p4_def p3_def p2_def p1_def r4_def\<close>)
  finally show ?thesis by (simp add: p4_def p3_def p2_def p1_def)
qed

section \<open>A port is set and given back\<close>

text \<open>What is used of a kernel: attributes belong to the device behind a descriptor, and stay.\<close>

definition terminals :: "'k kernel \<Rightarrow> ('k \<Rightarrow> int \<Rightarrow> string option) \<Rightarrow> ('k \<Rightarrow> string \<Rightarrow> termios) \<Rightarrow> bool" where
  "terminals K dev attrs \<longleftrightarrow>
     (\<forall>k name. \<exists>fd k'. k_open K name k = (Inr fd, k') \<and> 0 \<le> fd \<and> dev k' fd = Some name \<and> attrs k' = attrs k)
   \<and> (\<forall>k fd name. dev k fd = Some name \<longrightarrow>
        (\<exists>k'. k_getattr K fd k = (Inr (attrs k name), k') \<and> dev k' = dev k \<and> attrs k' = attrs k)
      \<and> (\<forall>t. \<exists>k'. k_setattr K fd t k = (Inr (), k') \<and> dev k' = dev k \<and> attrs k' = (attrs k)(name := t))
      \<and> (\<exists>k'. k_nonblock K fd k = (Inr (), k') \<and> dev k' = dev k \<and> attrs k' = attrs k))
   \<and> (\<forall>k fd. dev (snd (k_setown K fd k)) = dev k \<and> attrs (snd (k_setown K fd k)) = attrs k)
   \<and> (\<forall>k fd. attrs (snd (k_close K fd k)) = attrs k)"

lemma sys_call_ok: "f (m_kern s) = (Inr a, k) \<Longrightarrow> sys_call f s = (Inr a, s\<lparr>m_kern := k\<rparr>)"
  by (simp add: sys_call_def)

lemma sys_call_kern: "m_kern (snd (sys_call f s)) = snd (f (m_kern s))"
  "m_oldtio (snd (sys_call f s)) = m_oldtio s" "m_oldtio_valid (snd (sys_call f s)) = m_oldtio_valid s"
  "m_media (snd (sys_call f s)) = m_media s"
  by (simp_all add: sys_call_def split: prod.split)

lemma set_port_ok:
  assumes t: "terminals K dev attrs"
  shows "\<exists>fd s'. DEV_serial_set_port K junk p port s = (fd, s') \<and> 0 \<le> fd \<and> dev (m_kern s') fd = Some (''/dev/ttyS'' @ dec port)
    \<and> attrs (m_kern s') = (attrs (m_kern s))(''/dev/ttyS'' @ dec port := junk\<lparr>t_cflag := baud (sl_brate p) OR data_flag (sl_data p)
         OR stop_flag (sl_stop p) OR parity_flags (sl_parity p) OR CLOCAL OR CREAD, t_iflag := IGNPAR OR ICRNL, t_lflag := ICANON\<rparr>)
    \<and> m_oldtio s' = attrs (m_kern s) (''/dev/ttyS'' @ dec port) \<and> m_oldtio_valid s' \<and> m_media s' = m_media s"
proof -
  let ?n = "''/dev/ttyS'' @ dec port"
  let ?t = "junk\<lparr>t_cflag := baud (sl_brate p) OR data_flag (sl_data p)
         OR stop_flag (sl_stop p) OR parity_flags (sl_parity p) OR CLOCAL OR CREAD, t_iflag := IGNPAR OR ICRNL, t_lflag := ICANON\<rparr>"
  obtain fd k1 where 1: "k_open K ?n (m_kern s) = (Inr fd, k1)" "0 \<le> fd" "dev k1 fd = Some ?n" "attrs k1 = attrs (m_kern s)"
    using t unfolding terminals_def by blast
  obtain k2 where 2: "k_getattr K fd k1 = (Inr (attrs k1 ?n), k2)" "dev k2 = dev k1" "attrs k2 = attrs k1"
    using t 1(3) unfolding terminals_def by blast
  have d2: "dev k2 fd = Some ?n" using 1(3) 2(2) by simp
  obtain k3 where 3: "k_setattr K fd ?t k2 = (Inr (), k3)" "dev k3 = dev k2" "attrs k3 = (attrs k2)(?n := ?t)"
    using t d2 unfolding terminals_def by blast
  have d3: "dev k3 fd = Some ?n" using d2 3(2) by simp
  obtain k4 where 4: "k_nonblock K fd k3 = (Inr (), k4)" "dev k4 = dev k3" "attrs k4 = attrs k3"
    using t d3 unfolding terminals_def by blast
  have 5: "dev (snd (k_setown K fd k4)) = dev k4" "attrs (snd (k_setown K fd k4)) = attrs k4"
    using t unfolding terminals_def by blast+
  define s4 where "s4 = s\<lparr>m_oldtio := attrs k1 ?n, m_oldtio_valid := True, m_kern := k4\<rparr>"
  have "DEV_serial_set_port K junk p port s = (fd, snd (sys_call (k_setown K fd) s4))"
    using 1(1) 2(1) 3(1) 4(1) by (simp add: DEV_serial_set_port_def sys_call_ok Let_def s4_def)
  moreover have "m_kern s4 = k4" by (simp add: s4_def)
  ultimately show ?thesis
    using 1 2(2,3) 3(2,3) 4(2,3) 5 by (simp add: sys_call_kern) (simp add: s4_def)
qed


text \<open>A kernel whose state is the attributes of the devices and the last device opened.\<close>

definition demo_termios :: termios where
  "demo_termios = \<lparr>t_iflag = 1, t_oflag = 2, t_cflag = 3, t_lflag = 4, t_vmin = 5, t_vtime = 6\<rparr>"

definition demo_kernel :: "(string \<times> (string \<Rightarrow> termios)) kernel" where
  "demo_kernel = \<lparr>k_open = (\<lambda>n k. (Inr 3, (n, snd k))), k_close = (\<lambda>fd k. (Inr (), k)), k_isatty = (\<lambda>fd k. (Inr (), k)),
     k_getattr = (\<lambda>fd k. (Inr (snd k (fst k)), k)), k_setattr = (\<lambda>fd t k. (Inr (), (fst k, (snd k)(fst k := t)))),
     k_nonblock = (\<lambda>fd k. (Inr (), k)), k_setown = (\<lambda>fd k. (Inr (), k)), k_select = (\<lambda>b fd n k. (Inr 0, k)),
     k_read = (\<lambda>fd n k. (Inl EAGAIN, k)), k_write = (\<lambda>fd t k. (Inr (int (length t)), k)), k_host = (\<lambda>h k. (None, k)),
     k_socket = (\<lambda>d k. (Inr 4, k)), k_connect = (\<lambda>fd a p k. (Inr (), k)), k_sockerr = (\<lambda>fd k. (Inr 0, k))\<rparr>"

definition demo_media :: "(string \<times> (string \<Rightarrow> termios)) media" where
  "demo_media = \<lparr>m_kern = ([], \<lambda>_. demo_termios), m_errno = 0, m_oldtio = demo_termios, m_oldtio_valid = False, m_media = []\<rparr>"

lemma demo_terminals: "terminals demo_kernel (\<lambda>k fd. Some (fst k)) snd"
  by (simp add: terminals_def demo_kernel_def)


text \<open>A stale \<open>errno\<close> refuses a good line: nothing in the parser clears or sets \<open>EINVAL\<close>, so after any call that failed
  with it a line that names a parity is refused.\<close>

theorem stale_errno_refuses_parity:
  assumes "m_errno s = EINVAL" and "par \<in> {0, 1, 2}"
  shows "UNIV_Open K junk ''serial'' (''parity '' @ parity_word par @ '' '') s = Some (- EINVAL, s\<lparr>m_media := ''serial''\<rparr>)"
proof -
  have w: "list_all plain ''parity''" "list_all plain (parity_word par)" "parity_word par \<noteq> []" "length (parity_word par) < 80"
    by (simp_all add: plain_def is_blank_def is_break_def parity_word_def)
  have 0: "''parity '' @ parity_word par @ '' '' = ''parity'' @ CHR '' '' # parity_word par @ CHR '' '' # []" by simp
  have 1: "checkIfEos (''parity '' @ parity_word par @ '' '') = Some False" unfolding 0 by (rule checkIfEos_word [OF w(1)]) simp_all
  have 2: "getToken 128 (''parity '' @ parity_word par @ '' '') = Some (parity_word par @ CHR '' '' # [], ''parity'')"
    unfolding 0 by (rule getToken_word [OF w(1)]) simp_all
  have 3: "getToken 128 (parity_word par @ CHR '' '' # []) = Some ([], parity_word par)"
    by (rule getToken_word [OF w(2,3)]) (use w(4) in simp)
  have "line_loop \<lparr>sl_local = ''parity '' @ parity_word par @ '' '', sl_errno = EINVAL, sl_port = -1, sl_brate = 9600,
      sl_data = 8, sl_stop = 1, sl_parity = 0\<rparr> = Some (Inl (- EINVAL))"
    by (subst line_loop.simps) (simp only: port_line.simps 1 2 option.case bool.case prod.case, simp add: line_token_def line_parity_def 3)
  then show ?thesis using assms(1) by (simp add: UNIV_Open_def strcpy_def DEV_serial_open_def)
qed

lemma stale_errno_refuses_parity_witness:
  "UNIV_Open demo_kernel demo_termios ''serial'' (''parity '' @ parity_word 1 @ '' '') (demo_media\<lparr>m_errno := EINVAL\<rparr>)
   = Some (- EINVAL, demo_media\<lparr>m_errno := EINVAL, m_media := ''serial''\<rparr>)"
  using stale_errno_refuses_parity [of "demo_media\<lparr>m_errno := EINVAL\<rparr>" 1] by simp

text \<open>An unknown host is taken for an open device: the look-up does not set \<open>errno\<close>, so \<open>UNIV_Open\<close> returns
  the last failure of another call, and 0, the descriptor of the standard input, when there was none.\<close>

theorem unknown_host_opens_zero:
  assumes "host_loop \<lparr>hl_local = params, hl_errno = 0, hl_port = None, hl_host = None\<rparr> = Some (Inr p)" "hl_errno p = 0"
    and "hl_host p = Some host" "hl_port p \<noteq> None" and "\<And>k. k_host K host k = (None, k)" and "m_errno s = 0" "ty \<noteq> ''serial''" "length ty < 30"
  shows "UNIV_Open K junk ty params s = Some (0, s\<lparr>m_media := ty\<rparr>)"
  using assms by (auto simp: UNIV_Open_def strcpy_def DEV_tcp_open_def)

lemma unknown_host_opens_zero_witness:
  "UNIV_Open demo_kernel demo_termios ''tcp'' ''host nowhere port 5000 '' demo_media = Some (0, demo_media\<lparr>m_media := ''tcp''\<rparr>)"
proof (rule unknown_host_opens_zero)
  show "host_loop \<lparr>hl_local = ''host nowhere port 5000 '', hl_errno = 0, hl_port = None, hl_host = None\<rparr>
    = Some (Inr \<lparr>hl_local = [], hl_errno = 0, hl_port = Some 5000, hl_host = Some ''nowhere''\<rparr>)" by code_simp
qed (simp_all add: demo_kernel_def demo_media_def)

end
