(* ===== verification/Spec2Isabelle.thy ===== *)
theory Spec2Isabelle
  imports GU_Front_Props GU_Sections_Props Allocator Logic_Props Sdsu_Props
    Univ_Server_Props MathParser_Props Tcs MemLib BufMgr Dhe Gfits_Props GenIII_Props AstroIII_Props
    GenIII_PCIe Media_Props
begin

text \<open>
  A verification library for PAN/ArcVIEW, the control software of an astronomical camera: the C
  libraries under \<open>src/PAN/Modules\<close> that the LabVIEW program loads.

  \<^bold>\<open>The program and its parts.\<close>  An exposure goes through the parts in this order.  The exposure
  library (\<open>SDSU/private/c/src/astroIIILib.c\<close>) runs it: it starts the controller, follows the integration
  and copies what is read out into the buffers of the LabVIEW program.  It talks to the detector through
  the controller library (\<open>driver_api/sdsuLib.c\<close>), which calls the routines of a driver library: that of the
  PCI-X controller (\<open>genIII_pcix/genIIILib.c\<close>, on the kernel driver \<open>driver_2.6.X/astropci.c\<close>), that of the
  PCIe controller (\<open>genIII_pcie/genIII_pcieLib.c\<close>) or the simulated detector (\<open>sim/simLib.c\<close>).  The
  raw pixels arrive in memory that the kernel driver maps, or that the buffer manager
  (\<open>buffermgr/.../bufLib.c\<close>) or the high-memory allocator (\<open>Common/Clib/src/allocator.c\<close>) handed out.  The
  logic library (\<open>Logical/.../LogicLib.c\<close>, and its older form \<open>Common/Clib/src/memLib.c\<close>) coadds the reads, the
  unscrambling library (\<open>GUNSC/.../GU_algors.c\<close>, \<open>GU_transformations.c\<close>, \<open>GUnscrambling.c\<close>) puts the
  pixels of every amplifier in order, and the FITS library (\<open>GFITS/.../GfitsLib.c\<close>) assembles the
  amplifiers to an image and writes it.  Beside this path stand the exposure timer (\<open>DHE/.../dheLib.c\<close>),
  the clients of the telescope (\<open>tcsSmlLib.c\<close>, \<open>tcsSoarLib.c\<close>), the server that shares a serial or
  network device among clients (\<open>DRV_COMS/.../c_univ\<close>, with its \<open>media_libs\<close>), the libraries of other
  serial devices and of sockets (\<open>c_serial1/commLib.c\<close>, \<open>Common/Clib/src/sockLib.c\<close>), and the evaluator of
  the expressions in the configuration files (\<open>Common/private/c/mathparser/MathParserLib.c\<close>).

  \<^bold>\<open>Theories.\<close>  \<open>Prelude\<close>: C integers and division, counted loops with and without \<open>return\<close>, byte
  memory and \<open>memcpy\<close>.  \<open>Scatter\<close>: a loop that moves pixels, and the locale \<open>placement\<close> of readout
  orders.  \<open>CFloat\<close>: the single-precision operations the code applies to integers.  \<open>CText\<close>: \<open>sprintf\<close>,
  \<open>strtol\<close>, \<open>sscanf\<close>.

  \<^item> \<open>GU_State\<close>, \<open>GU_Unscramble\<close>, \<open>GU_Sections\<close>: the record \<open>gu\<close> holds the globals of \<open>GU_algors.c\<close>; the
    set-up calls, the four unscrambling routines, the section order of rows and the detector
    extensions.  \<open>GU_Rotate\<close>: \<open>GU_transformations.c\<close>.  \<open>GU_Front\<close>: \<open>GUnscrambling.c\<close>, which loads the
    routines and selects one.  The theories \<open>.._Props\<close> prove that unscrambling puts every pixel at
    its place, that it permutes the pixels, that quarter turns are inverse to each other, that blending
    and rearranging are what they should be, and the invariant of the tables in every reachable state.
  \<^item> \<open>Allocator\<close>: the list of regions of \<open>allocator.c\<close>, with its invariant (sorted, inside the buffer,
    disjoint) over every sequence of calls, and freeing as the inverse of allocating.
  \<^item> \<open>Logic\<close>, \<open>MemLib\<close>: coadding, Fowler sampling and image arithmetic on memory; \<open>Logic_Props\<close> relates
    the variants to each other and to the sum modulo \<open>2^32\<close>.
  \<^item> \<open>Sdsu\<close>, \<open>SimDriver\<close>: the record \<open>sdsu\<close> is parametric in the state of the driver, whose routines are a
    record of functions; the simulated driver is one instance.  The locale \<open>dsp_driver\<close> states what the
    controller library needs of a driver and is interpreted on it.  The properties show that commands
    reach the cells they name, and that the simulated read-out ends, or, for some sizes, does not.
  \<^item> \<open>AstroPci\<close>, \<open>AstroPci_Board\<close>, \<open>AstroPci_Props\<close>: the kernel driver, with its boards as an environment; the
    contract \<open>protocol\<close> is what the registers of a board promise, and a board that keeps it is given.  In
    every reachable state the image buffers of the boards are disjoint; waits end; an interrupt of another
    device leaves the lock taken.  \<open>GenIII\<close>, \<open>GenIII_Props\<close>: the driver library on top of it; the mode
    switches of the controller library reach the board through all three layers.  \<open>GenIII_PCIe\<close>: the driver
    library of the PCIe board, over the manufacturer's interface as a record of functions.
  \<^item> \<open>AstroIII\<close>, \<open>AstroIII_Props\<close>: the record \<open>astro\<close> holds the globals of \<open>astroIIILib.c\<close>, with the controller
    library inside; \<open>expose\<close>, whose labels are jumped to, is a one-step function over control positions.  The
    other threads run while the exposure sleeps: \<open>w_usleep\<close> is a function on the whole state, and a contract
    (\<open>camera\<close>, \<open>silent\<close>, \<open>quiet_clock\<close>) says what it may do.  Under \<open>camera\<close> a short exposure returns with the
    image in the caller's buffer; with no pixels a readout times out; a stopped exposure ends; the ring of
    fast frames stays in its buffer.
  \<^item> \<open>GetLib\<close>, \<open>Univ\<close>, \<open>Univ_Server\<close>: tokens, settings and local commands, the timed reads and writes of
    the device, and the select loop of \<open>univ_server.c\<close> with its table of clients.  \<open>Media\<close>, \<open>Media_Props\<close>: serial
    ports, connections and sockets over a record of kernel calls; a port gets the settings of its line and
    is given back as it was.
  \<^item> \<open>MathParser\<close>: the precedence parser with its error flag; the properties invert a printer.
  \<^item> \<open>Tcs\<close>, \<open>BufMgr\<close>, \<open>Dhe\<close>: messages to the telescope, the account of the buffer manager, the timer.
  \<^item> \<open>Gfits_State\<close>, \<open>Gfits_Write\<close>, \<open>Gfits_File\<close>: the record \<open>gf\<close> holds the globals of \<open>GfitsLib.c\<close>; the
    geometry of the image, the writing of pieces, files, extensions and keywords.  CFITSIO is a record
    of functions over a state of its own.  \<open>Gfits_Mem_Props\<close>: images in memory stay inside their buffer,
    and the canvas has room.  \<open>Gfits_Props\<close>: the pieces of an image, end to end from \<open>GF_init\<close>, put every
    amplifier at its place; the frames of a cube written from a buffer drift.

  \<^bold>\<open>Conventions.\<close>  A C integer is an \<open>int\<close> with its conversions written out.  Undefined behaviour (a
  null pointer followed, an array overrun, a division by zero, a float that does not fit) is \<open>None\<close>, or
  a constructor of its own (\<open>Overrun\<close>, \<open>Overflow\<close>).  \<open>malloc\<close>, the dynamic loader, random pixels, the clock
  and the kernel's answers are parameters; where a call consumes a sequence of answers the parameter
  is a list, and a call that needs more than the list has is \<open>Waiting\<close>.  Standard output is left out.

  \<^bold>\<open>Bounds.\<close>  The expression parser takes fuel; one step per character and one more suffice
  (\<open>parser_terminates\<close>).  The loops that wait for hardware or run an exposure are \<open>partial_function\<close>s, so
  that not to return is \<open>None\<close>; the properties about them prove that they return, by measures on the contract
  (the pixels still to come and the sleeps until the next).  All other loops are structural, counted, or recursions
  on the list of answers.  Properties on sizes assume that byte counts stay below \<open>2^31\<close>, as the code's \<open>i32\<close>
  offsets do; a frame of \<open>exposure_delivers_image\<close> has fewer than \<open>2^23\<close> pixels of 16 bits.

  \<^bold>\<open>Not modelled.\<close>  Threads preempt each other at the sleeps of an exposure only.  Left out are the
  shared-memory builds, the drivers for Linux 2.4 and of the PCIe board's manufacturer with its C++ classes,
  the parsers of DSP load files, the pixel time and delays set as floats, statistics accumulated in
  floats, the RPC and data handling clients (generated or absent libraries), LabVIEW diagrams, test programs,
  the headers of CFITSIO, and second copies of modules; the manifest lists every such part with its reason.
\<close>

end
